(* ===== verification/Prelude.thy ===== *)
theory Prelude
  imports Complex_Main "HOL-Library.Multiset" "HOL-Library.Char_ord" "HOL-Library.List_Lexorder"
begin

text \<open>
  Shared vocabulary of the development: results of fallible code, the JavaScript idioms
  that several components use (deduplication through a \<open>Set\<close>, bounded page sizes), SQL
  statements on tables kept as lists of rows, comparator sorting, and the invariant rule
  for step systems. Strings are HOL strings (lists of 8-bit characters) ordered
  lexicographically, which on ASCII text is the order of JavaScript's default sort and of
  SQLite's BINARY collation.
\<close>

named_theorems table_simps \<open>rewriting of tables under updates and look-ups\<close>
named_theorems inv_intros \<open>introduction rules: an operation keeps an invariant\<close>

section \<open>Results of fallible code\<close>

text \<open>A value or the error that was thrown; \<open>Inl\<close> is the throw.\<close>

type_synonym ('e, 'a) result = "'e + 'a"

definition bind_res :: "('e, 'a) result \<Rightarrow> ('a \<Rightarrow> ('e, 'b) result) \<Rightarrow> ('e, 'b) result" where
  "bind_res m f = (case m of Inl e \<Rightarrow> Inl e | Inr x \<Rightarrow> f x)"

definition require :: "bool \<Rightarrow> 'e \<Rightarrow> ('e, unit) result" where
  "require b e = (if b then Inr () else Inl e)"

lemma bind_res_simps [simp]:
  "bind_res (Inl e) f = Inl e"
  "bind_res (Inr x) f = f x"
  by (simp_all add: bind_res_def)

lemma bind_res_eq_Inr: "bind_res m f = Inr y \<longleftrightarrow> (\<exists>x. m = Inr x \<and> f x = Inr y)"
  by (cases m) auto

lemma require_eq_Inr [simp]: "require b e = Inr u \<longleftrightarrow> b"
  by (simp add: require_def)

lemma require_eq_Inl [simp]: "require b e = Inl e' \<longleftrightarrow> \<not> b \<and> e = e'"
  by (auto simp: require_def)

text \<open>A loop of checks over a list: the first failing element decides.\<close>

fun all_ok :: "('a \<Rightarrow> ('e, unit) result) \<Rightarrow> 'a list \<Rightarrow> ('e, unit) result" where
  "all_ok f [] = Inr ()"
| "all_ok f (x # xs) = bind_res (f x) (\<lambda>_. all_ok f xs)"

lemma all_ok_Inr: "all_ok f xs = Inr u \<longleftrightarrow> (\<forall>x \<in> set xs. f x = Inr ())"
  by (induction xs) (auto simp: bind_res_eq_Inr)

section \<open>Sets as deduplicated arrays\<close>

text \<open>\<open>[...new Set(xs)]\<close> keeps the first occurrence of every value.\<close>

definition nub :: "'a list \<Rightarrow> 'a list" where
  "nub xs = rev (remdups (rev xs))"

lemma set_nub [simp]: "set (nub xs) = set xs"
  by (simp add: nub_def)

lemma distinct_nub [simp]: "distinct (nub xs)"
  by (simp add: nub_def)

lemma nub_distinct: "distinct xs \<Longrightarrow> nub xs = xs"
  by (simp add: nub_def distinct_remdups_id)

text \<open>\<open>[...new Set(xs)].sort()\<close>.\<close>

definition sorted_unique :: "'a::linorder list \<Rightarrow> 'a list" where
  "sorted_unique xs = sort (nub xs)"

lemma set_sorted_unique [simp]: "set (sorted_unique xs) = set xs"
  by (simp add: sorted_unique_def)

lemma sorted_unique_sorted [simp]: "sorted (sorted_unique xs)"
  by (simp add: sorted_unique_def)

lemma sorted_unique_distinct [simp]: "distinct (sorted_unique xs)"
  by (simp add: sorted_unique_def)

lemma sorted_unique_eq_iff: "sorted_unique xs = sorted_unique ys \<longleftrightarrow> set xs = set ys"
  by (metis set_sorted_unique sorted_distinct_set_unique sorted_unique_distinct sorted_unique_sorted)

lemma sorted_unique_Nil_iff [simp]: "sorted_unique xs = [] \<longleftrightarrow> xs = []"
  by (metis set_empty set_sorted_unique)

section \<open>Bounded numeric options\<close>

text \<open>
  \<open>Math.max(1, Math.min(cap, Number(limit) || dflt))\<close>: \<open>None\<close> is an argument that
  \<open>Number\<close> turns into \<open>NaN\<close>; zero is falsy and takes the default too.
\<close>

definition bounded_limit :: "int \<Rightarrow> int \<Rightarrow> int option \<Rightarrow> nat" where
  "bounded_limit cap dflt limit =
     nat (max 1 (min cap (case limit of None \<Rightarrow> dflt | Some n \<Rightarrow> if n = 0 then dflt else n)))"

lemma bounded_limit_bounds: "1 \<le> cap \<Longrightarrow> 1 \<le> bounded_limit cap d l \<and> int (bounded_limit cap d l) \<le> cap"
  by (auto simp: bounded_limit_def split: option.splits)

section \<open>Tables as lists of rows\<close>

text \<open>
  A table is the list of its rows in insertion order. \<open>UPDATE t SET .. WHERE P\<close> is
  \<open>upd_where P f\<close>, \<open>SELECT .. WHERE P\<close> is \<open>filter P\<close>, \<open>.get()\<close> of a statement is
  \<open>List.find\<close>, \<open>DELETE .. WHERE P\<close> is \<open>filter (\<lambda>r. \<not> P r)\<close>.
\<close>

definition upd_where :: "('r \<Rightarrow> bool) \<Rightarrow> ('r \<Rightarrow> 'r) \<Rightarrow> 'r list \<Rightarrow> 'r list" where
  "upd_where P f rows = map (\<lambda>r. if P r then f r else r) rows"

lemma upd_where_simps [simp, table_simps]:
  "upd_where P f [] = []"
  "upd_where P f (r # rs) = (if P r then f r else r) # upd_where P f rs"
  "upd_where P f (rs @ rs') = upd_where P f rs @ upd_where P f rs'"
  by (simp_all add: upd_where_def)

lemma length_upd_where [simp, table_simps]: "length (upd_where P f rows) = length rows"
  by (simp add: upd_where_def)

lemma in_upd_where: "r \<in> set (upd_where P f rows) \<longleftrightarrow> (\<exists>q \<in> set rows. r = (if P q then f q else q))"
  by (auto simp: upd_where_def)

lemma map_upd_where_same [table_simps]:
  "(\<And>r. P r \<Longrightarrow> g (f r) = g r) \<Longrightarrow> map g (upd_where P f rows) = map g rows"
  by (auto simp: upd_where_def)

lemma filter_upd_where_other [table_simps]:
  "(\<And>r. P r \<Longrightarrow> \<not> Q r) \<Longrightarrow> (\<And>r. P r \<Longrightarrow> \<not> Q (f r)) \<Longrightarrow> filter Q (upd_where P f rows) = filter Q rows"
  by (induction rows) auto

lemma list_all_upd_where:
  "list_all I rows \<Longrightarrow> (\<And>r. r \<in> set rows \<Longrightarrow> I r \<Longrightarrow> P r \<Longrightarrow> I (f r)) \<Longrightarrow> list_all I (upd_where P f rows)"
  by (auto simp: list_all_iff in_upd_where)

lemma find_upd_where_other:
  "(\<And>r. P r \<Longrightarrow> \<not> Q r) \<Longrightarrow> (\<And>r. P r \<Longrightarrow> \<not> Q (f r)) \<Longrightarrow> List.find Q (upd_where P f rows) = List.find Q rows"
  by (induction rows) auto

lemma find_upd_where:
  "(\<And>r. P r \<Longrightarrow> Q (f r) = Q r) \<Longrightarrow>
   List.find Q (upd_where P f rows) = map_option (\<lambda>r. if P r then f r else r) (List.find Q rows)"
  by (induction rows) auto

lemma find_SomeD: "List.find P xs = Some x \<Longrightarrow> x \<in> set xs \<and> P x"
  by (induction xs) (auto split: if_splits)

lemma find_NoneD: "List.find P xs = None \<Longrightarrow> x \<in> set xs \<Longrightarrow> \<not> P x"
  by (induction xs) (auto split: if_splits)

lemma find_append: "List.find P (xs @ ys) = (case List.find P xs of None \<Rightarrow> List.find P ys | Some x \<Rightarrow> Some x)"
  by (induction xs) auto

lemma find_unique:
  "distinct (map k xs) \<Longrightarrow> x \<in> set xs \<Longrightarrow> k x = a \<Longrightarrow> List.find (\<lambda>r. k r = a) xs = Some x"
  by (induction xs) (auto simp: image_iff)

lemma count_list_distinct: "distinct xs \<Longrightarrow> count_list xs x = (if x \<in> set xs then 1 else 0)"
  by (induction xs) auto

lemma list_all2_in2: "list_all2 P xs ys \<Longrightarrow> y \<in> set ys \<Longrightarrow> \<exists>x \<in> set xs. P x y"
  by (induction rule: list_all2_induct) auto

lemma list_all2_in1: "list_all2 P xs ys \<Longrightarrow> x \<in> set xs \<Longrightarrow> \<exists>y \<in> set ys. P x y"
  by (induction rule: list_all2_induct) auto

section \<open>Sorting by a comparator\<close>

text \<open>\<open>ORDER BY\<close> and \<open>Array.prototype.sort\<close>: a stable insertion sort by the
  comparator's \<open>\<le>\<close>.\<close>

fun insort_by :: "('a \<Rightarrow> 'a \<Rightarrow> bool) \<Rightarrow> 'a \<Rightarrow> 'a list \<Rightarrow> 'a list" where
  "insort_by le x [] = [x]"
| "insort_by le x (y # ys) = (if le x y then x # y # ys else y # insort_by le x ys)"

fun order_by :: "('a \<Rightarrow> 'a \<Rightarrow> bool) \<Rightarrow> 'a list \<Rightarrow> 'a list" where
  "order_by le [] = []"
| "order_by le (x # xs) = insort_by le x (order_by le xs)"

lemma mset_insort_by [simp]: "mset (insort_by le x xs) = add_mset x (mset xs)"
  by (induction xs) auto

lemma mset_order_by [simp]: "mset (order_by le xs) = mset xs"
  by (induction xs) auto

lemma set_order_by [simp]: "set (order_by le xs) = set xs"
  by (metis mset_order_by set_mset_mset)

lemma length_order_by [simp]: "length (order_by le xs) = length xs"
  by (metis mset_order_by size_mset)

lemma set_insort_by [simp]: "set (insort_by le x xs) = insert x (set xs)"
  by (induction xs) auto

text \<open>The contract a comparator has to meet for the sort to deliver an ordered list.\<close>

locale total_preorder =
  fixes le :: "'a \<Rightarrow> 'a \<Rightarrow> bool"
  assumes total: "le x y \<or> le y x"
    and trans: "le x y \<Longrightarrow> le y z \<Longrightarrow> le x z"
begin

lemma sorted_insort_by: "sorted_wrt le xs \<Longrightarrow> sorted_wrt le (insort_by le x xs)"
proof (induction xs)
  case (Cons y ys)
  then show ?case
    using total trans by (auto split: if_splits)
qed simp

lemma sorted_order_by: "sorted_wrt le (order_by le xs)"
  by (induction xs) (auto intro: sorted_insort_by)

end

section \<open>Step systems and invariants\<close>

text \<open>Reachability of a machine given by its initial states and its steps.\<close>

inductive reach :: "('s \<Rightarrow> bool) \<Rightarrow> ('s \<Rightarrow> 's \<Rightarrow> bool) \<Rightarrow> 's \<Rightarrow> bool" for init step where
  reach_init: "init s \<Longrightarrow> reach init step s"
| reach_step: "reach init step s \<Longrightarrow> step s t \<Longrightarrow> reach init step t"

locale invariant_system =
  fixes init :: "'s \<Rightarrow> bool" and step :: "'s \<Rightarrow> 's \<Rightarrow> bool" and inv :: "'s \<Rightarrow> bool"
  assumes inv_init: "init s \<Longrightarrow> inv s"
    and inv_step: "inv s \<Longrightarrow> step s t \<Longrightarrow> inv t"
begin

lemma reach_inv: "reach init step s \<Longrightarrow> inv s"
  by (induction rule: reach.induct) (auto intro: inv_init inv_step)

text \<open>A quantity that no step from an invariant state decreases grows along every run.\<close>

lemma steps_mono:
  assumes mono: "\<And>s t. inv s \<Longrightarrow> step s t \<Longrightarrow> R s t"
    and refl: "\<And>s. R s s" and trans: "\<And>s t u. R s t \<Longrightarrow> R t u \<Longrightarrow> R s u"
    and s: "inv s" and run: "step\<^sup>*\<^sup>* s t"
  shows "R s t \<and> inv t"
  using run
proof (induction rule: rtranclp_induct)
  case base
  show ?case using refl s by simp
next
  case (step t u)
  then show ?case using mono trans inv_step by blast
qed

end

end
