(* ===== verification/Js.thy ===== *)
theory Js
  imports Prelude
begin

text \<open>
  JavaScript values as the code passes them around, the operators the code applies to them
  (truthiness, \<open>??\<close>, \<open>?.\<close>, strict equality), and the runtime services that are not part
  of the repository. Numbers are finite rationals: values come from JSON, which has no
  \<open>NaN\<close> and no infinities. An object is the list of its own enumerable properties in
  insertion order; properties inherited from \<open>Object.prototype\<close> are not modelled.
\<close>

section \<open>Values\<close>

datatype js =
    Undef
  | Null
  | Bool bool
  | Num rat
  | Str string
  | Arr "js list"
  | Obj "(string \<times> js) list"

fun truthy :: "js \<Rightarrow> bool" where
  "truthy Undef = False"
| "truthy Null = False"
| "truthy (Bool b) = b"
| "truthy (Num n) = (n \<noteq> 0)"
| "truthy (Str s) = (s \<noteq> [])"
| "truthy (Arr _) = True"
| "truthy (Obj _) = True"

fun nullish :: "js \<Rightarrow> bool" where
  "nullish Undef = True"
| "nullish Null = True"
| "nullish _ = False"

text \<open>\<open>v ?? d\<close>\<close>

definition orelse :: "js \<Rightarrow> js \<Rightarrow> js" where
  "orelse v d = (if nullish v then d else v)"

text \<open>\<open>v?.k\<close>, also \<open>v.k\<close> where \<open>v\<close> is known to be an object\<close>

fun get :: "js \<Rightarrow> string \<Rightarrow> js" where
  "get (Obj kvs) k = (case map_of kvs k of None \<Rightarrow> Undef | Some v \<Rightarrow> v)"
| "get _ k = Undef"

fun is_plain :: "js \<Rightarrow> bool" where
  "is_plain (Obj _) = True"
| "is_plain _ = False"

fun is_arr :: "js \<Rightarrow> bool" where
  "is_arr (Arr _) = True"
| "is_arr _ = False"

fun is_str :: "js \<Rightarrow> bool" where
  "is_str (Str _) = True"
| "is_str _ = False"

fun is_num :: "js \<Rightarrow> bool" where
  "is_num (Num _) = True"
| "is_num _ = False"

text \<open>The elements of an array; nothing for any other value.\<close>

fun items :: "js \<Rightarrow> js list" where
  "items (Arr xs) = xs"
| "items _ = []"

text \<open>\<open>Object.keys\<close> and \<open>Object.entries\<close>\<close>

fun entries :: "js \<Rightarrow> (string \<times> js) list" where
  "entries (Obj kvs) = kvs"
| "entries _ = []"

definition keys :: "js \<Rightarrow> string list" where
  "keys v = map fst (entries v)"

text \<open>\<open>===\<close>: primitives by value; two objects (arrays) of different expressions are
  different references.\<close>

fun strict_eq :: "js \<Rightarrow> js \<Rightarrow> bool" where
  "strict_eq (Arr _) _ = False"
| "strict_eq (Obj _) _ = False"
| "strict_eq v w = (v = w)"

text \<open>\<open>xs.includes(v)\<close>\<close>

definition js_includes :: "js list \<Rightarrow> js \<Rightarrow> bool" where
  "js_includes xs v = list_ex (\<lambda>x. strict_eq x v) xs"

text \<open>Membership of a value in a set of strings.\<close>

fun str_in :: "js \<Rightarrow> string list \<Rightarrow> bool" where
  "str_in (Str s) ss = (s \<in> set ss)"
| "str_in _ ss = False"

lemma truthy_not_nullish: "truthy v \<Longrightarrow> \<not> nullish v"
  by (cases v) auto

lemma strict_eq_Str [simp]: "strict_eq v (Str s) \<longleftrightarrow> v = Str s"
  by (cases v) auto

lemma strict_eq_Str2 [simp]: "strict_eq (Str s) v \<longleftrightarrow> v = Str s"
  by auto

lemma strict_eqD: "strict_eq v w \<Longrightarrow> v = w"
  by (cases v) auto

lemma js_includes_Str [simp]: "js_includes xs (Str s) \<longleftrightarrow> Str s \<in> set xs"
  by (auto simp: js_includes_def list_ex_iff)

lemma js_includes_in: "js_includes xs v \<Longrightarrow> v \<in> set xs"
  by (auto simp: js_includes_def list_ex_iff dest: strict_eqD)

lemma str_inE: "str_in v ss \<Longrightarrow> (\<And>s. v = Str s \<Longrightarrow> s \<in> set ss \<Longrightarrow> P) \<Longrightarrow> P"
  by (cases v) auto

lemma is_plainE: "is_plain v \<Longrightarrow> (\<And>kvs. v = Obj kvs \<Longrightarrow> P) \<Longrightarrow> P"
  by (cases v) auto

section \<open>Services of the runtime\<close>

text \<open>
  What the code uses and the repository does not contain: \<open>Date.parse\<close> (\<open>None\<close> for
  \<open>NaN\<close>) and \<open>toISOString\<close>, the decimal rendering of numbers, SHA-256 in hex,
  locale-aware lower-casing and comparison. Every definition that needs one takes the record
  as its first argument; theorems hold for every instance.
\<close>

record runtime =
  date_parse :: "string \<Rightarrow> int option"
  to_iso :: "int \<Rightarrow> string"
  num_str :: "rat \<Rightarrow> string"
  sha256_hex :: "string \<Rightarrow> string"
  to_lower :: "string \<Rightarrow> string"
  locale_compare :: "string \<Rightarrow> string \<Rightarrow> int"

text \<open>\<open>Date.parse(a) <= Date.parse(b)\<close>: false when either side is \<open>NaN\<close>.\<close>

definition date_le :: "runtime \<Rightarrow> string \<Rightarrow> string \<Rightarrow> bool" where
  "date_le rt a b = (case (date_parse rt a, date_parse rt b) of
     (Some x, Some y) \<Rightarrow> x \<le> y | _ \<Rightarrow> False)"

definition valid_date :: "runtime \<Rightarrow> string \<Rightarrow> bool" where
  "valid_date rt s \<longleftrightarrow> date_parse rt s \<noteq> None"

section \<open>JSON text\<close>

fun join :: "string \<Rightarrow> string list \<Rightarrow> string" where
  "join sep [] = []"
| "join sep [x] = x"
| "join sep (x # y # ys) = x @ sep @ join sep (y # ys)"

definition hex_digit :: "nat \<Rightarrow> char" where
  "hex_digit n = ''0123456789abcdef'' ! (n mod 16)"

definition escape_char :: "char \<Rightarrow> string" where
  "escape_char c =
     (let n = of_char c :: nat in
      if c = CHR 0x22 then [CHR 0x5C, CHR 0x22]
      else if c = CHR 0x5C then [CHR 0x5C, CHR 0x5C]
      else if n = 8 then [CHR 0x5C, CHR ''b'']
      else if n = 9 then [CHR 0x5C, CHR ''t'']
      else if n = 10 then [CHR 0x5C, CHR ''n'']
      else if n = 12 then [CHR 0x5C, CHR ''f'']
      else if n = 13 then [CHR 0x5C, CHR ''r'']
      else if n < 32 then [CHR 0x5C, CHR ''u'', CHR ''0'', CHR ''0'', hex_digit (n div 16), hex_digit n]
      else [c])"

text \<open>\<open>JSON.stringify\<close> of a string\<close>

definition json_quote :: "string \<Rightarrow> string" where
  "json_quote s = [CHR 0x22] @ concat (map escape_char s) @ [CHR 0x22]"

end
