(* ===== verification/Regex.thy ===== *)
theory Regex
  imports Js
begin

text \<open>
  Regular expressions of the language as far as the repository uses them: a backtracking
  matcher that enumerates, in priority order, the positions at which a match can end, and
  \<open>test\<close>, \<open>replace\<close> with the global flag, and \<open>match\<close> on top of it. A position is the character
  before it and the text after it, so that anchors and word boundaries can be decided.
\<close>

section \<open>Character classes\<close>

definition js_space :: "char \<Rightarrow> bool" where
  "js_space c \<longleftrightarrow> (of_char c :: nat) \<in> {9, 10, 11, 12, 13, 32, 160}"

definition is_upper :: "char \<Rightarrow> bool" where
  "is_upper c \<longleftrightarrow> (let n = of_char c :: nat in 65 \<le> n \<and> n \<le> 90)"

definition is_lower :: "char \<Rightarrow> bool" where
  "is_lower c \<longleftrightarrow> (let n = of_char c :: nat in 97 \<le> n \<and> n \<le> 122)"

definition is_digit :: "char \<Rightarrow> bool" where
  "is_digit c \<longleftrightarrow> (let n = of_char c :: nat in 48 \<le> n \<and> n \<le> 57)"

definition is_alnum :: "char \<Rightarrow> bool" where
  "is_alnum c \<longleftrightarrow> is_upper c \<or> is_lower c \<or> is_digit c"

definition is_word :: "char \<Rightarrow> bool" where
  "is_word c \<longleftrightarrow> is_alnum c \<or> c = CHR ''_''"

definition upper_of :: "char \<Rightarrow> char" where
  "upper_of c = (if is_lower c then char_of ((of_char c :: nat) - 32) else c)"

text \<open>For evaluation: the same classes with binary integers in place of successors.\<close>

lemma of_char_int: "(of_char c :: int) = int (of_char c)"
  by (rule of_nat_of_char [symmetric])

lemma is_upper_code [code]: "is_upper c \<longleftrightarrow> (let n = of_char c :: int in 65 \<le> n \<and> n \<le> 90)"
  by (simp add: is_upper_def Let_def of_char_int del: of_nat_of_char)

lemma is_lower_code [code]: "is_lower c \<longleftrightarrow> (let n = of_char c :: int in 97 \<le> n \<and> n \<le> 122)"
  by (simp add: is_lower_def Let_def of_char_int del: of_nat_of_char)

lemma is_digit_code [code]: "is_digit c \<longleftrightarrow> (let n = of_char c :: int in 48 \<le> n \<and> n \<le> 57)"
  by (simp add: is_digit_def Let_def of_char_int del: of_nat_of_char)

lemma js_space_code [code]: "js_space c \<longleftrightarrow> (let n = of_char c :: int in n = 32 \<or> n = 160 \<or> 9 \<le> n \<and> n \<le> 13)"
  by (auto simp: js_space_def Let_def of_char_int simp del: of_nat_of_char)

lemma upper_of_code [code]: "upper_of c = (case c of Char a0 a1 a2 a3 a4 a5 a6 a7 \<Rightarrow> if is_lower c then Char a0 a1 a2 a3 a4 False a6 a7 else c)"
proof (cases c)
  case (Char a0 a1 a2 a3 a4 a5 a6 a7)
  show ?thesis
  proof (cases "is_lower c")
    case True
    then have "a5" unfolding Char is_lower_def Let_def by (cases a0; cases a1; cases a2; cases a3; cases a4; cases a5; cases a6; cases a7) simp_all
    then have "of_char c - (32 :: nat) = of_char (Char a0 a1 a2 a3 a4 False a6 a7)" unfolding Char by simp
    then show ?thesis using True unfolding upper_of_def Char by (simp only: if_True char.case char_of_char)
  qed (simp add: upper_of_def Char)
qed

section \<open>Expressions and matching\<close>

datatype re =
    Cls "char \<Rightarrow> bool"
  | Eps
  | Seq re re
  | Alt re re
  | Star re
  | Start
  | End
  | Boundary

type_synonym pos = "char option \<times> string"

fun is_boundary :: "pos \<Rightarrow> bool" where
  "is_boundary (p, s) =
     ((case p of None \<Rightarrow> False | Some c \<Rightarrow> is_word c) \<noteq> (case s of [] \<Rightarrow> False | c # _ \<Rightarrow> is_word c))"

text \<open>Greedy iteration: try one more round first, and only rounds that consume something.
  \<open>fuel\<close> is the length of the text, which every round shortens.\<close>

fun star :: "nat \<Rightarrow> (pos \<Rightarrow> pos list) \<Rightarrow> pos \<Rightarrow> pos list" where
  "star 0 m p = [p]"
| "star (Suc n) m p =
     concat (map (\<lambda>q. if length (snd q) < length (snd p) then star n m q else []) (m p)) @ [p]"

primrec ends :: "re \<Rightarrow> pos \<Rightarrow> pos list" where
  "ends (Cls P) = (\<lambda>(b, s). case s of [] \<Rightarrow> [] | c # t \<Rightarrow> if P c then [(Some c, t)] else [])"
| "ends Eps = (\<lambda>p. [p])"
| "ends (Seq r s) = (\<lambda>p. concat (map (ends s) (ends r p)))"
| "ends (Alt r s) = (\<lambda>p. ends r p @ ends s p)"
| "ends (Star r) = (\<lambda>p. star (length (snd p)) (ends r) p)"
| "ends Start = (\<lambda>p. if fst p = None then [p] else [])"
| "ends End = (\<lambda>p. if snd p = [] then [p] else [])"
| "ends Boundary = (\<lambda>p. if is_boundary p then [p] else [])"

fun lit :: "string \<Rightarrow> re" where
  "lit [] = Eps"
| "lit (c # cs) = Seq (Cls (\<lambda>d. d = c)) (lit cs)"

text \<open>A literal under the flag \<open>i\<close>\<close>

fun lit_i :: "string \<Rightarrow> re" where
  "lit_i [] = Eps"
| "lit_i (c # cs) = Seq (Cls (\<lambda>d. upper_of d = upper_of c)) (lit_i cs)"

fun rep :: "nat \<Rightarrow> re \<Rightarrow> re" where
  "rep 0 r = Eps"
| "rep (Suc n) r = Seq r (rep n r)"

definition at_least :: "nat \<Rightarrow> re \<Rightarrow> re" where
  "at_least n r = Seq (rep n r) (Star r)"

definition maybe :: "re \<Rightarrow> re" where
  "maybe r = Alt r Eps"

fun alts :: "re list \<Rightarrow> re" where
  "alts [] = Cls (\<lambda>_. False)"
| "alts [r] = r"
| "alts (r # s # rs) = Alt r (alts (s # rs))"

fun seqs :: "re list \<Rightarrow> re" where
  "seqs [] = Eps"
| "seqs [r] = r"
| "seqs (r # s # rs) = Seq r (seqs (s # rs))"

section \<open>Operations\<close>

definition match_at :: "re \<Rightarrow> pos \<Rightarrow> pos option" where
  "match_at r p = (case ends r p of [] \<Rightarrow> None | q # _ \<Rightarrow> Some q)"

fun test_from :: "re \<Rightarrow> char option \<Rightarrow> string \<Rightarrow> bool" where
  "test_from r b [] = (match_at r (b, []) \<noteq> None)"
| "test_from r b (c # s) = (match_at r (b, c # s) \<noteq> None \<or> test_from r (Some c) s)"

definition re_test :: "re \<Rightarrow> string \<Rightarrow> bool" where
  "re_test r s = test_from r None s"

text \<open>
  The pieces of a text under a global expression: plain characters and matches. Every pattern
  of the repository consumes at least one character; an empty match is skipped. A match that
  ends where the matcher cannot have moved is impossible, see \<open>ends_shorter\<close>.
\<close>

function pieces :: "re \<Rightarrow> char option \<Rightarrow> string \<Rightarrow> (char + string) list" where
  "pieces r b [] = []"
| "pieces r b (c # s) =
     (case match_at r (b, c # s) of
        Some (b', t) \<Rightarrow>
          if length t < length (c # s)
          then Inr (take (length (c # s) - length t) (c # s)) # pieces r b' t
          else Inl c # pieces r (Some c) s
      | None \<Rightarrow> Inl c # pieces r (Some c) s)"
  by pat_completeness auto
termination by (relation "measure (\<lambda>(r, b, s). length s)") auto

definition re_replace :: "re \<Rightarrow> (string \<Rightarrow> string) \<Rightarrow> string \<Rightarrow> string" where
  "re_replace r f s = concat (map (\<lambda>p. case p of Inl c \<Rightarrow> [c] | Inr m \<Rightarrow> f m) (pieces r None s))"

definition re_match_all :: "re \<Rightarrow> string \<Rightarrow> string list" where
  "re_match_all r s = concat (map (\<lambda>p. case p of Inl c \<Rightarrow> [] | Inr m \<Rightarrow> [m]) (pieces r None s))"

section \<open>Properties of the matcher\<close>

lemma star_suffix:
  "(\<And>p q. q \<in> set (m p) \<Longrightarrow> \<exists>u. snd p = u @ snd q) \<Longrightarrow> q \<in> set (star n m p) \<Longrightarrow> \<exists>u. snd p = u @ snd q"
proof (induction n arbitrary: p)
  case (Suc n)
  show ?case
  proof (cases "q = p")
    case False
    then obtain p' where "p' \<in> set (m p)" "q \<in> set (star n m p')"
      using Suc.prems(2) by (auto split: if_splits)
    then show ?thesis using Suc.IH [OF Suc.prems(1)] Suc.prems(1) by (metis append_assoc)
  qed simp
qed simp

text \<open>A match ends at a suffix of the text it started at.\<close>

lemma ends_suffix: "q \<in> set (ends r p) \<Longrightarrow> \<exists>u. snd p = u @ snd q"
proof (induction r arbitrary: p q)
  case (Seq r s)
  then obtain m where "m \<in> set (ends r p)" "q \<in> set (ends s m)" by auto
  then show ?case using Seq.IH by (metis append_assoc)
next
  case (Star r)
  show ?case
    by (rule star_suffix [of "ends r"]) (use Star in auto)
qed (auto split: list.splits if_splits prod.splits)

lemma ends_shorter: "q \<in> set (ends r p) \<Longrightarrow> length (snd q) \<le> length (snd p)"
  using ends_suffix by fastforce

text \<open>The pieces of a text, put together again, are the text.\<close>

lemma pieces_text: "concat (map (\<lambda>p. case p of Inl c \<Rightarrow> [c] | Inr m \<Rightarrow> m) (pieces r b s)) = s"
proof (induction r b s rule: pieces.induct)
  case (2 r b c s)
  show ?case
  proof (cases "match_at r (b, c # s)")
    case None
    then show ?thesis using 2 by simp
  next
    case (Some q)
    obtain b' t where q: "q = (b', t)" by (cases q)
    show ?thesis
    proof (cases "length t < length (c # s)")
      case True
      have "q \<in> set (ends r (b, c # s))" using Some by (auto simp: match_at_def split: list.splits)
      then obtain u where "c # s = u @ t" using ends_suffix q by fastforce
      then have u: "take (length (c # s) - length t) (c # s) = u" by (metis append_eq_conv_conj diff_add_inverse2 length_append)
      have "pieces r b (c # s) = Inr u # pieces r b' t" using Some q True u by (simp del: take_Suc_Cons)
      then show ?thesis
        using 2 Some q True \<open>c # s = u @ t\<close> by simp
    qed (use 2 Some q in simp)
  qed
qed simp

lemma re_replace_same: "(\<And>m. f m = m) \<Longrightarrow> re_replace r f s = s"
  using pieces_text [of r None s] by (simp add: re_replace_def cong: sum.case_cong)

lemma pieces_no_match: "\<not> test_from r b s \<Longrightarrow> pieces r b s = map Inl s"
  by (induction r b s rule: pieces.induct) (auto split: option.splits)

lemma re_replace_no_match: "\<not> re_test r s \<Longrightarrow> re_replace r f s = s"
proof -
  assume "\<not> re_test r s"
  then have "pieces r None s = map Inl s" by (simp add: re_test_def pieces_no_match)
  then show ?thesis by (simp add: re_replace_def comp_def)
qed

section \<open>Texts that cannot match\<close>

text \<open>Every match of the expression consumes a character of the class.\<close>

primrec needs :: "(char \<Rightarrow> bool) \<Rightarrow> re \<Rightarrow> bool" where
  "needs Q (Cls P) = (\<forall>c. P c \<longrightarrow> Q c)"
| "needs Q Eps = False"
| "needs Q (Seq r s) = (needs Q r \<or> needs Q s)"
| "needs Q (Alt r s) = (needs Q r \<and> needs Q s)"
| "needs Q (Star r) = False"
| "needs Q Start = False"
| "needs Q End = False"
| "needs Q Boundary = False"

lemma needs_consumed: "needs Q r \<Longrightarrow> q \<in> set (ends r p) \<Longrightarrow> \<exists>u. snd p = u @ snd q \<and> list_ex Q u"
proof (induction r arbitrary: p q)
  case (Cls P)
  then show ?case by (auto split: list.splits if_splits prod.splits)
next
  case (Seq r s)
  then obtain m where m: "m \<in> set (ends r p)" "q \<in> set (ends s m)" by auto
  obtain u v where uv: "snd p = u @ snd m" "snd m = v @ snd q"
    using ends_suffix [OF m(1)] ends_suffix [OF m(2)] by blast
  show ?case
  proof (cases "needs Q r")
    case True
    then show ?thesis using Seq.IH(1) [OF True m(1)] uv by (metis append_assoc list_ex_append)
  next
    case False
    then show ?thesis using Seq.prems(1) Seq.IH(2) [OF _ m(2)] uv by (metis append_assoc list_ex_append needs.simps(3))
  qed
qed auto

lemma no_match_without: "needs Q r \<Longrightarrow> \<not> list_ex Q s \<Longrightarrow> \<not> test_from r b s"
proof (induction s arbitrary: b)
  case Nil
  then show ?case using needs_consumed [of Q r _ "(b, [])"] by (fastforce simp: match_at_def split: list.splits)
next
  case (Cons c s)
  have "match_at r (b, c # s) = None"
  proof (rule ccontr)
    assume "match_at r (b, c # s) \<noteq> None"
    then obtain q where "q \<in> set (ends r (b, c # s))" by (auto simp: match_at_def split: list.splits)
    from needs_consumed [OF Cons.prems(1) this] show False using Cons.prems(2) by (metis list_ex_append snd_conv)
  qed
  then show ?case using Cons by simp
qed

lemma replace_without: "needs Q r \<Longrightarrow> \<not> list_ex Q s \<Longrightarrow> re_replace r f s = s"
  by (simp add: re_replace_no_match re_test_def no_match_without)

end
