(* ===== verification/Protocol.thy ===== *)
theory Protocol
  imports Js
begin

text \<open>
  The protocol package: canonical JSON text and fingerprints
  (packages/protocol/src/fingerprint.mjs) and the canonical event envelope
  (packages/protocol/src/index.mjs). The fingerprint of a value does not depend on the order
  of its object keys, and the canonical text determines the value up to that order, so two
  operations with equal fingerprints are equal operations unless SHA-256 collides.
\<close>

section \<open>Canonical JSON text\<close>

lemma entry_size [termination_simp]:
  assumes "(k, v) \<in> set kvs"
  shows "size v < Suc (size_list (size_prod (\<lambda>_. 0) size) kvs)"
proof -
  from assms have "size v \<le> size_list (size_prod (\<lambda>_. 0) size) kvs"
    by (rule size_list_estimation') simp
  then show ?thesis by simp
qed

text \<open>Joining an array writes nothing for an element that is \<open>undefined\<close>.\<close>

fun canonicalStringify :: "runtime \<Rightarrow> js \<Rightarrow> string" where
  "canonicalStringify rt (Arr xs) = ''['' @ join '','' (map (\<lambda>x. if x = Undef then [] else canonicalStringify rt x) xs) @ '']''"
| "canonicalStringify rt (Obj kvs) =
     ''{'' @ join '','' (map (\<lambda>(k, v). json_quote k @ '':'' @ canonicalStringify rt v) (sort_key fst kvs)) @ ''}''"
| "canonicalStringify rt (Str s) = json_quote s"
| "canonicalStringify rt (Num n) = num_str rt n"
| "canonicalStringify rt (Bool b) = (if b then ''true'' else ''false'')"
| "canonicalStringify rt Null = ''null''"
| "canonicalStringify rt Undef = ''undefined''"

text \<open>\<open>JSON.stringify\<close>: properties in their order, those that are \<open>undefined\<close> left out, array
  elements that are \<open>undefined\<close> written as \<open>null\<close>.\<close>

fun jsonStringify :: "runtime \<Rightarrow> js \<Rightarrow> string" where
  "jsonStringify rt (Arr xs) =
     ''['' @ join '','' (map (\<lambda>x. if x = Undef then ''null'' else jsonStringify rt x) xs) @ '']''"
| "jsonStringify rt (Obj kvs) =
     ''{'' @ join '','' (map (\<lambda>(k, v). json_quote k @ '':'' @ jsonStringify rt v) (filter (\<lambda>kv. snd kv \<noteq> Undef) kvs)) @ ''}''"
| "jsonStringify rt (Str s) = json_quote s"
| "jsonStringify rt (Num n) = num_str rt n"
| "jsonStringify rt (Bool b) = (if b then ''true'' else ''false'')"
| "jsonStringify rt Null = ''null''"
| "jsonStringify rt Undef = ''undefined''"

definition sha256Hex :: "runtime \<Rightarrow> string \<Rightarrow> string" where
  "sha256Hex rt s = sha256_hex rt s"

definition fingerprint :: "runtime \<Rightarrow> js \<Rightarrow> string" where
  "fingerprint rt v = ''sha256:'' @ sha256Hex rt (canonicalStringify rt v)"


subsection \<open>Equality up to the order of keys\<close>

text \<open>The value with the keys of every object sorted.\<close>

fun canon :: "js \<Rightarrow> js" where
  "canon (Arr xs) = Arr (map canon xs)"
| "canon (Obj kvs) = Obj (map (\<lambda>(k, v). (k, canon v)) (sort_key fst kvs))"
| "canon v = v"

text \<open>The canonical text without the sorting.\<close>

fun plain_text :: "runtime \<Rightarrow> js \<Rightarrow> string" where
  "plain_text rt (Arr xs) = ''['' @ join '','' (map (\<lambda>x. plain_text rt x) xs) @ '']''"
| "plain_text rt (Obj kvs) =
     ''{'' @ join '','' (map (\<lambda>(k, v). json_quote k @ '':'' @ plain_text rt v) kvs) @ ''}''"
| "plain_text rt (Str s) = json_quote s"
| "plain_text rt (Num n) = num_str rt n"
| "plain_text rt (Bool b) = (if b then ''true'' else ''false'')"
| "plain_text rt Null = ''null''"
| "plain_text rt Undef = ''undefined''"

text \<open>No array has an element that is \<open>undefined\<close>: so is every value read from JSON.\<close>

fun no_holes :: "js \<Rightarrow> bool" where
  "no_holes (Arr xs) = list_all (\<lambda>x. x \<noteq> Undef \<and> no_holes x) xs"
| "no_holes (Obj kvs) = list_all (\<lambda>(k, v). no_holes v) kvs"
| "no_holes v = True"

lemma canonicalStringify_plain: "no_holes v \<Longrightarrow> canonicalStringify rt v = plain_text rt (canon v)"
proof (induction rt v rule: canonicalStringify.induct)
  case (1 rt xs)
  then show ?case by (auto simp: list_all_iff cong: map_cong)
next
  case (2 rt kvs)
  then have "map (\<lambda>(k, v). json_quote k @ '':'' @ canonicalStringify rt v) (sort_key fst kvs) =
      map ((\<lambda>(k, v). json_quote k @ '':'' @ plain_text rt v) \<circ> (\<lambda>(k, v). (k, canon v))) (sort_key fst kvs)"
    by (intro map_cong) (auto simp: list_all_iff)
  then show ?case
    by (simp only: canonicalStringify.simps canon.simps plain_text.simps map_map)
qed simp_all

lemma canon_reorder:
  assumes "distinct (map fst kvs)" and "mset kvs = mset kvs'"
  shows "canon (Obj kvs) = canon (Obj kvs')"
proof -
  have "inj_on fst (set kvs)"
    using assms(1) by (simp add: distinct_map)
  then have "sort_key fst kvs = sort_key fst kvs'"
    using assms(2) by (intro sort_key_inj_key_eq) auto
  then show ?thesis by simp
qed

subsection \<open>The text determines the value\<close>

text \<open>What is documented of the rendering of numbers: different numbers have different
  renderings, which are not empty and use digits, sign, point and exponent only.\<close>

definition numeral_chars :: "char list" where
  "numeral_chars = ''0123456789+-.e''"

definition decimal_printer :: "runtime \<Rightarrow> bool" where
  "decimal_printer rt \<longleftrightarrow> inj (num_str rt) \<and> (\<forall>n. num_str rt n \<noteq> [] \<and> set (num_str rt n) \<subseteq> set numeral_chars)"

definition stop :: "string \<Rightarrow> bool" where
  "stop r \<longleftrightarrow> r = [] \<or> hd r \<in> set '',]}''"

text \<open>Reading one escaped character back.\<close>

definition hex_val :: "char \<Rightarrow> nat" where
  "hex_val c = (let n = of_char c :: nat in if n < 58 then n - 48 else n - 87)"

fun unescape :: "string \<Rightarrow> (char \<times> string) option" where
  "unescape [] = None"
| "unescape (c # r) =
     (if c = CHR 0x22 then None
      else if c \<noteq> CHR 0x5C then Some (c, r)
      else case r of
        [] \<Rightarrow> None
      | d # r' \<Rightarrow>
          if d = CHR ''b'' then Some (char_of (8::nat), r')
          else if d = CHR ''t'' then Some (char_of (9::nat), r')
          else if d = CHR ''n'' then Some (char_of (10::nat), r')
          else if d = CHR ''f'' then Some (char_of (12::nat), r')
          else if d = CHR ''r'' then Some (char_of (13::nat), r')
          else if d = CHR ''u'' then
            (case r' of _ # _ # h # l # r'' \<Rightarrow> Some (char_of (16 * hex_val h + hex_val l), r'') | _ \<Rightarrow> None)
          else Some (d, r'))"

lemma hex_val_digit: "hex_val (hex_digit n) = n mod 16"
proof -
  have all: "list_all (\<lambda>n. hex_val (hex_digit n) = n) [0..<16]"
    by code_simp
  have "n mod 16 \<in> set [0..<16]" by simp
  with all have "hex_val (hex_digit (n mod 16)) = n mod 16"
    unfolding list_all_iff by blast
  then show ?thesis by (simp add: hex_digit_def)
qed

lemma char_of_nat_eq: "(of_char c :: nat) = n \<Longrightarrow> char_of n = c"
  by auto

lemma unescape_escape: "unescape (escape_char c @ x) = Some (c, x)"
proof -
  let ?n = "of_char c :: nat"
  have "char_of (16 * hex_val (hex_digit (?n div 16)) + hex_val (hex_digit ?n)) = c" if "?n < 32"
  proof -
    have "16 * (?n div 16 mod 16) + ?n mod 16 = ?n" using that by auto
    then show ?thesis by (simp add: hex_val_digit)
  qed
  then show ?thesis
    by (auto simp: escape_char_def Let_def char_of_nat_eq)
qed

lemma escape_nonempty: "escape_char c \<noteq> []" "hd (escape_char c) \<noteq> CHR 0x22"
  using unescape_escape [of c "[]"] by (cases "escape_char c"; auto split: if_splits)+

lemma quoted_unambiguous:
  "concat (map escape_char s) @ CHR 0x22 # r = concat (map escape_char t) @ CHR 0x22 # u \<Longrightarrow> s = t \<and> r = u"
proof (induction s arbitrary: t)
  case Nil
  then show ?case
    using escape_nonempty by (cases t) (auto simp: Cons_eq_append_conv, metis list.sel(1))
next
  case (Cons c s)
  show ?case
  proof (cases t)
    case Nil
    with Cons.prems show ?thesis
      using escape_nonempty [of c] by (cases "escape_char c") auto
  next
    case t: (Cons d t')
    let ?x = "concat (map escape_char s) @ CHR 0x22 # r"
    let ?y = "concat (map escape_char t') @ CHR 0x22 # u"
    have "escape_char c @ ?x = escape_char d @ ?y"
      using Cons.prems t by simp
    then have "c = d \<and> ?x = ?y"
      by (metis Pair_inject option.inject unescape_escape)
    then show ?thesis using Cons.IH t by auto
  qed
qed

lemma json_quote_unambiguous: "json_quote s @ r = json_quote t @ u \<Longrightarrow> s = t \<and> r = u"
  unfolding json_quote_def using quoted_unambiguous [of s r t u] by simp


text \<open>Comma-separated sequences: the part after the first element.\<close>

fun tail_text :: "('a \<Rightarrow> string) \<Rightarrow> 'a list \<Rightarrow> string" where
  "tail_text f [] = []"
| "tail_text f (x # xs) = CHR '','' # f x @ tail_text f xs"

lemma join_Cons_tail: "join '','' (map f (x # xs)) = f x @ tail_text f xs"
  by (induction xs arbitrary: x) auto

definition unambiguous :: "('a \<Rightarrow> string) \<Rightarrow> 'a \<Rightarrow> bool" where
  "unambiguous f x \<longleftrightarrow> (\<forall>y r s. f x @ r = f y @ s \<longrightarrow> stop r \<longrightarrow> stop s \<longrightarrow> x = y \<and> r = s)"

definition opens :: "('a \<Rightarrow> string) \<Rightarrow> bool" where
  "opens f \<longleftrightarrow> (\<forall>x. f x \<noteq> [] \<and> \<not> stop (f x))"

lemma opens_hd: "opens f \<Longrightarrow> f x @ r = c # r' \<Longrightarrow> c \<notin> set '',]}''"
  by (cases "f x") (auto simp: opens_def stop_def dest!: spec [of _ x])

lemma stop_tail_text: "stop (tail_text f xs @ c # r)" if "c \<in> set ''],}''"
  using that by (cases xs) (auto simp: stop_def)

lemma tail_unambiguous:
  assumes "\<And>x. x \<in> set xs \<Longrightarrow> unambiguous f x" and "c \<in> set '']}''"
    and "tail_text f xs @ c # r = tail_text f ys @ c # s"
  shows "xs = ys \<and> r = s"
  using assms(1,3)
proof (induction xs arbitrary: ys)
  case Nil
  then show ?case using assms(2) by (cases ys) auto
next
  case (Cons x xs)
  then obtain y ys' where ys: "ys = y # ys'"
    using assms(2) by (cases ys) auto
  have "f x @ (tail_text f xs @ c # r) = f y @ (tail_text f ys' @ c # s)"
    using Cons.prems(2) ys by simp
  moreover have "stop (tail_text f xs @ c # r)" "stop (tail_text f ys' @ c # s)"
    using assms(2) by (auto intro!: stop_tail_text)
  ultimately have "x = y \<and> tail_text f xs @ c # r = tail_text f ys' @ c # s"
    using Cons.prems(1) unfolding unambiguous_def by (meson list.set_intros(1))
  then show ?case using Cons.IH [of ys'] Cons.prems(1) ys by auto
qed

lemma join_unambiguous:
  assumes un: "\<And>x. x \<in> set xs \<Longrightarrow> unambiguous f x" and f: "opens f" and c: "c \<in> set '']}''"
    and eq: "join '','' (map f xs) @ c # r = join '','' (map f ys) @ c # s"
  shows "xs = ys \<and> r = s"
proof (cases xs)
  case Nil
  then show ?thesis
  proof (cases ys)
    case (Cons y ys')
    then have "f y @ (tail_text f ys' @ c # s) = c # r"
      using eq unfolding Nil Cons join_Cons_tail by simp
    then show ?thesis using opens_hd [OF f] c by fastforce
  qed (use eq in simp)
next
  case x: (Cons x xs')
  show ?thesis
  proof (cases ys)
    case Nil
    then have "f x @ (tail_text f xs' @ c # r) = c # s"
      using eq unfolding Nil x join_Cons_tail by simp
    then show ?thesis using opens_hd [OF f] c by fastforce
  next
    case (Cons y ys')
    have "tail_text f xs @ c # r = tail_text f ys @ c # s"
      using eq unfolding x Cons join_Cons_tail by simp
    then show ?thesis using tail_unambiguous [OF un c] by blast
  qed
qed

definition entry_text :: "runtime \<Rightarrow> string \<times> js \<Rightarrow> string" where
  "entry_text rt = (\<lambda>(k, v). json_quote k @ '':'' @ plain_text rt v)"

lemma plain_text_opens: "decimal_printer rt \<Longrightarrow> opens (plain_text rt)"
proof -
  assume num: "decimal_printer rt"
  have "plain_text rt v \<noteq> [] \<and> \<not> stop (plain_text rt v)" for v
  proof (cases v)
    case (Num n)
    obtain c r where "num_str rt n = c # r"
      using num by (cases "num_str rt n") (auto simp: decimal_printer_def)
    moreover have "c \<in> set numeral_chars"
      using num calculation unfolding decimal_printer_def by (metis list.set_intros(1) subsetD)
    ultimately show ?thesis using Num by (auto simp: stop_def numeral_chars_def)
  qed (auto simp: stop_def json_quote_def)
  then show ?thesis by (simp add: opens_def)
qed


lemma num_str_hd: "decimal_printer rt \<Longrightarrow> num_str rt n @ r = c # t \<Longrightarrow> c \<in> set numeral_chars"
  unfolding decimal_printer_def by (metis append_eq_Cons_conv list.set_intros(1) subsetD)

lemma num_str_span:
  assumes "decimal_printer rt" and "stop r"
  shows "takeWhile (\<lambda>c. c \<in> set numeral_chars) (num_str rt n @ r) = num_str rt n"
proof -
  have "set (num_str rt n) \<subseteq> set numeral_chars"
    using assms(1) by (simp add: decimal_printer_def)
  then have "\<forall>c \<in> set (num_str rt n). c \<in> set numeral_chars" by blast
  moreover have "takeWhile (\<lambda>c. c \<in> set numeral_chars) r = []"
    using assms(2) by (cases r) (auto simp: stop_def numeral_chars_def)
  ultimately show ?thesis by simp
qed

lemma num_str_unambiguous:
  assumes num: "decimal_printer rt" and eq: "num_str rt n @ r = num_str rt m @ s" and st: "stop r" "stop s"
  shows "n = m \<and> r = s"
proof -
  have "num_str rt n = num_str rt m"
    using num_str_span [OF num st(1), of n] num_str_span [OF num st(2), of m] eq by simp
  then show ?thesis using eq num by (auto simp: decimal_printer_def dest: injD)
qed

lemma entry_unambiguous:
  "unambiguous (plain_text rt) v \<Longrightarrow> unambiguous (entry_text rt) (k, v)"
  unfolding unambiguous_def entry_text_def
  by (auto dest!: json_quote_unambiguous)

lemma entry_opens: "opens (entry_text rt)"
  by (auto simp: opens_def entry_text_def json_quote_def stop_def)

fun opener :: "js \<Rightarrow> char list" where
  "opener (Arr _) = ''[''"
| "opener (Obj _) = ''{''"
| "opener (Str _) = [CHR 0x22]"
| "opener (Num _) = numeral_chars"
| "opener (Bool b) = (if b then ''t'' else ''f'')"
| "opener Null = ''n''"
| "opener Undef = ''u''"

lemma plain_text_hd:
  assumes "decimal_printer rt"
  shows "\<exists>c t. plain_text rt w = c # t \<and> c \<in> set (opener w)"
proof (cases w)
  case (Num n)
  obtain c t where "num_str rt n = c # t"
    using assms by (cases "num_str rt n") (auto simp: decimal_printer_def)
  moreover have "c \<in> set numeral_chars"
    using num_str_hd [OF assms, of n "[]"] calculation by simp
  ultimately show ?thesis using Num by auto
qed (auto simp: json_quote_def)

lemma same_opener:
  assumes "decimal_printer rt" and "plain_text rt v @ r = plain_text rt w @ s"
  shows "\<exists>c. c \<in> set (opener v) \<and> c \<in> set (opener w)"
  using assms plain_text_hd [of rt v] plain_text_hd [of rt w] by auto

lemma plain_text_unambiguous: "decimal_printer rt \<Longrightarrow> unambiguous (plain_text rt) v"
proof (induction rt v rule: plain_text.induct)
  case (1 rt xs)
  have un: "unambiguous (plain_text rt) x" if "x \<in> set xs" for x
    using 1 that by blast
  show ?case unfolding unambiguous_def
  proof (intro allI impI)
    fix w r s
    assume eq: "plain_text rt (Arr xs) @ r = plain_text rt w @ s"
    then obtain ys where w: "w = Arr ys"
      using same_opener [OF \<open>decimal_printer rt\<close> eq]
      by (cases w) (auto simp: numeral_chars_def split: if_splits)
    then have "join '','' (map (plain_text rt) xs) @ CHR '']'' # r = join '','' (map (plain_text rt) ys) @ CHR '']'' # s"
      using eq by simp
    from join_unambiguous [OF un plain_text_opens [OF \<open>decimal_printer rt\<close>] _ this] w
    show "Arr xs = w \<and> r = s" by simp
  qed
next
  case (2 rt kvs)
  have un: "unambiguous (entry_text rt) e" if "e \<in> set kvs" for e
  proof (cases e)
    case (Pair k v)
    with that 2 have "unambiguous (plain_text rt) v" by blast
    then show ?thesis unfolding Pair by (rule entry_unambiguous)
  qed
  show ?case unfolding unambiguous_def
  proof (intro allI impI)
    fix w r s
    assume eq: "plain_text rt (Obj kvs) @ r = plain_text rt w @ s"
    then obtain kvs' where w: "w = Obj kvs'"
      using same_opener [OF \<open>decimal_printer rt\<close> eq]
      by (cases w) (auto simp: numeral_chars_def split: if_splits)
    then have "join '','' (map (entry_text rt) kvs) @ CHR ''}'' # r = join '','' (map (entry_text rt) kvs') @ CHR ''}'' # s"
      using eq by (simp add: entry_text_def)
    from join_unambiguous [OF un entry_opens _ this] w
    show "Obj kvs = w \<and> r = s" by simp
  qed
next
  case (3 rt t)
  show ?case unfolding unambiguous_def
  proof (intro allI impI)
    fix w r s
    assume eq: "plain_text rt (Str t) @ r = plain_text rt w @ s"
    then obtain t' where w: "w = Str t'"
      using same_opener [OF \<open>decimal_printer rt\<close> eq]
      by (cases w) (auto simp: numeral_chars_def split: if_splits)
    with eq show "Str t = w \<and> r = s"
      using json_quote_unambiguous [of t r t' s] by simp
  qed
next
  case (4 rt n)
  show ?case unfolding unambiguous_def
  proof (intro allI impI)
    fix w r s
    assume eq: "plain_text rt (Num n) @ r = plain_text rt w @ s" and st: "stop r" "stop s"
    then obtain m where w: "w = Num m"
      using same_opener [OF 4 eq]
      by (cases w) (auto simp: numeral_chars_def split: if_splits)
    with eq show "Num n = w \<and> r = s"
      using num_str_unambiguous [OF 4 _ st] by simp
  qed
next
  case (5 rt b)
  show ?case unfolding unambiguous_def
  proof (intro allI impI)
    fix w r s
    assume eq: "plain_text rt (Bool b) @ r = plain_text rt w @ s"
    then have "w = Bool b"
      using same_opener [OF 5 eq]
      by (cases w) (auto simp: numeral_chars_def split: if_splits)
    with eq show "Bool b = w \<and> r = s" by simp
  qed
next
  case (6 rt)
  show ?case unfolding unambiguous_def
  proof (intro allI impI)
    fix w r s
    assume eq: "plain_text rt Null @ r = plain_text rt w @ s"
    then have "w = Null"
      using same_opener [OF 6 eq]
      by (cases w) (auto simp: numeral_chars_def split: if_splits)
    with eq show "Null = w \<and> r = s" by simp
  qed
next
  case (7 rt)
  show ?case unfolding unambiguous_def
  proof (intro allI impI)
    fix w r s
    assume eq: "plain_text rt Undef @ r = plain_text rt w @ s"
    then have "w = Undef"
      using same_opener [OF 7 eq]
      by (cases w) (auto simp: numeral_chars_def split: if_splits)
    with eq show "Undef = w \<and> r = s" by simp
  qed
qed

lemma plain_text_inj:
  assumes "decimal_printer rt" and "plain_text rt v = plain_text rt w"
  shows "v = w"
proof -
  have "plain_text rt v @ [] = plain_text rt w @ []" using assms(2) by simp
  moreover have "stop []" by (simp add: stop_def)
  ultimately show ?thesis
    using plain_text_unambiguous [OF assms(1), of v] unfolding unambiguous_def by blast
qed

section \<open>Events\<close>

definition EVENT_TYPES :: "string list" where
  "EVENT_TYPES =
    [''run.created'', ''run.started'', ''run.completed'', ''run.failed'', ''run.cancelled'',
     ''run.suspended'', ''run.resumed'',
     ''step.started'', ''step.completed'', ''step.failed'', ''step.cancelled'', ''step.retry_scheduled'',
     ''timer.scheduled'', ''timer.fired'',
     ''context.compiled'', ''context.manifest.persisted'', ''context.failed'',
     ''memory.proposed'', ''memory.verified'', ''memory.activated'', ''memory.rejected'', ''memory.superseded'', ''memory.retracted'', ''memory.expired'',
     ''tool.requested'', ''tool.authorized'', ''tool.denied'', ''tool.completed'', ''tool.failed'',
     ''model.requested'', ''model.completed'', ''model.failed'',
     ''approval.requested'', ''approval.resolved'', ''approval.expired'',
     ''artifact.created'', ''evaluation.completed'', ''policy.evaluated'', ''adapter.health_changed'',
     ''replay.created'', ''replay.completed'', ''replay.failed'',
     ''learning.proposed'', ''learning.evaluating'', ''learning.approved'', ''learning.rejected'', ''learning.rolled_back'',
     ''agentpack.activated'', ''agentpack.rejected'']"

record event =
  ev_schemaVersion :: string
  ev_id :: string
  ev_workspaceId :: string
  ev_type :: string
  ev_runId :: string
  ev_actorId :: string
  ev_sequence :: int
  ev_occurredAt :: int
  ev_correlationId :: string
  ev_causationId :: "string option"
  ev_dataClass :: string
  ev_producerVersion :: string
  ev_payload :: js

datatype event_error =
    UnsupportedEventType string
  | WorkspaceIdRequired
  | RunIdRequired
  | SequenceNotNonNegative
  | PayloadNotObject

text \<open>
  \<open>createEvent\<close> with the defaults of its signature: the caller gives workspace, type, run,
  actor, payload and sequence; \<open>i\<close> and \<open>now\<close> are the fresh identifier and the current
  time (milliseconds since the epoch). The correlation id falls back to the run id.
\<close>

definition createEvent ::
  "string \<Rightarrow> int \<Rightarrow> string \<Rightarrow> string \<Rightarrow> string \<Rightarrow> string \<Rightarrow> js \<Rightarrow> int \<Rightarrow>
   string option \<Rightarrow> string option \<Rightarrow> string \<Rightarrow> string \<Rightarrow> (event_error, event) result" where
  "createEvent i now typ workspaceId runId actorId payload sequence correlationId causationId dataClass producerVersion =
     (if typ \<notin> set EVENT_TYPES then Inl (UnsupportedEventType typ)
      else if workspaceId = [] then Inl WorkspaceIdRequired
      else if runId = [] then Inl RunIdRequired
      else if sequence < 0 then Inl SequenceNotNonNegative
      else if \<not> is_plain payload then Inl PayloadNotObject
      else Inr \<lparr>ev_schemaVersion = ''1.0.0'', ev_id = i, ev_workspaceId = workspaceId, ev_type = typ,
                ev_runId = runId, ev_actorId = actorId, ev_sequence = sequence, ev_occurredAt = now,
                ev_correlationId = (case correlationId of None \<Rightarrow> runId | Some v \<Rightarrow> v), ev_causationId = causationId, ev_dataClass = dataClass,
                ev_producerVersion = producerVersion, ev_payload = payload\<rparr>)"

lemma createEvent_ok_iff:
  "(\<exists>e. createEvent i now typ ws run act p n corr c dc pv = Inr e) \<longleftrightarrow>
   typ \<in> set EVENT_TYPES \<and> ws \<noteq> [] \<and> run \<noteq> [] \<and> 0 \<le> n \<and> is_plain p"
  by (auto simp: createEvent_def)

lemma createEvent_fields:
  "createEvent i now typ ws run act p n corr c dc pv = Inr e \<Longrightarrow>
   ev_sequence e = n \<and> ev_type e = typ \<and> ev_workspaceId e = ws \<and> ev_runId e = run \<and> ev_payload e = p \<and> ev_id e = i"
  by (auto simp: createEvent_def split: if_splits)

section \<open>A concrete runtime\<close>

text \<open>
  An instance of the runtime services for evaluating examples: a number is printed in unary
  as numerator, point, denominator; timestamps are read as decimal numbers; the digest of a
  text is the text itself, which has no collisions.
\<close>

definition unary_num :: "rat \<Rightarrow> string" where
  "unary_num r = (case quotient_of r of (p, q) \<Rightarrow>
     (if p < 0 then ''-'' else []) @ replicate (nat \<bar>p\<bar>) CHR ''1'' @ ''.'' @ replicate (nat q) CHR ''1'')"

fun read_digits :: "int \<Rightarrow> string \<Rightarrow> int option" where
  "read_digits acc [] = Some acc"
| "read_digits acc (c # cs) =
     (let n = of_char c :: int in if 48 \<le> n \<and> n \<le> 57 then read_digits (10 * acc + (n - 48)) cs else None)"

fun show_nat :: "nat \<Rightarrow> string" where
  "show_nat n = (if n < 10 then [char_of (48 + n)] else show_nat (n div 10) @ [char_of (48 + n mod 10)])"

declare show_nat.simps [simp del]

definition sample_runtime :: runtime where
  "sample_runtime = \<lparr>date_parse = read_digits 0, to_iso = (\<lambda>n. show_nat (nat n)), num_str = unary_num,
     sha256_hex = id, to_lower = id, locale_compare = (\<lambda>a b. if a = b then 0 else if a < b then -1 else 1)\<rparr>"

lemma ones_point_inj:
  "replicate a CHR ''1'' @ CHR ''.'' # x = replicate c CHR ''1'' @ CHR ''.'' # y \<Longrightarrow> a = c \<and> x = y"
proof (induction a arbitrary: c)
  case 0
  then show ?case by (cases c) auto
next
  case (Suc a)
  then show ?case by (cases c) auto
qed

lemma unary_num_inj:
  assumes eq: "unary_num r = unary_num r'"
  shows "r = r'"
proof -
  obtain p q where pq: "quotient_of r = (p, q)" by fastforce
  obtain p' q' where pq': "quotient_of r' = (p', q')" by fastforce
  have pos: "0 < q" "0 < q'" using pq pq' by (simp_all add: quotient_of_denom_pos)
  have hd: "replicate n CHR ''1'' @ CHR ''.'' # x \<noteq> CHR ''-'' # y" for n x y by (cases n) auto
  have sg: "(p < 0) = (p' < 0)"
    using eq hd hd [THEN not_sym] unfolding unary_num_def pq pq' by (auto split: if_splits)
  then have "replicate (nat \<bar>p\<bar>) CHR ''1'' @ CHR ''.'' # replicate (nat q) CHR ''1'' =
      replicate (nat \<bar>p'\<bar>) CHR ''1'' @ CHR ''.'' # replicate (nat q') CHR ''1''"
    using eq unfolding unary_num_def pq pq' by (auto split: if_splits)
  from ones_point_inj [OF this] have "nat \<bar>p\<bar> = nat \<bar>p'\<bar> \<and> nat q = nat q'"
    by (metis length_replicate)
  with sg pos have "p = p' \<and> q = q'" by auto
  then show ?thesis using pq pq' by (metis quotient_of_inject)
qed

lemma sample_runtime_printer: "decimal_printer sample_runtime"
  unfolding decimal_printer_def
proof (intro conjI allI)
  show "inj (num_str sample_runtime)"
    by (simp add: sample_runtime_def inj_def unary_num_inj)
  fix n
  show "num_str sample_runtime n \<noteq> []"
    by (auto simp: sample_runtime_def unary_num_def split: prod.splits)
  show "set (num_str sample_runtime n) \<subseteq> set numeral_chars"
    by (auto simp: sample_runtime_def unary_num_def numeral_chars_def split: prod.splits)
qed

section \<open>Properties\<close>

text \<open>C5: The canonical text determines the value: two values have the same canonical text exactly
  when they are equal up to the order of object properties, unless an array has an element that is undefined, so a fingerprint never depends on
  property order and different contents never share the text that is hashed.\<close>

theorem canonical_text_identifies_value:
  assumes "decimal_printer rt" and "no_holes v" and "no_holes w"
  shows "canonicalStringify rt v = canonicalStringify rt w \<longleftrightarrow> canon v = canon w"
  using assms plain_text_inj canonicalStringify_plain by metis

theorem canonical_text_identifies_value_witness:
  "canonicalStringify sample_runtime (Obj [(''a'', Num 1), (''b'', Null)]) =
     canonicalStringify sample_runtime (Obj [(''b'', Null), (''a'', Num 1)]) \<and>
   canonicalStringify sample_runtime (Str ''1'') \<noteq> canonicalStringify sample_runtime (Num 1)"
  using canonical_text_identifies_value [OF sample_runtime_printer, of "Obj [(''a'', Num 1), (''b'', Null)]" "Obj [(''b'', Null), (''a'', Num 1)]"]
    canonical_text_identifies_value [OF sample_runtime_printer, of "Str ''1''" "Num 1"] by simp

end
