(* ===== verification/MemoryCore.thy ===== *)
theory MemoryCore
  imports Protocol Regex
begin

text \<open>
  The memory lifecycle of packages/memory-core/src/index.mjs: proposals with secret
  redaction, evaluation against existing records, verification, activation, rejection,
  supersession, retraction, expiry and export. Every operation returns a new record; frozen
  copies need no counterpart in HOL. The sections follow the file; the step relation at the
  end collects the operations into the lifecycle machine whose invariants say what an
  \<open>active\<close> memory has gone through and that a redacted secret never becomes usable.
\<close>

section \<open>Strings\<close>

definition trim :: "string \<Rightarrow> string" where
  "trim s = rev (dropWhile js_space (rev (dropWhile js_space s)))"

fun starts_with :: "string \<Rightarrow> string \<Rightarrow> bool" where
  "starts_with [] s = True"
| "starts_with (c # cs) [] = False"
| "starts_with (c # cs) (d # s) = (c = d \<and> starts_with cs s)"

text \<open>An unanchored test: some suffix of the text satisfies the pattern at its start.\<close>

fun some_suffix :: "(string \<Rightarrow> bool) \<Rightarrow> string \<Rightarrow> bool" where
  "some_suffix p [] = p []"
| "some_suffix p (c # s) = (p (c # s) \<or> some_suffix p s)"

text \<open>\<open>lit[class]{n,}\<close> at the start of the text\<close>

definition lit_then_run :: "string \<Rightarrow> (char \<Rightarrow> bool) \<Rightarrow> nat \<Rightarrow> string \<Rightarrow> bool" where
  "lit_then_run word cls n s \<longleftrightarrow>
     starts_with word s \<and> n \<le> length (takeWhile cls (drop (length word) s))"

lemma starts_with_append: "starts_with p s \<longleftrightarrow> (\<exists>r. s = p @ r)"
  by (induction p s rule: starts_with.induct) auto

lemma some_suffix_append: "p (x @ s) \<Longrightarrow> some_suffix p (y @ x @ s)"
proof (induction y)
  case Nil
  then show ?case by (cases "x @ s") auto
qed auto

section \<open>Records\<close>

definition MEMORY_KINDS :: "string list" where
  "MEMORY_KINDS = [''fact'', ''preference'', ''decision'', ''episode'', ''procedure'', ''constraint'']"

definition DATA_CLASSES :: "string list" where
  "DATA_CLASSES = [''public'', ''workspace-private'', ''sensitive'', ''secret'']"

datatype status =
  Observed | Proposed | Verified | Active | Rejected | Superseded | Retracted | Expired | Quarantined

datatype verdict = Propose | Review | Allow | Reject

definition ACTIVE_EXPORT_STATUSES :: "status list" where
  "ACTIVE_EXPORT_STATUSES = [Active]"

definition INACTIVE_EXPORT_STATUSES :: "status list" where
  "INACTIVE_EXPORT_STATUSES = [Verified, Active, Rejected, Superseded, Retracted, Expired]"

record life_event =
  le_type :: string
  le_at :: string
  le_actorId :: string
  le_reason :: "string option"
  le_evidenceIds :: "string list"

record conflict =
  cf_existingId :: string
  cf_subject :: js
  cf_predicate :: js
  cf_reason :: string

record memory_record =
  m_id :: string
  m_workspaceId :: string
  m_kind :: string
  m_text :: string
  m_status :: status
  m_source :: string
  m_sourceTrust :: string
  m_decision :: verdict
  m_reasons :: "string list"
  m_confidence :: rat
  m_retention :: string
  m_validFrom :: "string option"
  m_validTo :: "string option"
  m_createdAt :: string
  m_updatedAt :: string
  m_supersedes :: "string option"
  m_dataClass :: string
  m_metadata :: js
  m_evidenceIds :: "string list"
  m_conflicts :: "conflict list"
  m_lifecycle :: "life_event list"
  m_verifiedBy :: "string option"
  m_activatedBy :: "string option"

text \<open>
  The caller's object: \<open>None\<close> is an absent property (for \<open>in_text\<close> and \<open>in_source\<close> also a
  value that is not a string, for \<open>in_confidence\<close> one that is not a number).
\<close>

record memory_input =
  in_id :: "string option"
  in_workspaceId :: "string option"
  in_kind :: string
  in_text :: "string option"
  in_source :: "string option"
  in_sourceTrust :: "string option"
  in_confidence :: "rat option"
  in_retention :: "string option"
  in_validFrom :: "string option"
  in_validTo :: "string option"
  in_now :: "string option"
  in_createdAt :: "string option"
  in_supersedes :: "string option"
  in_dataClass :: "string option"
  in_metadata :: "js option"
  in_evidenceIds :: "string list option"
  in_actorId :: "string option"
  in_stability :: "string option"

datatype memory_error =
    KindUnsupported
  | TextRequired
  | SourceRequired
  | DataClassUnsupported
  | CannotVerify status
  | EvidenceRequired
  | CannotActivate status
  | NotVerified
  | ActiveNotRejectable
  | NotActive
  | NotRetractable

definition dflt :: "'a option \<Rightarrow> 'a \<Rightarrow> 'a" where
  "dflt x d = (case x of None \<Rightarrow> d | Some v \<Rightarrow> v)"

definition first_of :: "'a option \<Rightarrow> 'a option \<Rightarrow> 'a option" where
  "first_of x y = (case x of None \<Rightarrow> y | Some v \<Rightarrow> Some v)"

lemma dflt_simps [simp]: "dflt None d = d" "dflt (Some v) d = v"
  by (simp_all add: dflt_def)

lemma first_of_simps [simp]: "first_of None y = y" "first_of (Some v) y = Some v"
  by (simp_all add: first_of_def)

definition boundedConfidence :: "rat option \<Rightarrow> rat" where
  "boundedConfidence v = max 0 (min 1 (dflt v (1 / 2)))"

definition normalizeDataClass :: "string option \<Rightarrow> (memory_error, string) result" where
  "normalizeDataClass v =
     (let c = dflt v ''workspace-private'' in
      if c \<notin> set DATA_CLASSES then Inl DataClassUnsupported else Inr c)"

text \<open>The four secret patterns: \<open>sk-[A-Za-z0-9_-]{20,}\<close>, a private-key header,
  \<open>AKIA[0-9A-Z]{16}\<close>, \<open>gho_[A-Za-z0-9_]{20,}\<close>.\<close>

definition hasSecret :: "string \<Rightarrow> bool" where
  "hasSecret s \<longleftrightarrow>
     some_suffix (lit_then_run ''sk-'' (\<lambda>c. is_alnum c \<or> c = CHR ''_'' \<or> c = CHR ''-'') 20) s \<or>
     some_suffix (\<lambda>t. starts_with ''BEGIN PRIVATE KEY'' t \<or> starts_with ''BEGIN RSA PRIVATE KEY'' t \<or>
       starts_with ''BEGIN EC PRIVATE KEY'' t \<or> starts_with ''BEGIN OPENSSH PRIVATE KEY'' t) s \<or>
     some_suffix (lit_then_run ''AKIA'' (\<lambda>c. is_digit c \<or> is_upper c) 16) s \<or>
     some_suffix (lit_then_run ''gho_'' (\<lambda>c. is_alnum c \<or> c = CHR ''_'') 20) s"

definition lifecycleEvent :: "string \<Rightarrow> string \<Rightarrow> string \<Rightarrow> string option \<Rightarrow> string list \<Rightarrow> life_event" where
  "lifecycleEvent typ tm actorId reason evidenceIds =
     \<lparr>le_type = typ, le_at = tm, le_actorId = actorId, le_reason = reason,
      le_evidenceIds = sorted_unique evidenceIds\<rparr>"

definition withLifecycle :: "memory_record \<Rightarrow> life_event \<Rightarrow> life_event list" where
  "withLifecycle r e = m_lifecycle r @ [e]"

definition normalizeInput :: "memory_input \<Rightarrow> (memory_error, memory_input) result" where
  "normalizeInput i =
     (if in_kind i \<notin> set MEMORY_KINDS then Inl KindUnsupported
      else if trim (dflt (in_text i) []) = [] then Inl TextRequired
      else if trim (dflt (in_source i) []) = [] then Inl SourceRequired
      else Inr i)"

text \<open>\<open>fresh\<close> is the identifier \<open>prefixedId\<close> would make, \<open>now\<close> the current time.\<close>

definition commonRecord ::
  "string \<Rightarrow> string \<Rightarrow> memory_input \<Rightarrow> status \<Rightarrow> verdict \<Rightarrow> string list \<Rightarrow> string \<Rightarrow> string \<Rightarrow> memory_record" where
  "commonRecord fresh now i st decision reasons text dataClass =
     (let createdAt = dflt (first_of (in_now i) (in_createdAt i)) now in
      \<lparr>m_id = dflt (in_id i) fresh,
       m_workspaceId = dflt (in_workspaceId i) ''ws_local'',
       m_kind = in_kind i,
       m_text = text,
       m_status = st,
       m_source = dflt (in_source i) [],
       m_sourceTrust = dflt (in_sourceTrust i) ''unverified'',
       m_decision = decision,
       m_reasons = sorted_unique reasons,
       m_confidence = boundedConfidence (in_confidence i),
       m_retention = dflt (in_retention i) ''workspace-default'',
       m_validFrom = in_validFrom i,
       m_validTo = in_validTo i,
       m_createdAt = createdAt,
       m_updatedAt = createdAt,
       m_supersedes = in_supersedes i,
       m_dataClass = dataClass,
       m_metadata = dflt (in_metadata i) (Obj []),
       m_evidenceIds = sorted_unique (dflt (in_evidenceIds i) []),
       m_conflicts = [],
       m_lifecycle = [lifecycleEvent ''memory.proposed'' createdAt (dflt (in_actorId i) ''system'') None []],
       m_verifiedBy = None,
       m_activatedBy = None\<rparr>)"

section \<open>Duplicates and conflicts\<close>

text \<open>\<open>String(v)\<close> as far as metadata needs it\<close>

fun js_to_string :: "runtime \<Rightarrow> js \<Rightarrow> string" where
  "js_to_string rt (Str s) = s"
| "js_to_string rt (Num n) = num_str rt n"
| "js_to_string rt (Bool b) = (if b then ''true'' else ''false'')"
| "js_to_string rt Null = ''null''"
| "js_to_string rt Undef = ''undefined''"
| "js_to_string rt (Arr xs) = join '','' (map (\<lambda>x. if nullish x then [] else js_to_string rt x) xs)"
| "js_to_string rt (Obj _) = ''[object Object]''"

definition memoryKey :: "runtime \<Rightarrow> memory_record \<Rightarrow> string" where
  "memoryKey rt r = join [CHR 0x00] [m_workspaceId r, m_kind r, to_lower rt (trim (m_text r))]"

definition conflictKey :: "runtime \<Rightarrow> memory_record \<Rightarrow> string option" where
  "conflictKey rt r =
     (let subject = get (m_metadata r) ''subject''; predicate = get (m_metadata r) ''predicate'' in
      if \<not> truthy subject \<or> \<not> truthy predicate then None
      else Some (join [CHR 0x00] [m_workspaceId r, m_kind r, js_to_string rt subject, js_to_string rt predicate]))"

definition findDuplicate :: "runtime \<Rightarrow> memory_record \<Rightarrow> memory_record list \<Rightarrow> memory_record option" where
  "findDuplicate rt r existing =
     List.find (\<lambda>e. m_status e \<in> {Active, Verified} \<and> memoryKey rt e = memoryKey rt r) existing"

definition findConflicts :: "runtime \<Rightarrow> memory_record \<Rightarrow> memory_record list \<Rightarrow> conflict list" where
  "findConflicts rt r existing =
     (case conflictKey rt r of
        None \<Rightarrow> []
      | Some key \<Rightarrow>
          map (\<lambda>e. \<lparr>cf_existingId = m_id e, cf_subject = get (m_metadata r) ''subject'',
                     cf_predicate = get (m_metadata r) ''predicate'',
                     cf_reason = ''same_subject_predicate_different_text''\<rparr>)
            (filter (\<lambda>e. m_status e \<in> {Active, Verified} \<and> conflictKey rt e = Some key \<and>
                       trim (m_text e) \<noteq> trim (m_text r)) existing))"

section \<open>Operations\<close>

definition proposal_reasons :: "memory_input \<Rightarrow> string list" where
  "proposal_reasons i =
     (if hasSecret (dflt (in_text i) []) then [''possible_secret''] else []) @
     (if in_kind i = ''preference'' \<and> in_source i \<noteq> Some ''user-confirmed'' then [''user_confirmation_required''] else []) @
     (if in_kind i = ''fact'' \<and> in_sourceTrust i \<noteq> Some ''verified'' then [''source_verification_required''] else []) @
     (if in_stability i = Some ''transient'' then [''transient_not_durable''] else [])"

definition proposeMemory :: "string \<Rightarrow> string \<Rightarrow> memory_input \<Rightarrow> (memory_error, memory_record) result" where
  "proposeMemory fresh now i0 = bind_res (normalizeInput i0) (\<lambda>i.
     let text = dflt (in_text i) [];
         reasons = proposal_reasons i;
         secret = hasSecret text;
         st = (if secret then Quarantined else Proposed);
         decision = (if secret then Reject else if reasons \<noteq> [] then Review else Propose)
     in bind_res (if secret then Inr ''secret'' else normalizeDataClass (in_dataClass i)) (\<lambda>dataClass.
          Inr (commonRecord fresh now i st decision reasons
                 (if secret then ''[redacted-secret]'' else text) dataClass)))"

definition evaluateMemoryWrite ::
  "runtime \<Rightarrow> string \<Rightarrow> string \<Rightarrow> memory_input \<Rightarrow> memory_record list \<Rightarrow> (memory_error, memory_record) result" where
  "evaluateMemoryWrite rt fresh now i existing = bind_res (proposeMemory fresh now i) (\<lambda>proposal.
     if m_status proposal = Quarantined then Inr proposal
     else
       let conflicts = findConflicts rt proposal existing;
           reasons = m_reasons proposal
             @ (if findDuplicate rt proposal existing \<noteq> None then [''duplicate_memory''] else [])
             @ (if conflicts \<noteq> [] then [''conflicting_memory''] else [])
       in Inr (proposal\<lparr>m_decision := (if reasons \<noteq> [] then Review else m_decision proposal),
                        m_reasons := sorted_unique reasons,
                        m_conflicts := conflicts\<rparr>))"

definition verifyMemory ::
  "string \<Rightarrow> string \<Rightarrow> string list \<Rightarrow> memory_record \<Rightarrow> (memory_error, memory_record) result" where
  "verifyMemory tm verifiedBy evidenceIds r =
     (if m_status r \<in> {Quarantined, Rejected, Retracted, Expired} then Inl (CannotVerify (m_status r))
      else if evidenceIds = [] then Inl EvidenceRequired
      else Inr (r\<lparr>m_status := Verified, m_decision := Allow, m_verifiedBy := Some verifiedBy,
                  m_evidenceIds := sorted_unique (m_evidenceIds r @ evidenceIds), m_updatedAt := tm,
                  m_lifecycle := withLifecycle r (lifecycleEvent ''memory.verified'' tm verifiedBy None evidenceIds)\<rparr>))"

definition activateMemory :: "string \<Rightarrow> string \<Rightarrow> memory_record \<Rightarrow> (memory_error, memory_record) result" where
  "activateMemory tm activatedBy r =
     (if m_status r \<in> {Quarantined, Rejected, Retracted, Expired, Superseded} then Inl (CannotActivate (m_status r))
      else
        let userConfirmedAllow = (m_source r = ''user-confirmed'' \<and> m_decision r \<notin> {Review, Reject}) in
        if m_status r \<noteq> Verified \<and> \<not> userConfirmedAllow then Inl NotVerified
        else Inr (r\<lparr>m_status := Active, m_decision := Allow, m_activatedBy := Some activatedBy, m_updatedAt := tm,
                    m_lifecycle := withLifecycle r (lifecycleEvent ''memory.activated'' tm activatedBy None [])\<rparr>))"

definition rejectMemory ::
  "string \<Rightarrow> string \<Rightarrow> string \<Rightarrow> memory_record \<Rightarrow> (memory_error, memory_record) result" where
  "rejectMemory tm rejectedBy reason r =
     (if m_status r = Active then Inl ActiveNotRejectable
      else Inr (r\<lparr>m_status := Rejected, m_decision := Reject, m_reasons := sorted_unique (m_reasons r @ [reason]),
                  m_updatedAt := tm,
                  m_lifecycle := withLifecycle r (lifecycleEvent ''memory.rejected'' tm rejectedBy (Some reason) [])\<rparr>))"

text \<open>
  \<open>{...previous, ...replacementInput, ...}\<close>: the replacement's properties win over the
  previous record's, then the explicit ones. A record has no actor or stability property.
\<close>

definition replacement_input :: "memory_record \<Rightarrow> memory_input \<Rightarrow> string option \<Rightarrow> string \<Rightarrow> memory_input" where
  "replacement_input p i kind tm =
     \<lparr>in_id = in_id i, in_workspaceId = Some (m_workspaceId p), in_kind = dflt kind (m_kind p),
      in_text = in_text i, in_source = first_of (in_source i) (Some (m_source p)),
      in_sourceTrust = first_of (in_sourceTrust i) (Some (m_sourceTrust p)),
      in_confidence = first_of (in_confidence i) (Some (m_confidence p)),
      in_retention = first_of (in_retention i) (Some (m_retention p)),
      in_validFrom = first_of (in_validFrom i) (m_validFrom p),
      in_validTo = first_of (in_validTo i) (m_validTo p),
      in_now = Some tm, in_createdAt = first_of (in_createdAt i) (Some (m_createdAt p)),
      in_supersedes = Some (m_id p),
      in_dataClass = first_of (in_dataClass i) (Some (m_dataClass p)),
      in_metadata = first_of (in_metadata i) (Some (m_metadata p)),
      in_evidenceIds = first_of (in_evidenceIds i) (Some (m_evidenceIds p)),
      in_actorId = in_actorId i, in_stability = in_stability i\<rparr>"

text \<open>\<open>kind\<close> is \<open>replacementInput.kind\<close>, which may be absent here.\<close>

definition supersedeMemory ::
  "string \<Rightarrow> string \<Rightarrow> string \<Rightarrow> string option \<Rightarrow> memory_record \<Rightarrow> memory_input \<Rightarrow> string option \<Rightarrow>
   (memory_error, memory_record \<times> memory_record) result" where
  "supersedeMemory fresh tm actorId reason p i kind =
     (if m_status p \<noteq> Active then Inl NotActive
      else
        let previous = p\<lparr>m_status := Superseded, m_updatedAt := tm,
              m_lifecycle := withLifecycle p (lifecycleEvent ''memory.superseded'' tm actorId reason [])\<rparr>
        in bind_res (proposeMemory fresh tm (replacement_input p i kind tm)) (\<lambda>proposal.
           bind_res (if m_status proposal = Verified then Inr proposal
                     else verifyMemory tm actorId (dflt (in_evidenceIds i) (m_evidenceIds p)) proposal) (\<lambda>verified.
           bind_res (activateMemory tm actorId verified) (\<lambda>replacement.
           Inr (previous, replacement)))))"

definition retractMemory ::
  "string \<Rightarrow> string \<Rightarrow> string \<Rightarrow> memory_record \<Rightarrow> (memory_error, memory_record) result" where
  "retractMemory tm retractedBy reason r =
     (if m_status r \<notin> {Active, Verified} then Inl NotRetractable
      else Inr (r\<lparr>m_status := Retracted, m_updatedAt := tm,
                  m_lifecycle := withLifecycle r (lifecycleEvent ''memory.retracted'' tm retractedBy (Some reason) [])\<rparr>))"

definition expireMemory :: "string option \<Rightarrow> string \<Rightarrow> string \<Rightarrow> memory_record \<Rightarrow> memory_record" where
  "expireMemory newId tm reason r =
     r\<lparr>m_id := dflt newId (m_id r), m_status := Expired, m_validTo := Some tm, m_updatedAt := tm,
       m_lifecycle := withLifecycle r (lifecycleEvent ''memory.expired'' tm ''system'' (Some reason) [])\<rparr>"

section \<open>Export\<close>

definition export_le :: "runtime \<Rightarrow> memory_record \<Rightarrow> memory_record \<Rightarrow> bool" where
  "export_le rt a b =
     (let c = locale_compare rt (m_createdAt a) (m_createdAt b) in
      c < 0 \<or> (c = 0 \<and> locale_compare rt (m_id a) (m_id b) \<le> 0))"

definition exportMemoryRecords :: "runtime \<Rightarrow> bool \<Rightarrow> memory_record list \<Rightarrow> memory_record list" where
  "exportMemoryRecords rt includeInactive records =
     (let allowed = (if includeInactive then INACTIVE_EXPORT_STATUSES else ACTIVE_EXPORT_STATUSES) in
      order_by (export_le rt)
        (filter (\<lambda>r. m_dataClass r \<noteq> ''secret'' \<and> m_status r \<noteq> Quarantined)
          (filter (\<lambda>r. m_status r \<in> set allowed) records)))"

section \<open>The lifecycle machine\<close>

text \<open>Records enter by a proposal, by an evaluated write or as the replacement of a
  supersession; every later operation is one step.\<close>

inductive life_init :: "memory_record \<Rightarrow> bool" where
  proposed: "proposeMemory fresh now i = Inr r \<Longrightarrow> life_init r"
| evaluated: "evaluateMemoryWrite rt fresh now i existing = Inr r \<Longrightarrow> life_init r"
| replacement: "supersedeMemory fresh tm actor reason p i kind = Inr (q, r) \<Longrightarrow> life_init r"

inductive life_step :: "memory_record \<Rightarrow> memory_record \<Rightarrow> bool" where
  verify: "verifyMemory tm actor ev r = Inr r' \<Longrightarrow> life_step r r'"
| activate: "activateMemory tm actor r = Inr r' \<Longrightarrow> life_step r r'"
| reject: "rejectMemory tm actor reason r = Inr r' \<Longrightarrow> life_step r r'"
| supersede: "supersedeMemory fresh tm actor reason r i kind = Inr (r', q) \<Longrightarrow> life_step r r'"
| retract: "retractMemory tm actor reason r = Inr r' \<Longrightarrow> life_step r r'"
| expire: "expireMemory newId tm reason r = r' \<Longrightarrow> life_step r r'"

text \<open>What each operation guarantees when it succeeds.\<close>

lemma proposeMemory_Inr:
  "proposeMemory fresh now i = Inr r \<longleftrightarrow>
     normalizeInput i = Inr i \<and>
     (let text = dflt (in_text i) []; reasons = proposal_reasons i in
      if hasSecret text
      then r = commonRecord fresh now i Quarantined Reject reasons ''[redacted-secret]'' ''secret''
      else \<exists>dc. normalizeDataClass (in_dataClass i) = Inr dc \<and>
        r = commonRecord fresh now i Proposed (if reasons \<noteq> [] then Review else Propose) reasons text dc)"
  by (auto simp: proposeMemory_def bind_res_eq_Inr normalizeInput_def Let_def split: if_splits)

lemma commonRecord_sel [simp]:
  "m_status (commonRecord fresh now i st d rs txt dc) = st"
  "m_decision (commonRecord fresh now i st d rs txt dc) = d"
  "m_reasons (commonRecord fresh now i st d rs txt dc) = sorted_unique rs"
  "m_text (commonRecord fresh now i st d rs txt dc) = txt"
  "m_dataClass (commonRecord fresh now i st d rs txt dc) = dc"
  "m_source (commonRecord fresh now i st d rs txt dc) = dflt (in_source i) []"
  "m_evidenceIds (commonRecord fresh now i st d rs txt dc) = sorted_unique (dflt (in_evidenceIds i) [])"
  "m_supersedes (commonRecord fresh now i st d rs txt dc) = in_supersedes i"
  "m_workspaceId (commonRecord fresh now i st d rs txt dc) = dflt (in_workspaceId i) ''ws_local''"
  by (simp_all add: commonRecord_def Let_def)

lemma commonRecord_lifecycle:
  "\<exists>tm actor. m_lifecycle (commonRecord fresh now i st d rs txt dc) = [lifecycleEvent ''memory.proposed'' tm actor None []]"
  by (simp add: commonRecord_def Let_def) blast

lemma proposal_fresh:
  assumes "proposeMemory fresh now i = Inr r"
  shows "m_status r \<in> {Proposed, Quarantined}"
    and "\<exists>tm actor. m_lifecycle r = [lifecycleEvent ''memory.proposed'' tm actor None []]"
  using assms commonRecord_lifecycle by (auto simp: proposeMemory_Inr Let_def split: if_splits)

lemma evaluated_fresh:
  assumes "evaluateMemoryWrite rt fresh now i ex = Inr r"
  shows "m_status r \<in> {Proposed, Quarantined}"
    and "\<exists>tm actor. m_lifecycle r = [lifecycleEvent ''memory.proposed'' tm actor None []]"
proof -
  obtain p where "proposeMemory fresh now i = Inr p" "m_status r = m_status p" "m_lifecycle r = m_lifecycle p"
    using assms by (auto simp: evaluateMemoryWrite_def bind_res_eq_Inr Let_def split: if_splits)
  then show "m_status r \<in> {Proposed, Quarantined}"
    and "\<exists>tm actor. m_lifecycle r = [lifecycleEvent ''memory.proposed'' tm actor None []]"
    using proposal_fresh by simp_all
qed

lemma lifecycleEvent_type [simp]: "le_type (lifecycleEvent typ tm actor reason ev) = typ"
  by (simp add: lifecycleEvent_def)

lemma supersedeMemory_Inr:
  assumes "supersedeMemory fresh tm actor reason p i kind = Inr (p', r)"
  obtains proposal verified where
    "m_status p = Active"
    "p' = p\<lparr>m_status := Superseded, m_updatedAt := tm,
        m_lifecycle := withLifecycle p (lifecycleEvent ''memory.superseded'' tm actor reason [])\<rparr>"
    "proposeMemory fresh tm (replacement_input p i kind tm) = Inr proposal"
    "verifyMemory tm actor (dflt (in_evidenceIds i) (m_evidenceIds p)) proposal = Inr verified"
    "activateMemory tm actor verified = Inr r"
proof -
  from assms obtain proposal verified where 1:
    "m_status p = Active"
    "p' = p\<lparr>m_status := Superseded, m_updatedAt := tm,
        m_lifecycle := withLifecycle p (lifecycleEvent ''memory.superseded'' tm actor reason [])\<rparr>"
    "proposeMemory fresh tm (replacement_input p i kind tm) = Inr proposal"
    "(if m_status proposal = Verified then Inr proposal
      else verifyMemory tm actor (dflt (in_evidenceIds i) (m_evidenceIds p)) proposal) = Inr verified"
    "activateMemory tm actor verified = Inr r"
    by (cases "m_status p = Active") (auto simp: supersedeMemory_def bind_res_eq_Inr Let_def)
  moreover have "m_status proposal \<noteq> Verified"
    using proposal_fresh(1) [OF 1(3)] by auto
  ultimately show ?thesis using that by simp
qed

definition event_types :: "memory_record \<Rightarrow> string list" where
  "event_types r = map le_type (m_lifecycle r)"

text \<open>The history ends with a verification that cites evidence, all of which the record keeps.\<close>

definition ends_verified :: "life_event list \<Rightarrow> string list \<Rightarrow> bool" where
  "ends_verified es evidenceIds \<longleftrightarrow> (\<exists>past e. es = past @ [e] \<and> le_type e = ''memory.verified'' \<and>
     le_evidenceIds e \<noteq> [] \<and> set (le_evidenceIds e) \<subseteq> set evidenceIds)"

definition life_inv :: "memory_record \<Rightarrow> bool" where
  "life_inv r \<longleftrightarrow>
     event_types r \<noteq> [] \<and> hd (event_types r) = ''memory.proposed'' \<and>
     (m_status r = Verified \<longrightarrow> ends_verified (m_lifecycle r) (m_evidenceIds r)) \<and>
     (m_status r = Active \<longrightarrow>
        m_decision r = Allow \<and> last (event_types r) = ''memory.activated'' \<and>
        (ends_verified (butlast (m_lifecycle r)) (m_evidenceIds r) \<or> m_source r = ''user-confirmed''))"

lemma ends_verified_event [simp]:
  "ends_verified (es @ [lifecycleEvent ''memory.verified'' tm actor reason ev]) ids \<longleftrightarrow> ev \<noteq> [] \<and> set ev \<subseteq> set ids"
  by (auto simp: ends_verified_def lifecycleEvent_def)

lemma life_inv_verify: "life_inv r \<Longrightarrow> verifyMemory tm actor ev r = Inr r' \<Longrightarrow> life_inv r'"
  by (auto simp: verifyMemory_def life_inv_def event_types_def withLifecycle_def split: if_splits)

lemma life_inv_activate: "life_inv r \<Longrightarrow> activateMemory tm actor r = Inr r' \<Longrightarrow> life_inv r'"
  by (auto simp: activateMemory_def life_inv_def event_types_def withLifecycle_def Let_def split: if_splits)

lemma life_inv_step: "life_inv r \<Longrightarrow> life_step r r' \<Longrightarrow> life_inv r'"
proof (erule life_step.cases, goal_cases)
  case (1 tm actor ev r r')
  then show ?case by (auto intro: life_inv_verify)
next
  case (2 tm actor r r')
  then show ?case by (auto intro: life_inv_activate)
qed (auto simp: rejectMemory_def retractMemory_def expireMemory_def life_inv_def event_types_def withLifecycle_def
       elim!: supersedeMemory_Inr split: if_splits)

lemma life_inv_proposed: "proposeMemory fresh now i = Inr r \<Longrightarrow> life_inv r"
  using proposal_fresh [of fresh now i r] by (auto simp: life_inv_def event_types_def)

lemma life_inv_init: "life_init r \<Longrightarrow> life_inv r"
proof (induction rule: life_init.induct)
  case (proposed fresh now i r)
  then show ?case by (rule life_inv_proposed)
next
  case (evaluated rt fresh now i ex r)
  then show ?case using evaluated_fresh by (fastforce simp: life_inv_def event_types_def)
next
  case (replacement fresh tm actor reason p i kind q r)
  then show ?case
    by (elim supersedeMemory_Inr) (blast intro: life_inv_proposed life_inv_verify life_inv_activate)
qed

interpretation life: invariant_system life_init life_step life_inv
  by unfold_locales (auto intro: life_inv_init life_inv_step)

text \<open>Proposals whose text matched a secret pattern.\<close>

definition secret_init :: "memory_record \<Rightarrow> bool" where
  "secret_init r \<longleftrightarrow> (\<exists>fresh now i. hasSecret (dflt (in_text i) []) \<and> proposeMemory fresh now i = Inr r)"

definition secret_inv :: "memory_record \<Rightarrow> bool" where
  "secret_inv r \<longleftrightarrow> m_text r = ''[redacted-secret]'' \<and> m_dataClass r = ''secret'' \<and>
     m_status r \<in> {Quarantined, Rejected, Expired}"

lemma secret_inv_step: "secret_inv r \<Longrightarrow> life_step r r' \<Longrightarrow> secret_inv r'"
  by (erule life_step.cases)
     (auto simp: secret_inv_def verifyMemory_def activateMemory_def rejectMemory_def retractMemory_def expireMemory_def
        elim!: supersedeMemory_Inr split: if_splits)

lemma secret_inv_init: "secret_init r \<Longrightarrow> secret_inv r"
  by (auto simp: secret_init_def proposeMemory_Inr Let_def secret_inv_def)

interpretation secret: invariant_system secret_init life_step secret_inv
  by unfold_locales (auto intro: secret_inv_init secret_inv_step)

lemma life_step_appends: "life_step r r' \<Longrightarrow> \<exists>e. m_lifecycle r' = m_lifecycle r @ [e]"
  by (erule life_step.cases)
     (auto simp: verifyMemory_def activateMemory_def rejectMemory_def retractMemory_def expireMemory_def
        withLifecycle_def Let_def elim!: supersedeMemory_Inr split: if_splits)

lemma life_run_appends: "life_step\<^sup>*\<^sup>* r r' \<Longrightarrow> \<exists>es. m_lifecycle r' = m_lifecycle r @ es"
proof (induction rule: rtranclp_induct)
  case (step s t)
  then show ?case using life_step_appends [of s t] by auto
qed simp

text \<open>A consistent comparison, as the language requires of \<open>localeCompare\<close>.\<close>

definition consistent_compare :: "(string \<Rightarrow> string \<Rightarrow> int) \<Rightarrow> bool" where
  "consistent_compare cmp \<longleftrightarrow>
     (\<forall>a b. (cmp a b < 0) = (0 < cmp b a)) \<and>
     (\<forall>a b c. cmp a b \<le> 0 \<longrightarrow> cmp b c \<le> 0 \<longrightarrow> cmp a c \<le> 0)"

lemma export_le_preorder:
  assumes "consistent_compare (locale_compare rt)"
  shows "total_preorder (export_le rt)"
proof
  let ?c = "locale_compare rt"
  have anti: "\<And>a b. (?c a b < 0) = (0 < ?c b a)"
    and tr: "\<And>a b d. ?c a b \<le> 0 \<Longrightarrow> ?c b d \<le> 0 \<Longrightarrow> ?c a d \<le> 0"
    using assms unfolding consistent_compare_def by blast+
  show "export_le rt x y \<or> export_le rt y x" for x y
    using anti [of "m_createdAt x" "m_createdAt y"] anti [of "m_createdAt y" "m_createdAt x"]
      anti [of "m_id y" "m_id x"] by (auto simp: export_le_def Let_def)
  show "export_le rt x z" if le: "export_le rt x y" "export_le rt y z" for x y z
  proof -
    let ?x = "m_createdAt x" and ?y = "m_createdAt y" and ?z = "m_createdAt z"
    have xy: "?c ?x ?y \<le> 0" and yz: "?c ?y ?z \<le> 0"
      using le by (auto simp: export_le_def Let_def)
    then have xz: "?c ?x ?z \<le> 0" by (rule tr)
    show ?thesis
    proof (cases "?c ?x ?z < 0")
      case False
      with xz anti [of ?z ?x] anti [of ?x ?z] have "?c ?x ?z = 0" "?c ?z ?x \<le> 0" by auto
      moreover have "?c ?y ?x \<le> 0" using yz \<open>?c ?z ?x \<le> 0\<close> by (rule tr)
      moreover have "?c ?z ?y \<le> 0" using \<open>?c ?z ?x \<le> 0\<close> xy by (rule tr)
      ultimately have "\<not> ?c ?x ?y < 0" "\<not> ?c ?y ?z < 0" "?c ?x ?z = 0"
        using anti [of ?x ?y] anti [of ?y ?z] by auto
      then show ?thesis
        using le tr [of "m_id x" "m_id y" "m_id z"] by (auto simp: export_le_def Let_def)
    qed (simp add: export_le_def Let_def)
  qed
qed

section \<open>A sample memory\<close>

definition sample_input :: memory_input where
  "sample_input = \<lparr>in_id = Some ''mem_a'', in_workspaceId = None, in_kind = ''decision'', in_text = Some ''use sqlite'',
     in_source = Some ''adr'', in_sourceTrust = None, in_confidence = None, in_retention = None, in_validFrom = None,
     in_validTo = None, in_now = None, in_createdAt = None, in_supersedes = None, in_dataClass = None,
     in_metadata = None, in_evidenceIds = None, in_actorId = None, in_stability = None\<rparr>"

definition sample_record :: memory_record where
  "sample_record = commonRecord ''f'' ''1'' sample_input Proposed Propose [] ''use sqlite'' ''workspace-private''"

lemmas memory_eval = sample_input_def proposeMemory_def normalizeInput_def normalizeDataClass_def proposal_reasons_def
  hasSecret_def lit_then_run_def trim_def js_space_def MEMORY_KINDS_def DATA_CLASSES_def commonRecord_def
  verifyMemory_def activateMemory_def is_alnum_def is_upper_def is_lower_def is_digit_def Let_def

lemma sample_proposed: "\<exists>r. proposeMemory ''f'' ''1'' sample_input = Inr r \<and> m_status r = Proposed \<and> m_source r = ''adr''"
  by (simp add: memory_eval)

lemma sample_active: "\<exists>r. reach life_init life_step r \<and> m_status r = Active \<and> m_source r = ''adr''"
proof -
  obtain p where p: "proposeMemory ''f'' ''1'' sample_input = Inr p" "m_status p = Proposed" "m_source p = ''adr''"
    using sample_proposed by blast
  obtain v where v: "verifyMemory ''2'' ''rev'' [''obs''] p = Inr v" "m_status v = Verified" "m_source v = ''adr''"
    using p(2,3) by (simp add: verifyMemory_def)
  obtain a where a: "activateMemory ''3'' ''rev'' v = Inr a" "m_status a = Active" "m_source a = ''adr''"
    using v(2,3) by (simp add: activateMemory_def)
  have "reach life_init life_step a"
    by (meson a(1) life_init.proposed life_step.activate life_step.verify p(1) reach_init reach_step v(1))
  with a(2,3) show ?thesis by blast
qed

section \<open>Properties\<close>

text \<open>C23: A memory that is active after any sequence of lifecycle operations has decision \<open>allow\<close> and was activated by its
  last recorded event; and either its source is one the user confirmed, or the event just before the activation is a
  verification that cites evidence, at least one identifier, all of which the record still lists.\<close>

theorem active_memory_was_reviewed:
  assumes "reach life_init life_step r" and "m_status r = Active"
  shows "m_decision r = Allow \<and> last (event_types r) = ''memory.activated'' \<and>
    (m_source r = ''user-confirmed'' \<or>
     (\<exists>past verification activation. m_lifecycle r = past @ [verification, activation] \<and> le_type verification = ''memory.verified'' \<and>
        le_evidenceIds verification \<noteq> [] \<and> set (le_evidenceIds verification) \<subseteq> set (m_evidenceIds r)))"
proof -
  have inv: "life_inv r" using life.reach_inv [OF assms(1)] .
  then have "m_lifecycle r \<noteq> []" by (auto simp: life_inv_def event_types_def)
  then have "m_lifecycle r = butlast (m_lifecycle r) @ [last (m_lifecycle r)]" by simp
  moreover have "past @ [e] @ [a] = past @ [e, a]" for past and e a :: life_event by simp
  ultimately show ?thesis using inv assms(2) unfolding life_inv_def ends_verified_def by (metis append_assoc)
qed

theorem active_memory_was_reviewed_witness:
  "\<exists>r e. reach life_init life_step r \<and> m_status r = Active \<and> m_decision r = Allow \<and> m_source r = ''adr'' \<and>
     e \<in> set (m_lifecycle r) \<and> le_type e = ''memory.verified'' \<and> le_evidenceIds e \<noteq> []"
proof -
  obtain r where r: "reach life_init life_step r" "m_status r = Active" "m_source r = ''adr''" using sample_active by blast
  from active_memory_was_reviewed [OF r(1,2)] obtain past e a where "m_decision r = Allow" "m_lifecycle r = past @ [e, a]"
      "le_type e = ''memory.verified''" "le_evidenceIds e \<noteq> []" unfolding r(3) by auto
  then show ?thesis using r by (intro exI [of _ r] exI [of _ e]) simp
qed

text \<open>C24: A proposal whose text contains a secret is redacted when it is created and stays redacted,
  with data class \<open>secret\<close>, under every later operation; it never becomes verified or active
  and no export contains it.\<close>

theorem secret_memory_never_usable:
  assumes "hasSecret (dflt (in_text i) [])" and "proposeMemory fresh now i = Inr r0" and "life_step\<^sup>*\<^sup>* r0 r"
  shows "m_text r = ''[redacted-secret]'' \<and> m_status r \<notin> {Active, Verified} \<and>
    r \<notin> set (exportMemoryRecords rt b rs)"
proof -
  have "secret_inv r0" using assms(1,2) secret_inv_init unfolding secret_init_def by blast
  then have "secret_inv r"
    using secret.steps_mono [of "\<lambda>_ _. True", OF _ _ _ _ assms(3)] by blast
  then show ?thesis by (auto simp: secret_inv_def exportMemoryRecords_def Let_def)
qed

theorem secret_memory_never_usable_witness:
  "\<exists>r0. hasSecret ''AKIA0123456789ABCDEF'' \<and>
     proposeMemory ''f'' ''1'' (sample_input\<lparr>in_text := Some ''AKIA0123456789ABCDEF''\<rparr>) = Inr r0 \<and>
     m_text r0 = ''[redacted-secret]'' \<and> m_status r0 \<notin> {Active, Verified} \<and>
     r0 \<notin> set (exportMemoryRecords sample_runtime True [r0])"
proof -
  let ?i = "sample_input\<lparr>in_text := Some ''AKIA0123456789ABCDEF''\<rparr>"
  have s: "hasSecret (dflt (in_text ?i) [])"
    by (simp add: memory_eval)
  have "\<exists>r0. proposeMemory ''f'' ''1'' ?i = Inr r0"
    using s by (simp add: proposeMemory_Inr Let_def normalizeInput_def MEMORY_KINDS_def sample_input_def trim_def js_space_def)
  then obtain r0 where r0: "proposeMemory ''f'' ''1'' ?i = Inr r0" ..
  then show ?thesis
    using secret_memory_never_usable [OF s r0 rtranclp.rtrancl_refl, of sample_runtime True "[r0]"] s
    by (auto simp: sample_input_def)
qed

text \<open>History is immutable: whatever sequence of operations is applied to a record, the
  events it had are a prefix of the events it has.\<close>

theorem lifecycle_history_immutable:
  assumes "life_step\<^sup>*\<^sup>* r r'"
  shows "take (length (m_lifecycle r)) (m_lifecycle r') = m_lifecycle r"
  using life_run_appends [OF assms] by auto

theorem lifecycle_history_immutable_witness:
  "\<exists>r r'. life_step\<^sup>*\<^sup>* r r' \<and> r \<noteq> r' \<and> take (length (m_lifecycle r)) (m_lifecycle r') = m_lifecycle r"
proof -
  let ?q = "expireMemory None ''9'' ''old'' sample_record"
  have "life_step\<^sup>*\<^sup>* sample_record ?q" by (blast intro: life_step.expire)
  moreover have "m_status sample_record \<noteq> m_status ?q"
    by (simp add: sample_record_def expireMemory_def)
  ultimately show ?thesis using lifecycle_history_immutable by metis
qed

text \<open>A write without secrets is proposed for direct acceptance exactly when no gate objects:
  no missing confirmation, no unverified source, not transient, no active or verified
  duplicate, and no active or verified record that says something else about the same subject
  and predicate. In every other case its decision is \<open>review\<close>.\<close>

theorem evaluated_write_decision:
  assumes "evaluateMemoryWrite rt fresh now i existing = Inr r" and "\<not> hasSecret (dflt (in_text i) [])"
  shows "m_decision r = (if proposal_reasons i = [] \<and> findDuplicate rt r existing = None \<and>
           findConflicts rt r existing = [] then Propose else Review)"
proof -
  obtain p where p: "proposeMemory fresh now i = Inr p" "m_status p = Proposed"
      "m_decision p = (if proposal_reasons i \<noteq> [] then Review else Propose)"
      "m_reasons p = sorted_unique (proposal_reasons i)"
    using assms by (auto simp: evaluateMemoryWrite_def bind_res_eq_Inr proposeMemory_Inr Let_def)
  have same: "memoryKey rt (p\<lparr>m_decision := d, m_reasons := rs, m_conflicts := cs\<rparr>) = memoryKey rt p"
    "conflictKey rt (p\<lparr>m_decision := d, m_reasons := rs, m_conflicts := cs\<rparr>) = conflictKey rt p" for d rs cs
    by (simp_all add: memoryKey_def conflictKey_def Let_def)
  have eq: "findDuplicate rt (p\<lparr>m_decision := d, m_reasons := rs, m_conflicts := cs\<rparr>) existing = findDuplicate rt p existing"
    "findConflicts rt (p\<lparr>m_decision := d, m_reasons := rs, m_conflicts := cs\<rparr>) existing = findConflicts rt p existing" for d rs cs
    by (simp_all add: findDuplicate_def findConflicts_def same split: option.split)
  show ?thesis
    using assms(1) p by (auto simp: evaluateMemoryWrite_def Let_def eq split: if_splits)
qed

theorem evaluated_write_decision_witness:
  "\<exists>r. evaluateMemoryWrite sample_runtime ''f'' ''1'' sample_input [] = Inr r \<and>
     \<not> hasSecret (dflt (in_text sample_input) []) \<and> m_decision r = Propose"
proof -
  have n: "\<not> hasSecret (dflt (in_text sample_input) [])" by (simp add: memory_eval)
  have "\<exists>r. evaluateMemoryWrite sample_runtime ''f'' ''1'' sample_input [] = Inr r"
    using sample_proposed by (auto simp: evaluateMemoryWrite_def Let_def)
  then obtain r where r: "evaluateMemoryWrite sample_runtime ''f'' ''1'' sample_input [] = Inr r" ..
  moreover have "m_decision r = Propose"
    using evaluated_write_decision [OF r n]
    by (simp add: proposal_reasons_def hasSecret_def findDuplicate_def findConflicts_def memory_eval split: option.splits)
  ultimately show ?thesis using n by blast
qed

text \<open>An export holds exactly the records of an exportable status whose data class is not
  \<open>secret\<close>, with their multiplicity, ordered by creation time and then identifier.\<close>

theorem export_is_filtered_and_ordered:
  assumes "consistent_compare (locale_compare rt)"
  shows "mset (exportMemoryRecords rt b rs) =
      filter_mset (\<lambda>r. m_dataClass r \<noteq> ''secret'' \<and>
        m_status r \<in> set (if b then INACTIVE_EXPORT_STATUSES else ACTIVE_EXPORT_STATUSES)) (mset rs) \<and>
    sorted_wrt (export_le rt) (exportMemoryRecords rt b rs)"
proof (rule conjI)
  have "Quarantined \<notin> set (if b then INACTIVE_EXPORT_STATUSES else ACTIVE_EXPORT_STATUSES)"
    by (simp add: INACTIVE_EXPORT_STATUSES_def ACTIVE_EXPORT_STATUSES_def)
  then show "mset (exportMemoryRecords rt b rs) =
      filter_mset (\<lambda>r. m_dataClass r \<noteq> ''secret'' \<and>
        m_status r \<in> set (if b then INACTIVE_EXPORT_STATUSES else ACTIVE_EXPORT_STATUSES)) (mset rs)"
    unfolding exportMemoryRecords_def Let_def mset_order_by mset_filter [symmetric] filter_filter
    by (intro arg_cong [where f = mset] filter_cong) auto
  show "sorted_wrt (export_le rt) (exportMemoryRecords rt b rs)"
    unfolding exportMemoryRecords_def Let_def
    by (rule total_preorder.sorted_order_by [OF export_le_preorder [OF assms]])
qed

lemma sample_compare: "consistent_compare (locale_compare sample_runtime)"
  by (auto simp: consistent_compare_def sample_runtime_def)

theorem export_is_filtered_and_ordered_witness:
  "consistent_compare (locale_compare sample_runtime) \<and>
   sorted_wrt (export_le sample_runtime) (exportMemoryRecords sample_runtime True [])"
  using sample_compare export_is_filtered_and_ordered by blast

text \<open>Verification does not look at supersession: a superseded memory can be verified and then
  activated again, although activation refuses a superseded memory directly.\<close>

theorem superseded_memory_can_return:
  assumes "m_status r = Superseded" and "ev \<noteq> []"
  shows "activateMemory tm actor r = Inl (CannotActivate Superseded) \<and>
    (\<exists>v a. verifyMemory tm actor ev r = Inr v \<and> activateMemory tm actor v = Inr a \<and> m_status a = Active)"
  using assms by (auto simp: verifyMemory_def activateMemory_def Let_def)

theorem superseded_memory_can_return_witness:
  "\<exists>r v a. m_status r = Superseded \<and> verifyMemory ''2'' ''rev'' [''obs''] r = Inr v \<and>
     activateMemory ''2'' ''rev'' v = Inr a \<and> m_status a = Active"
proof -
  have "m_status (sample_record\<lparr>m_status := Superseded\<rparr>) = Superseded" by simp
  from superseded_memory_can_return [OF this, of "[''obs'']" "''2''" "''rev''"] this show ?thesis by blast
qed

text \<open>Superseding an active memory that has no evidence fails unless the replacement brings
  evidence itself: the fallback evidence \<open>supersession\<close> is never used, because the record's own
  empty list is taken first.\<close>

theorem supersede_needs_evidence:
  assumes "m_evidenceIds p = []" and "in_evidenceIds i = None"
  shows "\<exists>e. supersedeMemory fresh tm actor reason p i kind = Inl e"
proof (cases "supersedeMemory fresh tm actor reason p i kind")
  case (Inr b)
  then obtain p' r where "supersedeMemory fresh tm actor reason p i kind = Inr (p', r)"
    by (cases b) auto
  then show ?thesis
    using assms by (elim supersedeMemory_Inr) (auto simp: verifyMemory_def split: if_splits)
qed auto

theorem supersede_needs_evidence_witness:
  "\<exists>p e. m_status p = Active \<and> m_evidenceIds p = [] \<and>
     supersedeMemory ''f'' ''1'' ''a'' None p sample_input None = Inl e"
proof -
  let ?p = "sample_record\<lparr>m_status := Active, m_evidenceIds := []\<rparr>"
  have "m_evidenceIds ?p = []" "in_evidenceIds sample_input = None" by (simp_all add: sample_input_def)
  from supersede_needs_evidence [OF this, of "''f''" "''1''" "''a''" None None]
  have "\<exists>e. m_status ?p = Active \<and> m_evidenceIds ?p = [] \<and>
      supersedeMemory ''f'' ''1'' ''a'' None ?p sample_input None = Inl e" by simp
  then show ?thesis by blast
qed

end
