(* ===== verification/MemoryQueue.thy ===== *)
theory MemoryQueue
  imports MemoryCore
begin

text \<open>
  The proposal queue of providers/native/memory-sqlite/src/index.mjs: sanitising of payloads,
  enqueueing, leasing of proposals to workers, recording of results and the listings. The
  table is the list of its rows; JSON columns hold the value itself, which is what parsing
  the stored text gives back. A statement that throws inside a transaction leaves the table
  as it was. Text is ASCII, so a byte length is the length of the list.
\<close>

section \<open>Redaction\<close>

definition secret_char :: "char \<Rightarrow> bool" where
  "secret_char c \<longleftrightarrow> is_alnum c \<or> c = CHR ''_'' \<or> c = CHR ''-''"

definition no_path_end :: "char \<Rightarrow> bool" where
  "no_path_end c \<longleftrightarrow> \<not> js_space c \<and> c \<notin> {CHR '')'', CHR 0x27, CHR 0x22, CHR ''<'', CHR ''>''}"

definition dash :: re where
  "dash = maybe (Cls (\<lambda>c. c = CHR ''_'' \<or> c = CHR ''-''))"

text \<open>\<open>\s*=\s*[^,\s]+\<close>\<close>

definition assigned :: re where
  "assigned = seqs [Star (Cls js_space), lit ''='', Star (Cls js_space), at_least 1 (Cls (\<lambda>c. c \<noteq> CHR '','' \<and> \<not> js_space c))]"

definition SECRET_PATTERNS :: "re list" where
  "SECRET_PATTERNS =
    [Seq (lit ''sk-'') (at_least 20 (Cls secret_char)),
     seqs [lit ''BEGIN '', maybe (alts [lit ''RSA '', lit ''EC '', lit ''OPENSSH '']), lit ''PRIVATE KEY''],
     Seq (lit ''AKIA'') (rep 16 (Cls (\<lambda>c. is_digit c \<or> is_upper c))),
     Seq (lit ''gho_'') (at_least 20 (Cls is_word)),
     seqs [Boundary, Star (Cls is_word),
       alts [seqs [lit_i ''API'', dash, lit_i ''KEY''], lit_i ''TOKEN'', lit_i ''SECRET'', lit_i ''PASSWORD'',
         lit_i ''AUTHORIZATION'', seqs [lit_i ''PRIVATE'', dash, lit_i ''KEY''], lit_i ''DATABASE_URL'', lit_i ''DB_URL'',
         lit_i ''CONNECTION_STRING''], assigned],
     seqs [Boundary,
       alts [lit_i ''token'', lit_i ''secret'', lit_i ''password'', lit_i ''authorization'', seqs [lit_i ''api'', dash, lit_i ''key''],
         lit_i ''database_url'', lit_i ''db_url'', lit_i ''connection_string''], assigned]]"

definition LOCAL_PATH_PATTERNS :: "re list" where
  "LOCAL_PATH_PATTERNS =
    [Seq (lit ''file:///'') (at_least 1 (Cls no_path_end)),
     Seq (lit ''workspace:///'') (at_least 1 (Cls no_path_end)),
     seqs [Alt Start (Cls (\<lambda>c. js_space c \<or> c \<in> {CHR ''('', CHR 0x27, CHR 0x22, CHR 0x60})), lit ''/'',
       alts [lit ''Users'', lit ''private'', lit ''tmp'', lit ''var/folders'', lit ''var/tmp'', lit ''Volumes''],
       lit ''/'', at_least 1 (Cls no_path_end)],
     seqs [Boundary, Cls (\<lambda>c. is_upper c \<or> is_lower c), lit '':'', Cls (\<lambda>c. c = CHR 0x5C), at_least 1 (Cls no_path_end)]]"

definition path_mark :: "string \<Rightarrow> string" where
  "path_mark m = (if starts_with '' '' m then '' [redacted-local-path]'' else ''[redacted-local-path]'')"

definition redactQueueString :: "nat \<Rightarrow> string \<Rightarrow> string" where
  "redactQueueString maximum value =
     (let text = foldl (\<lambda>t r. re_replace r (\<lambda>_. ''[redacted-secret]'') t) value SECRET_PATTERNS;
          text = foldl (\<lambda>t r. re_replace r path_mark t) text LOCAL_PATH_PATTERNS;
          normalized = trim (re_replace (at_least 1 (Cls js_space)) (\<lambda>_. '' '') text)
      in if length normalized > maximum then trim (take (maximum - 1) normalized) @ ''...'' else normalized)"

text \<open>A lower-case word contains nothing any pattern looks for.\<close>

lemma redact_plain_word:
  assumes "list_all is_lower s" and "length s \<le> m"
  shows "redactQueueString m s = s"
proof -
  let ?Q = "\<lambda>c. \<not> is_lower c"
  have no: "\<not> list_ex ?Q s" using assms(1) by (auto simp: list_ex_iff list_all_iff)
  have cls: "\<not> is_lower CHR ''-''" "\<not> is_lower CHR ''_''" "\<not> is_lower CHR ''=''" "\<not> is_lower CHR '':''" "\<not> is_lower CHR ''/''"
    "\<not> is_lower CHR ''K''" "\<not> is_lower CHR ''B''" by (simp_all add: is_lower_def)
  have sp: "js_space c \<longrightarrow> \<not> is_lower c" for c by (auto simp: js_space_def is_lower_def Let_def)
  have "list_all (needs ?Q) SECRET_PATTERNS" "list_all (needs ?Q) LOCAL_PATH_PATTERNS"
    by (simp_all add: SECRET_PATTERNS_def LOCAL_PATH_PATTERNS_def assigned_def cls)
  moreover have fold: "list_all (needs ?Q) rs \<Longrightarrow> foldl (\<lambda>t r. re_replace r g t) s rs = s" for rs g
    using replace_without [OF _ no] by (induction rs) auto
  ultimately have secrets: "foldl (\<lambda>t r. re_replace r (\<lambda>_. ''[redacted-secret]'') t) s SECRET_PATTERNS = s"
    and paths: "foldl (\<lambda>t r. re_replace r path_mark t) s LOCAL_PATH_PATTERNS = s" by blast+
  have spaces: "re_replace (at_least 1 (Cls js_space)) (\<lambda>_. '' '') s = s"
    by (rule replace_without [OF _ no]) (simp add: at_least_def sp)
  have "dropWhile js_space t = t" if "list_all is_lower t" for t
    using that sp by (cases t) auto
  then have "trim s = s" using assms(1) by (simp add: trim_def list_all_iff)
  then show ?thesis unfolding redactQueueString_def Let_def secrets paths spaces using assms(2) by simp
qed

section \<open>Payloads\<close>

definition stableHash :: "runtime \<Rightarrow> js \<Rightarrow> string" where
  "stableHash rt v = sha256_hex rt (jsonStringify rt v)"

definition safe_key_char :: "char \<Rightarrow> bool" where
  "safe_key_char c \<longleftrightarrow> is_alnum c \<or> c \<in> {CHR ''.'', CHR ''_'', CHR '':'', CHR ''-''}"

definition safeQueueKey :: "runtime \<Rightarrow> string \<Rightarrow> string" where
  "safeQueueKey rt key =
     (if 1 \<le> length key \<and> length key \<le> 128 \<and> list_all safe_key_char key \<and> redactQueueString 512 key = key then key
      else ''redacted_'' @ take 16 (stableHash rt (Str key)))"

fun safeQueueScalar :: "runtime \<Rightarrow> js \<Rightarrow> js" where
  "safeQueueScalar rt Null = Null"
| "safeQueueScalar rt (Num n) = Num n"
| "safeQueueScalar rt (Bool b) = Bool b"
| "safeQueueScalar rt (Str s) = Str (redactQueueString 512 s)"
| "safeQueueScalar rt v = Str (''sha256:'' @ stableHash rt v)"

text \<open>Assignment to a property: an existing property keeps its place.\<close>

fun obj_set :: "(string \<times> js) list \<Rightarrow> string \<Rightarrow> js \<Rightarrow> (string \<times> js) list" where
  "obj_set [] k v = [(k, v)]"
| "obj_set ((k', v') # kvs) k v = (if k' = k then (k, v) # kvs else (k', v') # obj_set kvs k v)"

text \<open>\<open>{ ...a, ...b }\<close>\<close>

definition obj_spread :: "(string \<times> js) list \<Rightarrow> (string \<times> js) list \<Rightarrow> (string \<times> js) list" where
  "obj_spread a b = foldl (\<lambda>o' (k, v). obj_set o' k v) a b"

definition safeQueueObject :: "runtime \<Rightarrow> js \<Rightarrow> js" where
  "safeQueueObject rt value =
     Obj (foldl (\<lambda>o' (k, v). obj_set o' (safeQueueKey rt k) (safeQueueScalar rt v)) [] (take 64 (entries value)))"

text \<open>Hashing \<open>undefined\<close> throws; the sanitiser hashes what is not a scalar.\<close>

definition hashable :: "js \<Rightarrow> bool" where
  "hashable value \<longleftrightarrow> list_all (\<lambda>(k, v). v \<noteq> Undef) (take 64 (entries value))"

definition boundedJson :: "runtime \<Rightarrow> js \<Rightarrow> js" where
  "boundedJson rt value =
     (if length (jsonStringify rt value) > 4096
      then Obj [(''message'', Str ''error payload truncated''), (''code'', Str ''payload_too_large'')]
      else value)"

section \<open>Checks\<close>

datatype queue_status = Pending | Claimed | Applied | Poison

datatype queue_error =
    WorkspaceRequired
  | PayloadNotAnObject
  | UnsafeLocator
  | BadSourceHash
  | BadFingerprint
  | BadQueueId
  | IdCollision
  | UnsupportedScope
  | TextMissing string
  | TextTooLong string
  | UndefinedNotHashable
  | InvalidTime
  | IdsRequired
  | WorkerRequired
  | UnsupportedQueueStatus
  | NotFound
  | NotPending
  | AttemptsExhausted
  | NotClaimed
  | NotLeaseOwner
  | LeaseExpired

definition TEMPORAL_MEMORY_SCOPES :: "string list" where
  "TEMPORAL_MEMORY_SCOPES = [''workspace'', ''session'', ''agent'', ''user'']"

definition safe_id_char :: "char \<Rightarrow> bool" where
  "safe_id_char c \<longleftrightarrow> is_alnum c \<or> c \<in> {CHR ''.'', CHR ''_'', CHR ''-''}"

text \<open>\<open>^prefix[A-Za-z0-9._-]{1,128}$\<close>\<close>

definition safe_id :: "string \<Rightarrow> string \<Rightarrow> bool" where
  "safe_id prefix s \<longleftrightarrow> starts_with prefix s \<and>
     (let r = drop (length prefix) s in 1 \<le> length r \<and> length r \<le> 128 \<and> list_all safe_id_char r)"

definition QUEUE_ID_PATTERN :: "string \<Rightarrow> bool" where
  "QUEUE_ID_PATTERN = safe_id ''mpq_''"

definition is_hex :: "char \<Rightarrow> bool" where
  "is_hex c \<longleftrightarrow> is_digit c \<or> (let n = of_char c :: nat in 97 \<le> n \<and> n \<le> 102)"

definition FINGERPRINT_PATTERN :: "string \<Rightarrow> bool" where
  "FINGERPRINT_PATTERN s \<longleftrightarrow> length s = 64 \<and> list_all is_hex s"

definition source_hash_ok :: "string \<Rightarrow> bool" where
  "source_hash_ok s \<longleftrightarrow> starts_with ''sha256:'' s \<and> FINGERPRINT_PATTERN (drop 7 s)"

definition locator_char :: "char \<Rightarrow> bool" where
  "locator_char c \<longleftrightarrow> is_alnum c \<or> c \<in> set ''._~!$&()*+,;=:@%/-'' \<or> c = CHR 0x27"

definition assertWorkspaceLocator :: "string \<Rightarrow> (queue_error, string) result" where
  "assertWorkspaceLocator text =
     (let rest = drop 12 text in
      if \<not> starts_with ''workspace://'' text \<or> rest = [] \<or> 512 < length rest \<or> \<not> list_all locator_char rest
         \<or> some_suffix (starts_with ''..'') text \<or> starts_with ''workspace:///'' text
      then Inl UnsafeLocator else Inr text)"

definition normalizeTemporalScope :: "js \<Rightarrow> (queue_error, string) result" where
  "normalizeTemporalScope v =
     (case (if v = Undef then Str ''workspace'' else v) of
        Str s \<Rightarrow> if s \<in> set TEMPORAL_MEMORY_SCOPES then Inr s else Inl UnsupportedScope
      | _ \<Rightarrow> Inl UnsupportedScope)"

definition normalizeTemporalText :: "string \<Rightarrow> nat \<Rightarrow> js \<Rightarrow> (queue_error, string) result" where
  "normalizeTemporalText name maximumBytes v =
     (case v of
        Str s \<Rightarrow> if trim s = [] then Inl (TextMissing name)
                 else if maximumBytes < length s then Inl (TextTooLong name) else Inr s
      | _ \<Rightarrow> Inl (TextMissing name))"

definition factProposalFingerprint :: "runtime \<Rightarrow> js \<Rightarrow> string \<Rightarrow> (queue_error, string) result" where
  "factProposalFingerprint rt payload source =
     bind_res (normalizeTemporalScope (get payload ''scope'')) (\<lambda>scope.
     bind_res (normalizeTemporalText ''subject'' 512 (get payload ''subject'')) (\<lambda>subject.
     bind_res (normalizeTemporalText ''predicate'' 256 (get payload ''predicate'')) (\<lambda>predicate.
     bind_res (normalizeTemporalText ''object'' 1000000 (get payload ''object'')) (\<lambda>object.
     bind_res (assertWorkspaceLocator source) (\<lambda>src.
       Inr (stableHash rt (Obj [(''scope'', Str scope), (''subject'', Str subject), (''predicate'', Str predicate),
              (''object'', Str object), (''source'', Str src)])))))))"

definition queueFingerprint :: "runtime \<Rightarrow> string \<Rightarrow> string \<Rightarrow> string \<Rightarrow> js \<Rightarrow> string" where
  "queueFingerprint rt workspaceId sourceLocator sourceHash payload =
     stableHash rt (Obj [(''workspaceId'', Str workspaceId), (''sourceLocator'', Str sourceLocator),
       (''sourceHash'', Str sourceHash), (''payload'', payload)])"

section \<open>The table\<close>

record queue_row =
  q_id :: string
  q_workspace_id :: string
  q_fingerprint :: string
  q_source_locator :: string
  q_source_hash :: string
  q_status :: queue_status
  q_attempts :: nat
  q_max_attempts :: nat
  q_lease_owner :: "string option"
  q_lease_until :: "string option"
  q_payload :: js
  q_result :: "js option"
  q_error :: "js option"
  q_enqueued_at :: string
  q_updated_at :: string

type_synonym queue = "queue_row list"

definition rowToQueueRecord :: "runtime \<Rightarrow> queue_row \<Rightarrow> queue_row" where
  "rowToQueueRecord rt r = r\<lparr>q_payload := safeQueueObject rt (q_payload r),
     q_result := map_option (safeQueueObject rt) (q_result r),
     q_error := map_option (safeQueueObject rt) (q_error r)\<rparr>"

abbreviation row_at :: "string \<Rightarrow> string \<Rightarrow> queue_row \<Rightarrow> bool" where
  "row_at ws i \<equiv> (\<lambda>r. q_workspace_id r = ws \<and> q_id r = i)"

record enqueue_input =
  en_workspaceId :: string
  en_payload :: js
  en_sourceLocator :: string
  en_sourceHash :: "string option"
  en_fingerprint :: "string option"
  en_id :: "string option"
  en_maxAttempts :: "int option"
  en_enqueuedAt :: "string option"

section \<open>Operations\<close>

definition enqueue_payload :: "runtime \<Rightarrow> js \<Rightarrow> string \<Rightarrow> (queue_error, js) result" where
  "enqueue_payload rt payload sourceLocator =
     bind_res
       (if get payload ''kind'' = Str ''fact''
        then bind_res (factProposalFingerprint rt payload sourceLocator) (\<lambda>fp.
               Inr (Obj (obj_spread [(''factFingerprint'', Str fp)] (entries payload))))
        else Inr payload)
       (\<lambda>p. if hashable p then Inr (safeQueueObject rt p) else Inl UndefinedNotHashable)"

definition enqueue_row :: "runtime \<Rightarrow> string \<Rightarrow> string \<Rightarrow> enqueue_input \<Rightarrow> queue \<Rightarrow> (queue_error, queue_row) result" where
  "enqueue_row rt fresh now i q =
     (let ws = en_workspaceId i; payload = en_payload i in
      bind_res (require (ws \<noteq> []) WorkspaceRequired) (\<lambda>_.
      bind_res (require (is_plain payload) PayloadNotAnObject) (\<lambda>_.
      bind_res (assertWorkspaceLocator (en_sourceLocator i)) (\<lambda>sourceLocator.
        let sourceHash = dflt (en_sourceHash i) (''sha256:'' @ stableHash rt payload) in
      bind_res (require (source_hash_ok sourceHash) BadSourceHash) (\<lambda>_.
        let fp = dflt (en_fingerprint i) (queueFingerprint rt ws sourceLocator sourceHash payload) in
      bind_res (require (FINGERPRINT_PATTERN fp) BadFingerprint) (\<lambda>_.
        let i' = dflt (en_id i) fresh in
      bind_res (require (QUEUE_ID_PATTERN i') BadQueueId) (\<lambda>_.
        case List.find (\<lambda>r. q_id r = i') q of
          Some r \<Rightarrow> if q_workspace_id r \<noteq> ws then Inl IdCollision else Inr r
        | None \<Rightarrow>
            bind_res (enqueue_payload rt payload sourceLocator) (\<lambda>p.
              Inr \<lparr>q_id = i', q_workspace_id = ws, q_fingerprint = fp, q_source_locator = sourceLocator,
                   q_source_hash = sourceHash, q_status = Pending, q_attempts = 0,
                   q_max_attempts = bounded_limit 10 3 (en_maxAttempts i), q_lease_owner = None, q_lease_until = None,
                   q_payload = p, q_result = None, q_error = None,
                   q_enqueued_at = dflt (en_enqueuedAt i) now, q_updated_at = now\<rparr>))))))))"

text \<open>\<open>INSERT .. ON CONFLICT(workspace_id, fingerprint) DO UPDATE SET updated_at\<close>\<close>

definition insert_row :: "queue_row \<Rightarrow> queue \<Rightarrow> queue" where
  "insert_row r q =
     (if list_ex (\<lambda>e. q_workspace_id e = q_workspace_id r \<and> q_fingerprint e = q_fingerprint r) q
      then upd_where (\<lambda>e. q_workspace_id e = q_workspace_id r \<and> q_fingerprint e = q_fingerprint r)
             (\<lambda>e. e\<lparr>q_updated_at := q_updated_at r\<rparr>) q
      else q @ [r])"

definition enqueueProposal ::
  "runtime \<Rightarrow> string \<Rightarrow> string \<Rightarrow> enqueue_input \<Rightarrow> queue \<Rightarrow> queue \<times> (queue_error, queue_row) result" where
  "enqueueProposal rt fresh now i q =
     (case enqueue_row rt fresh now i q of
        Inl e \<Rightarrow> (q, Inl e)
      | Inr r \<Rightarrow>
          if list_ex (\<lambda>e. q_id e = q_id r) q then (q, Inr (rowToQueueRecord rt r))
          else
            let q' = insert_row r q in
            (q', Inr (rowToQueueRecord rt
               (case List.find (\<lambda>e. q_workspace_id e = q_workspace_id r \<and> q_fingerprint e = q_fingerprint r) q' of
                  Some e \<Rightarrow> e | None \<Rightarrow> r))))"

text \<open>\<open>leaseUntil ?? new Date(Date.parse(now) + 60_000).toISOString()\<close>\<close>

definition lease_end :: "runtime \<Rightarrow> string \<Rightarrow> string option \<Rightarrow> (queue_error, string) result" where
  "lease_end rt now leaseUntil =
     (case leaseUntil of
        Some u \<Rightarrow> Inr u
      | None \<Rightarrow> (case date_parse rt now of None \<Rightarrow> Inl InvalidTime | Some t \<Rightarrow> Inr (to_iso rt (t + 60000))))"

definition lease_over :: "string \<Rightarrow> queue_row \<Rightarrow> bool" where
  "lease_over now r = (case q_lease_until r of None \<Rightarrow> False | Some u \<Rightarrow> u \<le> now)"

definition poison_exhausted :: "string \<Rightarrow> string \<Rightarrow> queue \<Rightarrow> queue" where
  "poison_exhausted ws now q =
     upd_where (\<lambda>r. q_workspace_id r = ws \<and> q_status r = Claimed \<and> lease_over now r \<and> q_max_attempts r \<le> q_attempts r)
       (\<lambda>r. r\<lparr>q_status := Poison, q_lease_owner := None, q_lease_until := None,
              q_error := Some (Obj [(''code'', Str ''lease_expired_max_attempts''),
                                    (''message'', Str ''proposal lease expired after max attempts'')]),
              q_updated_at := now\<rparr>) q"

definition claimable :: "string \<Rightarrow> string \<Rightarrow> queue_row \<Rightarrow> bool" where
  "claimable ws now r \<longleftrightarrow> q_workspace_id r = ws \<and> q_attempts r < q_max_attempts r \<and>
     (q_status r = Pending \<or> (q_status r = Claimed \<and> lease_over now r))"

definition claim_le :: "queue_row \<Rightarrow> queue_row \<Rightarrow> bool" where
  "claim_le a b \<longleftrightarrow> q_enqueued_at a < q_enqueued_at b \<or> (q_enqueued_at a = q_enqueued_at b \<and> q_id a \<le> q_id b)"

definition mark_claimed :: "string \<Rightarrow> string \<Rightarrow> string \<Rightarrow> queue_row \<Rightarrow> queue_row" where
  "mark_claimed worker until now r =
     r\<lparr>q_status := Claimed, q_attempts := q_attempts r + 1, q_lease_owner := Some worker,
       q_lease_until := Some until, q_updated_at := now\<rparr>"

definition claimProposal ::
  "runtime \<Rightarrow> string \<Rightarrow> string \<Rightarrow> string \<Rightarrow> string option \<Rightarrow> int option \<Rightarrow> queue \<Rightarrow>
   queue \<times> (queue_error, queue_row list) result" where
  "claimProposal rt now ws worker leaseUntil limit q =
     (if ws = [] then (q, Inl WorkspaceRequired)
      else case lease_end rt now leaseUntil of
        Inl e \<Rightarrow> (q, Inl e)
      | Inr until \<Rightarrow>
          let q1 = poison_exhausted ws now q;
              rows = take (bounded_limit 25 1 limit) (order_by claim_le (filter (claimable ws now) q1));
              q2 = foldl (\<lambda>t r. upd_where (row_at ws (q_id r)) (mark_claimed worker until now) t) q1 rows
          in (q2, Inr (map (\<lambda>r. rowToQueueRecord rt (case List.find (row_at ws (q_id r)) q2 of Some e \<Rightarrow> e | None \<Rightarrow> r)) rows)))"

definition claimProposalById ::
  "runtime \<Rightarrow> string \<Rightarrow> string \<Rightarrow> string \<Rightarrow> string \<Rightarrow> string option \<Rightarrow> queue \<Rightarrow>
   queue \<times> (queue_error, queue_row) result" where
  "claimProposalById rt now ws i worker leaseUntil q =
     (if ws = [] \<or> i = [] then (q, Inl IdsRequired)
      else if worker = [] then (q, Inl WorkerRequired)
      else case lease_end rt now leaseUntil of
        Inl e \<Rightarrow> (q, Inl e)
      | Inr until \<Rightarrow>
          let q1 = poison_exhausted ws now q in
          case List.find (row_at ws i) q1 of
            None \<Rightarrow> (q, Inl NotFound)
          | Some current \<Rightarrow>
              let expiredClaim = (q_status current = Claimed \<and>
                    (case q_lease_until current of None \<Rightarrow> False | Some u \<Rightarrow> u \<noteq> [] \<and> date_le rt u now)) in
              if q_status current \<noteq> Pending \<and> \<not> expiredClaim then (q, Inl NotPending)
              else if q_max_attempts current \<le> q_attempts current then (q, Inl AttemptsExhausted)
              else
                let q2 = upd_where (row_at ws i) (mark_claimed worker until now) q1 in
                (q2, Inr (rowToQueueRecord rt (mark_claimed worker until now current))))"

text \<open>The caller's status is \<open>None\<close> when it is not one of the four queue statuses.\<close>

definition recordProposalResult ::
  "runtime \<Rightarrow> string \<Rightarrow> string \<Rightarrow> string \<Rightarrow> string \<Rightarrow> queue_status option \<Rightarrow> js \<Rightarrow> js \<Rightarrow> bool \<Rightarrow> queue \<Rightarrow>
   queue \<times> (queue_error, queue_row) result" where
  "recordProposalResult rt now ws i worker st result error retry q =
     (if ws = [] \<or> i = [] then (q, Inl IdsRequired)
      else if worker = [] then (q, Inl WorkerRequired)
      else case st of None \<Rightarrow> (q, Inl UnsupportedQueueStatus) | Some status \<Rightarrow>
        case List.find (row_at ws i) q of
          None \<Rightarrow> (q, Inl NotFound)
        | Some current \<Rightarrow>
            if q_status current \<noteq> Claimed then (q, Inl NotClaimed)
            else if q_lease_owner current \<noteq> Some worker then (q, Inl NotLeaseOwner)
            else if (case q_lease_until current of None \<Rightarrow> True | Some u \<Rightarrow> u = [] \<or> date_le rt u now) then (q, Inl LeaseExpired)
            else if (result \<noteq> Null \<and> \<not> hashable result) \<or> (error \<noteq> Null \<and> \<not> hashable error) then (q, Inl UndefinedNotHashable)
            else
              let nextStatus = (if truthy error
                    then (if status = Poison \<or> \<not> retry \<or> q_max_attempts current \<le> q_attempts current then Poison else Pending)
                    else status);
                  resultJson = (if result = Null then None else Some (boundedJson rt (safeQueueObject rt result)));
                  errorJson = (if error = Null then None else Some (boundedJson rt (safeQueueObject rt error)));
                  upd = (\<lambda>r. r\<lparr>q_status := nextStatus, q_lease_owner := None, q_lease_until := None,
                          q_result := resultJson, q_error := errorJson, q_updated_at := now\<rparr>)
              in (upd_where (row_at ws i) upd q, Inr (rowToQueueRecord rt (upd current))))"

text \<open>The part of \<open>approveProposalFact\<close> that touches the queue inside its transaction.\<close>

definition applyApproved ::
  "runtime \<Rightarrow> string \<Rightarrow> string \<Rightarrow> string \<Rightarrow> string \<Rightarrow> queue \<Rightarrow> (queue_error, queue) result" where
  "applyApproved rt now ws i worker q =
     (case List.find (row_at ws i) q of
        None \<Rightarrow> Inl NotClaimed
      | Some current \<Rightarrow>
          if q_status current \<noteq> Claimed \<or> q_lease_owner current \<noteq> Some worker then Inl NotClaimed
          else Inr (upd_where (row_at ws i)
            (\<lambda>r. r\<lparr>q_status := Applied, q_lease_owner := None, q_lease_until := None,
                   q_result := Some (boundedJson rt (Obj [(''accepted'', Bool True), (''command'', Str ''memory approve''),
                                                          (''approvedAt'', Str now)])),
                   q_error := None, q_updated_at := now\<rparr>) q))"

definition errors_le :: "queue_row \<Rightarrow> queue_row \<Rightarrow> bool" where
  "errors_le a b \<longleftrightarrow> q_updated_at b < q_updated_at a \<or> (q_updated_at a = q_updated_at b \<and> q_id a \<le> q_id b)"

definition listProposalErrors :: "runtime \<Rightarrow> string \<Rightarrow> int option \<Rightarrow> queue \<Rightarrow> (queue_error, queue_row list) result" where
  "listProposalErrors rt ws limit q =
     (if ws = [] then Inl WorkspaceRequired
      else Inr (map (rowToQueueRecord rt) (take (bounded_limit 100 20 limit)
        (order_by errors_le (filter (\<lambda>r. q_workspace_id r = ws \<and> q_status r = Poison) q)))))"

definition recent_le :: "queue_row \<Rightarrow> queue_row \<Rightarrow> bool" where
  "recent_le a b \<longleftrightarrow> q_enqueued_at b < q_enqueued_at a \<or> (q_enqueued_at a = q_enqueued_at b \<and> q_id a \<le> q_id b)"

definition listProposalQueue :: "runtime \<Rightarrow> string \<Rightarrow> int option \<Rightarrow> queue \<Rightarrow> (queue_error, queue_row list) result" where
  "listProposalQueue rt ws limit q =
     (if ws = [] then Inl WorkspaceRequired
      else Inr (map (rowToQueueRecord rt) (take (bounded_limit 500 100 limit)
        (order_by recent_le (filter (\<lambda>r. q_workspace_id r = ws) q)))))"

definition getProposalQueueRecord :: "runtime \<Rightarrow> string \<Rightarrow> string \<Rightarrow> queue \<Rightarrow> (queue_error, queue_row option) result" where
  "getProposalQueueRecord rt ws i q =
     (if ws = [] then Inl WorkspaceRequired
      else if \<not> QUEUE_ID_PATTERN i then Inl BadQueueId
      else Inr (map_option (rowToQueueRecord rt) (List.find (row_at ws i) q)))"

section \<open>The queue machine\<close>

text \<open>Calls against the queue, each with the clock value it reads.\<close>

datatype queue_op =
    Enqueue string enqueue_input
  | Claim string string "string option" "int option"
  | ClaimById string string string "string option"
  | Record string string string "queue_status option" js js bool
  | Approve string string string

text \<open>The table after a call and the rows (workspace, id) that the call leased out.\<close>

fun exec_queue :: "runtime \<Rightarrow> string \<Rightarrow> queue_op \<Rightarrow> queue \<Rightarrow> queue \<times> (string \<times> string) list" where
  "exec_queue rt now (Enqueue fresh i) q = (fst (enqueueProposal rt fresh now i q), [])"
| "exec_queue rt now (Claim ws worker lu limit) q =
     (case claimProposal rt now ws worker lu limit q of
        (q', Inr rs) \<Rightarrow> (q', map (\<lambda>r. (q_workspace_id r, q_id r)) rs) | (q', Inl _) \<Rightarrow> (q', []))"
| "exec_queue rt now (ClaimById ws i worker lu) q =
     (case claimProposalById rt now ws i worker lu q of
        (q', Inr r) \<Rightarrow> (q', [(q_workspace_id r, q_id r)]) | (q', Inl _) \<Rightarrow> (q', []))"
| "exec_queue rt now (Record ws i worker st res err retry) q =
     (fst (recordProposalResult rt now ws i worker st res err retry q), [])"
| "exec_queue rt now (Approve ws i worker) q =
     (case applyApproved rt now ws i worker q of Inr q' \<Rightarrow> (q', []) | Inl _ \<Rightarrow> (q, []))"

text \<open>A run: the final table and all leases handed out, in order.\<close>

fun run_queue :: "runtime \<Rightarrow> (string \<times> queue_op) list \<Rightarrow> queue \<Rightarrow> queue \<times> (string \<times> string) list" where
  "run_queue rt [] q = (q, [])"
| "run_queue rt ((now, op) # ops) q =
     (case exec_queue rt now op q of (q1, ls) \<Rightarrow> case run_queue rt ops q1 of (q2, ls') \<Rightarrow> (q2, ls @ ls'))"

section \<open>Shape of the updates\<close>

text \<open>
  Every operation rewrites rows in place, keeping their identity, and at most appends one
  pending row. \<open>row_step\<close> says what may happen to one row.
\<close>

definition same_identity :: "queue_row \<Rightarrow> queue_row \<Rightarrow> bool" where
  "same_identity a b \<longleftrightarrow> q_id a = q_id b \<and> q_workspace_id a = q_workspace_id b \<and> q_fingerprint a = q_fingerprint b \<and>
     q_source_locator a = q_source_locator b \<and> q_source_hash a = q_source_hash b \<and> q_payload a = q_payload b \<and>
     q_max_attempts a = q_max_attempts b \<and> q_enqueued_at a = q_enqueued_at b"

definition row_ok :: "queue_row \<Rightarrow> bool" where
  "row_ok r \<longleftrightarrow> q_attempts r \<le> q_max_attempts r \<and> 1 \<le> q_max_attempts r \<and> q_max_attempts r \<le> 10 \<and>
     (q_status r \<noteq> Claimed \<longrightarrow> q_lease_owner r = None \<and> q_lease_until r = None) \<and>
     (q_lease_owner r \<noteq> None \<longrightarrow> 1 \<le> q_attempts r)"

definition queue_inv :: "queue \<Rightarrow> bool" where
  "queue_inv q \<longleftrightarrow> list_all row_ok q \<and> distinct (map q_id q) \<and>
     distinct (map (\<lambda>r. (q_workspace_id r, q_fingerprint r)) q)"

text \<open>One row before and after, with the number of leases of that row handed out.\<close>

definition row_step :: "nat \<Rightarrow> queue_row \<Rightarrow> queue_row \<Rightarrow> bool" where
  "row_step n a b \<longleftrightarrow> same_identity a b \<and> q_attempts b = q_attempts a + n \<and>
     (row_ok a \<longrightarrow> row_ok b) \<and>
     (q_status a \<in> {Applied, Poison} \<longrightarrow>
        n = 0 \<and> q_status b = q_status a \<and> q_result b = q_result a \<and> q_error b = q_error a)"

definition leases_of :: "queue_row \<Rightarrow> (string \<times> string) list \<Rightarrow> nat" where
  "leases_of r ls = count_list ls (q_workspace_id r, q_id r)"

lemma row_step_refl [intro, simp]: "row_step 0 a a"
  by (auto simp: row_step_def same_identity_def)

lemma row_step_same: "row_step 0 a (a\<lparr>q_updated_at := t\<rparr>)"
  by (auto simp: row_step_def same_identity_def row_ok_def)

lemma mark_claimed_step:
  "q_attempts a < q_max_attempts a \<Longrightarrow> q_status a \<in> {Pending, Claimed} \<Longrightarrow> row_step 1 a (mark_claimed w u t a)"
  by (auto simp: row_step_def same_identity_def row_ok_def mark_claimed_def)

lemma settle_step:
  "q_status a = Claimed \<Longrightarrow>
   row_step 0 a (a\<lparr>q_status := st, q_lease_owner := None, q_lease_until := None, q_result := res, q_error := err, q_updated_at := t\<rparr>)"
  by (auto simp: row_step_def same_identity_def row_ok_def)

text \<open>A table before and after an operation that hands out the leases \<open>ls\<close>.\<close>

definition table_step :: "(string \<times> string) list \<Rightarrow> queue \<Rightarrow> queue \<Rightarrow> bool" where
  "table_step ls q q' \<longleftrightarrow> list_all2 (\<lambda>a b. row_step (leases_of a ls) a b) q q' \<and>
     (\<forall>p. p \<notin> (\<lambda>r. (q_workspace_id r, q_id r)) ` set q \<longrightarrow> count_list ls p = 0)"

lemma table_step_upd:
  assumes "\<And>r. r \<in> set q \<Longrightarrow> P r \<Longrightarrow> row_step 0 r (f r)"
  shows "table_step [] q (upd_where P f q)"
  using assms by (induction q) (auto simp: table_step_def leases_of_def)

lemma table_step_refl [simp]: "table_step [] q q"
  by (auto simp: table_step_def leases_of_def list.rel_refl)

lemma same_identity_keys:
  "same_identity a b \<Longrightarrow> q_id b = q_id a \<and> q_workspace_id b = q_workspace_id a \<and> q_fingerprint b = q_fingerprint a"
  by (simp add: same_identity_def)

lemma row_step_trans: "row_step m a b \<Longrightarrow> row_step n b c \<Longrightarrow> row_step (m + n) a c"
  by (auto simp: row_step_def same_identity_def)

lemma row_step_keys: "row_step n a b \<Longrightarrow> q_id b = q_id a \<and> q_workspace_id b = q_workspace_id a \<and> q_fingerprint b = q_fingerprint a"
  by (auto simp: row_step_def same_identity_def)

lemma table_step_map:
  assumes "table_step ls q q'" and "\<And>a b n. row_step n a b \<Longrightarrow> g b = g a"
  shows "map g q' = map g q"
  using assms by (intro nth_equalityI) (auto simp: table_step_def list_all2_conv_all_nth)

lemma table_step_keys: "table_step ls q q' \<Longrightarrow> map (\<lambda>r. (q_workspace_id r, q_id r)) q' = map (\<lambda>r. (q_workspace_id r, q_id r)) q"
  by (rule table_step_map) (auto dest: row_step_keys)

lemma table_step_trans:
  assumes "table_step ls q q'" and "table_step ls' q' q''"
  shows "table_step (ls @ ls') q q''"
proof -
  have "row_step (leases_of a (ls @ ls')) a c"
    if "row_step (leases_of a ls) a b" "row_step (leases_of b ls') b c" for a b c
    using row_step_trans [OF that] row_step_keys [OF that(1)] by (simp add: leases_of_def)
  then have "list_all2 (\<lambda>a c. row_step (leases_of a (ls @ ls')) a c) q q''"
    using assms unfolding table_step_def list_all2_conv_all_nth by auto
  moreover have "(\<lambda>r. (q_workspace_id r, q_id r)) ` set q' = (\<lambda>r. (q_workspace_id r, q_id r)) ` set q"
    using table_step_keys [OF assms(1)] by (metis list.set_map)
  ultimately show ?thesis using assms unfolding table_step_def by simp
qed

lemma table_step_inv:
  assumes "table_step ls q q'" and "queue_inv q"
  shows "queue_inv q'"
proof -
  have "list_all row_ok q'"
    using assms unfolding table_step_def queue_inv_def row_step_def
    by (auto simp: list_all2_conv_all_nth list_all_length)
  moreover have "map q_id q' = map q_id q"
    and "map (\<lambda>r. (q_workspace_id r, q_fingerprint r)) q' = map (\<lambda>r. (q_workspace_id r, q_fingerprint r)) q"
    using assms(1) by (auto intro!: table_step_map dest: row_step_keys)
  ultimately show ?thesis using assms(2) by (simp add: queue_inv_def)
qed

section \<open>Every operation is a table step\<close>

lemma poison_exhausted_step: "table_step [] q (poison_exhausted ws now q)"
  unfolding poison_exhausted_def
  by (rule table_step_upd) (auto simp: row_step_def same_identity_def row_ok_def)

lemma upd_where_twice:
  "(\<And>r. Q r \<Longrightarrow> P (f r) = P r) \<Longrightarrow> (\<And>r. P r \<Longrightarrow> \<not> Q r) \<Longrightarrow>
   upd_where P f (upd_where Q f rows) = upd_where (\<lambda>r. P r \<or> Q r) f rows"
  by (induction rows) auto

lemma foldl_upd_rows:
  assumes "distinct (map q_id rows)"
    and keep: "\<And>r. q_id (f r) = q_id r \<and> q_workspace_id (f r) = q_workspace_id r"
  shows "foldl (\<lambda>t r. upd_where (row_at ws (q_id r)) f t) q rows =
    upd_where (\<lambda>r. q_workspace_id r = ws \<and> q_id r \<in> q_id ` set rows) f q"
  using assms(1)
proof (induction rows arbitrary: q)
  case (Cons r rows)
  have "foldl (\<lambda>t r. upd_where (row_at ws (q_id r)) f t) q (r # rows) =
      upd_where (\<lambda>e. q_workspace_id e = ws \<and> q_id e \<in> q_id ` set rows) f (upd_where (row_at ws (q_id r)) f q)"
    using Cons by simp
  also have "\<dots> = upd_where (\<lambda>e. (q_workspace_id e = ws \<and> q_id e \<in> q_id ` set rows) \<or> row_at ws (q_id r) e) f q"
    using Cons.prems keep by (intro upd_where_twice) auto
  finally show ?case
    by (simp add: upd_where_def) (auto intro!: map_cong)
qed (simp add: upd_where_def)

lemma mark_claimed_keys [simp]:
  "q_id (mark_claimed w u t r) = q_id r" "q_workspace_id (mark_claimed w u t r) = q_workspace_id r"
  "q_fingerprint (mark_claimed w u t r) = q_fingerprint r" "q_status (mark_claimed w u t r) = Claimed"
  "q_attempts (mark_claimed w u t r) = q_attempts r + 1" "q_lease_owner (mark_claimed w u t r) = Some w"
  "q_lease_until (mark_claimed w u t r) = Some u"
  by (simp_all add: mark_claimed_def)

lemma rowToQueueRecord_keys [simp]:
  "q_id (rowToQueueRecord rt r) = q_id r" "q_workspace_id (rowToQueueRecord rt r) = q_workspace_id r"
  "q_status (rowToQueueRecord rt r) = q_status r" "q_attempts (rowToQueueRecord rt r) = q_attempts r"
  "q_lease_owner (rowToQueueRecord rt r) = q_lease_owner r" "q_lease_until (rowToQueueRecord rt r) = q_lease_until r"
  by (simp_all add: rowToQueueRecord_def)

lemma distinct_ids_subset:
  "distinct (map q_id q) \<Longrightarrow> distinct (map q_id (take n (order_by le (filter P q))))"
proof -
  assume "distinct (map q_id q)"
  then have "distinct (map q_id (filter P q))" by (rule distinct_map_filter)
  then have "distinct (map q_id (order_by le (filter P q)))"
    by (metis mset_eq_imp_distinct_iff mset_map mset_order_by)
  then show ?thesis by (metis distinct_take take_map)
qed

text \<open>What a successful claim does, with the selected rows named.\<close>

lemma claimProposal_Inr:
  assumes "claimProposal rt now ws worker lu limit q = (q', Inr rs)" and "queue_inv q"
  obtains until q1 rows where "lease_end rt now lu = Inr until" "ws \<noteq> []" "q1 = poison_exhausted ws now q" "queue_inv q1"
    "rows = take (bounded_limit 25 1 limit) (order_by claim_le (filter (claimable ws now) q1))"
    "q' = upd_where (\<lambda>r. r \<in> set rows) (mark_claimed worker until now) q1"
    "rs = map (\<lambda>r. rowToQueueRecord rt (mark_claimed worker until now r)) rows"
proof -
  obtain until where u: "lease_end rt now lu = Inr until" and ws: "ws \<noteq> []"
    using assms(1) by (auto simp: claimProposal_def split: if_splits sum.splits)
  define q1 where "q1 = poison_exhausted ws now q"
  define rows where "rows = take (bounded_limit 25 1 limit) (order_by claim_le (filter (claimable ws now) q1))"
  have inv: "queue_inv q1" unfolding q1_def by (rule table_step_inv [OF poison_exhausted_step assms(2)])
  then have dist: "distinct (map q_id q1)" "distinct (map q_id rows)"
    unfolding rows_def queue_inv_def by (auto intro: distinct_ids_subset)
  have sub: "r \<in> set q1 \<and> claimable ws now r" if "r \<in> set rows" for r
    using that unfolding rows_def by (auto dest: in_set_takeD)
  have sel: "(q_workspace_id r = ws \<and> q_id r \<in> q_id ` set rows) = (r \<in> set rows)" if "r \<in> set q1" for r
    using that sub dist(1) by (auto simp: claimable_def distinct_map inj_on_def)
  let ?q2 = "foldl (\<lambda>t r. upd_where (row_at ws (q_id r)) (mark_claimed worker until now) t) q1 rows"
  have q2: "?q2 = upd_where (\<lambda>r. r \<in> set rows) (mark_claimed worker until now) q1"
    using sel by (subst foldl_upd_rows [OF dist(2)]) (auto simp: upd_where_def)
  have "List.find (row_at ws (q_id r)) ?q2 = Some (mark_claimed worker until now r)" if r: "r \<in> set rows" for r
  proof -
    have "List.find (row_at ws (q_id r)) q1 = Some r"
      using sub [OF r] dist(1) by (induction q1) (auto simp: claimable_def image_iff)
    then show ?thesis unfolding q2 using r by (subst find_upd_where) auto
  qed
  then have "rs = map (\<lambda>r. rowToQueueRecord rt (mark_claimed worker until now r)) rows" "q' = ?q2"
    using assms(1) u ws unfolding claimProposal_def Let_def q1_def [symmetric] rows_def [symmetric] by auto
  then show ?thesis using that u ws q1_def inv rows_def q2 by metis
qed

lemma claimProposal_step:
  assumes "claimProposal rt now ws worker lu limit q = (q', Inr rs)" and "queue_inv q"
  shows "table_step (map (\<lambda>r. (q_workspace_id r, q_id r)) rs) q q'"
  using assms
proof (rule claimProposal_Inr)
  fix until q1 rows
  assume q1: "q1 = poison_exhausted ws now q" and inv: "queue_inv q1"
    and rows: "rows = take (bounded_limit 25 1 limit) (order_by claim_le (filter (claimable ws now) q1))"
    and q': "q' = upd_where (\<lambda>r. r \<in> set rows) (mark_claimed worker until now) q1"
    and rs: "rs = map (\<lambda>r. rowToQueueRecord rt (mark_claimed worker until now r)) rows"
  let ?ls = "map (\<lambda>r. (q_workspace_id r, q_id r)) rows"
  have ls: "map (\<lambda>r. (q_workspace_id r, q_id r)) rs = ?ls" by (simp add: rs)
  have dist: "distinct (map q_id q1)" and dr: "distinct (map q_id rows)"
    using inv unfolding rows queue_inv_def by (auto intro: distinct_ids_subset)
  then have dls: "distinct ?ls" by (auto simp: distinct_map inj_on_def)
  have sub: "r \<in> set q1 \<and> claimable ws now r" if "r \<in> set rows" for r
    using that unfolding rows by (auto dest: in_set_takeD)
  have n: "leases_of a ?ls = (if a \<in> set rows then 1 else 0)" if "a \<in> set q1" for a
  proof -
    have "(q_workspace_id a, q_id a) \<in> set ?ls \<longleftrightarrow> a \<in> set rows"
    proof
      assume "(q_workspace_id a, q_id a) \<in> set ?ls"
      then obtain b where "b \<in> set rows" "q_id b = q_id a" by auto
      then show "a \<in> set rows" using that sub [of b] dist by (metis distinct_map inj_on_eq_iff)
    qed auto
    then show ?thesis
      using dls unfolding leases_of_def by (simp only: count_list_distinct)
  qed
  have "list_all2 (\<lambda>a b. row_step (leases_of a ?ls) a b) q1 q'"
    unfolding q' upd_where_def list.rel_map
  proof (rule list.rel_refl_strong)
    fix a assume "a \<in> set q1"
    then show "row_step (leases_of a ?ls) a (if a \<in> set rows then mark_claimed worker until now a else a)"
      using n sub [of a] mark_claimed_step [of a] by (auto simp: claimable_def)
  qed
  moreover have "count_list ?ls p = 0" if "p \<notin> (\<lambda>r. (q_workspace_id r, q_id r)) ` set q1" for p
    using that sub by (auto simp: count_list_0_iff)
  ultimately have "table_step ?ls q1 q'" unfolding table_step_def by blast
  then show ?thesis
    using table_step_trans [OF poison_exhausted_step [of q ws now]] q1 ls by auto
qed

lemma claimProposalById_step:
  assumes "claimProposalById rt now ws i worker lu q = (q', Inr r)" and "queue_inv q"
  shows "table_step [(q_workspace_id r, q_id r)] q q'"
proof -
  define q1 where "q1 = poison_exhausted ws now q"
  obtain until c where c: "List.find (row_at ws i) q1 = Some c" "q_attempts c < q_max_attempts c"
      "q_status c \<in> {Pending, Claimed}" "q' = upd_where (row_at ws i) (mark_claimed worker until now) q1"
      "r = rowToQueueRecord rt (mark_claimed worker until now c)"
    using assms(1) unfolding claimProposalById_def Let_def q1_def [symmetric]
    by (auto split: if_splits sum.splits option.splits)
  have inv: "queue_inv q1" unfolding q1_def by (rule table_step_inv [OF poison_exhausted_step assms(2)])
  have at: "row_at ws i c" "c \<in> set q1" using find_SomeD [OF c(1)] by auto
  have only: "a = c" if "a \<in> set q1" "row_at ws i a" for a
    using that at inv by (auto simp: queue_inv_def distinct_map inj_on_def)
  have "list_all2 (\<lambda>a b. row_step (leases_of a [(ws, i)]) a b) q1 q'"
    unfolding c(4) upd_where_def list.rel_map
  proof (rule list.rel_refl_strong)
    fix a assume "a \<in> set q1"
    then show "row_step (leases_of a [(ws, i)]) a (if row_at ws i a then mark_claimed worker until now a else a)"
      using only [of a] mark_claimed_step [of c] c(2,3) by (auto simp: leases_of_def)
  qed
  then have "table_step [(ws, i)] q1 q'"
    using at unfolding table_step_def by auto
  then show ?thesis
    using table_step_trans [OF poison_exhausted_step [of q ws now]] at c(5) unfolding q1_def by auto
qed

lemma recordProposalResult_step:
  assumes "queue_inv q"
  shows "table_step [] q (fst (recordProposalResult rt now ws i worker st res err retry q))"
proof (cases "List.find (row_at ws i) q")
  case (Some c)
  have only: "a = c" if "a \<in> set q" "row_at ws i a" for a
    using that find_SomeD [OF Some] assms by (auto simp: queue_inv_def distinct_map inj_on_def)
  show ?thesis
    unfolding recordProposalResult_def Let_def Some
    by (auto split: option.splits intro!: table_step_upd settle_step dest: only)
qed (auto simp: recordProposalResult_def split: option.splits)

lemma applyApproved_step:
  assumes "queue_inv q" and "applyApproved rt now ws i worker q = Inr q'"
  shows "table_step [] q q'"
proof -
  obtain c where c: "List.find (row_at ws i) q = Some c" "q_status c = Claimed"
    using assms(2) by (auto simp: applyApproved_def split: option.splits if_splits)
  have only: "a = c" if "a \<in> set q" "row_at ws i a" for a
    using that find_SomeD [OF c(1)] assms by (auto simp: queue_inv_def distinct_map inj_on_def)
  show ?thesis
    using assms(2) c only
    by (auto simp: applyApproved_def split: if_splits intro!: table_step_upd settle_step)
qed

section \<open>Sanitised payloads\<close>

lemma length_trim: "length (trim s) \<le> length s"
  unfolding trim_def using length_dropWhile_le [of js_space "rev (dropWhile js_space s)"] length_dropWhile_le [of js_space s] by simp

lemma capped_text:
  assumes "1 \<le> m"
  shows "length (if m < length n then trim (take (m - 1) n) @ ''...'' else n) \<le> m + 2"
  using assms length_trim [of "take (m - 1) n"] by auto

lemma redact_bound: "1 \<le> m \<Longrightarrow> length (redactQueueString m s) \<le> m + 2"
  unfolding redactQueueString_def Let_def by (rule capped_text)

fun small_scalar :: "js \<Rightarrow> bool" where
  "small_scalar Null = True"
| "small_scalar (Num n) = True"
| "small_scalar (Bool b) = True"
| "small_scalar (Str s) = (length s \<le> 514)"
| "small_scalar _ = False"

definition bounded_object :: "js \<Rightarrow> bool" where
  "bounded_object v \<longleftrightarrow> is_plain v \<and> length (entries v) \<le> 64 \<and> distinct (keys v) \<and>
     list_all (\<lambda>(k, w). length k \<le> 128 \<and> small_scalar w) (entries v)"

text \<open>The digest of SHA-256 has 64 hexadecimal characters.\<close>

definition digest_length :: "runtime \<Rightarrow> bool" where
  "digest_length rt \<longleftrightarrow> (\<forall>s. length (sha256_hex rt s) = 64)"

lemma safeQueueScalar_small: "digest_length rt \<Longrightarrow> small_scalar (safeQueueScalar rt v)"
  using redact_bound [of 512] by (cases v) (simp_all add: digest_length_def stableHash_def)

lemma safeQueueKey_small: "digest_length rt \<Longrightarrow> length (safeQueueKey rt k) \<le> 128"
  by (simp add: safeQueueKey_def digest_length_def stableHash_def)

lemma set_obj_set: "set (obj_set kvs k v) \<subseteq> insert (k, v) (set kvs)"
  by (induction kvs k v rule: obj_set.induct) auto

lemma keys_obj_set: "map fst (obj_set kvs k v) = (if k \<in> fst ` set kvs then map fst kvs else map fst kvs @ [k])"
  by (induction kvs k v rule: obj_set.induct) auto

lemma length_obj_set: "length (obj_set kvs k v) \<le> Suc (length kvs)"
  by (induction kvs k v rule: obj_set.induct) auto

lemma obj_set_bounds:
  "distinct (map fst kvs) \<Longrightarrow> distinct (map fst (obj_set kvs k v)) \<and> length (obj_set kvs k v) \<le> Suc (length kvs)"
  by (auto simp: keys_obj_set length_obj_set)

lemma safe_fold_bounds:
  assumes "digest_length rt"
  shows "distinct (map fst kvs) \<Longrightarrow> list_all (\<lambda>(k, w). length k \<le> 128 \<and> small_scalar w) kvs \<Longrightarrow>
    (let out = foldl (\<lambda>o' (k, v). obj_set o' (safeQueueKey rt k) (safeQueueScalar rt v)) kvs xs in
      distinct (map fst out) \<and> length out \<le> length kvs + length xs \<and>
      list_all (\<lambda>(k, w). length k \<le> 128 \<and> small_scalar w) out)"
proof (induction xs arbitrary: kvs)
  case (Cons x xs)
  obtain k v where x: "x = (k, v)" by fastforce
  let ?kvs = "obj_set kvs (safeQueueKey rt k) (safeQueueScalar rt v)"
  have "distinct (map fst ?kvs)" "length ?kvs \<le> Suc (length kvs)"
    using obj_set_bounds [OF Cons.prems(1)] by auto
  moreover have "list_all (\<lambda>(k, w). length k \<le> 128 \<and> small_scalar w) ?kvs"
    using set_obj_set [of kvs] Cons.prems(2) safeQueueScalar_small [OF assms] safeQueueKey_small [OF assms]
    by (fastforce simp: list_all_iff)
  ultimately show ?case using Cons.IH [of ?kvs] by (auto simp: x Let_def)
qed simp

lemma safeQueueObject_bounded: "digest_length rt \<Longrightarrow> bounded_object (safeQueueObject rt v)"
  using safe_fold_bounds [of rt "[]" "take 64 (entries v)"]
  by (auto simp: bounded_object_def safeQueueObject_def keys_def Let_def)

section \<open>Enqueueing\<close>

lemma enqueue_row_new:
  assumes "enqueue_row rt fresh now i q = Inr r" and "\<not> list_ex (\<lambda>e. q_id e = q_id r) q"
  shows "q_status r = Pending \<and> row_ok r \<and> q_attempts r = 0 \<and> q_workspace_id r = en_workspaceId i \<and>
    q_id r \<notin> q_id ` set q \<and> (digest_length rt \<longrightarrow> bounded_object (q_payload r))"
proof -
  have "q_id r \<notin> q_id ` set q" using assms(2) by (auto simp: list_ex_iff)
  then show ?thesis
    using assms(1) bounded_limit_bounds [of 10 3 "en_maxAttempts i"]
    unfolding enqueue_row_def Let_def
    by (auto simp: bind_res_eq_Inr row_ok_def enqueue_payload_def safeQueueObject_bounded
        split: option.splits if_splits dest: find_SomeD)
qed

text \<open>An enqueue keeps the table, refreshes one row's time stamp, or appends one pending row.\<close>

lemma enqueue_cases:
  fixes q :: queue
  obtains (keep) "table_step [] q (fst (enqueueProposal rt fresh now i q))"
    | (new) r where "fst (enqueueProposal rt fresh now i q) = q @ [r]" "row_ok r" "q_attempts r = 0"
        "q_id r \<notin> q_id ` set q" "q_workspace_id r = en_workspaceId i" "q_status r = Pending"
        "digest_length rt \<longrightarrow> bounded_object (q_payload r)"
        "(q_workspace_id r, q_fingerprint r) \<notin> (\<lambda>e. (q_workspace_id e, q_fingerprint e)) ` set q"
proof (cases "enqueue_row rt fresh now i q")
  case (Inl e)
  then show ?thesis using keep by (simp add: enqueueProposal_def)
next
  case (Inr r)
  show ?thesis
  proof (cases "list_ex (\<lambda>e. q_id e = q_id r) q")
    case True
    then show ?thesis using keep Inr by (simp add: enqueueProposal_def)
  next
    case False
    note new' = enqueue_row_new [OF Inr False]
    show ?thesis
    proof (cases "list_ex (\<lambda>e. q_workspace_id e = q_workspace_id r \<and> q_fingerprint e = q_fingerprint r) q")
      case True
      then show ?thesis
        using keep Inr False by (auto simp: enqueueProposal_def Let_def insert_row_def intro!: table_step_upd row_step_same)
    next
      case no: False
      have "fst (enqueueProposal rt fresh now i q) = q @ [r]"
        using Inr False no by (simp add: enqueueProposal_def Let_def insert_row_def)
      moreover have "(q_workspace_id r, q_fingerprint r) \<notin> (\<lambda>e. (q_workspace_id e, q_fingerprint e)) ` set q"
        using no by (auto simp: list_ex_iff)
      ultimately show ?thesis using new' by (intro new [of r]) blast+
    qed
  qed
qed

section \<open>Runs of the queue\<close>

text \<open>A call either rewrites rows in place or appends one pending row and leases nothing.\<close>

definition appends_pending :: "runtime \<Rightarrow> queue \<Rightarrow> queue \<Rightarrow> bool" where
  "appends_pending rt q q' \<longleftrightarrow> (\<exists>r. q' = q @ [r] \<and> row_ok r \<and> q_attempts r = 0 \<and> q_status r = Pending \<and>
     q_id r \<notin> q_id ` set q \<and> (digest_length rt \<longrightarrow> bounded_object (q_payload r)) \<and>
     (q_workspace_id r, q_fingerprint r) \<notin> (\<lambda>e. (q_workspace_id e, q_fingerprint e)) ` set q)"

lemma exec_queue_step:
  assumes "queue_inv q" and "exec_queue rt now op q = (q', ls)"
  shows "table_step ls q q' \<or> (ls = [] \<and> appends_pending rt q q')"
proof (cases op)
  case (Enqueue fresh i)
  show ?thesis
  proof (cases rule: enqueue_cases [of q rt fresh now i])
    case (new r)
    then have "appends_pending rt q (q @ [r])" unfolding appends_pending_def by blast
    then show ?thesis using assms(2) new(1) Enqueue by auto
  qed (use assms(2) Enqueue in auto)
next
  case (Claim ws worker lu limit)
  obtain q1 res where c: "claimProposal rt now ws worker lu limit q = (q1, res)" by fastforce
  show ?thesis
  proof (cases res)
    case (Inl e)
    then have "q1 = q" using c by (auto simp: claimProposal_def Let_def split: if_splits sum.splits)
    then show ?thesis using assms(2) Claim c Inl by simp
  next
    case (Inr rs)
    then show ?thesis using claimProposal_step [OF c [unfolded Inr] assms(1)] assms(2) Claim c by simp
  qed
next
  case (ClaimById ws i worker lu)
  obtain q1 res where c: "claimProposalById rt now ws i worker lu q = (q1, res)" by fastforce
  show ?thesis
  proof (cases res)
    case (Inl e)
    then have "q1 = q"
      using c by (auto simp: claimProposalById_def Let_def split: if_splits sum.splits option.splits)
    then show ?thesis using assms(2) ClaimById c Inl by simp
  next
    case (Inr r)
    then show ?thesis using claimProposalById_step [OF c [unfolded Inr] assms(1)] assms(2) ClaimById c by simp
  qed
next
  case (Record ws i worker st res err retry)
  then show ?thesis using recordProposalResult_step [OF assms(1)] assms(2) by auto
next
  case (Approve ws i worker)
  then show ?thesis
    using applyApproved_step [OF assms(1)] assms(2) by (auto split: sum.splits)
qed

lemma appends_pending_inv: "queue_inv q \<Longrightarrow> appends_pending rt q q' \<Longrightarrow> queue_inv q'"
  by (auto simp: appends_pending_def queue_inv_def)

lemma exec_queue_inv: "queue_inv q \<Longrightarrow> queue_inv (fst (exec_queue rt now op q))"
  using exec_queue_step table_step_inv appends_pending_inv by (metis prod.collapse)

text \<open>Leases handed out are counted in the rows.\<close>

definition tally :: "queue \<Rightarrow> (string \<times> string) list \<Rightarrow> bool" where
  "tally q ls \<longleftrightarrow> queue_inv q \<and> (\<forall>r \<in> set q. leases_of r ls = q_attempts r) \<and>
     (\<forall>p. p \<notin> (\<lambda>r. (q_workspace_id r, q_id r)) ` set q \<longrightarrow> count_list ls p = 0)"

lemma tally_table_step:
  assumes "tally q ls" and "table_step ls' q q'"
  shows "tally q' (ls @ ls')"
proof -
  have keys: "(\<lambda>r. (q_workspace_id r, q_id r)) ` set q' = (\<lambda>r. (q_workspace_id r, q_id r)) ` set q"
    using table_step_keys [OF assms(2)] by (metis list.set_map)
  have "leases_of b (ls @ ls') = q_attempts b" if "b \<in> set q'" for b
  proof -
    have "list_all2 (\<lambda>a b. row_step (leases_of a ls') a b) q q'" using assms(2) by (simp add: table_step_def)
    from list_all2_in2 [OF this that] obtain a where a: "a \<in> set q" "row_step (leases_of a ls') a b" ..
    then have "leases_of b (ls @ ls') = leases_of a ls + leases_of a ls'"
      using row_step_keys [OF a(2)] by (simp add: leases_of_def)
    also have "\<dots> = q_attempts b" using a assms(1) by (auto simp: tally_def row_step_def)
    finally show ?thesis .
  qed
  moreover have "queue_inv q'" using assms table_step_inv tally_def by blast
  ultimately show ?thesis using assms keys unfolding tally_def table_step_def by simp
qed

lemma tally_append:
  assumes "tally q ls" and "appends_pending rt q q'"
  shows "tally q' ls"
proof -
  obtain r where r: "q' = q @ [r]" "q_attempts r = 0" "q_id r \<notin> q_id ` set q"
    using assms(2) by (auto simp: appends_pending_def)
  have "(q_workspace_id r, q_id r) \<notin> (\<lambda>r. (q_workspace_id r, q_id r)) ` set q" using r(3) by auto
  then have "leases_of r ls = q_attempts r" using assms(1) r(2) by (simp add: tally_def leases_of_def)
  moreover have "queue_inv q'" using assms appends_pending_inv tally_def by blast
  ultimately show ?thesis using assms(1) r(1) unfolding tally_def by auto
qed

lemma run_queue_tally: "tally q ls \<Longrightarrow> run_queue rt ops q = (q', ls') \<Longrightarrow> tally q' (ls @ ls')"
proof (induction ops arbitrary: q ls ls')
  case (Cons x ops)
  obtain now op where x: "x = (now, op)" by fastforce
  obtain q1 l1 where e: "exec_queue rt now op q = (q1, l1)" by fastforce
  obtain q2 l2 where r: "run_queue rt ops q1 = (q2, l2)" by fastforce
  have out: "q' = q2" "ls' = l1 @ l2" using Cons.prems(2) x e r by auto
  have "queue_inv q" using Cons.prems(1) by (simp add: tally_def)
  from exec_queue_step [OF this e] have "tally q1 (ls @ l1)"
    using tally_table_step tally_append Cons.prems(1) by auto
  then show ?case using Cons.IH [of q1 "ls @ l1" l2] r out by simp
qed simp

definition queue_step :: "runtime \<Rightarrow> queue \<Rightarrow> queue \<Rightarrow> bool" where
  "queue_step rt q q' \<longleftrightarrow> (\<exists>now op. q' = fst (exec_queue rt now op q))"

interpretation queue: invariant_system "\<lambda>q. q = []" "queue_step rt" queue_inv for rt
  by unfold_locales (auto simp: queue_inv_def [of "[]"] queue_step_def exec_queue_inv)

definition payloads_bounded :: "queue \<Rightarrow> bool" where
  "payloads_bounded q \<longleftrightarrow> list_all (\<lambda>r. bounded_object (q_payload r)) q"

lemma payloads_bounded_exec:
  assumes "digest_length rt" and "queue_inv q" and "payloads_bounded q"
  shows "payloads_bounded (fst (exec_queue rt now op q))"
proof -
  obtain q' ls where e: "exec_queue rt now op q = (q', ls)" by fastforce
  from exec_queue_step [OF assms(2) e] show ?thesis
  proof
    assume "table_step ls q q'"
    then have "map q_payload q' = map q_payload q"
      by (rule table_step_map) (auto simp: row_step_def same_identity_def)
    then have "list_all bounded_object (map q_payload q')"
      using assms(3) by (simp add: payloads_bounded_def list.pred_map comp_def)
    then show ?thesis by (simp add: e payloads_bounded_def list.pred_map comp_def)
  qed (use assms e in \<open>auto simp: appends_pending_def payloads_bounded_def\<close>)
qed

section \<open>The claim order\<close>

interpretation claim_order: total_preorder claim_le
  by unfold_locales (auto simp: claim_le_def)

interpretation error_order: total_preorder errors_le
  by unfold_locales (auto simp: errors_le_def)

interpretation recent_order: total_preorder recent_le
  by unfold_locales (auto simp: recent_le_def)

text \<open>Rows that are given up have no attempts left, so they were not claimable.\<close>

lemma claimable_poison: "filter (claimable ws now) (poison_exhausted ws now q) = filter (claimable ws now) q"
  unfolding poison_exhausted_def by (rule filter_upd_where_other) (auto simp: claimable_def)

lemma sorted_take_drop_le:
  "sorted_wrt le xs \<Longrightarrow> a \<in> set (take n xs) \<Longrightarrow> b \<in> set (drop n xs) \<Longrightarrow> le a b"
  by (metis append_take_drop_id sorted_wrt_append)

section \<open>Live leases and stranded rows\<close>

definition live_lease :: "runtime \<Rightarrow> string \<Rightarrow> string \<Rightarrow> queue_row \<Rightarrow> bool" where
  "live_lease rt now w r \<longleftrightarrow> q_status r = Claimed \<and> q_lease_owner r = Some w \<and>
     (case q_lease_until r of None \<Rightarrow> False | Some u \<Rightarrow> now < u \<and> \<not> date_le rt u now)"

text \<open>The worker on whose behalf a call settles a proposal.\<close>

fun settles_as :: "queue_op \<Rightarrow> string option" where
  "settles_as (Record ws i worker st res err retry) = Some worker"
| "settles_as (Approve ws i worker) = Some worker"
| "settles_as _ = None"

text \<open>Whoever is claimed but not claimable, and not owned by the settling worker, is left alone.\<close>

definition fenced :: "runtime \<Rightarrow> string \<Rightarrow> queue_op \<Rightarrow> queue_row \<Rightarrow> bool" where
  "fenced rt now op r \<longleftrightarrow> q_status r = Claimed \<and> \<not> lease_over now r \<and>
     (case q_lease_until r of None \<Rightarrow> True | Some u \<Rightarrow> u = [] \<or> \<not> date_le rt u now) \<and>
     (case settles_as op of None \<Rightarrow> True | Some w \<Rightarrow> q_lease_owner r \<noteq> Some w)"

definition untouched :: "queue_row \<Rightarrow> queue \<Rightarrow> bool" where
  "untouched r q' \<longleftrightarrow> (\<exists>t. r\<lparr>q_updated_at := t\<rparr> \<in> set q')"

lemma untouched_same: "r \<in> set q' \<Longrightarrow> untouched r q'"
  unfolding untouched_def by (rule exI [of _ "q_updated_at r"]) simp

lemma find_row_at: "queue_inv q \<Longrightarrow> r \<in> set q \<Longrightarrow> row_at ws i r \<Longrightarrow> List.find (row_at ws i) q = Some r"
proof (induction q)
  case (Cons a q)
  then show ?case by (auto simp: queue_inv_def image_iff)
qed simp

lemma in_upd_other: "r \<in> set q \<Longrightarrow> \<not> P r \<Longrightarrow> r \<in> set (upd_where P f q)"
  by (auto simp: in_upd_where)

lemma fenced_survives_poison: "r \<in> set q \<Longrightarrow> \<not> lease_over now r \<Longrightarrow> r \<in> set (poison_exhausted ws now q)"
  unfolding poison_exhausted_def by (rule in_upd_other) auto

lemma untouched_stamp: "r \<in> set q \<Longrightarrow> untouched r (upd_where P (\<lambda>e. e\<lparr>q_updated_at := t\<rparr>) q)"
  by (cases "P r") (auto simp: untouched_def in_upd_where intro: untouched_same exI [of _ t] exI [of _ "q_updated_at r"]
      intro!: bexI [of _ r])

lemma fenced_enqueue:
  assumes "r \<in> set q"
  shows "untouched r (fst (enqueueProposal rt fresh now i q))"
proof -
  have "untouched r (insert_row e q)" for e
    using assms untouched_stamp untouched_same by (auto simp: insert_row_def)
  then show ?thesis
    using assms untouched_same by (auto simp: enqueueProposal_def Let_def split: sum.splits)
qed

lemma fenced_claim:
  assumes "queue_inv q" and "r \<in> set q" and "fenced rt now (Claim ws worker lu limit) r"
  shows "untouched r (fst (claimProposal rt now ws worker lu limit q))"
proof (cases "claimProposal rt now ws worker lu limit q")
  case (Pair q' res)
  show ?thesis
  proof (cases res)
    case (Inl e)
    then show ?thesis
      using Pair assms(2) untouched_same
      by (auto simp: claimProposal_def Let_def split: if_splits sum.splits)
  next
    case (Inr rs)
    from claimProposal_Inr [OF Pair [unfolded Inr] assms(1)] obtain until q1 rows where
      q: "q1 = poison_exhausted ws now q"
      "rows = take (bounded_limit 25 1 limit) (order_by claim_le (filter (claimable ws now) q1))"
      "q' = upd_where (\<lambda>r. r \<in> set rows) (mark_claimed worker until now) q1" by metis
    have "r \<in> set q1" using fenced_survives_poison assms(2,3) q(1) by (simp add: fenced_def)
    moreover have "r \<notin> set rows"
      using assms(3) unfolding q(2) by (auto simp: fenced_def claimable_def dest!: in_set_takeD)
    ultimately show ?thesis using Pair q(3) by (auto intro: untouched_same in_upd_other)
  qed
qed

lemma fenced_claim_by_id:
  assumes "queue_inv q" and "r \<in> set q" and "fenced rt now (ClaimById ws i worker lu) r"
  shows "untouched r (fst (claimProposalById rt now ws i worker lu q))"
proof -
  define q1 where "q1 = poison_exhausted ws now q"
  have r1: "r \<in> set q1" using fenced_survives_poison assms(2,3) q1_def by (simp add: fenced_def)
  have inv1: "queue_inv q1" unfolding q1_def by (rule table_step_inv [OF poison_exhausted_step assms(1)])
  show ?thesis
  proof (cases "row_at ws i r")
    case True
    have "List.find (row_at ws i) q1 = Some r" by (rule find_row_at [OF inv1 r1 True])
    moreover have "\<not> (case q_lease_until r of None \<Rightarrow> False | Some u \<Rightarrow> u \<noteq> [] \<and> date_le rt u now)"
      using assms(3) by (auto simp: fenced_def split: option.splits)
    ultimately show ?thesis
      using assms(2,3) untouched_same
      by (auto simp: claimProposalById_def Let_def fenced_def q1_def [symmetric] split: sum.splits)
  next
    case False
    then have "r \<in> set (upd_where (row_at ws i) f q1)" for f using r1 by (rule in_upd_other [rotated])
    then show ?thesis
      using assms(2) untouched_same
      by (auto simp: claimProposalById_def Let_def q1_def [symmetric] split: sum.splits option.splits)
  qed
qed

lemma fenced_record:
  assumes "queue_inv q" and "r \<in> set q" and "fenced rt now (Record ws i worker st res err retry) r"
  shows "untouched r (fst (recordProposalResult rt now ws i worker st res err retry q))"
proof (cases "row_at ws i r")
  case True
  from find_row_at [OF assms(1,2) this] show ?thesis
    using assms(2,3) untouched_same by (auto simp: recordProposalResult_def fenced_def split: option.splits)
next
  case False
  then have "r \<in> set (upd_where (row_at ws i) f q)" for f using assms(2) by (rule in_upd_other [rotated])
  then show ?thesis
    using assms(2) untouched_same by (auto simp: recordProposalResult_def Let_def split: option.splits)
qed

lemma fenced_approve:
  assumes "queue_inv q" and "r \<in> set q" and "fenced rt now (Approve ws i worker) r"
  shows "untouched r (fst (exec_queue rt now (Approve ws i worker) q))"
proof (cases "row_at ws i r")
  case True
  from find_row_at [OF assms(1,2) this] show ?thesis
    using assms(2,3) untouched_same by (auto simp: applyApproved_def fenced_def)
next
  case False
  then have "r \<in> set (upd_where (row_at ws i) f q)" for f using assms(2) by (rule in_upd_other [rotated])
  then show ?thesis
    using assms(2) untouched_same by (auto simp: applyApproved_def split: option.splits)
qed

lemma fenced_untouched:
  assumes "queue_inv q" and "r \<in> set q" and "fenced rt now op r"
  shows "untouched r (fst (exec_queue rt now op q))"
  using assms
  by (cases op)
     (auto simp: fenced_enqueue fenced_record
        dest: fenced_claim fenced_claim_by_id fenced_approve split: prod.splits sum.splits)

section \<open>Workspaces\<close>

fun op_workspace :: "queue_op \<Rightarrow> string" where
  "op_workspace (Enqueue fresh i) = en_workspaceId i"
| "op_workspace (Claim ws worker lu limit) = ws"
| "op_workspace (ClaimById ws i worker lu) = ws"
| "op_workspace (Record ws i worker st res err retry) = ws"
| "op_workspace (Approve ws i worker) = ws"

text \<open>The rows of all other workspaces.\<close>

definition others :: "string \<Rightarrow> queue \<Rightarrow> queue" where
  "others ws q = filter (\<lambda>r. q_workspace_id r \<noteq> ws) q"

lemma others_upd:
  "(\<And>r. P r \<Longrightarrow> q_workspace_id r = ws \<and> q_workspace_id (f r) = ws) \<Longrightarrow> others ws (upd_where P f q) = others ws q"
  unfolding others_def by (rule filter_upd_where_other) auto

lemma others_row_at [simp]:
  "(\<And>r. q_workspace_id (f r) = q_workspace_id r) \<Longrightarrow> others ws (upd_where (row_at ws i) f q) = others ws q"
  by (rule others_upd) auto

lemma others_poison: "others ws (poison_exhausted ws now q) = others ws q"
  unfolding poison_exhausted_def by (rule others_upd) auto

lemma others_marks:
  "others ws (foldl (\<lambda>t r. upd_where (row_at ws (q_id r)) (mark_claimed w u now) t) q rows) = others ws q"
  by (induction rows arbitrary: q) auto

lemma enqueue_row_workspace:
  "enqueue_row rt fresh now i q = Inr r \<Longrightarrow> q_workspace_id r = en_workspaceId i"
  by (auto simp: enqueue_row_def Let_def bind_res_eq_Inr split: option.splits if_splits)

lemma others_enqueue: "others (en_workspaceId i) (fst (enqueueProposal rt fresh now i q)) = others (en_workspaceId i) q"
proof (cases "enqueue_row rt fresh now i q")
  case (Inr r)
  have "others (q_workspace_id r) (insert_row r q) = others (q_workspace_id r) q"
  proof (cases "list_ex (\<lambda>e. q_workspace_id e = q_workspace_id r \<and> q_fingerprint e = q_fingerprint r) q")
    case True
    then show ?thesis unfolding insert_row_def by simp (rule others_upd, auto)
  qed (simp add: insert_row_def others_def)
  then show ?thesis using Inr enqueue_row_workspace [OF Inr] by (simp add: enqueueProposal_def Let_def)
qed (simp add: enqueueProposal_def)

lemma others_exec: "others (op_workspace op) (fst (exec_queue rt now op q)) = others (op_workspace op) q"
proof (cases op)
  case (Enqueue fresh i)
  then show ?thesis by (simp add: others_enqueue)
next
  case (Claim ws worker lu limit)
  then show ?thesis
    by (auto simp: claimProposal_def Let_def others_marks others_poison split: sum.splits)
next
  case (ClaimById ws i worker lu)
  then show ?thesis
    by (auto simp: claimProposalById_def Let_def others_poison split: sum.splits option.splits)
next
  case (Record ws i worker st res err retry)
  then show ?thesis by (auto simp: recordProposalResult_def Let_def split: option.splits)
next
  case (Approve ws i worker)
  then show ?thesis by (auto simp: applyApproved_def split: option.splits sum.splits)
qed

section \<open>Repeated enqueues\<close>

definition same_but_stamp :: "queue \<Rightarrow> queue \<Rightarrow> bool" where
  "same_but_stamp q q' \<longleftrightarrow> list_all2 (\<lambda>a b. b = a\<lparr>q_updated_at := q_updated_at b\<rparr>) q q'"

lemma same_but_stamp_refl [simp]: "same_but_stamp q q"
  by (auto simp: same_but_stamp_def intro: list.rel_refl)

lemma same_but_stamp_upd: "same_but_stamp q (upd_where P (\<lambda>e. e\<lparr>q_updated_at := t\<rparr>) q)"
  unfolding same_but_stamp_def upd_where_def list.rel_map by (rule list.rel_refl_strong) auto

text \<open>The content of the row a successful enqueue asks for depends on the input alone.\<close>

lemma enqueue_row_content:
  assumes "enqueue_row rt fresh now i q = Inr r" and "q_id r \<notin> q_id ` set q"
  shows "q_workspace_id r = en_workspaceId i \<and> q_id r = dflt (en_id i) fresh \<and>
    q_fingerprint r = dflt (en_fingerprint i) (queueFingerprint rt (en_workspaceId i) (en_sourceLocator i)
      (dflt (en_sourceHash i) (''sha256:'' @ stableHash rt (en_payload i))) (en_payload i))"
  using assms
  by (auto simp: enqueue_row_def Let_def bind_res_eq_Inr assertWorkspaceLocator_def dest: find_SomeD split: option.splits if_splits)

lemma enqueue_row_existing:
  assumes "enqueue_row rt fresh now i q = Inr r" and "q_id r \<in> q_id ` set q"
  shows "r \<in> set q \<and> q_id r = dflt (en_id i) fresh"
proof (cases "List.find (\<lambda>r. q_id r = dflt (en_id i) fresh) q")
  case None
  then have "q_id r = dflt (en_id i) fresh" using assms(1) by (auto simp: enqueue_row_def Let_def bind_res_eq_Inr)
  then show ?thesis using find_NoneD [OF None] assms(2) by (metis imageE)
next
  case (Some e)
  then show ?thesis
    using assms(1) find_SomeD [OF Some] by (auto simp: enqueue_row_def Let_def bind_res_eq_Inr split: if_splits)
qed

lemma enqueue_row_id: "enqueue_row rt fresh now i q = Inr r \<Longrightarrow> q_id r = dflt (en_id i) fresh"
  using enqueue_row_existing enqueue_row_content by blast

lemma find_fingerprint:
  assumes "queue_inv q" and "e \<in> set q" and "q_workspace_id e = ws" and "q_fingerprint e = fp"
  shows "List.find (\<lambda>e. q_workspace_id e = ws \<and> q_fingerprint e = fp) q = Some e"
proof -
  have "distinct (map (\<lambda>r. (q_workspace_id r, q_fingerprint r)) q)" using assms(1) by (simp add: queue_inv_def)
  from find_unique [OF this assms(2), of "(ws, fp)"] assms(3,4) show ?thesis by simp
qed

lemma same_but_stamp_unique:
  assumes "queue_inv q" and "same_but_stamp q q'" and "e \<in> set q" and "e' \<in> set q'"
    and "q_workspace_id e' = q_workspace_id e" and "q_fingerprint e' = q_fingerprint e"
  shows "q_id e' = q_id e"
proof -
  have "list_all2 (\<lambda>a b. b = a\<lparr>q_updated_at := q_updated_at b\<rparr>) q q'" using assms(2) by (simp add: same_but_stamp_def)
  from list_all2_in2 [OF this assms(4)] obtain d where d: "d \<in> set q" "e' = d\<lparr>q_updated_at := q_updated_at e'\<rparr>" ..
  have "q_id e' = q_id d \<and> q_workspace_id e' = q_workspace_id d \<and> q_fingerprint e' = q_fingerprint d"
    using d(2) by (metis queue_row.select_convs(1-3) queue_row.surjective queue_row.update_convs(15))
  moreover from this have "d = e"
    using d(1) assms(1,3,5,6) by (auto simp: queue_inv_def distinct_map inj_on_def)
  ultimately show ?thesis by simp
qed

lemma list_ex_id: "list_ex (\<lambda>e. q_id e = x) t \<longleftrightarrow> x \<in> q_id ` set t" for t :: queue
  by (auto simp: list_ex_iff)

lemma list_ex_upd_where:
  "(\<And>r. P r \<Longrightarrow> Q (f r) = Q r) \<Longrightarrow> list_ex Q (upd_where P f rows) = list_ex Q rows"
  by (induction rows) auto

lemma enqueue_known_id:
  assumes "enqueue_row rt fresh now i q = Inr a" and "q_id a \<in> q_id ` set q"
  shows "enqueueProposal rt fresh now i q = (q, Inr (rowToQueueRecord rt a)) \<and> q_id a = dflt (en_id i) fresh"
  using enqueue_row_existing [OF assms] assms by (simp add: enqueueProposal_def list_ex_id)

text \<open>A new id: the row with the input's fingerprint is in the table afterwards and is the answer.\<close>

lemma enqueue_new_id:
  fixes q :: queue
  assumes "queue_inv q" and "enqueue_row rt fresh now i q = Inr a" and "q_id a \<notin> q_id ` set q"
    and "enqueueProposal rt fresh now i q = (q1, Inr r1)"
  shows "q1 = insert_row a q \<and> (\<exists>e \<in> set q1. q_workspace_id e = q_workspace_id a \<and> q_fingerprint e = q_fingerprint a \<and>
    q_id r1 = q_id e \<and> (e = a \<or> q_id e \<in> q_id ` set q \<and> q_id a \<notin> q_id ` set q1))"
proof -
  let ?P = "\<lambda>e. q_workspace_id e = q_workspace_id a \<and> q_fingerprint e = q_fingerprint a"
  have q1: "q1 = insert_row a q" using assms by (simp add: enqueueProposal_def list_ex_id Let_def)
  have "list_ex ?P q1" unfolding q1 insert_row_def by (simp add: list_ex_upd_where)
  then obtain e where e: "List.find ?P q1 = Some e" by (cases "List.find ?P q1") (auto simp: list_ex_iff dest: find_NoneD)
  have r1: "q_id r1 = q_id e" using assms(2,3,4) e q1 by (auto simp: enqueueProposal_def list_ex_id Let_def)
  have "e = a \<or> q_id e \<in> q_id ` set q \<and> q_id a \<notin> q_id ` set q1"
  proof (cases "list_ex ?P q")
    case True
    have "map q_id (upd_where ?P (\<lambda>e. e\<lparr>q_updated_at := q_updated_at a\<rparr>) q) = map q_id q" by (rule map_upd_where_same) simp
    then have "map q_id q1 = map q_id q" using True unfolding q1 insert_row_def by simp
    then have "q_id ` set q1 = q_id ` set q" by (metis list.set_map)
    then show ?thesis using find_SomeD [OF e] assms(3) by auto
  next
    case False
    then have "List.find ?P q = None" by (induction q) auto
    then show ?thesis using e False unfolding q1 insert_row_def by (simp add: find_append)
  qed
  then show ?thesis using q1 r1 find_SomeD [OF e] by blast
qed

section \<open>A sample queue\<close>

definition sample_row :: queue_row where
  "sample_row = \<lparr>q_id = ''mpq_a'', q_workspace_id = ''ws'', q_fingerprint = ''f0'', q_source_locator = ''workspace://a'',
     q_source_hash = ''h'', q_status = Pending, q_attempts = 0, q_max_attempts = 3, q_lease_owner = None,
     q_lease_until = None, q_payload = Obj [], q_result = None, q_error = None, q_enqueued_at = ''1'', q_updated_at = ''1''\<rparr>"

definition leased_row :: queue_row where
  "leased_row = mark_claimed ''w1'' ''9'' ''5'' sample_row"

lemmas queue_eval = sample_row_def leased_row_def mark_claimed_def claimProposal_def claimProposalById_def
  recordProposalResult_def lease_end_def lease_over_def poison_exhausted_def claimable_def claim_le_def Let_def

lemma sample_queue_inv: "queue_inv [sample_row]" "queue_inv [leased_row]"
  by (simp_all add: queue_inv_def row_ok_def sample_row_def leased_row_def mark_claimed_def)

definition sample_enqueue :: enqueue_input where
  "sample_enqueue = \<lparr>en_workspaceId = ''ws'', en_payload = Obj [(''kind'', Str ''note'')], en_sourceLocator = ''workspace://a'',
     en_sourceHash = Some (''sha256:'' @ replicate 64 CHR ''0''), en_fingerprint = Some (replicate 64 CHR ''0''),
     en_id = Some ''mpq_a'', en_maxAttempts = None, en_enqueuedAt = None\<rparr>"

definition sample_calls :: "(string \<times> queue_op) list" where
  "sample_calls = [(''1'', Enqueue ''mpq_z'' sample_enqueue), (''5'', Claim ''ws'' ''w1'' (Some ''9'') None)]"

lemma sample_enqueued:
  "\<exists>p. fst (enqueueProposal sample_runtime f now sample_enqueue []) =
     [\<lparr>q_id = ''mpq_a'', q_workspace_id = ''ws'', q_fingerprint = replicate 64 CHR ''0'', q_source_locator = ''workspace://a'',
       q_source_hash = ''sha256:'' @ replicate 64 CHR ''0'', q_status = Pending, q_attempts = 0, q_max_attempts = 3,
       q_lease_owner = None, q_lease_until = None, q_payload = p, q_result = None, q_error = None,
       q_enqueued_at = now, q_updated_at = now\<rparr>]"
proof -
  have h: "FINGERPRINT_PATTERN (replicate 64 CHR ''0'')"
    by (simp add: FINGERPRINT_PATTERN_def is_hex_def is_digit_def list_all_iff)
  have "source_hash_ok (''sha256:'' @ replicate 64 CHR ''0'')"
    using h unfolding source_hash_ok_def starts_with_append by auto
  moreover have "assertWorkspaceLocator ''workspace://a'' = Inr ''workspace://a''"
    by (simp add: assertWorkspaceLocator_def Let_def locator_char_def is_alnum_def is_lower_def)
  moreover have "QUEUE_ID_PATTERN ''mpq_a''"
    by (simp add: QUEUE_ID_PATTERN_def safe_id_def Let_def safe_id_char_def is_alnum_def is_lower_def)
  ultimately show ?thesis
    using h by (simp add: enqueueProposal_def enqueue_row_def sample_enqueue_def Let_def insert_row_def enqueue_payload_def
        hashable_def require_def bounded_limit_def)
qed

lemma sample_enqueue_ok:
  assumes "\<And>r. r \<in> set q \<Longrightarrow> q_id r = ''mpq_a'' \<Longrightarrow> q_workspace_id r = ''ws''"
  shows "\<exists>q' r. enqueueProposal sample_runtime f now sample_enqueue q = (q', Inr r)"
proof -
  have h: "FINGERPRINT_PATTERN (replicate 64 CHR ''0'')"
    by (simp add: FINGERPRINT_PATTERN_def is_hex_def is_digit_def list_all_iff)
  have "source_hash_ok (''sha256:'' @ replicate 64 CHR ''0'')"
    using h unfolding source_hash_ok_def starts_with_append by auto
  moreover have "assertWorkspaceLocator ''workspace://a'' = Inr ''workspace://a''"
    by (simp add: assertWorkspaceLocator_def Let_def locator_char_def is_alnum_def is_lower_def)
  moreover have "QUEUE_ID_PATTERN ''mpq_a''"
    by (simp add: QUEUE_ID_PATTERN_def safe_id_def Let_def safe_id_char_def is_alnum_def is_lower_def)
  ultimately have "\<exists>r. enqueue_row sample_runtime f now sample_enqueue q = Inr r"
    using h assms by (auto simp: enqueue_row_def sample_enqueue_def Let_def enqueue_payload_def hashable_def require_def
        split: option.splits dest!: find_SomeD)
  then show ?thesis by (auto simp: enqueueProposal_def Let_def)
qed

lemma sample_calls_lease: "snd (run_queue sample_runtime sample_calls []) = [(''ws'', ''mpq_a'')]"
proof -
  obtain p where p: "fst (enqueueProposal sample_runtime ''mpq_z'' ''1'' sample_enqueue []) =
     [\<lparr>q_id = ''mpq_a'', q_workspace_id = ''ws'', q_fingerprint = replicate 64 CHR ''0'', q_source_locator = ''workspace://a'',
       q_source_hash = ''sha256:'' @ replicate 64 CHR ''0'', q_status = Pending, q_attempts = 0, q_max_attempts = 3,
       q_lease_owner = None, q_lease_until = None, q_payload = p, q_result = None, q_error = None,
       q_enqueued_at = ''1'', q_updated_at = ''1''\<rparr>]"
    using sample_enqueued by blast
  show ?thesis
    by (simp add: sample_calls_def p queue_eval bounded_limit_def)
qed

lemma settled_step:
  assumes "queue_inv q" and "r \<in> set q" and "q_status r \<in> {Applied, Poison}"
  shows "\<exists>r' \<in> set (fst (exec_queue rt now op q)). same_identity r r' \<and> q_status r' = q_status r \<and>
    q_result r' = q_result r \<and> q_error r' = q_error r"
proof -
  obtain q' ls where e: "exec_queue rt now op q = (q', ls)" by fastforce
  from exec_queue_step [OF assms(1) e] show ?thesis
  proof
    assume "table_step ls q q'"
    then have "list_all2 (\<lambda>a b. row_step (leases_of a ls) a b) q q'" by (simp add: table_step_def)
    from list_all2_in1 [OF this assms(2)] obtain b where "b \<in> set q'" "row_step (leases_of r ls) r b" ..
    then show ?thesis using assms(3) e by (intro bexI [of _ b]) (auto simp: row_step_def)
  next
    assume "ls = [] \<and> appends_pending rt q q'"
    then have "r \<in> set q'" using assms(2) by (auto simp: appends_pending_def)
    then show ?thesis using e by (intro bexI [of _ r]) (simp_all add: same_identity_def)
  qed
qed

lemma same_identity_trans: "same_identity a b \<Longrightarrow> same_identity b c \<Longrightarrow> same_identity a c"
  by (simp add: same_identity_def)

lemma run_queue_Cons: "fst (run_queue rt ((now, op) # ops) q) = fst (run_queue rt ops (fst (exec_queue rt now op q)))"
  by (simp split: prod.splits)

section \<open>Properties\<close>

text \<open>C7: Whatever calls are made in whatever order on an initially empty queue, ids and
  (workspace, fingerprint) pairs stay unique, attempts never exceed the row's maximum, which
  lies between 1 and 10, only claimed rows carry a lease, and no proposal is ever leased out
  more than ten times: the number of leases handed out for a row is its attempt counter.\<close>

theorem leases_are_bounded:
  "queue_inv (fst (run_queue rt ops [])) \<and>
   (\<forall>r \<in> set (fst (run_queue rt ops [])).
      count_list (snd (run_queue rt ops [])) (q_workspace_id r, q_id r) = q_attempts r \<and>
      q_attempts r \<le> q_max_attempts r \<and> q_max_attempts r \<le> 10) \<and>
   (\<forall>p. count_list (snd (run_queue rt ops [])) p \<le> 10)"
proof -
  obtain q ls where r: "run_queue rt ops [] = (q, ls)" by fastforce
  have "tally [] []" by (simp add: tally_def queue_inv_def)
  from run_queue_tally [OF this r] have t: "tally q ls" by simp
  then have rows: "\<forall>r \<in> set q. leases_of r ls = q_attempts r \<and> row_ok r" and inv: "queue_inv q"
    by (simp_all add: tally_def queue_inv_def list_all_iff)
  have "count_list ls p \<le> 10" for p
  proof (cases "p \<in> (\<lambda>r. (q_workspace_id r, q_id r)) ` set q")
    case True
    then obtain r where "r \<in> set q" "p = (q_workspace_id r, q_id r)" by auto
    then have "count_list ls p \<le> q_max_attempts r \<and> q_max_attempts r \<le> 10"
      using rows by (metis leases_of_def row_ok_def)
    then show ?thesis by simp
  qed (use t in \<open>cases p, simp add: tally_def\<close>)
  then show ?thesis using rows inv by (simp add: r leases_of_def row_ok_def)
qed

theorem leases_are_bounded_witness:
  "snd (run_queue sample_runtime sample_calls []) = [(''ws'', ''mpq_a'')] \<and>
   count_list (snd (run_queue sample_runtime sample_calls [])) (''ws'', ''mpq_a'') \<le> 10"
  using leases_are_bounded [of sample_runtime sample_calls] sample_calls_lease by blast

text \<open>A claim takes claimable proposals of the workspace in queue order, oldest first: it
  returns as many as the bounded limit allows and as there are, no claimable proposal that is
  left behind is older than one that was taken, and every returned row is leased to the
  worker with its attempt counted.\<close>

theorem claim_takes_oldest:
  assumes "queue_inv q" and "claimProposal rt now ws worker lu limit q = (q', Inr rs)"
  shows "\<exists>rows until. lease_end rt now lu = Inr until \<and>
    rs = map (\<lambda>r. rowToQueueRecord rt (mark_claimed worker until now r)) rows \<and>
    set rows \<subseteq> {r \<in> set q. claimable ws now r} \<and> distinct rows \<and> sorted_wrt claim_le rows \<and>
    length rows = min (bounded_limit 25 1 limit) (length (filter (claimable ws now) q)) \<and>
    (\<forall>a \<in> set rows. \<forall>b \<in> set q. claimable ws now b \<and> b \<notin> set rows \<longrightarrow> claim_le a b) \<and>
    (\<forall>r \<in> set rows. mark_claimed worker until now r \<in> set q')"
proof -
  from claimProposal_Inr [OF assms(2,1)] obtain until q1 rows where
    u: "lease_end rt now lu = Inr until" and q1: "q1 = poison_exhausted ws now q" and inv: "queue_inv q1"
    and rows: "rows = take (bounded_limit 25 1 limit) (order_by claim_le (filter (claimable ws now) q1))"
    and q': "q' = upd_where (\<lambda>r. r \<in> set rows) (mark_claimed worker until now) q1"
    and rs: "rs = map (\<lambda>r. rowToQueueRecord rt (mark_claimed worker until now r)) rows" by metis
  let ?all = "order_by claim_le (filter (claimable ws now) q)" and ?n = "bounded_limit 25 1 limit"
  have rows': "rows = take ?n ?all" unfolding rows q1 claimable_poison ..
  have sub: "set rows \<subseteq> {r \<in> set q. claimable ws now r}" unfolding rows' using set_take_subset by fastforce
  have "distinct (map q_id rows)" unfolding rows by (rule distinct_ids_subset) (use inv queue_inv_def in blast)
  then have dist: "distinct rows" by (simp add: distinct_map)
  have sorted: "sorted_wrt claim_le ?all" by (rule claim_order.sorted_order_by)
  have "claim_le a b" if "a \<in> set rows" "b \<in> set q" "claimable ws now b" "b \<notin> set rows" for a b
  proof (rule sorted_take_drop_le [OF sorted])
    show "a \<in> set (take ?n ?all)" using that rows' by simp
    have "b \<in> set (take ?n ?all @ drop ?n ?all)" using that by simp
    then show "b \<in> set (drop ?n ?all)" using that rows' unfolding set_append by blast
  qed
  moreover have "mark_claimed worker until now r \<in> set q'" if "r \<in> set rows" for r
  proof -
    have "r \<in> set q1" using that unfolding rows by (auto dest: in_set_takeD)
    then show ?thesis using that unfolding q' in_upd_where by auto
  qed
  moreover have "sorted_wrt claim_le rows" unfolding rows' by (rule sorted_wrt_take [OF sorted])
  moreover have "length rows = min ?n (length (filter (claimable ws now) q))" unfolding rows' by (simp add: min.commute)
  ultimately show ?thesis using u rs sub dist by blast
qed

theorem claim_takes_oldest_witness:
  "\<exists>q' rs. queue_inv [sample_row] \<and>
     claimProposal sample_runtime ''5'' ''ws'' ''w1'' (Some ''9'') None [sample_row] = (q', Inr rs) \<and> length rs = 1"
proof -
  obtain q' rs where c: "claimProposal sample_runtime ''5'' ''ws'' ''w1'' (Some ''9'') None [sample_row] = (q', Inr rs)"
    by (simp add: queue_eval)
  have "length (filter (claimable ''ws'' ''5'') [sample_row]) = 1" by (simp add: claimable_def sample_row_def)
  then have "length rs = 1"
    using claim_takes_oldest [OF sample_queue_inv(1) c] bounded_limit_bounds [of 25 1 None] by auto
  then show ?thesis using c sample_queue_inv(1) by blast
qed

text \<open>C10: A lease is exclusive: while a worker's lease on a proposal is live, no claim of any
  worker and no result or approval of another worker changes the row, apart from the time
  stamp a repeated enqueue refreshes.\<close>

theorem live_lease_is_exclusive:
  assumes "queue_inv q" and "r \<in> set q" and "live_lease rt now w r" and "settles_as op \<noteq> Some w"
  shows "\<exists>t. r\<lparr>q_updated_at := t\<rparr> \<in> set (fst (exec_queue rt now op q))"
proof -
  have "fenced rt now op r"
    using assms(3,4) by (auto simp: fenced_def live_lease_def lease_over_def split: option.splits)
  from fenced_untouched [OF assms(1,2) this] show ?thesis by (simp add: untouched_def)
qed

theorem live_lease_is_exclusive_witness:
  "\<exists>t. leased_row\<lparr>q_updated_at := t\<rparr> \<in>
     set (fst (exec_queue sample_runtime ''6'' (ClaimById ''ws'' ''mpq_a'' ''w2'' None) [leased_row]))"
proof (rule live_lease_is_exclusive [OF sample_queue_inv(2)])
  show "live_lease sample_runtime ''6'' ''w1'' leased_row"
    by (simp add: live_lease_def leased_row_def mark_claimed_def date_le_def sample_runtime_def)
qed simp_all

text \<open>Settled is settled: once a proposal is applied or poisoned, no sequence of calls changes
  its status, its result, its error or the content that was proposed.\<close>

theorem settled_proposal_is_final:
  assumes "queue_inv q" and "r \<in> set q" and "q_status r \<in> {Applied, Poison}"
  shows "\<exists>r' \<in> set (fst (run_queue rt ops q)). same_identity r r' \<and> q_status r' = q_status r \<and>
    q_result r' = q_result r \<and> q_error r' = q_error r"
  using assms
proof (induction ops arbitrary: q r)
  case (Cons x ops)
  obtain now op where x: "x = (now, op)" by fastforce
  let ?q1 = "fst (exec_queue rt now op q)"
  obtain r1 where r1: "r1 \<in> set ?q1" "same_identity r r1" "q_status r1 = q_status r" "q_result r1 = q_result r" "q_error r1 = q_error r"
    using settled_step [OF Cons.prems] by blast
  have "\<exists>r' \<in> set (fst (run_queue rt ops ?q1)). same_identity r1 r' \<and> q_status r' = q_status r1 \<and>
      q_result r' = q_result r1 \<and> q_error r' = q_error r1"
    using Cons.IH [OF exec_queue_inv [OF Cons.prems(1)] r1(1)] r1(3) Cons.prems(3) by simp
  then show ?case unfolding x run_queue_Cons using r1 same_identity_trans by metis
qed (auto simp: same_identity_def)

theorem settled_proposal_is_final_witness:
  "\<exists>r' \<in> set (fst (run_queue sample_runtime sample_calls [sample_row\<lparr>q_status := Applied\<rparr>])). q_status r' = Applied"
proof -
  let ?r = "sample_row\<lparr>q_status := Applied\<rparr>"
  have "queue_inv [?r]" by (simp add: queue_inv_def row_ok_def sample_row_def)
  from settled_proposal_is_final [OF this, of ?r sample_runtime sample_calls] show ?thesis by auto
qed

text \<open>Enqueueing is idempotent: repeating a successful enqueue, at any later time and with a
  new generated id, adds no row, changes nothing but a time stamp, and answers with the same
  proposal.\<close>

theorem enqueue_is_idempotent:
  assumes "queue_inv q" and "enqueueProposal rt fresh now i q = (q1, Inr r1)"
    and "enqueueProposal rt fresh' now' i q1 = (q2, Inr r2)"
    and "en_id i = None \<longrightarrow> fresh \<notin> q_id ` set q \<and> fresh' \<notin> q_id ` set q1"
  shows "same_but_stamp q1 q2 \<and> q_id r2 = q_id r1"
proof -
  have inv1: "queue_inv q1" using exec_queue_inv [OF assms(1), of rt now "Enqueue fresh i"] assms(2) by simp
  obtain a b where a: "enqueue_row rt fresh now i q = Inr a" and b: "enqueue_row rt fresh' now' i q1 = Inr b"
    using assms(2,3) by (auto simp: enqueueProposal_def split: sum.splits)
  show ?thesis
  proof (cases "q_id a \<in> q_id ` set q")
    case True
    note k = enqueue_known_id [OF a True]
    then have "q_id b \<in> q_id ` set q1"
      using True assms(2,4) enqueue_row_id [OF b] by (cases "en_id i") auto
    from enqueue_known_id [OF b this] k show ?thesis using assms(2,3,4) True by (cases "en_id i") auto
  next
    case False
    note n = enqueue_new_id [OF assms(1) a False assms(2)] and ca = enqueue_row_content [OF a False]
    show ?thesis
    proof (cases "q_id b \<in> q_id ` set q1")
      case True
      note k = enqueue_known_id [OF b True]
      then have "q_id b = q_id a" using True assms(4) ca by (cases "en_id i") auto
      then show ?thesis using k n True assms(3) by auto
    next
      case new: False
      note cb = enqueue_row_content [OF b new]
      have "list_ex (\<lambda>e. q_workspace_id e = q_workspace_id b \<and> q_fingerprint e = q_fingerprint b) q1"
        using n ca cb by (auto simp: list_ex_iff)
      then have q2: "same_but_stamp q1 q2"
        using enqueue_new_id [OF inv1 b new assms(3)] same_but_stamp_upd by (simp add: insert_row_def)
      obtain e e' where e: "e \<in> set q1" "q_workspace_id e = q_workspace_id a" "q_fingerprint e = q_fingerprint a" "q_id r1 = q_id e"
        and e': "e' \<in> set q2" "q_workspace_id e' = q_workspace_id a" "q_fingerprint e' = q_fingerprint a" "q_id r2 = q_id e'"
        using n enqueue_new_id [OF inv1 b new assms(3)] ca cb by metis
      then have "q_id e' = q_id e" using same_but_stamp_unique [OF inv1 q2 e(1) e'(1)] by simp
      then show ?thesis using q2 e(4) e'(4) by simp
    qed
  qed
qed

theorem enqueue_is_idempotent_witness:
  "\<exists>q1 r1 q2 r2. enqueueProposal sample_runtime ''mpq_y'' ''1'' sample_enqueue [] = (q1, Inr r1) \<and>
     enqueueProposal sample_runtime ''mpq_z'' ''2'' sample_enqueue q1 = (q2, Inr r2) \<and>
     same_but_stamp q1 q2 \<and> q_id r2 = q_id r1"
proof -
  obtain q1 r1 where e1: "enqueueProposal sample_runtime ''mpq_y'' ''1'' sample_enqueue [] = (q1, Inr r1)"
    using sample_enqueue_ok [of "[]" "''mpq_y''" "''1''"] by auto
  have "q_workspace_id r = ''ws''" if "r \<in> set q1" for r
    using that sample_enqueued [of "''mpq_y''" "''1''"] e1 by auto
  then obtain q2 r2 where e2: "enqueueProposal sample_runtime ''mpq_z'' ''2'' sample_enqueue q1 = (q2, Inr r2)"
    using sample_enqueue_ok [of q1 "''mpq_z''" "''2''"] by auto
  have "queue_inv []" by (simp add: queue_inv_def)
  from enqueue_is_idempotent [OF this e1 e2] e1 e2 show ?thesis by (simp add: sample_enqueue_def)
qed

text \<open>Workspaces are isolated: a call made for one workspace leaves the rows of all others as
  they are, in content and order.\<close>

theorem queue_calls_stay_in_workspace:
  "filter (\<lambda>r. q_workspace_id r \<noteq> op_workspace op) (fst (exec_queue rt now op q)) =
   filter (\<lambda>r. q_workspace_id r \<noteq> op_workspace op) q"
  using others_exec by (simp add: others_def)

text \<open>Every payload in the queue is bounded whatever callers enqueue: at most 64 properties with
  distinct keys of at most 128 characters, and only scalars, whose strings have at most 514
  characters (512 and the mark of truncation).\<close>

theorem queued_payloads_are_bounded:
  assumes "digest_length rt"
  shows "queue_inv q \<Longrightarrow> payloads_bounded q \<Longrightarrow> payloads_bounded (fst (run_queue rt ops q))"
proof (induction ops arbitrary: q)
  case (Cons x ops)
  obtain now op where x: "x = (now, op)" by fastforce
  show ?case
    unfolding x run_queue_Cons
    by (rule Cons.IH [OF exec_queue_inv [OF Cons.prems(1)] payloads_bounded_exec [OF assms Cons.prems]])
qed simp

theorem queued_payloads_are_bounded_witness:
  "payloads_bounded (fst (run_queue (sample_runtime\<lparr>sha256_hex := \<lambda>_. replicate 64 CHR ''0''\<rparr>) sample_calls []))"
  by (rule queued_payloads_are_bounded) (simp_all add: digest_length_def queue_inv_def payloads_bounded_def)

text \<open>A worker that records the status \<open>claimed\<close> strands its proposal: the row stays claimed
  without an owner and without a lease, and no later call of any kind can claim it, settle it
  or change anything but its time stamp.\<close>

theorem recording_claimed_strands:
  assumes "queue_inv q" and "recordProposalResult rt now ws i worker (Some Claimed) res Null retry q = (q', Inr r)"
  shows "\<exists>s \<in> set q'. row_at ws i s \<and> q_status s = Claimed \<and> q_lease_owner s = None \<and> q_lease_until s = None \<and>
    (\<forall>now' op. \<exists>t. s\<lparr>q_updated_at := t\<rparr> \<in> set (fst (exec_queue rt now' op q')))"
proof -
  have inv': "queue_inv q'"
    using exec_queue_inv [OF assms(1), of rt now "Record ws i worker (Some Claimed) res Null retry"] assms(2) by simp
  obtain c where c: "List.find (row_at ws i) q = Some c" and
    q': "q' = upd_where (row_at ws i) (\<lambda>r. r\<lparr>q_status := Claimed, q_lease_owner := None, q_lease_until := None,
      q_result := (if res = Null then None else Some (boundedJson rt (safeQueueObject rt res))), q_error := None, q_updated_at := now\<rparr>) q"
    using assms(2) by (auto simp: recordProposalResult_def Let_def split: if_splits option.splits)
  obtain s where s: "s \<in> set q'" "row_at ws i s" "q_status s = Claimed" "q_lease_owner s = None" "q_lease_until s = None"
    using find_SomeD [OF c] unfolding q' in_upd_where by fastforce
  have "fenced rt now' op s" for now' op
    using s by (auto simp: fenced_def lease_over_def split: option.splits)
  from fenced_untouched [OF inv' s(1) this] show ?thesis using s by (auto simp: untouched_def)
qed

theorem recording_claimed_strands_witness:
  "\<exists>q' r. recordProposalResult sample_runtime ''6'' ''ws'' ''mpq_a'' ''w1'' (Some Claimed) Null Null False [leased_row] = (q', Inr r) \<and>
     (\<exists>s \<in> set q'. q_status s = Claimed \<and> q_lease_until s = None)"
proof -
  obtain q' r where c: "recordProposalResult sample_runtime ''6'' ''ws'' ''mpq_a'' ''w1'' (Some Claimed) Null Null False [leased_row] = (q', Inr r)"
    by (simp add: queue_eval date_le_def sample_runtime_def)
  from recording_claimed_strands [OF sample_queue_inv(2) c] c show ?thesis by blast
qed

end
