(* ===== verification/MemoryFacts.thy ===== *)
theory MemoryFacts
  imports MemoryQueue
begin

text \<open>
  Temporal facts of providers/native/memory-sqlite/src/index.mjs: the proposal gate, the
  transaction that materialises a fact with its episode, entities, edge and search row,
  approval and rejection of proposals, and the temporal queries. SQLite's full-text matching
  and its rank are arguments of the queries that use them. Values that the code does not
  check are taken to be strings. Scores are exact rationals in place of floating-point
  numbers; a score of \<open>None\<close> is \<open>NaN\<close>.
\<close>

section \<open>Tables\<close>

record episode_row =
  ep_id :: string
  ep_workspace_id :: string
  ep_scope :: string
  ep_source_locator :: string
  ep_summary :: string
  ep_observed_at :: string
  ep_created_at :: string
  ep_metadata :: js

record entity_row =
  et_id :: string
  et_workspace_id :: string
  et_scope :: string
  et_kind :: string
  et_name :: string
  et_created_at :: string
  et_updated_at :: string

record fact_row =
  f_id :: string
  f_workspace_id :: string
  f_scope :: string
  f_subject :: string
  f_predicate :: string
  f_object :: string
  f_text :: string
  f_status :: string
  f_source :: string
  f_confidence :: rat
  f_valid_from :: string
  f_valid_until :: "string option"
  f_superseded_by :: "string option"
  f_episode_id :: string
  f_proposal_queue_id :: string
  f_created_at :: string
  f_updated_at :: string
  f_metadata :: js

record edge_row =
  ed_id :: string
  ed_workspace_id :: string
  ed_scope :: string
  ed_source :: string
  ed_target :: string
  ed_predicate :: string
  ed_fact_id :: string
  ed_created_at :: string

record fts_row =
  ft_id :: string
  ft_workspace_id :: string
  ft_scope :: string
  ft_subject :: string
  ft_predicate :: string
  ft_object :: string
  ft_text :: string

record memory_db =
  d_queue :: queue
  d_episodes :: "episode_row list"
  d_entities :: "entity_row list"
  d_facts :: "fact_row list"
  d_fact_fts :: "fts_row list"
  d_edges :: "edge_row list"

definition empty_db :: memory_db where
  "empty_db = \<lparr>d_queue = [], d_episodes = [], d_entities = [], d_facts = [], d_fact_fts = [], d_edges = []\<rparr>"

datatype fact_error =
    QueueError queue_error
  | BadTimestamp string
  | BadFactId
  | BadEpisodeId
  | NotActiveStatus
  | GateNotApplied
  | FactMismatch
  | ConstraintViolated
  | UnsupportedProposal
  | WorkspaceMissing
  | SubjectPredicateRequired

definition lift_q :: "(queue_error, 'a) result \<Rightarrow> (fact_error, 'a) result" where
  "lift_q r = (case r of Inl e \<Rightarrow> Inl (QueueError e) | Inr x \<Rightarrow> Inr x)"

lemma lift_q_Inr [simp]: "lift_q r = Inr x \<longleftrightarrow> r = Inr x"
  by (simp add: lift_q_def split: sum.splits)

section \<open>Inputs\<close>

record episode_input =
  epi_id :: "string option"
  epi_sourceLocator :: "string option"
  epi_summary :: js
  epi_observedAt :: js
  epi_createdAt :: "string option"
  epi_metadata :: js

record fact_input =
  fi_id :: "string option"
  fi_workspaceId :: js
  fi_scope :: js
  fi_subject :: js
  fi_predicate :: js
  fi_object :: js
  fi_text :: js
  fi_status :: "string option"
  fi_source :: string
  fi_confidence :: "rat option"
  fi_validFrom :: js
  fi_validUntil :: js
  fi_supersededBy :: "string option"
  fi_episodeId :: "string option"
  fi_proposalQueueId :: "string option"
  fi_createdAt :: "string option"
  fi_updatedAt :: "string option"
  fi_supersedeSubjectPredicate :: bool
  fi_metadata :: js
  fi_episode :: "episode_input option"

text \<open>A normalised fact: the row to write (its episode id still open) and how to write it.\<close>

record fact =
  n_row :: fact_row
  n_episodeId :: "string option"
  n_proposalQueueId :: "string option"
  n_supersede :: bool
  n_episode :: "episode_input option"

definition assertIsoTimestamp :: "runtime \<Rightarrow> string \<Rightarrow> js \<Rightarrow> (fact_error, string) result" where
  "assertIsoTimestamp rt name v =
     (case v of Str s \<Rightarrow> if date_parse rt s = None then Inl (BadTimestamp name) else Inr s | _ \<Rightarrow> Inl (BadTimestamp name))"

definition TEMPORAL_FACT_ID_PATTERN :: "string \<Rightarrow> bool" where
  "TEMPORAL_FACT_ID_PATTERN = safe_id ''memfact_''"

definition TEMPORAL_EPISODE_ID_PATTERN :: "string \<Rightarrow> bool" where
  "TEMPORAL_EPISODE_ID_PATTERN = safe_id ''mep_''"

definition plain_or_empty :: "js \<Rightarrow> js" where
  "plain_or_empty v = (if is_plain v then v else Obj [])"

text \<open>\<open>fresh\<close> is the identifier \<open>prefixedId\<close> would make, \<open>now\<close> the clock.\<close>

definition normalizeTemporalFactInput :: "runtime \<Rightarrow> string \<Rightarrow> string \<Rightarrow> fact_input \<Rightarrow> (fact_error, fact) result" where
  "normalizeTemporalFactInput rt fresh now i =
     bind_res (lift_q (normalizeTemporalText ''workspaceId'' 512 (fi_workspaceId i))) (\<lambda>workspaceId.
     bind_res (lift_q (normalizeTemporalScope (fi_scope i))) (\<lambda>scope.
     bind_res (assertIsoTimestamp rt ''validFrom'' (orelse (fi_validFrom i) (Str now))) (\<lambda>validFrom.
       let fid = dflt (fi_id i) fresh in
     bind_res (require (TEMPORAL_FACT_ID_PATTERN fid) BadFactId) (\<lambda>_.
     bind_res (if nullish (fi_validUntil i) then Inr None
               else bind_res (assertIsoTimestamp rt ''validUntil'' (fi_validUntil i)) (\<lambda>u. Inr (Some u))) (\<lambda>validUntil.
     bind_res (lift_q (normalizeTemporalText ''subject'' 512 (fi_subject i))) (\<lambda>subject.
     bind_res (lift_q (normalizeTemporalText ''predicate'' 256 (fi_predicate i))) (\<lambda>predicate.
     bind_res (lift_q (normalizeTemporalText ''object'' 1000000 (fi_object i))) (\<lambda>object.
     bind_res (lift_q (normalizeTemporalText ''text'' 1000000 (fi_text i))) (\<lambda>text.
     bind_res (lift_q (assertWorkspaceLocator (fi_source i))) (\<lambda>source.
       Inr \<lparr>n_row = \<lparr>f_id = fid, f_workspace_id = workspaceId, f_scope = scope, f_subject = subject,
              f_predicate = predicate, f_object = object, f_text = text, f_status = dflt (fi_status i) ''active'',
              f_source = source, f_confidence = boundedConfidence (fi_confidence i), f_valid_from = validFrom,
              f_valid_until = validUntil, f_superseded_by = fi_supersededBy i, f_episode_id = [],
              f_proposal_queue_id = dflt (fi_proposalQueueId i) [],
              f_created_at = dflt (fi_createdAt i) now,
              f_updated_at = dflt (first_of (fi_updatedAt i) (fi_createdAt i)) now,
              f_metadata = plain_or_empty (fi_metadata i)\<rparr>,
            n_episodeId = first_of (fi_episodeId i) (Option.bind (fi_episode i) epi_id),
            n_proposalQueueId = fi_proposalQueueId i,
            n_supersede = fi_supersedeSubjectPredicate i,
            n_episode = fi_episode i\<rparr>))))))))))"

definition no_episode :: episode_input where
  "no_episode = \<lparr>epi_id = None, epi_sourceLocator = None, epi_summary = Undef, epi_observedAt = Undef,
     epi_createdAt = None, epi_metadata = Undef\<rparr>"

definition normalizeTemporalEpisodeInput ::
  "runtime \<Rightarrow> string \<Rightarrow> string \<Rightarrow> episode_input option \<Rightarrow> fact \<Rightarrow> (fact_error, episode_row) result" where
  "normalizeTemporalEpisodeInput rt fresh now input f =
     (let e = dflt input no_episode; eid = dflt (first_of (epi_id e) (n_episodeId f)) fresh; r = n_row f in
      bind_res (require (TEMPORAL_EPISODE_ID_PATTERN eid) BadEpisodeId) (\<lambda>_.
      bind_res (lift_q (assertWorkspaceLocator (dflt (epi_sourceLocator e) (f_source r)))) (\<lambda>loc.
      bind_res (lift_q (normalizeTemporalText ''episode summary'' 4096 (orelse (epi_summary e) (Str (f_text r))))) (\<lambda>summary.
      bind_res (assertIsoTimestamp rt ''episode observedAt'' (orelse (epi_observedAt e) (Str (f_valid_from r)))) (\<lambda>observed.
        Inr \<lparr>ep_id = eid, ep_workspace_id = f_workspace_id r, ep_scope = f_scope r, ep_source_locator = loc,
             ep_summary = summary, ep_observed_at = observed, ep_created_at = dflt (epi_createdAt e) now,
             ep_metadata = plain_or_empty (epi_metadata e)\<rparr>)))))"

section \<open>Writing\<close>

definition deterministicId :: "runtime \<Rightarrow> string \<Rightarrow> js \<Rightarrow> string" where
  "deterministicId rt prefix v = prefix @ ''_'' @ take 32 (stableHash rt v)"

text \<open>An upsert by a key: rewrite the row with the key, or append the new one.\<close>

definition upsert :: "('r \<Rightarrow> bool) \<Rightarrow> ('r \<Rightarrow> 'r) \<Rightarrow> 'r \<Rightarrow> 'r list \<Rightarrow> 'r list" where
  "upsert P f r rows = (if list_ex P rows then upd_where P f rows else rows @ [r])"

definition upsertTemporalEpisode :: "episode_row \<Rightarrow> episode_row list \<Rightarrow> episode_row list" where
  "upsertTemporalEpisode e = upsert (\<lambda>r. ep_id r = ep_id e) (\<lambda>r. e\<lparr>ep_created_at := ep_created_at r\<rparr>) e"

definition entity_id :: "runtime \<Rightarrow> string \<Rightarrow> string \<Rightarrow> string \<Rightarrow> string" where
  "entity_id rt ws scope name =
     deterministicId rt ''ment'' (Obj [(''workspaceId'', Str ws), (''scope'', Str scope), (''name'', Str name)])"

text \<open>A new row whose id is taken breaks the primary key.\<close>

definition upsertTemporalEntity ::
  "runtime \<Rightarrow> string \<Rightarrow> string \<Rightarrow> string \<Rightarrow> string \<Rightarrow> string \<Rightarrow> entity_row list \<Rightarrow>
   (fact_error, entity_row list \<times> string) result" where
  "upsertTemporalEntity rt ws scope kind name now es =
     (let eid = entity_id rt ws scope name;
          P = (\<lambda>r. et_workspace_id r = ws \<and> et_scope r = scope \<and> et_name r = name) in
      if list_ex P es then Inr (upd_where P (\<lambda>r. r\<lparr>et_kind := kind, et_updated_at := now\<rparr>) es, eid)
      else if list_ex (\<lambda>r. et_id r = eid) es then Inl ConstraintViolated
      else Inr (es @ [\<lparr>et_id = eid, et_workspace_id = ws, et_scope = scope, et_kind = kind, et_name = name,
                       et_created_at = now, et_updated_at = now\<rparr>], eid))"

text \<open>Splitting of identifiers for the full-text index; letters and digits are ASCII.\<close>

definition identifierSearchText :: "string \<Rightarrow> string" where
  "identifierSearchText text =
     (let t1 = re_replace (seqs [at_least 1 (Cls is_upper), Cls is_upper, Cls is_lower])
                 (\<lambda>m. take (length m - 2) m @ '' '' @ drop (length m - 2) m) text;
          t2 = re_replace (Seq (Cls (\<lambda>c. is_lower c \<or> is_digit c)) (Cls is_upper)) (\<lambda>m. take 1 m @ '' '' @ drop 1 m) t1;
          t3 = re_replace (at_least 1 (Cls (\<lambda>c. c \<in> {CHR '':'', CHR ''_'', CHR ''.'', CHR ''-''}))) (\<lambda>_. '' '') t2
      in text @ '' '' @ t3)"

definition temporalFactFtsText :: "string \<Rightarrow> string \<Rightarrow> string \<Rightarrow> string \<Rightarrow> string" where
  "temporalFactFtsText subject predicate object text =
     join '' '' (map identifierSearchText [subject, predicate, object, text])"

definition fact_fts :: "fact_row \<Rightarrow> fts_row" where
  "fact_fts f = \<lparr>ft_id = f_id f, ft_workspace_id = f_workspace_id f, ft_scope = f_scope f, ft_subject = f_subject f,
     ft_predicate = f_predicate f, ft_object = f_object f,
     ft_text = temporalFactFtsText (f_subject f) (f_predicate f) (f_object f) (f_text f)\<rparr>"

definition writeTemporalFact :: "fact_row \<Rightarrow> memory_db \<Rightarrow> memory_db" where
  "writeTemporalFact f db = db\<lparr>
     d_facts := upsert (\<lambda>r. f_id r = f_id f) (\<lambda>r. f\<lparr>f_created_at := f_created_at r\<rparr>) f (d_facts db),
     d_fact_fts := filter (\<lambda>r. \<not> (ft_workspace_id r = f_workspace_id f \<and> ft_id r = f_id f)) (d_fact_fts db) @ [fact_fts f]\<rparr>"

text \<open>The facts that a new fact about the same subject and predicate ends.\<close>

definition superseded_by_new :: "fact_row \<Rightarrow> fact_row \<Rightarrow> bool" where
  "superseded_by_new n r \<longleftrightarrow> f_workspace_id r = f_workspace_id n \<and> f_scope r = f_scope n \<and> f_subject r = f_subject n \<and>
     f_predicate r = f_predicate n \<and> f_id r \<noteq> f_id n \<and> f_object r \<noteq> f_object n \<and> f_superseded_by r = None \<and>
     (case f_valid_until r of None \<Rightarrow> True | Some u \<Rightarrow> f_valid_from n < u)"

definition supersede_facts :: "string \<Rightarrow> fact_row \<Rightarrow> fact_row list \<Rightarrow> fact_row list" where
  "supersede_facts now n = upd_where (superseded_by_new n)
     (\<lambda>r. r\<lparr>f_status := ''superseded'', f_valid_until := Some (f_valid_from n), f_superseded_by := Some (f_id n), f_updated_at := now\<rparr>)"

definition edge_id :: "runtime \<Rightarrow> string \<Rightarrow> string \<Rightarrow> string \<Rightarrow> string" where
  "edge_id rt ws scope fid =
     deterministicId rt ''medge'' (Obj [(''workspaceId'', Str ws), (''scope'', Str scope), (''factId'', Str fid)])"

text \<open>The edge of a fact; its end points and the fact have to exist.\<close>

definition write_edge ::
  "runtime \<Rightarrow> string \<Rightarrow> fact_row \<Rightarrow> string \<Rightarrow> string \<Rightarrow> entity_row list \<Rightarrow> edge_row list \<Rightarrow> (fact_error, edge_row list) result" where
  "write_edge rt now f src tgt es edges =
     (let eid = edge_id rt (f_workspace_id f) (f_scope f) (f_id f);
          P = (\<lambda>e. ed_workspace_id e = f_workspace_id f \<and> ed_scope e = f_scope f \<and> ed_fact_id e = f_id f) in
      if \<not> (list_ex (\<lambda>r. et_id r = src) es \<and> list_ex (\<lambda>r. et_id r = tgt) es) then Inl ConstraintViolated
      else if list_ex P edges
      then Inr (upd_where P (\<lambda>e. e\<lparr>ed_source := src, ed_target := tgt, ed_predicate := f_predicate f\<rparr>) edges)
      else if list_ex (\<lambda>e. ed_id e = eid) edges then Inl ConstraintViolated
      else Inr (edges @ [\<lparr>ed_id = eid, ed_workspace_id = f_workspace_id f, ed_scope = f_scope f, ed_source = src,
                          ed_target = tgt, ed_predicate = f_predicate f, ed_fact_id = f_id f, ed_created_at = now\<rparr>]))"

text \<open>The transaction body. \<open>Inl\<close> rolls everything back.\<close>

definition materializeTemporalFact ::
  "runtime \<Rightarrow> string \<Rightarrow> string \<Rightarrow> fact \<Rightarrow> memory_db \<Rightarrow> (fact_error, memory_db \<times> fact_row) result" where
  "materializeTemporalFact rt fresh now n db =
     bind_res (normalizeTemporalEpisodeInput rt fresh now (n_episode n) n) (\<lambda>ep.
       let f = (n_row n)\<lparr>f_episode_id := ep_id ep\<rparr> in
     bind_res (upsertTemporalEntity rt (f_workspace_id f) (f_scope f) ''subject'' (f_subject f) now (d_entities db)) (\<lambda>(es1, src).
     bind_res (upsertTemporalEntity rt (f_workspace_id f) (f_scope f) ''object'' (f_object f) now es1) (\<lambda>(es2, tgt).
       let facts = (if n_supersede n then supersede_facts now f (d_facts db) else d_facts db);
           db1 = writeTemporalFact f (db\<lparr>d_episodes := upsertTemporalEpisode ep (d_episodes db), d_entities := es2, d_facts := facts\<rparr>) in
     bind_res (write_edge rt now f src tgt es2 (d_edges db)) (\<lambda>edges.
       Inr (db1\<lparr>d_edges := edges\<rparr>,
            case List.find (\<lambda>r. f_workspace_id r = f_workspace_id f \<and> f_id r = f_id f) (d_facts db1) of Some r \<Rightarrow> r | None \<Rightarrow> f)))))"

section \<open>The proposal gate\<close>

definition fact_payload :: "fact_row \<Rightarrow> js" where
  "fact_payload f = Obj [(''scope'', Str (f_scope f)), (''subject'', Str (f_subject f)), (''predicate'', Str (f_predicate f)),
     (''object'', Str (f_object f))]"

definition assertProposalPayloadMatches :: "runtime \<Rightarrow> queue_row \<Rightarrow> fact_row \<Rightarrow> (fact_error, unit) result" where
  "assertProposalPayloadMatches rt proposal f =
     (let payload = q_payload proposal; fp = get payload ''factFingerprint'' in
      if truthy fp
      then bind_res (lift_q (factProposalFingerprint rt (fact_payload f) (f_source f))) (\<lambda>x. require (fp = Str x) FactMismatch)
      else require (get payload ''kind'' = Str ''fact'' \<and> get payload ''subject'' = Str (f_subject f) \<and>
             get payload ''predicate'' = Str (f_predicate f) \<and> get payload ''object'' = Str (f_object f) \<and>
             orelse (get payload ''scope'') (Str ''workspace'') = Str (f_scope f) \<and>
             q_source_locator proposal = f_source f) FactMismatch)"

definition assertAppliedProposal :: "runtime \<Rightarrow> queue \<Rightarrow> fact \<Rightarrow> (fact_error, unit) result" where
  "assertAppliedProposal rt q n =
     (case n_proposalQueueId n of
        None \<Rightarrow> Inl GateNotApplied
      | Some pid \<Rightarrow>
          if pid = [] then Inl GateNotApplied
          else case List.find (row_at (f_workspace_id (n_row n)) pid) q of
            None \<Rightarrow> Inl GateNotApplied
          | Some row \<Rightarrow>
              if q_status row \<noteq> Applied then Inl GateNotApplied
              else assertProposalPayloadMatches rt (rowToQueueRecord rt row) (n_row n))"

definition addTemporalFact ::
  "runtime \<Rightarrow> string \<Rightarrow> string \<Rightarrow> string \<Rightarrow> fact_input \<Rightarrow> memory_db \<Rightarrow> memory_db \<times> (fact_error, fact_row) result" where
  "addTemporalFact rt fresh freshEp now i db =
     (case bind_res (normalizeTemporalFactInput rt fresh now i) (\<lambda>n.
             bind_res (require (f_status (n_row n) = ''active'') NotActiveStatus) (\<lambda>_.
             bind_res (assertAppliedProposal rt (d_queue db) n) (\<lambda>_.
               materializeTemporalFact rt freshEp now n db))) of
        Inl e \<Rightarrow> (db, Inl e)
      | Inr (db', f) \<Rightarrow> (db', Inr f))"

section \<open>Review\<close>

definition strip_mpq :: "string \<Rightarrow> string" where
  "strip_mpq i = (if starts_with ''mpq_'' i then drop 4 i else i)"

definition factIdFromProposalId :: "string \<Rightarrow> string" where
  "factIdFromProposalId i = ''memfact_'' @ take 128 (strip_mpq i)"

definition episodeIdFromProposalId :: "string \<Rightarrow> string" where
  "episodeIdFromProposalId i = ''mep_'' @ take 128 (strip_mpq i)"

definition approval_confidence :: "js \<Rightarrow> string \<times> rat" where
  "approval_confidence v =
     (if v = Str ''inferred'' then (''inferred'', 6/10) else if v = Str ''ambiguous'' then (''ambiguous'', 3/10)
      else (''extracted'', 9/10))"

text \<open>The fact an approval writes, from the claimed proposal.\<close>

definition approval_input :: "runtime \<Rightarrow> string \<Rightarrow> string \<Rightarrow> string \<Rightarrow> queue_row \<Rightarrow> fact_input" where
  "approval_input rt now ws i claimed =
     (let payload = q_payload claimed;
          (extraction, confidence) = approval_confidence (get payload ''extractionConfidence'');
          text = (if truthy (get payload ''text'') then get payload ''text''
                  else Str (js_to_string rt (get payload ''subject'') @ '' '' @ js_to_string rt (get payload ''predicate'') @ '' '' @
                            js_to_string rt (get payload ''object'')));
          observed = orelse (get payload ''observedAt'') (Str now)
      in \<lparr>fi_id = Some (factIdFromProposalId i), fi_workspaceId = Str ws,
          fi_scope = orelse (get payload ''scope'') (Str ''workspace''), fi_subject = get payload ''subject'',
          fi_predicate = get payload ''predicate'', fi_object = get payload ''object'', fi_text = text, fi_status = None,
          fi_source = q_source_locator claimed, fi_confidence = Some confidence, fi_validFrom = observed, fi_validUntil = Undef,
          fi_supersededBy = None, fi_episodeId = None, fi_proposalQueueId = Some i, fi_createdAt = None, fi_updatedAt = None,
          fi_supersedeSubjectPredicate = (get payload ''supersedesSubjectPredicate'' = Bool True),
          fi_metadata = Obj [(''approvedBy'', Str ''oaf memory approve''), (''approvedAt'', Str now),
            (''sourceHash'', Str (q_source_hash claimed)), (''extractionConfidence'', Str extraction),
            (''notes'', orelse (get payload ''notes'') Null)],
          fi_episode = Some \<lparr>epi_id = Some (if nullish (get payload ''provenanceEpisodeId'') then episodeIdFromProposalId i
              else js_to_string rt (get payload ''provenanceEpisodeId'')),
            epi_sourceLocator = Some (q_source_locator claimed), epi_summary = text, epi_observedAt = observed,
            epi_createdAt = None, epi_metadata = Undef\<rparr>\<rparr>)"

text \<open>The second transaction of an approval: the claim is still the reviewer's, the fact is
  written, the proposal becomes applied; or nothing happens.\<close>

definition approve_commit ::
  "runtime \<Rightarrow> string \<Rightarrow> string \<Rightarrow> string \<Rightarrow> string \<Rightarrow> string \<Rightarrow> string \<Rightarrow> fact \<Rightarrow> memory_db \<Rightarrow> memory_db \<times> (fact_error, fact_row) result" where
  "approve_commit rt freshEp clock now ws i worker n db =
     (case bind_res (lift_q (applyApproved rt now ws i worker (d_queue db))) (\<lambda>q'.
             bind_res (materializeTemporalFact rt freshEp clock n db) (\<lambda>(db', f). Inr (db'\<lparr>d_queue := q'\<rparr>, f))) of
        Inl e \<Rightarrow> (db, Inl e)
      | Inr (db', f) \<Rightarrow> (db', Inr f))"

text \<open>\<open>t1\<close>, \<open>t2\<close>: the clock at the claim and afterwards; \<open>now\<close> is \<open>approvedAt\<close> or the clock at the start.\<close>

definition approveProposalFact ::
  "runtime \<Rightarrow> string \<Rightarrow> string \<Rightarrow> string \<Rightarrow> string \<Rightarrow> string \<Rightarrow> string \<Rightarrow> string \<Rightarrow> string \<Rightarrow> memory_db \<Rightarrow>
   memory_db \<times> (fact_error, fact_row) result" where
  "approveProposalFact rt fresh freshEp now t1 t2 ws i worker db =
     (case lease_end rt now None of
        Inl e \<Rightarrow> (db, Inl (QueueError e))
      | Inr leaseUntil \<Rightarrow>
          case claimProposalById rt t1 ws i worker (Some leaseUntil) (d_queue db) of
            (q1, Inl e) \<Rightarrow> (db\<lparr>d_queue := q1\<rparr>, Inl (QueueError e))
          | (q1, Inr claimed) \<Rightarrow>
              let db1 = db\<lparr>d_queue := q1\<rparr> in
              if get (q_payload claimed) ''kind'' \<noteq> Str ''fact''
              then case recordProposalResult rt t2 ws i worker (Some Poison) Null
                     (Obj [(''code'', Str ''unsupported_proposal''), (''message'', Str ''memory approve only supports fact proposals'')])
                     False q1 of
                     (q2, Inl e) \<Rightarrow> (db1\<lparr>d_queue := q2\<rparr>, Inl (QueueError e))
                   | (q2, Inr _) \<Rightarrow> (db1\<lparr>d_queue := q2\<rparr>, Inl UnsupportedProposal)
              else case normalizeTemporalFactInput rt fresh t2 (approval_input rt now ws i claimed) of
                Inl e \<Rightarrow> (db1, Inl e)
              | Inr n \<Rightarrow> approve_commit rt freshEp t2 now ws i worker n db1)"

definition rejectProposal ::
  "runtime \<Rightarrow> string \<Rightarrow> string \<Rightarrow> string \<Rightarrow> string \<Rightarrow> string \<Rightarrow> string \<Rightarrow> string \<Rightarrow> queue \<Rightarrow> queue \<times> (queue_error, queue_row \<times> queue_row) result" where
  "rejectProposal rt now t1 t2 ws i worker reason q =
     (case lease_end rt now None of
        Inl e \<Rightarrow> (q, Inl e)
      | Inr leaseUntil \<Rightarrow>
          case claimProposalById rt t1 ws i worker (Some leaseUntil) q of
            (q1, Inl e) \<Rightarrow> (q1, Inl e)
          | (q1, Inr claimed) \<Rightarrow>
              case recordProposalResult rt t2 ws i worker (Some Applied)
                     (Obj [(''accepted'', Bool False), (''command'', Str ''memory reject''), (''rejectedAt'', Str now), (''reason'', Str reason)])
                     Null False q1 of
                (q2, Inl e) \<Rightarrow> (q2, Inl e)
              | (q2, Inr proposal) \<Rightarrow> (q2, Inr (proposal, claimed)))"

section \<open>Queries\<close>

text \<open>SQLite's full-text engine: whether an expression matches an indexed row, and its rank.\<close>

record fts_engine =
  fts_match :: "string \<Rightarrow> fts_row \<Rightarrow> bool"
  bm25 :: "string \<Rightarrow> fts_row \<Rightarrow> rat"

definition tokenizeQuery :: "runtime \<Rightarrow> string \<Rightarrow> string list" where
  "tokenizeQuery rt v = take 24 (nub (re_match_all (at_least 1 (Cls is_alnum)) (to_lower rt (identifierSearchText v))))"

text \<open>Tokens are alphanumeric, so there is no quote to double.\<close>

definition ftsExpression :: "runtime \<Rightarrow> string \<Rightarrow> string option" where
  "ftsExpression rt query =
     (let tokens = tokenizeQuery rt query in
      if tokens = [] then None
      else Some (join '' OR '' (map (\<lambda>t. [CHR 0x22] @ t @ [CHR 0x22] @ ''*'') tokens)))"

definition valid_at :: "string \<Rightarrow> fact_row \<Rightarrow> bool" where
  "valid_at t r \<longleftrightarrow> f_status r \<in> {''active'', ''superseded''} \<and> f_valid_from r \<le> t \<and>
     (case f_valid_until r of None \<Rightarrow> True | Some u \<Rightarrow> t < u)"

definition in_scope :: "string \<Rightarrow> string \<Rightarrow> fact_row \<Rightarrow> bool" where
  "in_scope ws scope r \<longleftrightarrow> f_workspace_id r = ws \<and> f_scope r = scope"

definition temporalFactFromRow :: "memory_db \<Rightarrow> fact_row \<Rightarrow> fact_row \<times> episode_row option" where
  "temporalFactFromRow db r =
     (r, if f_episode_id r = [] then None
         else List.find (\<lambda>e. ep_workspace_id e = f_workspace_id r \<and> ep_id e = f_episode_id r) (d_episodes db))"

text \<open>The rows of the index that match, joined with their facts, with rank.\<close>

definition fts_join :: "fts_engine \<Rightarrow> string \<Rightarrow> memory_db \<Rightarrow> (fact_row \<times> rat) list" where
  "fts_join fts expr db =
     concat (map (\<lambda>x. map (\<lambda>m. (m, bm25 fts expr x))
               (filter (\<lambda>m. f_id m = ft_id x \<and> f_workspace_id m = ft_workspace_id x) (d_facts db)))
       (filter (fts_match fts expr) (d_fact_fts db)))"

definition newest_le :: "fact_row \<Rightarrow> fact_row \<Rightarrow> bool" where
  "newest_le a b \<longleftrightarrow> f_valid_from b < f_valid_from a \<or> (f_valid_from a = f_valid_from b \<and> f_id a \<le> f_id b)"

definition ranked_le :: "fact_row \<times> rat \<Rightarrow> fact_row \<times> rat \<Rightarrow> bool" where
  "ranked_le a b \<longleftrightarrow> snd a < snd b \<or> (snd a = snd b \<and> newest_le (fst a) (fst b))"

definition getTemporalFacts ::
  "runtime \<Rightarrow> fts_engine \<Rightarrow> string \<Rightarrow> js \<Rightarrow> string \<Rightarrow> string \<Rightarrow> string \<Rightarrow> string \<Rightarrow> int option \<Rightarrow> memory_db \<Rightarrow>
   (fact_error, (fact_row \<times> episode_row option) list) result" where
  "getTemporalFacts rt fts ws scope subject predicate t query limit db =
     (if ws = [] then Inl WorkspaceMissing
      else bind_res (lift_q (normalizeTemporalScope scope)) (\<lambda>sc.
        let cond = (\<lambda>m. in_scope ws sc m \<and> valid_at t m \<and> (subject = [] \<or> f_subject m = subject) \<and>
                        (predicate = [] \<or> f_predicate m = predicate));
            n = bounded_limit 100 20 limit;
            rows = (case ftsExpression rt query of
                      Some expr \<Rightarrow> map fst (take n (order_by ranked_le (filter (\<lambda>(m, _). cond m) (fts_join fts expr db))))
                    | None \<Rightarrow> take n (order_by newest_le (filter cond (d_facts db))))
        in Inr (map (temporalFactFromRow db) rows)))"

definition history_le :: "fact_row \<Rightarrow> fact_row \<Rightarrow> bool" where
  "history_le a b \<longleftrightarrow> f_valid_from a < f_valid_from b \<or> (f_valid_from a = f_valid_from b \<and>
     (f_created_at a < f_created_at b \<or> (f_created_at a = f_created_at b \<and> f_id a \<le> f_id b)))"

definition getTemporalFactHistory ::
  "string \<Rightarrow> js \<Rightarrow> string \<Rightarrow> string \<Rightarrow> int option \<Rightarrow> memory_db \<Rightarrow> (fact_error, (fact_row \<times> episode_row option) list) result" where
  "getTemporalFactHistory ws scope subject predicate limit db =
     (if ws = [] then Inl WorkspaceMissing
      else if subject = [] \<or> predicate = [] then Inl SubjectPredicateRequired
      else bind_res (lift_q (normalizeTemporalScope scope)) (\<lambda>sc.
        Inr (map (temporalFactFromRow db) (take (bounded_limit 200 50 limit) (order_by history_le
          (filter (\<lambda>m. in_scope ws sc m \<and> f_subject m = subject \<and> f_predicate m = predicate) (d_facts db)))))))"

definition list_le :: "fact_row \<Rightarrow> fact_row \<Rightarrow> bool" where
  "list_le a b \<longleftrightarrow> f_valid_from b < f_valid_from a \<or> (f_valid_from a = f_valid_from b \<and>
     (f_created_at b < f_created_at a \<or> (f_created_at a = f_created_at b \<and> f_id a \<le> f_id b)))"

definition listTemporalFacts :: "string \<Rightarrow> js \<Rightarrow> int option \<Rightarrow> memory_db \<Rightarrow> (fact_error, (fact_row \<times> episode_row option) list) result" where
  "listTemporalFacts ws scope limit db =
     (if ws = [] then Inl WorkspaceMissing
      else bind_res (lift_q (normalizeTemporalScope scope)) (\<lambda>sc.
        Inr (map (temporalFactFromRow db) (take (bounded_limit 500 100 limit) (order_by list_le (filter (in_scope ws sc) (d_facts db)))))))"

subsection \<open>Search\<close>

definition validTemporalFactRows :: "string \<Rightarrow> string \<Rightarrow> string \<Rightarrow> memory_db \<Rightarrow> fact_row list" where
  "validTemporalFactRows ws scope t db = filter (\<lambda>r. in_scope ws scope r \<and> valid_at t r) (d_facts db)"

text \<open>The map from fact ids to scores; later entries of an id win.\<close>

definition ftsTemporalMatches :: "runtime \<Rightarrow> fts_engine \<Rightarrow> string \<Rightarrow> string \<Rightarrow> string \<Rightarrow> string \<Rightarrow> nat \<Rightarrow> memory_db \<Rightarrow> (string \<times> rat) list" where
  "ftsTemporalMatches rt fts ws scope query t limit db =
     (case ftsExpression rt query of
        None \<Rightarrow> []
      | Some expr \<Rightarrow>
          map (\<lambda>(m, rank). (f_id m, 1 / (1 + \<bar>rank\<bar>)))
            (take limit (order_by ranked_le (filter (\<lambda>(m, _). in_scope ws scope m \<and> valid_at t m) (fts_join fts expr db)))))"

definition relatedTemporalFactIds :: "fact_row list \<Rightarrow> fact_row list \<Rightarrow> string list" where
  "relatedTemporalFactIds rows seedRows =
     (let subjects = f_subject ` set seedRows; objects = f_object ` set seedRows in
      map f_id (filter (\<lambda>r. f_subject r \<in> subjects \<or> f_object r \<in> subjects \<or> f_subject r \<in> objects \<or> f_object r \<in> objects) rows))"

definition temporalFactLexicalScore :: "runtime \<Rightarrow> fact_row \<Rightarrow> string \<Rightarrow> rat" where
  "temporalFactLexicalScore rt f query =
     (let tokens = tokenizeQuery rt query;
          rawQuery = to_lower rt (trim query);
          rawHaystack = to_lower rt (join '' '' [f_subject f, f_predicate f, f_object f, f_text f]);
          haystack = to_lower rt (temporalFactFtsText (f_subject f) (f_predicate f) (f_object f) (f_text f));
          matched = length (filter (\<lambda>t. some_suffix (starts_with t) haystack) tokens)
      in if tokens = [] then 0
         else if rawQuery \<noteq> [] \<and> some_suffix (starts_with rawQuery) rawHaystack then 1
         else if matched = length tokens then 9/10
         else if matched \<noteq> 0 then 9/10 * (rat_of_nat matched / rat_of_nat (length tokens)) else 0)"

definition temporalRank :: "runtime \<Rightarrow> string \<Rightarrow> string \<Rightarrow> rat option" where
  "temporalRank rt validFrom t =
     (case (date_parse rt t, date_parse rt validFrom) of
        (Some a, Some v) \<Rightarrow> Some (1 / (1 + rat_of_int (max 0 (a - v)) / 86400000))
      | _ \<Rightarrow> None)"

record ranking =
  rk_score :: "rat option"
  rk_fts5 :: rat
  rk_graph :: rat
  rk_temporal :: "rat option"

definition score_fact :: "runtime \<Rightarrow> string \<Rightarrow> string \<Rightarrow> (string \<times> rat) list \<Rightarrow> string list \<Rightarrow> fact_row \<Rightarrow> ranking" where
  "score_fact rt query t ftsScores relatedIds r =
     (let lexical = temporalFactLexicalScore rt r query;
          fts5 = max lexical ((case map_of (rev ftsScores) (f_id r) of None \<Rightarrow> 0 | Some s \<Rightarrow> s) * (4/10));
          graph = (if 0 < fts5 then 2/10 else if f_id r \<in> set relatedIds then 4/10 else 0);
          temporal = temporalRank rt (f_valid_from r) t
      in \<lparr>rk_score = map_option (\<lambda>tm. fts5 * (7/10) + graph * (2/10) + tm * (1/10)) temporal,
          rk_fts5 = fts5, rk_graph = graph, rk_temporal = temporal\<rparr>)"

definition search_le :: "runtime \<Rightarrow> fact_row \<times> ranking \<Rightarrow> fact_row \<times> ranking \<Rightarrow> bool" where
  "search_le rt a b =
     (let tie = (let c = locale_compare rt (f_valid_from (fst b)) (f_valid_from (fst a)) in
                 if c \<noteq> 0 then c < 0 else locale_compare rt (f_id (fst a)) (f_id (fst b)) \<le> 0) in
      case (rk_score (snd a), rk_score (snd b)) of
        (Some x, Some y) \<Rightarrow> if x \<noteq> y then y < x else tie
      | _ \<Rightarrow> tie)"

definition searchTemporalMemory ::
  "runtime \<Rightarrow> fts_engine \<Rightarrow> string \<Rightarrow> js \<Rightarrow> string \<Rightarrow> string \<Rightarrow> int option \<Rightarrow> memory_db \<Rightarrow>
   (fact_error, ((fact_row \<times> episode_row option) \<times> ranking) list) result" where
  "searchTemporalMemory rt fts ws scope query t limit db =
     (if ws = [] then Inl WorkspaceMissing
      else bind_res (lift_q (normalizeTemporalScope scope)) (\<lambda>sc.
        let n = bounded_limit 100 10 limit;
            rows = validTemporalFactRows ws sc t db;
            ftsScores = ftsTemporalMatches rt fts ws sc query t (max n 25) db;
            seedRows = filter (\<lambda>r. f_id r \<in> fst ` set ftsScores) rows;
            relatedIds = relatedTemporalFactIds rows seedRows;
            scored = filter (\<lambda>(r, k). 0 < rk_fts5 k \<or> 0 < rk_graph k)
                       (map (\<lambda>r. (r, score_fact rt query t ftsScores relatedIds r)) rows)
        in Inr (map (\<lambda>(r, k). (temporalFactFromRow db r, k)) (take n (order_by (search_le rt) scored)))))"

section \<open>The provider as a machine\<close>

text \<open>
  Queue calls, direct additions and the committing part of an approval, which works on a
  proposal claimed earlier. An approval is its claim followed by the commit, a rejection its
  claim followed by the result, with anything in between.
\<close>

datatype memory_op =
    QueueCall queue_op
  | AddFact string string fact_input
  | CommitApproval string string string string string string queue_row

fun exec_memory :: "runtime \<Rightarrow> string \<Rightarrow> memory_op \<Rightarrow> memory_db \<Rightarrow> memory_db" where
  "exec_memory rt now (QueueCall op) db = db\<lparr>d_queue := fst (exec_queue rt now op (d_queue db))\<rparr>"
| "exec_memory rt now (AddFact fresh freshEp i) db = fst (addTemporalFact rt fresh freshEp now i db)"
| "exec_memory rt now (CommitApproval fresh freshEp approvedAt ws i worker claimed) db =
     (case normalizeTemporalFactInput rt fresh now (approval_input rt approvedAt ws i claimed) of
        Inl e \<Rightarrow> db
      | Inr n \<Rightarrow> fst (approve_commit rt freshEp now approvedAt ws i worker n db))"

definition run_memory :: "runtime \<Rightarrow> (string \<times> memory_op) list \<Rightarrow> memory_db \<Rightarrow> memory_db" where
  "run_memory rt ops db = foldl (\<lambda>d (now, op). exec_memory rt now op d) db ops"

definition memory_step :: "runtime \<Rightarrow> memory_db \<Rightarrow> memory_db \<Rightarrow> bool" where
  "memory_step rt db db' \<longleftrightarrow> (\<exists>now op. db' = exec_memory rt now op db)"

text \<open>An approval and a rejection are runs of the machine.\<close>

lemma reject_is_run:
  "\<exists>ops. db\<lparr>d_queue := fst (rejectProposal rt now t1 t2 ws i worker reason (d_queue db))\<rparr> = run_memory rt ops db"
proof (cases "lease_end rt now None")
  case (Inl e)
  then show ?thesis by (intro exI [of _ "[]"]) (simp add: rejectProposal_def run_memory_def)
next
  case (Inr lu)
  let ?c = "(t1, QueueCall (ClaimById ws i worker (Some lu)))"
  let ?res = "Obj [(''accepted'', Bool False), (''command'', Str ''memory reject''), (''rejectedAt'', Str now), (''reason'', Str reason)]"
  let ?r = "(t2, QueueCall (Record ws i worker (Some Applied) ?res Null False))"
  obtain q1 o1 where c: "claimProposalById rt t1 ws i worker (Some lu) (d_queue db) = (q1, o1)" by fastforce
  show ?thesis
  proof (cases o1)
    case (Inl e)
    then show ?thesis
      using Inr c by (intro exI [of _ "[?c]"]) (simp add: rejectProposal_def run_memory_def)
  next
    case o1: (Inr claimed)
    show ?thesis
      using Inr c o1 by (intro exI [of _ "[?c, ?r]"]) (auto simp: rejectProposal_def run_memory_def split: prod.splits sum.splits)
  qed
qed

lemma approve_is_run:
  "\<exists>ops. fst (approveProposalFact rt fresh freshEp now t1 t2 ws i worker db) = run_memory rt ops db"
proof (cases "lease_end rt now None")
  case (Inl e)
  then show ?thesis by (intro exI [of _ "[]"]) (simp add: approveProposalFact_def run_memory_def)
next
  case (Inr lu)
  let ?c = "(t1, QueueCall (ClaimById ws i worker (Some lu)))"
  let ?err = "Obj [(''code'', Str ''unsupported_proposal''), (''message'', Str ''memory approve only supports fact proposals'')]"
  let ?p = "(t2, QueueCall (Record ws i worker (Some Poison) Null ?err False))"
  obtain q1 o1 where c: "claimProposalById rt t1 ws i worker (Some lu) (d_queue db) = (q1, o1)" by fastforce
  show ?thesis
  proof (cases o1)
    case (Inl e)
    then show ?thesis
      using Inr c by (intro exI [of _ "[?c]"]) (simp add: approveProposalFact_def run_memory_def)
  next
    case o1: (Inr claimed)
    show ?thesis
    proof (cases "get (q_payload claimed) ''kind'' = Str ''fact''")
      case True
      then show ?thesis
        using Inr c o1
        by (intro exI [of _ "[?c, (t2, CommitApproval fresh freshEp now ws i worker claimed)]"])
           (auto simp: approveProposalFact_def run_memory_def Let_def split: sum.splits)
    next
      case False
      then show ?thesis
        using Inr c o1 by (intro exI [of _ "[?c, ?p]"])
           (auto simp: approveProposalFact_def run_memory_def Let_def split: prod.splits sum.splits)
    qed
  qed
qed

section \<open>What a materialisation writes\<close>

text \<open>Facts that say the same, whatever their validity.\<close>

definition same_fact :: "fact_row \<Rightarrow> fact_row \<Rightarrow> bool" where
  "same_fact a b \<longleftrightarrow> f_id a = f_id b \<and> f_workspace_id a = f_workspace_id b \<and> f_scope a = f_scope b \<and>
     f_subject a = f_subject b \<and> f_predicate a = f_predicate b \<and> f_object a = f_object b \<and>
     f_proposal_queue_id a = f_proposal_queue_id b"

lemma in_upsert:
  "x \<in> set (upsert P f r rows) \<Longrightarrow> (x \<in> set rows \<and> \<not> P x) \<or> (\<exists>y \<in> set rows. P y \<and> x = f y) \<or> (x = r \<and> \<not> list_ex P rows)"
  by (auto simp: upsert_def in_upd_where list_ex_iff split: if_splits)

lemma upsert_in: "list_ex P rows \<Longrightarrow> \<exists>y \<in> set rows. P y \<and> f y \<in> set (upsert P f r rows)"
  by (auto simp: upsert_def in_upd_where list_ex_iff)

lemma materialize_Inr:
  assumes "materializeTemporalFact rt fresh now n db = Inr (db', r)"
  obtains ep f es1 es2 src tgt edges where "normalizeTemporalEpisodeInput rt fresh now (n_episode n) n = Inr ep"
    "f = (n_row n)\<lparr>f_episode_id := ep_id ep\<rparr>"
    "upsertTemporalEntity rt (f_workspace_id f) (f_scope f) ''subject'' (f_subject f) now (d_entities db) = Inr (es1, src)"
    "upsertTemporalEntity rt (f_workspace_id f) (f_scope f) ''object'' (f_object f) now es1 = Inr (es2, tgt)"
    "write_edge rt now f src tgt es2 (d_edges db) = Inr edges"
    "db' = (writeTemporalFact f (db\<lparr>d_episodes := upsertTemporalEpisode ep (d_episodes db), d_entities := es2,
       d_facts := (if n_supersede n then supersede_facts now f (d_facts db) else d_facts db)\<rparr>))\<lparr>d_edges := edges\<rparr>"
    "r = (case List.find (\<lambda>r. f_workspace_id r = f_workspace_id f \<and> f_id r = f_id f) (d_facts db') of Some r \<Rightarrow> r | None \<Rightarrow> f)"
  using assms unfolding materializeTemporalFact_def
  by (auto simp: bind_res_eq_Inr Let_def split: prod.splits)

lemma materialize_queue: "materializeTemporalFact rt fresh now n db = Inr (db', r) \<Longrightarrow> d_queue db' = d_queue db"
  by (erule materialize_Inr) (simp add: writeTemporalFact_def)

lemma in_supersede:
  "x \<in> set (if b then supersede_facts now f rows else rows) \<Longrightarrow> \<exists>y \<in> set rows. same_fact y x"
  by (auto simp: supersede_facts_def in_upd_where same_fact_def split: if_splits)

text \<open>Every fact afterwards is the new one or one that was there with another id.\<close>

lemma materialize_facts:
  assumes "materializeTemporalFact rt fresh now n db = Inr (db', r)" and "x \<in> set (d_facts db')"
  shows "same_fact (n_row n) x \<or> (f_id x \<noteq> f_id (n_row n) \<and> (\<exists>y \<in> set (d_facts db). same_fact y x))"
  using assms(1)
proof (rule materialize_Inr)
  fix ep f es2 edges
  assume f: "f = (n_row n)\<lparr>f_episode_id := ep_id ep\<rparr>"
    and db': "db' = (writeTemporalFact f (db\<lparr>d_episodes := upsertTemporalEpisode ep (d_episodes db), d_entities := es2,
       d_facts := (if n_supersede n then supersede_facts now f (d_facts db) else d_facts db)\<rparr>))\<lparr>d_edges := edges\<rparr>"
  let ?rows = "if n_supersede n then supersede_facts now f (d_facts db) else d_facts db"
  have "x \<in> set (upsert (\<lambda>r. f_id r = f_id f) (\<lambda>r. f\<lparr>f_created_at := f_created_at r\<rparr>) f ?rows)"
    using assms(2) db' by (simp add: writeTemporalFact_def)
  from in_upsert [OF this] have "(x \<in> set ?rows \<and> f_id x \<noteq> f_id f) \<or> same_fact (n_row n) x"
    by (auto simp: f same_fact_def)
  then show ?thesis using in_supersede [of x "n_supersede n" now f "d_facts db"] by (auto simp: f)
qed

section \<open>The gate invariant\<close>

definition approved_in :: "queue \<Rightarrow> fact_row \<Rightarrow> bool" where
  "approved_in q f \<longleftrightarrow> (\<exists>r \<in> set q. row_at (f_workspace_id f) (f_proposal_queue_id f) r \<and> q_status r = Applied)"

definition gate_inv :: "memory_db \<Rightarrow> bool" where
  "gate_inv db \<longleftrightarrow> queue_inv (d_queue db) \<and> (\<forall>f \<in> set (d_facts db). approved_in (d_queue db) f)"

lemma approved_same_fact: "same_fact a b \<Longrightarrow> approved_in q a \<Longrightarrow> approved_in q b"
  by (simp add: same_fact_def approved_in_def)

lemma approved_exec:
  assumes "queue_inv q" and "approved_in q f"
  shows "approved_in (fst (exec_queue rt now op q)) f"
proof -
  obtain r where r: "r \<in> set q" "row_at (f_workspace_id f) (f_proposal_queue_id f) r" "q_status r = Applied"
    using assms(2) by (auto simp: approved_in_def)
  from settled_step [OF assms(1) r(1), of rt now op] r(3) obtain r' where
    "r' \<in> set (fst (exec_queue rt now op q))" "same_identity r r'" "q_status r' = Applied" by auto
  then show ?thesis using r(2) by (auto simp: approved_in_def same_identity_def)
qed

lemma materialize_gate:
  assumes "materializeTemporalFact rt fresh now n db = Inr (db', r)" and "gate_inv db"
    and "queue_inv q'" and "\<And>f. approved_in (d_queue db) f \<Longrightarrow> approved_in q' f" and "approved_in q' (n_row n)"
  shows "gate_inv (db'\<lparr>d_queue := q'\<rparr>)"
  unfolding gate_inv_def
proof (intro conjI ballI)
  fix x assume "x \<in> set (d_facts (db'\<lparr>d_queue := q'\<rparr>))"
  then show "approved_in (d_queue (db'\<lparr>d_queue := q'\<rparr>)) x"
    using materialize_facts [OF assms(1), of x] assms(2,4,5) approved_same_fact by (auto simp: gate_inv_def)
qed (simp add: assms(3))

lemma normalize_fields:
  assumes "normalizeTemporalFactInput rt fresh now i = Inr n"
  shows "n_proposalQueueId n = fi_proposalQueueId i \<and> f_proposal_queue_id (n_row n) = dflt (fi_proposalQueueId i) [] \<and>
    Str (f_workspace_id (n_row n)) = fi_workspaceId i \<and> n_supersede n = fi_supersedeSubjectPredicate i"
  using assms
  by (auto simp: normalizeTemporalFactInput_def Let_def bind_res_eq_Inr normalizeTemporalText_def split: js.splits if_splits)

lemma gate_admits:
  assumes "assertAppliedProposal rt q n = Inr u" and "f_proposal_queue_id (n_row n) = dflt (n_proposalQueueId n) []"
  shows "approved_in q (n_row n)"
  using assms by (auto simp: assertAppliedProposal_def approved_in_def dest!: find_SomeD split: option.splits if_splits)

lemma add_Inr:
  assumes "snd (addTemporalFact rt fresh freshEp now i db) = Inr f"
  obtains n db' where "normalizeTemporalFactInput rt fresh now i = Inr n" "assertAppliedProposal rt (d_queue db) n = Inr ()"
    "materializeTemporalFact rt freshEp now n db = Inr (db', f)" "fst (addTemporalFact rt fresh freshEp now i db) = db'"
proof (cases "normalizeTemporalFactInput rt fresh now i")
  case (Inr n)
  then show ?thesis
    using assms that [of n]
    by (auto simp: addTemporalFact_def bind_res_eq_Inr require_def split: sum.splits prod.splits if_splits)
qed (use assms in \<open>simp add: addTemporalFact_def\<close>)

lemma add_gate:
  assumes "gate_inv db"
  shows "gate_inv (fst (addTemporalFact rt fresh freshEp now i db))"
proof (cases "snd (addTemporalFact rt fresh freshEp now i db)")
  case (Inl e)
  then show ?thesis using assms by (auto simp: addTemporalFact_def split: sum.splits prod.splits)
next
  case (Inr f)
  then obtain n db' where n: "normalizeTemporalFactInput rt fresh now i = Inr n"
    and gate: "assertAppliedProposal rt (d_queue db) n = Inr ()"
    and m: "materializeTemporalFact rt freshEp now n db = Inr (db', f)" and fst: "fst (addTemporalFact rt fresh freshEp now i db) = db'"
    by (rule add_Inr)
  have "gate_inv (db'\<lparr>d_queue := d_queue db\<rparr>)"
    using materialize_gate [OF m assms] gate_admits [OF gate] normalize_fields [OF n] assms by (simp add: gate_inv_def)
  then show ?thesis using materialize_queue [OF m] fst by (metis (lifting) memory_db.surjective memory_db.update_convs(1))
qed

lemma applied_approves:
  assumes "applyApproved rt now ws i worker q = Inr q'" and "f_workspace_id f = ws" and "f_proposal_queue_id f = i"
  shows "approved_in q' f"
proof -
  obtain c where c: "List.find (row_at ws i) q = Some c"
    using assms(1) by (auto simp: applyApproved_def split: option.splits)
  let ?upd = "\<lambda>r. r\<lparr>q_status := Applied, q_lease_owner := None, q_lease_until := None,
     q_result := Some (boundedJson rt (Obj [(''accepted'', Bool True), (''command'', Str ''memory approve''), (''approvedAt'', Str now)])),
     q_error := None, q_updated_at := now\<rparr>"
  have "q' = upd_where (row_at ws i) ?upd q" using assms(1) c by (auto simp: applyApproved_def split: if_splits)
  then have "?upd c \<in> set q'" using find_SomeD [OF c] by (auto simp: in_upd_where)
  then show ?thesis using assms(2,3) find_SomeD [OF c] unfolding approved_in_def by (intro bexI [of _ "?upd c"]) simp_all
qed

lemma commit_gate:
  assumes "gate_inv db" and "f_workspace_id (n_row n) = ws" and "f_proposal_queue_id (n_row n) = i"
  shows "gate_inv (fst (approve_commit rt freshEp clock now ws i worker n db))"
proof (cases "snd (approve_commit rt freshEp clock now ws i worker n db)")
  case (Inl e)
  then show ?thesis using assms(1) by (auto simp: approve_commit_def split: sum.splits prod.splits)
next
  case (Inr f)
  then obtain q' db' where q': "applyApproved rt now ws i worker (d_queue db) = Inr q'"
    and m: "materializeTemporalFact rt freshEp clock n db = Inr (db', f)"
    and fst: "fst (approve_commit rt freshEp clock now ws i worker n db) = db'\<lparr>d_queue := q'\<rparr>"
    by (auto simp: approve_commit_def bind_res_eq_Inr lift_q_def split: sum.splits prod.splits)
  have inv: "queue_inv (d_queue db)" using assms(1) by (simp add: gate_inv_def)
  have e: "fst (exec_queue rt now (Approve ws i worker) (d_queue db)) = q'" using q' by simp
  show ?thesis
    unfolding fst using materialize_gate [OF m assms(1)] exec_queue_inv [OF inv, of rt now "Approve ws i worker"]
      approved_exec [OF inv, of _ rt now "Approve ws i worker"] applied_approves [OF q' assms(2,3)] unfolding e by blast
qed

lemma exec_memory_gate: "gate_inv db \<Longrightarrow> gate_inv (exec_memory rt now op db)"
proof (cases op)
  case (QueueCall qop)
  then show "gate_inv db \<Longrightarrow> ?thesis" by (simp add: gate_inv_def exec_queue_inv approved_exec)
next
  case (AddFact fresh freshEp i)
  then show "gate_inv db \<Longrightarrow> ?thesis" by (simp add: add_gate)
next
  case (CommitApproval fresh freshEp approvedAt ws i worker claimed)
  have "f_workspace_id (n_row n) = ws \<and> f_proposal_queue_id (n_row n) = i"
    if "normalizeTemporalFactInput rt fresh now (approval_input rt approvedAt ws i claimed) = Inr n" for n
    using normalize_fields [OF that] by (simp add: approval_input_def Let_def split: prod.splits)
  then show "gate_inv db \<Longrightarrow> ?thesis" using CommitApproval commit_gate by (simp split: sum.splits)
qed

lemma empty_gate: "gate_inv empty_db"
  by (simp add: gate_inv_def empty_db_def queue_inv_def)

interpretation provider: invariant_system "\<lambda>db. db = empty_db" "memory_step rt" gate_inv for rt
  by unfold_locales (auto simp: empty_gate memory_step_def exec_memory_gate)

lemma run_memory_reach: "reach (\<lambda>db. db = empty_db) (memory_step rt) (run_memory rt ops empty_db)"
proof (induction ops rule: rev_induct)
  case Nil
  show ?case by (simp add: run_memory_def reach_init)
next
  case (snoc x ops)
  have "memory_step rt (run_memory rt ops empty_db) (run_memory rt (ops @ [x]) empty_db)"
    by (cases x) (auto simp: memory_step_def run_memory_def)
  with snoc show ?case by (rule reach_step)
qed

section \<open>The graph mirrors the facts\<close>

definition entity_ok :: "runtime \<Rightarrow> entity_row \<Rightarrow> bool" where
  "entity_ok rt e \<longleftrightarrow> et_id e = entity_id rt (et_workspace_id e) (et_scope e) (et_name e)"

definition named :: "string \<Rightarrow> string \<Rightarrow> entity_row list \<Rightarrow> bool" where
  "named eid name es \<longleftrightarrow> (\<exists>e \<in> set es. et_id e = eid \<and> et_name e = name)"

definition edge_key :: "edge_row \<Rightarrow> string \<times> string \<times> string" where
  "edge_key e = (ed_workspace_id e, ed_scope e, ed_fact_id e)"

definition fact_key :: "fact_row \<Rightarrow> string \<times> string \<times> string" where
  "fact_key f = (f_workspace_id f, f_scope f, f_id f)"

text \<open>The edge states the fact.\<close>

definition depicts :: "entity_row list \<Rightarrow> edge_row \<Rightarrow> fact_row \<Rightarrow> bool" where
  "depicts es e f \<longleftrightarrow> edge_key e = fact_key f \<and> ed_predicate e = f_predicate f \<and>
     named (ed_source e) (f_subject f) es \<and> named (ed_target e) (f_object f) es"

definition graph_inv :: "runtime \<Rightarrow> memory_db \<Rightarrow> bool" where
  "graph_inv rt db \<longleftrightarrow> list_all (entity_ok rt) (d_entities db) \<and> distinct (map et_id (d_entities db)) \<and>
     distinct (map edge_key (d_edges db)) \<and> distinct (map f_id (d_facts db)) \<and>
     (\<forall>f \<in> set (d_facts db). \<exists>e \<in> set (d_edges db). depicts (d_entities db) e f)"

lemma upsert_entity:
  assumes "upsertTemporalEntity rt ws scope kind name now es = Inr (es', eid)"
    and "list_all (entity_ok rt) es" and "distinct (map et_id es)"
  shows "list_all (entity_ok rt) es' \<and> distinct (map et_id es') \<and> named eid name es' \<and>
    (\<forall>i nm. named i nm es \<longrightarrow> named i nm es')"
proof -
  let ?P = "\<lambda>r. et_workspace_id r = ws \<and> et_scope r = scope \<and> et_name r = name"
  let ?f = "\<lambda>r. r\<lparr>et_kind := kind, et_updated_at := now\<rparr>"
  have eid: "eid = entity_id rt ws scope name"
    using assms(1) by (auto simp: upsertTemporalEntity_def Let_def split: if_splits)
  show ?thesis
  proof (cases "list_ex ?P es")
    case True
    then have es': "es' = upd_where ?P ?f es" using assms(1) by (simp add: upsertTemporalEntity_def Let_def)
    have "map et_id es' = map et_id es" unfolding es' by (rule map_upd_where_same) simp
    moreover have "list_all (entity_ok rt) es'" unfolding es' using assms(2)
      by (rule list_all_upd_where) (simp add: entity_ok_def)
    moreover have mono: "named i nm es'" if "named i nm es" for i nm
    proof -
      obtain e where e: "e \<in> set es" "et_id e = i" "et_name e = nm" using \<open>named i nm es\<close> by (auto simp: named_def)
      then have "(if ?P e then ?f e else e) \<in> set es'" unfolding es' in_upd_where by blast
      then show ?thesis unfolding named_def using e(2,3) by (intro bexI [of _ "if ?P e then ?f e else e"]) simp_all
    qed
    moreover have "named eid name es"
      using True assms(2) unfolding eid by (auto simp: named_def list_ex_iff list_all_iff entity_ok_def)
    ultimately show ?thesis using assms(3) by simp
  next
    case False
    then have "\<not> list_ex (\<lambda>r. et_id r = eid) es"
      and es': "es' = es @ [\<lparr>et_id = eid, et_workspace_id = ws, et_scope = scope, et_kind = kind, et_name = name,
        et_created_at = now, et_updated_at = now\<rparr>]"
      using assms(1) eid by (auto simp: upsertTemporalEntity_def Let_def split: if_splits)
    then have "eid \<notin> et_id ` set es" by (auto simp: list_ex_iff)
    then show ?thesis using assms(2,3) eid unfolding es' by (auto simp: entity_ok_def named_def)
  qed
qed

lemma write_edge_Inr:
  assumes "write_edge rt now f src tgt es edges = Inr edges'" and "distinct (map edge_key edges)"
  shows "distinct (map edge_key edges') \<and>
    (\<forall>e \<in> set edges. edge_key e \<noteq> fact_key f \<longrightarrow> e \<in> set edges') \<and>
    (\<exists>e \<in> set edges'. edge_key e = fact_key f \<and> ed_predicate e = f_predicate f \<and> ed_source e = src \<and> ed_target e = tgt)"
proof -
  let ?P = "\<lambda>e. ed_workspace_id e = f_workspace_id f \<and> ed_scope e = f_scope f \<and> ed_fact_id e = f_id f"
  let ?f = "\<lambda>e. e\<lparr>ed_source := src, ed_target := tgt, ed_predicate := f_predicate f\<rparr>"
  have P: "?P e \<longleftrightarrow> edge_key e = fact_key f" for e by (auto simp: edge_key_def fact_key_def)
  show ?thesis
  proof (cases "list_ex ?P edges")
    case True
    then have e': "edges' = upd_where ?P ?f edges" using assms(1) by (auto simp: write_edge_def Let_def split: if_splits)
    have "map edge_key edges' = map edge_key edges" unfolding e' by (rule map_upd_where_same) (simp add: edge_key_def)
    moreover obtain e where e: "e \<in> set edges" "?P e" using True by (auto simp: list_ex_iff)
    then have "?f e \<in> set edges'" unfolding e' in_upd_where by auto
    then have "\<exists>e \<in> set edges'. edge_key e = fact_key f \<and> ed_predicate e = f_predicate f \<and> ed_source e = src \<and> ed_target e = tgt"
      using e(2) by (intro bexI [of _ "?f e"]) (simp_all add: edge_key_def fact_key_def)
    moreover have "\<forall>e \<in> set edges. edge_key e \<noteq> fact_key f \<longrightarrow> e \<in> set edges'"
    proof (intro ballI impI)
      fix e assume "e \<in> set edges" "edge_key e \<noteq> fact_key f"
      then show "e \<in> set edges'" unfolding e' using P by (intro in_upd_other) simp_all
    qed
    ultimately show ?thesis using assms(2) by simp
  next
    case False
    then have "edge_key ` set edges \<inter> {fact_key f} = {}" using P by (auto simp: list_ex_iff)
    then show ?thesis
      using assms False by (auto simp: write_edge_def Let_def edge_key_def fact_key_def split: if_splits)
  qed
qed

lemma distinct_upsert:
  assumes "distinct (map k rows)" and "\<And>y. k y = k r \<Longrightarrow> k (f y) = k r"
  shows "distinct (map k (upsert (\<lambda>y. k y = k r) f r rows))"
proof (cases "list_ex (\<lambda>y. k y = k r) rows")
  case True
  have "map k (upd_where (\<lambda>y. k y = k r) f rows) = map k rows"
    by (rule map_upd_where_same) (simp add: assms(2))
  then show ?thesis using True assms(1) by (simp add: upsert_def)
qed (use assms(1) in \<open>auto simp: upsert_def list_ex_iff\<close>)

lemma materialize_fact_ids:
  assumes "materializeTemporalFact rt fresh now n db = Inr (db', r)" and "distinct (map f_id (d_facts db))"
  shows "distinct (map f_id (d_facts db'))"
  using assms(1)
proof (rule materialize_Inr)
  fix ep f es2 edges
  assume db': "db' = (writeTemporalFact f (db\<lparr>d_episodes := upsertTemporalEpisode ep (d_episodes db), d_entities := es2,
       d_facts := (if n_supersede n then supersede_facts now f (d_facts db) else d_facts db)\<rparr>))\<lparr>d_edges := edges\<rparr>"
  have "map f_id (supersede_facts now f (d_facts db)) = map f_id (d_facts db)"
    unfolding supersede_facts_def by (rule map_upd_where_same) simp
  then have "distinct (map f_id (if n_supersede n then supersede_facts now f (d_facts db) else d_facts db))"
    using assms(2) by simp
  then have "distinct (map f_id (upsert (\<lambda>r. f_id r = f_id f) (\<lambda>r. f\<lparr>f_created_at := f_created_at r\<rparr>) f
      (if n_supersede n then supersede_facts now f (d_facts db) else d_facts db)))"
    by (rule distinct_upsert) simp
  then show ?thesis unfolding db' by (simp add: writeTemporalFact_def)
qed

lemma depicts_mono:
  "depicts es e f \<Longrightarrow> (\<And>i nm. named i nm es \<Longrightarrow> named i nm es') \<Longrightarrow> same_fact f f' \<Longrightarrow> depicts es' e f'"
  by (simp add: depicts_def same_fact_def fact_key_def)

lemma materialize_graph:
  assumes "materializeTemporalFact rt fresh now n db = Inr (db', r)" and "graph_inv rt db"
  shows "graph_inv rt db'"
  using assms(1)
proof (rule materialize_Inr)
  fix ep f es1 es2 src tgt edges
  assume f: "f = (n_row n)\<lparr>f_episode_id := ep_id ep\<rparr>"
    and e1: "upsertTemporalEntity rt (f_workspace_id f) (f_scope f) ''subject'' (f_subject f) now (d_entities db) = Inr (es1, src)"
    and e2: "upsertTemporalEntity rt (f_workspace_id f) (f_scope f) ''object'' (f_object f) now es1 = Inr (es2, tgt)"
    and w: "write_edge rt now f src tgt es2 (d_edges db) = Inr edges"
    and db': "db' = (writeTemporalFact f (db\<lparr>d_episodes := upsertTemporalEpisode ep (d_episodes db), d_entities := es2,
       d_facts := (if n_supersede n then supersede_facts now f (d_facts db) else d_facts db)\<rparr>))\<lparr>d_edges := edges\<rparr>"
  have inv: "list_all (entity_ok rt) (d_entities db)" "distinct (map et_id (d_entities db))"
    "distinct (map edge_key (d_edges db))" "distinct (map f_id (d_facts db))"
    and mirror: "\<And>f. f \<in> set (d_facts db) \<Longrightarrow> \<exists>e \<in> set (d_edges db). depicts (d_entities db) e f"
    using assms(2) by (auto simp: graph_inv_def)
  note u1 = upsert_entity [OF e1 inv(1,2)]
  note u2 = upsert_entity [OF e2 conjunct1 [OF u1] conjunct1 [OF conjunct2 [OF u1]]]
  note we = write_edge_Inr [OF w inv(3)]
  have parts: "d_entities db' = es2" "d_edges db' = edges" unfolding db' by (simp_all add: writeTemporalFact_def)
  have "\<exists>e \<in> set edges. depicts es2 e x" if "x \<in> set (d_facts db')" for x
    using materialize_facts [OF assms(1) that]
  proof
    assume "same_fact (n_row n) x"
    moreover obtain e where "e \<in> set edges" "edge_key e = fact_key f" "ed_predicate e = f_predicate f" "ed_source e = src" "ed_target e = tgt"
      using we by blast
    ultimately show ?thesis
      using u1 u2 by (intro bexI [of _ e]) (auto simp: depicts_def fact_key_def same_fact_def f)
  next
    assume "f_id x \<noteq> f_id (n_row n) \<and> (\<exists>y \<in> set (d_facts db). same_fact y x)"
    then obtain y where y: "same_fact y x" "f_id x \<noteq> f_id f" "y \<in> set (d_facts db)" using f by auto
    obtain e where e: "e \<in> set (d_edges db)" "depicts (d_entities db) e y" using mirror [OF y(3)] by blast
    have "edge_key e \<noteq> fact_key f" using e(2) y by (auto simp: depicts_def fact_key_def same_fact_def)
    then have "e \<in> set edges" using e(1) we by blast
    then show ?thesis using depicts_mono [OF e(2) _ y(1)] u1 u2 by blast
  qed
  then show ?thesis
    unfolding graph_inv_def parts using u2 we materialize_fact_ids [OF assms(1) inv(4)] by blast
qed

lemma exec_memory_graph: "graph_inv rt db \<Longrightarrow> graph_inv rt (exec_memory rt now op db)"
proof (cases op)
  case (QueueCall qop)
  then show "graph_inv rt db \<Longrightarrow> ?thesis" by (simp add: graph_inv_def)
next
  case (AddFact fresh freshEp i)
  then show "graph_inv rt db \<Longrightarrow> ?thesis"
    using materialize_graph by (auto simp: addTemporalFact_def bind_res_eq_Inr split: sum.splits)
next
  case (CommitApproval fresh freshEp approvedAt ws i worker claimed)
  have "graph_inv rt (db'\<lparr>d_queue := q'\<rparr>)" if "graph_inv rt db'" for db' q'
    using that by (simp add: graph_inv_def)
  then show "graph_inv rt db \<Longrightarrow> ?thesis"
    using CommitApproval materialize_graph
    by (auto simp: approve_commit_def bind_res_eq_Inr split: sum.splits)
qed

lemma empty_graph: "graph_inv rt empty_db"
  by (simp add: graph_inv_def empty_db_def)

interpretation provider_graph: invariant_system "\<lambda>db. db = empty_db" "memory_step rt" "graph_inv rt" for rt
  by unfold_locales (auto simp: empty_graph memory_step_def exec_memory_graph)

section \<open>Supersession\<close>

text \<open>The row a materialisation returns.\<close>

lemma materialize_row:
  assumes "materializeTemporalFact rt fresh now n db = Inr (db', r)"
  shows "same_fact (n_row n) r \<and> f_valid_from r = f_valid_from (n_row n) \<and> f_valid_until r = f_valid_until (n_row n)"
  using assms
proof (rule materialize_Inr)
  fix ep f es2 edges
  assume f: "f = (n_row n)\<lparr>f_episode_id := ep_id ep\<rparr>"
    and db': "db' = (writeTemporalFact f (db\<lparr>d_episodes := upsertTemporalEpisode ep (d_episodes db), d_entities := es2,
       d_facts := (if n_supersede n then supersede_facts now f (d_facts db) else d_facts db)\<rparr>))\<lparr>d_edges := edges\<rparr>"
    and r: "r = (case List.find (\<lambda>r. f_workspace_id r = f_workspace_id f \<and> f_id r = f_id f) (d_facts db') of Some r \<Rightarrow> r | None \<Rightarrow> f)"
  have "r = f \<or> (\<exists>c. r = f\<lparr>f_created_at := c\<rparr>)"
  proof (cases "List.find (\<lambda>r. f_workspace_id r = f_workspace_id f \<and> f_id r = f_id f) (d_facts db')")
    case (Some x)
    then have x: "r = x" "f_id x = f_id f" "x \<in> set (d_facts db')" using r find_SomeD [OF Some] by auto
    then have "x \<in> set (upsert (\<lambda>r. f_id r = f_id f) (\<lambda>r. f\<lparr>f_created_at := f_created_at r\<rparr>) f
        (if n_supersede n then supersede_facts now f (d_facts db) else d_facts db))"
      unfolding db' by (simp add: writeTemporalFact_def)
    from in_upsert [OF this] x show ?thesis by blast
  qed (simp add: r)
  then show ?thesis by (auto simp: f same_fact_def)
qed

text \<open>What becomes of a fact with another id.\<close>

lemma materialize_others:
  assumes "materializeTemporalFact rt fresh now n db = Inr (db', r)" and "x \<in> set (d_facts db')" and "f_id x \<noteq> f_id (n_row n)"
  shows "\<exists>y \<in> set (d_facts db). x = y \<and> \<not> (n_supersede n \<and> superseded_by_new (n_row n) y) \<or>
    n_supersede n \<and> superseded_by_new (n_row n) y \<and> same_fact y x \<and> f_valid_until x = Some (f_valid_from (n_row n)) \<and>
    f_superseded_by x = Some (f_id (n_row n)) \<and> f_status x = ''superseded''"
  using assms(1)
proof (rule materialize_Inr)
  fix ep f es2 edges
  assume f: "f = (n_row n)\<lparr>f_episode_id := ep_id ep\<rparr>"
    and db': "db' = (writeTemporalFact f (db\<lparr>d_episodes := upsertTemporalEpisode ep (d_episodes db), d_entities := es2,
       d_facts := (if n_supersede n then supersede_facts now f (d_facts db) else d_facts db)\<rparr>))\<lparr>d_edges := edges\<rparr>"
  have "superseded_by_new f y = superseded_by_new (n_row n) y" for y by (simp add: superseded_by_new_def f cong: option.case_cong)
  moreover have "x \<in> set (if n_supersede n then supersede_facts now f (d_facts db) else d_facts db)"
  proof -
    have "x \<in> set (upsert (\<lambda>r. f_id r = f_id f) (\<lambda>r. f\<lparr>f_created_at := f_created_at r\<rparr>) f
        (if n_supersede n then supersede_facts now f (d_facts db) else d_facts db))"
      using assms(2) db' by (simp add: writeTemporalFact_def)
    from in_upsert [OF this] show ?thesis using assms(3) by (auto simp: f)
  qed
  ultimately obtain y where y: "y \<in> set (d_facts db)" "x = (if n_supersede n \<and> superseded_by_new (n_row n) y
      then y\<lparr>f_status := ''superseded'', f_valid_until := Some (f_valid_from f), f_superseded_by := Some (f_id f), f_updated_at := now\<rparr> else y)"
    by (auto simp: supersede_facts_def in_upd_where split: if_splits)
  show ?thesis
  proof (rule bexI [OF _ y(1)], cases "n_supersede n \<and> superseded_by_new (n_row n) y")
    case True
    then show "x = y \<and> \<not> (n_supersede n \<and> superseded_by_new (n_row n) y) \<or>
      n_supersede n \<and> superseded_by_new (n_row n) y \<and> same_fact y x \<and> f_valid_until x = Some (f_valid_from (n_row n)) \<and>
      f_superseded_by x = Some (f_id (n_row n)) \<and> f_status x = ''superseded''"
      using y(2) by (simp add: same_fact_def f)
  qed (use y(2) in auto)
qed

text \<open>Facts about the same thing that were superseded before have ended by the new one's start.\<close>

definition in_order :: "fact_row \<Rightarrow> fact_row list \<Rightarrow> bool" where
  "in_order r facts \<longleftrightarrow> (\<forall>y \<in> set facts. in_scope (f_workspace_id r) (f_scope r) y \<and> f_subject y = f_subject r \<and>
     f_predicate y = f_predicate r \<and> f_superseded_by y \<noteq> None \<longrightarrow>
     (case f_valid_until y of None \<Rightarrow> False | Some u \<Rightarrow> u \<le> f_valid_from r))"

lemma superseding_unique:
  assumes m: "materializeTemporalFact rt fresh now n db = Inr (db', r)" and sup: "n_supersede n"
    and ord: "in_order (n_row n) (d_facts db)" and t: "f_valid_from (n_row n) \<le> t"
    and x: "x \<in> set (d_facts db')" "in_scope (f_workspace_id (n_row n)) (f_scope (n_row n)) x"
      "f_subject x = f_subject (n_row n)" "f_predicate x = f_predicate (n_row n)" "valid_at t x"
  shows "f_object x = f_object (n_row n)"
proof (cases "f_id x = f_id (n_row n)")
  case True
  then show ?thesis using materialize_facts [OF m x(1)] by (auto simp: same_fact_def)
next
  case False
  from materialize_others [OF m x(1) this] obtain y where y: "y \<in> set (d_facts db)"
    "x = y \<and> \<not> superseded_by_new (n_row n) y \<or> f_valid_until x = Some (f_valid_from (n_row n))"
    using sup by blast
  show ?thesis
  proof (rule ccontr)
    assume obj: "f_object x \<noteq> f_object (n_row n)"
    from y(2) have "\<exists>u. f_valid_until x = Some u \<and> u \<le> f_valid_from (n_row n)"
    proof
      assume same: "x = y \<and> \<not> superseded_by_new (n_row n) y"
      then show ?thesis
        using False obj x ord y(1)
        by (auto simp: superseded_by_new_def in_scope_def in_order_def not_less split: option.splits)
    qed simp
    then show False using x(5) t by (auto simp: valid_at_def)
  qed
qed

section \<open>A sample database\<close>

text \<open>Digests that read the text backwards, so that short prefixes of them differ.\<close>

definition rev_runtime :: runtime where
  "rev_runtime = sample_runtime\<lparr>sha256_hex := rev\<rparr>"

definition sample_fact :: fact where
  "sample_fact = \<lparr>n_row = \<lparr>f_id = ''memfact_a'', f_workspace_id = ''w2'', f_scope = ''workspace'', f_subject = ''s'',
     f_predicate = ''p'', f_object = ''o'', f_text = ''t'', f_status = ''active'', f_source = ''workspace://a'', f_confidence = 1,
     f_valid_from = ''5'', f_valid_until = None, f_superseded_by = None, f_episode_id = [], f_proposal_queue_id = ''mpq_a'',
     f_created_at = ''5'', f_updated_at = ''5'', f_metadata = Obj []\<rparr>,
     n_episodeId = Some ''mep_a'', n_proposalQueueId = Some ''mpq_a'', n_supersede = True, n_episode = None\<rparr>"

lemma sample_episode:
  "\<exists>ep. normalizeTemporalEpisodeInput rev_runtime fresh now None sample_fact = Inr ep"
  by (simp add: normalizeTemporalEpisodeInput_def sample_fact_def no_episode_def Let_def TEMPORAL_EPISODE_ID_PATTERN_def
      safe_id_def safe_id_char_def assertWorkspaceLocator_def locator_char_def is_alnum_def is_lower_def orelse_def
      normalizeTemporalText_def trim_def js_space_def assertIsoTimestamp_def rev_runtime_def sample_runtime_def lift_q_def require_def)

lemma sample_entity_ids: "entity_id rev_runtime ''w2'' ''workspace'' ''s'' \<noteq> entity_id rev_runtime ''w2'' ''workspace'' ''o''"
  by (simp add: entity_id_def deterministicId_def stableHash_def rev_runtime_def json_quote_def escape_char_def Let_def)

lemma sample_materializes:
  assumes "d_entities db = []" and "d_edges db = []"
  shows "\<exists>db' r. materializeTemporalFact rev_runtime fresh now sample_fact db = Inr (db', r)"
proof -
  obtain ep where ep: "normalizeTemporalEpisodeInput rev_runtime fresh now (n_episode sample_fact) sample_fact = Inr ep"
    using sample_episode by (metis fact.select_convs(5) sample_fact_def)
  have row: "f_workspace_id (n_row sample_fact) = ''w2''" "f_scope (n_row sample_fact) = ''workspace''"
    "f_subject (n_row sample_fact) = ''s''" "f_object (n_row sample_fact) = ''o''" by (simp_all add: sample_fact_def)
  show ?thesis
    using assms ep row sample_entity_ids
    by (simp add: materializeTemporalFact_def Let_def upsertTemporalEntity_def write_edge_def)
qed

definition fact_proposal :: queue_row where
  "fact_proposal = sample_row\<lparr>q_payload := Obj [(''kind'', Str ''fact''), (''subject'', Str ''s''), (''predicate'', Str ''p''), (''object'', Str ''o'')]\<rparr>"

lemma fact_proposal_payload: "safeQueueObject rt (q_payload fact_proposal) = q_payload fact_proposal"
proof -
  have "safeQueueKey rt ''kind'' = ''kind''" "safeQueueKey rt ''subject'' = ''subject''" "safeQueueKey rt ''predicate'' = ''predicate''"
    "safeQueueKey rt ''object'' = ''object''"
    by (simp_all add: safeQueueKey_def safe_key_char_def is_alnum_def redact_plain_word is_lower_def)
  moreover have "redactQueueString 512 ''fact'' = ''fact''" "redactQueueString 512 ''s'' = ''s''"
    "redactQueueString 512 ''p'' = ''p''" "redactQueueString 512 ''o'' = ''o''"
    by (simp_all add: redact_plain_word is_lower_def)
  ultimately show ?thesis by (simp add: safeQueueObject_def fact_proposal_def)
qed

lemma sample_reject:
  "\<exists>q' p c. rejectProposal rev_runtime ''5'' ''5'' ''6'' ''ws'' ''mpq_a'' ''rev'' ''no'' [fact_proposal] = (q', Inr (p, c)) \<and>
     q_payload p = q_payload fact_proposal \<and> q_source_locator p = ''workspace://a''"
proof -
  have chars: "char_of (54 :: nat) = CHR ''6''" "char_of (48 :: nat) = CHR ''0''" "char_of (53 :: nat) = CHR ''5''"
    by (rule char_of_nat_eq, simp)+
  have iso: "to_iso rev_runtime 60005 = ''60005''" "date_parse rev_runtime ''5'' = Some 5"
    "date_parse rev_runtime ''6'' = Some 6" "date_parse rev_runtime ''60005'' = Some 60005"
    by (simp_all add: rev_runtime_def sample_runtime_def show_nat.simps chars)
  let ?c = "mark_claimed ''rev'' ''60005'' ''5'' fact_proposal"
  have claim: "claimProposalById rev_runtime ''5'' ''ws'' ''mpq_a'' ''rev'' (Some ''60005'') [fact_proposal] = ([?c], Inr (rowToQueueRecord rev_runtime ?c))"
    by (simp add: claimProposalById_def lease_end_def poison_exhausted_def fact_proposal_def sample_row_def Let_def)
  have row: "row_at ''ws'' ''mpq_a'' ?c" "q_payload ?c = q_payload fact_proposal" "q_source_locator ?c = ''workspace://a''"
    by (simp_all add: mark_claimed_def fact_proposal_def sample_row_def)
  have "\<not> date_le rev_runtime ''60005'' ''6''" by (simp add: date_le_def iso)
  then show ?thesis
    using claim row
    by (simp add: rejectProposal_def lease_end_def iso recordProposalResult_def hashable_def Let_def rowToQueueRecord_def fact_proposal_payload)
qed

section \<open>Properties\<close>

text \<open>C1: Nothing enters memory unreviewed: after any sequence of calls on an empty database, every
  stored fact names a proposal of its own workspace, and that proposal is in the queue with
  status applied.\<close>

theorem facts_pass_the_gate:
  "list_all (\<lambda>f. list_ex (\<lambda>r. q_workspace_id r = f_workspace_id f \<and> q_id r = f_proposal_queue_id f \<and> q_status r = Applied)
       (d_queue (run_memory rt ops empty_db)))
     (d_facts (run_memory rt ops empty_db))"
  using provider.reach_inv [OF run_memory_reach, of rt ops]
  by (auto simp: gate_inv_def approved_in_def list_all_iff list_ex_iff)

text \<open>C13: A new fact that supersedes leaves one opinion, when it comes in order. Suppose that every fact of its workspace
  and scope about the same subject and predicate that was superseded earlier has ended by the new fact's start. Then,
  after the write and from its start on, every valid fact of that workspace and scope about the same subject and
  predicate has its object.\<close>

theorem superseding_fact_is_the_only_opinion:
  assumes "materializeTemporalFact rt fresh now n db = Inr (db', r)" and "n_supersede n"
    and "in_order r (d_facts db)" and "f_valid_from r \<le> t"
    and "x \<in> set (d_facts db')" and "in_scope (f_workspace_id r) (f_scope r) x" and "f_subject x = f_subject r"
    and "f_predicate x = f_predicate r" and "valid_at t x"
  shows "f_object x = f_object r"
proof -
  have same: "same_fact (n_row n) r" and from': "f_valid_from r = f_valid_from (n_row n)"
    using materialize_row [OF assms(1)] by auto
  then have "in_order (n_row n) (d_facts db)"
    using assms(3) by (auto simp: in_order_def same_fact_def split: option.splits)
  from superseding_unique [OF assms(1,2) this _ assms(5)] show ?thesis
    using assms(4,6-9) same from' by (simp add: same_fact_def)
qed

text \<open>An earlier opinion about the same subject and predicate.\<close>

definition older_fact :: fact_row where
  "older_fact = (n_row sample_fact)\<lparr>f_id := ''memfact_b'', f_object := ''old'', f_valid_from := ''4''\<rparr>"

theorem superseding_fact_is_the_only_opinion_witness:
  "\<exists>db' r. materializeTemporalFact rev_runtime ''f'' ''5'' sample_fact (empty_db\<lparr>d_facts := [older_fact]\<rparr>) = Inr (db', r) \<and>
     valid_at ''5'' older_fact \<and> f_object older_fact = ''old'' \<and>
     (\<exists>x \<in> set (d_facts db'). f_id x = ''memfact_b'' \<and> f_object x = ''old'' \<and> f_superseded_by x = Some ''memfact_a'') \<and>
     (\<forall>x \<in> set (d_facts db'). in_scope ''w2'' ''workspace'' x \<longrightarrow> f_subject x = ''s'' \<longrightarrow> f_predicate x = ''p'' \<longrightarrow> valid_at ''5'' x \<longrightarrow> f_object x = ''o'')"
proof -
  let ?db = "empty_db\<lparr>d_facts := [older_fact]\<rparr>"
  obtain db' r where m: "materializeTemporalFact rev_runtime ''f'' ''5'' sample_fact ?db = Inr (db', r)"
    using sample_materializes [of ?db "''f''" "''5''"] by (auto simp: empty_db_def)
  have sup: "n_supersede sample_fact" by (simp add: sample_fact_def)
  have ord: "in_order r (d_facts ?db)" by (simp add: in_order_def older_fact_def sample_fact_def)
  have row: "f_workspace_id r = ''w2''" "f_scope r = ''workspace''" "f_subject r = ''s''" "f_predicate r = ''p''" "f_object r = ''o''" "f_valid_from r = ''5''"
    using materialize_row [OF m] by (simp_all add: same_fact_def sample_fact_def)
  have "\<exists>x \<in> set (d_facts db'). f_id x = ''memfact_b'' \<and> f_object x = ''old'' \<and> f_superseded_by x = Some ''memfact_a''"
    using m by (rule materialize_Inr) (simp add: sup writeTemporalFact_def upsert_def supersede_facts_def upd_where_def superseded_by_new_def older_fact_def sample_fact_def)
  moreover have "\<forall>x \<in> set (d_facts db'). in_scope ''w2'' ''workspace'' x \<longrightarrow> f_subject x = ''s'' \<longrightarrow> f_predicate x = ''p'' \<longrightarrow> valid_at ''5'' x \<longrightarrow> f_object x = ''o''"
    using superseding_fact_is_the_only_opinion [OF m sup ord] row by auto
  ultimately show ?thesis using m by (intro exI [of _ db'] exI [of _ r]) (simp add: valid_at_def older_fact_def sample_fact_def)
qed

text \<open>A temporal read returns facts of the requested workspace and scope only, only facts valid
  at the requested time, only about the requested subject and predicate, at most 100 of them,
  each with an episode of its own workspace.\<close>

theorem temporal_reads_are_sound:
  assumes "getTemporalFacts rt fts ws scope subject predicate t query limit db = Inr rs"
  shows "length rs \<le> 100 \<and> (\<forall>(m, e) \<in> set rs. m \<in> set (d_facts db) \<and> f_workspace_id m = ws \<and>
    normalizeTemporalScope scope = Inr (f_scope m) \<and> valid_at t m \<and> (subject \<noteq> [] \<longrightarrow> f_subject m = subject) \<and>
    (predicate \<noteq> [] \<longrightarrow> f_predicate m = predicate) \<and> (\<forall>ep. e = Some ep \<longrightarrow> ep_workspace_id ep = ws \<and> ep_id ep = f_episode_id m))"
proof -
  let ?c = "\<lambda>sc m. in_scope ws sc m \<and> valid_at t m \<and> (subject = [] \<or> f_subject m = subject) \<and> (predicate = [] \<or> f_predicate m = predicate)"
  let ?n = "bounded_limit 100 20 limit"
  obtain sc rows where sc: "normalizeTemporalScope scope = Inr sc" and rs: "rs = map (temporalFactFromRow db) rows"
    and rows: "rows = (case ftsExpression rt query of
        Some expr \<Rightarrow> map fst (take ?n (order_by ranked_le (filter (\<lambda>(m, _). ?c sc m) (fts_join fts expr db))))
      | None \<Rightarrow> take ?n (order_by newest_le (filter (?c sc) (d_facts db))))"
    using assms by (auto simp: getTemporalFacts_def bind_res_eq_Inr Let_def split: if_splits)
  have "length rows \<le> 100"
    using bounded_limit_bounds [of 100 20 limit] unfolding rows by (auto split: option.splits)
  moreover have "m \<in> set (d_facts db) \<and> ?c sc m" if "m \<in> set rows" for m
    using that unfolding rows by (auto simp: fts_join_def dest!: in_set_takeD split: option.splits)
  ultimately show ?thesis
    unfolding rs by (auto simp: temporalFactFromRow_def in_scope_def sc dest!: find_SomeD split: if_splits)
qed

theorem temporal_reads_are_sound_witness:
  "\<exists>rs. getTemporalFacts rev_runtime \<lparr>fts_match = \<lambda>_ _. True, bm25 = \<lambda>_ _. 0\<rparr> ''w2'' Undef [] [] ''6'' [] None
       (empty_db\<lparr>d_facts := [n_row sample_fact]\<rparr>) = Inr rs \<and> rs \<noteq> [] \<and> length rs \<le> 100"
proof -
  have "ftsExpression rev_runtime [] = None"
    by (simp add: ftsExpression_def tokenizeQuery_def identifierSearchText_def re_replace_def re_match_all_def nub_def
        rev_runtime_def sample_runtime_def match_at_def at_least_def is_alnum_def is_upper_def is_lower_def is_digit_def Let_def)
  then obtain rs where rs: "getTemporalFacts rev_runtime \<lparr>fts_match = \<lambda>_ _. True, bm25 = \<lambda>_ _. 0\<rparr> ''w2'' Undef [] [] ''6'' [] None
       (empty_db\<lparr>d_facts := [n_row sample_fact]\<rparr>) = Inr rs" and "rs \<noteq> []"
    by (simp add: getTemporalFacts_def normalizeTemporalScope_def TEMPORAL_MEMORY_SCOPES_def lift_q_def Let_def bounded_limit_def
        in_scope_def valid_at_def sample_fact_def empty_db_def)
  then show ?thesis using temporal_reads_are_sound [OF rs] by blast
qed

text \<open>A rejected proposal opens the gate: rejection records the proposal as applied, with
  \<open>accepted: false\<close> in its result only, and the gate looks at the status only, so a fact that
  matches the rejected proposal is admitted.\<close>

theorem rejected_proposal_passes_gate:
  assumes "rejectProposal rt now t1 t2 ws i worker reason q = (q', Inr (p, c))"
    and "f_workspace_id (n_row n) = ws" and "n_proposalQueueId n = Some i"
    and "assertProposalPayloadMatches rt p (n_row n) = Inr ()"
  shows "q_status p = Applied \<and> assertAppliedProposal rt q' n = Inr ()"
proof -
  obtain q1 where r: "recordProposalResult rt t2 ws i worker (Some Applied)
      (Obj [(''accepted'', Bool False), (''command'', Str ''memory reject''), (''rejectedAt'', Str now), (''reason'', Str reason)])
      Null False q1 = (q', Inr p)"
    using assms(1) by (auto simp: rejectProposal_def split: sum.splits prod.splits)
  obtain cur upd where cur: "List.find (row_at ws i) q1 = Some cur" and p: "p = rowToQueueRecord rt (upd cur)"
    and q': "q' = upd_where (row_at ws i) upd q1" and st: "q_status (upd cur) = Applied"
    and keep: "\<And>r. q_id (upd r) = q_id r \<and> q_workspace_id (upd r) = q_workspace_id r" and i: "i \<noteq> []"
    using r unfolding recordProposalResult_def Let_def by (auto split: if_splits option.splits)
  have "List.find (row_at ws i) q' = Some (upd cur)"
    unfolding q' using cur find_SomeD [OF cur] keep by (subst find_upd_where) auto
  then show ?thesis using assms(2-4) st p i by (simp add: assertAppliedProposal_def)
qed

theorem rejected_proposal_passes_gate_witness:
  "\<exists>q' p c. rejectProposal rev_runtime ''5'' ''5'' ''6'' ''ws'' ''mpq_a'' ''rev'' ''no'' [fact_proposal] = (q', Inr (p, c)) \<and>
     assertAppliedProposal rev_runtime q' (sample_fact\<lparr>n_row := (n_row sample_fact)\<lparr>f_workspace_id := ''ws''\<rparr>\<rparr>) = Inr ()"
proof -
  let ?n = "sample_fact\<lparr>n_row := (n_row sample_fact)\<lparr>f_workspace_id := ''ws''\<rparr>\<rparr>"
  obtain q' p c where r: "rejectProposal rev_runtime ''5'' ''5'' ''6'' ''ws'' ''mpq_a'' ''rev'' ''no'' [fact_proposal] = (q', Inr (p, c))"
    and p: "q_payload p = q_payload fact_proposal" "q_source_locator p = ''workspace://a''" using sample_reject by blast
  have "assertProposalPayloadMatches rev_runtime p (n_row ?n) = Inr ()"
    using p by (simp add: assertProposalPayloadMatches_def fact_proposal_def sample_fact_def orelse_def Let_def)
  from rejected_proposal_passes_gate [OF r _ _ this] r show ?thesis by (simp add: sample_fact_def)
qed

text \<open>C36: Writing a fact under an identifier that another workspace uses takes that workspace's
  fact away: the row is overwritten, and the other workspace has no fact with the identifier
  any more.\<close>

theorem fact_write_crosses_workspaces:
  assumes "materializeTemporalFact rt fresh now n db = Inr (db', r)"
    and "y \<in> set (d_facts db)" and "f_id y = f_id r" and "f_workspace_id y \<noteq> f_workspace_id r"
  shows "\<not> (\<exists>x \<in> set (d_facts db'). f_id x = f_id y \<and> f_workspace_id x = f_workspace_id y)"
proof
  assume "\<exists>x \<in> set (d_facts db'). f_id x = f_id y \<and> f_workspace_id x = f_workspace_id y"
  then obtain x where "x \<in> set (d_facts db')" "f_id x = f_id y" "f_workspace_id x = f_workspace_id y" by blast
  then show False
    using materialize_facts [OF assms(1), of x] materialize_row [OF assms(1)] assms(3,4) by (auto simp: same_fact_def)
qed

theorem fact_write_crosses_workspaces_witness:
  "\<exists>db db' r y. materializeTemporalFact rev_runtime ''f'' ''5'' sample_fact db = Inr (db', r) \<and> y \<in> set (d_facts db) \<and>
     \<not> (\<exists>x \<in> set (d_facts db'). f_id x = f_id y \<and> f_workspace_id x = f_workspace_id y)"
proof -
  let ?y = "(n_row sample_fact)\<lparr>f_workspace_id := ''w1''\<rparr>"
  let ?db = "empty_db\<lparr>d_facts := [?y]\<rparr>"
  obtain db' r where m: "materializeTemporalFact rev_runtime ''f'' ''5'' sample_fact ?db = Inr (db', r)"
    using sample_materializes [of ?db "''f''" "''5''"] by (auto simp: empty_db_def)
  have r: "f_id r = ''memfact_a''" "f_workspace_id r = ''w2''"
    using materialize_row [OF m] by (simp_all add: same_fact_def sample_fact_def)
  have "f_id ?y = f_id r" "f_workspace_id ?y \<noteq> f_workspace_id r" by (simp_all add: r) (simp add: sample_fact_def)
  from fact_write_crosses_workspaces [OF m _ this] m show ?thesis by fastforce
qed

end
