(* ===== verification/MemoryGraph.thy ===== *)
theory MemoryGraph
  imports MemoryFacts
begin

text \<open>
  The graph views of providers/native/memory-sqlite/src/index.mjs: the edges valid at a time,
  shortest paths by breadth-first search, the neighbourhood of an entity, and the graph with
  its communities by label propagation. The joined edge view equals the valid facts; the
  search finds a shortest path within the hop bound exactly when there is one; the
  neighbourhood is the set of entities within the depth; a community never joins entities
  that no chain of edges connects.
\<close>

section \<open>Valid edges\<close>

record graph_edge =
  ge_from :: string
  ge_predicate :: string
  ge_to :: string
  ge_factId :: string

text \<open>\<open>f.superseded_by IS NULL OR f.valid_until > at\<close>\<close>

definition not_replaced :: "string \<Rightarrow> fact_row \<Rightarrow> bool" where
  "not_replaced t f \<longleftrightarrow> f_superseded_by f = None \<or> (case f_valid_until f of None \<Rightarrow> False | Some u \<Rightarrow> t < u)"

text \<open>An edge joined with its two entities and its fact.\<close>

type_synonym joined = "edge_row \<times> entity_row \<times> entity_row \<times> fact_row"

definition join_edges :: "string \<Rightarrow> string \<Rightarrow> (fact_row \<Rightarrow> bool) \<Rightarrow> memory_db \<Rightarrow> joined list" where
  "join_edges ws scope cond db =
     concat (map (\<lambda>e. concat (map (\<lambda>s. concat (map (\<lambda>t. map (\<lambda>f. (e, s, t, f))
         (filter (\<lambda>f. f_workspace_id f = ed_workspace_id e \<and> f_scope f = ed_scope e \<and> f_id f = ed_fact_id e \<and> cond f) (d_facts db)))
       (filter (\<lambda>t. et_id t = ed_target e) (d_entities db))))
       (filter (\<lambda>s. et_id s = ed_source e) (d_entities db))))
       (filter (\<lambda>e. ed_workspace_id e = ws \<and> ed_scope e = scope) (d_edges db)))"

definition edge_view :: "joined \<Rightarrow> graph_edge" where
  "edge_view j = (case j of (e, s, t, f) \<Rightarrow>
     \<lparr>ge_from = et_name s, ge_predicate = ed_predicate e, ge_to = et_name t, ge_factId = ed_fact_id e\<rparr>)"

definition edge_le :: "joined \<Rightarrow> joined \<Rightarrow> bool" where
  "edge_le a b = (case (a, b) of ((e, s, t, f), (e', s', t', f')) \<Rightarrow>
     [et_name s, ed_predicate e, et_name t, ed_created_at e, ed_fact_id e]
       \<le> [et_name s', ed_predicate e', et_name t', ed_created_at e', ed_fact_id e'])"

definition validTemporalGraphEdges :: "string \<Rightarrow> string \<Rightarrow> string \<Rightarrow> memory_db \<Rightarrow> graph_edge list" where
  "validTemporalGraphEdges ws scope t db =
     map edge_view (order_by edge_le (join_edges ws scope (\<lambda>f. valid_at t f \<and> not_replaced t f) db))"

section \<open>Paths\<close>

record search_item =
  si_node :: string
  si_path :: "string list"
  si_edges :: "graph_edge list"

definition flip_edge :: "graph_edge \<Rightarrow> graph_edge" where
  "flip_edge e = e\<lparr>ge_from := ge_to e, ge_to := ge_from e\<rparr>"

text \<open>The edges in the order they enter the adjacency map; the map's list for a node are those
  that start there.\<close>

definition directed_edges :: "bool \<Rightarrow> graph_edge list \<Rightarrow> graph_edge list" where
  "directed_edges undirected edges = concat (map (\<lambda>e. e # (if undirected then [flip_edge e] else [])) edges)"

definition adjacent :: "graph_edge list \<Rightarrow> string \<Rightarrow> graph_edge list" where
  "adjacent des n = filter (\<lambda>e. ge_from e = n) des"

definition step_to :: "search_item \<Rightarrow> graph_edge \<Rightarrow> search_item" where
  "step_to cur e = \<lparr>si_node = ge_to e, si_path = si_path cur @ [ge_to e], si_edges = si_edges cur @ [e]\<rparr>"

fun expand :: "string \<Rightarrow> search_item \<Rightarrow> graph_edge list \<Rightarrow> string list \<Rightarrow> search_item list \<Rightarrow>
    search_item option \<times> string list \<times> search_item list" where
  "expand dest cur [] visited queue = (None, visited, queue)"
| "expand dest cur (e # es) visited queue =
     (if ge_to e \<in> set visited then expand dest cur es visited queue
      else if ge_to e = dest then (Some (step_to cur e), visited, queue)
      else expand dest cur es (visited @ [ge_to e]) (queue @ [step_to cur e]))"

definition unseen :: "graph_edge list \<Rightarrow> string list \<Rightarrow> nat" where
  "unseen des visited = card (ge_to ` set des - set visited)"

lemma expand_None:
  "expand dest cur es vis q = (None, vis', q') \<Longrightarrow>
   set vis' = set vis \<union> ge_to ` set es \<and> (dest \<notin> set vis \<longrightarrow> dest \<notin> set vis') \<and>
   (\<exists>new. q' = q @ new \<and> si_node ` set new = ge_to ` set es - set vis \<and> distinct (map si_node new) \<and>
     (\<forall>x \<in> set new. \<exists>e \<in> set es. x = step_to cur e))"
proof (induction dest cur es vis q rule: expand.induct)
  case (2 dest cur e es vis q)
  show ?case
  proof (cases "ge_to e \<in> set vis")
    case True
    then show ?thesis using 2 by (auto simp: insert_absorb Un_insert_right)
  next
    case False
    then have dest: "ge_to e \<noteq> dest" using 2 by auto
    then obtain new where new: "set vis' = set (vis @ [ge_to e]) \<union> ge_to ` set es" "dest \<notin> set vis \<longrightarrow> dest \<notin> set vis'"
      "q' = (q @ [step_to cur e]) @ new" "si_node ` set new = ge_to ` set es - set (vis @ [ge_to e])"
      "distinct (map si_node new)" "\<forall>x \<in> set new. \<exists>e \<in> set es. x = step_to cur e"
      using 2 False by auto
    then show ?thesis
      using False dest by (intro conjI exI [of _ "step_to cur e # new"]) (auto simp: step_to_def)
  qed
qed auto

lemma expand_None_unseen:
  assumes "expand dest cur es vis q = (None, vis', q')" and "ge_to ` set es \<subseteq> ge_to ` set des"
  shows "length q' + unseen des vis' = length q + unseen des vis"
proof -
  obtain new where new: "q' = q @ new" "si_node ` set new = ge_to ` set es - set vis" "distinct (map si_node new)"
    and vis': "set vis' = set vis \<union> ge_to ` set es"
    using expand_None [OF assms(1)] by blast
  have "length new = card (ge_to ` set es - set vis)" using new(2,3) by (metis distinct_card length_map list.set_map)
  moreover have "ge_to ` set des - set vis' = (ge_to ` set des - set vis) - (ge_to ` set es - set vis)"
    using vis' by auto
  then have "unseen des vis' = unseen des vis - card (ge_to ` set es - set vis)"
    unfolding unseen_def using assms(2) by (simp add: card_Diff_subset Diff_mono)
  moreover have "card (ge_to ` set es - set vis) \<le> unseen des vis"
    unfolding unseen_def using assms(2) by (intro card_mono) auto
  ultimately show ?thesis using new(1) by simp
qed

lemma bfs_progress:
  assumes "expand dest cur (adjacent des n) vis q = (None, vis', q')"
  shows "length q' + unseen des vis' = length q + unseen des vis"
  by (rule expand_None_unseen [OF assms]) (auto simp: adjacent_def)

text \<open>The loop: every turn takes one item off the queue and queues only nodes not seen before.\<close>

function bfs :: "nat \<Rightarrow> string \<Rightarrow> graph_edge list \<Rightarrow> search_item list \<Rightarrow> string list \<Rightarrow> search_item option" where
  "bfs hops dest des [] visited = None"
| "bfs hops dest des (cur # queue) visited =
     (if hops \<le> length (si_edges cur) then bfs hops dest des queue visited
      else case expand dest cur (adjacent des (si_node cur)) visited queue of
        (Some found, _, _) \<Rightarrow> Some found
      | (None, visited', queue') \<Rightarrow> bfs hops dest des queue' visited')"
  by pat_completeness auto

termination
  by (relation "measure (\<lambda>(hops, dest, des, q, vis). length q + unseen des vis)") (auto dest!: bfs_progress [OF sym])

record path_result =
  pr_path :: "string list"
  pr_edges :: "graph_edge list"

definition getTemporalMemoryPath ::
  "string \<Rightarrow> js \<Rightarrow> string \<Rightarrow> string \<Rightarrow> int option \<Rightarrow> bool \<Rightarrow> string \<Rightarrow> memory_db \<Rightarrow> (fact_error, path_result) result" where
  "getTemporalMemoryPath ws scope src dest maxHops undirected t db =
     (if ws = [] then Inl WorkspaceMissing
      else if src = [] \<or> dest = [] then Inl SubjectPredicateRequired
      else bind_res (lift_q (normalizeTemporalScope scope)) (\<lambda>sc.
        if src = dest then Inr \<lparr>pr_path = [src], pr_edges = []\<rparr>
        else
          let des = directed_edges undirected (validTemporalGraphEdges ws sc t db) in
          Inr (case bfs (bounded_limit 12 6 maxHops) dest des [\<lparr>si_node = src, si_path = [src], si_edges = []\<rparr>] [src] of
                 None \<Rightarrow> \<lparr>pr_path = [], pr_edges = []\<rparr>
               | Some found \<Rightarrow> \<lparr>pr_path = si_path found, pr_edges = si_edges found\<rparr>)))"

section \<open>Correctness of the path search\<close>

fun walk :: "graph_edge list \<Rightarrow> string \<Rightarrow> graph_edge list \<Rightarrow> string \<Rightarrow> bool" where
  "walk des v [] w = (v = w)"
| "walk des v (e # es) w = (e \<in> set des \<and> ge_from e = v \<and> walk des (ge_to e) es w)"

fun reached :: "graph_edge list \<Rightarrow> string \<Rightarrow> nat \<Rightarrow> string set" where
  "reached des src 0 = {src}"
| "reached des src (Suc n) = reached des src n \<union> ge_to ` {e \<in> set des. ge_from e \<in> reached des src n}"

definition succs :: "graph_edge list \<Rightarrow> string \<Rightarrow> string set" where
  "succs des v = ge_to ` set (adjacent des v)"

lemma walk_snoc: "walk des v (es @ [e]) w \<longleftrightarrow> walk des v es (ge_from e) \<and> e \<in> set des \<and> ge_to e = w"
  by (induction es arbitrary: v) auto

lemma walk_reached: "walk des src es v \<Longrightarrow> v \<in> reached des src (length es)"
  by (induction es arbitrary: v rule: rev_induct) (auto simp: walk_snoc)

lemma reached_walk: "v \<in> reached des src n \<Longrightarrow> \<exists>es. length es \<le> n \<and> walk des src es v"
proof (induction n arbitrary: v)
  case (Suc n)
  show ?case
  proof (cases "v \<in> reached des src n")
    case False
    then obtain e where e: "e \<in> set des" "ge_from e \<in> reached des src n" "v = ge_to e" using Suc.prems by auto
    from Suc.IH [OF e(2)] obtain es where "length es \<le> n" "walk des src es (ge_from e)" by blast
    then show ?thesis using e by (intro exI [of _ "es @ [e]"]) (simp add: walk_snoc)
  qed (use Suc.IH in \<open>force intro: le_SucI\<close>)
qed simp

lemma reached_mono: "m \<le> n \<Longrightarrow> reached des src m \<subseteq> reached des src n"
  by (induction n) (auto simp: le_Suc_eq)

lemma reached_step: "reached des src (Suc n) = reached des src n \<union> (\<Union>v \<in> reached des src n. succs des v)"
  by (auto simp: succs_def adjacent_def)

lemma reached_closed:
  assumes "\<And>v. v \<in> reached des src d \<Longrightarrow> succs des v \<subseteq> reached des src d"
  shows "reached des src (d + k) \<subseteq> reached des src d"
proof (induction k)
  case (Suc k)
  then show ?case using assms unfolding add_Suc_right reached_step by blast
qed simp

definition item_ok :: "graph_edge list \<Rightarrow> string \<Rightarrow> search_item \<Rightarrow> bool" where
  "item_ok des src x \<longleftrightarrow> walk des src (si_edges x) (si_node x) \<and> si_path x = src # map ge_to (si_edges x)"

lemma item_ok_step: "item_ok des src x \<Longrightarrow> e \<in> set (adjacent des (si_node x)) \<Longrightarrow> item_ok des src (step_to x e)"
  by (auto simp: item_ok_def step_to_def adjacent_def walk_snoc)

lemma item_reached: "item_ok des src x \<Longrightarrow> length (si_edges x) = n \<Longrightarrow> si_node x \<in> reached des src n"
  using walk_reached by (auto simp: item_ok_def)

text \<open>
  The queue holds the rest \<open>A\<close> of level \<open>d\<close> and the part \<open>B\<close> of level \<open>d + 1\<close> found so far;
  everything within distance \<open>d\<close> has been seen and, off the queue, expanded.
\<close>

definition bfs_inv :: "graph_edge list \<Rightarrow> string \<Rightarrow> string \<Rightarrow> nat \<Rightarrow> search_item list \<Rightarrow> search_item list \<Rightarrow> string list \<Rightarrow> bool" where
  "bfs_inv des src dest d A B vis \<longleftrightarrow>
     (\<forall>x \<in> set A. item_ok des src x \<and> length (si_edges x) = d) \<and>
     (\<forall>x \<in> set B. item_ok des src x \<and> length (si_edges x) = Suc d) \<and>
     reached des src d \<subseteq> set vis \<and> dest \<notin> set vis \<and>
     (\<forall>v \<in> reached des src d. v \<in> si_node ` set A \<or> succs des v \<subseteq> set vis) \<and>
     set vis \<subseteq> reached des src d \<union> si_node ` set B"

lemma bfs_inv_shift:
  assumes "bfs_inv des src dest d [] B vis"
  shows "bfs_inv des src dest (Suc d) B [] vis"
proof -
  have B: "\<And>x. x \<in> set B \<Longrightarrow> item_ok des src x \<and> length (si_edges x) = Suc d"
    and seen: "reached des src d \<subseteq> set vis" and dest: "dest \<notin> set vis"
    and done': "\<And>v. v \<in> reached des src d \<Longrightarrow> succs des v \<subseteq> set vis"
    and vis: "set vis \<subseteq> reached des src d \<union> si_node ` set B"
    using assms by (auto simp: bfs_inv_def)
  have seen': "reached des src (Suc d) \<subseteq> set vis" unfolding reached_step using seen done' by blast
  have "si_node ` set B \<subseteq> reached des src (Suc d)" using B item_reached by blast
  moreover have "reached des src d \<subseteq> reached des src (Suc d)" by (rule reached_mono) simp
  ultimately have "set vis \<subseteq> reached des src (Suc d)" by (rule subset_trans [OF vis Un_least, rotated])
  moreover have "v \<in> si_node ` set B \<or> succs des v \<subseteq> set vis" if "v \<in> reached des src (Suc d)" for v
    using that seen' vis done' by blast
  ultimately show ?thesis using B seen' dest unfolding bfs_inv_def by simp
qed

lemma bfs_inv_expand:
  assumes "bfs_inv des src dest d (cur # A) B vis"
    and "expand dest cur (adjacent des (si_node cur)) vis (A @ B) = (None, vis', q')"
  shows "\<exists>new. q' = A @ B @ new \<and> bfs_inv des src dest d A (B @ new) vis'"
proof -
  from expand_None [OF assms(2)] obtain new where
    vis': "set vis' = set vis \<union> succs des (si_node cur)" and dest: "dest \<notin> set vis \<longrightarrow> dest \<notin> set vis'"
    and q': "q' = A @ B @ new" and nodes: "si_node ` set new = succs des (si_node cur) - set vis"
    and new: "\<forall>x \<in> set new. \<exists>e \<in> set (adjacent des (si_node cur)). x = step_to cur e"
    by (auto simp: succs_def)
  have "item_ok des src x \<and> length (si_edges x) = Suc d" if "x \<in> set new" for x
    using that new item_ok_step assms(1) unfolding bfs_inv_def by (fastforce simp: step_to_def)
  then have "bfs_inv des src dest d A (B @ new) vis'"
    using assms(1) dest unfolding bfs_inv_def vis' set_append image_Un nodes by auto
  then show ?thesis using q' by blast
qed

lemma expand_Some:
  "expand dest cur es vis q = (Some x, r) \<Longrightarrow> \<exists>e \<in> set es. x = step_to cur e \<and> ge_to e = dest"
  by (induction dest cur es vis q rule: expand.induct) (auto split: if_splits)

lemma bfs_beyond: "\<forall>x \<in> set q. hops \<le> length (si_edges x) \<Longrightarrow> bfs hops dest des q vis = None"
  by (induction q) auto

definition bfs_answer :: "graph_edge list \<Rightarrow> string \<Rightarrow> string \<Rightarrow> nat \<Rightarrow> search_item option \<Rightarrow> bool" where
  "bfs_answer des src dest hops r = (case r of
     None \<Rightarrow> dest \<notin> reached des src hops
   | Some x \<Rightarrow> item_ok des src x \<and> si_node x = dest \<and> 0 < length (si_edges x) \<and> length (si_edges x) \<le> hops \<and>
       dest \<notin> reached des src (length (si_edges x) - 1))"

lemma bfs_correct:
  "bfs_inv des src dest d A B vis \<Longrightarrow> d < hops \<Longrightarrow> q = A @ B \<Longrightarrow> bfs_answer des src dest hops (bfs hops dest des q vis)"
proof (induction hops dest des q vis arbitrary: d A B rule: bfs.induct)
  case (1 hops dest des vis)
  then have "succs des v \<subseteq> reached des src d" if "v \<in> reached des src d" for v
    using that by (auto simp: bfs_inv_def)
  then have "reached des src hops \<subseteq> reached des src d"
    using reached_closed [of des src d "hops - d"] 1(2) by simp
  then show ?case using 1 by (auto simp: bfs_answer_def bfs_inv_def)
next
  case (2 hops dest des cur queue vis)
  show ?case
  proof (cases "\<exists>d A B. bfs_inv des src dest d (cur # A) B vis \<and> d < hops \<and> queue = A @ B")
    case True
    then obtain d A B where inv: "bfs_inv des src dest d (cur # A) B vis" and d: "d < hops" and q: "queue = A @ B" by blast
    have cur: "item_ok des src cur" "length (si_edges cur) = d" "dest \<notin> reached des src d"
      using inv by (auto simp: bfs_inv_def)
    show ?thesis
    proof (cases "expand dest cur (adjacent des (si_node cur)) vis queue")
      case (fields found vis' q')
      show ?thesis
      proof (cases found)
        case None
        from bfs_inv_expand [OF inv] fields None q obtain new where
          "q' = A @ B @ new" "bfs_inv des src dest d A (B @ new) vis'" by auto
        then have "bfs_answer des src dest hops (bfs hops dest des q' vis')"
          using 2(2) [where d = d and A = A and B = "B @ new"] fields None cur(2) d by simp
        then show ?thesis using fields None cur(2) d by simp
      next
        case (Some x)
        from expand_Some [OF fields [unfolded Some]] obtain e where
          "e \<in> set (adjacent des (si_node cur))" "x = step_to cur e" "ge_to e = dest" by blast
        then have "item_ok des src x" "si_node x = dest" "length (si_edges x) = Suc d"
          using item_ok_step [OF cur(1)] cur(2) by (auto simp: step_to_def)
        then show ?thesis using fields Some cur d by (simp add: bfs_answer_def)
      qed
    qed
  next
    case False
    then have A: "A = []" "B = cur # queue" using 2(3-5) by (cases A; auto)+
    from bfs_inv_shift [OF 2(3) [unfolded A]] have inv: "bfs_inv des src dest (Suc d) (cur # queue) [] vis" .
    then have hops: "hops = Suc d" using False 2(4) by (metis append_Nil2 Suc_lessI)
    then have "bfs hops dest des (cur # queue) vis = None"
      using inv by (intro bfs_beyond) (simp add: bfs_inv_def)
    moreover have "dest \<notin> reached des src hops" using inv hops unfolding bfs_inv_def by blast
    ultimately show ?thesis unfolding bfs_answer_def by (metis option.simps(4))
  qed
qed

lemma bfs_start: "src \<noteq> dest \<Longrightarrow> bfs_inv des src dest 0 [\<lparr>si_node = src, si_path = [src], si_edges = []\<rparr>] [] [src]"
  by (simp add: bfs_inv_def item_ok_def)

section \<open>The edge view and the facts\<close>

text \<open>What a fact looks like in the graph.\<close>

definition fact_edge :: "fact_row \<Rightarrow> graph_edge" where
  "fact_edge f = \<lparr>ge_from = f_subject f, ge_predicate = f_predicate f, ge_to = f_object f, ge_factId = f_id f\<rparr>"

lemma in_join_edges:
  "(e, s, t, f) \<in> set (join_edges ws scope cond db) \<longleftrightarrow>
   e \<in> set (d_edges db) \<and> s \<in> set (d_entities db) \<and> t \<in> set (d_entities db) \<and> f \<in> set (d_facts db) \<and>
   ed_workspace_id e = ws \<and> ed_scope e = scope \<and> et_id s = ed_source e \<and> et_id t = ed_target e \<and>
   edge_key e = fact_key f \<and> cond f"
  by (auto simp: join_edges_def edge_key_def fact_key_def image_iff)

lemma named_unique:
  "distinct (map et_id es) \<Longrightarrow> named i nm es \<Longrightarrow> e \<in> set es \<Longrightarrow> et_id e = i \<Longrightarrow> et_name e = nm"
  by (auto simp: named_def distinct_map inj_on_def)

text \<open>A joined row states its fact.\<close>

lemma join_states_fact:
  assumes "graph_inv rt db" and "(e, s, t, f) \<in> set (join_edges ws scope cond db)"
  shows "edge_view (e, s, t, f) = fact_edge f \<and> in_scope ws scope f \<and> cond f \<and> f \<in> set (d_facts db)"
proof -
  note j = assms(2) [unfolded in_join_edges]
  obtain e' where e': "e' \<in> set (d_edges db)" "depicts (d_entities db) e' f"
    using assms(1) j by (auto simp: graph_inv_def)
  have "e' = e"
  proof -
    have "edge_key e' = edge_key e" using e'(2) j by (simp add: depicts_def)
    moreover have "inj_on edge_key (set (d_edges db))" using assms(1) by (simp add: graph_inv_def distinct_map)
    ultimately show ?thesis using e'(1) j by (meson inj_onD)
  qed
  then have "et_name s = f_subject f" "et_name t = f_object f"
    using e'(2) j assms(1) named_unique unfolding depicts_def graph_inv_def by blast+
  then show ?thesis
    using \<open>e' = e\<close> e'(2) j by (auto simp: edge_view_def fact_edge_def depicts_def in_scope_def edge_key_def fact_key_def)
qed

lemma fact_has_join:
  assumes "graph_inv rt db" and "f \<in> set (d_facts db)" and "in_scope ws scope f" and "cond f"
  shows "\<exists>j \<in> set (join_edges ws scope cond db). edge_view j = fact_edge f"
proof -
  obtain e where e: "e \<in> set (d_edges db)" "depicts (d_entities db) e f"
    using assms(1,2) by (auto simp: graph_inv_def)
  then obtain s t where "s \<in> set (d_entities db)" "et_id s = ed_source e" "et_name s = f_subject f"
    "t \<in> set (d_entities db)" "et_id t = ed_target e" "et_name t = f_object f"
    by (auto simp: depicts_def named_def)
  then have "(e, s, t, f) \<in> set (join_edges ws scope cond db)"
    using e assms by (auto simp: in_join_edges depicts_def in_scope_def edge_key_def fact_key_def)
  then show ?thesis using join_states_fact [OF assms(1)] by blast
qed

lemma join_is_facts:
  assumes "graph_inv rt db"
  shows "edge_view ` set (join_edges ws scope cond db) = fact_edge ` {f \<in> set (d_facts db). in_scope ws scope f \<and> cond f}"
proof (intro equalityI subsetI)
  fix g assume "g \<in> edge_view ` set (join_edges ws scope cond db)"
  then obtain e s t f where j: "(e, s, t, f) \<in> set (join_edges ws scope cond db)" "g = edge_view (e, s, t, f)" by auto
  from join_states_fact [OF assms j(1)] j(2) show "g \<in> fact_edge ` {f \<in> set (d_facts db). in_scope ws scope f \<and> cond f}" by auto
next
  fix g assume "g \<in> fact_edge ` {f \<in> set (d_facts db). in_scope ws scope f \<and> cond f}"
  then obtain f where f: "f \<in> set (d_facts db)" "in_scope ws scope f" "cond f" "g = fact_edge f" by blast
  from fact_has_join [where cond = cond, OF assms f(1-3)] obtain j where
    "j \<in> set (join_edges ws scope cond db)" "edge_view j = g" unfolding f(4) by blast
  then show "g \<in> edge_view ` set (join_edges ws scope cond db)" by blast
qed

lemma run_memory_graph: "graph_inv rt (run_memory rt ops empty_db)"
  using provider_graph.reach_inv [OF run_memory_reach] .

section \<open>Neighbourhoods\<close>

text \<open>\<open>toLowerCase\<close> of ASCII names is the runtime's lower-casing.\<close>

definition resolveTemporalEntityName :: "runtime \<Rightarrow> graph_edge list \<Rightarrow> string \<Rightarrow> string \<Rightarrow> string option" where
  "resolveTemporalEntityName rt edges entity query =
     (let requested = trim (if entity \<noteq> [] then entity else query);
          names = sorted_unique (concat (map (\<lambda>e. [ge_from e, ge_to e]) edges));
          low = to_lower rt in
      if requested = [] then None
      else first_of (List.find (\<lambda>n. n = requested) names)
            (first_of (List.find (\<lambda>n. low n = low requested) names)
                      (List.find (\<lambda>n. some_suffix (starts_with (low requested)) (low n)) names)))"

text \<open>The state of the loop: nodes with their depth in insertion order, the edge map by key, and
  the next frontier.\<close>

record hood =
  hd_nodes :: "(string \<times> nat) list"
  hd_edges :: "(string \<times> graph_edge) list"
  hd_next :: "string list"

definition edge_map_key :: "graph_edge \<Rightarrow> string" where
  "edge_map_key e = join [CHR 0x00] [ge_from e, ge_predicate e, ge_to e, ge_factId e]"

fun map_set :: "(string \<times> 'v) list \<Rightarrow> string \<Rightarrow> 'v \<Rightarrow> (string \<times> 'v) list" where
  "map_set [] k v = [(k, v)]"
| "map_set ((k', v') # kvs) k v = (if k' = k then (k, v) # kvs else (k', v') # map_set kvs k v)"

definition visit_edge :: "nat \<Rightarrow> string \<Rightarrow> hood \<Rightarrow> graph_edge \<Rightarrow> hood" where
  "visit_edge level node h e =
     (if ge_from e \<noteq> node \<and> ge_to e \<noteq> node then h
      else
        let h1 = h\<lparr>hd_edges := map_set (hd_edges h) (edge_map_key e) e\<rparr>;
            other = (if ge_from e = node then ge_to e else ge_from e)
        in if other \<in> fst ` set (hd_nodes h1) then h1
           else h1\<lparr>hd_nodes := hd_nodes h1 @ [(other, level)], hd_next := hd_next h1 @ [other]\<rparr>)"

definition visit_level :: "graph_edge list \<Rightarrow> nat \<Rightarrow> hood \<Rightarrow> hood" where
  "visit_level edges level h =
     foldl (\<lambda>h node. foldl (visit_edge level node) h edges) (h\<lparr>hd_next := []\<rparr>) (hd_next h)"

fun visit_levels :: "graph_edge list \<Rightarrow> nat \<Rightarrow> nat \<Rightarrow> hood \<Rightarrow> hood" where
  "visit_levels edges level 0 h = h"
| "visit_levels edges level (Suc n) h = visit_levels edges (Suc level) n (visit_level edges level h)"

text \<open>The neighbourhood part of \<open>explainTemporalMemory\<close>.\<close>

definition neighbourhood :: "graph_edge list \<Rightarrow> string \<Rightarrow> nat \<Rightarrow> hood" where
  "neighbourhood edges entity depth = visit_levels edges 1 depth \<lparr>hd_nodes = [(entity, 0)], hd_edges = [], hd_next = [entity]\<rparr>"

datatype explanation =
    ExplainFact "fact_row \<times> episode_row option" ranking
  | ExplainEntity string nat "(string \<times> nat) list" "graph_edge list"

datatype explain_error = ExplainError fact_error | FactNotFound | EntityRequired

definition explainTemporalMemory ::
  "runtime \<Rightarrow> fts_engine \<Rightarrow> string \<Rightarrow> js \<Rightarrow> string \<Rightarrow> string \<Rightarrow> string \<Rightarrow> int option \<Rightarrow> string \<Rightarrow> memory_db \<Rightarrow>
   (explain_error, explanation) result" where
  "explainTemporalMemory rt fts ws scope query factId entity depth t db =
     (case searchTemporalMemory rt fts ws scope query t (Some 100) db of
        Inl e \<Rightarrow> Inl (ExplainError e)
      | Inr results \<Rightarrow>
          case normalizeTemporalScope scope of
            Inl e \<Rightarrow> Inl (ExplainError (QueueError e))
          | Inr sc \<Rightarrow>
              if factId \<noteq> [] then
                (case List.find (\<lambda>((r, _), _). f_id r = factId) results of
                   Some (v, k) \<Rightarrow> Inr (ExplainFact v k)
                 | None \<Rightarrow>
                     (case List.find (\<lambda>r. in_scope ws sc r \<and> f_id r = factId \<and> valid_at t r \<and> not_replaced t r) (d_facts db) of
                        None \<Rightarrow> Inl FactNotFound
                      | Some r \<Rightarrow> Inr (ExplainFact (temporalFactFromRow db r)
                          \<lparr>rk_score = Some 0, rk_fts5 = 0, rk_graph = 0, rk_temporal = temporalRank rt (f_valid_from r) t\<rparr>)))
              else
                let edges = validTemporalGraphEdges ws sc t db in
                (case resolveTemporalEntityName rt edges entity query of
                   None \<Rightarrow> Inl EntityRequired
                 | Some name \<Rightarrow>
                     let n = bounded_limit 6 1 depth; h = neighbourhood edges name n
                     in Inr (ExplainEntity name n (hd_nodes h) (map snd (hd_edges h)))))"

section \<open>Correctness of neighbourhoods\<close>

text \<open>Entities at distance exactly \<open>d\<close>.\<close>

definition at_distance :: "graph_edge list \<Rightarrow> string \<Rightarrow> nat \<Rightarrow> string set" where
  "at_distance des src d = reached des src d - (\<Union>k < d. reached des src k)"

definition neighbours :: "graph_edge list \<Rightarrow> string \<Rightarrow> string set" where
  "neighbours es v = ge_to ` {e \<in> set es. ge_from e = v} \<union> ge_from ` {e \<in> set es. ge_to e = v}"

lemma set_directed: "set (directed_edges True es) = set es \<union> flip_edge ` set es"
  by (auto simp: directed_edges_def)

lemma succs_undirected: "succs (directed_edges True es) v = neighbours es v"
proof -
  have "{e \<in> set (directed_edges True es). ge_from e = v} = {e \<in> set es. ge_from e = v} \<union> flip_edge ` {e \<in> set es. ge_to e = v}"
    unfolding set_directed by (auto simp: flip_edge_def)
  then show ?thesis
    by (auto simp: succs_def adjacent_def neighbours_def image_Un image_image flip_edge_def)
qed

lemma neighbours_one:
  "neighbours [e] v = (if ge_from e \<noteq> v \<and> ge_to e \<noteq> v then {} else {if ge_from e = v then ge_to e else ge_from e})"
  by (auto simp: neighbours_def)

lemma visit_edge_sets:
  "set (hd_nodes (visit_edge l v h e)) = set (hd_nodes h) \<union> (\<lambda>w. (w, l)) ` (neighbours [e] v - fst ` set (hd_nodes h))"
  "set (hd_next (visit_edge l v h e)) = set (hd_next h) \<union> (neighbours [e] v - fst ` set (hd_nodes h))"
  unfolding neighbours_one visit_edge_def Let_def by (simp_all add: insert_Diff_if)

text \<open>Scanning the edges at one node.\<close>

lemma visit_edges:
  "set (hd_nodes (foldl (visit_edge l v) h es)) =
     set (hd_nodes h) \<union> (\<lambda>w. (w, l)) ` (neighbours es v - fst ` set (hd_nodes h)) \<and>
   set (hd_next (foldl (visit_edge l v) h es)) = set (hd_next h) \<union> (neighbours es v - fst ` set (hd_nodes h))"
proof (induction es arbitrary: h)
  case (Cons e es)
  let ?h = "visit_edge l v h e"
  have n: "neighbours (e # es) v = neighbours [e] v \<union> neighbours es v" by (auto simp: neighbours_def)
  note one = visit_edge_sets [of l v h e]
  then have "fst ` set (hd_nodes ?h) = fst ` set (hd_nodes h) \<union> neighbours [e] v" by (auto simp: image_Un image_image)
  then show ?case using Cons [of ?h] one n by (auto simp: image_Un)
qed (auto simp: neighbours_def)

lemma visit_frontier:
  "set (hd_nodes (foldl (\<lambda>h v. foldl (visit_edge l v) h es) h vs)) =
     set (hd_nodes h) \<union> (\<lambda>w. (w, l)) ` ((\<Union>v \<in> set vs. neighbours es v) - fst ` set (hd_nodes h)) \<and>
   set (hd_next (foldl (\<lambda>h v. foldl (visit_edge l v) h es) h vs)) =
     set (hd_next h) \<union> ((\<Union>v \<in> set vs. neighbours es v) - fst ` set (hd_nodes h))"
proof (induction vs arbitrary: h)
  case (Cons v vs)
  let ?h = "foldl (visit_edge l v) h es"
  have "fst ` set (hd_nodes ?h) = fst ` set (hd_nodes h) \<union> neighbours es v"
    using visit_edges [of l v h es] by (auto simp: image_Un image_image)
  then show ?case using Cons [of ?h] visit_edges [of l v h es] by (auto simp: image_Un)
qed simp

definition hood_inv :: "graph_edge list \<Rightarrow> string \<Rightarrow> nat \<Rightarrow> hood \<Rightarrow> bool" where
  "hood_inv es src k h \<longleftrightarrow>
     set (hd_nodes h) = {(w, d). d \<le> k \<and> w \<in> at_distance (directed_edges True es) src d} \<and>
     set (hd_next h) = at_distance (directed_edges True es) src k"

lemma reached_at_distance: "w \<in> reached des src k \<Longrightarrow> \<exists>d \<le> k. w \<in> at_distance des src d"
proof (induction k rule: less_induct)
  case (less k)
  show ?case
  proof (cases "\<exists>j < k. w \<in> reached des src j")
    case True
    then show ?thesis using less.IH by (meson less_imp_le less_trans order.trans)
  qed (use less.prems in \<open>auto simp: at_distance_def\<close>)
qed

lemma at_distance_reached: "w \<in> at_distance des src d \<Longrightarrow> d \<le> k \<Longrightarrow> w \<in> reached des src k"
  using reached_mono by (fastforce simp: at_distance_def)

lemma at_distance_Suc:
  "at_distance des src (Suc k) = (\<Union>v \<in> at_distance des src k. succs des v) - reached des src k"
proof -
  have lower: "(\<Union>j < Suc k. reached des src j) = reached des src k"
    using reached_mono [of _ k des src] by (fastforce simp: less_Suc_eq_le)
  have "succs des v \<subseteq> reached des src k" if "v \<in> reached des src j" "j < k" for v j
  proof -
    have "succs des v \<subseteq> reached des src (Suc j)" unfolding reached_step using that(1) by blast
    then show ?thesis using reached_mono [of "Suc j" k des src] that(2) by auto
  qed
  then have "(\<Union>v \<in> reached des src k. succs des v) - reached des src k =
      (\<Union>v \<in> at_distance des src k. succs des v) - reached des src k"
    unfolding at_distance_def by blast
  then show ?thesis
    unfolding at_distance_def [of des src "Suc k"] lower reached_step by auto
qed

lemma visit_level_inv:
  assumes "hood_inv es src k h"
  shows "hood_inv es src (Suc k) (visit_level es (Suc k) h)"
proof -
  let ?des = "directed_edges True es"
  let ?h0 = "h\<lparr>hd_next := []\<rparr>"
  have nodes: "set (hd_nodes h) = {(w, d). d \<le> k \<and> w \<in> at_distance ?des src d}"
    and front: "set (hd_next h) = at_distance ?des src k" using assms by (simp_all add: hood_inv_def)
  have seen: "fst ` set (hd_nodes ?h0) = reached ?des src k"
    using reached_at_distance at_distance_reached by (fastforce simp: nodes image_iff)
  have new: "(\<Union>v \<in> set (hd_next h). neighbours es v) - fst ` set (hd_nodes ?h0) = at_distance ?des src (Suc k)"
    unfolding front seen at_distance_Suc succs_undirected ..
  have "set (hd_nodes (visit_level es (Suc k) h)) = set (hd_nodes h) \<union> (\<lambda>w. (w, Suc k)) ` at_distance ?des src (Suc k)"
    and "set (hd_next (visit_level es (Suc k) h)) = at_distance ?des src (Suc k)"
    using visit_frontier [of "Suc k" es ?h0 "hd_next h"] unfolding visit_level_def new by simp_all
  then show ?thesis unfolding hood_inv_def nodes by (auto simp: le_Suc_eq)
qed

lemma visit_levels_inv: "hood_inv es src k h \<Longrightarrow> hood_inv es src (k + n) (visit_levels es (Suc k) n h)"
proof (induction n arbitrary: k h)
  case (Suc n)
  from Suc.IH [OF visit_level_inv [OF Suc.prems]] show ?case by simp
qed simp

lemma neighbourhood_inv: "hood_inv es src n (neighbourhood es src n)"
proof -
  have "hood_inv es src 0 \<lparr>hd_nodes = [(src, 0)], hd_edges = [], hd_next = [src]\<rparr>"
    by (auto simp: hood_inv_def at_distance_def)
  from visit_levels_inv [OF this, of n] show ?thesis by (simp add: neighbourhood_def)
qed

section \<open>Communities\<close>

definition lookup :: "(string \<times> 'v) list \<Rightarrow> string \<Rightarrow> 'v \<Rightarrow> 'v" where
  "lookup m k d = (case map_of m k of None \<Rightarrow> d | Some v \<Rightarrow> v)"

text \<open>\<open>m.set(k, (m.get(k) ?? 0) + 1)\<close>\<close>

definition bump :: "(string \<times> nat) list \<Rightarrow> string \<Rightarrow> (string \<times> nat) list" where
  "bump m k = map_set m k (lookup m k 0 + 1)"

text \<open>The neighbour list of a node: edges with an end outside the nodes are skipped.\<close>

definition community_neighbors :: "string list \<Rightarrow> (string \<times> string) list \<Rightarrow> string \<Rightarrow> string list" where
  "community_neighbors ids es n =
     concat (map (\<lambda>(a, b). if a \<in> set ids \<and> b \<in> set ids
       then (if a = n then [b] else []) @ (if b = n then [a] else []) else []) es)"

definition label_le :: "runtime \<Rightarrow> string \<times> nat \<Rightarrow> string \<times> nat \<Rightarrow> bool" where
  "label_le rt a b \<longleftrightarrow> snd b < snd a \<or> (snd a = snd b \<and> locale_compare rt (fst a) (fst b) \<le> 0)"

definition best_label :: "runtime \<Rightarrow> (string \<times> string) list \<Rightarrow> string list \<Rightarrow> string option" where
  "best_label rt labels nbrs =
     (case order_by (label_le rt) (foldl (\<lambda>c n. bump c (lookup labels n [])) [] nbrs) of
        [] \<Rightarrow> None | (l, _) # _ \<Rightarrow> Some l)"

definition relabel :: "runtime \<Rightarrow> string list \<Rightarrow> (string \<times> string) list \<Rightarrow> (string \<times> string) list \<times> bool \<Rightarrow> string \<Rightarrow>
    (string \<times> string) list \<times> bool" where
  "relabel rt ids es st n =
     (case best_label rt (fst st) (community_neighbors ids es n) of
        None \<Rightarrow> st
      | Some b \<Rightarrow> if b \<noteq> [] \<and> b \<noteq> lookup (fst st) n [] then (map_set (fst st) n b, True) else st)"

fun propagate :: "runtime \<Rightarrow> string list \<Rightarrow> (string \<times> string) list \<Rightarrow> nat \<Rightarrow> (string \<times> string) list \<Rightarrow> (string \<times> string) list" where
  "propagate rt ids es 0 labels = labels"
| "propagate rt ids es (Suc passes) labels =
     (let (labels', changed) = foldl (relabel rt ids es) (labels, False) (order_by (\<lambda>a b. locale_compare rt a b \<le> 0) ids)
      in if changed then propagate rt ids es passes labels' else labels')"

text \<open>The position of a label in the sorted list of labels, from 1; 0 for none.\<close>

fun label_index :: "string list \<Rightarrow> string \<Rightarrow> nat" where
  "label_index [] l = 0"
| "label_index (x # xs) l = (if x = l then 1 else (let i = label_index xs l in if i = 0 then 0 else i + 1))"

definition temporalGraphCommunities :: "runtime \<Rightarrow> string list \<Rightarrow> (string \<times> string) list \<Rightarrow> (string \<times> nat) list" where
  "temporalGraphCommunities rt ids es =
     (let labels = propagate rt ids es 8 (map (\<lambda>n. (n, n)) ids);
          communityIds = sorted_unique (map snd labels)
      in map (\<lambda>(n, l). (n, label_index communityIds l)) labels)"

section \<open>The graph view\<close>

definition temporalGraphEntityType :: "string \<Rightarrow> string" where
  "temporalGraphEntityType v =
     (if starts_with ''project:'' v then ''project''
      else if starts_with ''provider:'' v then ''provider''
      else if starts_with ''adr:'' v \<or> starts_with ''decision:'' v then ''decision''
      else if starts_with ''module:'' v \<or>
        re_test (alts [seqs [Alt Start (Cls (\<lambda>c. c = CHR '':'' \<or> c = CHR ''/'')), lit ''src'', Cls (\<lambda>c. c = CHR '':'' \<or> c = CHR ''/'')],
          Seq (lit ''_mjs'') End, Seq (lit ''.mjs'') End, Seq (lit ''.ts'') End, Seq (lit ''.tsx'') End,
          Seq (lit ''.js'') End, Seq (lit ''.jsx'') End]) v then ''module''
      else if re_test (Seq (lit ''Port'') End) v then ''port''
      else ''entity'')"

record view_edge =
  ve_id :: string
  ve_from :: string
  ve_to :: string
  ve_predicate :: string
  ve_factId :: string
  ve_current :: bool
  ve_fact :: fact_row

record view_node =
  vn_name :: string
  vn_entityId :: string
  vn_type :: string
  vn_kind :: string
  vn_current :: bool
  vn_governedDecision :: bool
  vn_degree :: nat
  vn_community :: nat

definition is_current :: "string \<Rightarrow> fact_row \<Rightarrow> bool" where
  "is_current t f \<longleftrightarrow> f_status f = ''active'' \<and> (f_superseded_by f = None \<or> f_superseded_by f = Some []) \<and> f_valid_from f \<le> t \<and>
     (case f_valid_until f of None \<Rightarrow> True | Some u \<Rightarrow> u = [] \<or> t < u)"

definition graph_condition :: "bool \<Rightarrow> string \<Rightarrow> fact_row \<Rightarrow> bool" where
  "graph_condition includeHistory t f \<longleftrightarrow> f_status f \<in> {''active'', ''superseded''} \<and> f_valid_from f \<le> t \<and>
     (includeHistory \<or> f_status f = ''active'' \<and> f_superseded_by f = None \<and>
       (case f_valid_until f of None \<Rightarrow> True | Some u \<Rightarrow> t < u))"

definition graph_le :: "joined \<Rightarrow> joined \<Rightarrow> bool" where
  "graph_le a b = (case (a, b) of ((e, s, t, f), (e', s', t', f')) \<Rightarrow>
     let x = [et_name s, ed_predicate e, et_name t]; y = [et_name s', ed_predicate e', et_name t'] in
     x < y \<or> (x = y \<and> (f_valid_from f' < f_valid_from f \<or> (f_valid_from f = f_valid_from f' \<and> ed_fact_id e \<le> ed_fact_id e'))))"

text \<open>Entering one end of an edge into the node map.\<close>

definition touch_node :: "bool \<Rightarrow> (string \<times> view_node) list \<Rightarrow> entity_row \<Rightarrow> (string \<times> view_node) list" where
  "touch_node current nodes e =
     (let nm = et_name e;
          n = lookup nodes nm \<lparr>vn_name = nm, vn_entityId = et_id e, vn_type = temporalGraphEntityType nm, vn_kind = et_kind e,
                vn_current = False, vn_governedDecision = starts_with ''decision:'' nm \<or> starts_with ''adr:'' nm,
                vn_degree = 0, vn_community = 0\<rparr>
      in map_set nodes nm (n\<lparr>vn_current := vn_current n \<or> current\<rparr>))"

definition graph_nodes :: "string \<Rightarrow> joined list \<Rightarrow> (string \<times> view_node) list" where
  "graph_nodes tm rows = foldl (\<lambda>m (e, s, t, f). touch_node (is_current tm f) (touch_node (is_current tm f) m s) t) [] rows"

definition graph_degrees :: "joined list \<Rightarrow> (string \<times> nat) list" where
  "graph_degrees rows = foldl (\<lambda>m (e, s, t, f). bump (bump m (et_name s)) (et_name t)) [] rows"

definition graph_edges :: "string \<Rightarrow> joined list \<Rightarrow> view_edge list" where
  "graph_edges tm rows = map (\<lambda>(e, s, t, f). \<lparr>ve_id = ed_id e, ve_from = et_name s, ve_to = et_name t,
     ve_predicate = ed_predicate e, ve_factId = ed_fact_id e, ve_current = is_current tm f, ve_fact = f\<rparr>) rows"

record graph_summary =
  gs_nodeCount :: nat
  gs_edgeCount :: nat
  gs_currentNodeCount :: nat
  gs_currentEdgeCount :: nat
  gs_historyNodeCount :: nat
  gs_historyEdgeCount :: nat
  gs_communityCount :: nat

definition graph_of_rows :: "runtime \<Rightarrow> string \<Rightarrow> joined list \<Rightarrow> view_node list \<times> view_edge list \<times> graph_summary" where
  "graph_of_rows rt tm rows =
     (let edges = graph_edges tm rows;
          degrees = graph_degrees rows;
          sorted = order_by (\<lambda>a b. locale_compare rt (vn_name a) (vn_name b) \<le> 0) (map snd (graph_nodes tm rows));
          communities = temporalGraphCommunities rt (map vn_name sorted) (map (\<lambda>e. (ve_from e, ve_to e)) edges);
          nodes = map (\<lambda>n. n\<lparr>vn_degree := lookup degrees (vn_name n) 0, vn_community := lookup communities (vn_name n) 0\<rparr>) sorted;
          ce = length (filter ve_current edges);
          cn = length (filter vn_current nodes)
      in (nodes, edges, \<lparr>gs_nodeCount = length nodes, gs_edgeCount = length edges, gs_currentNodeCount = cn,
            gs_currentEdgeCount = ce, gs_historyNodeCount = length nodes - cn, gs_historyEdgeCount = length edges - ce,
            gs_communityCount = length (nub (map vn_community nodes))\<rparr>))"

definition getTemporalMemoryGraph ::
  "runtime \<Rightarrow> string \<Rightarrow> js \<Rightarrow> bool \<Rightarrow> string \<Rightarrow> int option \<Rightarrow> memory_db \<Rightarrow>
   (fact_error, view_node list \<times> view_edge list \<times> graph_summary) result" where
  "getTemporalMemoryGraph rt ws scope includeHistory tm limit db =
     (if ws = [] then Inl WorkspaceMissing
      else bind_res (lift_q (normalizeTemporalScope scope)) (\<lambda>sc.
        Inr (graph_of_rows rt tm (take (bounded_limit 2500 1000 limit)
          (order_by graph_le (join_edges ws sc (graph_condition includeHistory tm) db))))))"

section \<open>Correctness of communities\<close>

lemma set_map_set: "set (map_set m k v) \<subseteq> insert (k, v) (set m)"
  by (induction m k v rule: map_set.induct) auto

lemma keys_map_set: "map fst (map_set m k v) = (if k \<in> fst ` set m then map fst m else map fst m @ [k])"
  by (induction m k v rule: map_set.induct) auto

lemma fst_map_set [simp]: "fst ` set (map_set m k v) = insert k (fst ` set m)"
proof -
  have "fst ` set (map_set m k v) = set (map fst (map_set m k v))" by simp
  then show ?thesis unfolding keys_map_set by auto
qed

lemma fst_bump [simp]: "fst ` set (bump m k) = insert k (fst ` set m)"
  by (simp add: bump_def)

lemma map_of_map_set: "map_of (map_set m k v) = (map_of m)(k \<mapsto> v)"
  by (induction m k v rule: map_set.induct) auto

lemma lookup_in: "k \<in> fst ` set m \<Longrightarrow> (k, lookup m k d) \<in> set m"
  by (auto simp: lookup_def dest: map_of_SomeD split: option.splits) (metis map_of_eq_None_iff option.distinct(1) image_eqI fst_conv)

lemma counted_labels: "fst ` set (foldl (\<lambda>c n. bump c (g n)) m nbrs) = fst ` set m \<union> g ` set nbrs"
  by (induction nbrs arbitrary: m) auto

lemma best_label_in: "best_label rt labels nbrs = Some b \<Longrightarrow> \<exists>n \<in> set nbrs. lookup labels n [] = b"
proof -
  assume "best_label rt labels nbrs = Some b"
  then obtain c cs where "order_by (label_le rt) (foldl (\<lambda>c n. bump c (lookup labels n [])) [] nbrs) = (b, c) # cs"
    by (auto simp: best_label_def split: list.splits)
  then have "(b, c) \<in> set (order_by (label_le rt) (foldl (\<lambda>c n. bump c (lookup labels n [])) [] nbrs))"
    by (simp only: list.set_intros)
  then have "b \<in> fst ` set (foldl (\<lambda>c n. bump c (lookup labels n [])) [] nbrs)" by force
  then show ?thesis unfolding counted_labels by auto
qed

text \<open>Entities joined by an edge, in either direction.\<close>

definition linked :: "(string \<times> string) list \<Rightarrow> (string \<times> string) set" where
  "linked es = set es \<union> (set es)\<inverse>"

lemma linked_sym: "(a, b) \<in> (linked es)\<^sup>* \<Longrightarrow> (b, a) \<in> (linked es)\<^sup>*"
proof -
  have "sym (linked es)" by (auto simp: linked_def sym_def)
  then show "(a, b) \<in> (linked es)\<^sup>* \<Longrightarrow> ?thesis" by (meson sym_rtrancl symD)
qed

lemma neighbor_linked: "m \<in> set (community_neighbors ids es n) \<Longrightarrow> (n, m) \<in> linked es \<and> m \<in> set ids"
  by (auto simp: community_neighbors_def linked_def split: if_splits)

definition labels_ok :: "string list \<Rightarrow> (string \<times> string) list \<Rightarrow> (string \<times> string) list \<Rightarrow> bool" where
  "labels_ok ids es labels \<longleftrightarrow> fst ` set labels = set ids \<and> (\<forall>(n, l) \<in> set labels. (n, l) \<in> (linked es)\<^sup>*)"

lemma relabel_ok:
  assumes "labels_ok ids es (fst st)" and "n \<in> set ids"
  shows "labels_ok ids es (fst (relabel rt ids es st n))"
proof (cases "best_label rt (fst st) (community_neighbors ids es n)")
  case (Some b)
  then obtain m where m: "m \<in> set (community_neighbors ids es n)" "lookup (fst st) m [] = b"
    using best_label_in by blast
  have "(m, b) \<in> (linked es)\<^sup>*"
    using assms(1) neighbor_linked [OF m(1)] lookup_in [of m "fst st" "[]"] m(2) by (auto simp: labels_ok_def)
  then have "(n, b) \<in> (linked es)\<^sup>*" using neighbor_linked [OF m(1)] by (meson converse_rtrancl_into_rtrancl)
  then show ?thesis
    using assms Some set_map_set [of "fst st" n b] by (auto simp: relabel_def labels_ok_def)
qed (use assms in \<open>simp add: relabel_def\<close>)

lemma relabel_all_ok:
  "labels_ok ids es (fst st) \<Longrightarrow> set ns \<subseteq> set ids \<Longrightarrow> labels_ok ids es (fst (foldl (relabel rt ids es) st ns))"
  by (induction ns arbitrary: st) (auto simp: relabel_ok)

lemma propagate_ok: "labels_ok ids es labels \<Longrightarrow> labels_ok ids es (propagate rt ids es passes labels)"
proof (induction passes arbitrary: labels)
  case (Suc passes)
  obtain labels' ch where p: "foldl (relabel rt ids es) (labels, False) (order_by (\<lambda>a b. locale_compare rt a b \<le> 0) ids) = (labels', ch)"
    by fastforce
  have "labels_ok ids es labels'"
    using relabel_all_ok [of ids es "(labels, False)" "order_by (\<lambda>a b. locale_compare rt a b \<le> 0) ids" rt] Suc.prems p by simp
  then show ?case using Suc.IH p by simp
qed simp

lemma label_index_pos: "l \<in> set ls \<Longrightarrow> 1 \<le> label_index ls l \<and> label_index ls l \<le> length ls"
  by (induction ls) (auto simp: Let_def)

lemma label_index_inj: "label_index ls l = label_index ls l' \<Longrightarrow> l \<in> set ls \<Longrightarrow> l' \<in> set ls \<Longrightarrow> l = l'"
  by (induction ls) (auto simp: Let_def dest: label_index_pos split: if_splits)

lemma communities_labels:
  obtains labels where "labels_ok ids es labels"
    "temporalGraphCommunities rt ids es = map (\<lambda>(n, l). (n, label_index (sorted_unique (map snd labels)) l)) labels"
proof -
  have "labels_ok ids es (map (\<lambda>n. (n, n)) ids)" by (auto simp: labels_ok_def image_image)
  from propagate_ok [OF this, of rt 8] show ?thesis using that by (simp add: temporalGraphCommunities_def Let_def)
qed

section \<open>Degrees\<close>

lemma sum_bump: "sum_list (map snd (bump m k)) = Suc (sum_list (map snd m))"
  by (induction m) (auto simp: bump_def lookup_def)

lemma degrees_total: "sum_list (map snd (graph_degrees rows)) = 2 * length rows"
proof -
  have "sum_list (map snd (foldl (\<lambda>m (e, s, t, f). bump (bump m (et_name s)) (et_name t)) m rows)) =
      sum_list (map snd m) + 2 * length rows" for m
    by (induction rows arbitrary: m) (auto simp: sum_bump)
  from this [of "[]"] show ?thesis by (simp add: graph_degrees_def)
qed

text \<open>Nodes sit under their own name, each name once.\<close>

definition nodes_ok :: "(string \<times> view_node) list \<Rightarrow> bool" where
  "nodes_ok m \<longleftrightarrow> distinct (map fst m) \<and> (\<forall>(k, n) \<in> set m. vn_name n = k)"

lemma touch_node_ok:
  assumes "nodes_ok m"
  shows "nodes_ok (touch_node c m e) \<and> fst ` set (touch_node c m e) = insert (et_name e) (fst ` set m)"
proof -
  let ?d = "\<lparr>vn_name = et_name e, vn_entityId = et_id e, vn_type = temporalGraphEntityType (et_name e), vn_kind = et_kind e,
    vn_current = False, vn_governedDecision = starts_with ''decision:'' (et_name e) \<or> starts_with ''adr:'' (et_name e),
    vn_degree = 0, vn_community = 0\<rparr>"
  let ?n = "lookup m (et_name e) ?d"
  have "vn_name ?n = et_name e"
  proof (cases "et_name e \<in> fst ` set m")
    case True
    then show ?thesis using lookup_in [OF True, of ?d] assms unfolding nodes_ok_def by blast
  next
    case False
    then have "map_of m (et_name e) = None" by (simp add: map_of_eq_None_iff)
    then show ?thesis by (simp add: lookup_def)
  qed
  then show ?thesis
    using assms set_map_set [of m "et_name e" "?n\<lparr>vn_current := vn_current ?n \<or> c\<rparr>"]
    unfolding touch_node_def Let_def nodes_ok_def keys_map_set by auto
qed

lemma graph_fold_ok:
  "nodes_ok m \<Longrightarrow> fst ` set m = fst ` set d \<Longrightarrow>
   nodes_ok (foldl (\<lambda>m (e, s, t, f). touch_node (is_current tm f) (touch_node (is_current tm f) m s) t) m rows) \<and>
   fst ` set (foldl (\<lambda>m (e, s, t, f). touch_node (is_current tm f) (touch_node (is_current tm f) m s) t) m rows) =
   fst ` set (foldl (\<lambda>m (e, s, t, f). bump (bump m (et_name s)) (et_name t)) d rows)"
proof (induction rows arbitrary: m d)
  case (Cons r rows)
  obtain e s t f where r: "r = (e, s, t, f)" by (cases r)
  let ?m = "touch_node (is_current tm f) (touch_node (is_current tm f) m s) t"
  note one = touch_node_ok [OF Cons.prems(1), of "is_current tm f" s]
  note two = touch_node_ok [OF conjunct1 [OF one], of "is_current tm f" t]
  show ?case
    using Cons.IH [of ?m "bump (bump d (et_name s)) (et_name t)"] one two Cons.prems(2) by (simp add: r)
qed simp

lemma graph_nodes_ok:
  "nodes_ok (graph_nodes tm rows) \<and> fst ` set (graph_nodes tm rows) = fst ` set (graph_degrees rows)"
  using graph_fold_ok [of "[]" "[]" tm rows] by (simp add: graph_nodes_def graph_degrees_def nodes_ok_def)

lemma distinct_bump: "distinct (map fst m) \<Longrightarrow> distinct (map fst (bump m k))"
  by (simp add: bump_def keys_map_set)

lemma graph_degrees_distinct: "distinct (map fst (graph_degrees rows))"
proof -
  have "distinct (map fst m) \<Longrightarrow> distinct (map fst (foldl (\<lambda>m (e, s, t, f). bump (bump m (et_name s)) (et_name t)) m rows))" for m
    by (induction rows arbitrary: m) (auto simp: distinct_bump)
  then show ?thesis by (simp add: graph_degrees_def)
qed

lemma sum_lookup:
  fixes m :: "(string \<times> nat) list"
  assumes "distinct (map fst m)" and "distinct ks" and "set ks = fst ` set m"
  shows "sum_list (map (\<lambda>k. lookup m k 0) ks) = sum_list (map snd m)"
proof -
  have "sum_list (map (\<lambda>k. lookup m k 0) ks) = (\<Sum>k \<in> fst ` set m. lookup m k 0)"
    using assms(2,3) by (simp add: sum_list_distinct_conv_sum_set)
  also have "\<dots> = sum_list (map (\<lambda>k. lookup m k 0) (map fst m))"
    using assms(1) by (simp only: sum_list_distinct_conv_sum_set list.set_map)
  also have "map (\<lambda>k. lookup m k 0) (map fst m) = map snd m"
    using assms(1) by (auto simp: lookup_def)
  finally show ?thesis .
qed

lemma node_degrees:
  "sum_list (map vn_degree (fst (graph_of_rows rt tm rows))) = 2 * length (fst (snd (graph_of_rows rt tm rows)))"
proof -
  let ?le = "\<lambda>a b. locale_compare rt (vn_name a) (vn_name b) \<le> 0"
  let ?ns = "map snd (graph_nodes tm rows)"
  have names: "map vn_name ?ns = map fst (graph_nodes tm rows)"
    using graph_nodes_ok [of tm rows] by (auto simp: nodes_ok_def)
  have perm: "mset (map vn_name (order_by ?le ?ns)) = mset (map fst (graph_nodes tm rows))"
    unfolding names [symmetric] by (simp only: mset_map mset_order_by)
  have dist: "distinct (map vn_name (order_by ?le ?ns))"
    using mset_eq_imp_distinct_iff [OF perm] graph_nodes_ok [of tm rows] by (simp add: nodes_ok_def)
  have keys: "set (map vn_name (order_by ?le ?ns)) = fst ` set (graph_degrees rows)"
    using mset_eq_setD [OF perm] graph_nodes_ok [of tm rows] by simp
  from sum_lookup [OF graph_degrees_distinct dist keys] degrees_total [of rows]
  have "sum_list (map (\<lambda>k. lookup (graph_degrees rows) k 0) (map vn_name (order_by ?le ?ns))) = 2 * length rows" by simp
  then show ?thesis by (simp add: graph_of_rows_def Let_def graph_edges_def comp_def)
qed

section \<open>Properties\<close>

definition hop_bound :: "int option \<Rightarrow> nat" where
  "hop_bound maxHops = bounded_limit 12 6 maxHops"

lemma hop_bound_pos: "0 < hop_bound maxHops"
  using bounded_limit_bounds [of 12 6 maxHops] by (simp add: hop_bound_def)

lemma not_in_reachedD: "v \<notin> reached des src n \<Longrightarrow> walk des src es v \<Longrightarrow> n < length es"
  using walk_reached reached_mono by (metis not_le subsetD)

lemma bfs_from_source:
  assumes "src \<noteq> dest"
  shows "bfs_answer des src dest (hop_bound h)
    (bfs (hop_bound h) dest des [\<lparr>si_node = src, si_path = [src], si_edges = []\<rparr>] [src])"
  using bfs_correct [OF bfs_start [OF assms] hop_bound_pos] by simp

definition is_shortest :: "graph_edge list \<Rightarrow> string \<Rightarrow> string \<Rightarrow> graph_edge list \<Rightarrow> bool" where
  "is_shortest des src dest es \<longleftrightarrow> walk des src es dest \<and> (\<forall>es'. walk des src es' dest \<longrightarrow> length es \<le> length es')"

definition path_answer :: "graph_edge list \<Rightarrow> string \<Rightarrow> string \<Rightarrow> nat \<Rightarrow> path_result \<Rightarrow> bool" where
  "path_answer des src dest hops r \<longleftrightarrow>
     (if \<exists>es. length es \<le> hops \<and> walk des src es dest
      then is_shortest des src dest (pr_edges r) \<and> length (pr_edges r) \<le> hops \<and> pr_path r = src # map ge_to (pr_edges r)
      else r = \<lparr>pr_path = [], pr_edges = []\<rparr>)"

lemma bfs_path_answer:
  assumes "bfs_answer des src dest hops r"
  shows "path_answer des src dest hops (case r of None \<Rightarrow> \<lparr>pr_path = [], pr_edges = []\<rparr>
    | Some found \<Rightarrow> \<lparr>pr_path = si_path found, pr_edges = si_edges found\<rparr>)"
proof (cases r)
  case None
  then have "dest \<notin> reached des src hops" using assms by (simp add: bfs_answer_def)
  then show ?thesis using not_in_reachedD None by (fastforce simp: path_answer_def)
next
  case (Some x)
  then have x: "walk des src (si_edges x) dest" "si_path x = src # map ge_to (si_edges x)" "length (si_edges x) \<le> hops"
    "dest \<notin> reached des src (length (si_edges x) - 1)" "0 < length (si_edges x)"
    using assms by (auto simp: bfs_answer_def item_ok_def)
  then have "is_shortest des src dest (si_edges x)"
    using not_in_reachedD [OF x(4)] by (fastforce simp: is_shortest_def)
  then show ?thesis using x Some by (auto simp: path_answer_def)
qed

text \<open>C14: the path search is total and exact. For a workspace, two entity names and a scope it always
  returns; when some walk of at most the bounded number of hops joins them it returns a shortest one, with the
  names along it, and otherwise the empty path.\<close>

theorem path_search_is_exact:
  assumes "ws \<noteq> []" and "src \<noteq> []" and "dest \<noteq> []" and "normalizeTemporalScope scope = Inr sc"
  shows "\<exists>r. getTemporalMemoryPath ws scope src dest maxHops undirected t db = Inr r \<and>
    path_answer (directed_edges undirected (validTemporalGraphEdges ws sc t db)) src dest (hop_bound maxHops) r"
proof (cases "src = dest")
  case True
  have "path_answer des dest dest n \<lparr>pr_path = [dest], pr_edges = []\<rparr>" for des n
    by (auto simp: path_answer_def is_shortest_def intro: exI [of _ "[]"])
  then show ?thesis using True assms by (simp add: getTemporalMemoryPath_def lift_q_def)
next
  case False
  show ?thesis
    using bfs_path_answer [OF bfs_from_source [OF False]] False assms
    by (simp add: getTemporalMemoryPath_def lift_q_def Let_def hop_bound_def)
qed

text \<open>A database with the sample fact and its edge.\<close>

definition sample_graph_db :: memory_db where
  "sample_graph_db = empty_db\<lparr>d_facts := [n_row sample_fact],
     d_entities := [\<lparr>et_id = ''e1'', et_workspace_id = ''w2'', et_scope = ''workspace'', et_kind = ''entity'', et_name = ''s'',
         et_created_at = ''5'', et_updated_at = ''5''\<rparr>,
       \<lparr>et_id = ''e2'', et_workspace_id = ''w2'', et_scope = ''workspace'', et_kind = ''entity'', et_name = ''o'',
         et_created_at = ''5'', et_updated_at = ''5''\<rparr>],
     d_edges := [\<lparr>ed_id = ''g'', ed_workspace_id = ''w2'', ed_scope = ''workspace'', ed_source = ''e1'', ed_target = ''e2'',
       ed_predicate = ''p'', ed_fact_id = ''memfact_a'', ed_created_at = ''5''\<rparr>]\<rparr>"

lemma sample_graph:
  "validTemporalGraphEdges ''w2'' ''workspace'' ''6'' sample_graph_db =
   [\<lparr>ge_from = ''s'', ge_predicate = ''p'', ge_to = ''o'', ge_factId = ''memfact_a''\<rparr>]"
  by (simp add: validTemporalGraphEdges_def join_edges_def sample_graph_db_def empty_db_def sample_fact_def valid_at_def
      not_replaced_def edge_view_def)

theorem path_search_is_exact_witness:
  "\<exists>r. getTemporalMemoryPath ''w2'' (Str ''workspace'') ''o'' ''s'' None True ''6'' sample_graph_db = Inr r \<and>
    path_answer (directed_edges True (validTemporalGraphEdges ''w2'' ''workspace'' ''6'' sample_graph_db)) ''o'' ''s'' (hop_bound None) r \<and>
    pr_path r = [''o'', ''s'']"
proof -
  obtain r where r: "getTemporalMemoryPath ''w2'' (Str ''workspace'') ''o'' ''s'' None True ''6'' sample_graph_db = Inr r"
    and ok: "path_answer (directed_edges True (validTemporalGraphEdges ''w2'' ''workspace'' ''6'' sample_graph_db)) ''o'' ''s'' (hop_bound None) r"
    using path_search_is_exact [of "''w2''" "''o''" "''s''" "Str ''workspace''" "''workspace''" None True "''6''" sample_graph_db]
    by (auto simp: normalizeTemporalScope_def TEMPORAL_MEMORY_SCOPES_def)
  have "pr_path r = [''o'', ''s'']"
    using r by (auto simp: getTemporalMemoryPath_def normalizeTemporalScope_def TEMPORAL_MEMORY_SCOPES_def lift_q_def sample_graph
        directed_edges_def flip_edge_def adjacent_def step_to_def bounded_limit_def Let_def)
  then show ?thesis using r ok by blast
qed

text \<open>C16: the graph is a refined view of the facts. Whatever calls built the database, the edges of the
  joined view of a workspace and scope at a time are exactly the facts of that scope that are valid then and
  not yet replaced: no edge without its fact, no such fact without its edge.\<close>

theorem graph_view_refines_facts:
  "set (validTemporalGraphEdges ws sc t (run_memory rt ops empty_db)) =
   fact_edge ` {f \<in> set (d_facts (run_memory rt ops empty_db)). in_scope ws sc f \<and> valid_at t f \<and> not_replaced t f}"
  unfolding validTemporalGraphEdges_def list.set_map set_order_by join_is_facts [OF run_memory_graph] ..

lemma community_has_label:
  assumes "labels_ok ids es labels" and "(a, c) \<in> set (map (\<lambda>(n, l). (n, label_index (sorted_unique (map snd labels)) l)) labels)"
  obtains l where "c = label_index (sorted_unique (map snd labels)) l" "l \<in> set (sorted_unique (map snd labels))"
    "(a, l) \<in> (linked es)\<^sup>*"
proof -
  from assms(2) obtain l where "(a, l) \<in> set labels" "c = label_index (sorted_unique (map snd labels)) l" by auto
  moreover from this have "l \<in> set (sorted_unique (map snd labels))" by force
  ultimately show ?thesis using that assms(1) by (auto simp: labels_ok_def)
qed

text \<open>The neighbourhood of an entity at a depth lists exactly the entities within that many edges,
  each with its true distance.\<close>

theorem neighbourhood_has_exact_distances:
  "set (hd_nodes (neighbourhood edges entity depth)) =
   {(w, d). d \<le> depth \<and> w \<in> at_distance (directed_edges True edges) entity d}"
  using neighbourhood_inv [of edges entity depth] by (simp add: hood_inv_def)

text \<open>Label propagation never merges unrelated entities. Two entities with the same community
  number are joined by a chain of edges, and every entity has a community, numbered from 1 to at most the
  number of entities.\<close>

theorem communities_join_linked_entities:
  assumes "(a, c) \<in> set (temporalGraphCommunities rt ids es)" and "(b, c) \<in> set (temporalGraphCommunities rt ids es)"
  shows "1 \<le> c \<and> (a, b) \<in> (linked es)\<^sup>*"
proof -
  obtain labels where ok: "labels_ok ids es labels"
    and eq: "temporalGraphCommunities rt ids es = map (\<lambda>(n, l). (n, label_index (sorted_unique (map snd labels)) l)) labels"
    by (rule communities_labels)
  obtain l where l: "c = label_index (sorted_unique (map snd labels)) l" "l \<in> set (sorted_unique (map snd labels))"
    "(a, l) \<in> (linked es)\<^sup>*"
    using community_has_label [OF ok assms(1) [unfolded eq]] .
  obtain l' where l': "c = label_index (sorted_unique (map snd labels)) l'" "l' \<in> set (sorted_unique (map snd labels))"
    "(b, l') \<in> (linked es)\<^sup>*"
    using community_has_label [OF ok assms(2) [unfolded eq]] .
  have "l = l'" using label_index_inj l(1,2) l'(1,2) by metis
  then have "(a, b) \<in> (linked es)\<^sup>*" using l(3) linked_sym [OF l'(3)] by (meson rtrancl_trans)
  then show ?thesis using label_index_pos [OF l(2)] l(1) by simp
qed

theorem communities_join_linked_entities_witness:
  "1 \<le> (1::nat) \<and> (''a'', ''b'') \<in> (linked [(''a'', ''b'')])\<^sup>*"
proof (rule communities_join_linked_entities [where rt = rev_runtime and ids = "[''a'', ''b'']"])
  have "temporalGraphCommunities rev_runtime [''a'', ''b''] [(''a'', ''b'')] = [(''a'', 1), (''b'', 1)]"
    by code_simp
  then show "(''a'', 1) \<in> set (temporalGraphCommunities rev_runtime [''a'', ''b''] [(''a'', ''b'')])"
    and "(''b'', 1) \<in> set (temporalGraphCommunities rev_runtime [''a'', ''b''] [(''a'', ''b'')])" by simp_all
qed

text \<open>The degrees the graph view reports count every reported edge at both its ends.\<close>

theorem degrees_count_edges_twice:
  "case getTemporalMemoryGraph rt ws scope includeHistory tm limit db of
     Inl e \<Rightarrow> e = WorkspaceMissing \<or> (\<exists>q. e = QueueError q)
   | Inr (nodes, edges, summary) \<Rightarrow>
       sum_list (map vn_degree nodes) = 2 * length edges \<and> gs_edgeCount summary = length edges \<and> length edges \<le> 2500"
proof -
  have bound: "int (bounded_limit 2500 1000 limit) \<le> 2500" using bounded_limit_bounds [of 2500] by simp
  have rows: "case graph_of_rows rt tm rows of (nodes, edges, summary) \<Rightarrow>
      sum_list (map vn_degree nodes) = 2 * length edges \<and> gs_edgeCount summary = length edges \<and> length edges = length rows" for rows
    using node_degrees [of rt tm rows] by (auto simp: graph_of_rows_def Let_def graph_edges_def)
  show ?thesis
    using rows bound
    by (fastforce simp: getTemporalMemoryGraph_def lift_q_def split: sum.splits prod.splits)
qed

end
