(* ===== verification/JsDyn.thy ===== *)
theory JsDyn
  imports Protocol MemoryCore
begin

text \<open>
  The operators of the language that code applies to values of unknown shape, with the
  exception a wrong shape raises: conversions to string and number, property enumeration,
  iteration, array and string methods, and copying through JSON. A method that an operand
  does not have is a \<open>TypeError\<close>. Objects with their own \<open>toString\<close> or \<open>valueOf\<close> are not
  distinguished from others when they are converted.
\<close>

datatype js_error = TypeError string | SyntaxError | ThrownError string

section \<open>Conversions\<close>

definition digit_val :: "char \<Rightarrow> nat" where
  "digit_val c = (let n = of_char c :: nat in if n < 58 then n - 48 else if n < 97 then n - 55 else n - 87)"

definition digits_val :: "nat \<Rightarrow> string \<Rightarrow> rat" where
  "digits_val base ds = of_nat (foldl (\<lambda>a c. base * a + digit_val c) 0 ds)"

text \<open>A decimal literal: digits with an optional fraction and exponent, at least one digit.\<close>

definition read_exponent :: "string \<Rightarrow> rat option" where
  "read_exponent s = (case s of [] \<Rightarrow> Some 1
     | e # t \<Rightarrow> if e \<noteq> CHR ''e'' \<and> e \<noteq> CHR ''E'' then None else
         let neg = (case t of c # _ \<Rightarrow> c = CHR ''-'' | [] \<Rightarrow> False);
             ds = (case t of c # r \<Rightarrow> if c = CHR ''-'' \<or> c = CHR ''+'' then r else t | [] \<Rightarrow> t);
             n = nat \<lfloor>digits_val 10 ds\<rfloor>
         in if ds = [] \<or> \<not> list_all is_digit ds then None else Some (if neg then 1 / 10 ^ n else 10 ^ n))"

definition read_decimal :: "string \<Rightarrow> rat option" where
  "read_decimal s =
     (let whole = takeWhile is_digit s; r = dropWhile is_digit s;
          frac = (case r of c # t \<Rightarrow> if c = CHR ''.'' then takeWhile is_digit t else [] | [] \<Rightarrow> []);
          r' = (case r of c # t \<Rightarrow> if c = CHR ''.'' then dropWhile is_digit t else r | [] \<Rightarrow> r)
      in if whole = [] \<and> frac = [] then None
         else map_option (\<lambda>e. (digits_val 10 whole + digits_val 10 frac / 10 ^ length frac) * e) (read_exponent r'))"

definition read_radix :: "nat \<Rightarrow> string \<Rightarrow> rat option" where
  "read_radix base ds = (if ds \<noteq> [] \<and> list_all (\<lambda>c. is_alnum c \<and> digit_val c < base) ds then Some (digits_val base ds) else None)"

text \<open>\<open>Number(text)\<close>; \<open>None\<close> is \<open>NaN\<close>.\<close>

definition str_number :: "string \<Rightarrow> rat option" where
  "str_number text =
     (let s = trim text in
      case s of
        [] \<Rightarrow> Some 0
      | c # t \<Rightarrow>
          if c = CHR ''+'' then read_decimal t
          else if c = CHR ''-'' then map_option uminus (read_decimal t)
          else if starts_with ''0x'' s \<or> starts_with ''0X'' s then read_radix 16 (drop 2 s)
          else if starts_with ''0o'' s \<or> starts_with ''0O'' s then read_radix 8 (drop 2 s)
          else if starts_with ''0b'' s \<or> starts_with ''0B'' s then read_radix 2 (drop 2 s)
          else read_decimal s)"

fun to_number :: "runtime \<Rightarrow> js \<Rightarrow> rat option" where
  "to_number rt Undef = None"
| "to_number rt Null = Some 0"
| "to_number rt (Bool b) = Some (if b then 1 else 0)"
| "to_number rt (Num n) = Some n"
| "to_number rt (Str s) = str_number s"
| "to_number rt v = str_number (js_to_string rt v)"

section \<open>Shapes\<close>

text \<open>\<open>assertPlainObject\<close> of packages/protocol\<close>

definition assertPlainObject :: "js \<Rightarrow> string \<Rightarrow> (js_error, unit) result" where
  "assertPlainObject v label = require (is_plain v) (TypeError (label @ '' must be an object''))"

definition has_own :: "js \<Rightarrow> string \<Rightarrow> bool" where
  "has_own v k \<longleftrightarrow> k \<in> set (keys v)"

fun is_bool :: "js \<Rightarrow> bool" where
  "is_bool (Bool _) = True"
| "is_bool _ = False"

text \<open>\<open>Object.entries\<close>: arrays and strings enumerate their indices.\<close>

fun own_entries :: "js \<Rightarrow> (string \<times> js) list" where
  "own_entries (Obj kvs) = kvs"
| "own_entries (Arr xs) = zip (map show_nat [0..<length xs]) xs"
| "own_entries (Str s) = zip (map show_nat [0..<length s]) (map (\<lambda>c. Str [c]) s)"
| "own_entries _ = []"

text \<open>\<open>for (const x of v)\<close>\<close>

fun js_iter :: "js \<Rightarrow> (js_error, js list) result" where
  "js_iter (Arr xs) = Inr xs"
| "js_iter (Str s) = Inr (map (\<lambda>c. Str [c]) s)"
| "js_iter _ = Inl (TypeError ''not iterable'')"

text \<open>Receivers of \<open>map\<close>, \<open>every\<close>, \<open>some\<close>, \<open>find\<close>, \<open>filter\<close>\<close>

fun js_array :: "js \<Rightarrow> (js_error, js list) result" where
  "js_array (Arr xs) = Inr xs"
| "js_array _ = Inl (TypeError ''not a function'')"

text \<open>\<open>v.includes(x)\<close> of an array or a string\<close>

fun js_has :: "runtime \<Rightarrow> js \<Rightarrow> js \<Rightarrow> (js_error, bool) result" where
  "js_has rt (Arr xs) x = Inr (js_includes xs x)"
| "js_has rt (Str s) x = Inr (some_suffix (starts_with (js_to_string rt x)) s)"
| "js_has rt _ x = Inl (TypeError ''includes is not a function'')"

text \<open>The truth of \<open>v?.length\<close>\<close>

fun has_length :: "js \<Rightarrow> bool" where
  "has_length (Arr xs) = (xs \<noteq> [])"
| "has_length (Str s) = (s \<noteq> [])"
| "has_length v = truthy (get v ''length'')"

text \<open>\<open>xs.every(p)\<close> and \<open>xs.some(p)\<close> with a predicate that may throw\<close>

fun every_res :: "('a \<Rightarrow> ('e, bool) result) \<Rightarrow> 'a list \<Rightarrow> ('e, bool) result" where
  "every_res p [] = Inr True"
| "every_res p (x # xs) = bind_res (p x) (\<lambda>b. if b then every_res p xs else Inr False)"

fun some_res :: "('a \<Rightarrow> ('e, bool) result) \<Rightarrow> 'a list \<Rightarrow> ('e, bool) result" where
  "some_res p [] = Inr False"
| "some_res p (x # xs) = bind_res (p x) (\<lambda>b. if b then Inr True else some_res p xs)"

fun map_res :: "('a \<Rightarrow> ('e, 'b) result) \<Rightarrow> 'a list \<Rightarrow> ('e, 'b list) result" where
  "map_res f [] = Inr []"
| "map_res f (x # xs) = bind_res (f x) (\<lambda>y. bind_res (map_res f xs) (\<lambda>ys. Inr (y # ys)))"

text \<open>\<open>{ ...a, ...b }\<close>: a key of both keeps its place and takes the later value.\<close>

fun put_key :: "(string \<times> js) list \<Rightarrow> string \<times> js \<Rightarrow> (string \<times> js) list" where
  "put_key [] kv = [kv]"
| "put_key (e # es) kv = (if fst e = fst kv then kv # es else e # put_key es kv)"

definition spread :: "(string \<times> js) list \<Rightarrow> (string \<times> js) list \<Rightarrow> (string \<times> js) list" where
  "spread a b = foldl put_key a b"

text \<open>\<open>JSON.parse(JSON.stringify(v))\<close> of a value that is not \<open>undefined\<close>\<close>

fun deepClone :: "js \<Rightarrow> js" where
  "deepClone (Arr xs) = Arr (map (\<lambda>x. if x = Undef then Null else deepClone x) xs)"
| "deepClone (Obj kvs) = Obj (map (\<lambda>(k, v). (k, deepClone v)) (filter (\<lambda>(k, v). v \<noteq> Undef) kvs))"
| "deepClone v = v"

section \<open>Lemmas\<close>

named_theorems js_dyn \<open>what a successful dynamic operation says\<close>

lemma js_array_Inr [simp]: "js_array v = Inr xs \<longleftrightarrow> v = Arr xs"
  by (cases v) auto

lemma every_res_True [js_dyn]: "every_res p xs = Inr True \<longleftrightarrow> (\<forall>x \<in> set xs. p x = Inr True)"
  by (induction xs) (auto simp: bind_res_eq_Inr split: if_splits)

lemma some_res_True [js_dyn]: "some_res p xs = Inr True \<Longrightarrow> \<exists>x \<in> set xs. p x = Inr True"
  by (induction xs) (auto simp: bind_res_eq_Inr split: if_splits)

lemma map_res_Inr [js_dyn]: "map_res f xs = Inr ys \<longleftrightarrow> list_all2 (\<lambda>x y. f x = Inr y) xs ys"
  by (induction xs arbitrary: ys) (auto simp: bind_res_eq_Inr list_all2_Cons1)

lemma assertPlainObject_Inr [simp]: "assertPlainObject v l = Inr u \<longleftrightarrow> is_plain v"
  by (simp add: assertPlainObject_def)

lemma get_put_key: "map_of (put_key m kv) = (map_of m)(fst kv \<mapsto> snd kv)"
  by (induction m kv rule: put_key.induct) auto

lemma js_has_Arr [simp]: "js_has rt (Arr xs) x = Inr (js_includes xs x)"
  by simp

end
