(* ===== verification/Policy.thy ===== *)
theory Policy
  imports JsDyn
begin

text \<open>
  packages/policy/src/index.mjs: the policy registry and its validation, the evaluation of a
  contextual request into a decision, capability containment in the trusted tool manifest,
  approval binding through the operation fingerprint, the audited service, and workspace
  authorization. Requests, manifests and the registry are values of unknown shape, so an
  evaluation is a decision or the exception that escapes. Shown: an allowing decision implies
  every condition of the policy, no recorded reason is lost, an approval admits only the
  operation it was given for, and a write whose audit fails is denied.
\<close>

section \<open>Vocabulary\<close>

definition POLICY_VERSION :: string where "POLICY_VERSION = ''1.0.0''"

definition POLICY_SCHEMA_VERSION :: string where "POLICY_SCHEMA_VERSION = ''1.0.0''"

definition AUTHZ_ACTIONS :: "string list" where
  "AUTHZ_ACTIONS = [''system.status.read'', ''workspace.read'', ''workspace.manage'', ''dashboard.read'', ''run.read'',
     ''run.execute'', ''context.compile'', ''memory.approve'', ''stream.read'', ''workspace.reset'', ''token.manage'', ''audit.read'']"

definition POLICY_REASON_CODES :: "string list" where
  "POLICY_REASON_CODES = [''missing_identity'', ''missing_workspace'', ''unknown_action'', ''unsupported_role'', ''membership_required'',
     ''workspace_mismatch'', ''resource_denied'', ''tool_not_registered'', ''operation_not_declared'', ''capability_exceeds_manifest'',
     ''filesystem_read_denied'', ''filesystem_write_denied'', ''network_denied'', ''secret_scope_denied'', ''data_class_denied'',
     ''sandbox_denied'', ''budget_exceeded'', ''approval_required'', ''approval_invalid'', ''approval_expired'',
     ''approval_scope_mismatch'', ''idempotency_required'', ''external_writes_disabled'', ''policy_configuration_invalid'']"

definition POLICY_RESOURCE_TYPES :: "string list" where
  "POLICY_RESOURCE_TYPES = [''system'', ''workspace'', ''run'', ''workflow'', ''context'', ''artifact'', ''source-snapshot'',
     ''memory'', ''tool'', ''token'', ''audit'']"

definition POLICY_DATA_CLASSES :: "string list" where
  "POLICY_DATA_CLASSES = [''public'', ''workspace-private'', ''confidential'', ''secret'']"

definition POLICY_SIDE_EFFECT_CLASSES :: "string list" where
  "POLICY_SIDE_EFFECT_CLASSES = [''read-only'', ''reversible-write'', ''consequential-write'']"

definition strs :: "string list \<Rightarrow> js" where
  "strs ss = Arr (map Str ss)"

definition ROLE_ACTIONS :: "(string \<times> string list) list" where
  "ROLE_ACTIONS =
     [(''owner'', AUTHZ_ACTIONS @ [''tool.invoke'']),
      (''builder'', [''workspace.read'', ''dashboard.read'', ''run.read'', ''run.execute'', ''context.compile'', ''memory.approve'',
        ''stream.read'', ''tool.invoke'']),
      (''operator'', [''workspace.read'', ''dashboard.read'', ''run.read'', ''run.execute'', ''stream.read'', ''tool.invoke'']),
      (''auditor'', [''workspace.read'', ''dashboard.read'', ''run.read'', ''stream.read'', ''audit.read'', ''tool.invoke''])]"

definition DEFAULT_LIMITS :: "(string \<times> js) list" where
  "DEFAULT_LIMITS = [(''runtimeMs'', Num 30000), (''memoryBytes'', Num (256 * 1024 * 1024)), (''outputBytes'', Num 1000000),
     (''inputBytes'', Num 1000000), (''invocationCount'', Num 1), (''costUnits'', Num 0), (''retryCount'', Num 0)]"

definition DEFAULT_REGISTRY :: "(string \<times> js) list" where
  "DEFAULT_REGISTRY =
     [(''schemaVersion'', Str POLICY_SCHEMA_VERSION), (''version'', Str POLICY_VERSION),
      (''knownActions'', strs (AUTHZ_ACTIONS @ [''tool.invoke''])), (''resourceTypes'', strs POLICY_RESOURCE_TYPES),
      (''roleActions'', Obj (map (\<lambda>(r, as). (r, strs as)) ROLE_ACTIONS)), (''dataClasses'', strs POLICY_DATA_CLASSES),
      (''sideEffectClasses'', strs POLICY_SIDE_EFFECT_CLASSES), (''defaultLimits'', Obj DEFAULT_LIMITS),
      (''externalWritesEnabled'', Bool False), (''approvalBinding'', Str ''exact-operation-fingerprint''),
      (''idempotencyRequiredFor'', strs [''reversible-write'', ''consequential-write''])]"

definition REGISTRY_KEYS :: "string list" where
  "REGISTRY_KEYS = [''schemaVersion'', ''version'', ''knownActions'', ''resourceTypes'', ''roleActions'', ''dataClasses'',
     ''sideEffectClasses'', ''defaultLimits'', ''externalWritesEnabled'', ''approvalBinding'', ''idempotencyRequiredFor'']"

definition REQUEST_KEYS :: "string list" where
  "REQUEST_KEYS = [''schemaVersion'', ''requestId'', ''correlationId'', ''operationId'', ''principal'', ''workspaceId'', ''membership'',
     ''action'', ''resource'', ''environment'', ''capabilityRequest'', ''trustedToolManifest'', ''approvalContext'', ''idempotencyKey'',
     ''trustedTimestamp'', ''payloadFingerprint'', ''untrustedInputs'']"

definition PRINCIPAL_KEYS :: "string list" where
  "PRINCIPAL_KEYS = [''userId'', ''principalType'', ''authenticationMethod'', ''status'', ''tokenScopes'', ''tokenWorkspaceIds'', ''agentRole'']"

definition MEMBERSHIP_KEYS :: "string list" where "MEMBERSHIP_KEYS = [''workspaceId'', ''role'', ''status'']"

definition RESOURCE_KEYS :: "string list" where "RESOURCE_KEYS = [''type'', ''id'', ''workspaceId'', ''dataClass'']"

definition ENVIRONMENT_KEYS :: "string list" where
  "ENVIRONMENT_KEYS = [''deploymentProfile'', ''locality'', ''interactive'', ''externalWritesEnabled'']"

definition CAPABILITY_KEYS :: "string list" where
  "CAPABILITY_KEYS = [''toolId'', ''operation'', ''sideEffectClass'', ''filesystem'', ''network'', ''secretReferences'', ''dataClasses'',
     ''sandbox'', ''limits'']"

definition FILESYSTEM_KEYS :: "string list" where "FILESYSTEM_KEYS = [''read'', ''write'']"

definition NETWORK_KEYS :: "string list" where
  "NETWORK_KEYS = [''protocol'', ''host'', ''port'', ''methods'', ''consequence'', ''locality'']"

definition LIMIT_KEYS :: "string list" where
  "LIMIT_KEYS = [''runtimeMs'', ''memoryBytes'', ''outputBytes'', ''inputBytes'', ''invocationCount'', ''costUnits'', ''retryCount'']"

definition APPROVAL_KEYS :: "string list" where
  "APPROVAL_KEYS = [''approvalId'', ''operationFingerprint'', ''workspaceId'', ''actorId'', ''approverId'', ''approvedAt'', ''expiresAt'',
     ''status'', ''policyVersion'', ''serverVerified'']"

definition TOOL_KEYS :: "string list" where
  "TOOL_KEYS = [''id'', ''allowedRoles'', ''riskClass'', ''operations'', ''permissions'', ''timeoutMs'', ''outputLimitBytes'', ''approval'']"

definition OPERATION_KEYS :: "string list" where
  "OPERATION_KEYS = [''sideEffectClass'', ''filesystem'', ''network'', ''secretReferences'', ''dataClasses'', ''sandbox'', ''limits'', ''approval'']"

section \<open>Validation\<close>

definition assertNoUnknown :: "js \<Rightarrow> string list \<Rightarrow> string \<Rightarrow> (js_error, unit) result" where
  "assertNoUnknown v allowed label =
     all_ok (\<lambda>(k, _). require (k \<in> set allowed) (TypeError (label @ '':unknown_field:'' @ k))) (own_entries v)"

definition policyConfigError :: "string \<Rightarrow> js_error" where
  "policyConfigError field = TypeError (''policy_configuration_invalid:'' @ field)"

definition plain_known :: "js \<Rightarrow> string list \<Rightarrow> string \<Rightarrow> (js_error, unit) result" where
  "plain_known v allowed label = bind_res (assertPlainObject v label) (\<lambda>_. assertNoUnknown v allowed label)"

text \<open>The loop of \<open>validateLimits\<close>: every limit is a known, non-negative number within its maximum.\<close>

definition limit_ok :: "js \<Rightarrow> string \<times> js \<Rightarrow> bool" where
  "limit_ok maxima = (\<lambda>(key, value). key \<in> set LIMIT_KEYS \<and>
     (case value of Num n \<Rightarrow> 0 \<le> n \<and> (case get maxima key of Num m \<Rightarrow> n \<le> m | _ \<Rightarrow> True) | _ \<Rightarrow> False))"

definition limits_ok :: "js \<Rightarrow> js \<Rightarrow> bool" where
  "limits_ok requested maxima = list_all (limit_ok maxima) (own_entries requested)"

definition validateLimits :: "js \<Rightarrow> js \<Rightarrow> bool \<Rightarrow> (js_error, bool) result" where
  "validateLimits requested maxima throwOnInvalid =
     (if limits_ok requested maxima then Inr True
      else if throwOnInvalid then Inl (policyConfigError ''defaultLimits'') else Inr False)"

definition version_re :: re where
  "version_re = seqs [Start, at_least 1 (Cls is_digit), lit ''.'', at_least 1 (Cls is_digit), lit ''.'', at_least 1 (Cls is_digit), End]"

fun nonempty_str :: "js \<Rightarrow> bool" where
  "nonempty_str (Str s) = (s \<noteq> [])"
| "nonempty_str _ = False"

definition string_array :: "js \<Rightarrow> bool" where
  "string_array v \<longleftrightarrow> is_arr v \<and> list_all nonempty_str (items v)"

definition validatePolicyRegistry :: "runtime \<Rightarrow> js \<Rightarrow> (js_error, bool) result" where
  "validatePolicyRegistry rt registry =
     bind_res (plain_known registry REGISTRY_KEYS ''policy registry'') (\<lambda>_.
     bind_res (require (get registry ''schemaVersion'' = Str POLICY_SCHEMA_VERSION) (policyConfigError ''schemaVersion'')) (\<lambda>_.
     bind_res (require (re_test version_re (js_to_string rt (get registry ''version''))) (policyConfigError ''version'')) (\<lambda>_.
     bind_res (all_ok (\<lambda>key. require (string_array (get registry key)) (policyConfigError key))
        [''knownActions'', ''resourceTypes'', ''dataClasses'', ''sideEffectClasses'', ''idempotencyRequiredFor'']) (\<lambda>_.
     bind_res (assertPlainObject (get registry ''roleActions'') ''policy registry roleActions'') (\<lambda>_.
     bind_res (all_ok (\<lambda>(role, actions). require (role \<in> fst ` set ROLE_ACTIONS \<and> is_arr actions \<and>
          list_all (\<lambda>a. js_includes (items (get registry ''knownActions'')) a) (items actions))
          (policyConfigError (''roleActions.'' @ role))) (own_entries (get registry ''roleActions''))) (\<lambda>_.
     bind_res (assertPlainObject (get registry ''defaultLimits'') ''policy registry defaultLimits'') (\<lambda>_.
     bind_res (validateLimits (get registry ''defaultLimits'') (get registry ''defaultLimits'') True) (\<lambda>_.
     bind_res (require (is_bool (get registry ''externalWritesEnabled'')) (policyConfigError ''externalWritesEnabled'')) (\<lambda>_.
     bind_res (require (get registry ''approvalBinding'' = Str ''exact-operation-fingerprint'') (policyConfigError ''approvalBinding'')) (\<lambda>_.
       Inr True))))))))))"

definition createPolicyRegistry :: "runtime \<Rightarrow> js \<Rightarrow> (js_error, js) result" where
  "createPolicyRegistry rt overrides =
     bind_res (assertPlainObject overrides ''policy registry overrides'') (\<lambda>_.
     case assertNoUnknown overrides REGISTRY_KEYS ''policy registry'' of
       Inl _ \<Rightarrow> Inl (policyConfigError ''unknown_field'')
     | Inr _ \<Rightarrow>
         let registry = Obj (spread (entries (deepClone (Obj DEFAULT_REGISTRY))) (entries (deepClone overrides)))
         in bind_res (validatePolicyRegistry rt registry) (\<lambda>_. Inr registry))"

definition POLICY_REGISTRY :: js where
  "POLICY_REGISTRY = Obj DEFAULT_REGISTRY"

definition policyFingerprint :: "runtime \<Rightarrow> js \<Rightarrow> (js_error, string) result" where
  "policyFingerprint rt registry =
     bind_res (validatePolicyRegistry rt registry) (\<lambda>_. Inr (''sha256:'' @ sha256Hex rt (canonicalStringify rt registry)))"

text \<open>A part that may be missing: \<open>if (v !== null && v !== undefined) check(v)\<close>\<close>

definition optional :: "js \<Rightarrow> (js \<Rightarrow> (js_error, unit) result) \<Rightarrow> (js_error, unit) result" where
  "optional v check = (if nullish v then Inr () else check v)"

definition unless_undefined :: "js \<Rightarrow> (js \<Rightarrow> (js_error, unit) result) \<Rightarrow> (js_error, unit) result" where
  "unless_undefined v check = (if v = Undef then Inr () else check v)"

definition validateCapabilityShape :: "js \<Rightarrow> string \<Rightarrow> (js_error, unit) result" where
  "validateCapabilityShape capability label =
     bind_res (assertPlainObject capability label) (\<lambda>_.
     bind_res (require (\<not> has_own capability ''secretValues'') (TypeError ''policy_request_invalid:secret_value_not_allowed:secretValues'')) (\<lambda>_.
     bind_res (assertNoUnknown capability CAPABILITY_KEYS label) (\<lambda>_.
     bind_res (unless_undefined (get capability ''filesystem'') (\<lambda>v. plain_known v FILESYSTEM_KEYS (label @ ''.filesystem''))) (\<lambda>_.
     bind_res (unless_undefined (get capability ''limits'') (\<lambda>v. plain_known v LIMIT_KEYS (label @ ''.limits''))) (\<lambda>_.
     unless_undefined (get capability ''network'') (\<lambda>v.
       bind_res (require (is_arr v) (TypeError ''policy_request_invalid:network'')) (\<lambda>_.
       all_ok (\<lambda>item. plain_known item NETWORK_KEYS (label @ ''.network'')) (items v))))))))"

definition validateToolManifestShape :: "js \<Rightarrow> (js_error, unit) result" where
  "validateToolManifestShape manifest =
     bind_res (plain_known manifest TOOL_KEYS ''trusted tool manifest'') (\<lambda>_.
     if truthy (get manifest ''operations'') then
       all_ok (\<lambda>(name, operation).
         bind_res (require (name \<noteq> []) (TypeError ''policy_request_invalid:operation'')) (\<lambda>_.
         bind_res (plain_known operation OPERATION_KEYS ''trusted tool operation'') (\<lambda>_.
         unless_undefined (get operation ''approval'') (\<lambda>v. plain_known v [''required''] ''trusted tool operation approval''))))
         (own_entries (get manifest ''operations''))
     else Inr ())"

definition forbidden_keys :: "string list" where
  "forbidden_keys = [''password'', ''cookies'', ''bearerToken'', ''sessionSecret'', ''csrfToken'', ''secretValues'', ''authorizationHeader'',
     ''modelReasoning'', ''policyText'']"

definition validatePolicyEvaluationRequest :: "js \<Rightarrow> (js_error, js) result" where
  "validatePolicyEvaluationRequest request =
     bind_res (plain_known request REQUEST_KEYS ''policy request'') (\<lambda>_.
     bind_res (require (get request ''schemaVersion'' = Str POLICY_SCHEMA_VERSION) (TypeError ''policy_request_invalid:schemaVersion'')) (\<lambda>_.
     bind_res (optional (get request ''principal'') (\<lambda>v. plain_known v PRINCIPAL_KEYS ''policy principal'')) (\<lambda>_.
     bind_res (optional (get request ''membership'') (\<lambda>v. plain_known v MEMBERSHIP_KEYS ''policy membership'')) (\<lambda>_.
     bind_res (optional (get request ''resource'') (\<lambda>v. plain_known v RESOURCE_KEYS ''policy resource'')) (\<lambda>_.
     bind_res (optional (get request ''environment'') (\<lambda>v. plain_known v ENVIRONMENT_KEYS ''policy environment'')) (\<lambda>_.
     bind_res (optional (get request ''capabilityRequest'') (\<lambda>v. validateCapabilityShape v ''policy capability request'')) (\<lambda>_.
     bind_res (optional (get request ''trustedToolManifest'') validateToolManifestShape) (\<lambda>_.
     bind_res (optional (get request ''approvalContext'') (\<lambda>v. plain_known v APPROVAL_KEYS ''policy approval context'')) (\<lambda>_.
     bind_res (unless_undefined (get request ''untrustedInputs'') (\<lambda>v. assertPlainObject v ''policy untrusted inputs'')) (\<lambda>_.
     bind_res (all_ok (\<lambda>f. require (\<not> has_own request f) (TypeError (''policy_request_invalid:secret_value_not_allowed:'' @ f))) forbidden_keys) (\<lambda>_.
       Inr request)))))))))))"

section \<open>Capabilities\<close>

definition loopback :: "js \<Rightarrow> bool" where
  "loopback host \<longleftrightarrow> host = Str ''localhost'' \<or> host = Str ''127.0.0.1''"

text \<open>A network permission given as a bare host name.\<close>

definition host_permission :: "js \<Rightarrow> js" where
  "host_permission host = (case host of
     Str _ \<Rightarrow> Obj [(''protocol'', Str ''http''), (''host'', host), (''port'', Num (if loopback host then 80 else 443)),
       (''methods'', strs [''GET'']), (''consequence'', Str ''read''), (''locality'', Str (if loopback host then ''loopback'' else ''external''))]
   | _ \<Rightarrow> host)"

definition normalizeOperations :: "js \<Rightarrow> (js_error, js) result" where
  "normalizeOperations manifest =
     (if is_plain (get manifest ''operations'') then Inr (get manifest ''operations'')
      else
        let permissions = orelse (get manifest ''permissions'') (Obj []);
            filesystem = Obj [(''read'', orelse (get (get permissions ''filesystem'') ''read'') (Arr [])),
                              (''write'', orelse (get (get permissions ''filesystem'') ''write'') (Arr []))]
        in bind_res (js_array (orelse (get permissions ''network'') (Arr []))) (\<lambda>hosts.
          Inr (Obj [(''invoke'', Obj
            [(''sideEffectClass'', orelse (get manifest ''riskClass'') (Str ''read-only'')),
             (''filesystem'', filesystem),
             (''network'', Arr (map host_permission hosts)),
             (''secretReferences'', orelse (get permissions ''secrets'') (Arr [])),
             (''dataClasses'', strs [''public'', ''workspace-private'']),
             (''sandbox'', Str (if get manifest ''riskClass'' = Str ''read-only'' then ''read-only'' else ''workspace-write'')),
             (''limits'', Obj (spread DEFAULT_LIMITS
                [(''runtimeMs'', orelse (get manifest ''timeoutMs'') (get (Obj DEFAULT_LIMITS) ''runtimeMs'')),
                 (''outputBytes'', orelse (get manifest ''outputLimitBytes'') (get (Obj DEFAULT_LIMITS) ''outputBytes''))]))])])))"

definition operationRequiresApproval :: "runtime \<Rightarrow> js \<Rightarrow> js \<Rightarrow> (js_error, bool) result" where
  "operationRequiresApproval rt manifest operationName =
     bind_res (if truthy manifest then normalizeOperations manifest else Inr (Obj [])) (\<lambda>operations.
       Inr (get (get (get operations (js_to_string rt operationName)) ''approval'') ''required'' = Bool True))"

definition riskRank :: "js \<Rightarrow> int" where
  "riskRank v = (case List.find (\<lambda>i. v = Str (POLICY_SIDE_EFFECT_CLASSES ! i)) [0..<length POLICY_SIDE_EFFECT_CLASSES] of
     None \<Rightarrow> -1 | Some i \<Rightarrow> int i)"

text \<open>\<open>s.split('/')\<close>\<close>

fun split_slash :: "string \<Rightarrow> string list" where
  "split_slash [] = [[]]"
| "split_slash (c # s) = (if c = CHR ''/'' then [] # split_slash s
     else (case split_slash s of [] \<Rightarrow> [[c]] | p # ps \<Rightarrow> (c # p) # ps))"

definition is_control :: "char \<Rightarrow> bool" where
  "is_control c \<longleftrightarrow> (let n = of_char c :: nat in n < 32 \<or> n = 127)"

fun validPolicyScope :: "js \<Rightarrow> bool" where
  "validPolicyScope (Str s) = (s \<noteq> [] \<and> length s \<le> 256 \<and> \<not> list_ex is_control s \<and>
     ''..'' \<notin> set (split_slash s) \<and> ''.'' \<notin> set (split_slash s) \<and> CHR 0x5C \<notin> set s)"
| "validPolicyScope _ = False"

fun str_of :: "js \<Rightarrow> string" where
  "str_of (Str s) = s"
| "str_of _ = []"

definition scopeContains :: "js \<Rightarrow> js \<Rightarrow> bool" where
  "scopeContains base scope \<longleftrightarrow> validPolicyScope base \<and> validPolicyScope scope \<and>
     (base = Str ''workspace:root'' \<and> starts_with ''workspace:'' (str_of scope) \<or>
      scope = base \<or> starts_with (str_of base @ ''/'') (str_of scope))"

definition scopesAllowed :: "js \<Rightarrow> js \<Rightarrow> (js_error, bool) result" where
  "scopesAllowed requested allowed =
     bind_res (js_array requested) (every_res (\<lambda>scope.
       if validPolicyScope scope then bind_res (js_array allowed) (\<lambda>roots. Inr (list_ex (\<lambda>base. scopeContains base scope) roots))
       else Inr False))"

definition secret_re :: re where
  "secret_re = seqs [Start, lit_i ''secret:'', at_least 1 (Cls (\<lambda>c. is_alnum c \<or> c \<in> {CHR ''_'', CHR ''.'', CHR '':'', CHR ''-''})), End]"

definition secretsAllowed :: "runtime \<Rightarrow> js \<Rightarrow> js \<Rightarrow> (js_error, bool) result" where
  "secretsAllowed rt requested allowed =
     bind_res (js_array requested) (every_res (\<lambda>r. if re_test secret_re (js_to_string rt r) then js_has rt allowed r else Inr False))"

definition dataClassesAllowed :: "runtime \<Rightarrow> js \<Rightarrow> js \<Rightarrow> (js_error, bool) result" where
  "dataClassesAllowed rt requested allowed =
     bind_res (js_array requested) (every_res (\<lambda>c. if str_in c POLICY_DATA_CLASSES then js_has rt allowed c else Inr False))"

text \<open>Reading a property of \<open>null\<close> or \<open>undefined\<close> throws.\<close>

definition deref :: "js \<Rightarrow> (js_error, unit) result" where
  "deref v = require (\<not> nullish v) (TypeError ''property of null or undefined'')"

definition networkContains :: "runtime \<Rightarrow> js \<Rightarrow> js \<Rightarrow> (js_error, bool) result" where
  "networkContains rt candidate requested =
     (let allowed = (case candidate of
          Str _ \<Rightarrow> Obj [(''protocol'', Str ''http''), (''host'', candidate), (''port'', Num 80), (''methods'', strs [''GET'']),
            (''consequence'', Str ''read''), (''locality'', Str (if loopback candidate then ''loopback'' else ''external''))]
        | _ \<Rightarrow> candidate);
        same = (\<lambda>k. strict_eq (get allowed k) (get requested k));
        low = (\<lambda>v. to_lower rt (js_to_string rt (get v ''host'')))
      in bind_res (deref allowed) (\<lambda>_.
         if \<not> same ''protocol'' then Inr False
         else if low allowed \<noteq> low requested then Inr False
         else if to_number rt (get allowed ''port'') \<noteq> to_number rt (get requested ''port'') \<or> to_number rt (get allowed ''port'') = None then Inr False
         else if \<not> same ''locality'' then Inr False
         else if \<not> same ''consequence'' then Inr False
         else bind_res (js_iter (orelse (get allowed ''methods'') (Arr []))) (\<lambda>methods.
           bind_res (js_array (orelse (get requested ''methods'') (Arr []))) (\<lambda>ms.
             Inr (list_all (js_includes methods) ms)))))"

text \<open>The loop adds reasons as it goes and stops at the first item without a permission.\<close>

fun networks_loop :: "runtime \<Rightarrow> js list \<Rightarrow> js \<Rightarrow> js \<Rightarrow> string list \<Rightarrow> (js_error, bool \<times> string list) result" where
  "networks_loop rt [] allowed environment reasons = Inr (True, reasons)"
| "networks_loop rt (item # rest) allowed environment reasons =
     bind_res (plain_known item NETWORK_KEYS ''policy network request'') (\<lambda>_.
       let reasons' = reasons @ (if get item ''consequence'' = Str ''write'' \<and> get item ''locality'' = Str ''external'' \<and>
             get environment ''externalWritesEnabled'' \<noteq> Bool True then [''external_writes_disabled''] else [])
       in bind_res (js_array allowed) (\<lambda>cs.
          bind_res (some_res (\<lambda>c. networkContains rt c item) cs) (\<lambda>match.
            if match then networks_loop rt rest allowed environment reasons' else Inr (False, reasons'))))"

definition networksAllowed :: "runtime \<Rightarrow> js \<Rightarrow> js \<Rightarrow> js \<Rightarrow> (js_error, bool \<times> string list) result" where
  "networksAllowed rt requested allowed environment =
     bind_res (js_iter requested) (\<lambda>xs. networks_loop rt xs allowed environment [])"

definition strip_control :: "string \<Rightarrow> string" where
  "strip_control s = filter (\<lambda>c. \<not> is_control c) s"

fun safeString :: "js \<Rightarrow> nat \<Rightarrow> js" where
  "safeString (Str s) n = Str (take n (strip_control s))"
| "safeString _ n = Null"

definition sanitize_network :: "js \<Rightarrow> js" where
  "sanitize_network item = Obj (map (\<lambda>k. (k, get item k)) [''protocol'', ''host'', ''port'', ''methods'', ''consequence'', ''locality''])"

definition sanitizeCapability :: "js \<Rightarrow> js \<Rightarrow> js \<Rightarrow> (js_error, js) result" where
  "sanitizeCapability capability filesystem operation =
     bind_res (js_array (orelse (get filesystem ''read'') (Arr []))) (\<lambda>rd.
     bind_res (js_array (orelse (get filesystem ''write'') (Arr []))) (\<lambda>wr.
     bind_res (js_array (orelse (get capability ''network'') (Arr []))) (\<lambda>net.
     bind_res (js_array (orelse (get capability ''secretReferences'') (Arr []))) (\<lambda>sec.
       Inr (Obj
         [(''toolId'', safeString (get capability ''toolId'') 128),
          (''operation'', safeString operation 80),
          (''sideEffectClass'', get capability ''sideEffectClass''),
          (''filesystem'', Obj [(''read'', Arr (map (\<lambda>x. safeString x 256) rd)), (''write'', Arr (map (\<lambda>x. safeString x 256) wr))]),
          (''network'', Arr (map sanitize_network net)),
          (''secretReferences'', Arr (map (\<lambda>x. safeString x 128) sec)),
          (''dataClasses'', orelse (get capability ''dataClasses'') (Arr [])),
          (''sandbox'', orelse (get capability ''sandbox'') (Str ''none'')),
          (''limits'', Obj (filter (\<lambda>(k, _). k \<in> set LIMIT_KEYS) (own_entries (orelse (get capability ''limits'') (Obj [])))))])))))"

text \<open>\<open>if (c) reasons.add(r)\<close>\<close>

definition reason_if :: "bool \<Rightarrow> string \<Rightarrow> string list" where
  "reason_if c r = (if c then [r] else [])"

text \<open>The checks of a capability against one declared operation.\<close>

definition check_operation ::
  "runtime \<Rightarrow> js \<Rightarrow> js \<Rightarrow> js \<Rightarrow> js \<Rightarrow> js \<Rightarrow> js \<Rightarrow> (js_error, string list \<times> js) result" where
  "check_operation rt capability manifest operation who environment registry =
     (let actorRole = orelse (get who ''agentRole'') (get who ''principalType'');
          filesystem = orelse (get capability ''filesystem'') (Obj [(''read'', Arr []), (''write'', Arr [])]);
          allowedFilesystem = orelse (get operation ''filesystem'') (Obj [(''read'', Arr []), (''write'', Arr [])]);
          part = (\<lambda>v k. orelse (get v k) (Arr []))
      in bind_res (scopesAllowed (part filesystem ''read'') (part allowedFilesystem ''read'')) (\<lambda>readOk.
         bind_res (scopesAllowed (part filesystem ''write'') (part allowedFilesystem ''write'')) (\<lambda>writeOk.
         bind_res (networksAllowed rt (part capability ''network'') (part operation ''network'') environment) (\<lambda>(netOk, netReasons).
         bind_res (secretsAllowed rt (part capability ''secretReferences'') (part operation ''secretReferences'')) (\<lambda>secretOk.
         bind_res (dataClassesAllowed rt (part capability ''dataClasses'') (orelse (get operation ''dataClasses'') (get registry ''dataClasses''))) (\<lambda>classOk.
         bind_res (validateLimits (orelse (get capability ''limits'') (Obj [])) (orelse (get operation ''limits'') (get registry ''defaultLimits'')) False) (\<lambda>limitsOk.
         bind_res (sanitizeCapability capability filesystem (orelse (get capability ''operation'') (Str ''invoke''))) (\<lambda>eff.
           Inr (reason_if (is_arr (get manifest ''allowedRoles'') \<and> items (get manifest ''allowedRoles'') \<noteq> [] \<and>
                    \<not> js_includes (items (get manifest ''allowedRoles'')) actorRole) ''resource_denied''
              @ reason_if (\<not> str_in (get capability ''sideEffectClass'') POLICY_SIDE_EFFECT_CLASSES) ''capability_exceeds_manifest''
              @ reason_if (riskRank (get operation ''sideEffectClass'') < riskRank (get capability ''sideEffectClass'')) ''capability_exceeds_manifest''
              @ reason_if (\<not> readOk) ''filesystem_read_denied''
              @ reason_if (\<not> writeOk) ''filesystem_write_denied''
              @ netReasons @ reason_if (\<not> netOk) ''network_denied''
              @ reason_if (\<not> secretOk) ''secret_scope_denied''
              @ reason_if (\<not> classOk) ''data_class_denied''
              @ reason_if (\<not> strict_eq (orelse (get capability ''sandbox'') (Str ''none'')) (orelse (get operation ''sandbox'') (Str ''none''))) ''sandbox_denied''
              @ reason_if (\<not> limitsOk) ''budget_exceeded'', eff)))))))))"

definition evaluateCapability ::
  "runtime \<Rightarrow> js \<Rightarrow> js \<Rightarrow> js \<Rightarrow> js \<Rightarrow> js \<Rightarrow> (js_error, string list \<times> js) result" where
  "evaluateCapability rt capability manifest who environment registry =
     (if \<not> truthy manifest \<or> \<not> truthy (get capability ''toolId'') then Inr ([''tool_not_registered''], Null)
      else
        let mismatch = reason_if (\<not> strict_eq (get manifest ''id'') (get capability ''toolId'')) ''tool_not_registered'' in
        bind_res (normalizeOperations manifest) (\<lambda>operations.
          let operation = get operations (js_to_string rt (orelse (get capability ''operation'') (Str ''invoke''))) in
          if \<not> truthy operation then Inr (mismatch @ [''operation_not_declared''], Null)
          else bind_res (check_operation rt capability manifest operation who environment registry)
                 (\<lambda>(reasons, eff). Inr (mismatch @ reasons, eff))))"

section \<open>Approvals\<close>

definition or_null :: "js \<Rightarrow> js" where
  "or_null v = orelse v Null"

text \<open>The object whose canonical text an approval is bound to.\<close>

definition stable_operation :: "js \<Rightarrow> js" where
  "stable_operation request =
     (let who = orelse (get request ''principal'') (Obj []);
          capability = orelse (get request ''capabilityRequest'') Null;
          resource = get request ''resource''
      in Obj
        [(''actor'', or_null (get who ''userId'')),
         (''workspaceId'', or_null (get request ''workspaceId'')),
         (''action'', or_null (get request ''action'')),
         (''resource'', if truthy resource then Obj (map (\<lambda>k. (k, or_null (get resource k))) [''type'', ''id'', ''workspaceId'', ''dataClass'']) else Null),
         (''tool'', if truthy capability then Obj (map (\<lambda>k. (k, or_null (get capability k))) [''toolId'', ''operation'']) else Null),
         (''scopes'', if truthy capability then Obj
            [(''filesystem'', or_null (get capability ''filesystem'')), (''network'', or_null (get capability ''network'')),
             (''secretReferences'', orelse (get capability ''secretReferences'') (Arr [])),
             (''sandbox'', or_null (get capability ''sandbox'')), (''limits'', or_null (get capability ''limits''))] else Null),
         (''sideEffectClass'', orelse (get capability ''sideEffectClass'') (Str ''read-only'')),
         (''dataClass'', or_null (get resource ''dataClass'')),
         (''payloadFingerprint'', or_null (get request ''payloadFingerprint'')),
         (''idempotencyKey'', or_null (get request ''idempotencyKey''))])"

definition canonicalOperationFingerprint :: "runtime \<Rightarrow> js \<Rightarrow> string" where
  "canonicalOperationFingerprint rt request = ''sha256:'' @ sha256Hex rt (canonicalStringify rt (stable_operation request))"

text \<open>\<open>Date.parse(a) <= Date.parse(b)\<close> of arbitrary values\<close>

definition js_date_le :: "runtime \<Rightarrow> js \<Rightarrow> js \<Rightarrow> bool" where
  "js_date_le rt a b = date_le rt (js_to_string rt a) (js_to_string rt b)"

definition bound_to :: "js \<Rightarrow> js \<Rightarrow> bool" where
  "bound_to v w \<longleftrightarrow> truthy v \<and> strict_eq v w"

definition validateApproval :: "runtime \<Rightarrow> js \<Rightarrow> js \<Rightarrow> js \<Rightarrow> string list" where
  "validateApproval rt request approval evaluatedAt =
     (if \<not> truthy approval then []
      else reason_if (\<not> truthy (get approval ''approvalId'') \<or> get approval ''status'' \<noteq> Str ''active'' \<or>
                 get approval ''serverVerified'' \<noteq> Bool True) ''approval_invalid''
         @ reason_if (\<not> bound_to (get approval ''workspaceId'') (get request ''workspaceId'')) ''approval_scope_mismatch''
         @ reason_if (\<not> bound_to (get approval ''actorId'') (get (get request ''principal'') ''userId'')) ''approval_scope_mismatch''
         @ reason_if (get approval ''policyVersion'' \<noteq> Str POLICY_VERSION) ''approval_scope_mismatch''
         @ reason_if (\<not> truthy (get approval ''expiresAt'') \<or> js_date_le rt (get approval ''expiresAt'') evaluatedAt) ''approval_expired''
         @ reason_if (get approval ''operationFingerprint'' \<noteq> Str (canonicalOperationFingerprint rt request)) ''approval_scope_mismatch'')"

section \<open>Decisions\<close>

record decision =
  pd_decisionId :: string
  pd_outcome :: string
  pd_action :: js
  pd_principalType :: js
  pd_actorId :: js
  pd_workspaceId :: js
  pd_resourceType :: js
  pd_resourceId :: js
  pd_dataClass :: js
  pd_role :: js
  pd_reasonCodes :: "string list"
  pd_matchedRules :: "js list"
  pd_effectiveCapability :: js
  pd_policyVersion :: js
  pd_policyFingerprint :: string
  pd_evaluatedAt :: js
  pd_correlationId :: js
  pd_auditPersisted :: "bool option"

definition orderedReasons :: "string list \<Rightarrow> string list" where
  "orderedReasons reasons = take 16 (filter (\<lambda>r. r \<in> set reasons) POLICY_REASON_CODES)"

definition matchedRulesFor :: "runtime \<Rightarrow> js \<Rightarrow> js \<Rightarrow> js \<Rightarrow> string list" where
  "matchedRulesFor rt action role capability =
     take 8 (reason_if (truthy action) (''action:'' @ js_to_string rt action)
       @ reason_if (truthy role) (''role:'' @ js_to_string rt role)
       @ reason_if (truthy (get capability ''toolId'')) (''tool:'' @ js_to_string rt (get capability ''toolId'') @ '':'' @
           js_to_string rt (orelse (get capability ''operation'') (Str ''invoke''))))"

definition id_char :: "char \<Rightarrow> bool" where
  "id_char c \<longleftrightarrow> is_alnum c \<or> c \<in> {CHR ''.'', CHR ''_'', CHR '':'', CHR ''-''}"

definition safeId :: "js \<Rightarrow> string \<Rightarrow> string \<Rightarrow> string" where
  "safeId v prefix uuid = (case v of
     Str s \<Rightarrow> (let r = drop (length prefix + 1) s in
       if starts_with (prefix @ ''_'') s \<and> 1 \<le> length r \<and> length r \<le> 128 \<and> list_all id_char r then s else prefix @ ''_'' @ uuid)
   | _ \<Rightarrow> prefix @ ''_'' @ uuid)"

fun safeResourceId :: "js \<Rightarrow> (js_error, js) result" where
  "safeResourceId Null = Inr Null"
| "safeResourceId Undef = Inr Null"
| "safeResourceId (Str s) = Inr (Str (map (\<lambda>c. if is_word c \<or> c \<in> {CHR '':'', CHR ''.'', CHR ''-''} then c else CHR ''_'')
     (take 128 (strip_control s))))"
| "safeResourceId _ = Inl (TypeError ''replace of null'')"

fun validTimestamp :: "runtime \<Rightarrow> js \<Rightarrow> bool" where
  "validTimestamp rt (Str s) = valid_date rt s"
| "validTimestamp rt _ = False"

text \<open>The identity, membership, role and token checks.\<close>

definition identity_reasons :: "runtime \<Rightarrow> js \<Rightarrow> js \<Rightarrow> js \<Rightarrow> js \<Rightarrow> js \<Rightarrow> string list" where
  "identity_reasons rt registry who membership action workspaceId =
     (let role = orelse (get membership ''role'') Null;
          known_role = truthy role \<and> has_own (get registry ''roleActions'') (js_to_string rt role)
      in reason_if (\<not> truthy (get who ''userId'') \<or> get who ''status'' \<noteq> Str ''active'') ''missing_identity''
         @ reason_if (\<not> truthy workspaceId) ''missing_workspace''
         @ reason_if (\<not> truthy action \<or> \<not> js_includes (items (get registry ''knownActions'')) action) ''unknown_action''
         @ reason_if (\<not> truthy membership \<or> get membership ''status'' \<noteq> Str ''active'' \<or> \<not> strict_eq (get membership ''workspaceId'') workspaceId) ''membership_required''
         @ reason_if (truthy role \<and> \<not> known_role) ''unsupported_role''
         @ reason_if (known_role \<and> truthy action \<and>
             \<not> js_includes (items (get (get registry ''roleActions'') (js_to_string rt role))) action) ''resource_denied''
         @ (if get who ''authenticationMethod'' = Str ''bearer'' then
              reason_if (is_arr (get who ''tokenWorkspaceIds'') \<and> truthy workspaceId \<and>
                  \<not> js_includes (items (get who ''tokenWorkspaceIds'')) workspaceId) ''resource_denied''
            @ reason_if (is_arr (get who ''tokenScopes'') \<and> truthy action \<and> \<not> js_includes (items (get who ''tokenScopes'')) action) ''resource_denied''
            @ reason_if (action = Str ''token.manage'') ''resource_denied''
            else []))"

text \<open>The checks of the resource and its data class.\<close>

definition resource_reasons :: "js \<Rightarrow> js \<Rightarrow> js \<Rightarrow> js \<Rightarrow> js \<Rightarrow> string list" where
  "resource_reasons registry resource capability action workspaceId =
     (let dataClass = orelse (get resource ''dataClass'') (Str ''workspace-private'');
          elsewhere = truthy (get resource ''workspaceId'') \<and> truthy workspaceId \<and> \<not> strict_eq (get resource ''workspaceId'') workspaceId
      in reason_if (\<not> truthy (get resource ''type'') \<or> \<not> js_includes (items (get registry ''resourceTypes'')) (get resource ''type'')) ''resource_denied''
         @ reason_if elsewhere ''workspace_mismatch''
         @ reason_if (\<not> js_includes (items (get registry ''dataClasses'')) dataClass) ''data_class_denied''
         @ reason_if (dataClass = Str ''secret'' \<and> (action = Str ''context.compile'' \<or> get resource ''type'' = Str ''context'' \<or>
              has_length (get capability ''network''))) ''data_class_denied''
         @ reason_if (dataClass = Str ''confidential'' \<and> elsewhere) ''data_class_denied'')"

definition approval_reasons :: "runtime \<Rightarrow> js \<Rightarrow> js \<Rightarrow> js \<Rightarrow> js \<Rightarrow> (js_error, string list) result" where
  "approval_reasons rt validated capability manifest evaluatedAt =
     bind_res (if orelse (get capability ''sideEffectClass'') (Str ''read-only'') = Str ''consequential-write'' then Inr True
               else operationRequiresApproval rt manifest (orelse (get capability ''operation'') (Str ''invoke''))) (\<lambda>needed.
       Inr (if needed then reason_if (\<not> truthy (get validated ''approvalContext'')) ''approval_required''
                @ validateApproval rt validated (get validated ''approvalContext'') evaluatedAt
            else []))"

text \<open>All reasons of a request, with the effective capability.\<close>

definition collect_reasons :: "runtime \<Rightarrow> js \<Rightarrow> string list \<Rightarrow> js \<Rightarrow> js \<Rightarrow> (js_error, string list \<times> js) result" where
  "collect_reasons rt registry shape validated evaluatedAt =
     (let who = or_null (get validated ''principal'');
          membership = or_null (get validated ''membership'');
          resource = or_null (get validated ''resource'');
          environment = orelse (get validated ''environment'') (Obj []);
          capability = or_null (get validated ''capabilityRequest'');
          manifest = or_null (get validated ''trustedToolManifest'');
          action = or_null (get validated ''action'');
          workspaceId = or_null (get validated ''workspaceId'')
      in bind_res (if truthy capability \<or> action = Str ''tool.invoke''
                   then evaluateCapability rt capability manifest who environment registry else Inr ([], Null)) (\<lambda>(cap, eff).
         bind_res (approval_reasons rt validated capability manifest evaluatedAt) (\<lambda>approval.
           Inr (shape @ identity_reasons rt registry who membership action workspaceId
                 @ resource_reasons registry resource capability action workspaceId @ cap @ approval
                 @ reason_if (js_includes (items (get registry ''idempotencyRequiredFor'')) (orelse (get capability ''sideEffectClass'') (Str ''read-only''))
                       \<and> \<not> truthy (get validated ''idempotencyKey'')) ''idempotency_required'', eff))))"

fun is_object :: "js \<Rightarrow> bool" where
  "is_object (Arr _) = True"
| "is_object (Obj _) = True"
| "is_object _ = False"

definition evaluateContextualPolicy ::
  "runtime \<Rightarrow> js \<Rightarrow> string \<Rightarrow> js \<Rightarrow> js \<Rightarrow> js \<Rightarrow> (js_error, decision) result" where
  "evaluateContextualPolicy rt decisionId uuid now registry request =
     bind_res (policyFingerprint rt registry) (\<lambda>fp.
     let (shape, validated) = (case validatePolicyEvaluationRequest request of
           Inr v \<Rightarrow> ([], v)
         | Inl _ \<Rightarrow> ([''policy_configuration_invalid''], if is_object request then request else Obj []));
         evaluatedAt = (if validTimestamp rt (get validated ''trustedTimestamp'') then get validated ''trustedTimestamp'' else now);
         resource = or_null (get validated ''resource'');
         role = or_null (get (get validated ''membership'') ''role'');
         action = or_null (get validated ''action'')
     in bind_res (collect_reasons rt registry shape validated evaluatedAt) (\<lambda>(reasons, eff).
        bind_res (safeResourceId (get resource ''id'')) (\<lambda>rid.
          let reasonCodes = orderedReasons reasons in
          Inr \<lparr>pd_decisionId = safeId decisionId ''poldet'' uuid,
               pd_outcome = (if reasonCodes \<noteq> [] then ''deny'' else ''allow''),
               pd_action = action,
               pd_principalType = or_null (get (get validated ''principal'') ''principalType''),
               pd_actorId = or_null (get (get validated ''principal'') ''userId''),
               pd_workspaceId = or_null (get validated ''workspaceId''),
               pd_resourceType = or_null (get resource ''type''),
               pd_resourceId = rid,
               pd_dataClass = orelse (get resource ''dataClass'') (Str ''workspace-private''),
               pd_role = role,
               pd_reasonCodes = filter (\<lambda>r. r \<in> set POLICY_REASON_CODES) reasonCodes,
               pd_matchedRules = map (\<lambda>r. safeString (Str r) 160) (matchedRulesFor rt action role (get validated ''capabilityRequest'')),
               pd_effectiveCapability = (if reasonCodes \<noteq> [] then Null else eff),
               pd_policyVersion = get registry ''version'',
               pd_policyFingerprint = fp,
               pd_evaluatedAt = evaluatedAt,
               pd_correlationId = (if is_str (get validated ''correlationId'') then get validated ''correlationId'' else Null),
               pd_auditPersisted = None\<rparr>)))"

section \<open>The audited service\<close>

definition policyDecisionAuditEvent :: "decision \<Rightarrow> js \<Rightarrow> js" where
  "policyDecisionAuditEvent d request =
     (let or_undef = (\<lambda>v. orelse v Undef) in Obj
       [(''type'', Str ''policy.decision''), (''actorUserId'', or_undef (pd_actorId d)), (''workspaceId'', or_undef (pd_workspaceId d)),
        (''outcome'', Str (pd_outcome d)), (''correlationId'', or_undef (pd_correlationId d)),
        (''metadata'', Obj
          [(''decisionId'', Str (pd_decisionId d)), (''action'', pd_action d), (''resourceType'', or_null (pd_resourceType d)),
           (''resourceId'', or_null (pd_resourceId d)), (''reasonCodes'', Str (join '','' (pd_reasonCodes d))),
           (''policyVersion'', pd_policyVersion d), (''policyFingerprint'', Str (pd_policyFingerprint d)),
           (''evaluatedAt'', pd_evaluatedAt d), (''operationId'', safeString (get request ''operationId'') 128)])])"

text \<open>\<open>createPolicyService().evaluate\<close>: the sink, when there is one, says whether the event was
  recorded.\<close>

definition evaluate ::
  "runtime \<Rightarrow> (js \<Rightarrow> bool) option \<Rightarrow> js \<Rightarrow> string \<Rightarrow> js \<Rightarrow> js \<Rightarrow> js \<Rightarrow> (js_error, decision) result" where
  "evaluate rt auditSink decisionId uuid now registry request =
     bind_res (evaluateContextualPolicy rt decisionId uuid now registry request) (\<lambda>d.
       case auditSink of
         None \<Rightarrow> Inr d
       | Some recordAuditEvent \<Rightarrow>
           if recordAuditEvent (policyDecisionAuditEvent d request) then Inr d
           else if pd_outcome d = ''deny'' then Inr d
           else if orelse (get (get request ''capabilityRequest'') ''sideEffectClass'') (Str ''read-only'') = Str ''read-only''
             then Inr (d\<lparr>pd_auditPersisted := Some False\<rparr>)
           else Inr (d\<lparr>pd_outcome := ''deny'', pd_reasonCodes := orderedReasons (pd_reasonCodes d @ [''policy_configuration_invalid'']),
                   pd_effectiveCapability := Null, pd_auditPersisted := Some False\<rparr>))"

section \<open>Workspace authorization\<close>

definition actionsForRole :: "string \<Rightarrow> string list" where
  "actionsForRole role = (case map_of ROLE_ACTIONS role of None \<Rightarrow> [] | Some as \<Rightarrow> sort (filter (\<lambda>a. a \<noteq> ''tool.invoke'') (nub as)))"

text \<open>\<open>items.find(p) ?? null\<close> where reading an item may throw\<close>

fun find_item :: "(js \<Rightarrow> bool) \<Rightarrow> js list \<Rightarrow> (js_error, js) result" where
  "find_item p [] = Inr Null"
| "find_item p (x # xs) = bind_res (deref x) (\<lambda>_. if p x then Inr x else find_item p xs)"

definition active_membership :: "js \<Rightarrow> js \<Rightarrow> (js_error, js) result" where
  "active_membership who workspaceId =
     (let ms = get who ''memberships'' in
      if nullish ms then Inr Null
      else bind_res (js_array ms) (find_item (\<lambda>item.
        (if truthy workspaceId then strict_eq (get item ''workspaceId'') workspaceId else get item ''role'' = Str ''owner'') \<and>
        get item ''status'' = Str ''active'')))"

definition authorization_request :: "runtime \<Rightarrow> js \<Rightarrow> js \<Rightarrow> js \<Rightarrow> js \<Rightarrow> js \<Rightarrow> js \<Rightarrow> js \<Rightarrow> js" where
  "authorization_request rt who activeMembership workspaceId action resourceType correlationId now = Obj
     [(''schemaVersion'', Str POLICY_SCHEMA_VERSION), (''requestId'', Str ''polreq_authorize''), (''correlationId'', correlationId),
      (''operationId'', Str (''authz:'' @ js_to_string rt action)),
      (''principal'', if truthy (get who ''user'') then Obj
         [(''userId'', get (get who ''user'') ''id''), (''principalType'', Str ''user''),
          (''authenticationMethod'', Str (if get who ''credentialType'' = Str ''bearer'' then ''bearer'' else ''session'')),
          (''status'', get (get who ''user'') ''status''), (''tokenScopes'', get (get who ''apiToken'') ''scopes''),
          (''tokenWorkspaceIds'', get (get who ''apiToken'') ''workspaceIds'')] else Null),
      (''workspaceId'', workspaceId),
      (''membership'', if truthy activeMembership then Obj (map (\<lambda>k. (k, get activeMembership k)) [''workspaceId'', ''role'', ''status'']) else Null),
      (''action'', action),
      (''resource'', Obj [(''type'', resourceType), (''id'', workspaceId), (''workspaceId'', workspaceId), (''dataClass'', Str ''workspace-private'')]),
      (''environment'', Obj [(''deploymentProfile'', Str ''local-dev''), (''locality'', Str ''local-only''), (''interactive'', Bool True),
         (''externalWritesEnabled'', Bool False)]),
      (''trustedTimestamp'', now)]"

record authorization =
  az_decision :: string
  az_action :: js
  az_workspaceId :: js
  az_actorId :: js
  az_role :: js
  az_reasons :: "string list"
  az_policyVersion :: js
  az_policyFingerprint :: string

text \<open>Arguments already have their defaults (\<open>null\<close> workspace, resource type \<open>workspace\<close>).\<close>

definition authorizeWorkspaceAction ::
  "runtime \<Rightarrow> js \<Rightarrow> string \<Rightarrow> js \<Rightarrow> js \<Rightarrow> js \<Rightarrow> js \<Rightarrow> js \<Rightarrow> js \<Rightarrow> js \<Rightarrow> js \<Rightarrow> (js_error, authorization) result" where
  "authorizeWorkspaceAction rt decisionId uuid clock who workspaceId action requireSession resourceType correlationId now =
     bind_res (active_membership who workspaceId) (\<lambda>activeMembership.
     bind_res (evaluateContextualPolicy rt decisionId uuid clock POLICY_REGISTRY
       (authorization_request rt who activeMembership workspaceId action resourceType correlationId now)) (\<lambda>d.
       let reasons = pd_reasonCodes d @ reason_if (truthy requireSession \<and> get who ''credentialType'' \<noteq> Str ''session'') ''resource_denied''
       in Inr \<lparr>az_decision = (if reasons \<noteq> [] then ''deny'' else ''allow''), az_action = action, az_workspaceId = workspaceId,
            az_actorId = or_null (get (get who ''user'') ''id''), az_role = pd_role d, az_reasons = sorted_unique reasons,
            az_policyVersion = pd_policyVersion d, az_policyFingerprint = pd_policyFingerprint d\<rparr>))"

section \<open>The bootstrap policy\<close>

text \<open>\<open>evaluatePolicy\<close>; an optional list is skipped when it is falsy.\<close>

definition path_inside :: "runtime \<Rightarrow> js \<Rightarrow> js \<Rightarrow> (js_error, bool) result" where
  "path_inside rt path base =
     (if strict_eq path base then Inr True
      else (case path of Str p \<Rightarrow> Inr (starts_with (js_to_string rt base @ ''/'') p) | _ \<Rightarrow> Inl (TypeError ''startsWith is not a function'')))"

definition listed :: "runtime \<Rightarrow> bool \<Rightarrow> js \<Rightarrow> js \<Rightarrow> (js_error, bool) result" where
  "listed rt applies xs v = (if applies then js_has rt xs v else Inr True)"

definition evaluatePolicy :: "runtime \<Rightarrow> js \<Rightarrow> (js_error, string \<times> string list) result" where
  "evaluatePolicy rt inp =
     (let g = get inp; consequential = (g ''riskClass'' = Str ''consequential-write'') in
      bind_res (assertPlainObject inp ''policy input'') (\<lambda>_.
      bind_res (listed rt (truthy (g ''allowedRoles'')) (g ''allowedRoles'') (g ''role'')) (\<lambda>roleOk.
      bind_res (listed rt (truthy (g ''allowedDomains'') \<and> truthy (g ''domain'')) (g ''allowedDomains'') (g ''domain'')) (\<lambda>domainOk.
      bind_res (if truthy (g ''allowedPaths'') \<and> truthy (g ''path'')
                then bind_res (js_array (g ''allowedPaths'')) (some_res (path_inside rt (g ''path''))) else Inr True) (\<lambda>pathOk.
      bind_res (if \<not> truthy (g ''requiredSecret'') then Inr True
                else if nullish (g ''allowedSecrets'') then Inr False else js_has rt (g ''allowedSecrets'') (g ''requiredSecret'')) (\<lambda>secretOk.
        let reasons =
              reason_if (\<not> truthy (g ''actorId'') \<or> \<not> truthy (g ''workspaceId'') \<or> \<not> truthy (g ''action'')) ''missing_identity_or_action''
              @ reason_if (\<not> roleOk) ''role_denied''
              @ reason_if (\<not> domainOk) ''network_domain_denied''
              @ reason_if (\<not> pathOk) ''filesystem_path_denied''
              @ reason_if (\<not> secretOk) ''secret_scope_denied''
              @ reason_if (g ''dataClass'' = Str ''secret'') ''secret_data_denied''
              @ reason_if (consequential \<and> \<not> truthy (g ''approvalValid'')) ''approval_required''
              @ reason_if (consequential \<and> \<not> truthy (g ''idempotencyKey'')) ''idempotency_required''
        in Inr (if reasons \<noteq> [] then ''deny'' else ''allow'', reasons)))))))"

section \<open>Every reason is a published code\<close>

definition coded :: "string list \<Rightarrow> bool" where
  "coded rs \<longleftrightarrow> set rs \<subseteq> set POLICY_REASON_CODES"

lemma coded_simps [simp]:
  "coded []"
  "coded (r # rs) \<longleftrightarrow> r \<in> set POLICY_REASON_CODES \<and> coded rs"
  "coded (rs @ rs') \<longleftrightarrow> coded rs \<and> coded rs'"
  by (auto simp: coded_def)

lemma coded_reason_if [simp]: "coded (reason_if c r) \<longleftrightarrow> (c \<longrightarrow> r \<in> set POLICY_REASON_CODES)"
  by (simp add: reason_if_def)

lemma reason_if_Nil [simp]: "reason_if c r = [] \<longleftrightarrow> \<not> c"
  by (simp add: reason_if_def)

lemma codes:
  "''missing_identity'' \<in> set POLICY_REASON_CODES" "''missing_workspace'' \<in> set POLICY_REASON_CODES"
  "''unknown_action'' \<in> set POLICY_REASON_CODES" "''unsupported_role'' \<in> set POLICY_REASON_CODES"
  "''membership_required'' \<in> set POLICY_REASON_CODES" "''workspace_mismatch'' \<in> set POLICY_REASON_CODES"
  "''resource_denied'' \<in> set POLICY_REASON_CODES" "''tool_not_registered'' \<in> set POLICY_REASON_CODES"
  "''operation_not_declared'' \<in> set POLICY_REASON_CODES" "''capability_exceeds_manifest'' \<in> set POLICY_REASON_CODES"
  "''filesystem_read_denied'' \<in> set POLICY_REASON_CODES" "''filesystem_write_denied'' \<in> set POLICY_REASON_CODES"
  "''network_denied'' \<in> set POLICY_REASON_CODES" "''secret_scope_denied'' \<in> set POLICY_REASON_CODES"
  "''data_class_denied'' \<in> set POLICY_REASON_CODES" "''sandbox_denied'' \<in> set POLICY_REASON_CODES"
  "''budget_exceeded'' \<in> set POLICY_REASON_CODES" "''approval_required'' \<in> set POLICY_REASON_CODES"
  "''approval_invalid'' \<in> set POLICY_REASON_CODES" "''approval_expired'' \<in> set POLICY_REASON_CODES"
  "''approval_scope_mismatch'' \<in> set POLICY_REASON_CODES" "''idempotency_required'' \<in> set POLICY_REASON_CODES"
  "''external_writes_disabled'' \<in> set POLICY_REASON_CODES" "''policy_configuration_invalid'' \<in> set POLICY_REASON_CODES"
  unfolding POLICY_REASON_CODES_def by simp_all

lemma coded_networks: "networks_loop rt xs allowed environment rs = Inr (b, rs') \<Longrightarrow> coded rs \<Longrightarrow> coded rs'"
  by (induction rt xs allowed environment rs arbitrary: b rs' rule: networks_loop.induct)
    (auto simp: bind_res_eq_Inr Let_def codes split: if_splits)

lemma coded_operation: "check_operation rt c m opn w e r = Inr (rs, eff) \<Longrightarrow> coded rs"
  by (auto simp: check_operation_def Let_def bind_res_eq_Inr networksAllowed_def codes dest: coded_networks)

lemma coded_capability: "evaluateCapability rt c m w e r = Inr (rs, eff) \<Longrightarrow> coded rs"
  by (auto simp: evaluateCapability_def Let_def bind_res_eq_Inr codes dest: coded_operation split: if_splits)

lemma coded_approval: "approval_reasons rt v c m t = Inr rs \<Longrightarrow> coded rs"
  by (auto simp: approval_reasons_def validateApproval_def bind_res_eq_Inr codes)

lemma coded_identity: "coded (identity_reasons rt r w m a ws)"
  by (simp add: identity_reasons_def Let_def codes)

lemma coded_resource: "coded (resource_reasons r x c a ws)"
  by (simp add: resource_reasons_def Let_def codes)

lemma coded_collect: "collect_reasons rt r shape v t = Inr (rs, eff) \<Longrightarrow> coded shape \<Longrightarrow> coded rs"
  by (auto simp: collect_reasons_def Let_def bind_res_eq_Inr codes coded_identity coded_resource
      dest: coded_capability coded_approval split: if_splits)

lemma orderedReasons_Nil: "coded rs \<Longrightarrow> orderedReasons rs = [] \<longleftrightarrow> rs = []"
  by (cases rs) (auto simp: coded_def orderedReasons_def filter_empty_conv)

lemma orderedReasons_codes: "filter (\<lambda>r. r \<in> set POLICY_REASON_CODES) (orderedReasons rs) = orderedReasons rs"
  by (auto simp: orderedReasons_def filter_id_conv dest: in_set_takeD)

text \<open>An evaluation that returns: the request's reasons and what the decision says of them.\<close>

lemma evaluation_cases:
  assumes "evaluateContextualPolicy rt did uuid now registry request = Inr d"
  obtains shape validated t reasons eff where
    "validatePolicyRegistry rt registry = Inr True"
    "collect_reasons rt registry shape validated t = Inr (reasons, eff)" "coded reasons"
    "shape = [] \<and> validated = request \<and> validatePolicyEvaluationRequest request = Inr request \<or> shape \<noteq> []"
    "t = (if validTimestamp rt (get validated ''trustedTimestamp'') then get validated ''trustedTimestamp'' else now)"
    "pd_evaluatedAt d = t" "pd_reasonCodes d = orderedReasons reasons"
    "pd_outcome d = (if reasons = [] then ''allow'' else ''deny'')"
    "pd_effectiveCapability d = (if reasons = [] then eff else Null)"
proof -
  define sv where "sv = (case validatePolicyEvaluationRequest request of
      Inr v \<Rightarrow> ([], v) | Inl _ \<Rightarrow> ([''policy_configuration_invalid''], if is_object request then request else Obj []))"
  obtain shape validated where sv': "sv = (shape, validated)" by fastforce
  have v: "v = request" if "validatePolicyEvaluationRequest request = Inr v" for v
    using that by (simp add: validatePolicyEvaluationRequest_def bind_res_eq_Inr)
  have shape: "shape = [] \<and> validated = request \<and> validatePolicyEvaluationRequest request = Inr request \<or> shape \<noteq> []" "coded shape"
    using sv' v by (auto simp: sv_def codes split: sum.splits)
  define t where "t = (if validTimestamp rt (get validated ''trustedTimestamp'') then get validated ''trustedTimestamp'' else now)"
  obtain reasons eff where c: "collect_reasons rt registry shape validated t = Inr (reasons, eff)"
    and reg: "validatePolicyRegistry rt registry = Inr True"
    and d: "pd_evaluatedAt d = t" "pd_reasonCodes d = filter (\<lambda>r. r \<in> set POLICY_REASON_CODES) (orderedReasons reasons)"
      "pd_outcome d = (if orderedReasons reasons \<noteq> [] then ''deny'' else ''allow'')"
      "pd_effectiveCapability d = (if orderedReasons reasons \<noteq> [] then Null else eff)"
    using assms unfolding evaluateContextualPolicy_def sv_def [symmetric] sv'
    by (auto simp: Let_def bind_res_eq_Inr policyFingerprint_def t_def validatePolicyRegistry_def)
  have coded: "coded reasons" using coded_collect [OF c shape(2)] .
  show ?thesis
    using that [OF reg c coded shape(1) t_def d(1)] d coded by (simp add: orderedReasons_codes orderedReasons_Nil)
qed

section \<open>What an allowing decision guarantees\<close>

lemma get_nullish: "nullish v \<Longrightarrow> get v k = Undef"
  by (cases v) auto

lemma or_null_simps [simp]:
  "get (or_null v) k = get v k" "truthy (or_null v) = truthy v" "nullish (or_null v) = nullish v"
  by (cases v; simp add: or_null_def orelse_def)+

lemma or_null_truthy: "truthy v \<Longrightarrow> or_null v = v"
  by (cases v) (auto simp: or_null_def orelse_def)

lemma orelse_truthy: "truthy v \<Longrightarrow> orelse v d = v"
  by (cases v) (auto simp: orelse_def)

lemma or_null_Str [simp]: "or_null v = Str s \<longleftrightarrow> v = Str s"
  by (cases v) (auto simp: or_null_def orelse_def)

lemma items_orelse: "items (orelse v (Arr [])) = items v"
  by (cases v) (auto simp: orelse_def)

lemma items_of_list: "orelse v (Arr []) = Arr xs \<Longrightarrow> items v = xs"
  by (metis items.simps(1) items_orelse)

definition identified :: "js \<Rightarrow> bool" where
  "identified request \<longleftrightarrow> truthy (get (get request ''principal'') ''userId'') \<and> get (get request ''principal'') ''status'' = Str ''active''"

definition member :: "js \<Rightarrow> bool" where
  "member request \<longleftrightarrow> truthy (get request ''workspaceId'') \<and> get (get request ''membership'') ''status'' = Str ''active'' \<and>
     get (get request ''membership'') ''workspaceId'' = get request ''workspaceId''"

definition role_permits :: "runtime \<Rightarrow> js \<Rightarrow> js \<Rightarrow> bool" where
  "role_permits rt registry request \<longleftrightarrow>
     (let action = get request ''action''; role = get (get request ''membership'') ''role'' in
      action \<in> set (items (get registry ''knownActions'')) \<and>
      (truthy role \<longrightarrow> action \<in> set (items (get (get registry ''roleActions'') (js_to_string rt role)))))"

definition token_permits :: "js \<Rightarrow> bool" where
  "token_permits request \<longleftrightarrow>
     (let who = get request ''principal''; action = get request ''action'' in
      get who ''authenticationMethod'' = Str ''bearer'' \<longrightarrow> action \<noteq> Str ''token.manage'' \<and>
        (is_arr (get who ''tokenScopes'') \<longrightarrow> action \<in> set (items (get who ''tokenScopes''))) \<and>
        (is_arr (get who ''tokenWorkspaceIds'') \<longrightarrow> get request ''workspaceId'' \<in> set (items (get who ''tokenWorkspaceIds''))))"

definition resource_local :: "js \<Rightarrow> js \<Rightarrow> bool" where
  "resource_local registry request \<longleftrightarrow>
     (let r = get request ''resource'' in
      get r ''type'' \<in> set (items (get registry ''resourceTypes'')) \<and>
      (truthy (get r ''workspaceId'') \<longrightarrow> get r ''workspaceId'' = get request ''workspaceId'') \<and>
      (get r ''dataClass'' = Str ''secret'' \<longrightarrow> get request ''action'' \<noteq> Str ''context.compile'' \<and> get r ''type'' \<noteq> Str ''context''))"

lemma identity_sound:
  assumes "identity_reasons rt registry (or_null (get q ''principal'')) (or_null (get q ''membership'')) (or_null (get q ''action'')) (or_null (get q ''workspaceId'')) = []"
  shows "identified q \<and> member q \<and> role_permits rt registry q \<and> token_permits q"
proof -
  note base = assms [unfolded identity_reasons_def Let_def, simplified]
  have t: "truthy (get q ''workspaceId'')" "truthy (get q ''action'')" using base by (auto split: if_splits)
  have ident: "identified q" using base by (simp add: identified_def)
  have mem: "member q" using base t by (auto simp: member_def or_null_truthy dest: strict_eqD)
  have known: "js_includes (items (get registry ''knownActions'')) (get q ''action'')" using base t by (simp add: or_null_truthy)
  have "js_includes (items (get (get registry ''roleActions'') (js_to_string rt (get (get q ''membership'') ''role'')))) (get q ''action'')"
    if "truthy (get (get q ''membership'') ''role'')"
    using base t that by (auto simp: or_null_truthy orelse_truthy)
  then have role: "role_permits rt registry q" using known by (auto simp: role_permits_def Let_def dest: js_includes_in)
  have token: "token_permits q"
    using base t by (auto simp: token_permits_def Let_def or_null_truthy dest: js_includes_in)
  show ?thesis using ident mem role token by blast
qed

lemma resource_sound:
  assumes "resource_reasons registry (or_null (get q ''resource'')) c (or_null (get q ''action'')) (or_null (get q ''workspaceId'')) = []"
    and "truthy (get q ''workspaceId'')"
  shows "resource_local registry q"
  using assms unfolding resource_reasons_def Let_def
  by (auto simp: resource_local_def Let_def or_null_truthy orelse_def dest: js_includes_in strict_eqD split: if_splits)

lemma allowed_collect:
  assumes "evaluateContextualPolicy rt did uuid now registry request = Inr d" and "pd_outcome d = ''allow''"
  obtains eff where "collect_reasons rt registry [] request (pd_evaluatedAt d) = Inr ([], eff)"
    "validatePolicyEvaluationRequest request = Inr request" "pd_effectiveCapability d = eff"
    "validatePolicyRegistry rt registry = Inr True"
proof -
  obtain shape validated t reasons eff where e:
    "validatePolicyRegistry rt registry = Inr True"
    "collect_reasons rt registry shape validated t = Inr (reasons, eff)"
    "shape = [] \<and> validated = request \<and> validatePolicyEvaluationRequest request = Inr request \<or> shape \<noteq> []"
    "pd_evaluatedAt d = t" "pd_outcome d = (if reasons = [] then ''allow'' else ''deny'')"
    "pd_effectiveCapability d = (if reasons = [] then eff else Null)"
    using evaluation_cases [OF assms(1)] by metis
  have r: "reasons = []" using e(5) assms(2) by (auto split: if_splits)
  have "shape = []" using e(2) r by (auto simp: collect_reasons_def Let_def bind_res_eq_Inr)
  then show ?thesis using that e r by auto
qed

text \<open>The parts of an empty reason list.\<close>

lemma collect_Nil:
  assumes "collect_reasons rt registry [] q t = Inr ([], eff)"
  shows "identity_reasons rt registry (or_null (get q ''principal'')) (or_null (get q ''membership'')) (or_null (get q ''action'')) (or_null (get q ''workspaceId'')) = []"
    and "resource_reasons registry (or_null (get q ''resource'')) (or_null (get q ''capabilityRequest'')) (or_null (get q ''action'')) (or_null (get q ''workspaceId'')) = []"
    and "truthy (get q ''capabilityRequest'') \<or> get q ''action'' = Str ''tool.invoke'' \<Longrightarrow>
      evaluateCapability rt (or_null (get q ''capabilityRequest'')) (or_null (get q ''trustedToolManifest''))
        (or_null (get q ''principal'')) (orelse (get q ''environment'') (Obj [])) registry = Inr ([], eff)"
    and "approval_reasons rt q (or_null (get q ''capabilityRequest'')) (or_null (get q ''trustedToolManifest'')) t = Inr []"
    and "js_includes (items (get registry ''idempotencyRequiredFor'')) (orelse (get (get q ''capabilityRequest'') ''sideEffectClass'') (Str ''read-only'')) \<Longrightarrow>
      truthy (get q ''idempotencyKey'')"
  using assms by (auto simp: collect_reasons_def Let_def bind_res_eq_Inr split: if_splits)

text \<open>Containment of a requested capability in a declared operation, written without the evaluation's own comparisons.\<close>

text \<open>A scope lies below another: a plain path that is the other one or continues it at a slash; below
  \<open>workspace:root\<close> lies every plain workspace path.\<close>

definition plain_scope :: "string \<Rightarrow> bool" where
  "plain_scope path \<longleftrightarrow> path \<noteq> [] \<and> length path \<le> 256 \<and> ''.'' \<notin> set (split_slash path) \<and> ''..'' \<notin> set (split_slash path) \<and>
     (\<forall>c \<in> set path. 32 \<le> (of_char c :: nat) \<and> (of_char c :: nat) \<noteq> 127 \<and> c \<noteq> CHR 0x5C)"

definition scope_below :: "js \<Rightarrow> js \<Rightarrow> bool" where
  "scope_below b s \<longleftrightarrow> (\<exists>base path. b = Str base \<and> s = Str path \<and> plain_scope path \<and>
     (path = base \<or> (\<exists>rest. path = base @ ''/'' @ rest) \<or> base = ''workspace:root'' \<and> (\<exists>rest. path = ''workspace:'' @ rest)))"

definition scopes_within :: "js \<Rightarrow> js \<Rightarrow> string \<Rightarrow> bool" where
  "scopes_within capability operation k \<longleftrightarrow>
     (\<forall>s \<in> set (items (get (get capability ''filesystem'') k)). \<exists>b \<in> set (items (get (get operation ''filesystem'') k)). scope_below b s)"

text \<open>A permission covers a destination: the same protocol, host (up to case), port, locality and consequence, with every
  method listed. A bare host name permits reading from it over http on port 80.\<close>

definition endpoint_covers :: "runtime \<Rightarrow> js \<Rightarrow> js \<Rightarrow> bool" where
  "endpoint_covers rt c n \<longleftrightarrow>
     (let lower = (\<lambda>v. to_lower rt (js_to_string rt v)) in
      (\<forall>m \<in> set (items (get n ''methods'')). m = Str ''GET'' \<or> \<not> is_str c) \<and>
      (if is_str c then get n ''protocol'' = Str ''http'' \<and> lower (get n ''host'') = lower c \<and> to_number rt (get n ''port'') = Some 80 \<and>
           get n ''consequence'' = Str ''read'' \<and>
           get n ''locality'' = Str (if c = Str ''localhost'' \<or> c = Str ''127.0.0.1'' then ''loopback'' else ''external'')
       else get n ''protocol'' = get c ''protocol'' \<and> lower (get n ''host'') = lower (get c ''host'') \<and>
           (\<exists>port. to_number rt (get n ''port'') = Some port \<and> to_number rt (get c ''port'') = Some port) \<and>
           get n ''consequence'' = get c ''consequence'' \<and> get n ''locality'' = get c ''locality'' \<and>
           (\<exists>methods. js_iter (orelse (get c ''methods'') (Arr [])) = Inr methods \<and> set (items (get n ''methods'')) \<subseteq> set methods)))"

definition network_within :: "runtime \<Rightarrow> js \<Rightarrow> js \<Rightarrow> js \<Rightarrow> bool" where
  "network_within rt environment capability operation \<longleftrightarrow>
     (\<forall>n \<in> set (items (get capability ''network'')).
        (\<exists>c \<in> set (items (get operation ''network'')). endpoint_covers rt c n) \<and>
        (get n ''consequence'' = Str ''write'' \<and> get n ''locality'' = Str ''external'' \<longrightarrow> get environment ''externalWritesEnabled'' = Bool True))"

definition secrets_within :: "runtime \<Rightarrow> js \<Rightarrow> js \<Rightarrow> bool" where
  "secrets_within rt capability operation \<longleftrightarrow>
     (\<forall>s \<in> set (items (get capability ''secretReferences'')).
        re_test secret_re (js_to_string rt s) \<and> js_has rt (orelse (get operation ''secretReferences'') (Arr [])) s = Inr True)"

text \<open>The data classes are known ones that the operation lists, or the registry where the operation lists none.\<close>

definition classes_within :: "runtime \<Rightarrow> js \<Rightarrow> js \<Rightarrow> js \<Rightarrow> bool" where
  "classes_within rt registry capability operation \<longleftrightarrow>
     (\<forall>c \<in> set (items (get capability ''dataClasses'')).
        c \<in> {Str ''public'', Str ''workspace-private'', Str ''confidential'', Str ''secret''} \<and>
        js_has rt (orelse (get operation ''dataClasses'') (get registry ''dataClasses'')) c = Inr True)"

text \<open>Every requested limit is a known one, a number from zero up to the declared maximum where that is a number.\<close>

definition limits_within :: "js \<Rightarrow> js \<Rightarrow> js \<Rightarrow> bool" where
  "limits_within registry capability operation \<longleftrightarrow>
     (\<forall>(k, v) \<in> set (own_entries (get capability ''limits'')).
        k \<in> set LIMIT_KEYS \<and> (\<exists>n. v = Num n \<and> 0 \<le> n \<and>
          (\<forall>m. get (orelse (get operation ''limits'') (get registry ''defaultLimits'')) k = Num m \<longrightarrow> n \<le> m)))"

text \<open>The side effects are at most those declared, in the order read-only, reversible write, consequential write.\<close>

definition effects_within :: "js \<Rightarrow> js \<Rightarrow> bool" where
  "effects_within capability operation \<longleftrightarrow>
     (\<exists>i j. i \<le> j \<and> j < 3 \<and> get capability ''sideEffectClass'' = Str ([''read-only'', ''reversible-write'', ''consequential-write''] ! i) \<and>
        get operation ''sideEffectClass'' = Str ([''read-only'', ''reversible-write'', ''consequential-write''] ! j))"

definition contained :: "runtime \<Rightarrow> js \<Rightarrow> js \<Rightarrow> js \<Rightarrow> js \<Rightarrow> bool" where
  "contained rt registry environment capability operation \<longleftrightarrow>
     effects_within capability operation \<and>
     scopes_within capability operation ''read'' \<and> scopes_within capability operation ''write'' \<and>
     network_within rt environment capability operation \<and> secrets_within rt capability operation \<and>
     classes_within rt registry capability operation \<and> limits_within registry capability operation \<and>
     orelse (get capability ''sandbox'') (Str ''none'') = orelse (get operation ''sandbox'') (Str ''none'')"

definition role_listed :: "js \<Rightarrow> js \<Rightarrow> bool" where
  "role_listed manifest who \<longleftrightarrow> (\<forall>roles. get manifest ''allowedRoles'' = Arr roles \<longrightarrow> roles \<noteq> [] \<longrightarrow>
     orelse (get who ''agentRole'') (get who ''principalType'') \<in> set roles)"

lemma scopeContains_below: "scopeContains b s \<Longrightarrow> scope_below b s"
proof -
  assume a: "scopeContains b s"
  obtain base path where bs: "b = Str base" "s = Str path" using a by (cases b; cases s) (auto simp: scopeContains_def)
  have "plain_scope path" using a unfolding bs by (auto simp: scopeContains_def plain_scope_def is_control_def Let_def list_ex_iff not_less)
  then show "scope_below b s" using a unfolding bs scope_below_def by (auto simp: scopeContains_def starts_with_append)
qed

lemma networkContains_covers:
  assumes "networkContains rt c n = Inr True"
  shows "endpoint_covers rt c n"
proof -
  have ms: "js_array (orelse (get n ''methods'') (Arr [])) = Inr ms \<Longrightarrow> items (get n ''methods'') = ms" for ms
    unfolding items_orelse [of "get n ''methods''", symmetric] by simp
  show ?thesis
  proof (cases "is_str c")
    case True
    then obtain h where "c = Str h" by (cases c) auto
    then show ?thesis using assms
      by (auto simp: networkContains_def endpoint_covers_def Let_def bind_res_eq_Inr loopback_def strs_def list_all_iff orelse_def [of "Arr _"] ms
          dest!: strict_eqD js_includes_in split: if_splits)
  next
    case False
    then have "(case c of Str _ \<Rightarrow> d | _ \<Rightarrow> c) = c" for d by (cases c) auto
    then show ?thesis using assms False
      by (auto simp: networkContains_def endpoint_covers_def Let_def bind_res_eq_Inr list_all_iff ms dest!: strict_eqD js_includes_in split: if_splits)
  qed
qed

lemma scopesAllowed_True:
  assumes "scopesAllowed (orelse (get (orelse (get c ''filesystem'') (Obj [(''read'', Arr []), (''write'', Arr [])])) k) (Arr []))
      (orelse (get (orelse (get p ''filesystem'') (Obj [(''read'', Arr []), (''write'', Arr [])])) k) (Arr [])) = Inr True"
    and "k \<in> {''read'', ''write''}"
  shows "scopes_within c p k"
proof -
  have fs: "items (orelse (get (orelse v (Obj [(''read'', Arr []), (''write'', Arr [])])) k) (Arr [])) = items (get v k)" for v
    unfolding items_orelse using assms(2) by (cases v) (auto simp: orelse_def)
  from assms(1) obtain xs where xs: "orelse (get (orelse (get c ''filesystem'') (Obj [(''read'', Arr []), (''write'', Arr [])])) k) (Arr []) = Arr xs"
    and each: "\<And>x. x \<in> set xs \<Longrightarrow> \<exists>roots. orelse (get (orelse (get p ''filesystem'') (Obj [(''read'', Arr []), (''write'', Arr [])])) k) (Arr []) = Arr roots \<and>
        list_ex (\<lambda>b. scopeContains b x) roots"
    by (auto simp: scopesAllowed_def bind_res_eq_Inr every_res_True split: if_splits)
  show ?thesis
    unfolding scopes_within_def fs [symmetric] xs using each scopeContains_below by (fastforce simp: list_ex_iff)
qed

lemma networks_loop_grows: "networks_loop rt xs a e r = Inr (b, r') \<Longrightarrow> \<exists>w. r' = r @ w"
  by (induction rt xs a e r arbitrary: b r' rule: networks_loop.induct) (fastforce simp: bind_res_eq_Inr Let_def split: if_splits)+

lemma networks_loop_True:
  "networks_loop rt xs allowed environment rs = Inr (True, []) \<Longrightarrow> n \<in> set xs \<Longrightarrow>
   (\<exists>cs c. allowed = Arr cs \<and> c \<in> set cs \<and> networkContains rt c n = Inr True) \<and>
   (get n ''consequence'' = Str ''write'' \<and> get n ''locality'' = Str ''external'' \<longrightarrow> get environment ''externalWritesEnabled'' = Bool True)"
proof (induction xs arbitrary: rs)
  case (Cons item rest)
  define rs' where "rs' = rs @ (if get item ''consequence'' = Str ''write'' \<and> get item ''locality'' = Str ''external'' \<and>
             get environment ''externalWritesEnabled'' \<noteq> Bool True then [''external_writes_disabled''] else [])"
  from Cons.prems(1) obtain cs where cs: "allowed = Arr cs"
      "some_res (\<lambda>c. networkContains rt c item) cs = Inr True" "networks_loop rt rest allowed environment rs' = Inr (True, [])"
    by (auto simp: bind_res_eq_Inr Let_def rs'_def split: if_splits)
  have "rs' = []" using networks_loop_grows [OF cs(3)] by simp
  then show ?case
    using Cons.IH [OF cs(3)] Cons.prems(2) cs some_res_True [OF cs(2)] by (auto simp: rs'_def split: if_splits)
qed simp

lemma networksAllowed_True:
  assumes "networksAllowed rt (orelse (get c ''network'') (Arr [])) (orelse (get p ''network'') (Arr [])) environment = Inr (True, [])"
  shows "network_within rt environment c p"
proof -
  from assms obtain xs where xs: "js_iter (orelse (get c ''network'') (Arr [])) = Inr xs"
    and loop: "networks_loop rt xs (orelse (get p ''network'') (Arr [])) environment [] = Inr (True, [])"
    by (auto simp: networksAllowed_def bind_res_eq_Inr)
  have sub: "set (items (get c ''network'')) \<subseteq> set xs"
    using xs unfolding items_orelse [of "get c ''network''", symmetric]
    by (cases "orelse (get c ''network'') (Arr [])") auto
  show ?thesis
    unfolding network_within_def using networks_loop_True [OF loop] networkContains_covers sub items_of_list by blast
qed

lemma secretsAllowed_True:
  "secretsAllowed rt (orelse (get c ''secretReferences'') (Arr [])) (orelse (get p ''secretReferences'') (Arr [])) = Inr True \<Longrightarrow>
   secrets_within rt c p"
  unfolding secrets_within_def secretsAllowed_def
  by (auto simp: bind_res_eq_Inr every_res_True dest!: items_of_list split: if_splits)

lemma dataClassesAllowed_True:
  "dataClassesAllowed rt (orelse (get c ''dataClasses'') (Arr [])) (orelse (get p ''dataClasses'') (get r ''dataClasses'')) = Inr True \<Longrightarrow> classes_within rt r c p"
  unfolding classes_within_def dataClassesAllowed_def POLICY_DATA_CLASSES_def
  by (auto simp: bind_res_eq_Inr every_res_True dest!: items_of_list elim!: str_inE split: if_splits)

lemma limits_ok_within:
  "limits_ok (orelse (get c ''limits'') (Obj [])) (orelse (get p ''limits'') (get r ''defaultLimits'')) \<Longrightarrow> limits_within r c p"
proof -
  assume ok: "limits_ok (orelse (get c ''limits'') (Obj [])) (orelse (get p ''limits'') (get r ''defaultLimits''))"
  have one: "limit_ok m (k, v) \<Longrightarrow> k \<in> set LIMIT_KEYS \<and> (\<exists>n. v = Num n \<and> 0 \<le> n \<and> (\<forall>b. get m k = Num b \<longrightarrow> n \<le> b))" for m k v
    by (cases v) (auto simp: limit_ok_def)
  have "own_entries (orelse v (Obj [])) = own_entries v" for v by (cases v) (simp_all add: orelse_def)
  then have "\<forall>kv \<in> set (own_entries (get c ''limits'')). limit_ok (orelse (get p ''limits'') (get r ''defaultLimits'')) kv"
    using ok by (simp add: limits_ok_def list_all_iff)
  then show "limits_within r c p" unfolding limits_within_def using one by blast
qed

lemma riskRank_ranks: "0 \<le> riskRank v \<Longrightarrow> nat (riskRank v) < 3 \<and> v = Str ([''read-only'', ''reversible-write'', ''consequential-write''] ! nat (riskRank v))"
  by (auto simp: riskRank_def POLICY_SIDE_EFFECT_CLASSES_def less_Suc_eq split: option.splits if_splits)

lemma riskRank_within:
  assumes "str_in (get c ''sideEffectClass'') POLICY_SIDE_EFFECT_CLASSES" and "riskRank (get c ''sideEffectClass'') \<le> riskRank (get p ''sideEffectClass'')"
  shows "effects_within c p"
proof -
  have c: "0 \<le> riskRank (get c ''sideEffectClass'')" using assms(1) by (auto simp: riskRank_def POLICY_SIDE_EFFECT_CLASSES_def elim!: str_inE)
  then have p: "0 \<le> riskRank (get p ''sideEffectClass'')" using assms(2) by linarith
  have "nat (riskRank (get c ''sideEffectClass'')) \<le> nat (riskRank (get p ''sideEffectClass''))" using assms(2) by (rule nat_mono)
  then show ?thesis unfolding effects_within_def using riskRank_ranks [OF c] riskRank_ranks [OF p] by blast
qed

lemma check_operation_contained:
  assumes "check_operation rt c m p w e r = Inr ([], eff)"
  shows "contained rt r e c p" and "role_listed m w"
proof -
  let ?none = "Obj [(''read'', Arr []), (''write'', Arr [])]"
  let ?part = "\<lambda>v k. orelse (get v k) (Arr [])"
  have ok: "scopesAllowed (?part (orelse (get c ''filesystem'') ?none) ''read'') (?part (orelse (get p ''filesystem'') ?none) ''read'') = Inr True"
    "scopesAllowed (?part (orelse (get c ''filesystem'') ?none) ''write'') (?part (orelse (get p ''filesystem'') ?none) ''write'') = Inr True"
    "networksAllowed rt (?part c ''network'') (?part p ''network'') e = Inr (True, [])"
    "secretsAllowed rt (?part c ''secretReferences'') (?part p ''secretReferences'') = Inr True"
    "limits_ok (orelse (get c ''limits'') (Obj [])) (orelse (get p ''limits'') (get r ''defaultLimits''))"
    "dataClassesAllowed rt (?part c ''dataClasses'') (orelse (get p ''dataClasses'') (get r ''dataClasses'')) = Inr True"
    "str_in (get c ''sideEffectClass'') POLICY_SIDE_EFFECT_CLASSES"
    "riskRank (get c ''sideEffectClass'') \<le> riskRank (get p ''sideEffectClass'')"
    "strict_eq (orelse (get c ''sandbox'') (Str ''none'')) (orelse (get p ''sandbox'') (Str ''none''))"
    using assms by (auto simp: check_operation_def Let_def bind_res_eq_Inr validateLimits_def split: if_splits)
  show "contained rt r e c p"
    unfolding contained_def
    using scopesAllowed_True [OF ok(1)] scopesAllowed_True [OF ok(2)] networksAllowed_True [OF ok(3)] secretsAllowed_True [OF ok(4)]
      limits_ok_within [OF ok(5)] dataClassesAllowed_True [OF ok(6)] riskRank_within [OF ok(7,8)] strict_eqD [OF ok(9)] by blast
  have "\<not> (is_arr (get m ''allowedRoles'') \<and> items (get m ''allowedRoles'') \<noteq> [] \<and>
      \<not> js_includes (items (get m ''allowedRoles'')) (orelse (get w ''agentRole'') (get w ''principalType'')))"
    using assms by (auto simp: check_operation_def Let_def bind_res_eq_Inr)
  then show "role_listed m w" unfolding role_listed_def by (auto dest: js_includes_in)
qed

text \<open>The operation a manifest declares under a name: the entry of its table of operations, or, for a manifest without a
  table, the operation \<open>invoke\<close> with the manifest's risk class and permissions.\<close>

definition declared_as :: "js \<Rightarrow> string \<Rightarrow> js \<Rightarrow> bool" where
  "declared_as manifest name operation \<longleftrightarrow> truthy operation \<and>
     (if is_plain (get manifest ''operations'') then operation = get (get manifest ''operations'') name
      else name = ''invoke'' \<and> get operation ''sideEffectClass'' = orelse (get manifest ''riskClass'') (Str ''read-only'') \<and>
        (\<forall>k \<in> {''read'', ''write''}. items (get (get operation ''filesystem'') k) = items (get (get (get manifest ''permissions'') ''filesystem'') k)) \<and>
        items (get operation ''secretReferences'') = items (get (get manifest ''permissions'') ''secrets'') \<and>
        get operation ''dataClasses'' = Arr [Str ''public'', Str ''workspace-private''])"

lemma normalizeOperations_declares:
  assumes "normalizeOperations m = Inr operations" and "truthy (get operations name)"
  shows "declared_as m name (get operations name)"
proof (cases "is_plain (get m ''operations'')")
  case False
  have "get (orelse v (Obj [])) k = get v k" for v k by (cases v) (simp_all add: orelse_def)
  then show ?thesis using assms False by (auto simp: normalizeOperations_def declared_as_def Let_def bind_res_eq_Inr items_orelse strs_def split: if_splits)
qed (use assms in \<open>simp add: normalizeOperations_def declared_as_def\<close>)

definition within_manifest :: "runtime \<Rightarrow> js \<Rightarrow> js \<Rightarrow> bool" where
  "within_manifest rt registry request \<longleftrightarrow>
     (let c = get request ''capabilityRequest''; m = get request ''trustedToolManifest'' in
      get m ''id'' = get c ''toolId'' \<and> truthy (get c ''toolId'') \<and> role_listed m (get request ''principal'') \<and>
      (\<exists>operation. declared_as m (js_to_string rt (orelse (get c ''operation'') (Str ''invoke''))) operation \<and>
        contained rt registry (orelse (get request ''environment'') (Obj [])) c operation))"

lemma normalizeOperations_or_null [simp]: "normalizeOperations (or_null m) = normalizeOperations m"
  by (simp add: normalizeOperations_def)

lemma check_operation_or_null: "check_operation rt (or_null c) m p w e r = check_operation rt c m p w e r"
  by (simp add: check_operation_def sanitizeCapability_def)

lemma role_listed_or_null: "role_listed (or_null m) (or_null w) \<longleftrightarrow> role_listed m w"
  by (simp add: role_listed_def)

lemma evaluateCapability_contained:
  assumes "evaluateCapability rt (or_null (get q ''capabilityRequest'')) (or_null (get q ''trustedToolManifest'')) (or_null (get q ''principal''))
      (orelse (get q ''environment'') (Obj [])) r = Inr ([], eff)"
  shows "within_manifest rt r q"
proof -
  let ?c = "get q ''capabilityRequest''" and ?m = "get q ''trustedToolManifest''"
  let ?name = "js_to_string rt (orelse (get ?c ''operation'') (Str ''invoke''))"
  obtain operations where o: "normalizeOperations ?m = Inr operations" "truthy (get operations ?name)" "get ?m ''id'' = get ?c ''toolId''" "truthy (get ?c ''toolId'')"
      and c: "check_operation rt ?c (or_null ?m) (get operations ?name) (or_null (get q ''principal'')) (orelse (get q ''environment'') (Obj [])) r = Inr ([], eff)"
    using assms unfolding evaluateCapability_def Let_def check_operation_or_null
    by (auto simp: bind_res_eq_Inr dest: strict_eqD split: if_splits)
  show ?thesis
    unfolding within_manifest_def Let_def
    using check_operation_contained [OF c] normalizeOperations_declares [OF o(1,2)] o(3,4) by (auto simp: role_listed_or_null)
qed

section \<open>Approval binding\<close>

definition approved :: "runtime \<Rightarrow> js \<Rightarrow> bool" where
  "approved rt q \<longleftrightarrow>
     (let a = get q ''approvalContext'' in
      get a ''status'' = Str ''active'' \<and> get a ''serverVerified'' = Bool True \<and>
      get a ''workspaceId'' = get q ''workspaceId'' \<and> get a ''actorId'' = get (get q ''principal'') ''userId'' \<and>
      get a ''operationFingerprint'' = Str (canonicalOperationFingerprint rt q))"

lemma approval_sound:
  assumes "approval_reasons rt q (or_null (get q ''capabilityRequest'')) m t = Inr []"
    and "get (get q ''capabilityRequest'') ''sideEffectClass'' = Str ''consequential-write''"
  shows "approved rt q"
  using assms by (auto simp: approval_reasons_def orelse_def validateApproval_def approved_def bound_to_def Let_def
      dest: strict_eqD split: if_splits)

section \<open>Sample requests\<close>

lemma default_registry_valid: "validatePolicyRegistry rt POLICY_REGISTRY = Inr True"
  by code_simp

lemma default_registry_created: "createPolicyRegistry rt (Obj []) = Inr POLICY_REGISTRY"
proof -
  have "Obj (spread (entries (deepClone (Obj DEFAULT_REGISTRY))) (entries (deepClone (Obj [])))) = POLICY_REGISTRY" by code_simp
  then show ?thesis
    by (simp add: createPolicyRegistry_def assertPlainObject_def assertNoUnknown_def require_def default_registry_valid Let_def del: deepClone.simps)
qed

text \<open>An approval whose expiry does not parse as a date never expires.\<close>

lemma unparsable_expiry_never_expires:
  "date_parse rt s = None \<Longrightarrow> s \<noteq> [] \<Longrightarrow> get approval ''expiresAt'' = Str s \<Longrightarrow> ''approval_expired'' \<notin> set (validateApproval rt q approval t)"
  by (auto simp: validateApproval_def reason_if_def js_date_le_def date_le_def)

text \<open>The fingerprint an approval is bound to does not cover the data classes of the capability.\<close>

lemma stable_operation_cong:
  assumes "\<And>k. k \<noteq> ''capabilityRequest'' \<Longrightarrow> get q k = get q' k"
    and "truthy (get q ''capabilityRequest'') = truthy (get q' ''capabilityRequest'')"
    and "\<And>k. k \<noteq> ''dataClasses'' \<Longrightarrow> get (get q ''capabilityRequest'') k = get (get q' ''capabilityRequest'') k"
  shows "stable_operation q = stable_operation q'"
  unfolding stable_operation_def Let_def or_null_def [of "get q ''capabilityRequest''", symmetric]
    or_null_def [of "get q' ''capabilityRequest''", symmetric] or_null_simps
  by (simp add: assms)

lemma fingerprint_ignores_data_classes:
  "canonicalOperationFingerprint rt (Obj (kvs @ [(''capabilityRequest'', Obj (cap @ [(''dataClasses'', ds)]))])) =
   canonicalOperationFingerprint rt (Obj (kvs @ [(''capabilityRequest'', Obj (cap @ [(''dataClasses'', ds')]))]))"
  unfolding canonicalOperationFingerprint_def
  by (rule arg_cong [where f = "\<lambda>v. ''sha256:'' @ sha256Hex rt (canonicalStringify rt v)"], rule stable_operation_cong)
    (auto simp: map_add_def split: option.splits)

text \<open>A consequential tool call by an owner, without and with the approval of it.\<close>

definition sample_operation :: "(string \<times> js) list" where
  "sample_operation =
     [(''schemaVersion'', Str ''1.0.0''),
      (''principal'', Obj [(''userId'', Str ''u''), (''principalType'', Str ''user''), (''status'', Str ''active'')]),
      (''workspaceId'', Str ''w''),
      (''membership'', Obj [(''workspaceId'', Str ''w''), (''role'', Str ''owner''), (''status'', Str ''active'')]),
      (''action'', Str ''tool.invoke''),
      (''resource'', Obj [(''type'', Str ''tool'')]),
      (''capabilityRequest'', Obj [(''toolId'', Str ''t''), (''sideEffectClass'', Str ''consequential-write''),
         (''filesystem'', Obj [(''read'', strs [''workspace:docs''])]), (''limits'', Obj [(''runtimeMs'', Num 10)])]),
      (''trustedToolManifest'', Obj [(''id'', Str ''t''), (''operations'', Obj [(''invoke'', Obj
         [(''sideEffectClass'', Str ''consequential-write''), (''filesystem'', Obj [(''read'', strs [''workspace:root''])])])])]),
      (''idempotencyKey'', Str ''k''),
      (''trustedTimestamp'', Str ''5'')]"

definition sample_approval :: "string \<Rightarrow> js" where
  "sample_approval fp = Obj [(''approvalId'', Str ''a''), (''operationFingerprint'', Str fp), (''workspaceId'', Str ''w''), (''actorId'', Str ''u''),
     (''expiresAt'', Str ''9''), (''status'', Str ''active''), (''policyVersion'', Str ''1.0.0''), (''serverVerified'', Bool True)]"

definition sample_request :: js where
  "sample_request = Obj (sample_operation @
     [(''approvalContext'', sample_approval (canonicalOperationFingerprint sample_runtime (Obj sample_operation)))])"

definition sample_part :: "string \<Rightarrow> js" where
  "sample_part k = get (Obj sample_operation) k"

lemma evaluation_allows:
  assumes "validatePolicyRegistry rt registry = Inr True" and "validatePolicyEvaluationRequest q = Inr q"
    and "collect_reasons rt registry [] q (if validTimestamp rt (get q ''trustedTimestamp'') then get q ''trustedTimestamp'' else now) = Inr ([], eff)"
    and "safeResourceId (get (get q ''resource'') ''id'') = Inr rid"
  shows "\<exists>d. evaluateContextualPolicy rt did uuid now registry q = Inr d \<and> pd_outcome d = ''allow''"
  using assms by (simp add: evaluateContextualPolicy_def policyFingerprint_def Let_def orderedReasons_def)

lemma sample_capability:
  "evaluateCapability sample_runtime (sample_part ''capabilityRequest'') (sample_part ''trustedToolManifest'')
     (sample_part ''principal'') (Obj []) POLICY_REGISTRY =
   Inr ([], Obj [(''toolId'', Str ''t''), (''operation'', Str ''invoke''), (''sideEffectClass'', Str ''consequential-write''),
     (''filesystem'', Obj [(''read'', strs [''workspace:docs'']), (''write'', Arr [])]), (''network'', Arr []), (''secretReferences'', Arr []),
     (''dataClasses'', Arr []), (''sandbox'', Str ''none''), (''limits'', Obj [(''runtimeMs'', Num 10)])])"
  by code_simp

lemma sample_identity:
  "identity_reasons sample_runtime POLICY_REGISTRY (sample_part ''principal'') (sample_part ''membership'')
     (Str ''tool.invoke'') (Str ''w'') = []"
  by code_simp

lemma sample_resource:
  "resource_reasons POLICY_REGISTRY (sample_part ''resource'') (sample_part ''capabilityRequest'')
     (Str ''tool.invoke'') (Str ''w'') = []"
  by code_simp

lemma sample_valid: "validatePolicyEvaluationRequest (Obj (sample_operation @ [(''approvalContext'', sample_approval fp)])) =
    Inr (Obj (sample_operation @ [(''approvalContext'', sample_approval fp)]))"
  by code_simp

lemma sample_request_valid: "validatePolicyEvaluationRequest sample_request = Inr sample_request"
  unfolding sample_request_def by (rule sample_valid)

lemma sample_gets:
  "get sample_request ''principal'' = sample_part ''principal''"
  "get sample_request ''membership'' = sample_part ''membership''"
  "get sample_request ''resource'' = sample_part ''resource''"
  "get sample_request ''capabilityRequest'' = sample_part ''capabilityRequest''"
  "get sample_request ''trustedToolManifest'' = sample_part ''trustedToolManifest''"
  "get sample_request ''action'' = Str ''tool.invoke''" "get sample_request ''workspaceId'' = Str ''w''"
  "get sample_request ''environment'' = Undef" "get sample_request ''idempotencyKey'' = Str ''k''"
  "get sample_request ''payloadFingerprint'' = Undef" "get sample_request ''trustedTimestamp'' = Str ''5''"
  "get sample_request ''approvalContext'' = sample_approval (canonicalOperationFingerprint sample_runtime (Obj sample_operation))"
  by (simp_all add: sample_request_def sample_operation_def sample_part_def)

lemma sample_fingerprint: "canonicalOperationFingerprint rt sample_request = canonicalOperationFingerprint rt (Obj sample_operation)"
proof -
  have "stable_operation sample_request = stable_operation (Obj sample_operation)"
    unfolding stable_operation_def sample_gets by (simp add: sample_operation_def sample_part_def)
  then show ?thesis by (simp add: canonicalOperationFingerprint_def)
qed

lemma sample_date: "\<not> js_date_le sample_runtime (Str ''9'') (Str ''5'')" "validTimestamp sample_runtime (Str ''5'')"
  by code_simp+

lemma sample_parts:
  "get (sample_part ''principal'') ''userId'' = Str ''u''"
  "get (sample_part ''capabilityRequest'') ''sideEffectClass'' = Str ''consequential-write''"
  "get (sample_part ''resource'') ''id'' = Undef"
  "truthy (sample_part ''capabilityRequest'')" "truthy (sample_part ''trustedToolManifest'')"
  "truthy (sample_part ''principal'')" "truthy (sample_part ''membership'')"
  "truthy (sample_part ''resource'')"
  by (simp_all add: sample_operation_def sample_part_def)

lemma sample_collect: "\<exists>eff. collect_reasons sample_runtime POLICY_REGISTRY [] sample_request (Str ''5'') = Inr ([], eff)"
proof -
  have approval: "approval_reasons sample_runtime sample_request (sample_part ''capabilityRequest'') m (Str ''5'') = Inr []" for m
    unfolding approval_reasons_def sample_parts sample_gets validateApproval_def sample_fingerprint
    by (simp add: orelse_def sample_approval_def bound_to_def sample_date sample_parts POLICY_VERSION_def)
  show ?thesis
    unfolding collect_reasons_def Let_def sample_gets
    by (simp add: or_null_truthy sample_parts sample_capability sample_identity sample_resource approval orelse_def)
qed

lemma sample_allowed:
  "\<exists>d. evaluateContextualPolicy sample_runtime did uuid now POLICY_REGISTRY sample_request = Inr d \<and> pd_outcome d = ''allow''"
proof -
  obtain eff where "collect_reasons sample_runtime POLICY_REGISTRY [] sample_request (Str ''5'') = Inr ([], eff)"
    using sample_collect by blast
  then show ?thesis
    by (intro evaluation_allows [where eff = eff and rid = Null])
      (simp_all add: default_registry_valid sample_gets sample_date sample_parts sample_request_valid del: validTimestamp.simps)
qed

section \<open>Properties\<close>

text \<open>C4: a decision that allows implies the policy. Whatever the request looks like, when the evaluation
  returns an allowing decision then the principal is identified and active, is an active member of the
  workspace, the action is a known one that the member's role includes, a bearer token's scopes and
  workspaces cover it, and the resource is of a known type, in the same workspace, and no secret enters a
  compiled context.\<close>

theorem allow_implies_policy:
  assumes "evaluateContextualPolicy rt did uuid now registry request = Inr d" and "pd_outcome d = ''allow''"
  shows "identified request \<and> member request \<and> role_permits rt registry request \<and> token_permits request \<and> resource_local registry request"
proof -
  obtain eff where c: "collect_reasons rt registry [] request (pd_evaluatedAt d) = Inr ([], eff)"
    using allowed_collect [OF assms] by metis
  note id = identity_sound [OF collect_Nil(1) [OF c]]
  then show ?thesis using resource_sound [OF collect_Nil(2) [OF c]] by (simp add: member_def)
qed

theorem allow_implies_policy_witness:
  "identified sample_request \<and> member sample_request \<and> role_permits sample_runtime POLICY_REGISTRY sample_request \<and>
   token_permits sample_request \<and> resource_local POLICY_REGISTRY sample_request"
  using sample_allowed [of Null "''u''" "Str ''5''"] allow_implies_policy by blast



text \<open>An approval admits only the operation it was given for. When a consequential write is allowed
  by an approval whose fingerprint was computed for some operation, no array in either operation has an undefined element, and the hash does not
  collide on the two canonical texts, then the request is that operation up to the order of properties: the same actor,
  workspace, action, resource, tool, scopes, payload and idempotency key.\<close>

theorem approval_admits_only_its_operation:
  assumes "decimal_printer rt" and "no_holes (stable_operation request)" and "no_holes (stable_operation reviewed)"
    and "evaluateContextualPolicy rt did uuid now registry request = Inr d" and "pd_outcome d = ''allow''"
    and "get (get request ''capabilityRequest'') ''sideEffectClass'' = Str ''consequential-write''"
    and "get (get request ''approvalContext'') ''operationFingerprint'' = Str (canonicalOperationFingerprint rt reviewed)"
    and "sha256_hex rt (canonicalStringify rt (stable_operation request)) = sha256_hex rt (canonicalStringify rt (stable_operation reviewed)) \<longrightarrow>
         canonicalStringify rt (stable_operation request) = canonicalStringify rt (stable_operation reviewed)"
  shows "approved rt request \<and> canon (stable_operation request) = canon (stable_operation reviewed)"
proof -
  obtain eff where c: "collect_reasons rt registry [] request (pd_evaluatedAt d) = Inr ([], eff)"
    using allowed_collect [OF assms(4,5)] by metis
  have ok: "approved rt request" using approval_sound [OF collect_Nil(4) [OF c] assms(6)] .
  then have "canonicalOperationFingerprint rt request = canonicalOperationFingerprint rt reviewed"
    using assms(7) by (simp add: approved_def Let_def)
  then have "canonicalStringify rt (stable_operation request) = canonicalStringify rt (stable_operation reviewed)"
    using assms(8) by (simp add: canonicalOperationFingerprint_def sha256Hex_def)
  then show ?thesis using ok plain_text_inj [OF assms(1)] assms(2,3) by (simp add: canonicalStringify_plain)
qed

theorem approval_admits_only_its_operation_witness:
  "approved sample_runtime sample_request \<and> canon (stable_operation sample_request) = canon (stable_operation (Obj sample_operation))"
proof -
  obtain d where "evaluateContextualPolicy sample_runtime Null ''u'' (Str ''5'') POLICY_REGISTRY sample_request = Inr d" "pd_outcome d = ''allow''"
    using sample_allowed by blast
  moreover have "no_holes (stable_operation sample_request)" "no_holes (stable_operation (Obj sample_operation))" by code_simp+
  ultimately show ?thesis using approval_admits_only_its_operation [OF sample_runtime_printer, of sample_request "Obj sample_operation" Null "''u''" "Str ''5''" POLICY_REGISTRY]
    by (simp add: sample_gets sample_parts sample_approval_def sample_runtime_def)
qed

text \<open>A write that could not be audited is denied. When the audit sink fails, the service never returns an
  allowing decision for a request whose side effects are not read-only: the outcome is a denial that names a
  reason and carries no capability.\<close>

theorem unaudited_write_is_denied:
  assumes "evaluate rt (Some (\<lambda>_. False)) did uuid now registry request = Inr d"
    and "orelse (get (get request ''capabilityRequest'') ''sideEffectClass'') (Str ''read-only'') \<noteq> Str ''read-only''"
  shows "pd_outcome d = ''deny'' \<and> pd_reasonCodes d \<noteq> [] \<and> pd_effectiveCapability d = Null"
proof -
  obtain d0 where d0: "evaluateContextualPolicy rt did uuid now registry request = Inr d0"
    using assms(1) by (auto simp: evaluate_def bind_res_eq_Inr)
  obtain reasons where r: "pd_outcome d0 = (if reasons = [] then ''allow'' else ''deny'')" "pd_reasonCodes d0 = orderedReasons reasons" "coded reasons"
      "reasons \<noteq> [] \<Longrightarrow> pd_effectiveCapability d0 = Null"
    using evaluation_cases [OF d0] by (metis (full_types))
  show ?thesis
  proof (cases "reasons = []")
    case True
    then show ?thesis using assms d0 r by (auto simp: evaluate_def orderedReasons_def POLICY_REASON_CODES_def)
  next
    case False
    then show ?thesis using assms d0 r by (auto simp: evaluate_def orderedReasons_Nil)
  qed
qed

theorem unaudited_write_is_denied_witness:
  "\<exists>d. evaluate sample_runtime (Some (\<lambda>_. False)) Null ''u'' (Str ''5'') POLICY_REGISTRY sample_request = Inr d \<and> pd_outcome d = ''deny'' \<and>
     pd_reasonCodes d \<noteq> [] \<and> pd_effectiveCapability d = Null"
proof -
  have w: "orelse (get (get sample_request ''capabilityRequest'') ''sideEffectClass'') (Str ''read-only'') \<noteq> Str ''read-only''"
    by (simp add: sample_gets sample_parts orelse_def)
  obtain d where "evaluate sample_runtime (Some (\<lambda>_. False)) Null ''u'' (Str ''5'') POLICY_REGISTRY sample_request = Inr d"
    using sample_allowed [of Null "''u''" "Str ''5''"] w by (auto simp: evaluate_def)
  then show ?thesis using unaudited_write_is_denied [OF _ w] by blast
qed

text \<open>The policy does not fail closed on a membership without a role. The role checks are skipped when the
  role is missing, so a member with no role is allowed every action, including workspace reset and token
  management.\<close>

theorem roleless_member_is_allowed_everything:
  assumes "action \<in> set AUTHZ_ACTIONS" and "user \<noteq> []" and "ws \<noteq> []"
  shows "\<exists>d. evaluateContextualPolicy rt did uuid now POLICY_REGISTRY (Obj
      [(''schemaVersion'', Str ''1.0.0''), (''principal'', Obj [(''userId'', Str user), (''status'', Str ''active'')]),
       (''workspaceId'', Str ws), (''membership'', Obj [(''workspaceId'', Str ws), (''status'', Str ''active'')]),
       (''action'', Str action), (''resource'', Obj [(''type'', Str ''workspace'')])]) = Inr d \<and> pd_outcome d = ''allow''"
    (is "\<exists>d. evaluateContextualPolicy _ _ _ _ _ ?q = Inr d \<and> _")
proof -
  have reg: "items (get POLICY_REGISTRY ''knownActions'') = map Str (AUTHZ_ACTIONS @ [''tool.invoke''])"
    "items (get POLICY_REGISTRY ''resourceTypes'') = map Str POLICY_RESOURCE_TYPES"
    "items (get POLICY_REGISTRY ''dataClasses'') = map Str POLICY_DATA_CLASSES"
    "items (get POLICY_REGISTRY ''idempotencyRequiredFor'') = map Str [''reversible-write'', ''consequential-write'']"
    by (simp_all add: POLICY_REGISTRY_def DEFAULT_REGISTRY_def strs_def)
  have valid: "validatePolicyEvaluationRequest ?q = Inr ?q"
    by (simp add: validatePolicyEvaluationRequest_def plain_known_def assertNoUnknown_def assertPlainObject_def REQUEST_KEYS_def
        PRINCIPAL_KEYS_def MEMBERSHIP_KEYS_def RESOURCE_KEYS_def optional_def unless_undefined_def POLICY_SCHEMA_VERSION_def
        forbidden_keys_def has_own_def keys_def require_def)
  have act: "action \<noteq> ''tool.invoke''" using assms(1) by (auto simp: AUTHZ_ACTIONS_def)
  have known: "action \<in> set AUTHZ_ACTIONS \<or> action = ''tool.invoke''" "action \<noteq> []" using assms(1) by (auto simp: AUTHZ_ACTIONS_def)
  have q: "get ?q ''principal'' = Obj [(''userId'', Str user), (''status'', Str ''active'')]" "get ?q ''workspaceId'' = Str ws"
    "get ?q ''membership'' = Obj [(''workspaceId'', Str ws), (''status'', Str ''active'')]" "get ?q ''action'' = Str action"
    "get ?q ''resource'' = Obj [(''type'', Str ''workspace'')]" "get ?q ''capabilityRequest'' = Undef"
    "get ?q ''trustedToolManifest'' = Undef" "get ?q ''environment'' = Undef" "get ?q ''idempotencyKey'' = Undef"
    by simp_all
  have ident: "identity_reasons rt POLICY_REGISTRY (Obj [(''userId'', Str user), (''status'', Str ''active'')])
      (Obj [(''workspaceId'', Str ws), (''status'', Str ''active'')]) (Str action) (Str ws) = []"
    unfolding identity_reasons_def Let_def reg using assms known by (simp add: orelse_def image_iff)
  have res: "resource_reasons POLICY_REGISTRY (Obj [(''type'', Str ''workspace'')]) Null (Str action) (Str ws) = []"
    unfolding resource_reasons_def Let_def reg by (simp add: orelse_def POLICY_RESOURCE_TYPES_def POLICY_DATA_CLASSES_def)
  have appr: "approval_reasons rt v Null Null t = Inr []" for v t
    by (simp add: approval_reasons_def operationRequiresApproval_def orelse_def)
  have "collect_reasons rt POLICY_REGISTRY [] ?q t = Inr ([], Null)" for t
    unfolding collect_reasons_def Let_def q reg using act by (simp add: or_null_def orelse_def ident res appr)
  then show ?thesis by (intro evaluation_allows [OF default_registry_valid valid]) simp_all
qed

theorem roleless_member_is_allowed_everything_witness:
  "\<exists>d. evaluateContextualPolicy sample_runtime Null ''x'' (Str ''5'') POLICY_REGISTRY (Obj
      [(''schemaVersion'', Str ''1.0.0''), (''principal'', Obj [(''userId'', Str ''u''), (''status'', Str ''active'')]),
       (''workspaceId'', Str ''w''), (''membership'', Obj [(''workspaceId'', Str ''w''), (''status'', Str ''active'')]),
       (''action'', Str ''token.manage''), (''resource'', Obj [(''type'', Str ''workspace'')])]) = Inr d \<and> pd_outcome d = ''allow''"
  by (rule roleless_member_is_allowed_everything) (simp_all add: AUTHZ_ACTIONS_def)

end
