(* ===== verification/Durable.thy ===== *)
theory Durable
  imports JsDyn
begin

text \<open>
  providers/native/workflow-durable-sqlite/src/index.mjs: the durable workflow runtime. Its
  tables are lists of rows; a transaction either applies its whole body or leaves the
  database as it was. Everything between two awaits is one synchronous section with one
  reading of the clock; a handler that is running is an entry of the list of attempts, and
  its later calls (events, effects, completion, failure, time-out) are separate operations,
  so that every interleaving of workers, operators and handlers is a sequence of operations.
  Columns that hold JSON text hold the value it denotes. Identifiers are strings; fresh ones
  are arguments.
\<close>

section \<open>Tables\<close>

datatype run_status = Queued | Running | WaitingRetry | WaitingTimer | WaitingApproval | Completed | Failed | Cancelled

datatype step_status = StQueued | StRunning | StWaitingRetry | StWaitingTimer | StWaitingApproval | StApprovalResolved
  | StCompleted | StFailed | StCancelled

record run_row =
  rn_workspace_id :: string
  rn_run_id :: string
  rn_workflow_id :: string
  rn_workflow_version :: string
  rn_workflow_fingerprint :: string
  rn_input :: js
  rn_input_fingerprint :: string
  rn_start_key :: string
  rn_start_fingerprint :: string
  rn_status :: run_status
  rn_current_step :: nat
  rn_output :: "js option"
  rn_error :: "js option"
  rn_lease_owner :: "string option"
  rn_lease_expires_at :: "string option"
  rn_resume_recorded :: bool
  rn_created_at :: string
  rn_updated_at :: string
  rn_completed_at :: "string option"

record step_row =
  st_workspace_id :: string
  st_run_id :: string
  st_step_id :: string
  st_step_index :: nat
  st_kind :: string
  st_status :: step_status
  st_attempt :: nat
  st_handler_id :: js
  st_handler_version :: js
  st_output :: "js option"
  st_error :: "js option"
  st_next_at :: "string option"
  st_approval_id :: "string option"
  st_idempotency_key :: "string option"
  st_operation_fingerprint :: "string option"
  st_updated_at :: string

record approval_row =
  ap_workspace_id :: string
  ap_run_id :: string
  ap_approval_id :: string
  ap_step_id :: string
  ap_operation_fingerprint :: string
  ap_state :: string
  ap_requested_at :: string
  ap_expires_at :: string
  ap_resolved_at :: "string option"
  ap_actor_id :: "string option"
  ap_decision :: "string option"

record effect_row =
  fx_workspace_id :: string
  fx_idempotency_key :: string
  fx_operation_fingerprint :: string
  fx_run_id :: string
  fx_step_id :: string
  fx_output :: js
  fx_committed_at :: string

record definition_row =
  df_workflow_id :: string
  df_version :: string
  df_fingerprint :: string
  df_definition :: js
  df_created_at :: string

record event_row =
  er_event :: event
  er_occurred_at :: string

text \<open>An attempt of a handler, with the context it was called with and its abort signal.\<close>

record attempt =
  at_workspaceId :: string
  at_runId :: string
  at_stepId :: string
  at_workerId :: string
  at_attempt :: nat
  at_stepDef :: js
  at_idempotencyKey :: "string option"
  at_operationFingerprint :: "string option"
  at_priorOutputs :: "(string \<times> js option) list"
  at_aborted :: bool
  at_settled :: bool

record workflow_db =
  w_definitions :: "definition_row list"
  w_runs :: "run_row list"
  w_steps :: "step_row list"
  w_approvals :: "approval_row list"
  w_effects :: "effect_row list"
  w_events :: "event_row list"
  w_attempts :: "attempt list"
  w_active :: "(string \<times> nat) list"

definition empty_workflows :: workflow_db where
  "empty_workflows = \<lparr>w_definitions = [], w_runs = [], w_steps = [], w_approvals = [], w_effects = [], w_events = [],
     w_attempts = [], w_active = []\<rparr>"

record wf_limits =
  workflowDefinitionBytes :: nat
  workflowInputBytes :: nat
  stepOutputBytes :: nat
  errorPayloadBytes :: nat
  eventPayloadBytes :: nat
  historyEventCount :: nat
  runListPageSize :: nat
  maxSteps :: nat
  maxAttempts :: nat
  timerHorizonMs :: nat
  approvalWaitMs :: nat

definition DURABLE_LIMITS :: wf_limits where
  "DURABLE_LIMITS = \<lparr>workflowDefinitionBytes = 128 * 1024, workflowInputBytes = 64 * 1024, stepOutputBytes = 64 * 1024,
     errorPayloadBytes = 4096, eventPayloadBytes = 8192, historyEventCount = 5000, runListPageSize = 100, maxSteps = 64,
     maxAttempts = 5, timerHorizonMs = 24 * 60 * 60 * 1000, approvalWaitMs = 24 * 60 * 60 * 1000\<rparr>"

datatype wf_error =
    InvalidWorkflowInput string
  | PayloadTooLarge string
  | DefinitionInvalid string
  | DefinitionTooLarge
  | DefinitionNotFound
  | HandlerInvalid
  | HandlerDuplicate
  | HandlerNotFound
  | VersionFingerprintConflict
  | StartIdempotencyConflict
  | ApprovalDecisionInvalid
  | ApprovalNotFound
  | ApprovalFingerprintMismatch
  | IdempotencyKeyRequired
  | IdempotencyFingerprintConflict
  | RunCancelled
  | BadEvent event_error
  | DuplicateEventId
  | BadTime
  | NotJson

section \<open>Helpers\<close>

definition TERMINAL :: "run_status list" where
  "TERMINAL = [Completed, Failed, Cancelled]"

definition STEP_KINDS :: "string list" where
  "STEP_KINDS = [''deterministic'', ''model'', ''activity'', ''timer'', ''approval'']"

definition assertString :: "string \<Rightarrow> string \<Rightarrow> (wf_error, unit) result" where
  "assertString v name = require (trim v \<noteq> []) (InvalidWorkflowInput name)"

text \<open>\<open>boundedJson\<close> and the value its text denotes; \<open>undefined\<close> has no text.\<close>

definition boundedJson :: "runtime \<Rightarrow> js \<Rightarrow> string \<Rightarrow> nat \<Rightarrow> (wf_error, js) result" where
  "boundedJson rt v name limit =
     (if v = Undef then Inl NotJson
      else if limit < length (jsonStringify rt v) then Inl (PayloadTooLarge name)
      else Inr (deepClone v))"

definition addMs :: "runtime \<Rightarrow> string \<Rightarrow> rat option \<Rightarrow> (wf_error, string) result" where
  "addMs rt t0 ms = (case (date_parse rt t0, ms) of
     (Some t, Some d) \<Rightarrow> Inr (to_iso rt (t + \<lfloor>d\<rfloor>)) | _ \<Rightarrow> Inl BadTime)"

definition isDue :: "runtime \<Rightarrow> string option \<Rightarrow> string \<Rightarrow> bool" where
  "isDue rt due now = (case due of None \<Rightarrow> True | Some s \<Rightarrow> s = [] \<or> date_le rt s now)"

definition reason_char :: "char \<Rightarrow> bool" where
  "reason_char c \<longleftrightarrow> is_word c \<or> c \<in> {CHR '' '', CHR ''.'', CHR '':'', CHR ''-''}"

definition sanitizeReason :: "runtime \<Rightarrow> js \<Rightarrow> string" where
  "sanitizeReason rt reason =
     (let s = take 240 (filter reason_char (js_to_string rt (orelse reason (Str ''cancelled'')))) in if s = [] then ''cancelled'' else s)"

definition wf_sha256 :: "runtime \<Rightarrow> js \<Rightarrow> string" where
  "wf_sha256 rt v = sha256_hex rt (case v of Str s \<Rightarrow> s | _ \<Rightarrow> canonicalStringify rt v)"

fun is_int :: "js \<Rightarrow> bool" where
  "is_int (Num n) = (n = of_int \<lfloor>n\<rfloor>)"
| "is_int _ = False"

fun num_of :: "js \<Rightarrow> rat" where
  "num_of (Num n) = n"
| "num_of _ = 0"

section \<open>Definitions\<close>

fun blank_js :: "js \<Rightarrow> bool" where
  "blank_js (Str s) = (trim s = [])"
| "blank_js _ = True"

definition step_maxAttempts :: "js \<Rightarrow> js" where
  "step_maxAttempts step = orelse (get (get step ''retry'') ''maxAttempts'') (Num 1)"

definition check_step :: "wf_limits \<Rightarrow> js list \<Rightarrow> js \<Rightarrow> (wf_error, unit) result" where
  "check_step limits seen step =
     bind_res (require (is_plain step) (DefinitionInvalid ''workflow step must be an object'')) (\<lambda>_.
     bind_res (require (\<not> blank_js (get step ''id'')) (InvalidWorkflowInput ''step.id'')) (\<lambda>_.
     bind_res (require (get step ''id'' \<notin> set seen) (DefinitionInvalid ''duplicate step id'')) (\<lambda>_.
     bind_res (require (str_in (get step ''kind'') STEP_KINDS) (DefinitionInvalid ''unsupported step kind'')) (\<lambda>_.
     bind_res (require (is_int (get step ''timeoutMs'') \<and> 1 \<le> num_of (get step ''timeoutMs'')) (DefinitionInvalid ''timeoutMs'')) (\<lambda>_.
     bind_res (require (is_int (step_maxAttempts step) \<and> 1 \<le> num_of (step_maxAttempts step) \<and>
         num_of (step_maxAttempts step) \<le> of_nat (maxAttempts limits)) (DefinitionInvalid ''maxAttempts'')) (\<lambda>_.
     bind_res (require (str_in (get step ''riskClass'') [''read-only'', ''reversible-write'', ''consequential-write'']) (DefinitionInvalid ''riskClass'')) (\<lambda>_.
     require (str_in (get step ''kind'') [''timer'', ''approval''] \<or>
         truthy (get (get step ''handler'') ''id'') \<and> truthy (get (get step ''handler'') ''version'')) (DefinitionInvalid ''handler''))))))))"

fun check_steps :: "wf_limits \<Rightarrow> js list \<Rightarrow> js list \<Rightarrow> (wf_error, unit) result" where
  "check_steps limits seen [] = Inr ()"
| "check_steps limits seen (s # ss) = bind_res (check_step limits seen s) (\<lambda>_. check_steps limits (get s ''id'' # seen) ss)"

definition normalizeDefinition :: "runtime \<Rightarrow> wf_limits \<Rightarrow> js \<Rightarrow> (wf_error, js) result" where
  "normalizeDefinition rt limits inp =
     bind_res (require (is_plain inp) (DefinitionInvalid ''workflow definition must be an object'')) (\<lambda>_.
     bind_res (require (length (jsonStringify rt inp) \<le> workflowDefinitionBytes limits) DefinitionTooLarge) (\<lambda>_.
     bind_res (all_ok (\<lambda>k. require (get inp k \<noteq> Undef) (DefinitionInvalid k))
       [''schemaVersion'', ''id'', ''version'', ''name'', ''description'', ''steps'']) (\<lambda>_.
     bind_res (require (get inp ''schemaVersion'' = Str ''1.0.0'') (DefinitionInvalid ''schemaVersion'')) (\<lambda>_.
     bind_res (require (is_arr (get inp ''steps'') \<and> items (get inp ''steps'') \<noteq> [] \<and> length (items (get inp ''steps'')) \<le> maxSteps limits)
       (DefinitionInvalid ''steps'')) (\<lambda>_.
     bind_res (check_steps limits [] (items (get inp ''steps''))) (\<lambda>_.
       Inr (Obj (put_key (entries inp) (''fingerprint'', Str (wf_sha256 rt inp))))))))))"

section \<open>Views of rows\<close>

fun run_status_text :: "run_status \<Rightarrow> string" where
  "run_status_text Queued = ''queued''"
| "run_status_text Running = ''running''"
| "run_status_text WaitingRetry = ''waiting_retry''"
| "run_status_text WaitingTimer = ''waiting_timer''"
| "run_status_text WaitingApproval = ''waiting_approval''"
| "run_status_text Completed = ''completed''"
| "run_status_text Failed = ''failed''"
| "run_status_text Cancelled = ''cancelled''"

fun step_status_text :: "step_status \<Rightarrow> string" where
  "step_status_text StQueued = ''queued''"
| "step_status_text StRunning = ''running''"
| "step_status_text StWaitingRetry = ''waiting_retry''"
| "step_status_text StWaitingTimer = ''waiting_timer''"
| "step_status_text StWaitingApproval = ''waiting_approval''"
| "step_status_text StApprovalResolved = ''approval_resolved''"
| "step_status_text StCompleted = ''completed''"
| "step_status_text StFailed = ''failed''"
| "step_status_text StCancelled = ''cancelled''"

definition js_opt :: "js option \<Rightarrow> js" where
  "js_opt v = (case v of None \<Rightarrow> Null | Some x \<Rightarrow> x)"

definition str_opt :: "string option \<Rightarrow> js" where
  "str_opt v = (case v of None \<Rightarrow> Null | Some x \<Rightarrow> Str x)"

definition map_step :: "step_row \<Rightarrow> js" where
  "map_step s = Obj [(''stepId'', Str (st_step_id s)), (''kind'', Str (st_kind s)), (''status'', Str (step_status_text (st_status s))),
     (''attempt'', Num (of_nat (st_attempt s))),
     (''handler'', if truthy (st_handler_id s) then Obj [(''id'', st_handler_id s), (''version'', st_handler_version s)] else Null),
     (''output'', js_opt (st_output s)), (''error'', js_opt (st_error s)), (''nextAt'', str_opt (st_next_at s)),
     (''approvalId'', str_opt (st_approval_id s)), (''idempotencyKey'', str_opt (st_idempotency_key s)),
     (''operationFingerprint'', str_opt (st_operation_fingerprint s))]"

definition mapRun :: "run_row \<Rightarrow> step_row list \<Rightarrow> js" where
  "mapRun r ss = Obj [(''schemaVersion'', Str ''1.0.0''), (''provider'', Str ''provider:native:workflow:durable-sqlite''),
     (''workspaceId'', Str (rn_workspace_id r)), (''runId'', Str (rn_run_id r)), (''workflowId'', Str (rn_workflow_id r)),
     (''workflowVersion'', Str (rn_workflow_version r)), (''workflowFingerprint'', Str (rn_workflow_fingerprint r)),
     (''status'', Str (run_status_text (rn_status r))), (''currentStep'', Num (of_nat (rn_current_step r))),
     (''input'', rn_input r), (''output'', js_opt (rn_output r)), (''error'', js_opt (rn_error r)),
     (''createdAt'', Str (rn_created_at r)), (''updatedAt'', Str (rn_updated_at r)), (''completedAt'', str_opt (rn_completed_at r)),
     (''steps'', Obj (foldl (\<lambda>m s. put_key m (st_step_id s, map_step s)) [] ss))]"

definition mapEvent :: "event_row \<Rightarrow> js" where
  "mapEvent row = (let e = er_event row in Obj [(''schemaVersion'', Str (ev_schemaVersion e)), (''id'', Str (ev_id e)),
     (''workspaceId'', Str (ev_workspaceId e)), (''type'', Str (ev_type e)), (''runId'', Str (ev_runId e)), (''actorId'', Str (ev_actorId e)),
     (''sequence'', Num (of_int (ev_sequence e))), (''occurredAt'', Str (er_occurred_at row)), (''correlationId'', Str (ev_correlationId e)),
     (''causationId'', str_opt (ev_causationId e)), (''dataClass'', Str (ev_dataClass e)), (''producerVersion'', Str (ev_producerVersion e)),
     (''payload'', ev_payload e)])"

section \<open>The handler registry\<close>

record handler =
  hn_id :: string
  hn_version :: string
  hn_capabilities :: "string list"

type_synonym handlers = "(string \<times> handler) list"

definition handler_key :: "string \<Rightarrow> string \<Rightarrow> string" where
  "handler_key i v = i @ ''@'' @ v"

definition register_handler :: "string \<Rightarrow> string \<Rightarrow> string list \<Rightarrow> bool \<Rightarrow> handlers \<Rightarrow> (wf_error, handlers) result" where
  "register_handler i v capabilities runs hs =
     bind_res (assertString i ''handler.id'') (\<lambda>_.
     bind_res (assertString v ''handler.version'') (\<lambda>_.
     bind_res (require runs HandlerInvalid) (\<lambda>_.
     bind_res (require (map_of hs (handler_key i v) = None) HandlerDuplicate) (\<lambda>_.
       Inr (hs @ [(handler_key i v, \<lparr>hn_id = i, hn_version = v, hn_capabilities = capabilities\<rparr>)])))))"

definition registry_has :: "runtime \<Rightarrow> handlers \<Rightarrow> js \<Rightarrow> bool" where
  "registry_has rt hs ref \<longleftrightarrow> map_of hs (handler_key (js_to_string rt (get ref ''id'')) (js_to_string rt (get ref ''version''))) \<noteq> None"

section \<open>Rows of a run\<close>

definition the_run :: "string \<Rightarrow> string \<Rightarrow> run_row \<Rightarrow> bool" where
  "the_run ws run r \<longleftrightarrow> rn_workspace_id r = ws \<and> rn_run_id r = run"

definition of_run :: "string \<Rightarrow> string \<Rightarrow> step_row \<Rightarrow> bool" where
  "of_run ws run s \<longleftrightarrow> st_workspace_id s = ws \<and> st_run_id s = run"

definition the_step :: "string \<Rightarrow> string \<Rightarrow> string \<Rightarrow> step_row \<Rightarrow> bool" where
  "the_step ws run i s \<longleftrightarrow> of_run ws run s \<and> st_step_id s = i"

definition the_approval :: "string \<Rightarrow> string \<Rightarrow> string \<Rightarrow> approval_row \<Rightarrow> bool" where
  "the_approval ws run i a \<longleftrightarrow> ap_workspace_id a = ws \<and> ap_run_id a = run \<and> ap_approval_id a = i"

definition find_run :: "string \<Rightarrow> string \<Rightarrow> workflow_db \<Rightarrow> run_row option" where
  "find_run ws run db = List.find (the_run ws run) (w_runs db)"

definition run_steps :: "string \<Rightarrow> string \<Rightarrow> workflow_db \<Rightarrow> step_row list" where
  "run_steps ws run db = order_by (\<lambda>a b. st_step_index a \<le> st_step_index b) (filter (of_run ws run) (w_steps db))"

definition find_definition :: "string \<Rightarrow> string \<Rightarrow> workflow_db \<Rightarrow> (wf_error, definition_row) result" where
  "find_definition i v db = (case List.find (\<lambda>d. df_workflow_id d = i \<and> df_version d = v) (w_definitions db) of
     None \<Rightarrow> Inl DefinitionNotFound | Some d \<Rightarrow> Inr d)"

definition upd_run :: "string \<Rightarrow> string \<Rightarrow> (run_row \<Rightarrow> run_row) \<Rightarrow> workflow_db \<Rightarrow> workflow_db" where
  "upd_run ws run f db = db\<lparr>w_runs := upd_where (the_run ws run) f (w_runs db)\<rparr>"

definition upd_step :: "string \<Rightarrow> string \<Rightarrow> string \<Rightarrow> (step_row \<Rightarrow> step_row) \<Rightarrow> workflow_db \<Rightarrow> workflow_db" where
  "upd_step ws run i f db = db\<lparr>w_steps := upd_where (the_step ws run i) f (w_steps db)\<rparr>"

definition upd_approval :: "string \<Rightarrow> string \<Rightarrow> string \<Rightarrow> (approval_row \<Rightarrow> approval_row) \<Rightarrow> workflow_db \<Rightarrow> workflow_db" where
  "upd_approval ws run i f db = db\<lparr>w_approvals := upd_where (the_approval ws run i) f (w_approvals db)\<rparr>"

definition unlease :: "run_row \<Rightarrow> run_row" where
  "unlease r = r\<lparr>rn_lease_owner := None, rn_lease_expires_at := None\<rparr>"

section \<open>Events\<close>

definition run_events :: "string \<Rightarrow> string \<Rightarrow> workflow_db \<Rightarrow> event_row list" where
  "run_events ws run db = filter (\<lambda>e. ev_workspaceId (er_event e) = ws \<and> ev_runId (er_event e) = run) (w_events db)"

text \<open>\<open>COALESCE(MAX(sequence), -1) + 1\<close>\<close>

definition next_sequence :: "string \<Rightarrow> string \<Rightarrow> workflow_db \<Rightarrow> int" where
  "next_sequence ws run db = foldl max (-1) (map (\<lambda>e. ev_sequence (er_event e)) (run_events ws run db)) + 1"

definition appendEvent ::
  "runtime \<Rightarrow> wf_limits \<Rightarrow> string \<Rightarrow> string \<Rightarrow> string \<Rightarrow> string \<Rightarrow> string \<Rightarrow> js \<Rightarrow> string \<Rightarrow> workflow_db \<Rightarrow> (wf_error, workflow_db) result" where
  "appendEvent rt limits eid now ws run typ payload actor db =
     (case createEvent eid 0 typ ws run actor payload (next_sequence ws run db) None None ''workspace-private'' ''0.2.0-dev'' of
        Inl e \<Rightarrow> Inl (BadEvent e)
      | Inr e \<Rightarrow> bind_res (boundedJson rt payload ''event payload'' (eventPayloadBytes limits)) (\<lambda>p.
          if eid \<in> (\<lambda>r. ev_id (er_event r)) ` set (w_events db) then Inl DuplicateEventId
          else Inr (db\<lparr>w_events := w_events db @ [\<lparr>er_event = e\<lparr>ev_payload := p\<rparr>, er_occurred_at = now\<rparr>]\<rparr>)))"

text \<open>A transaction: the body's database, or the old one with the error.\<close>

definition transaction :: "(workflow_db \<Rightarrow> (wf_error, workflow_db) result) \<Rightarrow> workflow_db \<Rightarrow> workflow_db \<times> (wf_error, unit) result" where
  "transaction body db = (case body db of Inl e \<Rightarrow> (db, Inl e) | Inr db' \<Rightarrow> (db', Inr ()))"

section \<open>Registration and start\<close>

record config =
  c_limits :: wf_limits
  c_leaseMs :: nat
  c_handlers :: handlers

definition emit :: "runtime \<Rightarrow> config \<Rightarrow> string \<Rightarrow> string \<Rightarrow> string \<Rightarrow> string \<Rightarrow> string \<Rightarrow> js \<Rightarrow> workflow_db \<Rightarrow> (wf_error, workflow_db) result" where
  "emit rt cfg eid now ws run typ payload db = appendEvent rt (c_limits cfg) eid now ws run typ payload ''system'' db"

text \<open>Identifiers that are not strings do not reach the tables.\<close>

definition registerWorkflow :: "runtime \<Rightarrow> config \<Rightarrow> string \<Rightarrow> js \<Rightarrow> workflow_db \<Rightarrow> workflow_db \<times> (wf_error, bool) result" where
  "registerWorkflow rt cfg now inp db =
     (case bind_res (normalizeDefinition rt (c_limits cfg) inp) (\<lambda>d.
        bind_res (all_ok (\<lambda>s. require (\<not> truthy (get s ''handler'') \<or> registry_has rt (c_handlers cfg) (get s ''handler'')) HandlerNotFound)
          (items (get d ''steps''))) (\<lambda>_. Inr d)) of
        Inl e \<Rightarrow> (db, Inl e)
      | Inr d \<Rightarrow>
          (case (get d ''id'', get d ''version'', get d ''fingerprint'') of
             (Str i, Str v, Str fp) \<Rightarrow>
               (case find_definition i v db of
                  Inr existing \<Rightarrow> (db, if df_fingerprint existing \<noteq> fp then Inl VersionFingerprintConflict else Inr True)
                | Inl _ \<Rightarrow>
                    (case boundedJson rt d ''workflow definition'' (workflowDefinitionBytes (c_limits cfg)) of
                       Inl e \<Rightarrow> (db, Inl e)
                     | Inr dj \<Rightarrow> (db\<lparr>w_definitions := w_definitions db @
                         [\<lparr>df_workflow_id = i, df_version = v, df_fingerprint = fp, df_definition = dj, df_created_at = now\<rparr>]\<rparr>, Inr False)))
           | _ \<Rightarrow> (db, Inl (DefinitionInvalid ''id''))))"

definition new_run :: "string \<Rightarrow> string \<Rightarrow> string \<Rightarrow> string \<Rightarrow> string \<Rightarrow> js \<Rightarrow> string \<Rightarrow> string \<Rightarrow> string \<Rightarrow> string \<Rightarrow> run_row" where
  "new_run ws run wid ver fp inp infp key sfp now =
     \<lparr>rn_workspace_id = ws, rn_run_id = run, rn_workflow_id = wid, rn_workflow_version = ver, rn_workflow_fingerprint = fp,
      rn_input = inp, rn_input_fingerprint = infp, rn_start_key = key, rn_start_fingerprint = sfp, rn_status = Queued, rn_current_step = 0,
      rn_output = None, rn_error = None, rn_lease_owner = None, rn_lease_expires_at = None, rn_resume_recorded = False,
      rn_created_at = now, rn_updated_at = now, rn_completed_at = None\<rparr>"

fun js_str :: "js \<Rightarrow> string" where
  "js_str (Str s) = s"
| "js_str _ = []"

definition new_step :: "string \<Rightarrow> string \<Rightarrow> string \<Rightarrow> nat \<Rightarrow> js \<Rightarrow> step_row" where
  "new_step ws run now i step =
     \<lparr>st_workspace_id = ws, st_run_id = run, st_step_id = js_str (get step ''id''), st_step_index = i, st_kind = js_str (get step ''kind''),
      st_status = StQueued, st_attempt = 0, st_handler_id = orelse (get (get step ''handler'') ''id'') Null,
      st_handler_version = orelse (get (get step ''handler'') ''version'') Null, st_output = None, st_error = None, st_next_at = None,
      st_approval_id = None, st_idempotency_key = None, st_operation_fingerprint = None, st_updated_at = now\<rparr>"

definition new_steps :: "string \<Rightarrow> string \<Rightarrow> string \<Rightarrow> js \<Rightarrow> step_row list" where
  "new_steps ws run now definition =
     map (\<lambda>(i, s). new_step ws run now i s) (zip [0..<length (items (get definition ''steps''))] (items (get definition ''steps'')))"

definition start_fingerprint :: "runtime \<Rightarrow> string \<Rightarrow> string \<Rightarrow> string \<Rightarrow> js \<Rightarrow> string" where
  "start_fingerprint rt wid ver fp inp =
     wf_sha256 rt (Obj [(''workflowId'', Str wid), (''workflowVersion'', Str ver), (''fingerprint'', Str fp), (''input'', inp)])"

definition existing_run :: "string \<Rightarrow> string \<Rightarrow> string \<Rightarrow> workflow_db \<Rightarrow> run_row option" where
  "existing_run ws run key db = (case find_run ws run db of Some r \<Rightarrow> Some r
     | None \<Rightarrow> List.find (\<lambda>r. rn_workspace_id r = ws \<and> rn_start_key r = key) (w_runs db))"

definition create_run :: "runtime \<Rightarrow> config \<Rightarrow> string \<Rightarrow> string \<Rightarrow> run_row \<Rightarrow> js \<Rightarrow> workflow_db \<Rightarrow> (wf_error, workflow_db) result" where
  "create_run rt cfg eid now r definition db =
     emit rt cfg eid now (rn_workspace_id r) (rn_run_id r) ''run.created''
       (Obj [(''workflowId'', Str (rn_workflow_id r)), (''workflowVersion'', Str (rn_workflow_version r)),
             (''workflowFingerprint'', Str (rn_workflow_fingerprint r)), (''stepCount'', Num (of_nat (length (items (get definition ''steps'')))))])
       (db\<lparr>w_runs := w_runs db @ [r], w_steps := w_steps db @ new_steps (rn_workspace_id r) (rn_run_id r) now definition\<rparr>)"

definition start ::
  "runtime \<Rightarrow> config \<Rightarrow> string \<Rightarrow> string \<Rightarrow> string \<Rightarrow> string \<Rightarrow> string \<Rightarrow> string \<Rightarrow> js \<Rightarrow> string option \<Rightarrow> string option \<Rightarrow>
   workflow_db \<Rightarrow> workflow_db \<times> (wf_error, js) result" where
  "start rt cfg eid now ws wid ver run inp idempotencyKey overrideHandlerId db =
     (case bind_res (all_ok (\<lambda>(v, n). assertString v n) [(ws, ''workspaceId''), (wid, ''workflowId''), (ver, ''workflowVersion''), (run, ''runId'')]) (\<lambda>_.
        bind_res (find_definition wid ver db) (\<lambda>d.
        bind_res (case overrideHandlerId of None \<Rightarrow> Inr () | Some h \<Rightarrow>
            require (h = [] \<or> map_of (c_handlers cfg) (handler_key h ''1.0.0'') \<noteq> None) HandlerNotFound) (\<lambda>_.
        bind_res (boundedJson rt inp ''workflow input'' (workflowInputBytes (c_limits cfg))) (\<lambda>j. Inr (d, j))))) of
        Inl e \<Rightarrow> (db, Inl e)
      | Inr (d, j) \<Rightarrow>
          let key = (case idempotencyKey of None \<Rightarrow> ''start:'' @ run | Some k \<Rightarrow> k);
              sfp = start_fingerprint rt wid ver (df_fingerprint d) inp
          in (case existing_run ws run key db of
                Some r \<Rightarrow> (db, if rn_start_fingerprint r \<noteq> sfp then Inl StartIdempotencyConflict
                  else Inr (mapRun r (run_steps (rn_workspace_id r) (rn_run_id r) db)))
              | None \<Rightarrow>
                  let r = new_run ws run wid ver (df_fingerprint d) j (wf_sha256 rt inp) key sfp now
                  in (case create_run rt cfg eid now r (df_definition d) db of
                        Inl e \<Rightarrow> (db, Inl e) | Inr db' \<Rightarrow> (db', Inr (mapRun r (run_steps ws run db'))))))"

section \<open>Reads\<close>

definition get_run :: "string \<Rightarrow> string \<Rightarrow> workflow_db \<Rightarrow> (wf_error, js) result" where
  "get_run ws run db = bind_res (assertString ws ''workspaceId'') (\<lambda>_. bind_res (assertString run ''runId'') (\<lambda>_.
     Inr (case find_run ws run db of None \<Rightarrow> Null | Some r \<Rightarrow> mapRun r (run_steps ws run db))))"

definition list_runs :: "wf_limits \<Rightarrow> string \<Rightarrow> int option \<Rightarrow> workflow_db \<Rightarrow> js" where
  "list_runs limits ws limit db =
     Obj [(''schemaVersion'', Str ''1.0.0''), (''provider'', Str ''provider:native:workflow:durable-sqlite''),
       (''items'', Arr (map (\<lambda>r. mapRun r (run_steps (rn_workspace_id r) (rn_run_id r) db))
         (take (bounded_limit (int (runListPageSize limits)) 50 limit)
           (order_by (\<lambda>a b. rn_updated_at b < rn_updated_at a \<or> rn_updated_at a = rn_updated_at b \<and> rn_run_id a \<le> rn_run_id b)
             (filter (\<lambda>r. rn_workspace_id r = ws) (w_runs db))))))]"

definition history :: "wf_limits \<Rightarrow> string \<Rightarrow> string \<Rightarrow> int option \<Rightarrow> workflow_db \<Rightarrow> js" where
  "history limits ws run limit db =
     Obj [(''schemaVersion'', Str ''1.0.0''), (''workspaceId'', Str ws), (''runId'', Str run),
       (''events'', Arr (map mapEvent (take (bounded_limit (int (historyEventCount limits)) (int (historyEventCount limits)) limit)
         (order_by (\<lambda>a b. ev_sequence (er_event a) \<le> ev_sequence (er_event b)) (run_events ws run db)))))]"

section \<open>Cancellation\<close>

text \<open>Aborting the active controller of a run.\<close>

definition abort_active :: "string \<Rightarrow> workflow_db \<Rightarrow> workflow_db" where
  "abort_active key db = (case map_of (w_active db) key of None \<Rightarrow> db
     | Some i \<Rightarrow> db\<lparr>w_attempts := (w_attempts db)[i := (w_attempts db ! i)\<lparr>at_aborted := True\<rparr>]\<rparr>)"

definition run_key :: "string \<Rightarrow> string \<Rightarrow> string" where
  "run_key ws run = ws @ '':'' @ run"

definition error_payload :: "runtime \<Rightarrow> config \<Rightarrow> js \<Rightarrow> (wf_error, js) result" where
  "error_payload rt cfg v = boundedJson rt v ''error payload'' (errorPayloadBytes (c_limits cfg))"

definition cancel_body :: "runtime \<Rightarrow> config \<Rightarrow> string \<Rightarrow> string \<Rightarrow> string \<Rightarrow> string \<Rightarrow> string \<Rightarrow> workflow_db \<Rightarrow> (wf_error, workflow_db) result" where
  "cancel_body rt cfg eid now ws run reason db =
     bind_res (error_payload rt cfg (Obj [(''code'', Str ''run_cancelled''), (''message'', Str reason)])) (\<lambda>err.
       emit rt cfg eid now ws run ''run.cancelled'' (Obj [(''code'', Str ''run_cancelled''), (''reason'', Str reason)])
         ((upd_run ws run (\<lambda>r. (unlease r)\<lparr>rn_status := Cancelled, rn_error := Some err, rn_updated_at := now, rn_completed_at := Some now\<rparr>) db)
           \<lparr>w_steps := upd_where (of_run ws run) (\<lambda>s. s\<lparr>st_status := (if st_status s = StCompleted then StCompleted else StCancelled), st_updated_at := now\<rparr>)
              (w_steps db)\<rparr>))"

definition cancel :: "runtime \<Rightarrow> config \<Rightarrow> string \<Rightarrow> string \<Rightarrow> string \<Rightarrow> string \<Rightarrow> js \<Rightarrow> workflow_db \<Rightarrow> workflow_db \<times> (wf_error, bool) result" where
  "cancel rt cfg eid now ws run reason db =
     (case find_run ws run db of
        None \<Rightarrow> (db, Inr False)
      | Some r \<Rightarrow>
          if rn_status r \<in> set TERMINAL then (db, Inr False)
          else (case transaction (cancel_body rt cfg eid now ws run (sanitizeReason rt reason)) (abort_active (run_key ws run) db) of
                  (db', Inl e) \<Rightarrow> (db', Inl e) | (db', Inr _) \<Rightarrow> (db', Inr True)))"

section \<open>Approvals\<close>

definition expireApprovalLocked :: "runtime \<Rightarrow> config \<Rightarrow> (nat \<Rightarrow> string) \<Rightarrow> string \<Rightarrow> string \<Rightarrow> approval_row \<Rightarrow> workflow_db \<Rightarrow> (wf_error, workflow_db) result" where
  "expireApprovalLocked rt cfg ids now actor a db =
     (let ws = ap_workspace_id a; run = ap_run_id a; aid = ap_approval_id a in
      bind_res (error_payload rt cfg (Obj [(''code'', Str ''approval_expired''), (''approvalId'', Str aid)])) (\<lambda>err.
      bind_res (appendEvent rt (c_limits cfg) (ids 0) now ws run ''approval.expired'' (Obj [(''approvalId'', Str aid), (''stepId'', Str (ap_step_id a))]) actor
        (upd_run ws run (\<lambda>r. (unlease r)\<lparr>rn_status := Failed, rn_error := Some err, rn_completed_at := Some now, rn_updated_at := now\<rparr>)
          (upd_step ws run (ap_step_id a) (\<lambda>s. s\<lparr>st_status := StFailed, st_error := Some err, st_updated_at := now\<rparr>)
            (upd_approval ws run aid (\<lambda>p. p\<lparr>ap_state := ''expired'', ap_resolved_at := Some now\<rparr>) db)))) (\<lambda>db1.
        emit rt cfg (ids 1) now ws run ''run.failed'' (Obj [(''code'', Str ''approval_expired'')]) db1)))"

datatype resolution = NotResolved string | Resolved string

definition approve_body :: "runtime \<Rightarrow> config \<Rightarrow> (nat \<Rightarrow> string) \<Rightarrow> string \<Rightarrow> string \<Rightarrow> string \<Rightarrow> approval_row \<Rightarrow> workflow_db \<Rightarrow> (wf_error, workflow_db) result" where
  "approve_body rt cfg ids now actor decision a db =
     (let ws = ap_workspace_id a; run = ap_run_id a; aid = ap_approval_id a;
          db1 = upd_approval ws run aid (\<lambda>p. p\<lparr>ap_state := decision, ap_resolved_at := Some now, ap_actor_id := Some actor, ap_decision := Some decision\<rparr>) db
      in bind_res
        (if decision = ''approved''
         then Inr (upd_run ws run (\<lambda>r. (unlease r)\<lparr>rn_status := Running, rn_updated_at := now\<rparr>)
                (upd_step ws run (ap_step_id a) (\<lambda>s. s\<lparr>st_status := StApprovalResolved, st_updated_at := now\<rparr>) db1))
         else bind_res (error_payload rt cfg (Obj [(''code'', Str ''approval_rejected''), (''approvalId'', Str aid)])) (\<lambda>err.
            emit rt cfg (ids 0) now ws run ''run.failed'' (Obj [(''code'', Str ''approval_rejected'')])
              (upd_run ws run (\<lambda>r. r\<lparr>rn_status := Failed, rn_error := Some err, rn_completed_at := Some now, rn_updated_at := now\<rparr>)
                (upd_step ws run (ap_step_id a) (\<lambda>s. s\<lparr>st_status := StFailed, st_error := Some err, st_updated_at := now\<rparr>) db1))))
        (\<lambda>db2. appendEvent rt (c_limits cfg) (ids 1) now ws run ''approval.resolved''
           (Obj [(''approvalId'', Str aid), (''stepId'', Str (ap_step_id a)), (''decision'', Str decision)]) actor db2))"

definition resolveApproval ::
  "runtime \<Rightarrow> config \<Rightarrow> (nat \<Rightarrow> string) \<Rightarrow> string \<Rightarrow> string \<Rightarrow> string \<Rightarrow> string \<Rightarrow> string \<Rightarrow> string \<Rightarrow> string \<Rightarrow>
   workflow_db \<Rightarrow> workflow_db \<times> (wf_error, resolution) result" where
  "resolveApproval rt cfg ids now ws run aid actor decision fp db =
     (case bind_res (all_ok (\<lambda>(v, n). assertString v n)
          [(run, ''runId''), (aid, ''approvalId''), (actor, ''actorId''), (decision, ''decision''), (fp, ''operationFingerprint'')]) (\<lambda>_.
        require (decision \<in> {''approved'', ''rejected''}) ApprovalDecisionInvalid) of
        Inl e \<Rightarrow> (db, Inl e)
      | Inr _ \<Rightarrow>
          (case List.find (the_approval ws run aid) (w_approvals db) of
             None \<Rightarrow> (db, Inl ApprovalNotFound)
           | Some a \<Rightarrow>
               if ap_operation_fingerprint a \<noteq> fp then (db, Inl ApprovalFingerprintMismatch)
               else if ap_state a \<noteq> ''pending'' then (db, Inr (NotResolved (ap_state a)))
               else if date_le rt (ap_expires_at a) now then
                 (case expireApprovalLocked rt cfg ids now actor a db of
                    Inl e \<Rightarrow> (db, Inl e) | Inr db' \<Rightarrow> (db', Inr (NotResolved ''expired'')))
               else (case approve_body rt cfg ids now actor decision a db of
                       Inl e \<Rightarrow> (db, Inl e) | Inr db' \<Rightarrow> (db', Inr (Resolved decision)))))"

section \<open>Expiry and claiming\<close>

definition shift :: "nat \<Rightarrow> (nat \<Rightarrow> string) \<Rightarrow> nat \<Rightarrow> string" where
  "shift k ids n = ids (k + n)"

definition due_approvals :: "string \<Rightarrow> workflow_db \<Rightarrow> approval_row list" where
  "due_approvals now db =
     order_by (\<lambda>a b. [ap_expires_at a, ap_approval_id a] \<le> [ap_expires_at b, ap_approval_id b])
       (filter (\<lambda>a. ap_state a = ''pending'' \<and> ap_expires_at a \<le> now \<and>
           list_ex (\<lambda>r. the_run (ap_workspace_id a) (ap_run_id a) r \<and> rn_status r = WaitingApproval) (w_runs db)) (w_approvals db))"

definition expire_one :: "runtime \<Rightarrow> config \<Rightarrow> (nat \<Rightarrow> string) \<Rightarrow> string \<Rightarrow> approval_row \<Rightarrow> workflow_db \<Rightarrow> (wf_error, workflow_db \<times> nat) result" where
  "expire_one rt cfg ids now row db =
     (case (List.find (the_approval (ap_workspace_id row) (ap_run_id row) (ap_approval_id row)) (w_approvals db),
            find_run (ap_workspace_id row) (ap_run_id row) db) of
        (Some a, Some r) \<Rightarrow>
          if ap_state a \<noteq> ''pending'' \<or> rn_status r \<noteq> WaitingApproval \<or>
             (case (date_parse rt (ap_expires_at a), date_parse rt now) of (Some x, Some y) \<Rightarrow> y < x | _ \<Rightarrow> False) then Inr (db, 0)
          else bind_res (expireApprovalLocked rt cfg ids now ''system'' a db) (\<lambda>db'. Inr (db', 1))
      | _ \<Rightarrow> Inr (db, 0))"

fun expire_rows :: "runtime \<Rightarrow> config \<Rightarrow> (nat \<Rightarrow> string) \<Rightarrow> string \<Rightarrow> approval_row list \<Rightarrow> nat \<Rightarrow> workflow_db \<Rightarrow> workflow_db \<times> (wf_error, nat) result" where
  "expire_rows rt cfg ids now [] n db = (db, Inr n)"
| "expire_rows rt cfg ids now (a # as) n db =
     (case expire_one rt cfg ids now a db of
        Inl e \<Rightarrow> (db, Inl e)
      | Inr (db', k) \<Rightarrow> expire_rows rt cfg (shift 2 ids) now as (n + k) db')"

definition expirePendingApprovals :: "runtime \<Rightarrow> config \<Rightarrow> (nat \<Rightarrow> string) \<Rightarrow> string \<Rightarrow> workflow_db \<Rightarrow> workflow_db \<times> (wf_error, nat) result" where
  "expirePendingApprovals rt cfg ids now db = expire_rows rt cfg ids now (due_approvals now db) 0 db"

definition nextRunnableStep :: "runtime \<Rightarrow> string \<Rightarrow> run_row \<Rightarrow> workflow_db \<Rightarrow> step_row option" where
  "nextRunnableStep rt now r db =
     (case List.find (\<lambda>s. st_status s \<notin> {StCompleted, StCancelled, StFailed}) (run_steps (rn_workspace_id r) (rn_run_id r) db) of
        None \<Rightarrow> None
      | Some s \<Rightarrow>
          if st_status s = StWaitingRetry \<and> \<not> isDue rt (st_next_at s) now then None
          else if st_status s = StWaitingTimer \<and> \<not> isDue rt (st_next_at s) now then None
          else if st_status s = StWaitingApproval then None
          else Some s)"

text \<open>The lease as the loop reads it, and as the guard of the update compares it.\<close>

definition lease_live :: "runtime \<Rightarrow> string \<Rightarrow> run_row \<Rightarrow> bool" where
  "lease_live rt now r = (case (rn_lease_owner r, rn_lease_expires_at r) of
     (Some w, Some t) \<Rightarrow> w \<noteq> [] \<and> t \<noteq> [] \<and> (case (date_parse rt t, date_parse rt now) of (Some x, Some y) \<Rightarrow> y < x | _ \<Rightarrow> False)
   | _ \<Rightarrow> False)"

definition lease_free :: "string \<Rightarrow> run_row \<Rightarrow> bool" where
  "lease_free now r \<longleftrightarrow> rn_lease_owner r = None \<or> (case rn_lease_expires_at r of None \<Rightarrow> True | Some t \<Rightarrow> t \<le> now)"

definition runnable_rows :: "workflow_db \<Rightarrow> run_row list" where
  "runnable_rows db = order_by (\<lambda>a b. [rn_updated_at a, rn_run_id a] \<le> [rn_updated_at b, rn_run_id b])
     (filter (\<lambda>r. rn_status r \<in> {Queued, Running, WaitingRetry, WaitingTimer}) (w_runs db))"

definition can_claim :: "runtime \<Rightarrow> string \<Rightarrow> workflow_db \<Rightarrow> run_row \<Rightarrow> bool" where
  "can_claim rt now db r \<longleftrightarrow> \<not> lease_live rt now r \<and> nextRunnableStep rt now r db \<noteq> None \<and>
     lease_free now r \<and> rn_status r \<notin> set TERMINAL"

definition claim :: "runtime \<Rightarrow> config \<Rightarrow> string \<Rightarrow> string \<Rightarrow> workflow_db \<Rightarrow> workflow_db \<times> (wf_error, run_row option) result" where
  "claim rt cfg now worker db =
     (case List.find (can_claim rt now db) (runnable_rows db) of
        None \<Rightarrow> (db, Inr None)
      | Some r \<Rightarrow>
          (case addMs rt now (Some (of_nat (c_leaseMs cfg))) of
             Inl e \<Rightarrow> (db, Inl e)
           | Inr t \<Rightarrow>
               let db' = upd_run (rn_workspace_id r) (rn_run_id r) (\<lambda>r. r\<lparr>rn_lease_owner := Some worker, rn_lease_expires_at := Some t, rn_updated_at := now\<rparr>) db
               in (db', Inr (find_run (rn_workspace_id r) (rn_run_id r) db'))))"

definition release :: "string \<Rightarrow> string \<Rightarrow> string \<Rightarrow> string \<Rightarrow> workflow_db \<Rightarrow> workflow_db" where
  "release now ws run worker db = upd_run ws run (\<lambda>r. if rn_lease_owner r = Some worker then (unlease r)\<lparr>rn_updated_at := now\<rparr> else r) db"

section \<open>Completing a step\<close>

fun type_name :: "js \<Rightarrow> string" where
  "type_name (Str _) = ''string''"
| "type_name (Num _) = ''number''"
| "type_name (Bool _) = ''boolean''"
| "type_name _ = ''object''"

definition safeSummary :: "js \<Rightarrow> js" where
  "safeSummary output =
     (if nullish output then Null
      else if is_plain output \<or> is_arr output then Obj [(''keys'', Arr (map Str (take 8 (sort (map fst (own_entries output))))))]
      else Obj [(''valueType'', Str (type_name output))])"

definition holds_lease :: "string \<Rightarrow> string \<Rightarrow> string \<Rightarrow> workflow_db \<Rightarrow> bool" where
  "holds_lease ws run worker db = (case find_run ws run db of None \<Rightarrow> False
     | Some r \<Rightarrow> rn_lease_owner r = Some worker \<and> rn_status r \<notin> set TERMINAL)"

definition outputs_of :: "step_row list \<Rightarrow> (string \<times> js) list" where
  "outputs_of ss = map (\<lambda>s. (st_step_id s, case st_output s of None \<Rightarrow> Null | Some v \<Rightarrow> v)) ss"

definition complete_body :: "runtime \<Rightarrow> config \<Rightarrow> (nat \<Rightarrow> string) \<Rightarrow> string \<Rightarrow> string \<Rightarrow> string \<Rightarrow> string \<Rightarrow> js \<Rightarrow> string \<Rightarrow> workflow_db \<Rightarrow> (wf_error, workflow_db) result" where
  "complete_body rt cfg ids now ws run step output worker db =
     (if \<not> holds_lease ws run worker db then Inr db
      else
        bind_res (boundedJson rt output ''step output'' (stepOutputBytes (c_limits cfg))) (\<lambda>out.
        bind_res (emit rt cfg (ids 0) now ws run ''step.completed'' (Obj [(''stepId'', Str step), (''summary'', safeSummary output)])
            (upd_step ws run step (\<lambda>s. s\<lparr>st_status := StCompleted, st_output := Some out, st_updated_at := now\<rparr>) db)) (\<lambda>db1.
          if list_all (\<lambda>s. of_run ws run s \<longrightarrow> st_status s = StCompleted) (w_steps db1) then
            (let outputs = outputs_of (run_steps ws run db1) in
             bind_res (boundedJson rt (Obj outputs) ''run output'' (stepOutputBytes (c_limits cfg) * 2)) (\<lambda>total.
               emit rt cfg (ids 1) now ws run ''run.completed'' (Obj [(''outputSteps'', Arr (map (Str \<circ> fst) outputs))])
                 (upd_run ws run (\<lambda>r. (unlease r)\<lparr>rn_status := Completed, rn_output := Some total, rn_completed_at := Some now, rn_updated_at := now\<rparr>) db1)))
          else Inr (upd_run ws run (\<lambda>r. (unlease r)\<lparr>rn_status := Running, rn_updated_at := now\<rparr>) db1))))"

definition completeStep :: "runtime \<Rightarrow> config \<Rightarrow> (nat \<Rightarrow> string) \<Rightarrow> string \<Rightarrow> string \<Rightarrow> string \<Rightarrow> string \<Rightarrow> js \<Rightarrow> string \<Rightarrow> workflow_db \<Rightarrow> workflow_db \<times> (wf_error, unit) result" where
  "completeStep rt cfg ids now ws run step output worker = transaction (complete_body rt cfg ids now ws run step output worker)"

text \<open>\<open>Math.max(1, Math.min(cap, Number(v)))\<close>; \<open>None\<close> for \<open>NaN\<close>\<close>

definition clamp_ms :: "runtime \<Rightarrow> nat \<Rightarrow> js \<Rightarrow> rat option" where
  "clamp_ms rt cap v = map_option (\<lambda>n. max 1 (min (of_nat cap) n)) (to_number rt v)"

section \<open>Timers and approval steps\<close>

definition wait_timer_body :: "runtime \<Rightarrow> config \<Rightarrow> (nat \<Rightarrow> string) \<Rightarrow> string \<Rightarrow> string \<Rightarrow> string \<Rightarrow> string \<Rightarrow> string \<Rightarrow> workflow_db \<Rightarrow> (wf_error, workflow_db) result" where
  "wait_timer_body rt cfg ids now ws run step dueAt db =
     bind_res (emit rt cfg (ids 0) now ws run ''timer.scheduled'' (Obj [(''stepId'', Str step), (''dueAt'', Str dueAt)])
        (upd_run ws run (\<lambda>r. (unlease r)\<lparr>rn_status := WaitingTimer, rn_updated_at := now\<rparr>)
          (upd_step ws run step (\<lambda>s. s\<lparr>st_status := StWaitingTimer, st_next_at := Some dueAt, st_updated_at := now\<rparr>) db))) (\<lambda>db1.
       emit rt cfg (ids 1) now ws run ''run.suspended'' (Obj [(''reason'', Str ''timer''), (''stepId'', Str step)]) db1)"

text \<open>The result says whether the worker goes on with another claim.\<close>

definition handleTimer :: "runtime \<Rightarrow> config \<Rightarrow> (nat \<Rightarrow> string) \<Rightarrow> string \<Rightarrow> string \<Rightarrow> string \<Rightarrow> step_row \<Rightarrow> js \<Rightarrow> string \<Rightarrow> workflow_db \<Rightarrow> workflow_db \<times> (wf_error, bool) result" where
  "handleTimer rt cfg ids now ws run s stepDef worker db =
     (if st_status s \<noteq> StWaitingTimer then
        (case addMs rt now (clamp_ms rt (timerHorizonMs (c_limits cfg)) (orelse (get (get stepDef ''timer'') ''delayMs'') (Num 1))) of
           Inl e \<Rightarrow> (db, Inl e)
         | Inr dueAt \<Rightarrow>
             (case transaction (wait_timer_body rt cfg ids now ws run (st_step_id s) dueAt) db of
                (db', Inl e) \<Rightarrow> (db', Inl e) | (db', Inr _) \<Rightarrow> (db', Inr False)))
      else if \<not> isDue rt (st_next_at s) now then (release now ws run worker db, Inr False)
      else
        (case transaction (emit rt cfg (ids 2) now ws run ''timer.fired'' (Obj [(''stepId'', Str (st_step_id s))])) db of
           (db1, Inl e) \<Rightarrow> (db1, Inl e)
         | (db1, Inr _) \<Rightarrow>
             (case completeStep rt cfg (shift 3 ids) now ws run (st_step_id s) (Obj [(''firedAt'', Str now)]) worker db1 of
                (db2, Inl e) \<Rightarrow> (db2, Inl e) | (db2, Inr _) \<Rightarrow> (db2, Inr True))))"

definition request_approval_body :: "runtime \<Rightarrow> config \<Rightarrow> (nat \<Rightarrow> string) \<Rightarrow> string \<Rightarrow> approval_row \<Rightarrow> workflow_db \<Rightarrow> (wf_error, workflow_db) result" where
  "request_approval_body rt cfg ids now a db =
     (let ws = ap_workspace_id a; run = ap_run_id a; aid = ap_approval_id a; step = ap_step_id a;
          db1 = (if list_ex (the_approval ws run aid) (w_approvals db) then db else db\<lparr>w_approvals := w_approvals db @ [a]\<rparr>)
      in bind_res (emit rt cfg (ids 0) now ws run ''approval.requested'' (Obj [(''approvalId'', Str aid), (''stepId'', Str step),
              (''operationFingerprint'', Str (ap_operation_fingerprint a)), (''expiresAt'', Str (ap_expires_at a))])
           (upd_run ws run (\<lambda>r. (unlease r)\<lparr>rn_status := WaitingApproval, rn_updated_at := now\<rparr>)
             (upd_step ws run step (\<lambda>s. s\<lparr>st_status := StWaitingApproval, st_approval_id := Some aid,
                st_operation_fingerprint := Some (ap_operation_fingerprint a), st_updated_at := now\<rparr>) db1))) (\<lambda>db2.
         emit rt cfg (ids 1) now ws run ''run.suspended'' (Obj [(''reason'', Str ''approval''), (''stepId'', Str step)]) db2))"

definition approval_request :: "runtime \<Rightarrow> string \<Rightarrow> string \<Rightarrow> string \<Rightarrow> string \<Rightarrow> step_row \<Rightarrow> js \<Rightarrow> string \<Rightarrow> approval_row" where
  "approval_request rt fresh now ws run s stepDef expiresAt =
     \<lparr>ap_workspace_id = ws, ap_run_id = run,
      ap_approval_id = (case st_approval_id s of Some i \<Rightarrow> i | None \<Rightarrow> fresh), ap_step_id = st_step_id s,
      ap_operation_fingerprint = js_str (orelse (get (get stepDef ''approval'') ''operationFingerprint'')
        (Str (''sha256:'' @ wf_sha256 rt (Obj [(''workspaceId'', Str ws), (''runId'', Str run), (''stepId'', Str (st_step_id s))])))),
      ap_state = ''pending'', ap_requested_at = now, ap_expires_at = expiresAt, ap_resolved_at = None, ap_actor_id = None, ap_decision = None\<rparr>"

definition handleApproval :: "runtime \<Rightarrow> config \<Rightarrow> (nat \<Rightarrow> string) \<Rightarrow> string \<Rightarrow> string \<Rightarrow> string \<Rightarrow> string \<Rightarrow> step_row \<Rightarrow> js \<Rightarrow> string \<Rightarrow> workflow_db \<Rightarrow> workflow_db \<times> (wf_error, unit) result" where
  "handleApproval rt cfg ids fresh now ws run s stepDef worker db =
     (if st_status s = StApprovalResolved then
        completeStep rt cfg ids now ws run (st_step_id s) (Obj [(''approved'', Bool True), (''resolvedAt'', Str now)]) worker db
      else
        (case addMs rt now (clamp_ms rt (approvalWaitMs (c_limits cfg)) (orelse (get (get stepDef ''approval'') ''expiresInMs'') (Num 60000))) of
           Inl e \<Rightarrow> (db, Inl e)
         | Inr expiresAt \<Rightarrow> transaction (request_approval_body rt cfg ids now (approval_request rt fresh now ws run s stepDef expiresAt)) db))"

section \<open>Activities\<close>

definition idem_required :: "js \<Rightarrow> bool" where
  "idem_required stepDef \<longleftrightarrow> get (get stepDef ''idempotency'') ''required'' = Bool True"

definition idem_key :: "string \<Rightarrow> string \<Rightarrow> string \<Rightarrow> js \<Rightarrow> string option" where
  "idem_key ws run step stepDef =
     (if idem_required stepDef
      then Some (js_str (orelse (get (get stepDef ''idempotency'') ''key'') (Str (''idem:'' @ ws @ '':'' @ run @ '':'' @ step))))
      else None)"

definition idem_fingerprint :: "runtime \<Rightarrow> js \<Rightarrow> string option" where
  "idem_fingerprint rt stepDef =
     (if idem_required stepDef
      then Some (js_str (orelse (get (get stepDef ''idempotency'') ''operationFingerprint'')
        (Str (''sha256:'' @ wf_sha256 rt (Obj [(''workflowId'', get stepDef ''id''), (''handler'', get stepDef ''handler'')])))))
      else None)"

definition find_effect :: "string \<Rightarrow> string \<Rightarrow> workflow_db \<Rightarrow> effect_row option" where
  "find_effect ws key db = List.find (\<lambda>f. fx_workspace_id f = ws \<and> fx_idempotency_key f = key) (w_effects db)"

definition start_step_body :: "runtime \<Rightarrow> config \<Rightarrow> (nat \<Rightarrow> string) \<Rightarrow> string \<Rightarrow> attempt \<Rightarrow> workflow_db \<Rightarrow> (wf_error, workflow_db) result" where
  "start_step_body rt cfg ids now t db =
     (let ws = at_workspaceId t; run = at_runId t; step = at_stepId t in
      if \<not> holds_lease ws run (at_workerId t) db then Inr db
      else emit rt cfg (ids 0) now ws run ''step.started''
        (Obj [(''stepId'', Str step), (''kind'', get (at_stepDef t) ''kind''), (''attempt'', Num (of_nat (at_attempt t)))])
        (upd_run ws run (\<lambda>r. r\<lparr>rn_status := Running, rn_updated_at := now\<rparr>)
          (upd_step ws run step (\<lambda>s. s\<lparr>st_status := StRunning, st_attempt := at_attempt t, st_idempotency_key := at_idempotencyKey t,
             st_operation_fingerprint := at_operationFingerprint t, st_updated_at := now\<rparr>) db)))"

text \<open>Up to the call of the handler, which then runs as the newest attempt.\<close>

definition begin_attempt :: "attempt \<Rightarrow> workflow_db \<Rightarrow> workflow_db" where
  "begin_attempt t db =
     db\<lparr>w_attempts := w_attempts db @ [t\<lparr>at_priorOutputs := map (\<lambda>s. (st_step_id s, st_output s))
           (filter (\<lambda>s. st_status s = StCompleted) (run_steps (at_workspaceId t) (at_runId t) db))\<rparr>],
        w_active := (run_key (at_workspaceId t) (at_runId t), length (w_attempts db)) #
          filter (\<lambda>(k, _). k \<noteq> run_key (at_workspaceId t) (at_runId t)) (w_active db)\<rparr>"

definition new_attempt :: "runtime \<Rightarrow> string \<Rightarrow> string \<Rightarrow> step_row \<Rightarrow> js \<Rightarrow> string \<Rightarrow> attempt" where
  "new_attempt rt ws run s stepDef worker =
     \<lparr>at_workspaceId = ws, at_runId = run, at_stepId = st_step_id s, at_workerId = worker, at_attempt = Suc (st_attempt s),
      at_stepDef = stepDef, at_idempotencyKey = idem_key ws run (st_step_id s) stepDef,
      at_operationFingerprint = idem_fingerprint rt stepDef, at_priorOutputs = [], at_aborted = False, at_settled = False\<rparr>"

definition handleActivity :: "runtime \<Rightarrow> config \<Rightarrow> (nat \<Rightarrow> string) \<Rightarrow> string \<Rightarrow> string \<Rightarrow> string \<Rightarrow> step_row \<Rightarrow> js \<Rightarrow> string \<Rightarrow> workflow_db \<Rightarrow> workflow_db \<times> (wf_error, unit) result" where
  "handleActivity rt cfg ids now ws run s stepDef worker db =
     (let t = new_attempt rt ws run s stepDef worker in
      if \<not> registry_has rt (c_handlers cfg) (get stepDef ''handler'') then (db, Inl HandlerNotFound)
      else if at_idempotencyKey t = Some [] then (db, Inl IdempotencyKeyRequired)
      else (case (case at_idempotencyKey t of None \<Rightarrow> None | Some key \<Rightarrow> find_effect ws key db) of
          Some f \<Rightarrow>
            if Some (fx_operation_fingerprint f) \<noteq> at_operationFingerprint t then (db, Inl IdempotencyFingerprintConflict)
            else completeStep rt cfg ids now ws run (st_step_id s) (fx_output f) worker db
        | None \<Rightarrow>
            (case transaction (start_step_body rt cfg ids now t) db of
               (db', Inl e) \<Rightarrow> (db', Inl e)
             | (db', Inr _) \<Rightarrow> (begin_attempt t db', Inr ()))))"

text \<open>The first part of \<open>#workClaim\<close>: the run leaves the queue, or a recovery is recorded.\<close>

definition note_progress :: "runtime \<Rightarrow> config \<Rightarrow> (nat \<Rightarrow> string) \<Rightarrow> string \<Rightarrow> run_row \<Rightarrow> step_row \<Rightarrow> workflow_db \<Rightarrow> workflow_db \<times> (wf_error, unit) result" where
  "note_progress rt cfg ids now r s db =
     (let ws = rn_workspace_id r; run = rn_run_id r in
      if rn_status r = Queued then
        transaction (\<lambda>db. emit rt cfg (ids 0) now ws run ''run.started''
          (Obj [(''workflowId'', Str (rn_workflow_id r)), (''workflowVersion'', Str (rn_workflow_version r))])
          (upd_run ws run (\<lambda>r. r\<lparr>rn_status := Running, rn_updated_at := now\<rparr>) db)) db
      else if \<not> rn_resume_recorded r then
        transaction (\<lambda>db. emit rt cfg (ids 0) now ws run ''run.resumed'' (Obj [(''reason'', Str ''worker_recovered''), (''stepId'', Str (st_step_id s))])
          (upd_run ws run (\<lambda>r. r\<lparr>rn_resume_recorded := True, rn_updated_at := now\<rparr>) db)) db
      else (db, Inr ()))"

definition step_definition :: "string \<Rightarrow> js \<Rightarrow> js option" where
  "step_definition i definition = List.find (\<lambda>s. get s ''id'' = Str i) (items (get definition ''steps''))"

text \<open>One step of a claimed run; the result says whether the worker claims again.\<close>

definition work_step :: "runtime \<Rightarrow> config \<Rightarrow> (nat \<Rightarrow> string) \<Rightarrow> string \<Rightarrow> string \<Rightarrow> run_row \<Rightarrow> string \<Rightarrow> workflow_db \<Rightarrow> workflow_db \<times> (wf_error, bool) result" where
  "work_step rt cfg ids fresh now claimed worker db =
     (let ws = rn_workspace_id claimed; run = rn_run_id claimed in
      case find_definition (rn_workflow_id claimed) (rn_workflow_version claimed) db of
        Inl e \<Rightarrow> (db, Inl e)
      | Inr d \<Rightarrow>
          (case find_run ws run db of
             None \<Rightarrow> (db, Inr False)
           | Some r \<Rightarrow>
               if rn_status r \<in> set TERMINAL \<or> rn_lease_owner r \<noteq> Some worker then (db, Inr False)
               else if rn_workflow_fingerprint r \<noteq> df_fingerprint d then (db, Inl VersionFingerprintConflict)
               else (case nextRunnableStep rt now r db of
                   None \<Rightarrow> (release now ws run worker db, Inr False)
                 | Some s \<Rightarrow>
                     (case step_definition (st_step_id s) (df_definition d) of
                        None \<Rightarrow> (db, Inl (DefinitionInvalid (st_step_id s)))
                      | Some stepDef \<Rightarrow>
                          (case note_progress rt cfg ids now r s db of
                             (db1, Inl e) \<Rightarrow> (db1, Inl e)
                           | (db1, Inr _) \<Rightarrow>
                               if get stepDef ''kind'' = Str ''timer'' then handleTimer rt cfg (shift 1 ids) now ws run s stepDef worker db1
                               else
                                 (case (if get stepDef ''kind'' = Str ''approval''
                                        then handleApproval rt cfg (shift 1 ids) fresh now ws run s stepDef worker db1
                                        else handleActivity rt cfg (shift 1 ids) now ws run s stepDef worker db1) of
                                    (db2, Inl e) \<Rightarrow> (db2, Inl e) | (db2, Inr _) \<Rightarrow> (db2, Inr False)))))))"

text \<open>\<open>#workClaim\<close>: after a timer has fired the worker claims again. The fuel bounds the timers that
  can fire in one call by the number of step rows.\<close>

fun workClaim :: "nat \<Rightarrow> runtime \<Rightarrow> config \<Rightarrow> (nat \<Rightarrow> string) \<Rightarrow> string \<Rightarrow> string \<Rightarrow> run_row \<Rightarrow> string \<Rightarrow> workflow_db \<Rightarrow> workflow_db \<times> (wf_error, unit) result option" where
  "workClaim 0 rt cfg ids fresh now r worker db = (db, None)"
| "workClaim (Suc n) rt cfg ids fresh now r worker db =
     (case work_step rt cfg ids fresh now r worker db of
        (db1, Inl e) \<Rightarrow> (db1, Some (Inl e))
      | (db1, Inr False) \<Rightarrow> (db1, Some (Inr ()))
      | (db1, Inr True) \<Rightarrow>
          (case claim rt cfg now worker db1 of
             (db2, Inl e) \<Rightarrow> (db2, Some (Inl e))
           | (db2, Inr None) \<Rightarrow> (db2, Some (Inr ()))
           | (db2, Inr (Some r')) \<Rightarrow> workClaim n rt cfg (shift 8 ids) fresh now r' worker db2))"

datatype tick_result = NothingClaimed nat | Worked string string nat

definition tick :: "runtime \<Rightarrow> config \<Rightarrow> (nat \<Rightarrow> string) \<Rightarrow> string \<Rightarrow> string \<Rightarrow> string \<Rightarrow> workflow_db \<Rightarrow> workflow_db \<times> (wf_error, tick_result) result option" where
  "tick rt cfg ids fresh now worker db =
     (case assertString worker ''workerId'' of
        Inl e \<Rightarrow> (db, Some (Inl e))
      | Inr _ \<Rightarrow>
          (case expirePendingApprovals rt cfg ids now db of
             (db1, Inl e) \<Rightarrow> (db1, Some (Inl e))
           | (db1, Inr expired) \<Rightarrow>
               (case claim rt cfg now worker db1 of
                  (db2, Inl e) \<Rightarrow> (db2, Some (Inl e))
                | (db2, Inr None) \<Rightarrow> (db2, Some (Inr (NothingClaimed expired)))
                | (db2, Inr (Some r)) \<Rightarrow>
                    (case workClaim (Suc (length (w_steps db2))) rt cfg (shift (2 * length (w_approvals db)) ids) fresh now r worker db2 of
                       (db3, None) \<Rightarrow> (db3, None)
                     | (db3, Some (Inl e)) \<Rightarrow> (db3, Some (if e = RunCancelled then Inr (Worked (rn_workspace_id r) (rn_run_id r) expired) else Inl e))
                     | (db3, Some (Inr _)) \<Rightarrow> (db3, Some (Inr (Worked (rn_workspace_id r) (rn_run_id r) expired)))))))"

section \<open>Calls of a running handler\<close>

definition assertActiveStep :: "attempt \<Rightarrow> workflow_db \<Rightarrow> (wf_error, unit) result" where
  "assertActiveStep t db =
     require (\<not> at_aborted t \<and> holds_lease (at_workspaceId t) (at_runId t) (at_workerId t) db \<and>
       (case List.find (the_step (at_workspaceId t) (at_runId t) (at_stepId t)) (w_steps db) of None \<Rightarrow> False | Some s \<Rightarrow> st_status s = StRunning))
       RunCancelled"

definition appendActivityEvent :: "runtime \<Rightarrow> config \<Rightarrow> string \<Rightarrow> string \<Rightarrow> attempt \<Rightarrow> string \<Rightarrow> js \<Rightarrow> workflow_db \<Rightarrow> workflow_db \<times> (wf_error, unit) result" where
  "appendActivityEvent rt cfg eid now t typ payload db =
     transaction (\<lambda>db. bind_res (assertActiveStep t db) (\<lambda>_. emit rt cfg eid now (at_workspaceId t) (at_runId t) typ payload db)) db"

text \<open>\<open>#commitEffect\<close> up to the execution: the stored output, or that the effect has to be executed.\<close>

definition effect_lookup :: "attempt \<Rightarrow> string \<Rightarrow> string \<Rightarrow> workflow_db \<Rightarrow> (wf_error, js option) result" where
  "effect_lookup t key fp db =
     bind_res (assertString key ''idempotencyKey'') (\<lambda>_.
     bind_res (assertString fp ''operationFingerprint'') (\<lambda>_.
     bind_res (assertActiveStep t db) (\<lambda>_.
       case find_effect (at_workspaceId t) key db of
         None \<Rightarrow> Inr None
       | Some f \<Rightarrow> if fx_operation_fingerprint f \<noteq> fp then Inl IdempotencyFingerprintConflict else Inr (Some (fx_output f)))))"

text \<open>\<open>#commitEffect\<close> after the execution.\<close>

definition effect_commit :: "runtime \<Rightarrow> config \<Rightarrow> string \<Rightarrow> attempt \<Rightarrow> string \<Rightarrow> string \<Rightarrow> js \<Rightarrow> workflow_db \<Rightarrow> workflow_db \<times> (wf_error, unit) result" where
  "effect_commit rt cfg now t key fp output db =
     transaction (\<lambda>db.
       bind_res (assertActiveStep t db) (\<lambda>_.
       bind_res (boundedJson rt output ''effect output'' (stepOutputBytes (c_limits cfg))) (\<lambda>out.
         case find_effect (at_workspaceId t) key db of
           Some f \<Rightarrow> if fx_operation_fingerprint f \<noteq> fp then Inl IdempotencyFingerprintConflict else Inr db
         | None \<Rightarrow> Inr (db\<lparr>w_effects := w_effects db @ [\<lparr>fx_workspace_id = at_workspaceId t, fx_idempotency_key = key, fx_operation_fingerprint = fp,
             fx_run_id = at_runId t, fx_step_id = at_stepId t, fx_output = out, fx_committed_at = now\<rparr>]\<rparr>)))) db"

section \<open>The end of an attempt\<close>

record failure =
  fl_code :: "string option"
  fl_message :: "string option"
  fl_retryable :: "bool option"

definition retry_delay :: "runtime \<Rightarrow> js \<Rightarrow> nat \<Rightarrow> rat option" where
  "retry_delay rt stepDef attempt =
     (let retry = get stepDef ''retry'';
          first = to_number rt (orelse (get retry ''initialDelayMs'') (Num 10));
          cap = to_number rt (orelse (get retry ''maxDelayMs'') (orelse (get retry ''initialDelayMs'') (Num 10)))
      in case (cap, first) of (Some c, Some f) \<Rightarrow> Some (max 1 (min c (f * max 1 (of_nat attempt)))) | _ \<Rightarrow> None)"

definition failure_body ::
  "runtime \<Rightarrow> config \<Rightarrow> (nat \<Rightarrow> string) \<Rightarrow> string \<Rightarrow> attempt \<Rightarrow> string \<Rightarrow> string \<Rightarrow> bool \<Rightarrow> workflow_db \<Rightarrow> (wf_error, workflow_db) result" where
  "failure_body rt cfg ids now t code msg retryable db =
     (let ws = at_workspaceId t; run = at_runId t; step = at_stepId t; n = Num (of_nat (at_attempt t)) in
      bind_res (error_payload rt cfg (Obj [(''code'', Str code), (''message'', Str msg), (''retryable'', Bool retryable)])) (\<lambda>err.
      bind_res (emit rt cfg (ids 0) now ws run ''step.failed'' (Obj [(''stepId'', Str step), (''attempt'', n), (''code'', Str code), (''retryable'', Bool retryable)])
        (upd_step ws run step (\<lambda>s. s\<lparr>st_error := Some err, st_updated_at := now\<rparr>) db)) (\<lambda>db1.
        if retryable then
          bind_res (addMs rt now (retry_delay rt (at_stepDef t) (at_attempt t))) (\<lambda>nextAt.
          bind_res (emit rt cfg (ids 1) now ws run ''step.retry_scheduled'' (Obj [(''stepId'', Str step), (''attempt'', n), (''nextAt'', Str nextAt)])
            (upd_run ws run (\<lambda>r. (unlease r)\<lparr>rn_status := WaitingRetry, rn_updated_at := now\<rparr>)
              (upd_step ws run step (\<lambda>s. s\<lparr>st_status := StWaitingRetry, st_next_at := Some nextAt, st_updated_at := now\<rparr>) db1))) (\<lambda>db2.
            emit rt cfg (ids 2) now ws run ''run.suspended'' (Obj [(''reason'', Str ''retry''), (''stepId'', Str step)]) db2))
        else
          bind_res (error_payload rt cfg (Obj [(''code'', Str code), (''message'', Str msg)])) (\<lambda>err2.
            emit rt cfg (ids 1) now ws run ''run.failed'' (Obj [(''code'', Str code)])
              (upd_run ws run (\<lambda>r. (unlease r)\<lparr>rn_status := Failed, rn_error := Some err2, rn_completed_at := Some now, rn_updated_at := now\<rparr>)
                (upd_step ws run step (\<lambda>s. s\<lparr>st_status := StFailed, st_updated_at := now\<rparr>) db1))))))"

definition handleFailure :: "runtime \<Rightarrow> config \<Rightarrow> (nat \<Rightarrow> string) \<Rightarrow> string \<Rightarrow> attempt \<Rightarrow> failure \<Rightarrow> workflow_db \<Rightarrow> workflow_db \<times> (wf_error, unit) result" where
  "handleFailure rt cfg ids now t e db =
     (let code = (case fl_code e of None \<Rightarrow> ''step_failed'' | Some c \<Rightarrow> c);
          msg = sanitizeReason rt (Str (case fl_message e of None \<Rightarrow> code | Some m \<Rightarrow> m));
          retryable = (fl_retryable e \<noteq> Some False \<and> of_nat (at_attempt t) < num_of (step_maxAttempts (at_stepDef t)))
      in if \<not> holds_lease (at_workspaceId t) (at_runId t) (at_workerId t) db \<or> code = ''run_cancelled'' then (db, Inr ())
         else transaction (failure_body rt cfg ids now t code msg retryable) db)"

text \<open>The \<open>finally\<close> block removes the controller of the run.\<close>

definition settle :: "nat \<Rightarrow> workflow_db \<Rightarrow> workflow_db" where
  "settle i db = (let t = w_attempts db ! i in
     db\<lparr>w_attempts := (w_attempts db)[i := t\<lparr>at_settled := True\<rparr>],
        w_active := filter (\<lambda>(k, _). k \<noteq> run_key (at_workspaceId t) (at_runId t)) (w_active db)\<rparr>)"

text \<open>An error of the runtime itself as the failure the catch block sees; the wording of the message is
  not modelled beyond its code.\<close>

definition as_failure :: "wf_error \<Rightarrow> failure" where
  "as_failure e = (case e of
     PayloadTooLarge n \<Rightarrow> \<lparr>fl_code = Some ''workflow_payload_too_large'', fl_message = Some (''workflow_payload_too_large: '' @ n), fl_retryable = None\<rparr>
   | NotJson \<Rightarrow> \<lparr>fl_code = Some ''ERR_INVALID_ARG_TYPE'', fl_message = None, fl_retryable = None\<rparr>
   | DuplicateEventId \<Rightarrow> \<lparr>fl_code = Some ''ERR_SQLITE_ERROR'', fl_message = None, fl_retryable = None\<rparr>
   | RunCancelled \<Rightarrow> \<lparr>fl_code = Some ''run_cancelled'', fl_message = None, fl_retryable = None\<rparr>
   | _ \<Rightarrow> \<lparr>fl_code = None, fl_message = None, fl_retryable = None\<rparr>)"

definition finish_attempt :: "runtime \<Rightarrow> config \<Rightarrow> (nat \<Rightarrow> string) \<Rightarrow> string \<Rightarrow> nat \<Rightarrow> js \<Rightarrow> workflow_db \<Rightarrow> workflow_db \<times> (wf_error, unit) result" where
  "finish_attempt rt cfg ids now i output db =
     (let t = w_attempts db ! i in
      if \<not> holds_lease (at_workspaceId t) (at_runId t) (at_workerId t) db then (settle i db, Inr ())
      else (case completeStep rt cfg ids now (at_workspaceId t) (at_runId t) (at_stepId t) output (at_workerId t) db of
          (db', Inr _) \<Rightarrow> (settle i db', Inr ())
        | (db', Inl e) \<Rightarrow> (case handleFailure rt cfg ids now t (as_failure e) db' of (db2, res) \<Rightarrow> (settle i db2, res))))"

definition fail_attempt :: "runtime \<Rightarrow> config \<Rightarrow> (nat \<Rightarrow> string) \<Rightarrow> string \<Rightarrow> nat \<Rightarrow> failure \<Rightarrow> workflow_db \<Rightarrow> workflow_db \<times> (wf_error, unit) result" where
  "fail_attempt rt cfg ids now i e db =
     (case handleFailure rt cfg ids now (w_attempts db ! i) e db of (db', res) \<Rightarrow> (settle i db', res))"

text \<open>The timer of the attempt: its signal is aborted and it fails with a retryable error.\<close>

definition timeout_attempt :: "runtime \<Rightarrow> config \<Rightarrow> (nat \<Rightarrow> string) \<Rightarrow> string \<Rightarrow> nat \<Rightarrow> workflow_db \<Rightarrow> workflow_db \<times> (wf_error, unit) result" where
  "timeout_attempt rt cfg ids now i db =
     fail_attempt rt cfg ids now i \<lparr>fl_code = Some ''step_timeout'', fl_message = Some (''step_timeout: step timed out after '' @ js_to_string rt (get (at_stepDef (w_attempts db ! i)) ''timeoutMs'') @ ''ms''), fl_retryable = Some True\<rparr>
       (db\<lparr>w_attempts := (w_attempts db)[i := (w_attempts db ! i)\<lparr>at_aborted := True\<rparr>]\<rparr>)"

text \<open>\<open>close\<close> and a crash of the process: every signal is aborted, the attempts never come back.\<close>

definition close :: "workflow_db \<Rightarrow> workflow_db" where
  "close db = db\<lparr>w_attempts := map (\<lambda>t. t\<lparr>at_aborted := True, at_settled := True\<rparr>) (w_attempts db), w_active := []\<rparr>"

section \<open>The runtime as a machine\<close>

datatype wf_op =
    Register string js
  | Start string string string string string string js "string option" "string option"
  | Cancel string string string string js
  | Resolve "nat \<Rightarrow> string" string string string string string string string
  | Tick "nat \<Rightarrow> string" string string string
  | Emit string string nat string js
  | Commit string nat string string js
  | Finish "nat \<Rightarrow> string" string nat js
  | Fail "nat \<Rightarrow> string" string nat failure
  | TimeOut "nat \<Rightarrow> string" string nat
  | Close

definition pending_attempt :: "nat \<Rightarrow> workflow_db \<Rightarrow> bool" where
  "pending_attempt i db \<longleftrightarrow> i < length (w_attempts db) \<and> \<not> at_settled (w_attempts db ! i)"

fun exec_wf :: "runtime \<Rightarrow> config \<Rightarrow> wf_op \<Rightarrow> workflow_db \<Rightarrow> workflow_db" where
  "exec_wf rt cfg (Register now d) db = fst (registerWorkflow rt cfg now d db)"
| "exec_wf rt cfg (Start eid now ws wid ver run inp key h) db = fst (start rt cfg eid now ws wid ver run inp key h db)"
| "exec_wf rt cfg (Cancel eid now ws run reason) db = fst (cancel rt cfg eid now ws run reason db)"
| "exec_wf rt cfg (Resolve ids now ws run aid actor decision fp) db = fst (resolveApproval rt cfg ids now ws run aid actor decision fp db)"
| "exec_wf rt cfg (Tick ids fresh now worker) db = fst (tick rt cfg ids fresh now worker db)"
| "exec_wf rt cfg (Emit eid now i typ payload) db =
     (if i < length (w_attempts db) then fst (appendActivityEvent rt cfg eid now (w_attempts db ! i) typ payload db) else db)"
| "exec_wf rt cfg (Commit now i key fp output) db =
     (if i < length (w_attempts db) then fst (effect_commit rt cfg now (w_attempts db ! i) key fp output db) else db)"
| "exec_wf rt cfg (Finish ids now i output) db = (if pending_attempt i db then fst (finish_attempt rt cfg ids now i output db) else db)"
| "exec_wf rt cfg (Fail ids now i e) db = (if pending_attempt i db then fst (fail_attempt rt cfg ids now i e db) else db)"
| "exec_wf rt cfg (TimeOut ids now i) db = (if pending_attempt i db then fst (timeout_attempt rt cfg ids now i db) else db)"
| "exec_wf rt cfg Close db = close db"

definition run_wf :: "runtime \<Rightarrow> config \<Rightarrow> wf_op list \<Rightarrow> workflow_db \<Rightarrow> workflow_db" where
  "run_wf rt cfg ops db = foldl (\<lambda>db opn. exec_wf rt cfg opn db) db ops"

definition wf_step :: "runtime \<Rightarrow> config \<Rightarrow> workflow_db \<Rightarrow> workflow_db \<Rightarrow> bool" where
  "wf_step rt cfg db db' \<longleftrightarrow> (\<exists>opn. db' = exec_wf rt cfg opn db)"

lemma run_wf_steps: "(wf_step rt cfg)\<^sup>*\<^sup>* db (run_wf rt cfg ops db)"
proof (induction ops arbitrary: db)
  case (Cons opn ops)
  have "wf_step rt cfg db (exec_wf rt cfg opn db)" by (auto simp: wf_step_def)
  then show ?case using Cons [of "exec_wf rt cfg opn db"] by (simp add: run_wf_def)
qed (simp add: run_wf_def)

section \<open>Lifting a relation from the rows to the machine\<close>

definition run_ident :: "run_row \<Rightarrow> string \<times> string \<times> string \<times> string" where
  "run_ident r = (rn_workspace_id r, rn_run_id r, rn_workflow_id r, rn_workflow_version r)"

definition step_ident :: "step_row \<Rightarrow> string \<times> string \<times> string" where
  "step_ident s = (st_workspace_id s, st_run_id s, st_step_id s)"

definition approval_ident :: "approval_row \<Rightarrow> string \<times> string \<times> string \<times> string" where
  "approval_ident a = (ap_workspace_id a, ap_run_id a, ap_approval_id a, ap_step_id a)"

definition attempt_ident :: "attempt \<Rightarrow> string \<times> string \<times> string" where
  "attempt_ident t = (at_workspaceId t, at_runId t, at_stepId t)"

text \<open>The kind that the definition of a run gives to one of its steps.\<close>

definition kind_at :: "workflow_db \<Rightarrow> string \<Rightarrow> string \<Rightarrow> string \<Rightarrow> js option" where
  "kind_at db ws run i = (case List.find (\<lambda>(w, r, _, _). w = ws \<and> r = run) (map run_ident (w_runs db)) of
     None \<Rightarrow> None
   | Some (_, _, wid, ver) \<Rightarrow>
       (case find_definition wid ver db of Inl _ \<Rightarrow> None | Inr d \<Rightarrow> map_option (\<lambda>s. get s ''kind'') (step_definition i (df_definition d))))"

text \<open>A step that is open for work: a row of it is neither cancelled nor waiting for an approval, or a
  handler is or was working on it.\<close>

definition workable :: "workflow_db \<Rightarrow> string \<Rightarrow> string \<Rightarrow> string \<Rightarrow> bool" where
  "workable db ws run i \<longleftrightarrow>
     (\<exists>s \<in> set (w_steps db). the_step ws run i s \<and> st_status s \<notin> {StWaitingApproval, StCancelled}) \<or>
     (ws, run, i) \<in> attempt_ident ` set (w_attempts db)"

lemma emit_row: "emit rt cfg eid now ws run typ p db = Inr db' \<Longrightarrow> \<exists>e. db' = db\<lparr>w_events := w_events db @ [e]\<rparr>"
  by (auto simp: emit_def appendEvent_def bind_res_eq_Inr split: sum.splits if_splits)

lemma kind_at_cong:
  assumes "map run_ident (w_runs db') = map run_ident (w_runs db)" and "w_definitions db' = w_definitions db"
  shows "kind_at db' = kind_at db"
proof (intro ext)
  fix ws run i
  have "find_definition a b db' = find_definition a b db" for a b using assms(2) by (simp add: find_definition_def)
  then show "kind_at db' ws run i = kind_at db ws run i" unfolding kind_at_def assms(1) by (simp cong: option.case_cong)
qed

lemma workable_cong:
  "w_steps db' = w_steps db \<Longrightarrow> w_attempts db' = w_attempts db \<Longrightarrow> workable db' = workable db"
  by (simp add: workable_def fun_eq_iff)

lemma guards_events [simp]:
  "workable (db\<lparr>w_events := x\<rparr>) = workable db" "kind_at (db\<lparr>w_events := x\<rparr>) = kind_at db"
  "holds_lease ws run worker (db\<lparr>w_events := x\<rparr>) = holds_lease ws run worker db"
proof -
  show "workable (db\<lparr>w_events := x\<rparr>) = workable db" by (rule workable_cong) simp_all
  show "kind_at (db\<lparr>w_events := x\<rparr>) = kind_at db" by (rule kind_at_cong) simp_all
qed (simp add: holds_lease_def find_run_def)

lemma the_run_ident: "run_ident x = run_ident y \<Longrightarrow> the_run ws run x = the_run ws run y"
  by (simp add: run_ident_def the_run_def)

lemma find_run_upd:
  assumes "\<And>x. run_ident (f x) = run_ident x"
  shows "find_run ws run (upd_run ws run f db) = map_option f (find_run ws run db)"
proof -
  have "the_run ws run (f r) = the_run ws run r" for r using the_run_ident [OF assms] .
  then have "find_run ws run (upd_run ws run f db) = map_option (\<lambda>r. if the_run ws run r then f r else r) (find_run ws run db)"
    unfolding find_run_def upd_run_def by (simp add: find_upd_where)
  moreover have "the_run ws run r" if "find_run ws run db = Some r" for r using find_SomeD [OF that [unfolded find_run_def]] by simp
  ultimately show ?thesis by (cases "find_run ws run db") auto
qed

lemma map_run_ident_upd: "(\<And>x. run_ident (f x) = run_ident x) \<Longrightarrow> map run_ident (w_runs (upd_run ws run f db)) = map run_ident (w_runs db)"
  unfolding upd_run_def by (simp add: map_upd_where_same)

lemma guards_upd_run:
  assumes "\<And>x. run_ident (f x) = run_ident x"
  shows "workable (upd_run ws run f db) = workable db" and "kind_at (upd_run ws run f db) = kind_at db"
proof -
  show "workable (upd_run ws run f db) = workable db" by (rule workable_cong) (simp_all add: upd_run_def)
  show "kind_at (upd_run ws run f db) = kind_at db" by (rule kind_at_cong [OF map_run_ident_upd [OF assms]]) (simp add: upd_run_def)
qed

lemma note_progress_keeps:
  assumes "note_progress rt cfg ids now r s db = (db', Inr u)" and "find_run (rn_workspace_id r) (rn_run_id r) db = Some r"
    and "rn_lease_owner r = Some worker" and "rn_status r \<notin> set TERMINAL"
  shows "workable db' = workable db \<and> kind_at db' = kind_at db \<and> w_steps db' = w_steps db \<and> holds_lease (rn_workspace_id r) (rn_run_id r) worker db'"
proof -
  have held: "holds_lease (rn_workspace_id r) (rn_run_id r) worker db" using assms(2-4) by (simp add: holds_lease_def)
  have *: "workable db1 = workable db \<and> kind_at db1 = kind_at db \<and> w_steps db1 = w_steps db \<and> holds_lease (rn_workspace_id r) (rn_run_id r) worker db1"
    if em: "emit rt cfg e now ws run ty p (upd_run (rn_workspace_id r) (rn_run_id r) f db) = Inr db1"
      and id: "\<And>x. run_ident (f x) = run_ident x" and fr: "rn_lease_owner (f r) = Some worker" "rn_status (f r) \<notin> set TERMINAL" for e ws run ty p f db1
  proof -
    obtain ev where db1: "db1 = (upd_run (rn_workspace_id r) (rn_run_id r) f db)\<lparr>w_events := w_events db @ [ev]\<rparr>"
      using emit_row [OF em] by (auto simp: upd_run_def)
    have "holds_lease (rn_workspace_id r) (rn_run_id r) worker (upd_run (rn_workspace_id r) (rn_run_id r) f db)"
      using fr assms(2) by (simp add: holds_lease_def find_run_upd [OF id])
    moreover have "w_steps (upd_run (rn_workspace_id r) (rn_run_id r) f db) = w_steps db" by (simp add: upd_run_def)
    ultimately show ?thesis unfolding db1 by (simp add: guards_upd_run [OF id])
  qed
  show ?thesis
    using assms held by (auto simp: note_progress_def Let_def transaction_def TERMINAL_def run_ident_def split: if_splits sum.splits dest!: *)
qed

lemma nextRunnableStep_row:
  assumes "nextRunnableStep rt now r db = Some s"
  shows "s \<in> set (w_steps db) \<and> of_run (rn_workspace_id r) (rn_run_id r) s \<and>
    st_status s \<notin> {StCompleted, StCancelled, StFailed, StWaitingApproval}"
  using assms by (auto simp: nextRunnableStep_def run_steps_def split: option.splits if_splits dest!: find_SomeD)

lemma nextRunnableStep_workable:
  "nextRunnableStep rt now r db = Some s \<Longrightarrow> workable db (rn_workspace_id r) (rn_run_id r) (st_step_id s)"
  using nextRunnableStep_row [of rt now r db s] unfolding workable_def the_step_def by blast

lemma claim_found:
  assumes "claim rt cfg now worker db = (db', Inr (Some r))"
  shows "find_run (rn_workspace_id r) (rn_run_id r) db' = Some r"
proof -
  from assms obtain ws run where r: "find_run ws run db' = Some r"
    by (auto simp: claim_def Let_def split: option.splits sum.splits)
  then show ?thesis using find_SomeD [OF r [unfolded find_run_def]] by (simp add: the_run_def)
qed

lemma transaction_Inl: "transaction body db = (db', Inl e) \<Longrightarrow> db' = db"
  by (simp add: transaction_def split: sum.splits)

lemma transaction_Inr: "transaction body db = (db', Inr u) \<Longrightarrow> body db = Inr db'"
  by (simp add: transaction_def split: sum.splits)

lemma find_run_abort: "find_run ws run (abort_active key db) = find_run ws run db"
  by (simp add: abort_active_def find_run_def split: option.splits)

lemma kind_at_run:
  assumes "find_run ws run db = Some r" and "find_definition (rn_workflow_id r) (rn_workflow_version r) db = Inr d"
    and "step_definition i (df_definition d) = Some sd"
  shows "kind_at db ws run i = Some (get sd ''kind'')"
proof -
  have "List.find (the_run ws run) rs = Some r \<Longrightarrow>
      List.find (\<lambda>(w, q, _, _). w = ws \<and> q = run) (map run_ident rs) = Some (run_ident r)" for rs
    by (induction rs) (auto simp: run_ident_def the_run_def split: if_splits)
  then show ?thesis using assms by (simp add: kind_at_def find_run_def) (simp add: run_ident_def)
qed

text \<open>A step that no approval was requested for.\<close>

definition unrequested :: "workflow_db \<Rightarrow> string \<Rightarrow> string \<Rightarrow> string \<Rightarrow> bool" where
  "unrequested db ws run i \<longleftrightarrow>
     (\<exists>s \<in> set (w_steps db). the_step ws run i s \<and> st_status s \<in> {StQueued, StRunning, StWaitingRetry, StWaitingTimer})"

text \<open>
  The bodies of the transactions and the single updates, each with what its callers have
  checked. A preorder that relates a database to the result of each of them relates it to
  the result of every operation.
\<close>

locale wf_bodies =
  fixes rt :: runtime and cfg :: config and R :: "workflow_db \<Rightarrow> workflow_db \<Rightarrow> bool"
  assumes R_refl: "R db db"
    and R_trans: "R db db' \<Longrightarrow> R db' db'' \<Longrightarrow> R db db''"
    and R_emit: "emit rt cfg eid now ws run typ p db = Inr db' \<Longrightarrow> R db db'"
    and R_define: "R db (db\<lparr>w_definitions := w_definitions db @ [d]\<rparr>)"
    and R_create: "create_run rt cfg eid now r (df_definition d) db = Inr db' \<Longrightarrow> find_run (rn_workspace_id r) (rn_run_id r) db = None \<Longrightarrow>
      rn_status r = Queued \<Longrightarrow> R db db'"
    and R_cancel_body: "cancel_body rt cfg eid now ws run reason db = Inr db' \<Longrightarrow> find_run ws run db = Some r \<Longrightarrow>
      rn_status r \<notin> set TERMINAL \<Longrightarrow> R db db'"
    and R_expireApproval: "expireApprovalLocked rt cfg ids now actor a db = Inr db' \<Longrightarrow> a \<in> set (w_approvals db) \<Longrightarrow> ap_state a = ''pending'' \<Longrightarrow> R db db'"
    and R_approve: "approve_body rt cfg ids now actor decision a db = Inr db' \<Longrightarrow> a \<in> set (w_approvals db) \<Longrightarrow> ap_state a = ''pending'' \<Longrightarrow>
      decision \<noteq> ''pending'' \<Longrightarrow> R db db'"
    and R_lease: "r \<in> set (w_runs db) \<Longrightarrow> rn_status r \<notin> set TERMINAL \<Longrightarrow>
      R db (upd_run (rn_workspace_id r) (rn_run_id r) (\<lambda>r. r\<lparr>rn_lease_owner := ow, rn_lease_expires_at := ex, rn_updated_at := now\<rparr>) db)"
    and R_release: "holds_lease ws run worker db \<Longrightarrow> R db (release now ws run worker db)"
    and R_progress: "note_progress rt cfg ids now r s db = (db', res) \<Longrightarrow> find_run (rn_workspace_id r) (rn_run_id r) db = Some r \<Longrightarrow>
      rn_status r \<notin> set TERMINAL \<Longrightarrow> R db db'"
    and R_complete_body: "complete_body rt cfg ids now ws run i output worker db = Inr db' \<Longrightarrow> workable db ws run i \<Longrightarrow> R db db'"
    and R_wait_timer: "wait_timer_body rt cfg ids now ws run i due db = Inr db' \<Longrightarrow> holds_lease ws run worker db \<Longrightarrow>
      kind_at db ws run i = Some k \<Longrightarrow> k \<noteq> Str ''approval'' \<Longrightarrow> R db db'"
    and R_request_body: "request_approval_body rt cfg ids now q db = Inr db' \<Longrightarrow> holds_lease (ap_workspace_id q) (ap_run_id q) worker db \<Longrightarrow>
      kind_at db (ap_workspace_id q) (ap_run_id q) (ap_step_id q) = Some (Str ''approval'') \<Longrightarrow>
      unrequested db (ap_workspace_id q) (ap_run_id q) (ap_step_id q) \<Longrightarrow> R db db'"
    and R_start_step: "start_step_body rt cfg ids now t db = Inr db' \<Longrightarrow>
      kind_at db (at_workspaceId t) (at_runId t) (at_stepId t) = Some k \<Longrightarrow> k \<noteq> Str ''approval'' \<Longrightarrow> R db db'"
    and R_begin: "kind_at db (at_workspaceId t) (at_runId t) (at_stepId t) = Some k \<Longrightarrow> k \<noteq> Str ''approval'' \<Longrightarrow> R db (begin_attempt t db)"
    and R_failure_body: "failure_body rt cfg ids now t code msg b db = Inr db' \<Longrightarrow> t \<in> set (w_attempts db) \<Longrightarrow>
      holds_lease (at_workspaceId t) (at_runId t) (at_workerId t) db \<Longrightarrow> R db db'"
    and R_effect: "find_effect (fx_workspace_id f) (fx_idempotency_key f) db = None \<Longrightarrow> R db (db\<lparr>w_effects := w_effects db @ [f]\<rparr>)"
    and R_volatile: "map attempt_ident ts = map attempt_ident (w_attempts db) \<Longrightarrow> R db (db\<lparr>w_attempts := ts, w_active := act\<rparr>)"
begin

lemma R_transaction: "transaction body db = (db2, res) \<Longrightarrow> (\<And>db'. body db = Inr db' \<Longrightarrow> R db db') \<Longrightarrow> R db db2"
  by (auto simp: transaction_def R_refl split: sum.splits)

lemma R_expire_rows: "expire_rows rt cfg ids now as n db = (db', res) \<Longrightarrow> R db db'"
proof (induction as arbitrary: ids n db)
  case (Cons a as)
  show ?case
  proof (cases "expire_one rt cfg ids now a db")
    case (Inr x)
    then obtain db1 k where x: "expire_one rt cfg ids now a db = Inr (db1, k)" by (cases x) auto
    then have "R db db1"
      by (auto simp: expire_one_def bind_res_eq_Inr R_refl split: option.splits if_splits dest!: find_SomeD elim!: R_expireApproval)
    moreover have "R db1 db'" using Cons.IH Cons.prems x by simp
    ultimately show ?thesis by (rule R_trans)
  qed (use Cons.prems R_refl in simp)
qed (use R_refl in simp)

lemma R_claim: "claim rt cfg now worker db = (db', res) \<Longrightarrow> R db db'"
proof -
  assume c: "claim rt cfg now worker db = (db', res)"
  have "r \<in> set (w_runs db) \<and> rn_status r \<notin> set TERMINAL" if "List.find (can_claim rt now db) (runnable_rows db) = Some r" for r
    using find_SomeD [OF that] by (auto simp: runnable_rows_def can_claim_def)
  then show ?thesis
    using c by (auto simp: claim_def Let_def R_refl R_lease split: option.splits sum.splits)
qed

lemma R_completeStep: "completeStep rt cfg ids now ws run i output worker db = (db', res) \<Longrightarrow> workable db ws run i \<Longrightarrow> R db db'"
  unfolding completeStep_def by (erule R_transaction) (rule R_complete_body)

lemma R_start: "R db (fst (start rt cfg eid now ws wid ver run inp key h db))"
proof -
  have "existing_run ws run k db = None \<Longrightarrow> find_run ws run db = None" for k
    by (auto simp: existing_run_def split: option.splits)
  then show ?thesis
    by (auto simp: start_def Let_def R_refl new_run_def split: sum.splits option.splits prod.splits elim!: R_create)
qed

lemma R_registerWorkflow: "R db (fst (registerWorkflow rt cfg now inp db))"
  by (auto simp: registerWorkflow_def R_refl R_define split: sum.splits prod.splits js.splits)

lemma R_attempts: "map attempt_ident ts = map attempt_ident (w_attempts db) \<Longrightarrow> R db (db\<lparr>w_attempts := ts\<rparr>)"
  using R_volatile [of ts db "w_active db"] by simp

lemma R_flag: "attempt_ident t = attempt_ident (w_attempts db ! i) \<Longrightarrow> R db (db\<lparr>w_attempts := (w_attempts db)[i := t], w_active := act\<rparr>)"
  by (rule R_volatile) (metis list_update_id list_update_beyond map_update not_le)

lemma R_abort: "R db (abort_active key db)"
proof (cases "map_of (w_active db) key")
  case (Some i)
  then show ?thesis
    using R_flag [of "(w_attempts db ! i)\<lparr>at_aborted := True\<rparr>" db i "w_active db"] by (simp add: abort_active_def attempt_ident_def)
qed (simp add: abort_active_def R_refl)

lemma R_cancel: "R db (fst (cancel rt cfg eid now ws run reason db))"
proof -
  have "R db db'" if "transaction (cancel_body rt cfg eid now ws run m) (abort_active k db) = (db', res)"
      "find_run ws run db = Some r" "rn_status r \<notin> set TERMINAL" for m k db' res r
    by (rule R_trans [OF R_abort R_transaction [OF that(1)]], erule R_cancel_body) (use that find_run_abort in auto)
  then show ?thesis by (auto simp: cancel_def R_refl split: option.splits prod.splits sum.splits)
qed

lemma R_resolve: "R db (fst (resolveApproval rt cfg ids now ws run aid actor decision fp db))"
  by (auto simp: resolveApproval_def R_refl bind_res_eq_Inr split: sum.splits option.splits dest!: find_SomeD
      elim!: R_approve R_expireApproval)

lemma R_fire: "transaction (emit rt cfg eid now ws run typ p) db = (db', res) \<Longrightarrow> R db db'"
  by (erule R_transaction) (rule R_emit)

lemma R_handleTimer:
  assumes "handleTimer rt cfg ids now ws run s stepDef worker db = (db', res)"
    and "holds_lease ws run worker db" and "workable db ws run (st_step_id s)"
    and "kind_at db ws run (st_step_id s) = Some (Str ''timer'')"
  shows "R db db'"
proof -
  have wait: "R db db1" if "transaction (wait_timer_body rt cfg ids now ws run (st_step_id s) d) db = (db1, q)" for d db1 q
    using that by (rule R_transaction) (erule R_wait_timer [OF _ assms(2,4)], simp)
  have fire: "R db db2" if tx: "transaction (emit rt cfg e now ws run ty p) db = (db1, Inr u)"
      and cs: "completeStep rt cfg ids' now ws run (st_step_id s) o' worker db1 = (db2, q)" for e ty p db1 u ids' o' db2 q
  proof (rule R_trans [OF R_fire [OF tx] R_completeStep [OF cs]])
    obtain ev where "db1 = db\<lparr>w_events := w_events db @ [ev]\<rparr>"
      using emit_row [OF transaction_Inr [OF tx]] by blast
    then show "workable db1 ws run (st_step_id s)" using assms(3) by simp
  qed
  consider "st_status s \<noteq> StWaitingTimer" | "st_status s = StWaitingTimer" "\<not> isDue rt (st_next_at s) now"
    | "st_status s = StWaitingTimer" "isDue rt (st_next_at s) now" by blast
  then show ?thesis
  proof cases
    case 1
    then show ?thesis using assms(1) by (auto simp: handleTimer_def R_refl split: sum.splits prod.splits dest: wait)
  next
    case 2
    then show ?thesis using assms(1) R_release [OF assms(2)] by (auto simp: handleTimer_def)
  next
    case 3
    obtain db1 q where t: "transaction (emit rt cfg (ids 2) now ws run ''timer.fired'' (Obj [(''stepId'', Str (st_step_id s))])) db = (db1, q)"
      by fastforce
    show ?thesis
    proof (cases q)
      case (Inl e)
      then show ?thesis using assms(1) 3 t R_fire [OF t] by (simp add: handleTimer_def)
    next
      case (Inr u)
      then show ?thesis using assms(1) 3 t fire [OF t [unfolded Inr]] by (auto simp: handleTimer_def split: prod.splits sum.splits)
    qed
  qed
qed

lemma R_handleApproval:
  assumes "handleApproval rt cfg ids fresh now ws run s stepDef worker db = (db', res)"
    and "holds_lease ws run worker db" and "workable db ws run (st_step_id s)"
    and "kind_at db ws run (st_step_id s) = Some (Str ''approval'')" and "s \<in> set (w_steps db)" and "of_run ws run s"
    and "st_status s \<notin> {StCompleted, StCancelled, StFailed, StWaitingApproval}"
  shows "R db db'"
proof -
  have fresh: "unrequested db ws run (st_step_id s)" if "st_status s \<noteq> StApprovalResolved"
    unfolding unrequested_def the_step_def using assms(5-7) that by (intro bexI [of _ s]) (cases "st_status s"; simp)+
  have "R db db1" if "st_status s \<noteq> StApprovalResolved" "transaction (request_approval_body rt cfg ids now (approval_request rt fresh now ws run s stepDef e)) db = (db1, q)" for e db1 q
    using that(2) by (rule R_transaction) (erule R_request_body, use assms(2,4) fresh that(1) in \<open>simp_all add: approval_request_def\<close>)
  then show ?thesis
    using assms(1,3) by (auto simp: handleApproval_def R_refl split: if_splits sum.splits elim: R_completeStep)
qed

lemma R_handleActivity:
  assumes "handleActivity rt cfg ids now ws run s stepDef worker db = (db', res)"
    and "workable db ws run (st_step_id s)" and "kind_at db ws run (st_step_id s) = Some k" and "k \<noteq> Str ''approval''"
  shows "R db db'"
proof -
  let ?t = "new_attempt rt ws run s stepDef worker"
  have ident: "at_workspaceId ?t = ws" "at_runId ?t = run" "at_stepId ?t = st_step_id s" by (simp_all add: new_attempt_def)
  have body: "R db db1" if "start_step_body rt cfg ids now ?t db = Inr db1" for db1
    using R_start_step [OF that] assms(3,4) ident by simp
  have kept: "kind_at db1 = kind_at db" if b: "start_step_body rt cfg ids now ?t db = Inr db1" for db1
  proof (cases "holds_lease ws run worker db")
    case True
    obtain e g where "db1 = (upd_run ws run (\<lambda>r. r\<lparr>rn_status := Running, rn_updated_at := now\<rparr>) (upd_step ws run (st_step_id s) g db))\<lparr>w_events := e\<rparr>"
      using b True emit_row unfolding start_step_body_def Let_def ident by (fastforce simp: new_attempt_def)
    then have "kind_at db1 = kind_at (upd_step ws run (st_step_id s) g db)" by (simp add: guards_upd_run run_ident_def)
    also have "\<dots> = kind_at db" by (rule kind_at_cong) (simp_all add: upd_step_def)
    finally show ?thesis .
  qed (use b in \<open>simp add: start_step_body_def Let_def ident new_attempt_def\<close>)
  have started: "R db (begin_attempt ?t db1)" if "transaction (start_step_body rt cfg ids now ?t) db = (db1, Inr u)" for db1 u
  proof -
    have b: "start_step_body rt cfg ids now ?t db = Inr db1" using that by (rule transaction_Inr)
    show ?thesis
      by (rule R_trans [OF body [OF b] R_begin [OF _ assms(4)]]) (simp add: ident kept [OF b] assms(3))
  qed
  show ?thesis
    using assms(1,2)
    by (auto simp: handleActivity_def Let_def R_refl split: if_splits option.splits prod.splits sum.splits
        dest: transaction_Inl started intro: R_completeStep)
qed

lemma R_work_step:
  assumes "work_step rt cfg ids fresh now r worker db = (db', res)" and "find_run (rn_workspace_id r) (rn_run_id r) db = Some r"
  shows "R db db'"
proof -
  let ?ws = "rn_workspace_id r" and ?run = "rn_run_id r"
  show ?thesis
  proof (cases "rn_status r \<in> set TERMINAL \<or> rn_lease_owner r \<noteq> Some worker")
    case True
    then show ?thesis using assms by (auto simp: work_step_def Let_def R_refl split: sum.splits)
  next
    case False
    then have held: "holds_lease ?ws ?run worker db" and st: "rn_status r \<notin> set TERMINAL" and ow: "rn_lease_owner r = Some worker"
      using assms(2) by (simp_all add: holds_lease_def)
    show ?thesis
    proof (cases "find_definition (rn_workflow_id r) (rn_workflow_version r) db")
      case (Inr d)
      show ?thesis
      proof (cases "nextRunnableStep rt now r db")
        case None
        then show ?thesis
          using assms Inr False held by (auto simp: work_step_def Let_def R_refl R_release split: if_splits)
      next
        case (Some s)
        note w = nextRunnableStep_workable [OF Some]
        show ?thesis
        proof (cases "step_definition (st_step_id s) (df_definition d)")
          case None
          then show ?thesis using assms Inr False Some by (auto simp: work_step_def Let_def R_refl split: if_splits)
        next
          case (Some sd)
          note kind = kind_at_run [OF assms(2) Inr Some]
          obtain db1 q where np: "note_progress rt cfg ids now r s db = (db1, q)" by fastforce
          note r1 = R_progress [OF np assms(2) st]
          show ?thesis
          proof (cases q)
            case (Inl e)
            then show ?thesis
              using assms Inr False Some \<open>nextRunnableStep rt now r db = Some s\<close> np r1 by (auto simp: work_step_def Let_def R_refl split: if_splits)
          next
            case u: (Inr u)
            have g: "holds_lease ?ws ?run worker db1" "workable db1 ?ws ?run (st_step_id s)" "kind_at db1 ?ws ?run (st_step_id s) = Some (get sd ''kind'')"
              using note_progress_keeps [OF np [unfolded u] assms(2) ow st] w kind by simp_all
            have row: "s \<in> set (w_steps db1)" "of_run ?ws ?run s" "st_status s \<notin> {StCompleted, StCancelled, StFailed, StWaitingApproval}"
              using nextRunnableStep_row [OF \<open>nextRunnableStep rt now r db = Some s\<close>]
                note_progress_keeps [OF np [unfolded u] assms(2) ow st] by auto
            have t: "R db1 db2" if "handleTimer rt cfg i now ?ws ?run s sd worker db1 = (db2, x)" "get sd ''kind'' = Str ''timer''" for i db2 x
              using R_handleTimer [OF that(1) g(1,2)] g(3) that(2) by simp
            have a: "R db1 db2" if "handleApproval rt cfg i fresh now ?ws ?run s sd worker db1 = (db2, x)" "get sd ''kind'' = Str ''approval''" for i db2 x
              using R_handleApproval [OF that(1) g(1,2) _ row] g(3) that(2) by simp
            have c: "R db1 db2" if "handleActivity rt cfg i now ?ws ?run s sd worker db1 = (db2, x)" "get sd ''kind'' \<noteq> Str ''approval''" for i db2 x
              using R_handleActivity [OF that(1) g(2,3) that(2)] .
            show ?thesis
              using assms Inr False Some \<open>nextRunnableStep rt now r db = Some s\<close> np u r1
              by (auto simp: work_step_def Let_def R_refl split: if_splits prod.splits sum.splits dest!: t a c intro: R_trans)
          qed
        qed
      qed
    qed (use assms R_refl in \<open>simp add: work_step_def Let_def\<close>)
  qed
qed

lemma R_workClaim:
  "workClaim n rt cfg ids fresh now r worker db = (db', res) \<Longrightarrow> find_run (rn_workspace_id r) (rn_run_id r) db = Some r \<Longrightarrow> R db db'"
proof (induction n arbitrary: ids r db)
  case (Suc n)
  obtain db1 w where w: "work_step rt cfg ids fresh now r worker db = (db1, w)" by fastforce
  note r1 = R_work_step [OF w Suc.prems(2)]
  show ?case
  proof (cases "w = Inr True")
    case True
    obtain db2 c where c: "claim rt cfg now worker db1 = (db2, c)" by fastforce
    have r2: "R db db2" by (rule R_trans [OF r1 R_claim [OF c]])
    show ?thesis
    proof (cases "\<exists>r'. c = Inr (Some r')")
      case True
      then obtain r' where "c = Inr (Some r')" by blast
      then show ?thesis
        using Suc w c \<open>w = Inr True\<close> R_trans [OF r2 Suc.IH] claim_found by (metis (no_types, lifting) workClaim.simps(2) case_prod_conv
            old.sum.simps(6) option.case(2) bool.case(1))
    next
      case False
      then show ?thesis using Suc.prems w c \<open>w = Inr True\<close> r2 by (auto split: sum.splits option.splits)
    qed
  next
    case False
    then show ?thesis using Suc.prems w r1 by (auto split: sum.splits bool.splits)
  qed
qed (simp add: R_refl)

lemma R_tick: "R db (fst (tick rt cfg ids fresh now worker db))"
proof (cases "assertString worker ''workerId''")
  case (Inr u)
  obtain db1 e where e: "expire_rows rt cfg ids now (due_approvals now db) 0 db = (db1, e)" by fastforce
  obtain db2 c where c: "claim rt cfg now worker db1 = (db2, c)" by fastforce
  have r1: "R db db1" and r2: "R db db2" using R_expire_rows [OF e] R_trans [OF _ R_claim [OF c]] by blast+
  show ?thesis
  proof (cases "\<exists>n r. e = Inr n \<and> c = Inr (Some r)")
    case True
    then obtain n r where nr: "e = Inr n" "c = Inr (Some r)" by blast
    obtain db3 w where w: "workClaim (Suc (length (w_steps db2))) rt cfg (shift (2 * length (w_approvals db)) ids) fresh now r worker db2 = (db3, w)"
      by fastforce
    have "R db db3" by (rule R_trans [OF r2 R_workClaim [OF w claim_found [OF c [unfolded nr]]]])
    moreover have "fst (tick rt cfg ids fresh now worker db) = db3"
      using Inr e c nr w by (auto simp: tick_def expirePendingApprovals_def simp del: workClaim.simps split: option.splits sum.splits)
    ultimately show ?thesis by simp
  next
    case False
    then show ?thesis
      using Inr e c r1 r2 by (auto simp: tick_def expirePendingApprovals_def simp del: workClaim.simps split: sum.splits option.splits)
  qed
qed (simp add: tick_def R_refl)

lemma R_emit_activity: "R db (fst (appendActivityEvent rt cfg eid now t typ p db))"
  by (cases "appendActivityEvent rt cfg eid now t typ p db")
    (auto simp: appendActivityEvent_def bind_res_eq_Inr elim!: R_transaction R_emit)

lemma R_effect_commit: "R db (fst (effect_commit rt cfg now t key fp output db))"
proof (cases "find_effect (at_workspaceId t) key db")
  case None
  then show ?thesis
    by (cases "assertActiveStep t db"; cases "boundedJson rt output ''effect output'' (stepOutputBytes (c_limits cfg))")
      (simp_all add: effect_commit_def transaction_def R_refl R_effect)
next
  case (Some f)
  then show ?thesis
    by (cases "assertActiveStep t db"; cases "boundedJson rt output ''effect output'' (stepOutputBytes (c_limits cfg))")
      (simp_all add: effect_commit_def transaction_def R_refl)
qed

lemma R_handleFailure:
  assumes "handleFailure rt cfg ids now t e db = (db', res)" and "t \<in> set (w_attempts db)"
  shows "R db db'"
proof -
  have "R db db1" if "transaction (failure_body rt cfg ids now t c m b) db = (db1, q)" "holds_lease (at_workspaceId t) (at_runId t) (at_workerId t) db" for c m b db1 q
    using that(1) by (rule R_transaction) (erule R_failure_body [OF _ assms(2) that(2)])
  then show ?thesis using assms(1) by (auto simp: handleFailure_def Let_def R_refl split: if_splits)
qed

lemma R_settle: "R db (settle i db)"
  unfolding settle_def Let_def by (rule R_flag) (simp add: attempt_ident_def)

lemma R_fail:
  assumes "i < length (w_attempts db)"
  shows "R db (fst (fail_attempt rt cfg ids now i e db))"
proof -
  obtain db1 q where h: "handleFailure rt cfg ids now (w_attempts db ! i) e db = (db1, q)" by fastforce
  have "R db (settle i db1)" by (rule R_trans [OF R_handleFailure [OF h] R_settle]) (simp add: assms)
  then show ?thesis by (simp add: fail_attempt_def h)
qed

lemma R_finish:
  assumes "i < length (w_attempts db)"
  shows "R db (fst (finish_attempt rt cfg ids now i output db))"
proof -
  let ?t = "w_attempts db ! i"
  have mem: "?t \<in> set (w_attempts db)" using assms by simp
  obtain db1 q where c: "completeStep rt cfg ids now (at_workspaceId ?t) (at_runId ?t) (at_stepId ?t) output (at_workerId ?t) db = (db1, q)" by fastforce
  have "workable db (at_workspaceId ?t) (at_runId ?t) (at_stepId ?t)"
    unfolding workable_def using mem by (metis attempt_ident_def image_eqI)
  note r1 = R_completeStep [OF c this]
  show ?thesis
  proof (cases q)
    case (Inl e)
    have "db1 = db" using c Inl unfolding completeStep_def by (auto dest: transaction_Inl)
    obtain db2 x where h: "handleFailure rt cfg ids now ?t (as_failure e) db = (db2, x)" by fastforce
    have "R db (settle i db2)" by (rule R_trans [OF R_handleFailure [OF h mem] R_settle])
    then show ?thesis using c Inl h \<open>db1 = db\<close> by (simp add: finish_attempt_def Let_def R_settle)
  next
    case (Inr u)
    then show ?thesis using c R_trans [OF r1 R_settle] by (simp add: finish_attempt_def Let_def R_settle)
  qed
qed

lemma R_timeout:
  assumes "i < length (w_attempts db)"
  shows "R db (fst (timeout_attempt rt cfg ids now i db))"
  unfolding timeout_attempt_def
proof (rule R_trans [OF R_attempts R_fail])
  show "map attempt_ident ((w_attempts db)[i := (w_attempts db ! i)\<lparr>at_aborted := True\<rparr>]) = map attempt_ident (w_attempts db)"
    using assms by (simp add: map_update list_update_same_conv attempt_ident_def)
qed (simp add: assms)

lemma R_close: "R db (close db)"
  unfolding close_def by (rule R_volatile) (simp add: attempt_ident_def)

lemma R_exec: "R db (exec_wf rt cfg opn db)"
  by (cases opn) (simp_all add: R_registerWorkflow R_start R_cancel R_resolve R_tick R_emit_activity R_effect_commit R_finish R_fail
      R_timeout R_refl R_close pending_attempt_def)

lemma R_steps: "(wf_step rt cfg)\<^sup>*\<^sup>* db db' \<Longrightarrow> R db db'"
proof (induction rule: rtranclp_induct)
  case (step db1 db2)
  then show ?case using R_exec R_trans by (auto simp: wf_step_def)
qed (rule R_refl)

lemma R_run_wf: "R db (run_wf rt cfg ops db)"
  by (rule R_steps [OF run_wf_steps])

end

text \<open>The common case: a preorder that holds for any update of rows that keeps their identity.\<close>

locale wf_relation =
  fixes rt :: runtime and cfg :: config and R :: "workflow_db \<Rightarrow> workflow_db \<Rightarrow> bool"
  assumes refl: "R db db"
    and trans: "R db db' \<Longrightarrow> R db' db'' \<Longrightarrow> R db db''"
    and event: "appendEvent rt (c_limits cfg) eid now ws run typ p actor db = Inr db' \<Longrightarrow> R db db'"
    and define_row: "R db (db\<lparr>w_definitions := w_definitions db @ [d]\<rparr>)"
    and create_rows: "find_run (rn_workspace_id r) (rn_run_id r) db = None \<Longrightarrow>
      R db (db\<lparr>w_runs := w_runs db @ [r], w_steps := w_steps db @ ss\<rparr>)"
    and run_rows: "(\<And>x. run_ident (fr x) = run_ident x) \<Longrightarrow> R db (db\<lparr>w_runs := upd_where P fr (w_runs db)\<rparr>)"
    and step_rows: "(\<And>x. step_ident (fs x) = step_ident x) \<Longrightarrow> R db (db\<lparr>w_steps := upd_where Q fs (w_steps db)\<rparr>)"
    and approval_rows: "(\<And>x. approval_ident (fa x) = approval_ident x) \<Longrightarrow> R db (db\<lparr>w_approvals := upd_where S fa (w_approvals db)\<rparr>)"
    and request_row: "R db (db\<lparr>w_approvals := w_approvals db @ [q]\<rparr>)"
    and effect_row: "find_effect (fx_workspace_id f) (fx_idempotency_key f) db = None \<Longrightarrow> R db (db\<lparr>w_effects := w_effects db @ [f]\<rparr>)"
    and attempt_rows: "R db (db\<lparr>w_attempts := ts, w_active := act\<rparr>)"
begin

lemma emit_after: "emit rt cfg eid now ws run typ p db1 = Inr db' \<Longrightarrow> R db db1 \<Longrightarrow> R db db'"
  unfolding emit_def using event trans by blast

lemma append_after: "appendEvent rt (c_limits cfg) eid now ws run typ p actor db1 = Inr db' \<Longrightarrow> R db db1 \<Longrightarrow> R db db'"
  using event trans by blast

lemma run_after: "R db db1 \<Longrightarrow> (\<And>x. run_ident (fr x) = run_ident x) \<Longrightarrow> R db (upd_run ws run fr db1)"
  unfolding upd_run_def using run_rows trans by blast

lemma step_after: "R db db1 \<Longrightarrow> (\<And>x. step_ident (fs x) = step_ident x) \<Longrightarrow> R db (upd_step ws run i fs db1)"
  unfolding upd_step_def using step_rows trans by blast

lemma approval_after: "R db db1 \<Longrightarrow> (\<And>x. approval_ident (fa x) = approval_ident x) \<Longrightarrow> R db (upd_approval ws run i fa db1)"
  unfolding upd_approval_def using approval_rows trans by blast

lemmas rows = refl run_after step_after approval_after

lemmas idents = run_ident_def step_ident_def approval_ident_def unlease_def

lemma expire: "expireApprovalLocked rt cfg ids now actor a db = Inr db' \<Longrightarrow> R db db'"
  by (auto simp: expireApprovalLocked_def Let_def bind_res_eq_Inr idents intro!: rows elim!: append_after emit_after)

lemma approve: "approve_body rt cfg ids now actor decision a db = Inr db' \<Longrightarrow> R db db'"
  by (auto simp: approve_body_def Let_def bind_res_eq_Inr idents split: if_splits intro!: rows elim!: append_after emit_after)

lemma cancel_rows: "cancel_body rt cfg eid now ws run reason db = Inr db' \<Longrightarrow> R db db'"
proof -
  assume a: "cancel_body rt cfg eid now ws run reason db = Inr db'"
  have "R db ((upd_run ws run f db)\<lparr>w_steps := upd_where Q g (w_steps db)\<rparr>)"
    if "\<And>x. run_ident (f x) = run_ident x" "\<And>x. step_ident (g x) = step_ident x" for f g Q
    using trans [OF run_after [OF refl that(1)] step_rows [OF that(2), of "upd_run ws run f db" Q]] by (simp add: upd_run_def)
  then show ?thesis
    using a unfolding cancel_body_def bind_res_eq_Inr by (elim exE conjE emit_after) (simp add: idents)
qed

lemma complete_rows: "complete_body rt cfg ids now ws run i output worker db = Inr db' \<Longrightarrow> R db db'"
  by (auto simp: complete_body_def Let_def bind_res_eq_Inr idents split: if_splits intro!: rows elim!: emit_after)

lemma wait_rows: "wait_timer_body rt cfg ids now ws run i d db = Inr db' \<Longrightarrow> R db db'"
  by (auto simp: wait_timer_body_def bind_res_eq_Inr idents intro!: rows elim!: emit_after)

lemma request_rows: "request_approval_body rt cfg ids now a db = Inr db' \<Longrightarrow> R db db'"
proof -
  have "R db (if list_ex (the_approval ws run aid) (w_approvals db) then db else db\<lparr>w_approvals := w_approvals db @ [a]\<rparr>)" for ws run aid
    by (simp add: refl request_row)
  then show "request_approval_body rt cfg ids now a db = Inr db' \<Longrightarrow> R db db'"
    unfolding request_approval_body_def Let_def bind_res_eq_Inr
    by (elim exE conjE emit_after) (intro run_after step_after; simp add: idents)
qed

lemma start_step_rows: "start_step_body rt cfg ids now t db = Inr db' \<Longrightarrow> R db db'"
  by (auto simp: start_step_body_def Let_def idents refl split: if_splits intro!: rows elim!: emit_after)

lemma failure_rows: "failure_body rt cfg ids now t c m b db = Inr db' \<Longrightarrow> R db db'"
  by (auto simp: failure_body_def Let_def bind_res_eq_Inr idents split: if_splits intro!: rows elim!: emit_after)

lemma progress_rows: "note_progress rt cfg ids now r s db = (db', res) \<Longrightarrow> R db db'"
  by (auto simp: note_progress_def Let_def transaction_def refl idents split: if_splits sum.splits intro!: rows elim!: emit_after)

end

sublocale wf_relation \<subseteq> wf_bodies rt cfg R
proof unfold_locales
  fix eid now r d db db' assume "create_run rt cfg eid now r (df_definition d) db = Inr db'"
    and none: "find_run (rn_workspace_id r) (rn_run_id r) db = None"
  then show "R db db'" unfolding create_run_def by (elim emit_after) (rule create_rows [OF none])
next
  fix ws run worker db now show "R db (release now ws run worker db)"
    unfolding release_def by (intro rows) (simp add: idents)
next
  fix r :: run_row and db ow ex now
  show "R db (upd_run (rn_workspace_id r) (rn_run_id r) (\<lambda>r. r\<lparr>rn_lease_owner := ow, rn_lease_expires_at := ex, rn_updated_at := now\<rparr>) db)"
    by (intro rows) (simp add: idents)
next
  fix t db show "R db (begin_attempt t db)" unfolding begin_attempt_def by (rule attempt_rows)
qed (rule refl | erule cancel_rows | erule expire | erule approve | erule progress_rows | erule complete_rows | erule wait_rows
    | erule request_rows | erule start_step_rows | erule failure_rows | erule effect_row | rule define_row | rule attempt_rows
    | erule emit_after, rule refl | erule (1) trans)+

section \<open>What the tables keep\<close>

definition seqs :: "string \<Rightarrow> string \<Rightarrow> workflow_db \<Rightarrow> int list" where
  "seqs ws run db = map (\<lambda>e. ev_sequence (er_event e)) (run_events ws run db)"

definition gap_free :: "workflow_db \<Rightarrow> bool" where
  "gap_free db \<longleftrightarrow> (\<forall>ws run. seqs ws run db = map int [0..<length (seqs ws run db)])"

definition event_ids :: "workflow_db \<Rightarrow> string list" where
  "event_ids db = map (\<lambda>e. ev_id (er_event e)) (w_events db)"

definition effect_keys :: "workflow_db \<Rightarrow> (string \<times> string) list" where
  "effect_keys db = map (\<lambda>f. (fx_workspace_id f, fx_idempotency_key f)) (w_effects db)"

definition run_keys :: "workflow_db \<Rightarrow> (string \<times> string) list" where
  "run_keys db = map (\<lambda>r. (rn_workspace_id r, rn_run_id r)) (w_runs db)"

text \<open>Nothing is ever removed, rows keep their identity, and the keys stay unique.\<close>

definition append_only :: "workflow_db \<Rightarrow> workflow_db \<Rightarrow> bool" where
  "append_only db db' \<longleftrightarrow>
     (\<exists>new. w_events db' = w_events db @ new) \<and>
     (\<exists>new. w_effects db' = w_effects db @ new) \<and>
     (\<exists>new. w_definitions db' = w_definitions db @ new) \<and>
     (\<exists>new. map run_ident (w_runs db') = map run_ident (w_runs db) @ new) \<and>
     (\<exists>new. map step_ident (w_steps db') = map step_ident (w_steps db) @ new) \<and>
     (\<exists>new. map approval_ident (w_approvals db') = map approval_ident (w_approvals db) @ new)"

definition keys_ok :: "workflow_db \<Rightarrow> bool" where
  "keys_ok db \<longleftrightarrow> gap_free db \<and> distinct (event_ids db) \<and> distinct (effect_keys db) \<and> distinct (run_keys db)"

definition grows :: "workflow_db \<Rightarrow> workflow_db \<Rightarrow> bool" where
  "grows db db' \<longleftrightarrow> append_only db db' \<and> (keys_ok db \<longrightarrow> keys_ok db')"

lemma foldl_max_seq: "foldl max (-1) (map int [0..<n]) = int n - 1"
  by (induction n) (simp_all add: max_def)

lemma next_sequence_gap_free: "gap_free db \<Longrightarrow> next_sequence ws run db = int (length (seqs ws run db))"
  unfolding next_sequence_def seqs_def [symmetric] gap_free_def using foldl_max_seq [of "length (seqs ws run db)"]
  by (metis add_diff_cancel_left' add_diff_eq diff_add_cancel)

lemma appendEvent_row:
  assumes "appendEvent rt limits eid now ws run typ p actor db = Inr db'"
  obtains e where "db' = db\<lparr>w_events := w_events db @ [e]\<rparr>" "ev_sequence (er_event e) = next_sequence ws run db"
    "ev_workspaceId (er_event e) = ws" "ev_runId (er_event e) = run" "ev_id (er_event e) = eid" "eid \<notin> set (event_ids db)"
    "ev_type (er_event e) = typ"
proof -
  from assms obtain e q where c: "createEvent eid 0 typ ws run actor p (next_sequence ws run db) None None ''workspace-private'' ''0.2.0-dev'' = Inr e"
    and "eid \<notin> (\<lambda>r. ev_id (er_event r)) ` set (w_events db)"
    and "db' = db\<lparr>w_events := w_events db @ [\<lparr>er_event = e\<lparr>ev_payload := q\<rparr>, er_occurred_at = now\<rparr>]\<rparr>"
    unfolding appendEvent_def by (auto simp: bind_res_eq_Inr split: sum.splits if_splits)
  then show ?thesis using that [of "\<lparr>er_event = e\<lparr>ev_payload := q\<rparr>, er_occurred_at = now\<rparr>"] createEvent_fields [OF c]
    by (simp add: event_ids_def)
qed

lemma seqs_append: "seqs ws run (db\<lparr>w_events := w_events db @ [e]\<rparr>) = seqs ws run db @
    (if ev_workspaceId (er_event e) = ws \<and> ev_runId (er_event e) = run then [ev_sequence (er_event e)] else [])"
  by (simp add: seqs_def run_events_def)

lemma event_grows:
  assumes "appendEvent rt limits eid now ws run typ p actor db = Inr db'"
  shows "grows db db'"
proof -
  obtain e where e: "db' = db\<lparr>w_events := w_events db @ [e]\<rparr>" "ev_sequence (er_event e) = next_sequence ws run db"
    "ev_workspaceId (er_event e) = ws" "ev_runId (er_event e) = run" "ev_id (er_event e) = eid" "eid \<notin> set (event_ids db)"
    using appendEvent_row [OF assms] by metis
  have "gap_free db'" if g: "gap_free db"
    unfolding gap_free_def
  proof (intro allI)
    fix w r
    have "seqs w r db = map int [0..<length (seqs w r db)]" using g by (simp add: gap_free_def)
    then show "seqs w r db' = map int [0..<length (seqs w r db')]"
      using e(2-4) next_sequence_gap_free [OF g, of ws run] unfolding e(1) seqs_append by auto
  qed
  moreover have "event_ids db' = event_ids db @ [eid]" using e by (simp add: event_ids_def)
  ultimately show ?thesis
    using e(6) by (simp add: grows_def append_only_def keys_ok_def e(1) effect_keys_def run_keys_def)
qed

lemmas keys_defs = keys_ok_def gap_free_def seqs_def run_events_def event_ids_def effect_keys_def run_keys_def

lemma keys_other_tables [simp]:
  "keys_ok (db\<lparr>w_definitions := x1\<rparr>) = keys_ok db" "keys_ok (db\<lparr>w_steps := x2\<rparr>) = keys_ok db"
  "keys_ok (db\<lparr>w_approvals := x3\<rparr>) = keys_ok db" "keys_ok (db\<lparr>w_attempts := x4\<rparr>) = keys_ok db"
  "keys_ok (db\<lparr>w_active := x5\<rparr>) = keys_ok db"
  by (simp_all add: keys_defs)

lemma keys_runs: "map run_ident rs = map run_ident (w_runs db) \<Longrightarrow> keys_ok (db\<lparr>w_runs := rs\<rparr>) = keys_ok db"
proof -
  assume "map run_ident rs = map run_ident (w_runs db)"
  then have "map (\<lambda>(w, r, _). (w, r)) (map run_ident rs) = map (\<lambda>(w, r, _). (w, r)) (map run_ident (w_runs db))" by simp
  then show ?thesis by (simp add: keys_defs run_ident_def comp_def)
qed

lemma keys_new_run: "(rn_workspace_id r, rn_run_id r) \<notin> set (run_keys db) \<Longrightarrow> keys_ok db \<Longrightarrow> keys_ok (db\<lparr>w_runs := w_runs db @ [r]\<rparr>)"
  by (simp add: keys_defs)

lemma keys_new_effect:
  "(fx_workspace_id f, fx_idempotency_key f) \<notin> set (effect_keys db) \<Longrightarrow> keys_ok db \<Longrightarrow> keys_ok (db\<lparr>w_effects := w_effects db @ [f]\<rparr>)"
  by (simp add: keys_defs)

interpretation durable: wf_relation rt cfg grows for rt cfg
proof unfold_locales
  fix db show "grows db db" by (simp add: grows_def append_only_def)
next
  fix db db' db'' assume "grows db db'" "grows db' db''"
  then show "grows db db''" unfolding grows_def append_only_def by (elim conjE exE) simp
next
  fix db d show "grows db (db\<lparr>w_definitions := w_definitions db @ [d]\<rparr>)"
    by (simp add: grows_def append_only_def keys_runs)
next
  fix r :: run_row and db :: workflow_db and ss assume none: "find_run (rn_workspace_id r) (rn_run_id r) db = None"
  have "(rn_workspace_id r, rn_run_id r) \<notin> set (run_keys db)"
    using none by (auto simp: find_run_def run_keys_def the_run_def find_None_iff)
  then show "grows db (db\<lparr>w_runs := w_runs db @ [r], w_steps := w_steps db @ ss\<rparr>)"
    using keys_new_run [of r db] by (simp add: grows_def append_only_def)
next
  fix fr :: "run_row \<Rightarrow> run_row" and db :: workflow_db and P assume "\<And>x. run_ident (fr x) = run_ident x"
  then have "map run_ident (upd_where P fr (w_runs db)) = map run_ident (w_runs db)" by (intro map_upd_where_same)
  then show "grows db (db\<lparr>w_runs := upd_where P fr (w_runs db)\<rparr>)"
    by (simp add: grows_def append_only_def keys_runs)
next
  fix fs :: "step_row \<Rightarrow> step_row" and db :: workflow_db and Q assume "\<And>x. step_ident (fs x) = step_ident x"
  then have "map step_ident (upd_where Q fs (w_steps db)) = map step_ident (w_steps db)" by (intro map_upd_where_same)
  then show "grows db (db\<lparr>w_steps := upd_where Q fs (w_steps db)\<rparr>)"
    by (simp add: grows_def append_only_def keys_runs)
next
  fix fa :: "approval_row \<Rightarrow> approval_row" and db :: workflow_db and S assume "\<And>x. approval_ident (fa x) = approval_ident x"
  then have "map approval_ident (upd_where S fa (w_approvals db)) = map approval_ident (w_approvals db)" by (intro map_upd_where_same)
  then show "grows db (db\<lparr>w_approvals := upd_where S fa (w_approvals db)\<rparr>)"
    by (simp add: grows_def append_only_def keys_runs)
next
  fix db q show "grows db (db\<lparr>w_approvals := w_approvals db @ [q]\<rparr>)"
    by (simp add: grows_def append_only_def keys_runs)
next
  fix f :: effect_row and db :: workflow_db assume none: "find_effect (fx_workspace_id f) (fx_idempotency_key f) db = None"
  have "(fx_workspace_id f, fx_idempotency_key f) \<notin> set (effect_keys db)"
    using none by (auto simp: find_effect_def effect_keys_def find_None_iff)
  then show "grows db (db\<lparr>w_effects := w_effects db @ [f]\<rparr>)"
    using keys_new_effect [of f db] by (simp add: grows_def append_only_def)
next
  fix db ts act show "grows db (db\<lparr>w_attempts := ts, w_active := act\<rparr>)"
    by (simp add: grows_def append_only_def keys_runs)
qed (rule event_grows)

lemma empty_keys_ok: "keys_ok empty_workflows"
  by (simp add: keys_ok_def gap_free_def seqs_def run_events_def event_ids_def effect_keys_def run_keys_def empty_workflows_def)

lemma reachable_keys_ok: "keys_ok (run_wf rt cfg ops empty_workflows)"
  using durable.R_run_wf [of empty_workflows rt cfg ops] empty_keys_ok by (simp add: grows_def)

text \<open>C12: every run has a gap-free history. After any sequence of calls, whatever failed or was rolled back in
  between and however workers and handlers interleaved, the recorded sequence numbers of a run are 0, 1, 2 and so
  on in the order of recording, and no event identifier occurs twice.\<close>

theorem run_history_is_gap_free:
  "seqs ws run (run_wf rt cfg ops empty_workflows) = map int [0..<length (seqs ws run (run_wf rt cfg ops empty_workflows))] \<and>
   distinct (event_ids (run_wf rt cfg ops empty_workflows))"
  using reachable_keys_ok [of rt cfg ops] by (simp add: keys_ok_def gap_free_def)

end
