(* ===== verification/DurableFinal.thy ===== *)
theory DurableFinal
  imports Durable
begin

text \<open>
  Which runs of the durable runtime are final. A completed run is never touched again: that
  rests on the steps of a completed run being complete, on an approval that is still pending
  keeping its step from completing, and on handlers working only on steps that are not
  approvals. A cancelled run is not final: an approval that was pending when it was cancelled
  can still be granted.
\<close>

section \<open>The invariant\<close>

definition step_of :: "approval_row \<Rightarrow> string \<times> string \<times> string" where
  "step_of a = (ap_workspace_id a, ap_run_id a, ap_step_id a)"

definition approval_statuses :: "approval_row \<Rightarrow> step_status set" where
  "approval_statuses a = (if ap_state a = ''pending'' then {StWaitingApproval, StCancelled}
     else {StWaitingApproval, StApprovalResolved, StCompleted, StFailed, StCancelled})"

definition approvals_ok :: "workflow_db \<Rightarrow> bool" where
  "approvals_ok db \<longleftrightarrow> distinct (map step_of (w_approvals db)) \<and>
     (\<forall>a \<in> set (w_approvals db). step_of a \<in> step_ident ` set (w_steps db) \<and>
       (\<forall>s \<in> set (w_steps db). step_ident s = step_of a \<longrightarrow> st_status s \<in> approval_statuses a))"

definition kinds_ok :: "workflow_db \<Rightarrow> bool" where
  "kinds_ok db \<longleftrightarrow>
     (\<forall>a \<in> set (w_approvals db). kind_at db (ap_workspace_id a) (ap_run_id a) (ap_step_id a) = Some (Str ''approval'')) \<and>
     (\<forall>t \<in> set (w_attempts db). \<exists>k. kind_at db (at_workspaceId t) (at_runId t) (at_stepId t) = Some k \<and> k \<noteq> Str ''approval'')"

definition completed_ok :: "workflow_db \<Rightarrow> bool" where
  "completed_ok db \<longleftrightarrow> (\<forall>r \<in> set (w_runs db). rn_status r = Completed \<longrightarrow>
     (\<forall>s \<in> set (w_steps db). of_run (rn_workspace_id r) (rn_run_id r) s \<longrightarrow> st_status s = StCompleted))"

definition wf_inv :: "workflow_db \<Rightarrow> bool" where
  "wf_inv db \<longleftrightarrow> distinct (run_keys db) \<and> approvals_ok db \<and> kinds_ok db \<and> completed_ok db"

definition completed_kept :: "workflow_db \<Rightarrow> workflow_db \<Rightarrow> bool" where
  "completed_kept db db' \<longleftrightarrow> (\<forall>r \<in> set (w_runs db). rn_status r = Completed \<longrightarrow> r \<in> set (w_runs db'))"

definition final :: "workflow_db \<Rightarrow> workflow_db \<Rightarrow> bool" where
  "final db db' \<longleftrightarrow> (wf_inv db \<longrightarrow> wf_inv db' \<and> completed_kept db db')"

section \<open>Working on one run that is not completed\<close>

definition open_run :: "string \<Rightarrow> string \<Rightarrow> workflow_db \<Rightarrow> bool" where
  "open_run ws run db \<longleftrightarrow> (\<forall>r \<in> set (w_runs db). the_run ws run r \<longrightarrow> rn_status r \<noteq> Completed)"

definition at_work :: "string \<Rightarrow> string \<Rightarrow> workflow_db \<Rightarrow> workflow_db \<Rightarrow> bool" where
  "at_work ws run db0 db \<longleftrightarrow> wf_inv db \<and> open_run ws run db \<and> completed_kept db0 db"

lemma at_work_start: "wf_inv db \<Longrightarrow> open_run ws run db \<Longrightarrow> at_work ws run db db"
  by (simp add: at_work_def completed_kept_def)

lemma at_work_final: "(wf_inv db \<Longrightarrow> at_work ws run db db') \<Longrightarrow> final db db'"
  by (auto simp: final_def at_work_def)

lemma step_ident_iff: "step_ident s = (ws, run, i) \<longleftrightarrow> the_step ws run i s"
  by (auto simp: step_ident_def the_step_def of_run_def)

lemma run_keys_upd: "(\<And>x. run_ident (f x) = run_ident x) \<Longrightarrow> run_keys (upd_run ws run f db) = run_keys db"
proof -
  assume "\<And>x. run_ident (f x) = run_ident x"
  from map_run_ident_upd [OF this, of ws run db]
  have "map (\<lambda>(w, r, _). (w, r)) (map run_ident (w_runs (upd_run ws run f db))) = map (\<lambda>(w, r, _). (w, r)) (map run_ident (w_runs db))" by simp
  then show ?thesis by (simp add: run_keys_def run_ident_def comp_def)
qed

lemma kinds_ok_cong:
  "map run_ident (w_runs db') = map run_ident (w_runs db) \<Longrightarrow> w_definitions db' = w_definitions db \<Longrightarrow>
   (\<lambda>a. (ap_workspace_id a, ap_run_id a, ap_step_id a)) ` set (w_approvals db') = (\<lambda>a. (ap_workspace_id a, ap_run_id a, ap_step_id a)) ` set (w_approvals db) \<Longrightarrow>
   attempt_ident ` set (w_attempts db') = attempt_ident ` set (w_attempts db) \<Longrightarrow> kinds_ok db' = kinds_ok db"
proof -
  assume a: "map run_ident (w_runs db') = map run_ident (w_runs db)" "w_definitions db' = w_definitions db"
    and ap: "(\<lambda>a. (ap_workspace_id a, ap_run_id a, ap_step_id a)) ` set (w_approvals db') = (\<lambda>a. (ap_workspace_id a, ap_run_id a, ap_step_id a)) ` set (w_approvals db)"
    and at: "attempt_ident ` set (w_attempts db') = attempt_ident ` set (w_attempts db)"
  have iff: "kinds_ok d \<longleftrightarrow> (\<forall>(w, r, i) \<in> (\<lambda>a. (ap_workspace_id a, ap_run_id a, ap_step_id a)) ` set (w_approvals d). kind_at d w r i = Some (Str ''approval'')) \<and>
      (\<forall>(w, r, i) \<in> attempt_ident ` set (w_attempts d). \<exists>k. kind_at d w r i = Some k \<and> k \<noteq> Str ''approval'')" for d
    by (auto simp: kinds_ok_def attempt_ident_def)
  show ?thesis unfolding iff ap at kind_at_cong [OF a] ..
qed

lemma at_work_run:
  assumes w: "at_work ws run db0 db" and id: "\<And>x. run_ident (f x) = run_ident x"
    and st: "\<And>x. rn_status x \<noteq> Completed \<Longrightarrow> rn_status (f x) \<noteq> Completed"
  shows "at_work ws run db0 (upd_run ws run f db)"
proof -
  have open': "rn_status r \<noteq> Completed" if "r \<in> set (w_runs db)" "the_run ws run r" for r
    using w that by (simp add: at_work_def open_run_def)
  have tr: "the_run ws run (f x) = the_run ws run x" for x using the_run_ident [OF id] .
  have runs: "w_runs (upd_run ws run f db) = upd_where (the_run ws run) f (w_runs db)" by (simp add: upd_run_def)
  have c: "completed_ok (upd_run ws run f db)"
    using w open' st unfolding at_work_def wf_inv_def completed_ok_def runs
    by (auto simp: in_upd_where upd_run_def split: if_splits)
  have a: "approvals_ok (upd_run ws run f db)" using w by (simp add: at_work_def wf_inv_def approvals_ok_def upd_run_def)
  have k: "kinds_ok (upd_run ws run f db)"
    using w kinds_ok_cong [OF map_run_ident_upd [OF id, of ws run db]] by (simp add: at_work_def wf_inv_def upd_run_def)
  have o: "open_run ws run (upd_run ws run f db)"
    using open' st tr unfolding open_run_def runs by (auto simp: in_upd_where split: if_splits)
  have kept: "completed_kept db0 (upd_run ws run f db)"
    using w open' unfolding at_work_def completed_kept_def runs by (fastforce simp: in_upd_where)
  show ?thesis using w c a k o kept run_keys_upd [OF id] by (simp add: at_work_def wf_inv_def)
qed

lemma at_work_step:
  assumes w: "at_work ws run db0 db" and id: "\<And>x. step_ident (g x) = step_ident x"
    and st: "\<And>a x. a \<in> set (w_approvals db) \<Longrightarrow> step_of a = (ws, run, i) \<Longrightarrow> st_status x \<in> approval_statuses a \<Longrightarrow> st_status (g x) \<in> approval_statuses a"
  shows "at_work ws run db0 (upd_step ws run i g db)"
proof -
  have steps: "w_steps (upd_step ws run i g db) = upd_where (the_step ws run i) g (w_steps db)" by (simp add: upd_step_def)
  have ids: "step_ident ` set (upd_where (the_step ws run i) g (w_steps db)) = step_ident ` set (w_steps db)"
    using map_upd_where_same [of "the_step ws run i" step_ident g "w_steps db"] id by (metis list.set_map)
  have a: "approvals_ok (upd_step ws run i g db)"
    using w st unfolding at_work_def wf_inv_def approvals_ok_def steps ids
    by (auto simp: in_upd_where id step_ident_iff [symmetric] upd_step_def)
  have c: "completed_ok (upd_step ws run i g db)"
  proof -
    have "rn_status r \<noteq> Completed" if "r \<in> set (w_runs db)" "of_run (rn_workspace_id r) (rn_run_id r) s" "the_step ws run i s" for r s
      using w that by (auto simp: at_work_def open_run_def the_run_def the_step_def of_run_def)
    moreover have "of_run x y (g s) = of_run x y s" for x y s using id [of s] by (simp add: step_ident_def of_run_def)
    ultimately show ?thesis
      using w unfolding at_work_def wf_inv_def completed_ok_def steps by (auto simp: in_upd_where upd_step_def split: if_splits)
  qed
  have k: "kinds_ok (upd_step ws run i g db)"
    using w kinds_ok_cong [of "upd_step ws run i g db" db] by (simp add: at_work_def wf_inv_def upd_step_def)
  show ?thesis
    using w a c k by (simp add: at_work_def wf_inv_def open_run_def completed_kept_def run_keys_def upd_step_def)
qed

lemma at_work_event:
  assumes "at_work ws run db0 db" and "appendEvent rt l eid now w r ty p actor db = Inr db'"
  shows "at_work ws run db0 db'"
proof -
  obtain e where e: "db' = db\<lparr>w_events := w_events db @ [e]\<rparr>" using appendEvent_row [OF assms(2)] by metis
  show ?thesis
    using assms(1) kinds_ok_cong [of db' db] unfolding e
    by (simp add: at_work_def wf_inv_def open_run_def completed_kept_def run_keys_def approvals_ok_def completed_ok_def)
qed

lemma at_work_emit: "emit rt cfg eid now w r ty p db = Inr db' \<Longrightarrow> at_work ws run db0 db \<Longrightarrow> at_work ws run db0 db'"
  unfolding emit_def by (rule at_work_event)

lemma at_work_append: "appendEvent rt l eid now w r ty p actor db = Inr db' \<Longrightarrow> at_work ws run db0 db \<Longrightarrow> at_work ws run db0 db'"
  by (rule at_work_event)

lemma upd_approvals_step_of:
  "(\<And>x. approval_ident (f x) = approval_ident x) \<Longrightarrow> map step_of (upd_where P f rows) = map step_of rows"
  by (rule map_upd_where_same) (metis approval_ident_def prod.inject step_of_def)

text \<open>Resolving an approval row: afterwards no approval of its step is pending.\<close>

lemma at_work_approval:
  assumes w: "at_work ws run db0 db" and id: "\<And>x. approval_ident (f x) = approval_ident x" and st: "\<And>x. ap_state (f x) \<noteq> ''pending''"
  shows "at_work ws run db0 (upd_approval ws' run' aid f db)"
proof -
  have rows: "w_approvals (upd_approval ws' run' aid f db) = upd_where (the_approval ws' run' aid) f (w_approvals db)" by (simp add: upd_approval_def)
  have so: "step_of (f x) = step_of x" for x using id [of x] by (simp add: approval_ident_def step_of_def)
  have sub: "approval_statuses x \<subseteq> approval_statuses (f x)" for x using st by (simp add: approval_statuses_def)
  have a: "approvals_ok (upd_approval ws' run' aid f db)"
    using w sub unfolding at_work_def wf_inv_def approvals_ok_def rows upd_approvals_step_of [OF id]
    by (fastforce simp: in_upd_where so upd_approval_def)
  have "kinds_ok (upd_approval ws' run' aid f db) = kinds_ok db"
  proof (rule kinds_ok_cong)
    show "(\<lambda>a. (ap_workspace_id a, ap_run_id a, ap_step_id a)) ` set (w_approvals (upd_approval ws' run' aid f db)) =
        (\<lambda>a. (ap_workspace_id a, ap_run_id a, ap_step_id a)) ` set (w_approvals db)"
      unfolding rows step_of_def [symmetric] list.set_map [symmetric] upd_approvals_step_of [OF id] ..
  qed (simp_all add: upd_approval_def)
  then show ?thesis
    using w a by (simp add: at_work_def wf_inv_def open_run_def completed_kept_def completed_ok_def run_keys_def upd_approval_def)
qed

lemma resolved_step_not_pending:
  assumes "approvals_ok db" and "a \<in> set (w_approvals db)" and id: "\<And>x. approval_ident (f x) = approval_ident x" and st: "\<And>x. ap_state (f x) \<noteq> ''pending''"
    and "b \<in> set (w_approvals (upd_approval (ap_workspace_id a) (ap_run_id a) (ap_approval_id a) f db))" and "step_of b = step_of a"
  shows "ap_state b \<noteq> ''pending''"
proof -
  from assms(5) obtain c where c: "c \<in> set (w_approvals db)" "b = (if the_approval (ap_workspace_id a) (ap_run_id a) (ap_approval_id a) c then f c else c)"
    by (auto simp: upd_approval_def in_upd_where)
  have "step_of (f x) = step_of x" for x using id [of x] by (simp add: approval_ident_def step_of_def)
  then have "step_of c = step_of a" using c(2) assms(6) by (auto split: if_splits)
  then have "c = a" using assms(1,2) c(1) by (auto simp: approvals_ok_def distinct_map dest: inj_onD)
  then show ?thesis using c(2) st by (simp add: the_approval_def)
qed

lemma pending_open:
  assumes "wf_inv db" and "a \<in> set (w_approvals db)" and "ap_state a = ''pending''"
  shows "open_run (ap_workspace_id a) (ap_run_id a) db"
proof -
  obtain s where "s \<in> set (w_steps db)" "step_ident s = step_of a" "st_status s \<in> {StWaitingApproval, StCancelled}"
    using assms unfolding wf_inv_def approvals_ok_def approval_statuses_def by (auto split: if_splits)
  then show ?thesis
    using assms(1) by (fastforce simp: open_run_def wf_inv_def completed_ok_def the_run_def of_run_def step_ident_def step_of_def)
qed

lemma lease_open:
  assumes "wf_inv db" and "find_run ws run db = Some r" and "rn_status r \<noteq> Completed"
  shows "open_run ws run db"
proof -
  have r: "r \<in> set (w_runs db)" "the_run ws run r" using find_SomeD [OF assms(2) [unfolded find_run_def]] by auto
  have "q = r" if "q \<in> set (w_runs db)" "the_run ws run q" for q
    using assms(1) r that by (auto simp: wf_inv_def run_keys_def distinct_map the_run_def dest: inj_onD)
  then show ?thesis using assms(3) by (auto simp: open_run_def)
qed

lemma holds_lease_open: "wf_inv db \<Longrightarrow> holds_lease ws run worker db \<Longrightarrow> open_run ws run db"
  by (auto simp: holds_lease_def TERMINAL_def intro: lease_open split: option.splits)

text \<open>A step that is not an approval has no approval rows.\<close>

lemma no_approvals:
  "kinds_ok db \<Longrightarrow> kind_at db ws run i = Some k \<Longrightarrow> k \<noteq> Str ''approval'' \<Longrightarrow> a \<in> set (w_approvals db) \<Longrightarrow> step_of a \<noteq> (ws, run, i)"
  by (auto simp: kinds_ok_def step_of_def)

lemma attempt_no_approvals:
  "kinds_ok db \<Longrightarrow> (ws, run, i) \<in> attempt_ident ` set (w_attempts db) \<Longrightarrow> a \<in> set (w_approvals db) \<Longrightarrow> step_of a \<noteq> (ws, run, i)"
  by (fastforce simp: kinds_ok_def step_of_def attempt_ident_def)

lemma approval_statusD:
  "approvals_ok db \<Longrightarrow> a \<in> set (w_approvals db) \<Longrightarrow> s \<in> set (w_steps db) \<Longrightarrow> the_step ws run i s \<Longrightarrow> step_of a = (ws, run, i) \<Longrightarrow>
   st_status s \<in> approval_statuses a"
  by (auto simp: approvals_ok_def step_ident_iff [symmetric])

lemma workable_not_pending:
  assumes "wf_inv db" and "workable db ws run i" and "a \<in> set (w_approvals db)" and "step_of a = (ws, run, i)"
  shows "ap_state a \<noteq> ''pending''"
proof -
  have inv: "approvals_ok db" "kinds_ok db" using assms(1) by (simp_all add: wf_inv_def)
  then obtain s where "s \<in> set (w_steps db)" "the_step ws run i s" "st_status s \<notin> {StWaitingApproval, StCancelled}"
    using assms(2) attempt_no_approvals [OF inv(2) _ assms(3), of ws run i] assms(4) unfolding workable_def by blast
  with approval_statusD [OF inv(1) assms(3) this(1,2) assms(4)] show ?thesis by (auto simp: approval_statuses_def)
qed

lemma unrequested_no_approval:
  assumes "approvals_ok db" and "unrequested db ws run i" and "a \<in> set (w_approvals db)"
  shows "step_of a \<noteq> (ws, run, i)"
proof
  assume so: "step_of a = (ws, run, i)"
  obtain s where s: "s \<in> set (w_steps db)" "the_step ws run i s" "st_status s \<in> {StQueued, StRunning, StWaitingRetry, StWaitingTimer}"
    using assms(2) by (auto simp: unrequested_def)
  show False using approval_statusD [OF assms(1,3) s(1,2) so] s(3) by (auto simp: approval_statuses_def split: if_splits)
qed

section \<open>The bodies\<close>

lemmas idents = run_ident_def step_ident_def approval_ident_def unlease_def

lemma final_expire:
  assumes "expireApprovalLocked rt cfg ids now actor a db = Inr db'" and "a \<in> set (w_approvals db)" and "ap_state a = ''pending''"
  shows "final db db'"
proof (rule at_work_final)
  assume inv: "wf_inv db"
  let ?ws = "ap_workspace_id a" and ?run = "ap_run_id a"
  let ?f = "\<lambda>p. p\<lparr>ap_state := ''expired'', ap_resolved_at := Some now\<rparr>"
  let ?db1 = "upd_approval ?ws ?run (ap_approval_id a) ?f db"
  have w: "at_work ?ws ?run db ?db1"
    by (rule at_work_approval [OF at_work_start [OF inv pending_open [OF inv assms(2,3)]]]) (simp_all add: idents)
  have np: "ap_state b \<noteq> ''pending''" if "b \<in> set (w_approvals ?db1)" "step_of b = (?ws, ?run, ap_step_id a)" for b
    using resolved_step_not_pending [where f = ?f, OF _ assms(2) _ _ that(1)] inv that(2) by (simp add: wf_inv_def step_of_def idents)
  have "at_work ?ws ?run db (upd_run ?ws ?run h (upd_step ?ws ?run (ap_step_id a) g ?db1))"
    if "\<And>x. step_ident (g x) = step_ident x" "\<And>x. st_status (g x) = StFailed" "\<And>x. run_ident (h x) = run_ident x" "\<And>x. rn_status (h x) = Failed" for g h
    using that np by (intro at_work_run at_work_step w) (simp_all add: approval_statuses_def)
  then show "at_work ?ws ?run db db'"
    using assms(1) unfolding expireApprovalLocked_def Let_def bind_res_eq_Inr
    by (elim exE conjE at_work_emit at_work_append) (simp add: idents)
qed

lemma final_approve:
  assumes "approve_body rt cfg ids now actor decision a db = Inr db'" and "a \<in> set (w_approvals db)" and "ap_state a = ''pending''"
    and "decision \<noteq> ''pending''"
  shows "final db db'"
proof (rule at_work_final)
  assume inv: "wf_inv db"
  let ?ws = "ap_workspace_id a" and ?run = "ap_run_id a"
  let ?f = "\<lambda>p. p\<lparr>ap_state := decision, ap_resolved_at := Some now, ap_actor_id := Some actor, ap_decision := Some decision\<rparr>"
  let ?db1 = "upd_approval ?ws ?run (ap_approval_id a) ?f db"
  have w: "at_work ?ws ?run db ?db1"
    by (rule at_work_approval [OF at_work_start [OF inv pending_open [OF inv assms(2,3)]]]) (simp_all add: idents assms(4))
  have np: "ap_state b \<noteq> ''pending''" if "b \<in> set (w_approvals ?db1)" "step_of b = (?ws, ?run, ap_step_id a)" for b
    using resolved_step_not_pending [where f = ?f, OF _ assms(2) _ _ that(1)] inv that(2) assms(4) by (simp add: wf_inv_def step_of_def idents)
  have "at_work ?ws ?run db (upd_run ?ws ?run h (upd_step ?ws ?run (ap_step_id a) g ?db1))"
    if "\<And>x. step_ident (g x) = step_ident x" "\<And>x. st_status (g x) \<in> {StFailed, StApprovalResolved}" "\<And>x. run_ident (h x) = run_ident x"
      "\<And>x. rn_status (h x) \<noteq> Completed" for g h
    using that np by (intro at_work_run at_work_step w) (auto simp: approval_statuses_def)
  then show "at_work ?ws ?run db db'"
    using assms(1) unfolding approve_body_def Let_def bind_res_eq_Inr
    by (elim exE conjE at_work_append) (auto simp: idents bind_res_eq_Inr split: if_splits elim!: at_work_emit)
qed

lemma final_on_run:
  assumes "wf_inv db \<Longrightarrow> open_run ws run db" and "\<And>x. run_ident (f x) = run_ident x" and "\<And>x. rn_status x \<noteq> Completed \<Longrightarrow> rn_status (f x) \<noteq> Completed"
  shows "final db (upd_run ws run f db)"
  by (rule at_work_final, rule at_work_run [OF at_work_start]) (use assms in auto)

lemma final_cancel:
  assumes "cancel_body rt cfg eid now ws run reason db = Inr db'" and "find_run ws run db = Some r" and "rn_status r \<notin> set TERMINAL"
  shows "final db db'"
proof (rule at_work_final)
  assume inv: "wf_inv db"
  have o: "open_run ws run db" using lease_open [OF inv assms(2)] assms(3) by (simp add: TERMINAL_def)
  let ?g = "\<lambda>s. s\<lparr>st_status := (if st_status s = StCompleted then StCompleted else StCancelled), st_updated_at := now\<rparr>"
  let ?steps = "upd_where (of_run ws run) ?g (w_steps db)"
  have "map step_ident ?steps = map step_ident (w_steps db)" by (rule map_upd_where_same) (simp add: step_ident_def)
  then have ids: "step_ident ` set ?steps = step_ident ` set (w_steps db)" unfolding list.set_map [symmetric] by simp
  have "at_work ws run db (db\<lparr>w_steps := ?steps\<rparr>)"
  proof -
    have a: "approvals_ok (db\<lparr>w_steps := ?steps\<rparr>)"
      unfolding approvals_ok_def
    proof (intro conjI ballI impI)
      show "distinct (map step_of (w_approvals (db\<lparr>w_steps := ?steps\<rparr>)))" using inv by (simp add: wf_inv_def approvals_ok_def)
    next
      fix p assume "p \<in> set (w_approvals (db\<lparr>w_steps := ?steps\<rparr>))"
      then show "step_of p \<in> step_ident ` set (w_steps (db\<lparr>w_steps := ?steps\<rparr>))" using inv ids by (simp add: wf_inv_def approvals_ok_def)
    next
      fix p s assume p: "p \<in> set (w_approvals (db\<lparr>w_steps := ?steps\<rparr>))" and s: "s \<in> set (w_steps (db\<lparr>w_steps := ?steps\<rparr>))"
        and so: "step_ident s = step_of p"
      from s obtain q where q: "q \<in> set (w_steps db)" "s = (if of_run ws run q then ?g q else q)" by (auto simp: in_upd_where)
      have "step_ident q = step_of p" using so q(2) by (simp add: step_ident_def split: if_splits)
      then have "st_status q \<in> approval_statuses p" using inv p q(1) by (simp add: wf_inv_def approvals_ok_def)
      then show "st_status s \<in> approval_statuses p" using q(2) by (auto simp: approval_statuses_def split: if_splits)
    qed
    have c: "completed_ok (db\<lparr>w_steps := ?steps\<rparr>)"
      using inv by (auto simp: wf_inv_def completed_ok_def in_upd_where of_run_def split: if_splits)
    have "kinds_ok (db\<lparr>w_steps := ?steps\<rparr>) = kinds_ok db" by (rule kinds_ok_cong) simp_all
    then show ?thesis using inv a c o by (simp add: at_work_def wf_inv_def run_keys_def open_run_def completed_kept_def)
  qed
  then have "at_work ws run db (upd_run ws run f (db\<lparr>w_steps := ?steps\<rparr>))" if "\<And>x. run_ident (f x) = run_ident x" "\<And>x. rn_status (f x) = Cancelled" for f
    using that by (intro at_work_run) simp_all
  moreover have "upd_run ws run f (db\<lparr>w_steps := ?steps\<rparr>) = (upd_run ws run f db)\<lparr>w_steps := ?steps\<rparr>" for f by (simp add: upd_run_def)
  ultimately have "at_work ws run db ((upd_run ws run f db)\<lparr>w_steps := ?steps\<rparr>)"
    if "\<And>x. run_ident (f x) = run_ident x" "\<And>x. rn_status (f x) = Cancelled" for f using that by simp
  then show "at_work ws run db db'"
    using assms(1) unfolding cancel_body_def bind_res_eq_Inr by (elim exE conjE at_work_emit) (simp add: idents)
qed

text \<open>Completing a run whose steps are all complete.\<close>

lemma complete_run:
  assumes w: "at_work ws run db0 db" and all: "list_all (\<lambda>s. of_run ws run s \<longrightarrow> st_status s = StCompleted) (w_steps db)"
    and id: "\<And>x. run_ident (f x) = run_ident x"
  shows "wf_inv (upd_run ws run f db) \<and> completed_kept db0 (upd_run ws run f db)"
proof -
  have runs: "w_runs (upd_run ws run f db) = upd_where (the_run ws run) f (w_runs db)" by (simp add: upd_run_def)
  have key: "rn_workspace_id (f x) = rn_workspace_id x" "rn_run_id (f x) = rn_run_id x" for x using id [of x] by (simp_all add: run_ident_def)
  have c: "completed_ok (upd_run ws run f db)"
    using w all unfolding at_work_def wf_inv_def completed_ok_def runs
    by (auto simp: in_upd_where upd_run_def the_run_def list_all_iff key split: if_splits)
  have a: "approvals_ok (upd_run ws run f db)" using w by (simp add: at_work_def wf_inv_def approvals_ok_def upd_run_def)
  have k: "kinds_ok (upd_run ws run f db)"
    using w kinds_ok_cong [OF map_run_ident_upd [OF id, of ws run db]] by (simp add: at_work_def wf_inv_def upd_run_def)
  have kept: "completed_kept db0 (upd_run ws run f db)"
    using w unfolding at_work_def completed_kept_def open_run_def runs by (fastforce simp: in_upd_where)
  show ?thesis using w c a k kept run_keys_upd [OF id] by (simp add: at_work_def wf_inv_def)
qed

lemma event_keeps:
  assumes "emit rt cfg eid now ws run ty p db = Inr db'"
  shows "wf_inv db' = wf_inv db \<and> completed_kept db0 db' = completed_kept db0 db"
proof -
  obtain e where e: "db' = db\<lparr>w_events := w_events db @ [e]\<rparr>" using emit_row [OF assms] by blast
  show ?thesis
    using kinds_ok_cong [of db' db] unfolding e by (simp add: wf_inv_def completed_kept_def run_keys_def approvals_ok_def completed_ok_def)
qed

lemma final_complete:
  assumes "complete_body rt cfg ids now ws run i output worker db = Inr db'" and "workable db ws run i"
  shows "final db db'"
proof (cases "holds_lease ws run worker db")
  case False
  then show ?thesis using assms(1) by (simp add: complete_body_def final_def completed_kept_def)
next
  case True
  show ?thesis
    unfolding final_def
  proof
    assume inv: "wf_inv db"
    let ?f = "\<lambda>out s. s\<lparr>st_status := StCompleted, st_output := Some out, st_updated_at := now\<rparr>"
    have step: "at_work ws run db (upd_step ws run i (?f out) db)" for out
      using workable_not_pending [OF inv assms(2)]
      by (intro at_work_step at_work_start inv holds_lease_open [OF inv True]) (simp_all add: idents approval_statuses_def)
    from assms(1) True obtain out db1 where e: "emit rt cfg (ids 0) now ws run ''step.completed'' (Obj [(''stepId'', Str i), (''summary'', safeSummary output)])
          (upd_step ws run i (?f out) db) = Inr db1"
      and rest: "(if list_all (\<lambda>s. of_run ws run s \<longrightarrow> st_status s = StCompleted) (w_steps db1) then
            (let outputs = outputs_of (run_steps ws run db1) in
             bind_res (boundedJson rt (Obj outputs) ''run output'' (stepOutputBytes (c_limits cfg) * 2)) (\<lambda>total.
               emit rt cfg (ids 1) now ws run ''run.completed'' (Obj [(''outputSteps'', Arr (map (Str \<circ> fst) outputs))])
                 (upd_run ws run (\<lambda>r. (unlease r)\<lparr>rn_status := Completed, rn_output := Some total, rn_completed_at := Some now, rn_updated_at := now\<rparr>) db1)))
          else Inr (upd_run ws run (\<lambda>r. (unlease r)\<lparr>rn_status := Running, rn_updated_at := now\<rparr>) db1)) = Inr db'"
      by (auto simp: complete_body_def bind_res_eq_Inr)
    have w1: "at_work ws run db db1" by (rule at_work_emit [OF e step])
    show "wf_inv db' \<and> completed_kept db db'"
    proof (cases "list_all (\<lambda>s. of_run ws run s \<longrightarrow> st_status s = StCompleted) (w_steps db1)")
      case False
      then have "db' = upd_run ws run (\<lambda>r. (unlease r)\<lparr>rn_status := Running, rn_updated_at := now\<rparr>) db1" using rest by (simp only: if_False sum.inject)
      moreover have "at_work ws run db \<dots>" by (rule at_work_run [OF w1]) (simp_all add: idents)
      ultimately show ?thesis by (simp add: at_work_def)
    next
      case all: True
      let ?f = "\<lambda>total r. (unlease r)\<lparr>rn_status := Completed, rn_output := Some total, rn_completed_at := Some now, rn_updated_at := now\<rparr>"
      from rest obtain p total where em: "emit rt cfg (ids 1) now ws run ''run.completed'' p (upd_run ws run (?f total) db1) = Inr db'"
        unfolding if_P [OF all] Let_def bind_res_eq_Inr by blast
      have "wf_inv (upd_run ws run (?f total) db1) \<and> completed_kept db (upd_run ws run (?f total) db1)"
        by (rule complete_run [OF w1 all]) (simp add: idents)
      then show ?thesis using event_keeps [OF em, of db] by simp
    qed
  qed
qed

lemma not_approval_step:
  assumes "wf_inv db" and "open_run ws run db" and "kind_at db ws run i = Some k" and "k \<noteq> Str ''approval''" and "\<And>x. step_ident (g x) = step_ident x"
  shows "at_work ws run db (upd_step ws run i g db)"
  using no_approvals [of db ws run i k] assms by (intro at_work_step at_work_start) (auto simp: wf_inv_def)

lemma final_wait:
  assumes "wait_timer_body rt cfg ids now ws run i due db = Inr db'" and "holds_lease ws run worker db"
    and "kind_at db ws run i = Some k" and "k \<noteq> Str ''approval''"
  shows "final db db'"
proof (rule at_work_final)
  assume inv: "wf_inv db"
  note step = not_approval_step [OF inv holds_lease_open [OF inv assms(2)] assms(3,4)]
  show "at_work ws run db db'"
    using assms(1) unfolding wait_timer_body_def bind_res_eq_Inr
    by (elim exE conjE at_work_emit) (intro at_work_run step; simp add: idents)
qed

lemma final_start_step:
  assumes "start_step_body rt cfg ids now t db = Inr db'"
    and "kind_at db (at_workspaceId t) (at_runId t) (at_stepId t) = Some k" and "k \<noteq> Str ''approval''"
  shows "final db db'"
proof (cases "holds_lease (at_workspaceId t) (at_runId t) (at_workerId t) db")
  case True
  show ?thesis
  proof (rule at_work_final)
    assume inv: "wf_inv db"
    note step = not_approval_step [OF inv holds_lease_open [OF inv True] assms(2,3)]
    show "at_work (at_workspaceId t) (at_runId t) db db'"
      using assms(1) True unfolding start_step_body_def Let_def
      by (simp only: not_True_eq_False if_False) (elim at_work_emit, intro at_work_run step; simp add: idents)
  qed
qed (use assms(1) in \<open>simp add: start_step_body_def Let_def final_def completed_kept_def\<close>)

lemma final_failure:
  assumes "failure_body rt cfg ids now t code msg b db = Inr db'" and "t \<in> set (w_attempts db)"
    and "holds_lease (at_workspaceId t) (at_runId t) (at_workerId t) db"
  shows "final db db'"
proof (rule at_work_final)
  assume inv: "wf_inv db"
  let ?ws = "at_workspaceId t" and ?run = "at_runId t" and ?i = "at_stepId t"
  have none: "step_of a \<noteq> (?ws, ?run, ?i)" if "a \<in> set (w_approvals d)" "w_approvals d = w_approvals db" for a d
    using attempt_no_approvals [of db ?ws ?run ?i a] inv assms(2) that by (force simp: wf_inv_def attempt_ident_def)
  have step: "at_work ?ws ?run db (upd_step ?ws ?run ?i g d)"
    if "at_work ?ws ?run db d" "w_approvals d = w_approvals db" "\<And>x. step_ident (g x) = step_ident x" for g d
    using none that by (intro at_work_step) auto
  have w1: "at_work ?ws ?run db db1 \<and> w_approvals db1 = w_approvals db"
    if "emit rt cfg e now ?ws ?run ty p (upd_step ?ws ?run ?i g db) = Inr db1" "\<And>x. step_ident (g x) = step_ident x" for e ty p g db1
    using at_work_emit [OF that(1) step [OF at_work_start [OF inv holds_lease_open [OF inv assms(3)]] _ that(2)]] emit_row [OF that(1)]
    by (auto simp: upd_step_def)
  show "at_work ?ws ?run db db'"
    using assms(1) unfolding failure_body_def Let_def bind_res_eq_Inr
  proof (elim exE conjE)
    fix err db1
    assume "emit rt cfg (ids 0) now ?ws ?run ''step.failed'' (Obj [(''stepId'', Str ?i), (''attempt'', Num (of_nat (at_attempt t))), (''code'', Str code), (''retryable'', Bool b)])
        (upd_step ?ws ?run ?i (\<lambda>s. s\<lparr>st_error := Some err, st_updated_at := now\<rparr>) db) = Inr db1"
    then have w: "at_work ?ws ?run db db1" "w_approvals db1 = w_approvals db" using w1 by (simp_all add: idents)
    assume "(if b then
          bind_res (addMs rt now (retry_delay rt (at_stepDef t) (at_attempt t))) (\<lambda>nextAt.
          bind_res (emit rt cfg (ids 1) now ?ws ?run ''step.retry_scheduled'' (Obj [(''stepId'', Str ?i), (''attempt'', Num (of_nat (at_attempt t))), (''nextAt'', Str nextAt)])
            (upd_run ?ws ?run (\<lambda>r. (unlease r)\<lparr>rn_status := WaitingRetry, rn_updated_at := now\<rparr>)
              (upd_step ?ws ?run ?i (\<lambda>s. s\<lparr>st_status := StWaitingRetry, st_next_at := Some nextAt, st_updated_at := now\<rparr>) db1))) (\<lambda>db2.
            emit rt cfg (ids 2) now ?ws ?run ''run.suspended'' (Obj [(''reason'', Str ''retry''), (''stepId'', Str ?i)]) db2))
        else
          bind_res (error_payload rt cfg (Obj [(''code'', Str code), (''message'', Str msg)])) (\<lambda>err2.
            emit rt cfg (ids 1) now ?ws ?run ''run.failed'' (Obj [(''code'', Str code)])
              (upd_run ?ws ?run (\<lambda>r. (unlease r)\<lparr>rn_status := Failed, rn_error := Some err2, rn_completed_at := Some now, rn_updated_at := now\<rparr>)
                (upd_step ?ws ?run ?i (\<lambda>s. s\<lparr>st_status := StFailed, st_updated_at := now\<rparr>) db1)))) = Inr db'"
    then show ?thesis
      by (auto simp: bind_res_eq_Inr idents split: if_splits intro!: at_work_run step w elim!: at_work_emit)
  qed
qed

lemma final_request:
  assumes "request_approval_body rt cfg ids now q db = Inr db'" and "holds_lease (ap_workspace_id q) (ap_run_id q) worker db"
    and "kind_at db (ap_workspace_id q) (ap_run_id q) (ap_step_id q) = Some (Str ''approval'')"
    and "unrequested db (ap_workspace_id q) (ap_run_id q) (ap_step_id q)"
  shows "final db db'"
proof (rule at_work_final)
  assume inv: "wf_inv db"
  let ?ws = "ap_workspace_id q" and ?run = "ap_run_id q" and ?i = "ap_step_id q"
  let ?add = "\<lambda>d. if list_ex (the_approval ?ws ?run (ap_approval_id q)) (w_approvals db) then d else d\<lparr>w_approvals := w_approvals d @ [q]\<rparr>"
  have none: "step_of a \<noteq> step_of q" if "a \<in> set (w_approvals db)" for a
    using unrequested_no_approval [OF _ assms(4) that] inv by (simp add: wf_inv_def step_of_def)
  have row: "step_of q \<in> step_ident ` set (w_steps db)"
    using assms(4) unfolding unrequested_def step_of_def step_ident_iff [symmetric] by (metis image_eqI)
  have add: "at_work ?ws ?run db (?add (upd_step ?ws ?run ?i g db))"
    if g: "\<And>x. step_ident (g x) = step_ident x" "\<And>x. st_status (g x) = StWaitingApproval" for g
  proof -
    have w: "at_work ?ws ?run db (upd_step ?ws ?run ?i g db)"
      using none g by (intro at_work_step at_work_start inv holds_lease_open [OF inv assms(2)]) (auto simp: step_of_def)
    have "map step_ident (upd_where (the_step ?ws ?run ?i) g (w_steps db)) = map step_ident (w_steps db)" by (rule map_upd_where_same) (rule g)
    then have ids: "step_ident ` set (upd_where (the_step ?ws ?run ?i) g (w_steps db)) = step_ident ` set (w_steps db)"
      unfolding list.set_map [symmetric] by simp
    have st: "st_status s = StWaitingApproval" if "s \<in> set (upd_where (the_step ?ws ?run ?i) g (w_steps db))" "step_ident s = step_of q" for s
    proof -
      from that(1) obtain x where x: "s = (if the_step ?ws ?run ?i x then g x else x)" by (auto simp: in_upd_where)
      have "the_step ?ws ?run ?i s" using that(2) by (simp add: step_of_def step_ident_iff)
      then have "s = g x" using x by (auto split: if_splits)
      then show ?thesis using g(2) by simp
    qed
    let ?d = "(upd_step ?ws ?run ?i g db)\<lparr>w_approvals := w_approvals db @ [q]\<rparr>"
    have a: "approvals_ok ?d"
      using w none row ids st unfolding at_work_def wf_inv_def approvals_ok_def upd_step_def
      by (auto simp: approval_statuses_def)
    have "kind_at ?d = kind_at db" by (rule kind_at_cong) (simp_all add: upd_step_def)
    then have k: "kinds_ok ?d" using inv assms(3) by (auto simp: wf_inv_def kinds_ok_def upd_step_def)
    show ?thesis
      using w a k by (simp add: at_work_def wf_inv_def open_run_def completed_kept_def completed_ok_def run_keys_def upd_step_def)
  qed
  have comm: "upd_step ?ws ?run ?i g (?add db) = ?add (upd_step ?ws ?run ?i g db)" for g by (simp add: upd_step_def)
  show "at_work ?ws ?run db db'"
    using assms(1) unfolding request_approval_body_def Let_def bind_res_eq_Inr comm
    by (elim exE conjE at_work_emit) (intro at_work_run add; simp add: idents)
qed

section \<open>Appended rows\<close>

lemma kind_at_Some:
  assumes "kind_at db ws run i = Some k"
  obtains wid ver d s where "List.find (\<lambda>(w, r, _, _). w = ws \<and> r = run) (map run_ident (w_runs db)) = Some (ws, run, wid, ver)"
    "find_definition wid ver db = Inr d" "step_definition i (df_definition d) = Some s" "k = get s ''kind''"
  using assms by (fastforce simp: kind_at_def split: option.splits sum.splits dest: find_SomeD)

lemma kind_at_grows:
  assumes "map run_ident (w_runs db') = map run_ident (w_runs db) @ rs" and "w_definitions db' = w_definitions db @ ds"
    and "kind_at db ws run i = Some k"
  shows "kind_at db' ws run i = Some k"
proof -
  from kind_at_Some [OF assms(3)] obtain wid ver d s where
    r: "List.find (\<lambda>(w, r, _, _). w = ws \<and> r = run) (map run_ident (w_runs db)) = Some (ws, run, wid, ver)"
    and d: "find_definition wid ver db = Inr d" "step_definition i (df_definition d) = Some s" "k = get s ''kind''" by metis
  have "find_definition wid ver db' = Inr d"
    using d(1) by (auto simp: find_definition_def assms(2) find_append split: option.splits)
  then show ?thesis unfolding kind_at_def assms(1) find_append r using d by simp
qed

lemma kinds_ok_grows:
  assumes "kinds_ok db" and "map run_ident (w_runs db') = map run_ident (w_runs db) @ rs" and "w_definitions db' = w_definitions db @ ds"
    and "w_approvals db' = w_approvals db" and "w_attempts db' = w_attempts db"
  shows "kinds_ok db'"
  using assms(1) kind_at_grows [OF assms(2,3)] unfolding kinds_ok_def assms(4,5) by blast

lemma final_define: "final db (db\<lparr>w_definitions := w_definitions db @ [d]\<rparr>)"
  using kinds_ok_grows [of db "db\<lparr>w_definitions := w_definitions db @ [d]\<rparr>" "[]" "[d]"]
  by (simp add: final_def wf_inv_def completed_kept_def run_keys_def approvals_ok_def completed_ok_def)

lemma approval_run_exists: "kinds_ok db \<Longrightarrow> a \<in> set (w_approvals db) \<Longrightarrow> (ap_workspace_id a, ap_run_id a) \<in> set (run_keys db)"
  by (fastforce simp: kinds_ok_def run_keys_def run_ident_def elim!: kind_at_Some dest!: find_SomeD)

lemma new_steps_run: "s \<in> set (new_steps ws run now d) \<Longrightarrow> st_workspace_id s = ws \<and> st_run_id s = run"
  by (auto simp: new_steps_def new_step_def)

lemma final_create:
  assumes "create_run rt cfg eid now r (df_definition d) db = Inr db'" and "find_run (rn_workspace_id r) (rn_run_id r) db = None" and "rn_status r = Queued"
  shows "final db db'"
proof -
  let ?ss = "new_steps (rn_workspace_id r) (rn_run_id r) now (df_definition d)"
  let ?d = "db\<lparr>w_runs := w_runs db @ [r], w_steps := w_steps db @ ?ss\<rparr>"
  have new: "(rn_workspace_id r, rn_run_id r) \<notin> set (run_keys db)"
    using assms(2) by (auto simp: find_run_def run_keys_def the_run_def find_None_iff)
  have "wf_inv ?d \<and> completed_kept db ?d" if inv: "wf_inv db"
  proof -
    have "approvals_ok ?d"
      unfolding approvals_ok_def
    proof (intro conjI ballI impI)
      show "distinct (map step_of (w_approvals ?d))" using inv by (simp add: wf_inv_def approvals_ok_def)
    next
      fix a assume "a \<in> set (w_approvals ?d)"
      then show "step_of a \<in> step_ident ` set (w_steps ?d)" using inv by (auto simp: wf_inv_def approvals_ok_def)
    next
      fix a s assume a: "a \<in> set (w_approvals ?d)" and s: "s \<in> set (w_steps ?d)" "step_ident s = step_of a"
      have "(ap_workspace_id a, ap_run_id a) \<noteq> (rn_workspace_id r, rn_run_id r)"
        using approval_run_exists [of db a] inv a new by (auto simp: wf_inv_def)
      then have "s \<notin> set ?ss" using s(2) new_steps_run [of s] by (auto simp: step_ident_def step_of_def)
      then show "st_status s \<in> approval_statuses a" using inv a s by (auto simp: wf_inv_def approvals_ok_def)
    qed
    moreover have "kinds_ok ?d" using inv kinds_ok_grows [of db ?d "[run_ident r]" "[]"] by (simp add: wf_inv_def)
    moreover have "completed_ok ?d"
      unfolding completed_ok_def
    proof (intro ballI impI)
      fix q s assume q: "q \<in> set (w_runs ?d)" "rn_status q = Completed" and s: "s \<in> set (w_steps ?d)" "of_run (rn_workspace_id q) (rn_run_id q) s"
      have q': "q \<in> set (w_runs db)" using q assms(3) by auto
      then have "(rn_workspace_id q, rn_run_id q) \<in> set (run_keys db)" by (auto simp: run_keys_def)
      then have "s \<notin> set ?ss" using new s(2) new_steps_run [of s] by (auto simp: of_run_def)
      then show "st_status s = StCompleted" using inv q q' s by (auto simp: wf_inv_def completed_ok_def)
    qed
    ultimately show ?thesis using inv new by (simp add: wf_inv_def run_keys_def completed_kept_def)
  qed
  then show ?thesis using event_keeps [of rt cfg eid now _ _ _ _ ?d db' db] assms(1) by (auto simp: final_def create_run_def)
qed

lemma final_begin:
  assumes "kind_at db (at_workspaceId t) (at_runId t) (at_stepId t) = Some k" and "k \<noteq> Str ''approval''"
  shows "final db (begin_attempt t db)"
proof -
  have "kind_at (begin_attempt t db) = kind_at db" by (rule kind_at_cong) (simp_all add: begin_attempt_def)
  then have "kinds_ok db \<Longrightarrow> kinds_ok (begin_attempt t db)" using assms by (auto simp: kinds_ok_def begin_attempt_def)
  then show ?thesis
    by (simp add: final_def wf_inv_def completed_kept_def run_keys_def approvals_ok_def completed_ok_def begin_attempt_def)
qed

lemma final_volatile:
  assumes "map attempt_ident ts = map attempt_ident (w_attempts db)"
  shows "final db (db\<lparr>w_attempts := ts, w_active := act\<rparr>)"
proof -
  have "attempt_ident ` set ts = attempt_ident ` set (w_attempts db)" using assms by (metis list.set_map)
  then have "kinds_ok (db\<lparr>w_attempts := ts, w_active := act\<rparr>) = kinds_ok db" by (intro kinds_ok_cong) simp_all
  then show ?thesis by (simp add: final_def wf_inv_def completed_kept_def run_keys_def approvals_ok_def completed_ok_def)
qed

lemma final_progress:
  assumes "note_progress rt cfg ids now r s db = (db', res)" and "find_run (rn_workspace_id r) (rn_run_id r) db = Some r" and "rn_status r \<notin> set TERMINAL"
  shows "final db db'"
proof -
  have "final db db1" if "emit rt cfg e now w q ty p (upd_run (rn_workspace_id r) (rn_run_id r) f db) = Inr db1"
      "\<And>x. run_ident (f x) = run_ident x" "\<And>x. rn_status x \<noteq> Completed \<Longrightarrow> rn_status (f x) \<noteq> Completed" for e w q ty p f db1
  proof (rule at_work_final)
    assume inv: "wf_inv db"
    have "open_run (rn_workspace_id r) (rn_run_id r) db" using lease_open [OF inv assms(2)] assms(3) by (simp add: TERMINAL_def)
    then show "at_work (rn_workspace_id r) (rn_run_id r) db db1"
      by (intro at_work_emit [OF that(1)] at_work_run [OF at_work_start [OF inv]] that(2,3))
  qed
  moreover have "final db db" by (simp add: final_def completed_kept_def)
  ultimately show ?thesis
    using assms(1) by (auto simp: note_progress_def Let_def transaction_def idents split: if_splits sum.splits)
qed

interpretation finality: wf_bodies rt cfg final for rt cfg
proof unfold_locales
  fix db show "final db db" by (simp add: final_def completed_kept_def)
next
  fix db db' db'' assume "final db db'" "final db' db''"
  then show "final db db''" by (auto simp: final_def completed_kept_def)
next
  fix eid now ws run ty p db db' assume "emit rt cfg eid now ws run ty p db = Inr db'"
  from event_keeps [OF this, of db] show "final db db'" by (simp add: final_def completed_kept_def)
next
  fix r :: run_row and db :: workflow_db and ow ex now assume r: "r \<in> set (w_runs db)" "rn_status r \<notin> set TERMINAL"
  have "open_run (rn_workspace_id r) (rn_run_id r) db" if "wf_inv db"
  proof -
    have "q = r" if "q \<in> set (w_runs db)" "the_run (rn_workspace_id r) (rn_run_id r) q" for q
      using \<open>wf_inv db\<close> r that by (auto simp: wf_inv_def run_keys_def distinct_map the_run_def dest: inj_onD)
    then show ?thesis using r(2) by (auto simp: open_run_def TERMINAL_def)
  qed
  then show "final db (upd_run (rn_workspace_id r) (rn_run_id r) (\<lambda>r. r\<lparr>rn_lease_owner := ow, rn_lease_expires_at := ex, rn_updated_at := now\<rparr>) db)"
    by (rule final_on_run) (simp_all add: idents)
next
  fix ws run worker db now assume "holds_lease ws run worker db"
  then show "final db (release now ws run worker db)"
    unfolding release_def by (intro final_on_run) (auto simp: idents intro: holds_lease_open)
next
  fix f :: effect_row and db :: workflow_db
  have "kinds_ok (db\<lparr>w_effects := w_effects db @ [f]\<rparr>) = kinds_ok db" by (rule kinds_ok_cong) simp_all
  then show "final db (db\<lparr>w_effects := w_effects db @ [f]\<rparr>)"
    by (simp add: final_def wf_inv_def completed_kept_def run_keys_def approvals_ok_def completed_ok_def)
qed (erule (2) final_create | erule (2) final_cancel | erule (2) final_expire | erule (3) final_approve | erule (2) final_progress
    | erule (1) final_complete | erule (3) final_wait | erule (3) final_request | erule (2) final_start_step | erule (1) final_begin
    | erule (2) final_failure | rule final_define | erule final_volatile)+

lemma empty_wf_inv: "wf_inv empty_workflows"
  by (simp add: wf_inv_def run_keys_def approvals_ok_def kinds_ok_def completed_ok_def empty_workflows_def)

lemma reachable_wf_inv: "wf_inv (run_wf rt cfg ops empty_workflows)"
  using finality.R_run_wf [of empty_workflows rt cfg ops] empty_wf_inv by (simp add: final_def)

end
