(* ===== verification/DurableRuns.thy ===== *)
theory DurableRuns
  imports DurableFinal
begin

text \<open>
  What the durable runtime promises about its runs: effects are committed once, completed runs
  are final, work that can be done is claimed, a tick ends, and definitions are well formed.
\<close>

section \<open>A small configuration and its runs\<close>

definition demo_runtime :: runtime where
  "demo_runtime = sample_runtime\<lparr>sha256_hex := (\<lambda>_. ''h''), num_str := (\<lambda>_. ''1'')\<rparr>"

definition demo_limits :: wf_limits where
  "demo_limits = \<lparr>workflowDefinitionBytes = 2000, workflowInputBytes = 100, stepOutputBytes = 100,
     errorPayloadBytes = 500, eventPayloadBytes = 500, historyEventCount = 50, runListPageSize = 10, maxSteps = 4,
     maxAttempts = 5, timerHorizonMs = 10, approvalWaitMs = 10\<rparr>"

definition demo_config :: config where
  "demo_config = \<lparr>c_limits = demo_limits, c_leaseMs = 5, c_handlers = [(''h@1'', \<lparr>hn_id = ''h'', hn_version = ''1'', hn_capabilities = []\<rparr>)]\<rparr>"

definition demo_step :: "string \<Rightarrow> string \<Rightarrow> js" where
  "demo_step i kind = Obj ([(''id'', Str i), (''kind'', Str kind), (''timeoutMs'', Num 1), (''riskClass'', Str ''read-only'')] @
     (if kind \<in> {''timer'', ''approval''} then [] else [(''handler'', Obj [(''id'', Str ''h''), (''version'', Str ''1'')])]))"

definition demo_definition :: "js list \<Rightarrow> js" where
  "demo_definition steps = Obj [(''schemaVersion'', Str ''1.0.0''), (''id'', Str ''w''), (''version'', Str ''1''), (''name'', Str ''n''),
     (''description'', Str ''d''), (''steps'', Arr steps)]"

definition demo_ids :: "string \<Rightarrow> nat \<Rightarrow> string" where
  "demo_ids p n = p @ show_nat n"

definition demo_start :: "js list \<Rightarrow> wf_op list" where
  "demo_start steps = [Register ''1'' (demo_definition steps), Start ''e'' ''2'' ''ws'' ''w'' ''1'' ''r'' (Obj []) None None,
     Tick (demo_ids ''t'') ''a'' ''3'' ''k'']"

section \<open>Effects and finality\<close>

text \<open>C15: a committed effect is final. Once an effect is recorded under a workspace and idempotency key, every later
  state has it, unchanged and as the only one with that key, so no replay, retry, second worker or conflicting
  handler can replace or duplicate it.\<close>

theorem committed_effect_is_final:
  assumes "f \<in> set (w_effects (run_wf rt cfg ops empty_workflows))"
  shows "find_effect (fx_workspace_id f) (fx_idempotency_key f) (run_wf rt cfg ops' (run_wf rt cfg ops empty_workflows)) = Some f"
proof -
  let ?db = "run_wf rt cfg ops empty_workflows" and ?db' = "run_wf rt cfg ops' (run_wf rt cfg ops empty_workflows)"
  have "?db' = run_wf rt cfg (ops @ ops') empty_workflows" by (simp add: run_wf_def)
  then have "distinct (effect_keys ?db')" using reachable_keys_ok [of rt cfg "ops @ ops'"] by (simp add: keys_ok_def)
  moreover have "f \<in> set (w_effects ?db')"
    using durable.R_run_wf [of ?db rt cfg ops'] assms by (auto simp: grows_def append_only_def)
  ultimately show ?thesis
    unfolding find_effect_def effect_keys_def using find_unique [where k = "\<lambda>f. (fx_workspace_id f, fx_idempotency_key f)"] by fastforce
qed

theorem committed_effect_is_final_witness:
  "\<exists>f. f \<in> set (w_effects (run_wf demo_runtime demo_config (demo_start [demo_step ''s'' ''activity''] @ [Commit ''4'' 0 ''k'' ''fp'' (Obj [])]) empty_workflows)) \<and>
     find_effect (fx_workspace_id f) (fx_idempotency_key f) (run_wf demo_runtime demo_config [Commit ''5'' 0 ''k'' ''fp'' (Obj [(''x'', Null)])]
       (run_wf demo_runtime demo_config (demo_start [demo_step ''s'' ''activity''] @ [Commit ''4'' 0 ''k'' ''fp'' (Obj [])]) empty_workflows)) = Some f"
proof -
  have "w_effects (run_wf demo_runtime demo_config (demo_start [demo_step ''s'' ''activity''] @ [Commit ''4'' 0 ''k'' ''fp'' (Obj [])]) empty_workflows) \<noteq> []"
    by code_simp
  then show ?thesis using committed_effect_is_final [of _ demo_runtime demo_config] by (metis list.set_intros(1) neq_Nil_conv)
qed

text \<open>C17: a completed run is final. Once a run is completed, no later call changes its row: not a cancellation, a late
  handler, a second worker, an approval or a time-out.\<close>

theorem completed_run_is_final:
  assumes "r \<in> set (w_runs (run_wf rt cfg ops empty_workflows))" and "rn_status r = Completed"
  shows "find_run (rn_workspace_id r) (rn_run_id r) (run_wf rt cfg ops' (run_wf rt cfg ops empty_workflows)) = Some r"
proof -
  let ?db' = "run_wf rt cfg ops' (run_wf rt cfg ops empty_workflows)"
  have "r \<in> set (w_runs ?db')"
    using finality.R_run_wf [of "run_wf rt cfg ops empty_workflows" rt cfg ops'] reachable_wf_inv [of rt cfg ops] assms
    by (simp add: final_def completed_kept_def)
  moreover have "distinct (run_keys ?db')"
    using reachable_wf_inv [of rt cfg "ops @ ops'"] by (simp add: run_wf_def wf_inv_def)
  ultimately show ?thesis
    unfolding find_run_def run_keys_def the_run_def using find_unique [where k = "\<lambda>r. (rn_workspace_id r, rn_run_id r)"] by fastforce
qed

theorem completed_run_is_final_witness:
  "\<exists>r. r \<in> set (w_runs (run_wf demo_runtime demo_config (demo_start [demo_step ''s'' ''activity''] @ [Finish (demo_ids ''f'') ''4'' 0 (Obj [])]) empty_workflows)) \<and>
     rn_status r = Completed \<and> find_run (rn_workspace_id r) (rn_run_id r) (run_wf demo_runtime demo_config [Cancel ''c'' ''5'' ''ws'' ''r'' Null]
       (run_wf demo_runtime demo_config (demo_start [demo_step ''s'' ''activity''] @ [Finish (demo_ids ''f'') ''4'' 0 (Obj [])]) empty_workflows)) = Some r"
proof -
  have "list_ex (\<lambda>r. rn_status r = Completed)
      (w_runs (run_wf demo_runtime demo_config (demo_start [demo_step ''s'' ''activity''] @ [Finish (demo_ids ''f'') ''4'' 0 (Obj [])]) empty_workflows))"
    by code_simp
  then show ?thesis using completed_run_is_final [of _ demo_runtime demo_config] unfolding list_ex_iff by blast
qed

section \<open>Approvals\<close>

text \<open>Granting an approval puts the run back to work whatever its status was. A run that was cancelled while the
  approval was pending is running again afterwards, since neither cancelling closes its approvals nor resolving one
  looks at the run.\<close>

theorem approval_revives_any_run:
  assumes "find_run ws run db = Some r"
    and "resolveApproval rt cfg ids now ws run aid actor ''approved'' fp db = (db', Inr (Resolved ''approved''))"
  shows "\<exists>r'. find_run ws run db' = Some r' \<and> rn_status r' = Running \<and> rn_completed_at r' = rn_completed_at r"
proof -
  obtain a where a: "List.find (the_approval ws run aid) (w_approvals db) = Some a"
    and body: "approve_body rt cfg ids now actor ''approved'' a db = Inr db'"
    using assms(2) by (auto simp: resolveApproval_def split: sum.splits option.splits if_splits)
  have key: "ap_workspace_id a = ws" "ap_run_id a = run"
    using a by (auto simp: the_approval_def find_Some_iff)
  define db1 where "db1 = upd_step ws run (ap_step_id a) (\<lambda>s. s\<lparr>st_status := StApprovalResolved, st_updated_at := now\<rparr>)
    (upd_approval ws run aid (\<lambda>p. p\<lparr>ap_state := ''approved'', ap_resolved_at := Some now, ap_actor_id := Some actor, ap_decision := Some ''approved''\<rparr>) db)"
  have aid: "ap_approval_id a = aid" using a by (auto simp: the_approval_def find_Some_iff)
  have "appendEvent rt (c_limits cfg) (ids 1) now ws run ''approval.resolved''
      (Obj [(''approvalId'', Str aid), (''stepId'', Str (ap_step_id a)), (''decision'', Str ''approved'')]) actor
      (upd_run ws run (\<lambda>r. (unlease r)\<lparr>rn_status := Running, rn_updated_at := now\<rparr>) db1) = Inr db'"
    using body by (simp add: approve_body_def key aid db1_def Let_def)
  then obtain e where "db' = (upd_run ws run (\<lambda>r. (unlease r)\<lparr>rn_status := Running, rn_updated_at := now\<rparr>) db1)\<lparr>w_events := e\<rparr>"
    using appendEvent_row by blast
  moreover have "find_run ws run db1 = Some r" using assms(1) by (simp add: db1_def find_run_def upd_step_def upd_approval_def)
  ultimately show ?thesis
    using find_run_upd [of "\<lambda>r. (unlease r)\<lparr>rn_status := Running, rn_updated_at := now\<rparr>" ws run db1]
    by (simp add: run_ident_def unlease_def) (simp add: find_run_def)
qed

definition demo_cancelled :: workflow_db where
  "demo_cancelled = run_wf demo_runtime demo_config (demo_start [demo_step ''s'' ''approval''] @ [Cancel ''c'' ''4'' ''ws'' ''r'' Null]) empty_workflows"

theorem approval_revives_any_run_witness:
  "\<exists>r db' r'. find_run ''ws'' ''r'' demo_cancelled = Some r \<and> rn_status r = Cancelled \<and>
     resolveApproval demo_runtime demo_config (demo_ids ''q'') ''5'' ''ws'' ''r'' ''a'' ''me'' ''approved'' ''sha256:h'' demo_cancelled = (db', Inr (Resolved ''approved'')) \<and>
     find_run ''ws'' ''r'' db' = Some r' \<and> rn_status r' = Running"
proof -
  have "map_option rn_status (find_run ''ws'' ''r'' demo_cancelled) = Some Cancelled" by code_simp
  moreover have "snd (resolveApproval demo_runtime demo_config (demo_ids ''q'') ''5'' ''ws'' ''r'' ''a'' ''me'' ''approved'' ''sha256:h'' demo_cancelled)
      = Inr (Resolved ''approved'')" by code_simp
  ultimately obtain r db' where
      r: "find_run ''ws'' ''r'' demo_cancelled = Some r" "rn_status r = Cancelled" and
      d: "resolveApproval demo_runtime demo_config (demo_ids ''q'') ''5'' ''ws'' ''r'' ''a'' ''me'' ''approved'' ''sha256:h'' demo_cancelled = (db', Inr (Resolved ''approved''))"
    by (cases "resolveApproval demo_runtime demo_config (demo_ids ''q'') ''5'' ''ws'' ''r'' ''a'' ''me'' ''approved'' ''sha256:h'' demo_cancelled") auto
  from approval_revives_any_run [OF r(1) d] r d show ?thesis by blast
qed

section \<open>Progress\<close>

definition claim_key :: "run_row \<Rightarrow> string list" where
  "claim_key r = [rn_updated_at r, rn_run_id r]"

interpretation oldest_first: total_preorder "\<lambda>a b. [rn_updated_at a, rn_run_id a] \<le> [rn_updated_at b, rn_run_id b]"
  by unfold_locales (auto simp: linear intro: order_trans)

lemma find_first_sorted:
  "List.find P xs = Some q \<Longrightarrow> sorted_wrt le xs \<Longrightarrow> le q q \<Longrightarrow> r \<in> set xs \<Longrightarrow> P r \<Longrightarrow> le q r"
  by (induction xs) (auto split: if_splits)

text \<open>Which runs wait for a worker, said without the claim's own conditions. A run is open to workers when its status is
  queued, running or waiting for a retry or a timer, so a run whose worker died counts, and its lease, if any, has ended:
  as text and, where both are dates, as dates.\<close>

definition lease_ended :: "runtime \<Rightarrow> string \<Rightarrow> run_row \<Rightarrow> bool" where
  "lease_ended rt now r \<longleftrightarrow> (\<forall>w t. rn_lease_owner r = Some w \<longrightarrow> rn_lease_expires_at r = Some t \<longrightarrow> t \<le> now \<and>
     (w \<noteq> [] \<longrightarrow> t \<noteq> [] \<longrightarrow> (\<forall>x y. date_parse rt t = Some x \<longrightarrow> date_parse rt now = Some y \<longrightarrow> x \<le> y)))"

definition waits :: "runtime \<Rightarrow> string \<Rightarrow> workflow_db \<Rightarrow> run_row \<Rightarrow> bool" where
  "waits rt now db r \<longleftrightarrow> r \<in> set (w_runs db) \<and> rn_status r \<in> {Queued, Running, WaitingRetry, WaitingTimer} \<and> lease_ended rt now r"

text \<open>A step of the run that is not finished, with none before it in the run's order.\<close>

definition unfinished_step :: "workflow_db \<Rightarrow> run_row \<Rightarrow> step_row \<Rightarrow> bool" where
  "unfinished_step db r s \<longleftrightarrow> s \<in> set (w_steps db) \<and> st_workspace_id s = rn_workspace_id r \<and> st_run_id s = rn_run_id r \<and>
     st_status s \<notin> {StCompleted, StCancelled, StFailed}"

definition current_step :: "workflow_db \<Rightarrow> run_row \<Rightarrow> step_row \<Rightarrow> bool" where
  "current_step db r s \<longleftrightarrow> unfinished_step db r s \<and> (\<forall>s'. unfinished_step db r s' \<longrightarrow> st_step_index s \<le> st_step_index s')"

text \<open>A step can be worked on unless it waits for an approval, or for a retry or a timer that is not due. A step left
  running counts.\<close>

definition workable_now :: "runtime \<Rightarrow> string \<Rightarrow> step_row \<Rightarrow> bool" where
  "workable_now rt now s \<longleftrightarrow> st_status s \<in> {StQueued, StRunning, StApprovalResolved} \<or>
     st_status s \<in> {StWaitingRetry, StWaitingTimer} \<and>
       (\<forall>t. st_next_at s = Some t \<longrightarrow> t \<noteq> [] \<longrightarrow> (\<exists>x y. date_parse rt t = Some x \<and> date_parse rt now = Some y \<and> x \<le> y))"

definition has_work :: "runtime \<Rightarrow> string \<Rightarrow> workflow_db \<Rightarrow> run_row \<Rightarrow> bool" where
  "has_work rt now db r \<longleftrightarrow> waits rt now db r \<and> (\<exists>s. current_step db r s) \<and> (\<forall>s. current_step db r s \<longrightarrow> workable_now rt now s)"

lemma by_index: "total_preorder (\<lambda>a b. st_step_index a \<le> st_step_index b)"
  by unfold_locales auto

lemma step_is_current:
  assumes "List.find (\<lambda>s. st_status s \<notin> {StCompleted, StCancelled, StFailed}) (run_steps (rn_workspace_id r) (rn_run_id r) db) = Some s"
  shows "current_step db r s"
proof -
  let ?le = "\<lambda>a b. st_step_index a \<le> st_step_index b" and ?steps = "run_steps (rn_workspace_id r) (rn_run_id r) db"
  have rows: "x \<in> set ?steps \<longleftrightarrow> x \<in> set (w_steps db) \<and> st_workspace_id x = rn_workspace_id r \<and> st_run_id x = rn_run_id r" for x
    by (auto simp: run_steps_def of_run_def)
  have "sorted_wrt ?le ?steps" unfolding run_steps_def by (rule total_preorder.sorted_order_by [OF by_index])
  then have "x \<in> set ?steps \<Longrightarrow> st_status x \<notin> {StCompleted, StCancelled, StFailed} \<Longrightarrow> st_step_index s \<le> st_step_index x" for x
    using find_first_sorted [OF assms, of ?le] by simp
  then show ?thesis using find_SomeD [OF assms] by (auto simp: current_step_def unfinished_step_def rows)
qed

lemma nextRunnableStep_current:
  "nextRunnableStep rt now r db = Some s \<Longrightarrow> current_step db r s \<and> workable_now rt now s"
proof -
  assume "nextRunnableStep rt now r db = Some s"
  then have found: "List.find (\<lambda>s. st_status s \<notin> {StCompleted, StCancelled, StFailed}) (run_steps (rn_workspace_id r) (rn_run_id r) db) = Some s"
      and st: "st_status s = StWaitingRetry \<longrightarrow> isDue rt (st_next_at s) now" "st_status s = StWaitingTimer \<longrightarrow> isDue rt (st_next_at s) now"
        "st_status s \<noteq> StWaitingApproval"
    unfolding nextRunnableStep_def by (auto split: option.splits if_splits)
  have "st_status s \<notin> {StCompleted, StCancelled, StFailed}" using find_SomeD [OF found] by simp
  moreover have "isDue rt (st_next_at s) now \<longleftrightarrow>
      (\<forall>t. st_next_at s = Some t \<longrightarrow> t \<noteq> [] \<longrightarrow> (\<exists>x y. date_parse rt t = Some x \<and> date_parse rt now = Some y \<and> x \<le> y))"
    by (auto simp: isDue_def date_le_def split: option.splits)
  ultimately have "workable_now rt now s" using st by (cases "st_status s") (auto simp: workable_now_def)
  then show ?thesis using step_is_current [OF found] by blast
qed

lemma current_workable_runnable:
  assumes "current_step db r s" and "\<And>s. current_step db r s \<Longrightarrow> workable_now rt now s"
  shows "nextRunnableStep rt now r db \<noteq> None"
proof -
  let ?open = "\<lambda>s. st_status s \<notin> {StCompleted, StCancelled, StFailed}"
  have "s \<in> set (run_steps (rn_workspace_id r) (rn_run_id r) db)" "?open s"
    using assms(1) by (auto simp: current_step_def unfinished_step_def run_steps_def of_run_def)
  then obtain u where u: "List.find ?open (run_steps (rn_workspace_id r) (rn_run_id r) db) = Some u" by (meson find_NoneD option.exhaust)
  have "workable_now rt now u" using assms(2) step_is_current [OF u] by blast
  then show ?thesis unfolding nextRunnableStep_def u
    by (auto simp: workable_now_def isDue_def date_le_def split: option.splits)
qed

lemma lease_ended_iff: "lease_ended rt now r \<longleftrightarrow> \<not> lease_live rt now r \<and> lease_free now r"
  by (auto simp: lease_ended_def lease_live_def lease_free_def not_less split: option.splits)

definition claimable_run :: "runtime \<Rightarrow> string \<Rightarrow> workflow_db \<Rightarrow> run_row \<Rightarrow> bool" where
  "claimable_run rt now db r \<longleftrightarrow> r \<in> set (runnable_rows db) \<and> can_claim rt now db r"

lemma has_work_claimable: "has_work rt now db r \<Longrightarrow> claimable_run rt now db r"
  using current_workable_runnable by (fastforce simp: has_work_def waits_def claimable_run_def runnable_rows_def can_claim_def lease_ended_iff TERMINAL_def)

lemma claimable_waits: "claimable_run rt now db r \<Longrightarrow> waits rt now db r \<and> (\<exists>s. current_step db r s \<and> workable_now rt now s)"
  using nextRunnableStep_current by (fastforce simp: waits_def claimable_run_def runnable_rows_def can_claim_def lease_ended_iff)

text \<open>C30: work that can be done is taken up, the longest untouched first. Suppose that some run waits for a worker and its
  current step can be worked on; that includes a run that a dead worker left running, with its step running, once the
  lease is over. Then a worker that asks gets a run that waits and has a current step that can be worked on, no run with
  work was updated before it (ties by identifier), the worker holds its lease until the lease time from now has passed,
  and no other run changes.\<close>

theorem claim_makes_progress:
  assumes "db = run_wf rt cfg ops empty_workflows" and "has_work rt now db p" and "date_parse rt now = Some t"
  shows "\<exists>q s. waits rt now db q \<and> current_step db q s \<and> workable_now rt now s \<and>
    (\<forall>r. has_work rt now db r \<longrightarrow> [rn_updated_at q, rn_run_id q] \<le> [rn_updated_at r, rn_run_id r]) \<and>
    claim rt cfg now worker db =
      (let hold = (\<lambda>r. r\<lparr>rn_lease_owner := Some worker, rn_lease_expires_at := Some (to_iso rt (t + int (c_leaseMs cfg))), rn_updated_at := now\<rparr>)
       in (upd_run (rn_workspace_id q) (rn_run_id q) hold db, Inr (Some (hold q))))"
proof -
  have sorted: "sorted_wrt (\<lambda>a b. claim_key a \<le> claim_key b) (runnable_rows db)"
    unfolding runnable_rows_def claim_key_def by (rule oldest_first.sorted_order_by)
  obtain q where q: "List.find (can_claim rt now db) (runnable_rows db) = Some q"
    using has_work_claimable [OF assms(2)] unfolding claimable_run_def by (metis find_None_iff option.exhaust)
  have first: "\<forall>r. has_work rt now db r \<longrightarrow> claim_key q \<le> claim_key r"
    using find_first_sorted [OF q sorted] has_work_claimable unfolding claimable_run_def by auto
  have qc: "claimable_run rt now db q" using find_SomeD [OF q] unfolding claimable_run_def by simp
  then have in_db: "q \<in> set (w_runs db)" by (simp add: claimable_run_def runnable_rows_def)
  have "distinct (run_keys db)" using reachable_wf_inv [of rt cfg ops] assms(1) by (simp add: wf_inv_def)
  then have "find_run (rn_workspace_id q) (rn_run_id q) db = Some q"
    using in_db unfolding find_run_def run_keys_def the_run_def
    using find_unique [where k = "\<lambda>r. (rn_workspace_id r, rn_run_id r)"] by fastforce
  then have "claim rt cfg now worker db =
      (let hold = (\<lambda>r. r\<lparr>rn_lease_owner := Some worker, rn_lease_expires_at := Some (to_iso rt (t + int (c_leaseMs cfg))), rn_updated_at := now\<rparr>)
       in (upd_run (rn_workspace_id q) (rn_run_id q) hold db, Inr (Some (hold q))))"
    using assms(3) by (simp add: claim_def q addMs_def Let_def find_run_upd run_ident_def)
  then show ?thesis using claimable_waits [OF qc] first unfolding claim_key_def by blast
qed

text \<open>A run whose worker claimed it at 3, started its activity and was not heard of again, at 9.\<close>

definition demo_crashed :: workflow_db where
  "demo_crashed = run_wf demo_runtime demo_config (demo_start [demo_step ''s'' ''activity'']) empty_workflows"

theorem claim_makes_progress_witness:
  "\<exists>p. has_work demo_runtime ''9'' demo_crashed p \<and> rn_status p = Running \<and> (\<exists>s. current_step demo_crashed p s \<and> st_status s = StRunning) \<and>
     snd (claim demo_runtime demo_config ''9'' ''k'' demo_crashed) = Inr (Some (p\<lparr>rn_lease_owner := Some ''k'', rn_lease_expires_at := Some ''14'', rn_updated_at := ''9''\<rparr>))"
proof -
  have runs: "map (\<lambda>r. (rn_workspace_id r, rn_run_id r, rn_status r, rn_lease_expires_at r)) (w_runs demo_crashed) = [(''ws'', ''r'', Running, Some ''8'')]" by code_simp
  have steps: "map (\<lambda>s. (st_workspace_id s, st_run_id s, st_step_index s, st_status s)) (w_steps demo_crashed) = [(''ws'', ''r'', 0, StRunning)]" by code_simp
  have dates: "date_parse demo_runtime ''8'' = Some 8" "date_parse demo_runtime ''9'' = Some 9" "to_iso demo_runtime (9 + int (c_leaseMs demo_config)) = ''14''" "''8'' \<le> ''9''"
    by code_simp+
  obtain p where p: "w_runs demo_crashed = [p]" "rn_workspace_id p = ''ws''" "rn_run_id p = ''r''" "rn_status p = Running" "rn_lease_expires_at p = Some ''8''"
    using runs by (cases "w_runs demo_crashed") auto
  obtain s where s: "w_steps demo_crashed = [s]" "st_workspace_id s = ''ws''" "st_run_id s = ''r''" "st_status s = StRunning"
    using steps by (cases "w_steps demo_crashed") auto
  have current: "current_step demo_crashed p x \<longleftrightarrow> x = s" for x
    using s p by (auto simp: current_step_def unfinished_step_def)
  have work: "has_work demo_runtime ''9'' demo_crashed p"
    using p s(4) dates by (auto simp: has_work_def waits_def lease_ended_def current workable_now_def)
  from claim_makes_progress [OF demo_crashed_def work dates(2), of "''k''"] obtain q where "waits demo_runtime ''9'' demo_crashed q"
      "claim demo_runtime demo_config ''9'' ''k'' demo_crashed =
        (let hold = (\<lambda>r. r\<lparr>rn_lease_owner := Some ''k'', rn_lease_expires_at := Some (to_iso demo_runtime (9 + int (c_leaseMs demo_config))), rn_updated_at := ''9''\<rparr>)
         in (upd_run (rn_workspace_id q) (rn_run_id q) hold demo_crashed, Inr (Some (hold q))))" by blast
  then have "snd (claim demo_runtime demo_config ''9'' ''k'' demo_crashed) =
      Inr (Some (p\<lparr>rn_lease_owner := Some ''k'', rn_lease_expires_at := Some ''14'', rn_updated_at := ''9''\<rparr>))"
    using p(1) by (simp add: dates(3) waits_def Let_def)
  then show ?thesis using work p(4) current s(4) by blast
qed

section \<open>A tick ends\<close>

definition open_steps :: "workflow_db \<Rightarrow> nat" where
  "open_steps db = length (filter (\<lambda>s. st_status s \<noteq> StCompleted) (w_steps db))"

lemma filter_upd_where_less:
  assumes "x \<in> set xs" "P x" "Q x" "\<And>y. \<not> Q (f y)"
  shows "length (filter Q (upd_where P f xs)) < length (filter Q xs)"
proof -
  have le: "length (filter Q (upd_where P f ys)) \<le> length (filter Q ys)" for ys
    using assms(4) by (induction ys) (auto simp: upd_where_def)
  show ?thesis using assms(1-3)
  proof (induction xs)
    case (Cons y ys)
    then show ?case using le [of ys] assms(4) by (auto simp: upd_where_def less_Suc_eq_le)
  qed simp
qed

lemma complete_body_closes:
  assumes "complete_body rt cfg ids now ws run i output worker db = Inr db'" and "holds_lease ws run worker db"
    and "s \<in> set (w_steps db)" "the_step ws run i s" "st_status s \<noteq> StCompleted"
  shows "open_steps db' < open_steps db"
proof -
  define db1 where "db1 = upd_step ws run i (\<lambda>s. s\<lparr>st_status := StCompleted, st_output := Some (deepClone output), st_updated_at := now\<rparr>) db"
  have "open_steps db1 < open_steps db"
    unfolding open_steps_def db1_def upd_step_def using assms(3-5)
    by (auto intro!: filter_upd_where_less)
  moreover have "w_steps db' = w_steps db1"
    using assms(1,2) unfolding complete_body_def db1_def
    by (auto simp: boundedJson_def Let_def bind_res_eq_Inr upd_run_def split: if_splits dest!: emit_row)
  ultimately show ?thesis by (simp add: open_steps_def)
qed

lemma fire_keeps:
  "transaction (emit rt cfg eid now ws run typ p) db = (db1, Inr u) \<Longrightarrow>
   w_steps db1 = w_steps db \<and> holds_lease ws' run' worker db1 = holds_lease ws' run' worker db"
  by (auto simp: transaction_def holds_lease_def find_run_def split: sum.splits dest!: emit_row)

lemma work_step_again:
  assumes "work_step rt cfg ids fresh now claimed worker db = (db', Inr True)"
  shows "open_steps db' < open_steps db"
proof -
  define ws where "ws = rn_workspace_id claimed"
  define run where "run = rn_run_id claimed"
  obtain r s stepDef db1 u where r: "find_run ws run db = Some r" "rn_status r \<notin> set TERMINAL" "rn_lease_owner r = Some worker"
    and s: "nextRunnableStep rt now r db = Some s" and np: "note_progress rt cfg ids now r s db = (db1, Inr u)"
    and t: "handleTimer rt cfg (shift 1 ids) now ws run s stepDef worker db1 = (db', Inr True)"
    using assms unfolding work_step_def Let_def ws_def run_def
    by (auto split: sum.splits option.splits if_splits prod.splits)
  have key: "rn_workspace_id r = ws" "rn_run_id r = run" using find_SomeD [OF r(1) [unfolded find_run_def]] by (simp_all add: the_run_def)
  have keep: "w_steps db1 = w_steps db" "holds_lease ws run worker db1"
    using note_progress_keeps [OF np, of worker] r key by auto
  from t obtain db2 u where f: "transaction (emit rt cfg (shift 1 ids 2) now ws run ''timer.fired'' (Obj [(''stepId'', Str (st_step_id s))])) db1 = (db2, Inr u)"
    and c: "completeStep rt cfg (shift 3 (shift 1 ids)) now ws run (st_step_id s) (Obj [(''firedAt'', Str now)]) worker db2 = (db', Inr ())"
    unfolding handleTimer_def by (auto split: sum.splits if_splits prod.splits)
  have "s \<in> set (w_steps db2)" "the_step ws run (st_step_id s) s" "st_status s \<noteq> StCompleted"
    using nextRunnableStep_row [OF s] key keep fire_keeps [OF f] by (auto simp: the_step_def)
  then have "open_steps db' < open_steps db2"
    using c keep fire_keeps [OF f] complete_body_closes unfolding completeStep_def by (metis transaction_Inr)
  then show ?thesis using keep fire_keeps [OF f] by (simp add: open_steps_def)
qed

lemma claim_keeps_steps: "claim rt cfg now worker db = (db', res) \<Longrightarrow> w_steps db' = w_steps db"
  by (auto simp: claim_def Let_def upd_run_def split: option.splits sum.splits)

lemma workClaim_ends: "open_steps db < n \<Longrightarrow> snd (workClaim n rt cfg ids fresh now r worker db) \<noteq> None"
proof (induction n arbitrary: ids r db)
  case (Suc n)
  show ?case
  proof (cases "work_step rt cfg ids fresh now r worker db")
    case (Pair db1 res)
    have "snd (workClaim n rt cfg (shift 8 ids) fresh now r' worker db2) \<noteq> None"
      if "res = Inr True" "claim rt cfg now worker db1 = (db2, Inr (Some r'))" for db2 r'
      using Suc Pair that work_step_again [of rt cfg ids fresh now r worker db db1] claim_keeps_steps [OF that(2)]
      by (simp add: open_steps_def)
    then show ?thesis using Pair by (auto split: sum.splits option.splits bool.splits prod.splits)
  qed
qed simp

text \<open>Every tick of a worker ends. The loop that goes on with another claim after a timer has fired always comes
  to its end within one round per step row, so a tick returns a result or an error.\<close>

theorem tick_terminates: "\<exists>db' res. tick rt cfg ids fresh now worker db = (db', Some res)"
proof -
  have no: "workClaim (Suc (length (w_steps d))) rt cfg i fresh now r worker d \<noteq> (x, None)" for d i r x
    using workClaim_ends [of d "Suc (length (w_steps d))" rt cfg i fresh now r worker] by (auto simp: open_steps_def le_imp_less_Suc)
  have "tick rt cfg ids fresh now worker db \<noteq> (x, None)" for x
    unfolding tick_def by (auto simp: no simp del: workClaim.simps split: sum.splits option.splits prod.splits)
  then show ?thesis by (cases "tick rt cfg ids fresh now worker db") auto
qed

section \<open>Definitions\<close>

definition step_well_formed :: "wf_limits \<Rightarrow> js \<Rightarrow> bool" where
  "step_well_formed limits s \<longleftrightarrow> is_plain s \<and> (\<exists>i. get s ''id'' = Str i \<and> trim i \<noteq> []) \<and> str_in (get s ''kind'') STEP_KINDS \<and>
     (\<exists>n. get s ''timeoutMs'' = Num (of_int n) \<and> 1 \<le> n) \<and> (\<exists>n. step_maxAttempts s = Num (of_int n) \<and> 1 \<le> n \<and> n \<le> int (maxAttempts limits)) \<and>
     (get s ''kind'' \<notin> {Str ''timer'', Str ''approval''} \<longrightarrow> truthy (get (get s ''handler'') ''id'') \<and> truthy (get (get s ''handler'') ''version''))"

lemma is_int_iff: "is_int v \<and> 1 \<le> num_of v \<longleftrightarrow> (\<exists>n. v = Num (of_int n) \<and> 1 \<le> n)"
proof (cases v)
  case (Num q)
  then show ?thesis by (auto simp: of_int_1_le_iff)
qed auto

lemma str_in_Str: "str_in v xs \<longleftrightarrow> (\<exists>s \<in> set xs. v = Str s)"
  by (cases v) auto

lemma check_step_ok: "check_step limits seen s = Inr u \<Longrightarrow> step_well_formed limits s \<and> get s ''id'' \<notin> set seen"
proof -
  assume ok: "check_step limits seen s = Inr u"
  have "is_int (step_maxAttempts s) \<and> 1 \<le> num_of (step_maxAttempts s)" and cap: "num_of (step_maxAttempts s) \<le> of_nat (maxAttempts limits)"
    and "is_int (get s ''timeoutMs'') \<and> 1 \<le> num_of (get s ''timeoutMs'')"
    using ok by (auto simp: check_step_def bind_res_eq_Inr)
  then obtain a b where "step_maxAttempts s = Num (of_int a)" "1 \<le> a" "get s ''timeoutMs'' = Num (of_int b)" "1 \<le> b"
    unfolding is_int_iff by blast
  moreover have "of_int a \<le> (of_nat n :: rat) \<longleftrightarrow> a \<le> int n" for a n
    by (metis of_int_le_iff of_int_of_nat_eq)
  moreover have "\<exists>i. get s ''id'' = Str i \<and> trim i \<noteq> []"
    using ok by (cases "get s ''id''") (auto simp: check_step_def bind_res_eq_Inr)
  ultimately show ?thesis
    using ok cap by (auto simp: check_step_def bind_res_eq_Inr step_well_formed_def str_in_Str)
qed

lemma check_steps_ok:
  "check_steps limits seen ss = Inr u \<Longrightarrow> (\<forall>s \<in> set ss. step_well_formed limits s \<and> get s ''id'' \<notin> set seen) \<and> distinct (map (\<lambda>s. get s ''id'') ss)"
proof (induction ss arbitrary: seen)
  case (Cons s ss)
  then show ?case using check_step_ok [of limits seen s] by (fastforce simp: bind_res_eq_Inr)
qed simp

text \<open>C34: a definition that is accepted is well formed. It has between one step and the largest number of steps, the
  step identifiers are distinct and not blank, each step is of a known kind with a positive whole time limit and a
  number of attempts between one and the limit, each step that is not a timer or an approval names its handler, and
  the accepted definition is the given one with its fingerprint added.\<close>

theorem accepted_definition_is_well_formed:
  assumes "normalizeDefinition rt limits inp = Inr d"
  shows "let ss = items (get d ''steps'') in 1 \<le> length ss \<and> length ss \<le> maxSteps limits \<and>
    distinct (map (\<lambda>s. get s ''id'') ss) \<and> list_all (step_well_formed limits) ss \<and>
    get d ''fingerprint'' = Str (wf_sha256 rt inp) \<and> (\<forall>k. k \<noteq> ''fingerprint'' \<longrightarrow> get d k = get inp k)"
proof -
  obtain es where inp: "inp = Obj es" and d: "d = Obj (put_key es (''fingerprint'', Str (wf_sha256 rt inp)))"
    using assms by (cases inp) (auto simp: normalizeDefinition_def bind_res_eq_Inr)
  have other: "get d k = get inp k" if "k \<noteq> ''fingerprint''" for k using that by (simp add: d get_put_key, simp add: inp)
  have "get d ''fingerprint'' = Str (wf_sha256 rt inp)" by (simp add: d get_put_key)
  moreover have "check_steps limits [] (items (get inp ''steps'')) = Inr ()" "items (get inp ''steps'') \<noteq> []" "length (items (get inp ''steps'')) \<le> maxSteps limits"
    using assms by (auto simp: normalizeDefinition_def bind_res_eq_Inr)
  ultimately show ?thesis
    using check_steps_ok [of limits "[]" "items (get inp ''steps'')"] other by (auto simp: Let_def list_all_iff Suc_le_eq)
qed

theorem accepted_definition_is_well_formed_witness:
  "\<exists>d. normalizeDefinition demo_runtime demo_limits (demo_definition [demo_step ''s'' ''activity'']) = Inr d \<and>
     length (items (get d ''steps'')) \<le> maxSteps demo_limits \<and> list_all (step_well_formed demo_limits) (items (get d ''steps''))"
proof -
  have "\<not> isl (normalizeDefinition demo_runtime demo_limits (demo_definition [demo_step ''s'' ''activity'']))" by code_simp
  then obtain d where "normalizeDefinition demo_runtime demo_limits (demo_definition [demo_step ''s'' ''activity'']) = Inr d"
    by (cases "normalizeDefinition demo_runtime demo_limits (demo_definition [demo_step ''s'' ''activity''])") auto
  with accepted_definition_is_well_formed [OF this] show ?thesis by (auto simp: Let_def)
qed

end
