(* ===== verification/Schema.thy ===== *)
theory Schema
  imports JsDyn Splitting
begin

text \<open>
  packages/protocol/src/schema-validator.mjs: the JSON Schema subset that tool inputs and
  outputs are checked with. The validator follows local references, so it need not return:
  its first argument is the depth of the call stack that is left, and running out of it is
  the \<open>RangeError\<close> that the engine raises. Regular expressions are the language's: a matcher
  is an argument, with \<open>None\<close> for a pattern that does not compile. Looking a key up in a
  property table also finds what every object inherits.
\<close>

section \<open>Types\<close>

type_synonym matcher = "string \<Rightarrow> string \<Rightarrow> bool option"

record issue =
  is_path :: string
  is_keyword :: string
  is_message :: string

definition issue :: "string \<Rightarrow> string \<Rightarrow> string \<Rightarrow> issue" where
  "issue path keyword message = \<lparr>is_path = path, is_keyword = keyword, is_message = message\<rparr>"

definition issue_if :: "bool \<Rightarrow> string \<Rightarrow> string \<Rightarrow> string \<Rightarrow> issue list" where
  "issue_if b path keyword message = (if b then [issue path keyword message] else [])"

fun valueType :: "js \<Rightarrow> string" where
  "valueType Null = ''null''"
| "valueType (Arr _) = ''array''"
| "valueType (Num n) = (if n = of_int \<lfloor>n\<rfloor> then ''integer'' else ''number'')"
| "valueType (Bool _) = ''boolean''"
| "valueType (Str _) = ''string''"
| "valueType (Obj _) = ''object''"
| "valueType Undef = ''undefined''"

definition typesMatch :: "js \<Rightarrow> js \<Rightarrow> bool" where
  "typesMatch expected value =
     (let actual = valueType value; allowed = (case expected of Arr xs \<Rightarrow> xs | _ \<Rightarrow> [expected])
      in list_ex (\<lambda>t. t = Str actual \<or> t = Str ''number'' \<and> actual = ''integer'') allowed)"

text \<open>A truthy value whose \<open>typeof\<close> is \<open>object\<close>.\<close>

fun is_object :: "js \<Rightarrow> bool" where
  "is_object (Obj _) = True"
| "is_object (Arr _) = True"
| "is_object _ = False"

section \<open>References and inherited properties\<close>

text \<open>\<open>part.replaceAll('~1', '/').replaceAll('~0', '~')\<close>\<close>

fun replace_tilde :: "char \<Rightarrow> char \<Rightarrow> string \<Rightarrow> string" where
  "replace_tilde d r (a # b # s) = (if a = CHR ''~'' \<and> b = d then r # replace_tilde d r s else a # replace_tilde d r (b # s))"
| "replace_tilde d r s = s"

definition unescape_part :: "string \<Rightarrow> string" where
  "unescape_part p = replace_tilde (CHR ''0'') (CHR ''~'') (replace_tilde (CHR ''1'') (CHR ''/'') p)"

text \<open>An own property of a value, index properties included.\<close>

definition own_prop :: "js \<Rightarrow> string \<Rightarrow> js" where
  "own_prop v k = (case map_of (own_entries v) k of None \<Rightarrow> Undef | Some x \<Rightarrow> x)"

text \<open>References are resolved through own properties.\<close>

definition resolveLocalRef :: "js \<Rightarrow> js \<Rightarrow> (js_error, js) result" where
  "resolveLocalRef rootSchema reference = (case reference of
     Str r \<Rightarrow> if take 2 r = ''#/'' then Inr (foldl own_prop rootSchema (map unescape_part (split_at (CHR ''/'') (drop 2 r))))
              else Inl (ThrownError ''Only local JSON Schema references are supported'')
   | _ \<Rightarrow> Inl (TypeError ''reference.startsWith is not a function''))"

definition INHERITED :: "string list" where
  "INHERITED = [''constructor'', ''hasOwnProperty'', ''isPrototypeOf'', ''propertyIsEnumerable'', ''toLocaleString'', ''toString'', ''valueOf'',
     ''__defineGetter__'', ''__defineSetter__'', ''__lookupGetter__'', ''__lookupSetter__'']"

text \<open>What \<open>table[k]\<close> is: an own value, an inherited function, the prototype object, or nothing.\<close>

datatype slot = Own js | InheritedFunction | PrototypeObject | Absent

definition property_slot :: "js \<Rightarrow> string \<Rightarrow> slot" where
  "property_slot table k = (case map_of (own_entries table) k of
     Some v \<Rightarrow> Own v
   | None \<Rightarrow> if k = ''__proto__'' then PrototypeObject else if k \<in> set INHERITED then InheritedFunction else Absent)"

text \<open>\<open>k in value\<close>\<close>

definition has_property :: "js \<Rightarrow> string \<Rightarrow> bool" where
  "has_property value k \<longleftrightarrow> property_slot value k \<noteq> Absent"

section \<open>Supported schemas\<close>

definition SUPPORTED_SCHEMA_KEYS :: "string list" where
  "SUPPORTED_SCHEMA_KEYS = [''$schema'', ''$id'', ''$defs'', ''$ref'', ''title'', ''description'', ''type'', ''additionalProperties'',
     ''required'', ''properties'', ''items'', ''oneOf'', ''const'', ''enum'', ''minLength'', ''maxLength'', ''pattern'', ''format'',
     ''minimum'', ''maximum'', ''minItems'', ''maxItems'', ''uniqueItems'', ''minProperties'', ''maxProperties'', ''default'']"

lemma all_ok_cong [fundef_cong]: "xs = ys \<Longrightarrow> (\<And>x. x \<in> set ys \<Longrightarrow> f x = g x) \<Longrightarrow> all_ok f xs = all_ok g ys"
  by (induction xs arbitrary: ys) auto

lemma size_map_of: "map_of kvs k = Some v \<Longrightarrow> size v < size (Obj kvs)"
  by (auto dest!: map_of_SomeD entry_size)

lemma size_get: "get s k \<noteq> Undef \<Longrightarrow> size (get s k) < size s"
  by (cases s) (auto split: option.splits dest: size_map_of)

lemma own_entries_Str: "(k, v) \<in> set (own_entries (Str t)) \<Longrightarrow> \<exists>c. v = Str [c]"
proof -
  assume "(k, v) \<in> set (own_entries (Str t))"
  then have "v \<in> set (map (\<lambda>c. Str [c]) t)" by (simp only: own_entries.simps) (erule set_zip_rightD)
  then show ?thesis by auto
qed

lemma size_own_entries: "(k, v) \<in> set (own_entries s) \<Longrightarrow> size v < size s \<or> (\<exists>c t. v = Str c \<and> s = Str t)"
proof (cases s)
  case (Arr xs)
  moreover assume "(k, v) \<in> set (own_entries s)"
  ultimately have "v \<in> set xs" by (auto dest: set_zip_rightD)
  then have "size v \<le> size_list size xs" by (rule size_list_estimation') simp
  then show ?thesis using Arr by simp
next
  case (Str t)
  moreover assume "(k, v) \<in> set (own_entries s)"
  ultimately show ?thesis using own_entries_Str by blast
qed (auto dest: entry_size)

lemma size_table:
  assumes "(k, v) \<in> set (own_entries (orelse (get s p) (Obj [])))"
  shows "size v < size s"
proof -
  have p: "get s p \<noteq> Undef" "(k, v) \<in> set (own_entries (get s p))" using assms by (auto simp: orelse_def split: if_splits)
  from size_own_entries [OF p(2)] size_get [OF p(1)] show ?thesis by auto
qed

lemma size_one_of: "x \<in> set (items (get s p)) \<Longrightarrow> size x < size s"
proof -
  assume x: "x \<in> set (items (get s p))"
  then obtain xs where xs: "get s p = Arr xs" "x \<in> set xs" by (cases "get s p") auto
  then have "size x \<le> size_list size xs" by (simp add: size_list_estimation' [where x = x])
  then show ?thesis using xs(1) size_get [of s p] by simp
qed

lemma truthy_Undef: "truthy v \<Longrightarrow> v \<noteq> Undef"
  by auto

text \<open>A keyword outside the list anywhere below the schema is an error, except in the places the walk does not
  enter (a list as \<open>items\<close>, the values of \<open>const\<close>, \<open>enum\<close> and \<open>default\<close>).\<close>

function assertSupportedSchema :: "js \<Rightarrow> (js_error, unit) result" where
  "assertSupportedSchema schema =
     (if \<not> is_plain schema then Inr ()
      else
        bind_res (require (list_all (\<lambda>k. k \<in> set SUPPORTED_SCHEMA_KEYS) (keys schema)) (ThrownError ''unsupported_schema_keyword'')) (\<lambda>_.
        bind_res (all_ok (\<lambda>(k, v). assertSupportedSchema v) (own_entries (orelse (get schema ''properties'') (Obj [])))) (\<lambda>_.
        bind_res (if truthy (get schema ''items'') then assertSupportedSchema (get schema ''items'') else Inr ()) (\<lambda>_.
        bind_res (if truthy (get schema ''oneOf'') then
            bind_res (require (is_arr (get schema ''oneOf'')) (ThrownError ''unsupported_schema_keyword'')) (\<lambda>_.
              all_ok assertSupportedSchema (items (get schema ''oneOf'')))
          else Inr ()) (\<lambda>_.
        bind_res (if is_object (get schema ''additionalProperties'') then assertSupportedSchema (get schema ''additionalProperties'') else Inr ()) (\<lambda>_.
          all_ok (\<lambda>(k, v). assertSupportedSchema v) (own_entries (orelse (get schema ''$defs'') (Obj [])))))))))"
  by pat_completeness auto

termination
proof (relation "measure size")
  fix schema :: js
  show "(get schema ''items'', schema) \<in> measure size" if "truthy (get schema ''items'')"
    using size_get [OF truthy_Undef [OF that]] by simp
  show "(get schema ''additionalProperties'', schema) \<in> measure size" if "is_object (get schema ''additionalProperties'')"
    using size_get [of schema "''additionalProperties''"] that by fastforce
qed (auto dest: size_table size_one_of)

declare assertSupportedSchema.simps [simp del]

section \<open>Validation\<close>

definition stack_overflow :: js_error where
  "stack_overflow = ThrownError ''Maximum call stack size exceeded''"

text \<open>\<open>n < v\<close> and \<open>n > v\<close> of a number and a keyword's value: false when that is not a number.\<close>

definition num_less :: "runtime \<Rightarrow> rat \<Rightarrow> js \<Rightarrow> bool" where
  "num_less rt n v = (case to_number rt v of None \<Rightarrow> False | Some m \<Rightarrow> n < m)"

definition num_greater :: "runtime \<Rightarrow> rat \<Rightarrow> js \<Rightarrow> bool" where
  "num_greater rt n v = (case to_number rt v of None \<Rightarrow> False | Some m \<Rightarrow> m < n)"

definition below :: "runtime \<Rightarrow> js \<Rightarrow> string \<Rightarrow> nat \<Rightarrow> bool" where
  "below rt schema k n \<longleftrightarrow> get schema k \<noteq> Undef \<and> num_less rt (of_nat n) (get schema k)"

definition above :: "runtime \<Rightarrow> js \<Rightarrow> string \<Rightarrow> nat \<Rightarrow> bool" where
  "above rt schema k n \<longleftrightarrow> get schema k \<noteq> Undef \<and> num_greater rt (of_nat n) (get schema k)"

definition deepEqual :: "runtime \<Rightarrow> js \<Rightarrow> js \<Rightarrow> bool" where
  "deepEqual rt a b \<longleftrightarrow> jsonStringify rt a = jsonStringify rt b"

text \<open>The messages with a keyword's value in them.\<close>

definition says :: "runtime \<Rightarrow> string \<Rightarrow> js \<Rightarrow> string \<Rightarrow> string" where
  "says rt a v b = a @ js_to_string rt v @ b"

definition literal_issues :: "runtime \<Rightarrow> js \<Rightarrow> js \<Rightarrow> string \<Rightarrow> (js_error, issue list) result" where
  "literal_issues rt schema value path =
     (let c = get schema ''const''; e = get schema ''enum'';
          fixed = issue_if (c \<noteq> Undef \<and> \<not> deepEqual rt c value) path ''const'' (''must equal '' @ jsonStringify rt c)
      in if \<not> truthy e then Inr fixed
         else bind_res (js_array e) (\<lambda>xs. Inr (fixed @ issue_if (\<not> list_ex (\<lambda>x. deepEqual rt x value) xs) path ''enum'' ''value is not in enum'')))"

definition string_issues :: "runtime \<Rightarrow> matcher \<Rightarrow> js \<Rightarrow> string \<Rightarrow> string \<Rightarrow> (js_error, issue list) result" where
  "string_issues rt rx schema s path =
     (let p = get schema ''pattern'';
          sizes = issue_if (below rt schema ''minLength'' (length s)) path ''minLength'' (says rt ''must contain at least '' (get schema ''minLength'') '' characters'') @
            issue_if (above rt schema ''maxLength'' (length s)) path ''maxLength'' (says rt ''must contain no more than '' (get schema ''maxLength'') '' characters'');
          date = issue_if (get schema ''format'' = Str ''date-time'' \<and> date_parse rt s = None) path ''format'' ''must be a valid date-time''
      in if p = Undef then Inr (sizes @ date)
         else (case rx (js_to_string rt p) s of
             None \<Rightarrow> Inl SyntaxError
           | Some b \<Rightarrow> Inr (sizes @ issue_if (\<not> b) path ''pattern'' (says rt ''must match '' p []) @ date)))"

definition number_issues :: "runtime \<Rightarrow> js \<Rightarrow> rat \<Rightarrow> string \<Rightarrow> issue list" where
  "number_issues rt schema n path =
     issue_if (get schema ''minimum'' \<noteq> Undef \<and> num_less rt n (get schema ''minimum'')) path ''minimum'' (says rt ''must be at least '' (get schema ''minimum'') []) @
     issue_if (get schema ''maximum'' \<noteq> Undef \<and> num_greater rt n (get schema ''maximum'')) path ''maximum'' (says rt ''must be at most '' (get schema ''maximum'') [])"

definition array_issues :: "runtime \<Rightarrow> js \<Rightarrow> js list \<Rightarrow> string \<Rightarrow> issue list" where
  "array_issues rt schema xs path =
     issue_if (below rt schema ''minItems'' (length xs)) path ''minItems'' (says rt ''must contain at least '' (get schema ''minItems'') '' items'') @
     issue_if (above rt schema ''maxItems'' (length xs)) path ''maxItems'' (says rt ''must contain no more than '' (get schema ''maxItems'') '' items'') @
     issue_if (truthy (get schema ''uniqueItems'') \<and> \<not> distinct (map (jsonStringify rt) xs)) path ''uniqueItems'' ''items must be unique''"

definition count_issues :: "runtime \<Rightarrow> js \<Rightarrow> nat \<Rightarrow> string \<Rightarrow> issue list" where
  "count_issues rt schema n path =
     issue_if (below rt schema ''minProperties'' n) path ''minProperties'' (says rt ''must contain at least '' (get schema ''minProperties'') '' properties'') @
     issue_if (above rt schema ''maxProperties'' n) path ''maxProperties'' (says rt ''must contain no more than '' (get schema ''maxProperties'') '' properties'')"

definition required_issues :: "runtime \<Rightarrow> js \<Rightarrow> js \<Rightarrow> string \<Rightarrow> (js_error, issue list) result" where
  "required_issues rt schema value path =
     bind_res (js_iter (orelse (get schema ''required'') (Arr []))) (\<lambda>rs. Inr (concat (map (\<lambda>r.
       let k = js_to_string rt r in issue_if (\<not> has_property value k) (path @ ''.'' @ k) ''required'' ''property is required'') rs)))"

text \<open>What a value's own property is checked against.\<close>

datatype check = Against js | Forbidden | Anything | NoSchema

definition property_check :: "js \<Rightarrow> string \<Rightarrow> check" where
  "property_check schema k =
     (let extra = get schema ''additionalProperties'';
          open_check = (if extra = Bool False then Forbidden else if is_object extra then Against extra else Anything)
      in case property_slot (orelse (get schema ''properties'') (Obj [])) k of
           Own p \<Rightarrow> if truthy p then Against p else open_check
         | InheritedFunction \<Rightarrow> NoSchema
         | PrototypeObject \<Rightarrow> Anything
         | Absent \<Rightarrow> open_check)"

definition one_of_message :: "(nat \<times> issue list) list \<Rightarrow> nat \<Rightarrow> string" where
  "one_of_message failed matches =
     (let detail = join '' | '' (map (\<lambda>(i, es). ''branch '' @ show_nat i @ '': '' @ join ''; '' (map (\<lambda>e. is_path e @ '' '' @ is_message e) (take 3 es))) (take 2 failed))
      in (if matches = 0 then ''must match exactly one schema'' else ''must match only one schema'') @
         (if detail = [] then [] else '' ('' @ detail @ '')''))"

definition one_of_issues :: "issue list list \<Rightarrow> string \<Rightarrow> issue list" where
  "one_of_issues branches path =
     (let matches = length (filter (\<lambda>es. es = []) branches);
          failed = filter (\<lambda>(i, es). es \<noteq> []) (zip [0..<length branches] branches)
      in if matches = 1 then [] else [issue path ''oneOf'' (one_of_message failed matches)])"

text \<open>The parts of a node that visit other nodes; \<open>visit\<close> is the validator at the depth below.\<close>

type_synonym visit = "js \<Rightarrow> js \<Rightarrow> string \<Rightarrow> (js_error, issue list) result"

definition check_reference :: "visit \<Rightarrow> runtime \<Rightarrow> js \<Rightarrow> js \<Rightarrow> js \<Rightarrow> string \<Rightarrow> (js_error, issue list) result" where
  "check_reference visit rt rootSchema ref value path =
     bind_res (resolveLocalRef rootSchema ref) (\<lambda>r.
       if \<not> truthy r then Inr [issue path ''$ref'' (says rt ''unable to resolve '' ref [])] else visit r value path)"

definition check_one_of :: "visit \<Rightarrow> js \<Rightarrow> js \<Rightarrow> string \<Rightarrow> (js_error, issue list) result" where
  "check_one_of visit schema value path =
     (if truthy (get schema ''oneOf'') then
        bind_res (js_array (get schema ''oneOf'')) (\<lambda>alts.
        bind_res (map_res (\<lambda>alt. visit alt value path) alts) (\<lambda>branches. Inr (one_of_issues branches path)))
      else Inr [])"

definition check_items :: "visit \<Rightarrow> js \<Rightarrow> js list \<Rightarrow> string \<Rightarrow> (js_error, issue list list) result" where
  "check_items visit schema xs path =
     (if truthy (get schema ''items'')
      then map_res (\<lambda>(i, x). visit (get schema ''items'') x (path @ ''['' @ show_nat i @ '']'')) (zip [0..<length xs] xs)
      else Inr [])"

definition check_property :: "visit \<Rightarrow> js \<Rightarrow> string \<Rightarrow> string \<times> js \<Rightarrow> (js_error, issue list) result" where
  "check_property visit schema path = (\<lambda>(k, v). case property_check schema k of
       Against p \<Rightarrow> visit p v (path @ ''.'' @ k)
     | Forbidden \<Rightarrow> Inr [issue (path @ ''.'' @ k) ''additionalProperties'' ''additional property is not allowed'']
     | NoSchema \<Rightarrow> Inr [issue (path @ ''.'' @ k) ''schema'' ''schema node is invalid'']
     | Anything \<Rightarrow> Inr [])"

text \<open>A node whose alternatives are settled and whose type fits: the issues in the order in which the checks are made.\<close>

definition check_value :: "visit \<Rightarrow> runtime \<Rightarrow> matcher \<Rightarrow> js \<Rightarrow> js \<Rightarrow> string \<Rightarrow> (js_error, issue list) result" where
  "check_value visit rt rx schema value path =
     bind_res (literal_issues rt schema value path) (\<lambda>lits.
       case value of
         Str s \<Rightarrow> bind_res (string_issues rt rx schema s path) (\<lambda>es. Inr (lits @ es))
       | Num m \<Rightarrow> Inr (lits @ number_issues rt schema m path)
       | Arr xs \<Rightarrow> bind_res (check_items visit schema xs path) (\<lambda>ess. Inr (lits @ array_issues rt schema xs path @ concat ess))
       | Obj kvs \<Rightarrow>
           bind_res (required_issues rt schema value path) (\<lambda>req.
           bind_res (map_res (check_property visit schema path) kvs) (\<lambda>ess.
             Inr (lits @ count_issues rt schema (length kvs) path @ req @ concat ess)))
       | _ \<Rightarrow> Inr lits)"

definition check_node :: "visit \<Rightarrow> runtime \<Rightarrow> matcher \<Rightarrow> js \<Rightarrow> js \<Rightarrow> js \<Rightarrow> string \<Rightarrow> (js_error, issue list) result" where
  "check_node visit rt rx rootSchema schema value path =
     (if schema = Bool True then Inr []
      else if schema = Bool False then Inr [issue path ''falseSchema'' ''value is forbidden'']
      else if \<not> is_object schema then Inr [issue path ''schema'' ''schema node is invalid'']
      else if truthy (get schema ''$ref'') then check_reference visit rt rootSchema (get schema ''$ref'') value path
      else bind_res (check_one_of visit schema value path) (\<lambda>one.
        if one \<noteq> [] then Inr one
        else if get schema ''type'' \<noteq> Undef \<and> \<not> typesMatch (get schema ''type'') value then
          Inr [issue path ''type'' (''expected '' @ jsonStringify rt (get schema ''type'') @ '', received '' @ valueType value)]
        else check_value visit rt rx schema value path))"

primrec validateNode :: "nat \<Rightarrow> runtime \<Rightarrow> matcher \<Rightarrow> js \<Rightarrow> js \<Rightarrow> js \<Rightarrow> string \<Rightarrow> (js_error, issue list) result" where
  "validateNode 0 rt rx rootSchema = (\<lambda>schema value path. Inl stack_overflow)"
| "validateNode (Suc n) rt rx rootSchema = check_node (validateNode n rt rx rootSchema) rt rx rootSchema"

definition validateJsonSchema :: "nat \<Rightarrow> runtime \<Rightarrow> matcher \<Rightarrow> js \<Rightarrow> js \<Rightarrow> (js_error, bool \<times> issue list) result" where
  "validateJsonSchema stack rt rx schema value =
     bind_res (assertSupportedSchema schema) (\<lambda>_.
     bind_res (validateNode stack rt rx schema schema value ''$'') (\<lambda>es. Inr (es = [], es)))"

definition assertJsonSchema :: "nat \<Rightarrow> runtime \<Rightarrow> matcher \<Rightarrow> js \<Rightarrow> js \<Rightarrow> (js_error, js) result" where
  "assertJsonSchema stack rt rx schema value =
     bind_res (validateJsonSchema stack rt rx schema value) (\<lambda>(valid, es).
       if valid then Inr value else Inl (ThrownError ''schema_validation_failed''))"

section \<open>What the validator accepts\<close>

text \<open>A key that occurs in some object inside a value.\<close>

fun mentions :: "string \<Rightarrow> js \<Rightarrow> bool" where
  "mentions k (Arr xs) = list_ex (mentions k) xs"
| "mentions k (Obj kvs) = (k \<in> fst ` set kvs \<or> list_ex (\<lambda>(_, v). mentions k v) kvs)"
| "mentions k _ = False"

text \<open>The declarative reading of a schema. It is written from the keywords' meaning and shares none of the validator's
  own checks: it only reads members (\<open>get\<close>, \<open>own_entries\<close>), converts a bound to a number and compares JSON texts, as the
  language does.\<close>

text \<open>A bound holds: the keyword is absent, not a number, or on the right side.\<close>

definition lower_ok :: "runtime \<Rightarrow> js \<Rightarrow> string \<Rightarrow> rat \<Rightarrow> bool" where
  "lower_ok rt s k n \<longleftrightarrow> (\<forall>b. to_number rt (get s k) = Some b \<longrightarrow> b \<le> n)"

definition upper_ok :: "runtime \<Rightarrow> js \<Rightarrow> string \<Rightarrow> rat \<Rightarrow> bool" where
  "upper_ok rt s k n \<longleftrightarrow> (\<forall>b. to_number rt (get s k) = Some b \<longrightarrow> n \<le> b)"

inductive has_type :: "js \<Rightarrow> string \<Rightarrow> bool" where
  "has_type Null ''null''"
| "has_type Undef ''undefined''"
| "has_type (Bool b) ''boolean''"
| "has_type (Str t) ''string''"
| "has_type (Num n) ''number''"
| "has_type (Num (of_int i)) ''integer''"
| "has_type (Arr xs) ''array''"
| "has_type (Obj kvs) ''object''"

definition type_ok :: "js \<Rightarrow> js \<Rightarrow> bool" where
  "type_ok expected v \<longleftrightarrow> (\<exists>t. has_type v t \<and> (expected = Str t \<or> (\<exists>ts. expected = Arr ts \<and> Str t \<in> set ts)))"

text \<open>Two values with the same JSON text.\<close>

definition same_text :: "runtime \<Rightarrow> js \<Rightarrow> js \<Rightarrow> bool" where
  "same_text rt a b \<longleftrightarrow> jsonStringify rt a = jsonStringify rt b"

definition literal_ok :: "runtime \<Rightarrow> js \<Rightarrow> js \<Rightarrow> bool" where
  "literal_ok rt s v \<longleftrightarrow> (get s ''const'' \<noteq> Undef \<longrightarrow> same_text rt (get s ''const'') v) \<and>
     (truthy (get s ''enum'') \<longrightarrow> (\<exists>xs. get s ''enum'' = Arr xs \<and> (\<exists>x \<in> set xs. same_text rt x v)))"

definition string_ok :: "runtime \<Rightarrow> matcher \<Rightarrow> js \<Rightarrow> string \<Rightarrow> bool" where
  "string_ok rt rx s t \<longleftrightarrow> lower_ok rt s ''minLength'' (of_nat (length t)) \<and> upper_ok rt s ''maxLength'' (of_nat (length t)) \<and>
     (get s ''pattern'' \<noteq> Undef \<longrightarrow> rx (js_to_string rt (get s ''pattern'')) t = Some True) \<and>
     (get s ''format'' = Str ''date-time'' \<longrightarrow> date_parse rt t \<noteq> None)"

definition number_ok :: "runtime \<Rightarrow> js \<Rightarrow> rat \<Rightarrow> bool" where
  "number_ok rt s n \<longleftrightarrow> lower_ok rt s ''minimum'' n \<and> upper_ok rt s ''maximum'' n"

definition array_ok :: "runtime \<Rightarrow> js \<Rightarrow> js list \<Rightarrow> bool" where
  "array_ok rt s xs \<longleftrightarrow> lower_ok rt s ''minItems'' (of_nat (length xs)) \<and> upper_ok rt s ''maxItems'' (of_nat (length xs)) \<and>
     (truthy (get s ''uniqueItems'') \<longrightarrow> (\<forall>i j. i < j \<longrightarrow> j < length xs \<longrightarrow> \<not> same_text rt (xs ! i) (xs ! j)))"

text \<open>A name every object answers to: the prototype and its methods.\<close>

definition inherited :: "string \<Rightarrow> bool" where
  "inherited k \<longleftrightarrow> k = ''__proto__'' \<or> k \<in> set INHERITED"

definition object_ok :: "runtime \<Rightarrow> js \<Rightarrow> (string \<times> js) list \<Rightarrow> bool" where
  "object_ok rt s kvs \<longleftrightarrow> lower_ok rt s ''minProperties'' (of_nat (length kvs)) \<and> upper_ok rt s ''maxProperties'' (of_nat (length kvs)) \<and>
     (nullish (get s ''required'') \<or>
      (\<exists>rs. js_iter (get s ''required'') = Inr rs \<and>
        (\<forall>r \<in> set rs. js_to_string rt r \<in> fst ` set kvs \<or> inherited (js_to_string rt r))))"

definition value_ok :: "runtime \<Rightarrow> matcher \<Rightarrow> js \<Rightarrow> js \<Rightarrow> bool" where
  "value_ok rt rx s v \<longleftrightarrow> (get s ''type'' \<noteq> Undef \<longrightarrow> type_ok (get s ''type'') v) \<and> literal_ok rt s v \<and>
     (case v of Str t \<Rightarrow> string_ok rt rx s t | Num n \<Rightarrow> number_ok rt s n | Arr xs \<Rightarrow> array_ok rt s xs | Obj kvs \<Rightarrow> object_ok rt s kvs | _ \<Rightarrow> True)"

text \<open>Members. A schema declares a name when its property table has the name as its own; a declaration that is not
  truthy counts for nothing. A name without a declaration is additional, unless the table inherits it.\<close>

definition declares_member :: "js \<Rightarrow> string \<Rightarrow> js \<Rightarrow> bool" where
  "declares_member s k p \<longleftrightarrow> map_of (own_entries (get s ''properties'')) k = Some p"

definition additional_name :: "js \<Rightarrow> string \<Rightarrow> bool" where
  "additional_name s k \<longleftrightarrow> (\<forall>p. declares_member s k p \<longrightarrow> \<not> truthy p) \<and> (inherited k \<longrightarrow> (\<exists>p. declares_member s k p))"

inductive member_schema :: "js \<Rightarrow> string \<Rightarrow> js \<Rightarrow> bool" where
  declared: "declares_member s k p \<Longrightarrow> truthy p \<Longrightarrow> member_schema s k p"
| additional: "additional_name s k \<Longrightarrow> is_object (get s ''additionalProperties'') \<Longrightarrow> member_schema s k (get s ''additionalProperties'')"

text \<open>A closed schema admits no additional name, and no schema admits an inherited method's name that it does not declare.\<close>

definition admits_name :: "js \<Rightarrow> string \<Rightarrow> bool" where
  "admits_name s k \<longleftrightarrow> (additional_name s k \<longrightarrow> get s ''additionalProperties'' \<noteq> Bool False) \<and>
     (inherited k \<longrightarrow> k \<noteq> ''__proto__'' \<longrightarrow> (\<exists>p. declares_member s k p))"

text \<open>A reference is a JSON pointer into the root: its parts are separated by slashes, with \<open>~1\<close> for a slash and \<open>~0\<close>
  for a tilde.\<close>

inductive unescapes :: "string \<Rightarrow> string \<Rightarrow> bool" where
  stop: "unescapes [] []"
| slash: "unescapes s p \<Longrightarrow> unescapes (CHR ''~'' # CHR ''1'' # s) (CHR ''/'' # p)"
| tilde: "unescapes s p \<Longrightarrow> unescapes (CHR ''~'' # CHR ''0'' # s) (CHR ''~'' # p)"
| other: "unescapes s p \<Longrightarrow> c \<noteq> CHR ''~'' \<or> take 1 s \<notin> {''0'', ''1''} \<Longrightarrow> unescapes (c # s) (c # p)"

inductive leads :: "js \<Rightarrow> string list \<Rightarrow> js \<Rightarrow> bool" where
  here: "leads v [] v"
| step: "map_of (own_entries v) k = Some m \<Longrightarrow> leads m ks r \<Longrightarrow> leads v (k # ks) r"

definition refers_to :: "js \<Rightarrow> js \<Rightarrow> js \<Rightarrow> bool" where
  "refers_to rootSchema ref r \<longleftrightarrow> (\<exists>raws parts. ref = Str (''#/'' @ join ''/'' raws) \<and> raws \<noteq> [] \<and> (\<forall>raw \<in> set raws. CHR ''/'' \<notin> set raw) \<and>
     list_all2 unescapes raws parts \<and> leads rootSchema parts r)"

text \<open>Conformance to a schema, for schemas without alternatives: a value conforms when there is a derivation, through
  references as long as they lead somewhere.\<close>

inductive conforms :: "runtime \<Rightarrow> matcher \<Rightarrow> js \<Rightarrow> js \<Rightarrow> js \<Rightarrow> bool" for rt rx rootSchema where
  everything: "conforms rt rx rootSchema (Bool True) v"
| reference: "is_object s \<Longrightarrow> truthy (get s ''$ref'') \<Longrightarrow> refers_to rootSchema (get s ''$ref'') r \<Longrightarrow> truthy r \<Longrightarrow>
    conforms rt rx rootSchema r v \<Longrightarrow> conforms rt rx rootSchema s v"
| node: "is_object s \<Longrightarrow> \<not> truthy (get s ''$ref'') \<Longrightarrow> value_ok rt rx s v \<Longrightarrow>
    (\<And>x. x \<in> set (items v) \<Longrightarrow> truthy (get s ''items'') \<Longrightarrow> conforms rt rx rootSchema (get s ''items'') x) \<Longrightarrow>
    (\<And>k x. (k, x) \<in> set (entries v) \<Longrightarrow> admits_name s k) \<Longrightarrow>
    (\<And>k x p. (k, x) \<in> set (entries v) \<Longrightarrow> member_schema s k p \<Longrightarrow> conforms rt rx rootSchema p x) \<Longrightarrow>
    conforms rt rx rootSchema s v"

section \<open>Lemmas\<close>

lemma map_res_mono: "map_res f xs = Inr ys \<Longrightarrow> (\<And>x y. f x = Inr y \<Longrightarrow> g x = Inr y) \<Longrightarrow> map_res g xs = Inr ys"
  by (auto simp: map_res_Inr elim: list_all2_mono)

lemma map_res_nil: "(\<exists>yss. map_res f xs = Inr yss \<and> concat yss = []) \<longleftrightarrow> (\<forall>x \<in> set xs. f x = Inr [])"
proof (induction xs)
  case (Cons x xs)
  then show ?case by (auto simp: bind_res_eq_Inr)
qed simp

lemma issue_if_nil [simp]: "issue_if b p k m = [] \<longleftrightarrow> \<not> b"
  by (simp add: issue_if_def)

text \<open>The validator's own checks against the declarative ones.\<close>

lemma lower_iff: "get s k \<noteq> Undef \<and> num_less rt n (get s k) \<longleftrightarrow> \<not> lower_ok rt s k n"
  by (cases "get s k = Undef") (auto simp: num_less_def lower_ok_def not_le split: option.splits)

lemma upper_iff: "get s k \<noteq> Undef \<and> num_greater rt n (get s k) \<longleftrightarrow> \<not> upper_ok rt s k n"
  by (cases "get s k = Undef") (auto simp: num_greater_def upper_ok_def not_le split: option.splits)

lemma below_iff: "below rt s k n \<longleftrightarrow> \<not> lower_ok rt s k (of_nat n)"
  unfolding below_def lower_iff by simp

lemma above_iff: "above rt s k n \<longleftrightarrow> \<not> upper_ok rt s k (of_nat n)"
  unfolding above_def upper_iff by simp

lemma deepEqual_iff: "deepEqual rt a b \<longleftrightarrow> same_text rt a b"
  by (simp add: deepEqual_def same_text_def)

lemma has_type_iff: "has_type v t \<longleftrightarrow> t = valueType v \<or> t = ''number'' \<and> valueType v = ''integer''"
proof (cases v)
  case (Num n)
  have "(\<exists>i. n = of_int i) \<longleftrightarrow> n = rat_of_int \<lfloor>n\<rfloor>" by (metis floor_of_int)
  then show ?thesis unfolding Num by (simp add: has_type.simps) blast
qed (simp_all add: has_type.simps)

lemma typesMatch_iff: "typesMatch expected v \<longleftrightarrow> type_ok expected v"
proof -
  let ?alts = "case expected of Arr xs \<Rightarrow> xs | _ \<Rightarrow> [expected]"
  have "typesMatch expected v \<longleftrightarrow> (\<exists>x \<in> set ?alts. \<exists>t. x = Str t \<and> has_type v t)"
    unfolding typesMatch_def Let_def list_ex_iff has_type_iff by (rule bex_cong) auto
  then show ?thesis by (cases expected) (auto simp: type_ok_def)
qed

lemma distinct_texts: "distinct (map (jsonStringify rt) xs) \<longleftrightarrow> (\<forall>i j. i < j \<longrightarrow> j < length xs \<longrightarrow> \<not> same_text rt (xs ! i) (xs ! j))"
proof -
  have sym: "(\<forall>i < n. \<forall>j < n. i \<noteq> j \<longrightarrow> f i \<noteq> f j) \<longleftrightarrow> (\<forall>i j. i < j \<longrightarrow> j < n \<longrightarrow> f i \<noteq> f j)" for n and f :: "nat \<Rightarrow> string"
  proof (intro iffI allI impI)
    fix i j assume lt: "\<forall>i j. i < j \<longrightarrow> j < n \<longrightarrow> f i \<noteq> f j" and ij: "i < n" "j < n" "i \<noteq> j"
    show "f i \<noteq> f j" using lt [rule_format, of i j] lt [rule_format, of j i] ij by (cases "i < j") auto
  qed auto
  have "distinct (map (jsonStringify rt) xs) \<longleftrightarrow> (\<forall>i < length xs. \<forall>j < length xs. i \<noteq> j \<longrightarrow> jsonStringify rt (xs ! i) \<noteq> jsonStringify rt (xs ! j))"
    by (simp add: distinct_conv_nth)
  also have "\<dots> \<longleftrightarrow> (\<forall>i j. i < j \<longrightarrow> j < length xs \<longrightarrow> jsonStringify rt (xs ! i) \<noteq> jsonStringify rt (xs ! j))" by (rule sym)
  finally show ?thesis by (simp only: same_text_def)
qed

lemma has_property_iff: "has_property (Obj kvs) k \<longleftrightarrow> k \<in> fst ` set kvs \<or> inherited k"
proof (cases "map_of kvs k")
  case None
  then have "k \<notin> fst ` set kvs" by (simp add: map_of_eq_None_iff)
  then show ?thesis using None by (simp add: has_property_def property_slot_def inherited_def)
next
  case (Some v)
  then have "k \<in> fst ` set kvs" by (metis domI dom_map_of_conv_image_fst)
  then show ?thesis using Some by (simp add: has_property_def property_slot_def)
qed

lemma table_entries: "own_entries (orelse (get s ''properties'') (Obj [])) = own_entries (get s ''properties'')"
  by (cases "get s ''properties''") (simp_all add: orelse_def)

lemma proto_not_inherited [simp]: "''__proto__'' \<notin> set INHERITED"
  by (simp add: INHERITED_def)

lemma member_schema_iff:
  "member_schema s k p \<longleftrightarrow> declares_member s k p \<and> truthy p \<or> additional_name s k \<and> is_object (get s ''additionalProperties'') \<and> p = get s ''additionalProperties''"
  by (auto simp: member_schema.simps)

lemma property_check_Against: "property_check s k = Against p \<longleftrightarrow> member_schema s k p"
proof (cases "map_of (own_entries (get s ''properties'')) k")
  case None
  then show ?thesis
    unfolding member_schema_iff property_check_def property_slot_def table_entries Let_def additional_name_def declares_member_def inherited_def by auto
next
  case (Some q)
  then show ?thesis
    unfolding member_schema_iff property_check_def property_slot_def table_entries Let_def additional_name_def declares_member_def inherited_def by auto
qed

lemma property_check_admits: "property_check s k \<notin> {Forbidden, NoSchema} \<longleftrightarrow> admits_name s k"
proof (cases "map_of (own_entries (get s ''properties'')) k")
  case None
  then show ?thesis
    unfolding admits_name_def property_check_def property_slot_def table_entries Let_def additional_name_def declares_member_def inherited_def by auto
next
  case (Some q)
  then show ?thesis
    unfolding admits_name_def property_check_def property_slot_def table_entries Let_def additional_name_def declares_member_def inherited_def by auto
qed

lemma replace_tilde_other: "a \<noteq> CHR ''~'' \<Longrightarrow> replace_tilde d r (a # s) = a # replace_tilde d r s"
  by (cases s) auto

lemma unescape_other:
  assumes "take 1 s \<notin> {''0'', ''1''}"
  shows "unescape_part (CHR ''~'' # s) = CHR ''~'' # unescape_part s"
proof (cases s)
  case (Cons b s')
  then have b: "b \<noteq> CHR ''0''" "b \<noteq> CHR ''1''" using assms by auto
  let ?one = "replace_tilde (CHR ''1'') (CHR ''/'')"
  have "\<exists>x xs. ?one s = x # xs \<and> x \<noteq> CHR ''0''" using b Cons by (cases s') simp_all
  then obtain x xs where x: "?one s = x # xs" "x \<noteq> CHR ''0''" by blast
  have "?one (CHR ''~'' # s) = CHR ''~'' # ?one s" using Cons b by simp
  then show ?thesis using x by (simp add: unescape_part_def)
qed (simp add: unescape_part_def)

lemma unescapes_part: "unescapes s p \<Longrightarrow> unescape_part s = p"
proof (induction rule: unescapes.induct)
  case (other s p c)
  then show ?case
    by (cases "c = CHR ''~''") (auto simp: unescape_other, simp add: unescape_part_def replace_tilde_other)
qed (simp_all add: unescape_part_def replace_tilde_other)

lemma unescapes_total: "\<exists>p. unescapes s p"
proof (induction s rule: length_induct)
  case (1 s)
  show ?case
  proof (cases s)
    case (Cons c s')
    show ?thesis
    proof (cases "c = CHR ''~'' \<and> take 1 s' \<in> {''0'', ''1''}")
      case True
      then obtain d u where "s = CHR ''~'' # d # u" "d = CHR ''0'' \<or> d = CHR ''1''" using Cons by (cases s') auto
      then show ?thesis using 1 [rule_format, of u] by (auto intro: unescapes.slash unescapes.tilde)
    next
      case False
      obtain p where "unescapes s' p" using 1 Cons by auto
      then have "unescapes (c # s') (c # p)" using False by (intro unescapes.other) auto
      then show ?thesis using Cons by blast
    qed
  qed (use unescapes.stop in blast)
qed

lemma unescapes_iff: "unescapes s p \<longleftrightarrow> unescape_part s = p"
  using unescapes_part unescapes_total by blast

lemma leads_iff: "truthy r \<Longrightarrow> leads v ks r \<longleftrightarrow> foldl own_prop v ks = r"
proof (induction ks arbitrary: v)
  case (Cons k ks)
  have "foldl own_prop Undef ks = Undef" by (induction ks) (auto simp: own_prop_def)
  moreover have "leads v (k # ks) r \<longleftrightarrow> (\<exists>m. map_of (own_entries v) k = Some m \<and> leads m ks r)"
    by (subst leads.simps) simp
  moreover have "own_prop v k = (case map_of (own_entries v) k of None \<Rightarrow> Undef | Some m \<Rightarrow> m)" by (rule own_prop_def)
  ultimately show ?case using Cons.IH Cons.prems by (cases "map_of (own_entries v) k") auto
qed (subst leads.simps, simp, blast)

lemma refers_to_iff:
  assumes "truthy r"
  shows "refers_to rs ref r \<longleftrightarrow> resolveLocalRef rs ref = Inr r"
proof -
  have p: "list_all2 unescapes raws parts \<longleftrightarrow> parts = map unescape_part raws" for raws parts
    unfolding unescapes_iff by (auto simp: list_all2_map1 [symmetric] list.rel_eq)
  let ?path = "\<lambda>raws. map unescape_part raws"
  have refers: "refers_to rs ref r \<longleftrightarrow> (\<exists>raws. ref = Str (''#/'' @ join ''/'' raws) \<and> raws \<noteq> [] \<and> (\<forall>raw \<in> set raws. CHR ''/'' \<notin> set raw) \<and> foldl own_prop rs (?path raws) = r)"
    unfolding refers_to_def p leads_iff [OF assms] by simp
  have at: "resolveLocalRef rs (Str (''#/'' @ t)) = Inr r \<longleftrightarrow> foldl own_prop rs (?path (split_at (CHR ''/'') t)) = r" for t
    by (simp add: resolveLocalRef_def)
  show ?thesis
  proof
    assume "refers_to rs ref r"
    then obtain raws where r: "ref = Str (''#/'' @ join ''/'' raws)" "raws \<noteq> []" "\<forall>raw \<in> set raws. CHR ''/'' \<notin> set raw" "foldl own_prop rs (?path raws) = r"
      unfolding refers by blast
    show "resolveLocalRef rs ref = Inr r" unfolding r(1) at split_join [OF r(2,3)] by (rule r(4))
  next
    assume found: "resolveLocalRef rs ref = Inr r"
    then obtain t where "ref = Str t" "take 2 t = ''#/''" by (auto simp: resolveLocalRef_def split: js.splits if_splits)
    then have "ref = Str (''#/'' @ drop 2 t)" by (metis append_take_drop_id)
    then show "refers_to rs ref r"
      using found at [of "drop 2 t"] split_at_no_sep unfolding refers by (intro exI [of _ "split_at (CHR ''/'') (drop 2 t)"]) (auto simp: join_split)
  qed
qed

lemma literal_issues_nil: "literal_issues rt s v p = Inr [] \<longleftrightarrow> literal_ok rt s v"
  by (auto simp: literal_issues_def literal_ok_def deepEqual_iff Let_def bind_res_eq_Inr list_ex_iff)

lemma string_issues_nil: "string_issues rt rx s t p = Inr [] \<longleftrightarrow> string_ok rt rx s t"
proof (cases "get s ''pattern'' = Undef")
  case True
  then show ?thesis by (auto simp: string_issues_def string_ok_def below_iff above_iff Let_def)
next
  case False
  then show ?thesis
    by (cases "rx (js_to_string rt (get s ''pattern'')) t") (auto simp: string_issues_def string_ok_def below_iff above_iff Let_def)
qed

lemma number_issues_nil: "number_issues rt s n p = [] \<longleftrightarrow> number_ok rt s n"
  by (simp add: number_issues_def number_ok_def lower_iff upper_iff)

lemma array_issues_nil: "array_issues rt s xs p = [] \<longleftrightarrow> array_ok rt s xs"
  unfolding array_ok_def distinct_texts [symmetric] by (auto simp: array_issues_def below_iff above_iff)

lemma object_issues_nil:
  "count_issues rt s (length kvs) p = [] \<and> required_issues rt s (Obj kvs) p = Inr [] \<longleftrightarrow> object_ok rt s kvs"
  by (auto simp: count_issues_def required_issues_def object_ok_def below_iff above_iff has_property_iff orelse_def Let_def bind_res_eq_Inr)

lemma mentions_get: "mentions k (get s p) \<Longrightarrow> mentions k s"
  by (cases s) (auto simp: list_ex_iff split: option.splits dest!: map_of_SomeD)

lemma mentions_own: "mentions k (own_prop s p) \<Longrightarrow> mentions k s"
proof -
  have "mentions k s" if "(p, v) \<in> set (own_entries s)" "mentions k v" for v
  proof (cases s)
    case (Str t)
    then show ?thesis using that own_entries_Str by fastforce
  qed (use that in \<open>auto simp: list_ex_iff dest: set_zip_rightD\<close>)
  then show "mentions k (own_prop s p) \<Longrightarrow> mentions k s"
    unfolding own_prop_def by (auto split: option.splits dest: map_of_SomeD)
qed

lemma mentions_resolved: "resolveLocalRef rs ref = Inr r \<Longrightarrow> mentions k r \<Longrightarrow> mentions k rs"
proof -
  have "mentions k (foldl own_prop v ps) \<Longrightarrow> mentions k v" for v ps
    by (induction ps arbitrary: v) (auto dest: mentions_own)
  then show "resolveLocalRef rs ref = Inr r \<Longrightarrow> mentions k r \<Longrightarrow> mentions k rs"
    by (auto simp: resolveLocalRef_def split: js.splits if_splits)
qed

lemma property_check_part: "property_check s q = Against p \<Longrightarrow> size p < size s \<and> (mentions k p \<longrightarrow> mentions k s)"
proof -
  assume a: "property_check s q = Against p"
  let ?table = "orelse (get s ''properties'') (Obj [])"
  have "size p < size s \<and> (mentions k p \<longrightarrow> mentions k s)" if "p = get s ''additionalProperties''" "is_object p"
  proof -
    from that have "p \<noteq> Undef" by auto
    then show ?thesis using that(1) size_get [of s "''additionalProperties''"] mentions_get [of k s "''additionalProperties''"] by simp
  qed
  moreover have "size p < size s \<and> (mentions k p \<longrightarrow> mentions k s)" if "map_of (own_entries ?table) q = Some p"
  proof -
    have "mentions k p \<Longrightarrow> mentions k ?table" using mentions_own [of k ?table q] that by (simp add: own_prop_def)
    then have "mentions k p \<Longrightarrow> mentions k s" using mentions_get [of k s "''properties''"] by (auto simp: orelse_def split: if_splits)
    then show ?thesis using size_table [of q p s "''properties''"] that by (auto dest: map_of_SomeD)
  qed
  ultimately show ?thesis
    using a by (auto simp: property_check_def property_slot_def Let_def split: slot.splits option.splits if_splits)
qed

lemma member_schema_part: "member_schema s q p \<Longrightarrow> size p < size s \<and> (mentions k p \<longrightarrow> mentions k s)"
  unfolding property_check_Against [symmetric] by (rule property_check_part)

lemma check_node_mono:
  assumes V: "\<And>s v p es. V s v p = Inr es \<Longrightarrow> W s v p = Inr es" and "check_node V rt rx rs s v p = Inr es"
  shows "check_node W rt rx rs s v p = Inr es"
proof -
  have r: "check_reference V rt rs ref v p = Inr x \<Longrightarrow> check_reference W rt rs ref v p = Inr x" for ref x
    using V by (auto simp: check_reference_def bind_res_eq_Inr split: if_splits)
  have alts: "map_res (\<lambda>alt. V alt v p) xs = Inr x \<Longrightarrow> map_res (\<lambda>alt. W alt v p) xs = Inr x" for xs x
    by (erule map_res_mono) (rule V)
  have o: "check_one_of V s v p = Inr x \<Longrightarrow> check_one_of W s v p = Inr x" for x
    by (auto simp: check_one_of_def bind_res_eq_Inr split: if_splits dest: alts)
  have i: "check_items V s xs p = Inr x \<Longrightarrow> check_items W s xs p = Inr x" for xs x
    using V by (auto simp: check_items_def split: if_splits elim!: map_res_mono)
  have "check_property V s p kv = Inr x \<Longrightarrow> check_property W s p kv = Inr x" for kv x
    by (cases kv) (auto simp: check_property_def split: check.splits dest: V)
  then have q: "map_res (check_property V s p) kvs = Inr x \<Longrightarrow> map_res (check_property W s p) kvs = Inr x" for kvs x
    by (rule map_res_mono [rotated])
  have c: "check_value V rt rx s v p = Inr x \<Longrightarrow> check_value W rt rx s v p = Inr x" for x
    by (cases v) (simp_all add: check_value_def bind_res_eq_Inr, (metis i q)+)
  show ?thesis
    using assms(2) unfolding check_node_def by (auto simp: bind_res_eq_Inr split: if_splits dest: r o c)
qed

lemma validateNode_mono: "validateNode n rt rx rs s v p = Inr es \<Longrightarrow> n \<le> m \<Longrightarrow> validateNode m rt rx rs s v p = Inr es"
proof -
  have "validateNode n rt rx rs s v p = Inr es \<Longrightarrow> validateNode (Suc n) rt rx rs s v p = Inr es" for n s v p es
    by (induction n arbitrary: s v p es) (auto elim: check_node_mono [rotated])
  then show "validateNode n rt rx rs s v p = Inr es \<Longrightarrow> n \<le> m \<Longrightarrow> validateNode m rt rx rs s v p = Inr es"
    by (induction m) (auto simp: le_Suc_eq simp del: validateNode.simps)
qed

lemma all_nil_map_res: "(\<exists>yss. map_res f xs = Inr yss \<and> (\<forall>ys \<in> set yss. ys = [])) \<longleftrightarrow> (\<forall>x \<in> set xs. f x = Inr [])"
  using map_res_nil [of f xs] by simp

lemma check_items_nil:
  "(\<exists>ess. check_items V s xs p = Inr ess \<and> (\<forall>es \<in> set ess. es = [])) \<longleftrightarrow>
   (truthy (get s ''items'') \<longrightarrow> (\<forall>i < length xs. V (get s ''items'') (xs ! i) (p @ CHR ''['' # show_nat i @ '']'') = Inr []))"
proof -
  have "(\<forall>x \<in> set (zip [0..<length xs] xs). Q x) \<longleftrightarrow> (\<forall>i < length xs. Q (i, xs ! i))" for Q :: "nat \<times> js \<Rightarrow> bool"
    by (auto simp: all_set_conv_all_nth)
  then show ?thesis
    using all_nil_map_res [of "\<lambda>(i, x). V (get s ''items'') x (p @ CHR ''['' # show_nat i @ '']'')" "zip [0..<length xs] xs"]
    by (simp add: check_items_def)
qed

lemma check_properties_nil:
  "(\<forall>x \<in> set kvs. check_property V s p x = Inr []) \<longleftrightarrow>
   (\<forall>k x. (k, x) \<in> set kvs \<longrightarrow> admits_name s k \<and> (\<forall>t. member_schema s k t \<longrightarrow> V t x (p @ ''.'' @ k) = Inr []))"
  unfolding property_check_admits [symmetric] property_check_Against [symmetric]
  by (auto simp: check_property_def split: check.splits prod.splits)

text \<open>A node without alternatives has no issue exactly when its own checks pass and the nodes it visits have none.\<close>

lemma check_value_nil:
  "check_value V rt rx s v p = Inr [] \<and> (get s ''type'' \<noteq> Undef \<longrightarrow> type_ok (get s ''type'') v) \<longleftrightarrow> value_ok rt rx s v \<and>
   (truthy (get s ''items'') \<longrightarrow> (\<forall>i < length (items v). V (get s ''items'') (items v ! i) (p @ CHR ''['' # show_nat i @ '']'') = Inr [])) \<and>
   (\<forall>x \<in> set (entries v). check_property V s p x = Inr [])"
proof (cases v)
  case (Arr xs)
  have "check_value V rt rx s (Arr xs) p = Inr [] \<longleftrightarrow> literal_ok rt s (Arr xs) \<and> array_ok rt s xs \<and>
      (\<exists>ess. check_items V s xs p = Inr ess \<and> (\<forall>es \<in> set ess. es = []))"
    by (auto simp: check_value_def bind_res_eq_Inr literal_issues_nil array_issues_nil)
  then show ?thesis unfolding Arr check_items_nil by (auto simp: value_ok_def)
next
  case (Obj kvs)
  have "check_value V rt rx s (Obj kvs) p = Inr [] \<longleftrightarrow> literal_ok rt s (Obj kvs) \<and> (count_issues rt s (length kvs) p = [] \<and> required_issues rt s (Obj kvs) p = Inr []) \<and>
      (\<exists>ess. map_res (check_property V s p) kvs = Inr ess \<and> (\<forall>es \<in> set ess. es = []))"
    by (auto simp: check_value_def bind_res_eq_Inr literal_issues_nil)
  then show ?thesis unfolding Obj object_issues_nil all_nil_map_res by (auto simp: value_ok_def)
qed (auto simp: check_value_def value_ok_def bind_res_eq_Inr literal_issues_nil string_issues_nil number_issues_nil)

lemma check_node_nil:
  assumes "\<not> mentions ''oneOf'' s"
  shows "check_node V rt rx rs s v p = Inr [] \<longleftrightarrow> s = Bool True \<or> is_object s \<and>
    (if truthy (get s ''$ref'') then \<exists>r. resolveLocalRef rs (get s ''$ref'') = Inr r \<and> truthy r \<and> V r v p = Inr []
     else check_value V rt rx s v p = Inr [] \<and> (get s ''type'' \<noteq> Undef \<longrightarrow> type_ok (get s ''type'') v))"
proof -
  have "get s ''oneOf'' = Undef" using assms by (cases s) (auto split: option.splits dest!: map_of_SomeD, force)
  then show ?thesis by (auto simp: check_node_def check_reference_def check_one_of_def bind_res_eq_Inr typesMatch_iff)
qed

lemma uniform_depth:
  fixes P :: "nat \<Rightarrow> 'a \<Rightarrow> bool"
  assumes "finite A" and "\<And>a. a \<in> A \<Longrightarrow> \<exists>n. P n a" and mono: "\<And>n m a. P n a \<Longrightarrow> n \<le> m \<Longrightarrow> P m a"
  shows "\<exists>n. \<forall>a \<in> A. P n a"
  using assms(1,2)
proof (induction A rule: finite_induct)
  case (insert a A)
  then obtain n m where "P n a" "\<forall>a \<in> A. P m a" by blast
  then have "\<forall>b \<in> insert a A. P (max n m) b" using mono [of n a "max n m"] mono [of m _ "max n m"] by auto
  then show ?case ..
qed simp

lemma accepts_conforms:
  "validateNode n rt rx rs s v p = Inr [] \<Longrightarrow> \<not> mentions ''oneOf'' s \<Longrightarrow> \<not> mentions ''oneOf'' rs \<Longrightarrow> conforms rt rx rs s v"
proof (induction n arbitrary: s v p)
  case (Suc n)
  from Suc.prems have nil: "check_node (validateNode n rt rx rs) rt rx rs s v p = Inr []" by simp
  consider (top) "s = Bool True"
    | (ref) r where "is_object s" "truthy (get s ''$ref'')" "resolveLocalRef rs (get s ''$ref'') = Inr r" "truthy r" "validateNode n rt rx rs r v p = Inr []"
    | (node) "is_object s" "\<not> truthy (get s ''$ref'')" "value_ok rt rx s v"
        "truthy (get s ''items'') \<longrightarrow> (\<forall>i < length (items v). validateNode n rt rx rs (get s ''items'') (items v ! i) (p @ CHR ''['' # show_nat i @ '']'') = Inr [])"
        "\<forall>x \<in> set (entries v). check_property (validateNode n rt rx rs) s p x = Inr []"
    using nil unfolding check_node_nil [OF Suc.prems(2)] check_value_nil by (auto split: if_splits)
  then show ?case
  proof cases
    case top
    then show ?thesis by (simp add: conforms.everything)
  next
    case ref
    have "\<not> mentions ''oneOf'' r" using mentions_resolved [OF ref(3)] Suc.prems(3) by blast
    then show ?thesis using conforms.reference [OF ref(1,2) _ ref(4)] refers_to_iff [OF ref(4)] ref(3) Suc.IH [OF ref(5)] Suc.prems(3) by blast
  next
    case node
    have part: "\<not> mentions ''oneOf'' (get s k)" for k using mentions_get Suc.prems(2) by blast
    show ?thesis
    proof (rule conforms.node [OF node(1-3)])
      fix x assume "x \<in> set (items v)" "truthy (get s ''items'')"
      then show "conforms rt rx rs (get s ''items'') x"
        using node(4) Suc.IH [OF _ part Suc.prems(3)] by (metis in_set_conv_nth)
    next
      fix k x assume "(k, x) \<in> set (entries v)"
      then show "admits_name s k" using node(5) unfolding check_properties_nil by blast
    next
      fix k x t assume kx: "(k, x) \<in> set (entries v)" "member_schema s k t"
      then have "validateNode n rt rx rs t x (p @ ''.'' @ k) = Inr []" using node(5) unfolding check_properties_nil by blast
      moreover have "\<not> mentions ''oneOf'' t" using member_schema_part [OF kx(2)] Suc.prems(2) by blast
      ultimately show "conforms rt rx rs t x" using Suc.IH Suc.prems(3) by blast
    qed
  qed
qed simp

lemma conforms_accepts:
  "conforms rt rx rs s v \<Longrightarrow> \<not> mentions ''oneOf'' s \<Longrightarrow> \<not> mentions ''oneOf'' rs \<Longrightarrow> \<exists>n. \<forall>p. validateNode n rt rx rs s v p = Inr []"
proof (induction rule: conforms.induct)
  case (everything v)
  show ?case by (intro exI [of _ "Suc 0"]) (simp add: check_node_def)
next
  case (reference s r v)
  have found: "resolveLocalRef rs (get s ''$ref'') = Inr r" using reference refers_to_iff by blast
  then obtain n where "\<forall>p. validateNode n rt rx rs r v p = Inr []" using mentions_resolved reference by blast
  with reference found show ?case by (intro exI [of _ "Suc n"]) (auto simp: check_node_nil)
next
  case (node s v)
  let ?ok = "\<lambda>n t x. \<forall>p. validateNode n rt rx rs t x p = Inr []"
  have mono: "?ok n t x \<Longrightarrow> n \<le> m \<Longrightarrow> ?ok m t x" for n m t x using validateNode_mono by blast
  have "\<exists>n. \<forall>x \<in> set (items v). truthy (get s ''items'') \<longrightarrow> ?ok n (get s ''items'') x"
    using node mentions_get by (intro uniform_depth) (auto, blast, metis mono)
  then obtain n where n: "\<And>x. x \<in> set (items v) \<Longrightarrow> truthy (get s ''items'') \<Longrightarrow> ?ok n (get s ''items'') x" by blast
  have "\<exists>m. \<forall>kx \<in> set (entries v). \<forall>t. member_schema s (fst kx) t \<longrightarrow> ?ok m t (snd kx)"
  proof (rule uniform_depth)
    fix kx assume kx: "kx \<in> set (entries v)"
    show "\<exists>m. \<forall>t. member_schema s (fst kx) t \<longrightarrow> ?ok m t (snd kx)"
    proof (cases "property_check s (fst kx)")
      case (Against t)
      then have t: "member_schema s (fst kx) t" by (simp add: property_check_Against)
      moreover have "\<not> mentions ''oneOf'' t" using member_schema_part [OF t] node.prems(1) by blast
      ultimately obtain m where "?ok m t (snd kx)" using node(8) [of "fst kx" "snd kx" t] kx node.prems(2) by auto
      moreover have "u = t" if "member_schema s (fst kx) u" for u using that Against by (simp add: property_check_Against [symmetric])
      ultimately show ?thesis by blast
    qed (simp_all add: property_check_Against [symmetric])
  qed (simp, use validateNode_mono in blast)
  then obtain m where m: "\<And>k x t. (k, x) \<in> set (entries v) \<Longrightarrow> member_schema s k t \<Longrightarrow> ?ok m t x" by fastforce
  let ?V = "validateNode (max n m) rt rx rs"
  have "?ok (max n m) (get s ''items'') x" if "x \<in> set (items v)" "truthy (get s ''items'')" for x using n [OF that] mono by (meson max.cobounded1)
  moreover have "?ok (max n m) t x" if "(k, x) \<in> set (entries v)" "member_schema s k t" for k x t using m [OF that] mono by (meson max.cobounded2)
  ultimately have "check_value ?V rt rx s v p = Inr [] \<and> (get s ''type'' \<noteq> Undef \<longrightarrow> type_ok (get s ''type'') v)" for p
    unfolding check_value_nil check_properties_nil using node(3,5) by auto
  then show ?case using node by (intro exI [of _ "Suc (max n m)"]) (simp add: check_node_nil)
qed

section \<open>Properties\<close>


lemma map_res_overflow: "map_res f xs = Inl e \<Longrightarrow> \<exists>x \<in> set xs. f x = Inl e"
  by (induction xs) (auto simp: bind_res_def split: sum.splits)

lemma bind_res_eq_Inl: "bind_res m f = Inl e \<longleftrightarrow> m = Inl e \<or> (\<exists>x. m = Inr x \<and> f x = Inl e)"
  by (cases m) auto

lemma local_checks_return:
  "js_array v \<noteq> Inl stack_overflow" "js_iter v \<noteq> Inl stack_overflow" "literal_issues rt s v p \<noteq> Inl stack_overflow"
  "string_issues rt rx s t p \<noteq> Inl stack_overflow" "required_issues rt s v p \<noteq> Inl stack_overflow"
proof -
  show a: "js_array v \<noteq> Inl stack_overflow" for v by (cases v) (simp_all add: stack_overflow_def)
  show i: "js_iter v \<noteq> Inl stack_overflow" for v by (cases v) (simp_all add: stack_overflow_def)
  show "literal_issues rt s v p \<noteq> Inl stack_overflow" by (auto simp: literal_issues_def Let_def bind_res_eq_Inl a)
  show "string_issues rt rx s t p \<noteq> Inl stack_overflow"
    by (auto simp: string_issues_def Let_def stack_overflow_def split: option.splits)
  show "required_issues rt s v p \<noteq> Inl stack_overflow" by (auto simp: required_issues_def bind_res_eq_Inl i)
qed

lemma validateNode_returns:
  "\<not> mentions ''$ref'' s \<Longrightarrow> size s < n \<Longrightarrow> validateNode n rt rx rs s v p \<noteq> Inl stack_overflow"
proof (induction n arbitrary: s v p)
  case (Suc n)
  let ?V = "validateNode n rt rx rs"
  have noref: "get s ''$ref'' = Undef" using Suc.prems(1) by (cases s) (auto split: option.splits dest!: map_of_SomeD, force)
  have sub: "?V t x q \<noteq> Inl stack_overflow" if "size t < size s" "mentions ''$ref'' t \<longrightarrow> mentions ''$ref'' s" for t x q
    using Suc.IH [of t x q] Suc.prems that by simp
  have o: "check_one_of ?V s v p \<noteq> Inl stack_overflow"
  proof -
    have "?V t v p \<noteq> Inl stack_overflow" if "get s ''oneOf'' = Arr xs" "t \<in> set xs" for t xs
      using sub [of t] size_one_of [of t s "''oneOf''"] mentions_get [of "''$ref''" s "''oneOf''"] that by (auto simp: list_ex_iff)
    then show ?thesis by (auto simp: check_one_of_def bind_res_eq_Inl local_checks_return dest!: map_res_overflow)
  qed
  have i: "check_items ?V s xs p \<noteq> Inl stack_overflow" for xs
  proof
    assume bad: "check_items ?V s xs p = Inl stack_overflow"
    then have t: "truthy (get s ''items'')" by (simp add: check_items_def split: if_splits)
    then have "get s ''items'' \<noteq> Undef" by auto
    then have "?V (get s ''items'') x q \<noteq> Inl stack_overflow" for x q
      using sub [of "get s ''items''" x q] size_get [of s "''items''"] mentions_get [of "''$ref''" s "''items''"] by blast
    then show False using bad t by (auto simp: check_items_def dest!: map_res_overflow)
  qed
  have "check_property ?V s p kx \<noteq> Inl stack_overflow" for kx
    using sub property_check_part [of s _ _ "''$ref''"] by (fastforce simp: check_property_def split: check.splits prod.splits)
  then have q: "map_res (check_property ?V s p) kvs \<noteq> Inl stack_overflow" for kvs by (auto dest!: map_res_overflow)
  show ?case
    using o by (auto simp: check_node_def noref check_value_def bind_res_eq_Inl local_checks_return i q split: js.splits)
qed simp

definition name_schema :: js where
  "name_schema = Obj [(''type'', Str ''object''), (''properties'', Obj [(''name'', Obj [(''type'', Str ''string''), (''minLength'', Num 1)])]),
     (''required'', Arr [Str ''name'']), (''additionalProperties'', Bool False)]"


text \<open>Validation returns. Against a schema that contains no reference the validator never runs out of stack, whatever
  the value, as soon as the stack is deeper than the schema is large.\<close>

theorem validation_returns:
  assumes "\<not> mentions ''$ref'' schema" and "size schema < stack"
  shows "validateNode stack rt rx schema schema value path \<noteq> Inl stack_overflow"
  using assms by (rule validateNode_returns)

theorem validation_returns_witness:
  "validateNode 5 sample_runtime (\<lambda>_ _. None) (Obj [(''type'', Str ''string'')]) (Obj [(''type'', Str ''string'')]) (Arr []) ''$'' \<noteq> Inl stack_overflow"
  by (rule validation_returns) simp_all

text \<open>With references it need not: a definition that refers to itself exhausts every stack.\<close>

definition loop_schema :: js where
  "loop_schema = Obj [(''$ref'', Str ''#/$defs/a''), (''$defs'', Obj [(''a'', Obj [(''$ref'', Str ''#/$defs/a'')])])]"

lemma reference_loop_overflows:
  "assertSupportedSchema loop_schema = Inr () \<and> validateNode n rt rx loop_schema loop_schema value path = Inl stack_overflow"
proof -
  let ?a = "Obj [(''$ref'', Str ''#/$defs/a'')]"
  have r: "resolveLocalRef loop_schema (Str ''#/$defs/a'') = Inr ?a" by code_simp
  have "validateNode m rt rx loop_schema ?a value path = Inl stack_overflow" for m
    by (induction m) (simp_all add: check_node_def check_reference_def r)
  then have "validateNode n rt rx loop_schema loop_schema value path = Inl stack_overflow"
    by (cases n) (simp_all add: check_node_def check_reference_def r, simp add: loop_schema_def check_reference_def r [unfolded loop_schema_def])
  moreover have "assertSupportedSchema loop_schema = Inr ()" by code_simp
  ultimately show ?thesis by simp
qed

text \<open>A closed object schema is not closed. Whatever object a schema accepts, it still accepts with a member called
  \<open>__proto__\<close> of any value added, even when it forbids additional properties: the lookup in the property table finds
  the prototype of the table, which is an empty schema.\<close>

theorem closed_schema_admits_proto_member:
  assumes "validateNode n rt rx rs s (Obj kvs) p = Inr []"
    and "get s ''additionalProperties'' = Bool False" and "get s ''properties'' = Obj ps" and "''__proto__'' \<notin> fst ` set ps"
    and "get s ''$ref'' = Undef" and "get s ''oneOf'' = Undef" and "get s ''const'' = Undef" and "get s ''enum'' = Undef" and "get s ''maxProperties'' = Undef"
  shows "validateNode n rt rx rs s (Obj (kvs @ [(''__proto__'', x)])) p = Inr []"
proof (cases n)
  case (Suc m)
  let ?V = "validateNode m rt rx rs" and ?v = "Obj (kvs @ [(''__proto__'', x)])"
  have s: "is_object s" using assms(2) by (cases s) auto
  have node: "check_node V rt rx rs s v p = Inr [] \<longleftrightarrow> check_value V rt rx s v p = Inr [] \<and> (get s ''type'' \<noteq> Undef \<longrightarrow> type_ok (get s ''type'') v)" for V v
    using s assms(5,6) by (auto simp: check_node_def check_one_of_def typesMatch_iff)
  have "property_check s ''__proto__'' = Anything"
    using assms(3,4) by (auto simp: property_check_def property_slot_def orelse_def split: option.splits dest!: map_of_SomeD) force
  then have "check_property V s p (''__proto__'', x) = Inr []" for V by (simp add: check_property_def)
  moreover have "type_ok t (Obj kvs) \<longleftrightarrow> type_ok t ?v" for t by (simp add: type_ok_def has_type_iff)
  moreover have "object_ok rt s kvs \<Longrightarrow> object_ok rt s (kvs @ [(''__proto__'', x)])"
    using assms(9) unfolding object_ok_def lower_ok_def upper_ok_def by fastforce
  ultimately show ?thesis
    using assms(1,7,8) unfolding Suc validateNode.simps node check_value_nil by (auto simp: value_ok_def literal_ok_def)
qed (use assms(1) in simp)

theorem closed_schema_admits_proto_member_witness:
  "validateNode 2 sample_runtime (\<lambda>_ _. None) Null (Obj [(''type'', Str ''object''), (''additionalProperties'', Bool False), (''properties'', Obj [])])
     (Obj [(''__proto__'', Num 5)]) ''$'' = Inr []"
proof -
  let ?s = "Obj [(''type'', Str ''object''), (''additionalProperties'', Bool False), (''properties'', Obj [])]"
  have "validateNode 2 sample_runtime (\<lambda>_ _. None) Null ?s (Obj []) ''$'' = Inr []" by code_simp
  from closed_schema_admits_proto_member [OF this, where ps = "[]" and x = "Num 5"] show ?thesis by simp
qed

end
