(* ===== verification/ToolManifest.thy ===== *)
theory ToolManifest
  imports Policy Schema
begin

text \<open>
  packages/tool-registry/src/index.mjs, first part: the validation of reviewed tool manifests
  and the loading of the catalog that pins their checksums. An error is its code; an error
  that carries no code of the registry is kept apart. Files and the parser of JSON texts are
  arguments.
\<close>

section \<open>Errors and constants\<close>

datatype tool_error = Tool string | Uncoded

definition TOOL_ERROR_CODES :: "string list" where
  "TOOL_ERROR_CODES =
    [''tool_not_registered'', ''tool_disabled'', ''tool_manifest_invalid'', ''tool_manifest_checksum_mismatch'', ''tool_operation_not_declared'',
     ''tool_trusted_context_required'', ''tool_request_invalid'', ''tool_input_schema_failed'', ''tool_policy_denied'', ''tool_approval_required'',
     ''tool_approval_invalid'', ''tool_idempotency_required'', ''tool_grant_invalid'', ''tool_grant_expired'', ''tool_grant_consumed'',
     ''tool_grant_binding_mismatch'', ''tool_sandbox_unavailable'', ''tool_filesystem_denied'', ''tool_network_denied'', ''tool_secret_denied'',
     ''tool_timeout'', ''tool_cancelled'', ''tool_output_too_large'', ''tool_output_schema_failed'', ''tool_effect_boundary_required'',
     ''tool_idempotency_conflict'', ''tool_execution_failed'']"

definition CATALOG_KEYS :: "string list" where
  "CATALOG_KEYS = [''schemaVersion'', ''entries'']"

definition CATALOG_ENTRY_KEYS :: "string list" where
  "CATALOG_ENTRY_KEYS = [''toolId'', ''manifestPath'', ''sha256'', ''enabled'', ''handlerBindingId'', ''reviewStatus'', ''reviewVersion'', ''disabledReason'']"

definition MANIFEST_KEYS :: "string list" where
  "MANIFEST_KEYS = [''schemaVersion'', ''contractVersion'', ''id'', ''name'', ''version'', ''handlerBindingId'', ''operations'']"

definition TOOL_OPERATION_KEYS :: "string list" where
  "TOOL_OPERATION_KEYS = [''sideEffectClass'', ''inputSchema'', ''outputSchema'', ''filesystem'', ''network'', ''secretReferences'', ''dataClasses'',
     ''sandbox'', ''limits'', ''approval'', ''idempotency'']"

definition TOOL_LIMIT_KEYS :: "string list" where
  "TOOL_LIMIT_KEYS = [''runtimeMs'', ''inputBytes'', ''outputBytes'', ''memoryBytes'', ''invocationCount'', ''costUnits'', ''retryCount'']"

definition INVOCATION_KEYS :: "string list" where
  "INVOCATION_KEYS = [''schemaVersion'', ''requestId'', ''correlationId'', ''workspaceId'', ''runId'', ''stepId'', ''actorId'', ''trustedContext'', ''toolId'',
     ''toolVersion'', ''manifestFingerprint'', ''operation'', ''input'', ''requestedCapability'', ''dataClass'', ''approvalContext'', ''idempotencyKey'',
     ''effectBoundary'', ''timeoutMs'', ''outputLimitBytes'', ''trustedTimestamp'', ''signal'', ''secretResolver'']"

definition FORGED_AUTHORITY_KEYS :: "string list" where
  "FORGED_AUTHORITY_KEYS = [''role'', ''isOwner'', ''policyOutcome'', ''externalWritesEnabled'', ''allowedPaths'', ''allowedDomains'', ''secretValues'',
     ''sandboxProfile'', ''approvalValid'']"

definition SANDBOX_PROFILES :: "string list" where
  "SANDBOX_PROFILES = [''pure-local'', ''brokered-filesystem-read'', ''brokered-filesystem-write'', ''brokered-loopback-http'', ''brokered-secret-reference'']"

record tool_limits =
  catalogBytes :: nat
  manifestBytes :: nat
  tl_inputBytes :: nat
  tl_outputBytes :: nat
  tl_runtimeMs :: nat
  grantTtlMs :: nat
  pathBytes :: nat
  readBytes :: nat
  writeBytes :: nat
  networkResponseBytes :: nat

definition TOOL_LIMITS :: tool_limits where
  "TOOL_LIMITS = \<lparr>catalogBytes = 256 * 1024, manifestBytes = 128 * 1024, tl_inputBytes = 64 * 1024, tl_outputBytes = 64 * 1024, tl_runtimeMs = 30000,
     grantTtlMs = 30000, pathBytes = 240, readBytes = 64 * 1024, writeBytes = 64 * 1024, networkResponseBytes = 64 * 1024\<rparr>"

section \<open>Checks on objects\<close>

definition stableToolFingerprint :: "runtime \<Rightarrow> js \<Rightarrow> string" where
  "stableToolFingerprint rt v = ''sha256:'' @ sha256_hex rt (canonicalStringify rt v)"

definition assertObject :: "js \<Rightarrow> (tool_error, unit) result" where
  "assertObject v = require (is_plain v) (Tool ''tool_request_invalid'')"

definition assertKnownKeys :: "js \<Rightarrow> string list \<Rightarrow> string \<Rightarrow> (tool_error, unit) result" where
  "assertKnownKeys v allowed code = require (list_all (\<lambda>k. k \<in> set allowed) (keys v)) (Tool code)"

definition assertNoForgedAuthority :: "js \<Rightarrow> (tool_error, unit) result" where
  "assertNoForgedAuthority v = require (list_all (\<lambda>k. k \<notin> set FORGED_AUTHORITY_KEYS) (map fst (own_entries v))) (Tool ''tool_request_invalid'')"

text \<open>\<open>bytes > limit\<close> with a limit of any kind.\<close>

definition boundedJsonBytes :: "runtime \<Rightarrow> js \<Rightarrow> js \<Rightarrow> string \<Rightarrow> (tool_error, unit) result" where
  "boundedJsonBytes rt v limit code =
     (if v = Undef then Inl Uncoded
      else require (\<not> num_greater rt (of_nat (length (jsonStringify rt v))) limit) (Tool code))"

definition safeClone :: "js \<Rightarrow> js" where
  "safeClone v = (if v = Undef then Undef else deepClone v)"

text \<open>\<open>/^prefix[class]{lo,hi}$/.test(v)\<close>, where \<open>test\<close> converts its argument.\<close>

definition name_test :: "runtime \<Rightarrow> string \<Rightarrow> (char \<Rightarrow> bool) \<Rightarrow> nat \<Rightarrow> nat \<Rightarrow> js \<Rightarrow> bool" where
  "name_test rt prefix cls lo hi v =
     (let s = js_to_string rt v; r = drop (length prefix) s
      in take (length prefix) s = prefix \<and> lo \<le> length r \<and> length r \<le> hi \<and> list_all cls r)"

definition name_char :: "char \<Rightarrow> bool" where
  "name_char c \<longleftrightarrow> is_alnum c \<or> c \<in> {CHR ''_'', CHR ''.'', CHR '':'', CHR ''-''}"

definition tool_id_char :: "char \<Rightarrow> bool" where
  "tool_id_char c \<longleftrightarrow> name_char c \<and> \<not> is_upper c"

definition control_char :: "char \<Rightarrow> bool" where
  "control_char c \<longleftrightarrow> (of_char c :: nat) < 32 \<or> (of_char c :: nat) = 127"

definition hex_char :: "char \<Rightarrow> bool" where
  "hex_char c \<longleftrightarrow> is_digit c \<or> c \<in> {CHR ''a'', CHR ''b'', CHR ''c'', CHR ''d'', CHR ''e'', CHR ''f''}"

fun has_prefix :: "string \<Rightarrow> js \<Rightarrow> bool" where
  "has_prefix p (Str s) = (take (length p) s = p)"
| "has_prefix p _ = False"

section \<open>Manifests\<close>

fun valid_scope_text :: "string \<Rightarrow> bool" where
  "valid_scope_text s \<longleftrightarrow> length s \<le> 256 \<and> take 10 s = ''workspace:'' \<and> \<not> list_ex control_char s \<and> CHR 0x5C \<notin> set s \<and>
     drop 10 s \<noteq> [] \<and> \<not> list_ex (\<lambda>part. part \<in> {[], ''.'', ''..''}) (split_at (CHR ''/'') (drop 10 s))"

fun validWorkspaceScope :: "js \<Rightarrow> bool" where
  "validWorkspaceScope (Str s) = valid_scope_text s"
| "validWorkspaceScope _ = False"

record engine =
  eg_runtime :: runtime
  eg_matcher :: matcher
  eg_stack :: nat

text \<open>Only the error of an unsupported keyword counts; any other error of the probe is ignored.\<close>

definition validateSchemaSubset :: "engine \<Rightarrow> js \<Rightarrow> (tool_error, unit) result" where
  "validateSchemaSubset eg schema =
     require (\<not> mentions ''oneOf'' schema \<and>
       validateJsonSchema (eg_stack eg) (eg_runtime eg) (eg_matcher eg) schema (Obj []) \<noteq> Inl (ThrownError ''unsupported_schema_keyword''))
       (Tool ''tool_manifest_invalid'')"

definition validateFilesystemShape :: "js \<Rightarrow> (tool_error, unit) result" where
  "validateFilesystemShape v =
     bind_res (assertObject v) (\<lambda>_.
     bind_res (assertKnownKeys v FILESYSTEM_KEYS ''tool_manifest_invalid'') (\<lambda>_.
       all_ok (\<lambda>k. require (is_arr (get v k) \<and> list_all validWorkspaceScope (items (get v k))) (Tool ''tool_manifest_invalid'')) [''read'', ''write'']))"

definition network_ok :: "js \<Rightarrow> bool" where
  "network_ok item \<longleftrightarrow> str_in (get item ''protocol'') [''http'', ''https''] \<and> is_str (get item ''host'') \<and>
     (case get item ''port'' of Num n \<Rightarrow> n = of_int \<lfloor>n\<rfloor> | _ \<Rightarrow> False) \<and>
     is_arr (get item ''methods'') \<and> list_all (\<lambda>m. str_in m [''GET'', ''HEAD'']) (items (get item ''methods'')) \<and>
     str_in (get item ''consequence'') [''read'', ''write''] \<and> str_in (get item ''locality'') [''loopback'', ''external'']"

definition validateNetworkShape :: "js \<Rightarrow> (tool_error, unit) result" where
  "validateNetworkShape v =
     bind_res (require (is_arr v \<and> length (items v) \<le> 16) (Tool ''tool_manifest_invalid'')) (\<lambda>_.
       all_ok (\<lambda>item. bind_res (assertObject item) (\<lambda>_.
         bind_res (assertKnownKeys item NETWORK_KEYS ''tool_manifest_invalid'') (\<lambda>_.
           require (network_ok item) (Tool ''tool_manifest_invalid'')))) (items v))"

definition validateOperation :: "engine \<Rightarrow> js \<Rightarrow> (tool_error, unit) result" where
  "validateOperation eg operation =
     (let bad = Tool ''tool_manifest_invalid'' in
      bind_res (assertObject operation) (\<lambda>_.
      bind_res (assertKnownKeys operation TOOL_OPERATION_KEYS ''tool_manifest_invalid'') (\<lambda>_.
      bind_res (require (str_in (get operation ''sideEffectClass'') [''read-only'', ''reversible-write'', ''consequential-write'']) bad) (\<lambda>_.
      bind_res (require (str_in (get operation ''sandbox'') SANDBOX_PROFILES) bad) (\<lambda>_.
      bind_res (validateSchemaSubset eg (get operation ''inputSchema'')) (\<lambda>_.
      bind_res (validateSchemaSubset eg (get operation ''outputSchema'')) (\<lambda>_.
      bind_res (validateFilesystemShape (get operation ''filesystem'')) (\<lambda>_.
      bind_res (validateNetworkShape (orelse (get operation ''network'') (Arr []))) (\<lambda>_.
      bind_res (require (is_arr (get operation ''secretReferences'') \<and>
          list_all (name_test (eg_runtime eg) ''secret:'' name_char 1 120) (items (get operation ''secretReferences''))) bad) (\<lambda>_.
      bind_res (require (is_arr (get operation ''dataClasses'') \<and>
          list_all (\<lambda>c. str_in c [''public'', ''workspace-private'', ''confidential'', ''secret'']) (items (get operation ''dataClasses''))) bad) (\<lambda>_.
      bind_res (assertObject (get operation ''limits'')) (\<lambda>_.
      bind_res (assertKnownKeys (get operation ''limits'') TOOL_LIMIT_KEYS ''tool_manifest_invalid'') (\<lambda>_.
      bind_res (assertObject (get operation ''approval'')) (\<lambda>_.
      bind_res (assertKnownKeys (get operation ''approval'') [''required''] ''tool_manifest_invalid'') (\<lambda>_.
      bind_res (assertObject (get operation ''idempotency'')) (\<lambda>_.
        assertKnownKeys (get operation ''idempotency'') [''required''] ''tool_manifest_invalid''))))))))))))))))"

fun nonempty_str :: "js \<Rightarrow> bool" where
  "nonempty_str (Str s) = (s \<noteq> [])"
| "nonempty_str _ = False"

definition operation_name :: "string \<Rightarrow> bool" where
  "operation_name s \<longleftrightarrow> (case s of [] \<Rightarrow> False | c # r \<Rightarrow> (is_upper c \<or> is_lower c) \<and> length r \<le> 79 \<and> list_all name_char r)"

definition validateReviewedToolManifest :: "engine \<Rightarrow> js \<Rightarrow> (tool_error, js) result" where
  "validateReviewedToolManifest eg manifest =
     (let bad = Tool ''tool_manifest_invalid''; ops = entries (get manifest ''operations'') in
      bind_res (assertObject manifest) (\<lambda>_.
      bind_res (assertKnownKeys manifest MANIFEST_KEYS ''tool_manifest_invalid'') (\<lambda>_.
      bind_res (require (get manifest ''schemaVersion'' = Str ''1.1.0'' \<and> get manifest ''contractVersion'' = Str ''1.0.0'') bad) (\<lambda>_.
      bind_res (require (name_test (eg_runtime eg) ''tool:'' tool_id_char 1 120 (get manifest ''id'')) bad) (\<lambda>_.
      bind_res (require (nonempty_str (get manifest ''name'') \<and> nonempty_str (get manifest ''version'')) bad) (\<lambda>_.
      bind_res (require (has_prefix ''handler:'' (get manifest ''handlerBindingId'')) bad) (\<lambda>_.
      bind_res (assertObject (get manifest ''operations'')) (\<lambda>_.
      bind_res (require (ops \<noteq> [] \<and> length ops \<le> 16) bad) (\<lambda>_.
      bind_res (all_ok (\<lambda>(name, operation). bind_res (require (operation_name name) bad) (\<lambda>_. validateOperation eg operation)) ops) (\<lambda>_.
        Inr manifest))))))))))"

section \<open>The catalog\<close>

text \<open>\<open>path.resolve\<close> on absolute roots, with the separator \<open>/\<close>.\<close>

fun normal_parts :: "string list \<Rightarrow> string list \<Rightarrow> string list" where
  "normal_parts acc [] = rev acc"
| "normal_parts acc (p # ps) = normal_parts (if p = [] \<or> p = ''.'' then acc else if p = ''..'' then tl acc else p # acc) ps"

definition path_resolve :: "string \<Rightarrow> string \<Rightarrow> string" where
  "path_resolve from p = ''/'' @ join ''/'' (normal_parts [] (split_at (CHR ''/'') (if take 1 p = ''/'' then p else from @ ''/'' @ p)))"

definition path_dirname :: "string \<Rightarrow> string" where
  "path_dirname p = ''/'' @ join ''/'' (butlast (normal_parts [] (split_at (CHR ''/'') p)))"

definition inside :: "string \<Rightarrow> string \<Rightarrow> bool" where
  "inside dir p \<longleftrightarrow> take (length dir + 1) p = dir @ ''/''"

text \<open>The file system as the loader sees it: \<open>realpath\<close>, the content of a file, and parsing.\<close>

record files =
  fs_realpath :: "string \<Rightarrow> string option"
  fs_content :: "string \<Rightarrow> string option"
  fs_parse :: "string \<Rightarrow> js option"

fun includes_dots :: "string \<Rightarrow> bool" where
  "includes_dots (a # b # s) = (a = CHR ''.'' \<and> b = CHR ''.'' \<or> includes_dots (b # s))"
| "includes_dots _ = False"

definition manifest_path_ok :: "js \<Rightarrow> bool" where
  "manifest_path_ok v = (case v of Str p \<Rightarrow> p \<noteq> [] \<and> take 1 p \<noteq> ''/'' \<and> \<not> includes_dots p \<and> CHR 0x5C \<notin> set p \<and> \<not> list_ex control_char p | _ \<Rightarrow> False)"

definition catalogEntryCheck :: "runtime \<Rightarrow> js \<Rightarrow> (tool_error, unit) result" where
  "catalogEntryCheck rt entry =
     bind_res (assertObject entry) (\<lambda>_.
     bind_res (assertKnownKeys entry CATALOG_ENTRY_KEYS ''tool_manifest_invalid'') (\<lambda>_.
       require (name_test rt ''tool:'' tool_id_char 1 120 (get entry ''toolId'') \<and> manifest_path_ok (get entry ''manifestPath'') \<and>
         name_test rt [] hex_char 64 64 (get entry ''sha256'') \<and> is_bool (get entry ''enabled'') \<and>
         has_prefix ''handler:'' (get entry ''handlerBindingId'') \<and>
         (get entry ''reviewStatus'' = Str ''reviewed'' \<or> get entry ''reviewStatus'' = Str ''disabled'') \<and>
         nonempty_str (get entry ''reviewVersion'')) (Tool ''tool_manifest_invalid'')))"

record tool =
  t_entry :: js
  t_manifest :: js
  t_manifestFingerprint :: string
  t_enabled :: bool

definition readBoundedFile :: "files \<Rightarrow> string \<Rightarrow> nat \<Rightarrow> (tool_error, string) result" where
  "readBoundedFile fs file limit = (case fs_content fs file of
     None \<Rightarrow> Inl Uncoded | Some data \<Rightarrow> if limit < length data then Inl (Tool ''tool_manifest_invalid'') else Inr data)"

definition realpath :: "files \<Rightarrow> string \<Rightarrow> (tool_error, string) result" where
  "realpath fs p = (case fs_realpath fs p of None \<Rightarrow> Inl Uncoded | Some r \<Rightarrow> Inr r)"

definition parse_file :: "files \<Rightarrow> string \<Rightarrow> (tool_error, js) result" where
  "parse_file fs data = (case fs_parse fs data of None \<Rightarrow> Inl (Tool ''tool_manifest_invalid'') | Some v \<Rightarrow> Inr v)"

text \<open>What the loop over the entries has seen.\<close>

record seen =
  seenTools :: "js list"
  seenBindings :: "js list"

definition load_entry :: "engine \<Rightarrow> files \<Rightarrow> tool_limits \<Rightarrow> string \<Rightarrow> js \<Rightarrow> (tool_error, tool) result" where
  "load_entry eg fs limits rootReal entry =
     (let bad = Tool ''tool_manifest_invalid'' in
      bind_res (realpath fs (path_resolve rootReal (js_to_string (eg_runtime eg) (get entry ''manifestPath'')))) (\<lambda>manifestReal.
      bind_res (require (inside rootReal manifestReal) bad) (\<lambda>_.
      bind_res (readBoundedFile fs manifestReal (manifestBytes limits)) (\<lambda>data.
      bind_res (require (Str (sha256_hex (eg_runtime eg) data) = get entry ''sha256'') (Tool ''tool_manifest_checksum_mismatch'')) (\<lambda>_.
      bind_res (parse_file fs data) (\<lambda>manifest.
      bind_res (validateReviewedToolManifest eg manifest) (\<lambda>_.
      bind_res (require (strict_eq (get manifest ''id'') (get entry ''toolId'') \<and> strict_eq (get manifest ''handlerBindingId'') (get entry ''handlerBindingId'')) bad) (\<lambda>_.
        Inr \<lparr>t_entry = safeClone entry, t_manifest = manifest, t_manifestFingerprint = stableToolFingerprint (eg_runtime eg) manifest,
          t_enabled = (get entry ''enabled'' = Bool True)\<rparr>))))))))"

text \<open>A second entry for a tool is refused, so the check on the pair of tool and path adds nothing.\<close>

fun load_entries :: "engine \<Rightarrow> files \<Rightarrow> tool_limits \<Rightarrow> string \<Rightarrow> seen \<Rightarrow> js list \<Rightarrow> (tool_error, tool list) result" where
  "load_entries eg fs limits rootReal sn [] = Inr []"
| "load_entries eg fs limits rootReal sn (entry # es) =
     (let bad = Tool ''tool_manifest_invalid''; on = truthy (get entry ''enabled'') in
      bind_res (catalogEntryCheck (eg_runtime eg) entry) (\<lambda>_.
      bind_res (require (get entry ''toolId'' \<notin> set (seenTools sn)) bad) (\<lambda>_.
      bind_res (require (\<not> on \<or> get entry ''handlerBindingId'' \<notin> set (seenBindings sn)) bad) (\<lambda>_.
      bind_res (load_entry eg fs limits rootReal entry) (\<lambda>t.
      bind_res (load_entries eg fs limits rootReal
          \<lparr>seenTools = get entry ''toolId'' # seenTools sn, seenBindings = (if on then get entry ''handlerBindingId'' # seenBindings sn else seenBindings sn)\<rparr> es) (\<lambda>ts.
        Inr (t # ts)))))))"

definition loadReviewedToolCatalog :: "engine \<Rightarrow> files \<Rightarrow> tool_limits \<Rightarrow> string \<Rightarrow> string \<Rightarrow> string \<Rightarrow> (tool_error, tool list) result" where
  "loadReviewedToolCatalog eg fs limits cwd catalogPath manifestRoot =
     (let bad = Tool ''tool_manifest_invalid'' in
      bind_res (realpath fs (path_resolve cwd manifestRoot)) (\<lambda>rootReal.
      bind_res (realpath fs (path_resolve cwd catalogPath)) (\<lambda>catalogReal.
      bind_res (require (inside rootReal catalogReal \<or> path_dirname catalogReal = rootReal) bad) (\<lambda>_.
      bind_res (readBoundedFile fs catalogReal (catalogBytes limits)) (\<lambda>data.
      bind_res (parse_file fs data) (\<lambda>catalog.
      bind_res (assertObject catalog) (\<lambda>_.
      bind_res (assertKnownKeys catalog CATALOG_KEYS ''tool_manifest_invalid'') (\<lambda>_.
      bind_res (require (get catalog ''schemaVersion'' = Str ''1.0.0'' \<and> is_arr (get catalog ''entries'')) bad) (\<lambda>_.
        load_entries eg fs limits rootReal \<lparr>seenTools = [], seenBindings = []\<rparr> (items (get catalog ''entries'')))))))))))"

section \<open>What a loaded catalog guarantees\<close>

lemma load_entries_ok:
  "load_entries eg fs limits r sn es = Inr ts \<Longrightarrow>
   list_all2 (\<lambda>e t. catalogEntryCheck (eg_runtime eg) e = Inr () \<and> load_entry eg fs limits r e = Inr t) es ts \<and>
   distinct (map (\<lambda>e. get e ''toolId'') es) \<and> (\<forall>e \<in> set es. get e ''toolId'' \<notin> set (seenTools sn)) \<and>
   distinct (map (\<lambda>e. get e ''handlerBindingId'') (filter (\<lambda>e. truthy (get e ''enabled'')) es)) \<and>
   (\<forall>e \<in> set es. truthy (get e ''enabled'') \<longrightarrow> get e ''handlerBindingId'' \<notin> set (seenBindings sn))"
proof (induction es arbitrary: sn ts)
  case (Cons e es)
  let ?sn = "\<lparr>seenTools = get e ''toolId'' # seenTools sn,
      seenBindings = (if truthy (get e ''enabled'') then get e ''handlerBindingId'' # seenBindings sn else seenBindings sn)\<rparr>"
  from Cons.prems obtain t ts' where ts: "ts = t # ts'" and ok: "catalogEntryCheck (eg_runtime eg) e = Inr ()"
      "get e ''toolId'' \<notin> set (seenTools sn)" "truthy (get e ''enabled'') \<longrightarrow> get e ''handlerBindingId'' \<notin> set (seenBindings sn)"
      "load_entry eg fs limits r e = Inr t" and rest: "load_entries eg fs limits r ?sn es = Inr ts'"
    by (auto simp: Let_def bind_res_eq_Inr)
  from Cons.IH [OF rest] ok show ?case unfolding ts by (auto split: if_splits)
qed simp

lemma validated_manifest: "validateReviewedToolManifest eg m = Inr x \<Longrightarrow> x = m"
  unfolding validateReviewedToolManifest_def Let_def bind_res_eq_Inr by (elim exE conjE) simp

lemma load_entry_ok:
  assumes "load_entry eg fs limits r e = Inr t"
  shows "\<exists>p data. fs_realpath fs (path_resolve r (js_to_string (eg_runtime eg) (get e ''manifestPath''))) = Some p \<and> inside r p \<and>
      fs_content fs p = Some data \<and> length data \<le> manifestBytes limits \<and> get e ''sha256'' = Str (sha256_hex (eg_runtime eg) data) \<and>
      fs_parse fs data = Some (t_manifest t) \<and> validateReviewedToolManifest eg (t_manifest t) = Inr (t_manifest t)"
    and "get (t_manifest t) ''id'' = get e ''toolId'' \<and> get (t_manifest t) ''handlerBindingId'' = get e ''handlerBindingId'' \<and>
      t_enabled t = (get e ''enabled'' = Bool True) \<and> t_manifestFingerprint t = stableToolFingerprint (eg_runtime eg) (t_manifest t)"
proof -
  from assms obtain p data m x where *: "realpath fs (path_resolve r (js_to_string (eg_runtime eg) (get e ''manifestPath''))) = Inr p" "inside r p"
      "readBoundedFile fs p (manifestBytes limits) = Inr data" "Str (sha256_hex (eg_runtime eg) data) = get e ''sha256''" "parse_file fs data = Inr m"
      "validateReviewedToolManifest eg m = Inr x" "strict_eq (get m ''id'') (get e ''toolId'')" "strict_eq (get m ''handlerBindingId'') (get e ''handlerBindingId'')"
    and t: "t = \<lparr>t_entry = safeClone e, t_manifest = m, t_manifestFingerprint = stableToolFingerprint (eg_runtime eg) m, t_enabled = (get e ''enabled'' = Bool True)\<rparr>"
    unfolding load_entry_def Let_def bind_res_eq_Inr require_eq_Inr by auto
  have files: "fs_realpath fs (path_resolve r (js_to_string (eg_runtime eg) (get e ''manifestPath''))) = Some p"
      "fs_content fs p = Some data" "length data \<le> manifestBytes limits" "fs_parse fs data = Some m"
    using *(1,3,5) by (auto simp: realpath_def readBoundedFile_def parse_file_def split: option.splits if_splits)
  show "\<exists>p data. fs_realpath fs (path_resolve r (js_to_string (eg_runtime eg) (get e ''manifestPath''))) = Some p \<and> inside r p \<and>
      fs_content fs p = Some data \<and> length data \<le> manifestBytes limits \<and> get e ''sha256'' = Str (sha256_hex (eg_runtime eg) data) \<and>
      fs_parse fs data = Some (t_manifest t) \<and> validateReviewedToolManifest eg (t_manifest t) = Inr (t_manifest t)"
    using files *(2,6) *(4) [symmetric] validated_manifest [OF *(6)] by (intro exI [of _ p] exI [of _ data]) (simp add: t)
  show "get (t_manifest t) ''id'' = get e ''toolId'' \<and> get (t_manifest t) ''handlerBindingId'' = get e ''handlerBindingId'' \<and>
      t_enabled t = (get e ''enabled'' = Bool True) \<and> t_manifestFingerprint t = stableToolFingerprint (eg_runtime eg) (t_manifest t)"
    using strict_eqD [OF *(7)] strict_eqD [OF *(8)] by (simp add: t)
qed

lemma entry_enabled: "catalogEntryCheck rt e = Inr () \<Longrightarrow> truthy (get e ''enabled'') \<longleftrightarrow> get e ''enabled'' = Bool True"
  by (cases "get e ''enabled''") (auto simp: catalogEntryCheck_def bind_res_eq_Inr)

definition pinned :: "engine \<Rightarrow> files \<Rightarrow> tool_limits \<Rightarrow> tool \<Rightarrow> js \<Rightarrow> bool" where
  "pinned eg fs limits t entry \<longleftrightarrow> (\<exists>p data. fs_content fs p = Some data \<and> length data \<le> manifestBytes limits \<and>
     get entry ''sha256'' = Str (sha256_hex (eg_runtime eg) data) \<and> fs_parse fs data = Some (t_manifest t) \<and>
     validateReviewedToolManifest eg (t_manifest t) = Inr (t_manifest t) \<and> get entry ''toolId'' = get (t_manifest t) ''id'' \<and>
     t_enabled t = (get entry ''enabled'' = Bool True))"

text \<open>A catalog that loads is pinned and unambiguous. Every tool in it comes from a file of bounded size whose SHA-256
  is the checksum of its catalog entry and whose manifest passes the review checks; no two tools share an identifier and
  no two enabled tools share a handler.\<close>

theorem loaded_catalog_is_pinned:
  assumes "loadReviewedToolCatalog eg fs limits cwd catalogPath manifestRoot = Inr ts"
  shows "(\<exists>entries. list_all2 (pinned eg fs limits) ts entries) \<and> distinct (map (\<lambda>t. get (t_manifest t) ''id'') ts) \<and>
    distinct (map (\<lambda>t. get (t_manifest t) ''handlerBindingId'') (filter t_enabled ts))"
proof -
  obtain r sn es where l: "load_entries eg fs limits r sn es = Inr ts"
    using assms by (auto simp: loadReviewedToolCatalog_def Let_def bind_res_eq_Inr)
  let ?P = "\<lambda>e t. catalogEntryCheck (eg_runtime eg) e = Inr () \<and> load_entry eg fs limits r e = Inr t"
  have all: "list_all2 ?P es ts" using load_entries_ok [OF l] by simp
  have ids: "list_all2 ?P es ts \<Longrightarrow> map (\<lambda>t. get (t_manifest t) ''id'') ts = map (\<lambda>e. get e ''toolId'') es \<and>
      map (\<lambda>t. get (t_manifest t) ''handlerBindingId'') (filter t_enabled ts) =
      map (\<lambda>e. get e ''handlerBindingId'') (filter (\<lambda>e. truthy (get e ''enabled'')) es)" for es ts
    by (induction rule: list_all2_induct) (auto simp: entry_enabled dest: load_entry_ok(2))
  have pin: "pinned eg fs limits t e" if "load_entry eg fs limits r e = Inr t" for t e
  proof -
    from load_entry_ok(1) [OF that] obtain p data where "fs_content fs p = Some data" "length data \<le> manifestBytes limits"
        "get e ''sha256'' = Str (sha256_hex (eg_runtime eg) data)" "fs_parse fs data = Some (t_manifest t)"
        "validateReviewedToolManifest eg (t_manifest t) = Inr (t_manifest t)" by blast
    then show ?thesis unfolding pinned_def using load_entry_ok(2) [OF that] by (intro exI [of _ p] exI [of _ data]) simp
  qed
  have "list_all2 (pinned eg fs limits) ts es"
    using all by (auto simp: list_all2_conv_all_nth intro: pin)
  then show ?thesis using ids [OF all] load_entries_ok [OF l] by auto
qed

section \<open>A sample catalog\<close>

definition tool_runtime :: runtime where
  "tool_runtime = sample_runtime\<lparr>sha256_hex := (\<lambda>_. replicate 64 CHR ''a''), num_str := (\<lambda>_. ''1'')\<rparr>"

definition tool_engine :: engine where
  "tool_engine = \<lparr>eg_runtime = tool_runtime, eg_matcher = (\<lambda>_ _. None), eg_stack = 10\<rparr>"

definition closed_schema :: "string \<Rightarrow> js" where
  "closed_schema k = Obj [(''type'', Str ''object''), (''additionalProperties'', Bool False), (''required'', Arr [Str k]),
     (''properties'', Obj [(k, Obj [(''type'', Str ''string'')])])]"

definition echo_operation :: js where
  "echo_operation = Obj [(''sideEffectClass'', Str ''read-only''), (''inputSchema'', closed_schema ''value''), (''outputSchema'', closed_schema ''echoed''),
     (''filesystem'', Obj [(''read'', Arr []), (''write'', Arr [])]), (''network'', Arr []), (''secretReferences'', Arr []),
     (''dataClasses'', Arr [Str ''workspace-private'']), (''sandbox'', Str ''pure-local''),
     (''limits'', Obj [(''runtimeMs'', Num 1000), (''inputBytes'', Num 1024), (''outputBytes'', Num 2048), (''costUnits'', Num 0)]),
     (''approval'', Obj [(''required'', Bool False)]), (''idempotency'', Obj [(''required'', Bool False)])]"

definition echo_manifest :: js where
  "echo_manifest = Obj [(''schemaVersion'', Str ''1.1.0''), (''contractVersion'', Str ''1.0.0''), (''id'', Str ''tool:echo''), (''name'', Str ''echo''),
     (''version'', Str ''1.0.0''), (''handlerBindingId'', Str ''handler:echo''), (''operations'', Obj [(''echo'', echo_operation)])]"

definition echo_entry :: js where
  "echo_entry = Obj [(''toolId'', Str ''tool:echo''), (''manifestPath'', Str ''m''), (''sha256'', Str (replicate 64 CHR ''a'')), (''enabled'', Bool True),
     (''handlerBindingId'', Str ''handler:echo''), (''reviewStatus'', Str ''reviewed''), (''reviewVersion'', Str ''1'')]"

definition sample_files :: files where
  "sample_files = \<lparr>fs_realpath = Some, fs_content = (\<lambda>p. if p \<in> {''/r/c'', ''/r/m''} then Some (drop 3 p) else None),
     fs_parse = (\<lambda>d. if d = ''c'' then Some (Obj [(''schemaVersion'', Str ''1.0.0''), (''entries'', Arr [echo_entry])])
       else if d = ''m'' then Some echo_manifest else None)\<rparr>"

definition sample_tool_limits :: tool_limits where
  "sample_tool_limits = TOOL_LIMITS\<lparr>catalogBytes := 10, manifestBytes := 10\<rparr>"

lemma echo_manifest_valid: "validateReviewedToolManifest tool_engine echo_manifest = Inr echo_manifest"
  by code_simp

lemma echo_entry_valid: "catalogEntryCheck tool_runtime echo_entry = Inr ()"
  by code_simp

lemma sample_paths:
  "path_resolve ''/'' ''r'' = ''/r'' \<and> path_resolve ''/'' ''r/c'' = ''/r/c'' \<and> path_resolve ''/r'' ''m'' = ''/r/m'' \<and> inside ''/r'' ''/r/c'' \<and> inside ''/r'' ''/r/m''"
  by code_simp

definition echo_tool_of :: "string \<Rightarrow> tool" where
  "echo_tool_of fp = \<lparr>t_entry = safeClone echo_entry, t_manifest = echo_manifest, t_manifestFingerprint = fp, t_enabled = True\<rparr>"

lemma sample_entry_loads:
  "load_entry tool_engine sample_files sample_tool_limits ''/r'' echo_entry = Inr (echo_tool_of (stableToolFingerprint tool_runtime echo_manifest))"
proof -
  have g: "get echo_entry ''manifestPath'' = Str ''m'' \<and> get echo_entry ''sha256'' = Str (replicate 64 CHR ''a'') \<and> get echo_entry ''enabled'' = Bool True \<and>
      get echo_entry ''toolId'' = get echo_manifest ''id'' \<and> get echo_entry ''handlerBindingId'' = get echo_manifest ''handlerBindingId'' \<and>
      get echo_manifest ''id'' = Str ''tool:echo'' \<and> get echo_manifest ''handlerBindingId'' = Str ''handler:echo''"
    by (simp add: echo_entry_def echo_manifest_def)
  have e: "eg_runtime tool_engine = tool_runtime" "sha256_hex tool_runtime d = replicate 64 CHR ''a''" for d
    by (simp_all add: tool_engine_def tool_runtime_def)
  show ?thesis
    unfolding load_entry_def Let_def e using g sample_paths
    by (simp add: realpath_def readBoundedFile_def parse_file_def sample_files_def sample_tool_limits_def echo_manifest_valid echo_tool_of_def require_def)
qed

lemma sample_catalog_loads:
  "loadReviewedToolCatalog tool_engine sample_files sample_tool_limits ''/'' ''r/c'' ''r'' = Inr [echo_tool_of (stableToolFingerprint tool_runtime echo_manifest)]"
proof -
  have e: "eg_runtime tool_engine = tool_runtime" by (simp add: tool_engine_def)
  have "load_entries tool_engine sample_files sample_tool_limits ''/r'' \<lparr>seenTools = [], seenBindings = []\<rparr> [echo_entry] =
      Inr [echo_tool_of (stableToolFingerprint tool_runtime echo_manifest)]"
    by (simp add: e echo_entry_valid sample_entry_loads require_def Let_def)
  then show ?thesis
    using sample_paths
    by (simp add: loadReviewedToolCatalog_def Let_def realpath_def readBoundedFile_def parse_file_def sample_files_def sample_tool_limits_def
        assertObject_def assertKnownKeys_def CATALOG_KEYS_def keys_def require_def)
qed

theorem loaded_catalog_is_pinned_witness:
  "\<exists>ts entries. ts \<noteq> [] \<and> list_all2 (pinned tool_engine sample_files sample_tool_limits) ts entries \<and> distinct (map (\<lambda>t. get (t_manifest t) ''id'') ts)"
  using loaded_catalog_is_pinned [OF sample_catalog_loads] by blast

end
