(* ===== verification/ToolGrants.thy ===== *)
theory ToolGrants
  imports ToolManifest
begin

text \<open>
  packages/tool-registry/src/index.mjs, second part: the service that issues one-use grants
  bound to an operation, and the in-memory boundary for effects. Grants are a map from
  identifiers; the clock, the fresh identifier and the random secret of a call are arguments.
  An effect is executed by its caller between two steps of the boundary, so that calls can
  overlap.
\<close>

section \<open>Grants\<close>

record grant =
  g_id :: string
  g_status :: string
  g_binding :: js
  g_issuedAt :: string
  g_expiresAt :: string
  g_maxUses :: rat
  g_uses :: nat
  g_tokenHash :: string

type_synonym grants = "string \<Rightarrow> grant option"

text \<open>\<open>Math.max(1, Math.min(30000, ttlMs))\<close>; \<open>None\<close> is \<open>NaN\<close>, for which the date is invalid and an error is raised.\<close>

definition expiry :: "runtime \<Rightarrow> string \<Rightarrow> rat option \<Rightarrow> string option" where
  "expiry rt now ttlMs = (case (date_parse rt now, ttlMs) of
     (Some t, Some ms) \<Rightarrow> Some (to_iso rt (t + \<lfloor>max 1 (min (of_nat (grantTtlMs TOOL_LIMITS)) ms)\<rfloor>)) | _ \<Rightarrow> None)"

lemma expiry_code [code]:
  "expiry rt now ttlMs = (case (date_parse rt now, ttlMs) of
     (Some t, Some ms) \<Rightarrow> Some (to_iso rt (t + \<lfloor>max 1 (min 30000 ms)\<rfloor>)) | _ \<Rightarrow> None)"
proof -
  have "grantTtlMs TOOL_LIMITS = 30000" by (simp add: TOOL_LIMITS_def)
  then have "rat_of_nat (grantTtlMs TOOL_LIMITS) = 30000" by (simp only: of_nat_numeral)
  then show ?thesis by (simp only: expiry_def)
qed

definition token_of :: "string \<Rightarrow> string \<Rightarrow> string" where
  "token_of grantId secret = grantId @ ''.'' @ secret"

definition issue_grant ::
  "runtime \<Rightarrow> string \<Rightarrow> string \<Rightarrow> string \<Rightarrow> js \<Rightarrow> rat option \<Rightarrow> rat \<Rightarrow> grants \<Rightarrow> grants \<times> (tool_error, string \<times> grant) result" where
  "issue_grant rt now grantId secret binding ttlMs maxUses gs =
     (case bind_res (assertObject binding) (\<lambda>_.
        bind_res (require (name_test rt ''grant_'' name_char 1 120 (Str grantId)) (Tool ''tool_grant_invalid'')) (\<lambda>_.
        case expiry rt now ttlMs of
          None \<Rightarrow> Inl Uncoded
        | Some e \<Rightarrow> Inr \<lparr>g_id = grantId, g_status = ''issued'', g_binding = safeClone binding, g_issuedAt = now, g_expiresAt = e,
            g_maxUses = maxUses, g_uses = 0, g_tokenHash = ''sha256:'' @ sha256_hex rt secret\<rparr>)) of
        Inl e \<Rightarrow> (gs, Inl e)
      | Inr g \<Rightarrow> (gs(grantId \<mapsto> g), Inr (token_of grantId secret, g)))"

definition inspect :: "string \<Rightarrow> grants \<Rightarrow> grant option" where
  "inspect grantId gs = gs grantId"

definition revoke :: "string \<Rightarrow> grants \<Rightarrow> grants" where
  "revoke grantId gs = (case gs grantId of None \<Rightarrow> gs | Some g \<Rightarrow> gs(grantId \<mapsto> g\<lparr>g_status := ''revoked''\<rparr>))"

text \<open>\<open>token.split('.', 2)\<close>\<close>

definition split_token :: "string \<Rightarrow> (string \<times> string) option" where
  "split_token token = (case split_at (CHR ''.'') token of i # s # _ \<Rightarrow> Some (i, s) | _ \<Rightarrow> None)"

definition consume :: "runtime \<Rightarrow> string \<Rightarrow> string \<Rightarrow> js \<Rightarrow> grants \<Rightarrow> grants \<times> (string, grant) result" where
  "consume rt now token binding gs =
     (case split_token token of
        None \<Rightarrow> (gs, Inl ''tool_grant_invalid'')
      | Some (grantId, secret) \<Rightarrow>
          (case gs grantId of
             None \<Rightarrow> (gs, Inl ''tool_grant_invalid'')
           | Some g \<Rightarrow>
               if g_status g = ''revoked'' then (gs, Inl ''tool_grant_invalid'')
               else if drop 7 (g_tokenHash g) \<noteq> sha256_hex rt secret then (gs, Inl ''tool_grant_invalid'')
               else if date_le rt (g_expiresAt g) now then (gs(grantId \<mapsto> g\<lparr>g_status := ''expired''\<rparr>), Inl ''tool_grant_expired'')
               else if g_status g = ''consumed'' \<or> g_maxUses g \<le> of_nat (g_uses g) then (gs, Inl ''tool_grant_consumed'')
               else if canonicalStringify rt (g_binding g) \<noteq> canonicalStringify rt binding then (gs, Inl ''tool_grant_binding_mismatch'')
               else let g' = g\<lparr>g_status := ''consumed'', g_uses := Suc (g_uses g)\<rparr> in (gs(grantId \<mapsto> g'), Inr g')))"

section \<open>The service as a machine\<close>

datatype grant_op =
    Issue string string string js "rat option" rat
  | Revoke string
  | Consume string string js

fun exec_grant :: "runtime \<Rightarrow> grant_op \<Rightarrow> grants \<Rightarrow> grants" where
  "exec_grant rt (Issue now i secret b ttl uses) gs = fst (issue_grant rt now i secret b ttl uses gs)"
| "exec_grant rt (Revoke i) gs = revoke i gs"
| "exec_grant rt (Consume now token b) gs = fst (consume rt now token b gs)"

definition run_grants :: "runtime \<Rightarrow> grant_op list \<Rightarrow> grants \<Rightarrow> grants" where
  "run_grants rt ops gs = foldl (\<lambda>gs x. exec_grant rt x gs) gs ops"

fun issues_id :: "string \<Rightarrow> grant_op \<Rightarrow> bool" where
  "issues_id i (Issue now j secret b ttl uses) = (i = j)"
| "issues_id i _ = False"

lemma consume_Inr:
  assumes "consume rt now token b gs = (gs', Inr r)"
  obtains i s g where "split_token token = Some (i, s)" "gs i = Some g" "g_status g \<noteq> ''revoked''" "drop 7 (g_tokenHash g) = sha256_hex rt s"
    "\<not> date_le rt (g_expiresAt g) now" "g_status g \<noteq> ''consumed''" "of_nat (g_uses g) < g_maxUses g"
    "canonicalStringify rt (g_binding g) = canonicalStringify rt b"
    "r = g\<lparr>g_status := ''consumed'', g_uses := Suc (g_uses g)\<rparr>" "gs' = gs(i \<mapsto> r)"
  using assms by (auto simp: consume_def Let_def split: option.splits if_splits)

lemma consume_cases:
  assumes "consume rt now token b gs = (gs', res)"
  obtains "gs' = gs" | i g where "gs i = Some g" "gs' = gs(i \<mapsto> g\<lparr>g_status := ''expired''\<rparr>)"
    | i g where "gs i = Some g" "gs' = gs(i \<mapsto> g\<lparr>g_status := ''consumed'', g_uses := Suc (g_uses g)\<rparr>)"
proof (cases "\<exists>i s g. split_token token = Some (i, s) \<and> gs i = Some g")
  case True
  then obtain i s g where g: "split_token token = Some (i, s)" "gs i = Some g" by blast
  then have "gs' = gs \<or> gs' = gs(i \<mapsto> g\<lparr>g_status := ''expired''\<rparr>) \<or> gs' = gs(i \<mapsto> g\<lparr>g_status := ''consumed'', g_uses := Suc (g_uses g)\<rparr>)"
    using assms by (simp add: consume_def Let_def split: if_splits)
  then show ?thesis using g that by blast
next
  case False
  then have "gs' = gs" using assms by (auto simp: consume_def split: option.splits)
  then show ?thesis by (rule that)
qed

lemma issue_cases:
  "fst (issue_grant rt now i secret b ttl uses gs) = gs \<or>
   (\<exists>e. expiry rt now ttl = Some e \<and> fst (issue_grant rt now i secret b ttl uses gs) = gs(i \<mapsto> \<lparr>g_id = i, g_status = ''issued'', g_binding = safeClone b, g_issuedAt = now,
      g_expiresAt = e, g_maxUses = uses, g_uses = 0, g_tokenHash = ''sha256:'' @ sha256_hex rt secret\<rparr>))"
  by (auto simp: issue_grant_def bind_res_def split: sum.splits option.splits)

text \<open>Every grant of a reachable state has its key and comes from a call that issued it.\<close>

definition issued_by :: "runtime \<Rightarrow> grant_op list \<Rightarrow> grant \<Rightarrow> bool" where
  "issued_by rt ops g \<longleftrightarrow> (\<exists>secret b ttl. Issue (g_issuedAt g) (g_id g) secret b ttl (g_maxUses g) \<in> set ops \<and> expiry rt (g_issuedAt g) ttl = Some (g_expiresAt g) \<and>
     g_binding g = safeClone b \<and> g_tokenHash g = ''sha256:'' @ sha256_hex rt secret)"

definition traced :: "runtime \<Rightarrow> grant_op list \<Rightarrow> grants \<Rightarrow> bool" where
  "traced rt ops gs \<longleftrightarrow> (\<forall>i g. gs i = Some g \<longrightarrow> g_id g = i \<and> issued_by rt ops g)"

lemma traced_exec: "traced rt ops gs \<Longrightarrow> traced rt (ops @ [x]) (exec_grant rt x gs)"
proof (cases x)
  case (Issue now i secret b ttl uses)
  assume "traced rt ops gs"
  then show ?thesis using issue_cases [of rt now i secret b ttl uses gs] unfolding Issue
    by (fastforce simp: traced_def issued_by_def)
next
  case (Revoke i)
  assume "traced rt ops gs"
  then show ?thesis unfolding Revoke by (fastforce simp: traced_def issued_by_def revoke_def split: option.splits if_splits)
next
  case (Consume now token b)
  assume t: "traced rt ops gs"
  obtain gs' res where c: "consume rt now token b gs = (gs', res)" by fastforce
  then have e: "exec_grant rt x gs = gs'" by (simp add: Consume)
  from c show ?thesis unfolding e using t
    by (cases rule: consume_cases) (fastforce simp: traced_def issued_by_def split: if_splits)+
qed

lemma run_grants_append: "run_grants rt (xs @ ys) gs = run_grants rt ys (run_grants rt xs gs)"
  by (simp add: run_grants_def)

lemma reachable_traced: "traced rt ops (run_grants rt ops Map.empty)"
proof (induction ops rule: rev_induct)
  case (snoc x xs)
  then show ?case using traced_exec by (simp add: run_grants_def)
qed (simp add: traced_def run_grants_def)

text \<open>A grant that was used stays used as long as its identifier is not issued again.\<close>

definition used :: "string \<Rightarrow> grants \<Rightarrow> bool" where
  "used i gs \<longleftrightarrow> (\<exists>g. gs i = Some g \<and> g_maxUses g \<le> 1 \<and> 0 < g_uses g)"

lemma used_exec: "used i gs \<Longrightarrow> \<not> issues_id i x \<Longrightarrow> used i (exec_grant rt x gs)"
proof (cases x)
  case (Issue now j secret b ttl uses)
  assume "used i gs" "\<not> issues_id i x"
  then show ?thesis using issue_cases [of rt now j secret b ttl uses gs] unfolding Issue by (auto simp: used_def)
next
  case (Revoke j)
  assume "used i gs"
  then show ?thesis unfolding Revoke by (auto simp: used_def revoke_def split: option.splits)
next
  case (Consume now token b)
  assume u: "used i gs"
  obtain gs' res where c: "consume rt now token b gs = (gs', res)" by fastforce
  then have e: "exec_grant rt x gs = gs'" by (simp add: Consume)
  from c show ?thesis unfolding e using u by (cases rule: consume_cases) (auto simp: used_def)
qed

lemma used_run: "used i gs \<Longrightarrow> \<forall>x \<in> set ops. \<not> issues_id i x \<Longrightarrow> used i (run_grants rt ops gs)"
  by (induction ops arbitrary: gs) (auto simp: run_grants_def used_exec)

lemma used_not_consumed: "used i gs \<Longrightarrow> consume rt now token b gs = (gs', Inr r) \<Longrightarrow> traced rt ops gs \<Longrightarrow> g_id r \<noteq> i"
  by (elim consume_Inr) (auto simp: used_def traced_def)

section \<open>Properties of grants\<close>

text \<open>C8: a grant is used once. After a grant that allows one use was consumed, no later call consumes a grant with its
  identifier again, whatever is issued, revoked and presented in between and whatever the clock says, unless the
  identifier itself is issued anew.\<close>

theorem grant_is_used_once:
  assumes "consume rt now token b (run_grants rt ops Map.empty) = (gs, Inr r)" and "g_maxUses r \<le> 1"
    and "\<forall>x \<in> set ops'. \<not> issues_id (g_id r) x" and "consume rt now' token' b' (run_grants rt ops' gs) = (gs', Inr r')"
  shows "g_id r' \<noteq> g_id r"
proof -
  have gs: "gs = run_grants rt (ops @ [Consume now token b]) Map.empty" using assms(1) by (simp add: run_grants_def)
  have t: "traced rt ((ops @ [Consume now token b]) @ ops') (run_grants rt ops' gs)"
    unfolding gs run_grants_append [symmetric] by (rule reachable_traced)
  obtain i g where i: "run_grants rt ops Map.empty i = Some g" "r = g\<lparr>g_status := ''consumed'', g_uses := Suc (g_uses g)\<rparr>" "gs = (run_grants rt ops Map.empty)(i \<mapsto> r)"
    using assms(1) by (elim consume_Inr) blast
  then have "g_id r = i" using reachable_traced [of rt ops] by (auto simp: traced_def)
  then have "used (g_id r) gs" using i assms(2) by (simp add: used_def)
  then show ?thesis using used_not_consumed [OF used_run [OF _ assms(3)] assms(4) t] by blast
qed

text \<open>Whoever consumes a grant holds what was issued. A token is only accepted if a call issued a grant with its
  identifier, a secret of the same hash and a binding with the same canonical text as the one presented, and only
  before the expiry computed from the time and lifetime of that call.\<close>

theorem consumed_grant_was_issued:
  assumes "consume rt now token b (run_grants rt ops Map.empty) = (gs, Inr r)"
  shows "\<exists>i s t secret b' ttl uses e. split_token token = Some (i, s) \<and> Issue t i secret b' ttl uses \<in> set ops \<and>
    sha256_hex rt s = sha256_hex rt secret \<and> canonicalStringify rt (safeClone b') = canonicalStringify rt b \<and>
    expiry rt t ttl = Some e \<and> \<not> date_le rt e now"
proof -
  obtain i s g where c: "split_token token = Some (i, s)" "run_grants rt ops Map.empty i = Some g" "drop 7 (g_tokenHash g) = sha256_hex rt s"
      "\<not> date_le rt (g_expiresAt g) now" "canonicalStringify rt (g_binding g) = canonicalStringify rt b"
    using assms by (elim consume_Inr) blast
  then have "g_id g = i" "issued_by rt ops g" using reachable_traced [of rt ops] by (auto simp: traced_def)
  then show ?thesis using c unfolding issued_by_def by fastforce
qed

definition grant_a :: "grant_op list" where
  "grant_a = [Issue ''1'' ''grant_a'' ''s'' (Obj []) (Some 5) 1]"

definition grant_b :: "grant_op list" where
  "grant_b = [Issue ''2'' ''grant_b'' ''u'' (Obj []) (Some 5) 1]"

lemma sample_grant_a: "\<exists>gs r. consume sample_runtime ''2'' ''grant_a.s'' (Obj []) (run_grants sample_runtime grant_a Map.empty) = (gs, Inr r) \<and> g_id r = ''grant_a'' \<and> g_maxUses r = 1 \<and>
    snd (consume sample_runtime ''3'' ''grant_b.u'' (Obj []) (run_grants sample_runtime grant_b gs)) \<in> range Inr"
proof -
  let ?c = "consume sample_runtime ''2'' ''grant_a.s'' (Obj []) (run_grants sample_runtime grant_a Map.empty)"
  have "case ?c of (gs, res) \<Rightarrow> (case res of Inl _ \<Rightarrow> False | Inr r \<Rightarrow> g_id r = ''grant_a'' \<and> g_maxUses r = 1 \<and>
      \<not> isl (snd (consume sample_runtime ''3'' ''grant_b.u'' (Obj []) (run_grants sample_runtime grant_b gs))))"
    by code_simp
  then show ?thesis by (auto split: prod.splits sum.splits simp: isl_def image_iff) (metis obj_sumE)
qed

theorem grant_is_used_once_witness:
  "\<exists>gs r gs' r'. consume sample_runtime ''2'' ''grant_a.s'' (Obj []) (run_grants sample_runtime grant_a Map.empty) = (gs, Inr r) \<and>
     consume sample_runtime ''3'' ''grant_b.u'' (Obj []) (run_grants sample_runtime grant_b gs) = (gs', Inr r') \<and> g_id r' \<noteq> g_id r"
proof -
  obtain gs r where r: "consume sample_runtime ''2'' ''grant_a.s'' (Obj []) (run_grants sample_runtime grant_a Map.empty) = (gs, Inr r)" "g_id r = ''grant_a''" "g_maxUses r = 1"
    and "snd (consume sample_runtime ''3'' ''grant_b.u'' (Obj []) (run_grants sample_runtime grant_b gs)) \<in> range Inr"
    using sample_grant_a by blast
  then obtain gs' r' where r': "consume sample_runtime ''3'' ''grant_b.u'' (Obj []) (run_grants sample_runtime grant_b gs) = (gs', Inr r')"
    by (cases "consume sample_runtime ''3'' ''grant_b.u'' (Obj []) (run_grants sample_runtime grant_b gs)") auto
  have "g_id r' \<noteq> g_id r" using grant_is_used_once [OF r(1) _ _ r'] r(2,3) by (simp add: grant_b_def)
  then show ?thesis using r(1) r' by blast
qed

theorem consumed_grant_was_issued_witness:
  "\<exists>gs r i s t secret b' ttl uses e. consume sample_runtime ''2'' ''grant_a.s'' (Obj []) (run_grants sample_runtime grant_a Map.empty) = (gs, Inr r) \<and>
     split_token ''grant_a.s'' = Some (i, s) \<and> Issue t i secret b' ttl uses \<in> set grant_a \<and> sha256_hex sample_runtime s = sha256_hex sample_runtime secret \<and>
     expiry sample_runtime t ttl = Some e \<and> \<not> date_le sample_runtime e ''2''"
proof -
  obtain gs r where r: "consume sample_runtime ''2'' ''grant_a.s'' (Obj []) (run_grants sample_runtime grant_a Map.empty) = (gs, Inr r)" using sample_grant_a by blast
  from consumed_grant_was_issued [OF r] r show ?thesis by blast
qed

section \<open>The effect boundary\<close>

type_synonym effect_records = "string \<Rightarrow> (string \<times> js) option"

definition tagged :: "js \<Rightarrow> bool \<Rightarrow> js" where
  "tagged output idempotent = Obj (spread (own_entries (safeClone output)) [(''idempotent'', Bool idempotent)])"

text \<open>A call up to the execution: an error, the recorded output, or that the effect has to be executed.\<close>

definition effect_begin :: "string \<Rightarrow> string \<Rightarrow> effect_records \<Rightarrow> (tool_error, js option) result" where
  "effect_begin key fp recs =
     (if key = [] then Inl (Tool ''tool_idempotency_required'')
      else if fp = [] then Inl (Tool ''tool_effect_boundary_required'')
      else (case recs key of
          None \<Rightarrow> Inr None
        | Some (fp', output) \<Rightarrow> if fp' \<noteq> fp then Inl (Tool ''tool_idempotency_conflict'') else Inr (Some (tagged output True))))"

text \<open>The rest of the call, after the execution.\<close>

definition effect_end :: "string \<Rightarrow> string \<Rightarrow> js \<Rightarrow> effect_records \<Rightarrow> effect_records \<times> js" where
  "effect_end key fp output recs = (recs(key \<mapsto> (fp, safeClone output)), tagged output False)"

text \<open>A call that nothing interrupts; the output is what the execution would give. The last component says whether
  the effect was executed.\<close>

definition effect_call :: "string \<Rightarrow> string \<Rightarrow> (tool_error, js) result \<Rightarrow> effect_records \<Rightarrow> effect_records \<times> (tool_error, js) result \<times> bool" where
  "effect_call key fp execute recs = (case effect_begin key fp recs of
     Inl e \<Rightarrow> (recs, Inl e, False)
   | Inr (Some r) \<Rightarrow> (recs, Inr r, False)
   | Inr None \<Rightarrow> (case execute of Inl e \<Rightarrow> (recs, Inl e, True)
       | Inr output \<Rightarrow> (case effect_end key fp output recs of (recs', r) \<Rightarrow> (recs', Inr r, True))))"

definition run_effects :: "(string \<times> string \<times> (tool_error, js) result) list \<Rightarrow> effect_records \<Rightarrow> effect_records" where
  "run_effects calls recs = foldl (\<lambda>recs (k, f, x). fst (effect_call k f x recs)) recs calls"

lemma effect_call_keeps: "recs k = Some v \<Longrightarrow> fst (effect_call key fp x recs) k = Some v"
  by (auto simp: effect_call_def effect_begin_def effect_end_def split: sum.splits option.splits if_splits)

lemma run_effects_keeps: "recs k = Some v \<Longrightarrow> run_effects calls recs k = Some v"
  by (induction calls arbitrary: recs) (auto simp: run_effects_def effect_call_keeps)

text \<open>Calls that do not overlap execute an effect once. After a call executed an effect successfully, every later
  call with its key and fingerprint returns the recorded output without executing, and every later call with its key
  and another fingerprint is refused, whatever other calls come in between.\<close>

theorem effect_executes_once:
  assumes "effect_call key fp (Inr output) recs = (recs', Inr r, True)"
  shows "effect_call key fp again (run_effects calls recs') = (run_effects calls recs', Inr (tagged (safeClone output) True), False) \<and>
    (fp' \<noteq> [] \<and> fp' \<noteq> fp \<longrightarrow> effect_call key fp' again (run_effects calls recs') = (run_effects calls recs', Inl (Tool ''tool_idempotency_conflict''), False))"
proof -
  have k: "key \<noteq> []" "fp \<noteq> []" "recs' key = Some (fp, safeClone output)"
    using assms by (auto simp: effect_call_def effect_begin_def effect_end_def split: sum.splits option.splits if_splits)
  then show ?thesis using run_effects_keeps [of recs' key "(fp, safeClone output)" calls] by (simp add: effect_call_def effect_begin_def)
qed

theorem effect_executes_once_witness:
  "effect_call ''k'' ''f'' (Inr Null) (run_effects [] (fst (effect_call ''k'' ''f'' (Inr (Obj [(''a'', Num 1)])) Map.empty))) =
     (run_effects [] (fst (effect_call ''k'' ''f'' (Inr (Obj [(''a'', Num 1)])) Map.empty)), Inr (tagged (safeClone (Obj [(''a'', Num 1)])) True), False)"
proof -
  obtain recs' r where c: "effect_call ''k'' ''f'' (Inr (Obj [(''a'', Num 1)])) Map.empty = (recs', Inr r, True)"
    by (simp add: effect_call_def effect_begin_def effect_end_def)
  from effect_executes_once [OF c, of "Inr Null" "[]" "[]"] show ?thesis unfolding c by simp
qed

text \<open>Overlapping calls are not kept apart: both find nothing recorded and execute.\<close>

lemma overlapping_effects_both_execute:
  "key \<noteq> [] \<Longrightarrow> fp \<noteq> [] \<Longrightarrow> recs key = None \<Longrightarrow>
   effect_begin key fp recs = Inr None \<and> effect_begin key fp recs = Inr None \<and>
   fst (effect_end key fp b (fst (effect_end key fp a recs))) key = Some (fp, safeClone b)"
  by (simp add: effect_begin_def effect_end_def)

end
