(* ===== verification/ToolBroker.thy ===== *)
theory ToolBroker
  imports ToolGrants
begin

text \<open>
  packages/tool-registry/src/index.mjs, third part: what a tool may do and the brokers through
  which its handler does it. The file system, URL parsing, the network and the secret
  resolver are arguments; a flag says at each point where the code asks whether the
  invocation is still active. Paths are absolute with the separator \<open>/\<close>.
\<close>

section \<open>Capabilities\<close>

text \<open>\<open>operations[name]\<close>: a name that every object inherits finds something that has none of the fields.\<close>

definition lookup_operation :: "js \<Rightarrow> string \<Rightarrow> js" where
  "lookup_operation operations name = (case property_slot operations name of Own v \<Rightarrow> v | Absent \<Rightarrow> Undef | _ \<Rightarrow> Obj [])"

definition policy_operation :: "js \<Rightarrow> js" where
  "policy_operation operation = Obj (map (\<lambda>k. (k, get operation k))
     [''sideEffectClass'', ''filesystem'', ''network'', ''secretReferences'', ''dataClasses'', ''sandbox'', ''limits'', ''approval''])"

definition operationToPolicyManifest :: "tool \<Rightarrow> string \<Rightarrow> js" where
  "operationToPolicyManifest tool name =
     (let ops = get (t_manifest tool) ''operations'' in
      Obj [(''id'', get (t_manifest tool) ''id''),
        (''riskClass'', get (if name \<noteq> [] then lookup_operation ops name else (case map snd (own_entries ops) of [] \<Rightarrow> Undef | v # _ \<Rightarrow> v)) ''sideEffectClass''),
        (''operations'', Obj (map (\<lambda>(k, v). (k, policy_operation v)) (own_entries ops)))])"

definition optional_entry :: "string \<Rightarrow> js \<Rightarrow> (string \<times> js) list" where
  "optional_entry k v = (if nullish v then [] else [(k, v)])"

definition operationCapability :: "tool \<Rightarrow> string \<Rightarrow> js \<Rightarrow> js \<Rightarrow> js \<Rightarrow> js" where
  "operationCapability tool name requestedCapability timeoutMs outputLimitBytes =
     (let operation = lookup_operation (get (t_manifest tool) ''operations'') name;
          limits = spread (spread (own_entries (get operation ''limits'')) (optional_entry ''runtimeMs'' timeoutMs)) (optional_entry ''outputBytes'' outputLimitBytes);
          capability = orelse requestedCapability (Obj [(''toolId'', get (t_manifest tool) ''id''), (''operation'', Str name),
            (''sideEffectClass'', get operation ''sideEffectClass''), (''filesystem'', get operation ''filesystem''), (''network'', get operation ''network''),
            (''secretReferences'', get operation ''secretReferences''), (''dataClasses'', get operation ''dataClasses''), (''sandbox'', get operation ''sandbox''),
            (''limits'', Obj limits)])
      in Obj (spread (own_entries capability) [(''limits'', Obj (spread (own_entries (get capability ''limits'')) limits))]))"

definition effectiveOperationForRuntime :: "js \<Rightarrow> js \<Rightarrow> js" where
  "effectiveOperationForRuntime operation effectiveCapability =
     Obj (spread (own_entries operation) (map (\<lambda>k. (k, orelse (get effectiveCapability k) (get operation k)))
         [''filesystem'', ''network'', ''secretReferences'', ''dataClasses'', ''sandbox''] @
       [(''limits'', Obj (spread (own_entries (get operation ''limits'')) (own_entries (orelse (get effectiveCapability ''limits'') (Obj [])))))]))"

record trusted =
  tr_principal :: js
  tr_membership :: js
  tr_environment :: js

definition assertTrustedContext :: "js \<Rightarrow> (tool_error, trusted) result" where
  "assertTrustedContext request =
     (let c = get request ''trustedContext''; p = get c ''principal''; m = get c ''membership''; e = get c ''environment'' in
      bind_res (require (truthy c \<and> truthy (get p ''userId'') \<and> truthy (get m ''workspaceId'') \<and> get m ''status'' = Str ''active'' \<and> truthy e)
        (Tool ''tool_trusted_context_required'')) (\<lambda>_.
        Inr \<lparr>tr_principal = p, tr_membership = m, tr_environment = Obj (spread (own_entries e) [(''externalWritesEnabled'', Bool False)])\<rparr>))"

definition validateInvocation :: "js \<Rightarrow> (tool_error, unit) result" where
  "validateInvocation request =
     (let bad = Tool ''tool_request_invalid'' in
      bind_res (assertObject request) (\<lambda>_.
      bind_res (assertKnownKeys request INVOCATION_KEYS ''tool_request_invalid'') (\<lambda>_.
      bind_res (assertNoForgedAuthority request) (\<lambda>_.
      bind_res (require (get request ''schemaVersion'' = Str ''1.0.0'') bad) (\<lambda>_.
      bind_res (all_ok (\<lambda>k. require (nonempty_str (get request k)) bad)
        [''requestId'', ''correlationId'', ''workspaceId'', ''runId'', ''stepId'', ''actorId'', ''toolId'', ''toolVersion'', ''operation'', ''trustedTimestamp'']) (\<lambda>_.
        require (''secretValues'' \<notin> set (map fst (own_entries (get request ''input'')))) bad))))))"

definition safeEventPayload :: "runtime \<Rightarrow> js \<Rightarrow> js" where
  "safeEventPayload rt payload = (if 8192 < length (jsonStringify rt payload) then Obj [(''truncated'', Bool True)] else payload)"

definition sanitizeError :: "tool_error \<Rightarrow> string" where
  "sanitizeError e = (case e of Tool c \<Rightarrow> if c \<in> set TOOL_ERROR_CODES then c else ''tool_execution_failed'' | Uncoded \<Rightarrow> ''tool_execution_failed'')"

definition inputFingerprint :: "runtime \<Rightarrow> js \<Rightarrow> string" where
  "inputFingerprint rt inp = stableToolFingerprint rt (orelse inp (Obj []))"

definition idempotencyFingerprint :: "runtime \<Rightarrow> js \<Rightarrow> js" where
  "idempotencyFingerprint rt key = (if truthy key then Str (stableToolFingerprint rt (Obj [(''idempotencyKey'', key)])) else Null)"

definition approvalFingerprint :: "runtime \<Rightarrow> js \<Rightarrow> js" where
  "approvalFingerprint rt approval = (if truthy approval then Str (stableToolFingerprint rt approval) else Null)"

definition assertApprovalContextAllowed :: "js \<Rightarrow> js \<Rightarrow> (tool_error, unit) result" where
  "assertApprovalContextAllowed approval operation =
     (if \<not> truthy approval then Inr ()
      else bind_res (require (get (get operation ''approval'') ''required'' = Bool True \<or> get operation ''sideEffectClass'' = Str ''consequential-write'')
          (Tool ''tool_approval_invalid'')) (\<lambda>_.
        require (list_all (\<lambda>k. k \<notin> set (map fst (own_entries approval))) [''verifiedBy'', ''approvalRecordFingerprint'']) (Tool ''tool_approval_invalid'')))"

definition exactBinding :: "runtime \<Rightarrow> js \<Rightarrow> tool \<Rightarrow> string \<Rightarrow> decision \<Rightarrow> string \<Rightarrow> js" where
  "exactBinding rt request tool name policy operationFingerprint =
     Obj [(''actorId'', get request ''actorId''), (''workspaceId'', get request ''workspaceId''), (''runId'', get request ''runId''), (''stepId'', get request ''stepId''),
       (''toolId'', get (t_manifest tool) ''id''), (''toolVersion'', get (t_manifest tool) ''version''), (''manifestFingerprint'', Str (t_manifestFingerprint tool)),
       (''operation'', Str name), (''inputFingerprint'', Str (inputFingerprint rt (get request ''input''))),
       (''effectiveCapabilityFingerprint'', Str (stableToolFingerprint rt (pd_effectiveCapability policy))),
       (''policyDecisionId'', Str (pd_decisionId policy)), (''policyVersion'', pd_policyVersion policy), (''policyFingerprint'', Str (pd_policyFingerprint policy)),
       (''operationFingerprint'', Str operationFingerprint), (''approvalFingerprint'', approvalFingerprint rt (get request ''approvalContext'')),
       (''idempotencyFingerprint'', idempotencyFingerprint rt (get request ''idempotencyKey''))]"

definition contains_text :: "string \<Rightarrow> string \<Rightarrow> bool" where
  "contains_text part text = some_suffix (starts_with part) text"

definition noSecretLeak :: "runtime \<Rightarrow> js \<Rightarrow> string list \<Rightarrow> (tool_error, unit) result" where
  "noSecretLeak rt output values =
     (if output = Undef \<and> list_ex (\<lambda>v. v \<noteq> []) values then Inl Uncoded
      else require (\<not> list_ex (\<lambda>v. v \<noteq> [] \<and> contains_text v (jsonStringify rt output)) values) (Tool ''tool_secret_denied''))"

section \<open>The file broker\<close>

datatype node = File string | Directory

text \<open>The disk at one moment: \<open>realpath\<close> and \<open>lstat\<close> (\<open>None\<close> and \<open>False\<close> for \<open>ENOENT\<close>) and what a resolved path is.\<close>

record disk =
  dk_realpath :: "string \<Rightarrow> string option"
  dk_exists :: "string \<Rightarrow> bool"
  dk_node :: "string \<Rightarrow> node option"

record file_broker =
  fb_root :: string
  fb_readScopes :: "js list"
  fb_writeScopes :: "js list"
  fb_readBytes :: nat
  fb_writeBytes :: nat

definition denied :: tool_error where
  "denied = Tool ''tool_filesystem_denied''"

definition checkActive :: "bool \<Rightarrow> (tool_error, unit) result" where
  "checkActive active = require active (Tool ''tool_cancelled'')"

definition path_text_ok :: "string \<Rightarrow> bool" where
  "path_text_ok p \<longleftrightarrow> p \<noteq> [] \<and> length p \<le> pathBytes TOOL_LIMITS \<and> take 1 p \<noteq> ''/'' \<and> take 5 p \<noteq> ''file:'' \<and> \<not> includes_dots p \<and>
     CHR 0x5C \<notin> set p \<and> \<not> list_ex control_char p \<and> \<not> list_ex (\<lambda>part. part \<in> {[], ''.'', ''..''}) (split_at (CHR ''/'') p)"

definition control_file :: "string \<Rightarrow> bool" where
  "control_file p \<longleftrightarrow> p = ''.env'' \<or> starts_with ''.env/'' p \<or> starts_with ''.local/'' p \<or> contains_text ''/.env'' p \<or> contains_text ''/.local/'' p"

definition validateRelative :: "js \<Rightarrow> (tool_error, string) result" where
  "validateRelative inputPath = (case inputPath of
     Str p \<Rightarrow> if path_text_ok p \<and> \<not> control_file p then Inr p else Inl denied
   | _ \<Rightarrow> Inl denied)"

fun scopeAllowsRelative :: "js \<Rightarrow> string \<Rightarrow> bool" where
  "scopeAllowsRelative (Str s) relative = (valid_scope_text s \<and> (drop 10 s = ''root'' \<or> relative = drop 10 s \<or> starts_with (drop 10 s @ ''/'') relative))"
| "scopeAllowsRelative _ relative = False"

definition assertScope :: "js list \<Rightarrow> string \<Rightarrow> (tool_error, unit) result" where
  "assertScope scopes relative = require (list_ex (\<lambda>s. scopeAllowsRelative s relative) scopes) denied"

definition disk_realpath :: "disk \<Rightarrow> string \<Rightarrow> (tool_error, string) result" where
  "disk_realpath dk p = (case dk_realpath dk p of None \<Rightarrow> Inl Uncoded | Some r \<Rightarrow> Inr r)"

definition resolve_path :: "file_broker \<Rightarrow> disk \<Rightarrow> js \<Rightarrow> bool \<Rightarrow> (tool_error, string \<times> string) result" where
  "resolve_path fb dk inputPath mustExist =
     bind_res (validateRelative inputPath) (\<lambda>relative.
     let candidate = path_resolve (fb_root fb) relative in
     bind_res (require (inside (fb_root fb) candidate) denied) (\<lambda>_.
     if \<not> mustExist then Inr (relative, candidate)
     else
       bind_res (disk_realpath dk (fb_root fb)) (\<lambda>resolvedRoot.
       bind_res (disk_realpath dk candidate) (\<lambda>resolved.
       bind_res (require (inside resolvedRoot resolved) denied) (\<lambda>_. Inr (relative, resolved))))))"

definition path_of :: "string list \<Rightarrow> string" where
  "path_of ps = ''/'' @ join ''/'' (rev ps)"

text \<open>The loop over the parents, on the parts of the path from the innermost outwards: the first one that exists has to
  resolve to a place inside. A parent that vanishes between the two calls is skipped as well.\<close>

fun climb :: "disk \<Rightarrow> string \<Rightarrow> string list \<Rightarrow> (tool_error, unit) result" where
  "climb dk resolvedRoot ps =
     (case (if dk_exists dk (path_of ps) then dk_realpath dk (path_of ps) else None) of
        Some resolved \<Rightarrow> require (resolved = resolvedRoot \<or> inside resolvedRoot resolved) denied
      | None \<Rightarrow> (case ps of [] \<Rightarrow> Inl denied | _ # outer \<Rightarrow> climb dk resolvedRoot outer))"

declare climb.simps [simp del]

definition assertWriteParentInside :: "file_broker \<Rightarrow> disk \<Rightarrow> string \<Rightarrow> (tool_error, unit) result" where
  "assertWriteParentInside fb dk parent =
     bind_res (disk_realpath dk (fb_root fb)) (\<lambda>resolvedRoot. climb dk resolvedRoot (rev (normal_parts [] (split_at (CHR ''/'') parent))))"

record file_result =
  fr_path :: string
  fr_body :: string
  fr_sha256 :: string
  fr_byteSize :: nat

definition readText :: "runtime \<Rightarrow> file_broker \<Rightarrow> disk \<Rightarrow> bool \<Rightarrow> bool \<Rightarrow> js \<Rightarrow> (tool_error, file_result) result" where
  "readText rt fb dk active1 active2 inputPath =
     bind_res (checkActive active1) (\<lambda>_.
     bind_res (resolve_path fb dk inputPath True) (\<lambda>(relative, absolute).
     bind_res (assertScope (fb_readScopes fb) relative) (\<lambda>_.
     case dk_node dk absolute of
       None \<Rightarrow> Inl Uncoded
     | Some Directory \<Rightarrow> Inl denied
     | Some (File body) \<Rightarrow>
         bind_res (require (length body \<le> fb_readBytes fb) denied) (\<lambda>_.
         bind_res (checkActive active2) (\<lambda>_.
           Inr \<lparr>fr_path = relative, fr_body = body, fr_sha256 = ''sha256:'' @ sha256_hex rt body, fr_byteSize = length body\<rparr>)))))"

text \<open>The two checks of the parent see the disk before and after the directories are made. The result carries the path
  the content is moved to.\<close>

definition writeText :: "runtime \<Rightarrow> file_broker \<Rightarrow> disk \<Rightarrow> disk \<Rightarrow> bool \<Rightarrow> bool \<Rightarrow> js \<Rightarrow> js \<Rightarrow> (tool_error, string \<times> file_result) result" where
  "writeText rt fb dk dk' active1 active2 inputPath content =
     bind_res (checkActive active1) (\<lambda>_.
     case content of
       Str body \<Rightarrow>
         bind_res (require (length body \<le> fb_writeBytes fb) denied) (\<lambda>_.
         bind_res (resolve_path fb dk inputPath False) (\<lambda>(relative, absolute).
         bind_res (assertScope (fb_writeScopes fb) relative) (\<lambda>_.
         bind_res (assertWriteParentInside fb dk (path_dirname absolute)) (\<lambda>_.
         bind_res (assertWriteParentInside fb dk' (path_dirname absolute)) (\<lambda>_.
         bind_res (checkActive active2) (\<lambda>_.
           Inr (absolute, \<lparr>fr_path = relative, fr_body = body, fr_sha256 = ''sha256:'' @ sha256_hex rt body, fr_byteSize = length body\<rparr>)))))))
     | _ \<Rightarrow> Inl denied)"

section \<open>The network broker\<close>

record url =
  u_protocol :: string
  u_username :: string
  u_password :: string
  u_hostname :: string
  u_port :: string
  u_search :: string

record response =
  rs_status :: nat
  rs_chunks :: "string list"
  rs_headers :: "(string \<times> string) list"

definition same_destination :: "runtime \<Rightarrow> js \<Rightarrow> js \<Rightarrow> (js_error, bool) result" where
  "same_destination rt allowed requested =
     (if list_all (\<lambda>k. strict_eq (get allowed k) (get requested k)) [''protocol'', ''host''] \<and>
         to_number rt (get allowed ''port'') \<noteq> None \<and> to_number rt (get allowed ''port'') = to_number rt (get requested ''port'') \<and>
         list_all (\<lambda>k. strict_eq (get allowed k) (get requested k)) [''locality'', ''consequence'']
      then every_res (js_has rt (get allowed ''methods'')) (items (get requested ''methods''))
      else Inr False)"

definition destination :: "runtime \<Rightarrow> url \<Rightarrow> js \<Rightarrow> js" where
  "destination rt u method =
     Obj [(''protocol'', Str (butlast (u_protocol u))), (''host'', Str (u_hostname u)),
       (''port'', case str_number (if u_port u \<noteq> [] then u_port u else if u_protocol u = ''http:'' then ''80'' else ''443'') of None \<Rightarrow> Undef | Some n \<Rightarrow> Num n),
       (''methods'', Arr [method]), (''consequence'', Str ''read''),
       (''locality'', Str (if u_hostname u \<in> {''127.0.0.1'', ''localhost''} then ''loopback'' else ''external''))]"

fun boundedResponseText :: "nat \<Rightarrow> nat \<Rightarrow> string list \<Rightarrow> (tool_error, string) result" where
  "boundedResponseText limit sofar [] = Inr []"
| "boundedResponseText limit sofar (c # cs) =
     (if limit < sofar + length c then Inl (Tool ''tool_output_too_large'')
      else bind_res (boundedResponseText limit (sofar + length c) cs) (\<lambda>t. Inr (c @ t)))"

definition lift_js :: "(js_error, 'a) result \<Rightarrow> (tool_error, 'a) result" where
  "lift_js r = (case r of Inl _ \<Rightarrow> Inl Uncoded | Inr x \<Rightarrow> Inr x)"

text \<open>Whether a request goes out, and what is made of the response.\<close>

definition authorize_fetch :: "runtime \<Rightarrow> js \<Rightarrow> url option \<Rightarrow> js \<Rightarrow> (tool_error, unit) result" where
  "authorize_fetch rt operation parsed method = (case parsed of
     None \<Rightarrow> Inl (Tool ''tool_network_denied'')
   | Some u \<Rightarrow>
       bind_res (require (u_username u = [] \<and> u_password u = [] \<and> length (u_search u) \<le> 256 \<and> u_protocol u \<in> {''http:'', ''https:''}) (Tool ''tool_network_denied'')) (\<lambda>_.
       bind_res (lift_js (js_array (get operation ''network''))) (\<lambda>network.
       bind_res (lift_js (some_res (\<lambda>item. same_destination rt item (destination rt u method)) network)) (\<lambda>allowed.
         require (allowed \<and> get (destination rt u method) ''locality'' = Str ''loopback'') (Tool ''tool_network_denied'')))))"

definition fetchText :: "runtime \<Rightarrow> js \<Rightarrow> bool \<Rightarrow> bool \<Rightarrow> url option \<Rightarrow> js \<Rightarrow> response option \<Rightarrow> (tool_error, js) result" where
  "fetchText rt operation active1 active2 parsed method fetched =
     bind_res (checkActive active1) (\<lambda>_.
     bind_res (authorize_fetch rt operation parsed method) (\<lambda>_.
     case fetched of
       None \<Rightarrow> Inl Uncoded
     | Some r \<Rightarrow>
         bind_res (require (\<not> (300 \<le> rs_status r \<and> rs_status r < 400)) (Tool ''tool_network_denied'')) (\<lambda>_.
         bind_res (boundedResponseText (networkResponseBytes TOOL_LIMITS) 0 (rs_chunks r)) (\<lambda>text.
         bind_res (checkActive active2) (\<lambda>_.
           Inr (Obj [(''status'', Num (of_nat (rs_status r))), (''bodySha256'', Str (''sha256:'' @ sha256_hex rt text)), (''byteSize'', Num (of_nat (length text))),
             (''headers'', Obj (map (\<lambda>(k, v). (k, Str v)) (take 8 (filter (\<lambda>(k, v). to_lower rt k \<notin> {''set-cookie'', ''authorization'', ''cookie''}) (rs_headers r)))))]))))))"

section \<open>The secret broker\<close>

text \<open>The values resolved so far stay recorded when a later one is missing.\<close>

fun resolve_each :: "(js \<Rightarrow> js) \<Rightarrow> js list \<Rightarrow> string list \<Rightarrow> string list \<times> (tool_error, string list) result" where
  "resolve_each resolver [] resolved = (resolved, Inr [])"
| "resolve_each resolver (r # rs) resolved = (case resolver r of
     Str v \<Rightarrow> (case resolve_each resolver rs (resolved @ [v]) of (all, res) \<Rightarrow> (all, bind_res res (\<lambda>vs. Inr (v # vs))))
   | _ \<Rightarrow> (resolved, Inl (Tool ''tool_secret_denied'')))"

definition resolveMany :: "runtime \<Rightarrow> js \<Rightarrow> (js \<Rightarrow> js) option \<Rightarrow> bool \<Rightarrow> js \<Rightarrow> string list \<Rightarrow> string list \<times> (tool_error, string list) result" where
  "resolveMany rt operation resolver active references resolved =
     (case bind_res (checkActive active) (\<lambda>_.
        case resolver of
          None \<Rightarrow> Inl (Tool ''tool_secret_denied'')
        | Some f \<Rightarrow>
            (case references of
               Arr refs \<Rightarrow> bind_res (lift_js (every_res (js_has rt (get operation ''secretReferences'')) refs)) (\<lambda>ok.
                 if ok then Inr (f, refs) else Inl (Tool ''tool_secret_denied''))
             | _ \<Rightarrow> Inl (Tool ''tool_secret_denied''))) of
        Inl e \<Rightarrow> (resolved, Inl e)
      | Inr (f, refs) \<Rightarrow> resolve_each f refs resolved)"

section \<open>Paths\<close>

definition plain_part :: "string \<Rightarrow> bool" where
  "plain_part p \<longleftrightarrow> p \<notin> {[], ''.'', ''..''} \<and> CHR ''/'' \<notin> set p"

lemma normal_parts_plain: "\<forall>p \<in> set ps. p \<notin> {[], ''.'', ''..''} \<Longrightarrow> normal_parts acc ps = rev acc @ ps"
  by (induction ps arbitrary: acc) auto

lemma normal_parts_append: "normal_parts acc (ps @ qs) = normal_parts (rev (normal_parts acc ps)) qs"
  by (induction ps arbitrary: acc) auto

lemma normal_parts_are_plain:
  "\<forall>p \<in> set acc. plain_part p \<Longrightarrow> \<forall>p \<in> set ps. CHR ''/'' \<notin> set p \<Longrightarrow> p \<in> set (normal_parts acc ps) \<Longrightarrow> plain_part p"
proof (induction ps arbitrary: acc)
  case (Cons q ps)
  have "\<forall>p \<in> set (tl acc). plain_part p" using Cons.prems(1) by (cases acc) auto
  then have "\<forall>p \<in> set (if q = [] \<or> q = ''.'' then acc else if q = ''..'' then tl acc else q # acc). plain_part p"
    using Cons.prems(1,2) by (simp add: plain_part_def)
  from Cons.IH [OF this] Cons.prems(2,3) show ?case by simp
qed simp

text \<open>A resolved directory is a slash and its parts, and resolving leaves them as they are.\<close>

lemma resolved_parts:
  obtains rs where "path_resolve from p = ''/'' @ join ''/'' rs" and "\<forall>r \<in> set rs. plain_part r"
proof -
  let ?ps = "split_at (CHR ''/'') (if take 1 p = ''/'' then p else from @ ''/'' @ p)"
  have "\<forall>r \<in> set (normal_parts [] ?ps). plain_part r"
    using normal_parts_are_plain [of "[]" ?ps] split_at_no_sep by auto
  then show thesis using that [of "normal_parts [] ?ps"] by (simp add: path_resolve_def)
qed

lemma resolve_below:
  assumes "\<forall>r \<in> set rs. plain_part r" and "rs \<noteq> []" and "path_text_ok p"
  shows "path_resolve (''/'' @ join ''/'' rs) p = (''/'' @ join ''/'' rs) @ ''/'' @ p"
proof -
  let ?qs = "split_at (CHR ''/'') p"
  have qs: "\<forall>q \<in> set ?qs. q \<notin> {[], ''.'', ''..''}" and rel: "take 1 p \<noteq> ''/''"
    using assms(3) by (auto simp: path_text_ok_def list_ex_iff)
  have rs: "\<forall>r \<in> set rs. r \<notin> {[], ''.'', ''..''} \<and> CHR ''/'' \<notin> set r" using assms(1) by (simp add: plain_part_def)
  have "split_at (CHR ''/'') ((''/'' @ join ''/'' rs) @ ''/'' @ p) = [] # rs @ ?qs"
    using split_at_append [of "CHR ''/''" "[]" "join ''/'' rs @ ''/'' @ p"] split_at_append [of "CHR ''/''" "join ''/'' rs" p] split_join [OF assms(2), of "CHR ''/''"] rs
    by simp
  then have "path_resolve (''/'' @ join ''/'' rs) p = ''/'' @ join ''/'' (normal_parts [] (rs @ ?qs))"
    using rel by (simp add: path_resolve_def)
  also have "normal_parts [] (rs @ ?qs) = rs @ ?qs" using qs rs by (intro trans [OF normal_parts_plain]) auto
  also have "join ''/'' (rs @ ?qs) = join ''/'' rs @ ''/'' @ p" using assms(2) by (simp add: join_append join_split)
  finally show ?thesis by simp
qed

text \<open>A directory counts as existing when it can be found and resolved; \<open>nth_parent n\<close> of a path is the directory \<open>n\<close>
  levels above the one it lies in.\<close>

definition resolves_to :: "disk \<Rightarrow> string \<Rightarrow> string \<Rightarrow> bool" where
  "resolves_to dk p q \<longleftrightarrow> dk_exists dk p \<and> dk_realpath dk p = Some q"

definition nth_parent :: "string \<Rightarrow> nat \<Rightarrow> string" where
  "nth_parent absolute n = path_of (drop n (rev (normal_parts [] (split_at (CHR ''/'') (path_dirname absolute)))))"

lemma climb_step:
  "climb dk R ps = Inr () \<longleftrightarrow>
   (if \<exists>q. resolves_to dk (path_of ps) q then \<exists>q. resolves_to dk (path_of ps) q \<and> (q = R \<or> inside R q)
    else \<exists>p outer. ps = p # outer \<and> climb dk R outer = Inr ())"
  by (subst climb.simps) (auto simp: resolves_to_def split: option.splits list.splits)

lemma climb_ok:
  "climb dk R ps = Inr () \<Longrightarrow> \<exists>n q. resolves_to dk (path_of (drop n ps)) q \<and> (q = R \<or> inside R q) \<and> (\<forall>m < n. \<forall>q'. \<not> resolves_to dk (path_of (drop m ps)) q')"
proof (induction ps)
  case Nil
  then show ?case by (auto simp: climb_step [of dk R "[]"] intro!: exI [of _ 0] split: if_splits)
next
  case (Cons p ps)
  show ?case
  proof (cases "\<exists>q. resolves_to dk (path_of (p # ps)) q")
    case True
    then show ?thesis using Cons.prems unfolding climb_step [of dk R "p # ps"] by (intro exI [of _ 0]) auto
  next
    case False
    then have "climb dk R ps = Inr ()" using Cons.prems climb_step [of dk R "p # ps"] by simp
    then obtain n q where n: "resolves_to dk (path_of (drop n ps)) q" "q = R \<or> inside R q" "\<forall>m < n. \<forall>q'. \<not> resolves_to dk (path_of (drop m ps)) q'"
      using Cons.IH by blast
    then have "\<forall>m < Suc n. \<forall>q'. \<not> resolves_to dk (path_of (drop m (p # ps))) q'" using False by (auto simp: less_Suc_eq_0_disj)
    then show ?thesis using n(1,2) by (intro exI [of _ "Suc n"]) auto
  qed
qed

lemma resolve_path_ok:
  assumes "resolve_path fb dk inputPath mustExist = Inr (relative, absolute)" and "fb_root fb = path_resolve cwd dir"
  shows "inputPath = Str relative \<and> path_text_ok relative \<and> \<not> control_file relative \<and>
    (if mustExist then \<exists>R. dk_realpath dk (fb_root fb) = Some R \<and> dk_realpath dk (fb_root fb @ ''/'' @ relative) = Some absolute \<and> inside R absolute
     else absolute = fb_root fb @ ''/'' @ relative)"
proof -
  have v: "inputPath = Str relative" "path_text_ok relative" "\<not> control_file relative" "inside (fb_root fb) (path_resolve (fb_root fb) relative)"
    using assms(1) by (auto simp: resolve_path_def validateRelative_def Let_def bind_res_eq_Inr split: js.splits if_splits)
  obtain rs where rs: "fb_root fb = ''/'' @ join ''/'' rs" "\<forall>r \<in> set rs. plain_part r" using resolved_parts assms(2) by metis
  have "rs \<noteq> []"
  proof
    assume "rs = []"
    then have "take 2 (path_resolve ''/'' relative) = ''//''" using v(4) rs(1) by (simp add: inside_def numeral_2_eq_2)
    moreover obtain qs where "path_resolve ''/'' relative = ''/'' @ join ''/'' qs" "\<forall>r \<in> set qs. plain_part r" using resolved_parts by metis
    ultimately have t: "take 2 (''/'' @ join ''/'' qs) = ''//''" and qs: "\<forall>r \<in> set qs. plain_part r" by simp_all
    then obtain q qs' where q: "qs = q # qs'" by (cases qs) auto
    then obtain c q' where "q = c # q'" "c \<noteq> CHR ''/''" using qs by (cases q) (auto simp: plain_part_def)
    then show False using t unfolding q by (cases qs') auto
  qed
  then have "path_resolve (fb_root fb) relative = fb_root fb @ ''/'' @ relative"
    unfolding rs(1) by (rule resolve_below [OF rs(2) _ v(2)])
  then show ?thesis
    using assms(1) v by (auto simp: resolve_path_def Let_def bind_res_eq_Inr disk_realpath_def validateRelative_def split: if_splits option.splits)
qed

section \<open>What the brokers let through\<close>

text \<open>C21: what the file broker writes lands inside the workspace. A write that is carried out goes to the root followed by
  the requested path as it was given, whose segments are never empty, \<open>.\<close> or \<open>..\<close>; the path is allowed by one of the
  write scopes, is no control file and the content is bounded; and both before the directories are made and just before
  the write, the nearest parent of the target that exists resolves to the resolved root or a place inside it, while no
  parent nearer to the target exists (a link that leads nowhere counts as missing).\<close>

theorem broker_write_stays_inside:
  assumes "writeText rt fb dk dk' active1 active2 inputPath content = Inr (absolute, r)" and "fb_root fb = path_resolve cwd dir"
  shows "inputPath = Str (fr_path r) \<and> absolute = fb_root fb @ ''/'' @ fr_path r \<and> content = Str (fr_body r) \<and> length (fr_body r) \<le> fb_writeBytes fb \<and>
    list_all (\<lambda>part. part \<notin> {[], ''.'', ''..''}) (split_at (CHR ''/'') (fr_path r)) \<and> \<not> control_file (fr_path r) \<and>
    list_ex (\<lambda>s. scopeAllowsRelative s (fr_path r)) (fb_writeScopes fb) \<and>
    (\<forall>d \<in> {dk, dk'}. \<exists>R n q. dk_realpath d (fb_root fb) = Some R \<and> resolves_to d (nth_parent absolute n) q \<and> (q = R \<or> inside R q) \<and>
       (\<forall>m < n. \<forall>q'. \<not> resolves_to d (nth_parent absolute m) q'))"
proof -
  obtain body where b: "content = Str body" using assms(1) by (cases content) (auto simp: writeText_def bind_res_eq_Inr)
  from assms(1) obtain relative where r: "length body \<le> fb_writeBytes fb" "resolve_path fb dk inputPath False = Inr (relative, absolute)"
      "assertScope (fb_writeScopes fb) relative = Inr ()" "\<forall>d \<in> {dk, dk'}. assertWriteParentInside fb d (path_dirname absolute) = Inr ()"
      "r = \<lparr>fr_path = relative, fr_body = body, fr_sha256 = ''sha256:'' @ sha256_hex rt body, fr_byteSize = length body\<rparr>"
    unfolding writeText_def b by (auto simp: bind_res_eq_Inr)
  have "\<exists>R n q. dk_realpath d (fb_root fb) = Some R \<and> resolves_to d (nth_parent absolute n) q \<and> (q = R \<or> inside R q) \<and>
      (\<forall>m < n. \<forall>q'. \<not> resolves_to d (nth_parent absolute m) q')" if "d \<in> {dk, dk'}" for d
  proof -
    have "assertWriteParentInside fb d (path_dirname absolute) = Inr ()" using r(4) that by blast
    then obtain R where R: "dk_realpath d (fb_root fb) = Some R" "climb d R (rev (normal_parts [] (split_at (CHR ''/'') (path_dirname absolute)))) = Inr ()"
      by (cases "dk_realpath d (fb_root fb)") (auto simp: assertWriteParentInside_def disk_realpath_def)
    then show ?thesis using climb_ok [OF R(2)] by (auto simp only: nth_parent_def)
  qed
  moreover have "list_all (\<lambda>part. part \<notin> {[], ''.'', ''..''}) (split_at (CHR ''/'') relative)"
    using resolve_path_ok [OF r(2) assms(2)] by (auto simp: path_text_ok_def list_ex_iff list_all_iff)
  ultimately show ?thesis
    using resolve_path_ok [OF r(2) assms(2)] r(1,3) unfolding r(5) b by (auto simp: assertScope_def)
qed

text \<open>What the file broker reads lies inside the workspace. A read that succeeds returns the content of a file of
  bounded size that the requested path resolves to, with links followed, strictly inside the resolved root, for a path
  that one of the read scopes allows and that is no control file.\<close>

theorem broker_read_stays_inside:
  assumes "readText rt fb dk active1 active2 inputPath = Inr r" and "fb_root fb = path_resolve cwd dir"
  shows "inputPath = Str (fr_path r) \<and> \<not> control_file (fr_path r) \<and> list_ex (\<lambda>s. scopeAllowsRelative s (fr_path r)) (fb_readScopes fb) \<and>
    (\<exists>R absolute. dk_realpath dk (fb_root fb) = Some R \<and> dk_realpath dk (fb_root fb @ ''/'' @ fr_path r) = Some absolute \<and> inside R absolute \<and>
       dk_node dk absolute = Some (File (fr_body r)) \<and> length (fr_body r) \<le> fb_readBytes fb)"
proof -
  from assms(1) obtain relative absolute where r: "resolve_path fb dk inputPath True = Inr (relative, absolute)" "assertScope (fb_readScopes fb) relative = Inr ()"
      and node: "(case dk_node dk absolute of None \<Rightarrow> Inl Uncoded | Some Directory \<Rightarrow> Inl denied | Some (File body) \<Rightarrow>
        bind_res (require (length body \<le> fb_readBytes fb) denied) (\<lambda>_. bind_res (checkActive active2) (\<lambda>_.
          Inr \<lparr>fr_path = relative, fr_body = body, fr_sha256 = ''sha256:'' @ sha256_hex rt body, fr_byteSize = length body\<rparr>))) = Inr r"
    unfolding readText_def by (auto simp: bind_res_eq_Inr)
  obtain body where "dk_node dk absolute = Some (File body)"
    using node by (cases "dk_node dk absolute") (auto split: node.splits)
  with node have "dk_node dk absolute = Some (File (fr_body r))" "length (fr_body r) \<le> fb_readBytes fb" "fr_path r = relative"
    by (auto simp: bind_res_eq_Inr)
  then show ?thesis using r(2) resolve_path_ok [OF r(1) assms(2)] by (auto simp: assertScope_def)
qed

definition sample_disk :: disk where
  "sample_disk = \<lparr>dk_realpath = Some, dk_exists = (\<lambda>_. True), dk_node = (\<lambda>_. Some (File ''x''))\<rparr>"

definition sample_broker :: file_broker where
  "sample_broker = \<lparr>fb_root = ''/w'', fb_readScopes = [Str ''workspace:root''], fb_writeScopes = [Str ''workspace:a''], fb_readBytes = 10, fb_writeBytes = 10\<rparr>"

lemma sample_root: "fb_root sample_broker = path_resolve ''/'' ''w''"
  by code_simp

lemma pathBytes_TOOL: "pathBytes TOOL_LIMITS = 240"
  by (simp add: TOOL_LIMITS_def)

lemma path_text_ok_code [code]:
  "path_text_ok p \<longleftrightarrow> p \<noteq> [] \<and> length p \<le> 240 \<and> take 1 p \<noteq> ''/'' \<and> take 5 p \<noteq> ''file:'' \<and> \<not> includes_dots p \<and>
     CHR 0x5C \<notin> set p \<and> \<not> list_ex control_char p \<and> \<not> list_ex (\<lambda>part. part \<in> {[], ''.'', ''..''}) (split_at (CHR ''/'') p)"
  by (simp only: path_text_ok_def pathBytes_TOOL)

text \<open>A disk on which the root is a link and nothing below it exists.\<close>

definition linked_disk :: disk where
  "linked_disk = \<lparr>dk_realpath = (\<lambda>p. if p = ''/w'' then Some ''/real/w'' else Some p), dk_exists = (\<lambda>p. p = ''/w'' \<or> p = ''/''), dk_node = (\<lambda>_. None)\<rparr>"

theorem broker_write_stays_inside_witness:
  "\<exists>absolute r n. writeText sample_runtime sample_broker linked_disk linked_disk True True (Str ''a/b/c'') (Str ''hi'') = Inr (absolute, r) \<and>
     absolute = fb_root sample_broker @ ''/'' @ fr_path r \<and> \<not> control_file (fr_path r) \<and>
     dk_exists linked_disk (nth_parent absolute n) \<and> (\<forall>m < n. \<not> dk_exists linked_disk (nth_parent absolute m))"
proof -
  have "\<not> isl (writeText sample_runtime sample_broker linked_disk linked_disk True True (Str ''a/b/c'') (Str ''hi''))" by code_simp
  then obtain absolute r where w: "writeText sample_runtime sample_broker linked_disk linked_disk True True (Str ''a/b/c'') (Str ''hi'') = Inr (absolute, r)"
    by (cases "writeText sample_runtime sample_broker linked_disk linked_disk True True (Str ''a/b/c'') (Str ''hi'')") auto
  have "(\<exists>q. resolves_to linked_disk p q) \<longleftrightarrow> dk_exists linked_disk p" for p by (auto simp: resolves_to_def linked_disk_def)
  then show ?thesis using broker_write_stays_inside [OF w sample_root] w by blast
qed

theorem broker_read_stays_inside_witness:
  "\<exists>r. readText sample_runtime sample_broker sample_disk True True (Str ''a/b'') = Inr r \<and> \<not> control_file (fr_path r)"
proof -
  have "\<not> isl (readText sample_runtime sample_broker sample_disk True True (Str ''a/b''))" by code_simp
  then obtain r where w: "readText sample_runtime sample_broker sample_disk True True (Str ''a/b'') = Inr r"
    by (cases "readText sample_runtime sample_broker sample_disk True True (Str ''a/b'')") auto
  from broker_read_stays_inside [OF w sample_root] w show ?thesis by blast
qed

text \<open>Control files are recognised below the root, but at the root only by their exact names.\<close>

lemma root_env_variants_pass: "validateRelative (Str ''.env.local'') = Inr ''.env.local'' \<and> validateRelative (Str ''a/.env.local'') = Inl denied"
  by code_simp

text \<open>C22: the network broker reaches only declared loopback destinations. A request goes out only to \<open>127.0.0.1\<close> or
  \<open>localhost\<close>, over http or https and without credentials in the URL, and only when the operation declares a
  destination with the same scheme, host and port for reading that lists the method.\<close>

theorem egress_is_declared_loopback:
  assumes "authorize_fetch rt operation (Some u) method = Inr ()"
  shows "u_hostname u \<in> {''127.0.0.1'', ''localhost''} \<and> u_protocol u \<in> {''http:'', ''https:''} \<and> u_username u = [] \<and> u_password u = [] \<and>
    (\<exists>item \<in> set (items (get operation ''network'')). get item ''host'' = Str (u_hostname u) \<and> get item ''protocol'' = Str (butlast (u_protocol u)) \<and>
       to_number rt (get item ''port'') = to_number rt (get (destination rt u method) ''port'') \<and> get item ''consequence'' = Str ''read'' \<and>
       get item ''locality'' = Str ''loopback'' \<and> js_has rt (get item ''methods'') method = Inr True)"
proof -
  obtain network where n: "get operation ''network'' = Arr network" "some_res (\<lambda>item. same_destination rt item (destination rt u method)) network = Inr True"
    and l: "get (destination rt u method) ''locality'' = Str ''loopback''"
    and url: "u_username u = []" "u_password u = []" "u_protocol u \<in> {''http:'', ''https:''}"
    using assms by (auto simp: authorize_fetch_def bind_res_eq_Inr lift_js_def split: sum.splits)
  from some_res_True [OF n(2)] obtain item where item: "item \<in> set network" "same_destination rt item (destination rt u method) = Inr True" ..
  have host: "u_hostname u \<in> {''127.0.0.1'', ''localhost''}" using l by (simp add: destination_def split: if_splits)
  have "get item ''host'' = Str (u_hostname u)" "get item ''protocol'' = Str (butlast (u_protocol u))" "get item ''consequence'' = Str ''read''"
      "get item ''locality'' = Str ''loopback''" "js_has rt (get item ''methods'') method = Inr True"
      "to_number rt (get item ''port'') = to_number rt (get (destination rt u method) ''port'')"
    using item(2) l host by (auto simp: same_destination_def destination_def bind_res_eq_Inr split: if_splits)
  then show ?thesis using n(1) item(1) host url by auto
qed

definition sample_url :: url where
  "sample_url = \<lparr>u_protocol = ''http:'', u_username = [], u_password = [], u_hostname = ''127.0.0.1'', u_port = ''80'', u_search = []\<rparr>"

definition sample_network :: js where
  "sample_network = Obj [(''network'', Arr [Obj [(''protocol'', Str ''http''), (''host'', Str ''127.0.0.1''), (''port'', Num 80), (''methods'', Arr [Str ''GET'']),
     (''consequence'', Str ''read''), (''locality'', Str ''loopback'')]])]"

theorem egress_is_declared_loopback_witness:
  "authorize_fetch sample_runtime sample_network (Some sample_url) (Str ''GET'') = Inr () \<and> u_hostname sample_url \<in> {''127.0.0.1'', ''localhost''}"
proof -
  have "authorize_fetch sample_runtime sample_network (Some sample_url) (Str ''GET'') = Inr ()" by code_simp
  with egress_is_declared_loopback [OF this] show ?thesis by blast
qed

end
