(* ===== verification/ToolRegistry.thy ===== *)
theory ToolRegistry
  imports ToolBroker
begin

text \<open>
  packages/tool-registry/src/index.mjs, last part: the registry that executes tool calls. A
  call threads the grants, a trace of what it did (events offered to the sink and handlers
  called) and the variables its error handler reads. The clock, fresh identifiers and the
  sink are arguments; a handler is a function of what it is given, and its outcome says how
  the race against the deadline and the caller's signal settles. Fields of a request that
  hold functions are some truthy value. Telemetry spans are left out.
\<close>

section \<open>State\<close>

record handler_call =
  hc_input :: js
  hc_grant :: grant
  hc_files :: file_broker
  hc_operation :: js
  hc_effectBoundary :: js
  hc_operationFingerprint :: string
  hc_idempotencyKey :: js
  hc_timeoutMs :: "rat option"

text \<open>How the race settles: the handler returns an output, having resolved some secrets, or throws; or the deadline or
  the signal comes first.\<close>

datatype outcome = Returned js "string list" | Threw tool_error | TimedOut | Cancelled

type_synonym handler = "handler_call \<Rightarrow> outcome"

text \<open>The sink accepts an event or throws.\<close>

type_synonym sink = "event \<Rightarrow> tool_error option"

datatype step = Emitted event "tool_error option" | Called js handler_call

record registry =
  rg_tools :: "(js \<times> tool) list"
  rg_handlers :: "js \<Rightarrow> handler option"
  rg_policyRegistry :: js
  rg_auditSink :: "(js \<Rightarrow> bool) option"
  rg_eventSink :: "sink option"
  rg_workspaceRoot :: string

text \<open>What one call takes from outside: the clock at its points, fresh identifiers and the grant's secret.\<close>

record call_env =
  c_startedAt :: string
  c_issuedAt :: string
  c_consumedAt :: string
  c_completedAt :: string
  c_policyNow :: js
  c_uuid :: string
  c_grantId :: string
  c_secret :: string
  c_event :: "nat \<Rightarrow> string \<times> int"

record exec_state =
  x_grants :: grants
  x_trace :: "step list"
  x_tool :: "tool option"
  x_operationName :: js
  x_grantId :: js

type_synonym 'a action = "exec_state \<Rightarrow> exec_state \<times> (tool_error, 'a) result"

definition act :: "(tool_error, 'a) result \<Rightarrow> 'a action" where
  "act r x = (x, r)"

definition assign :: "(exec_state \<Rightarrow> exec_state) \<Rightarrow> unit action" where
  "assign f x = (f x, Inr ())"

definition act_bind :: "'a action \<Rightarrow> ('a \<Rightarrow> 'b action) \<Rightarrow> 'b action" where
  "act_bind m f x = (case m x of (x', Inl e) \<Rightarrow> (x', Inl e) | (x', Inr a) \<Rightarrow> f a x')"

section \<open>Events\<close>

definition text_of :: "js \<Rightarrow> string" where
  "text_of v = (case v of Str s \<Rightarrow> s | _ \<Rightarrow> [])"

text \<open>The request was validated when an event is made, so its fields are texts.\<close>

definition emit_event :: "runtime \<Rightarrow> sink option \<Rightarrow> call_env \<Rightarrow> string \<Rightarrow> js \<Rightarrow> js \<Rightarrow> unit action" where
  "emit_event rt snk env event_type request payload x = (case snk of
     None \<Rightarrow> (x, Inr ())
   | Some accept \<Rightarrow>
       (let (i, now) = c_event env (length (x_trace x)) in
        case createEvent i now event_type (text_of (get request ''workspaceId'')) (text_of (get request ''runId'')) (text_of (get request ''actorId''))
            (safeEventPayload rt payload) 0 (Some (text_of (get request ''correlationId''))) None ''workspace-private'' ''0.2.0-dev'' of
          Inl _ \<Rightarrow> (x, Inl Uncoded)
        | Inr e \<Rightarrow> (x\<lparr>x_trace := x_trace x @ [Emitted e (accept e)]\<rparr>, case accept e of None \<Rightarrow> Inr () | Some err \<Rightarrow> Inl err)))"

definition tool_fields :: "tool \<Rightarrow> string \<Rightarrow> (string \<times> js) list" where
  "tool_fields tool name = [(''toolId'', get (t_manifest tool) ''id''), (''toolVersion'', get (t_manifest tool) ''version''),
     (''manifestFingerprint'', Str (t_manifestFingerprint tool)), (''operation'', Str name)]"

definition policy_fields :: "decision \<Rightarrow> (string \<times> js) list" where
  "policy_fields d = [(''policyDecisionId'', Str (pd_decisionId d)), (''policyVersion'', pd_policyVersion d), (''policyFingerprint'', Str (pd_policyFingerprint d))]"

section \<open>Execution\<close>

definition find_tool :: "registry \<Rightarrow> js \<Rightarrow> tool option" where
  "find_tool rg toolId = map_option snd (List.find (\<lambda>(k, _). k = toolId) (rg_tools rg))"

record prepared =
  pr_trusted :: trusted
  pr_tool :: tool
  pr_name :: string
  pr_operation :: js

definition DEFAULT_INPUT_BYTES :: js where
  "DEFAULT_INPUT_BYTES = Num 65536"

definition DEFAULT_RUNTIME_MS :: js where
  "DEFAULT_RUNTIME_MS = Num 30000"

text \<open>The checks up to the event that the call was requested.\<close>

definition prepare :: "engine \<Rightarrow> registry \<Rightarrow> call_env \<Rightarrow> js \<Rightarrow> prepared action" where
  "prepare eg rg env request =
     (let rt = eg_runtime eg; inp = orelse (get request ''input'') (Obj []) in
      act_bind (act (assertNoForgedAuthority request)) (\<lambda>_.
      act_bind (act (validateInvocation request)) (\<lambda>_.
      act_bind (act (assertTrustedContext request)) (\<lambda>trusted.
      act_bind (assign (x_tool_update (\<lambda>_. find_tool rg (get request ''toolId'')))) (\<lambda>_.
      act_bind (act (case find_tool rg (get request ''toolId'') of None \<Rightarrow> Inl (Tool ''tool_not_registered'') | Some tool \<Rightarrow> Inr tool)) (\<lambda>tool.
      act_bind (act (require (t_enabled tool) (Tool ''tool_disabled''))) (\<lambda>_.
      act_bind (act (require (strict_eq (get request ''toolVersion'') (get (t_manifest tool) ''version'')) (Tool ''tool_request_invalid''))) (\<lambda>_.
      act_bind (act (require (truthy (get request ''manifestFingerprint'') \<longrightarrow> get request ''manifestFingerprint'' = Str (t_manifestFingerprint tool)) (Tool ''tool_manifest_invalid''))) (\<lambda>_.
      act_bind (assign (x_operationName_update (\<lambda>_. get request ''operation''))) (\<lambda>_.
      let name = text_of (get request ''operation''); operation = lookup_operation (get (t_manifest tool) ''operations'') name in
      act_bind (act (require (truthy operation) (Tool ''tool_operation_not_declared''))) (\<lambda>_.
      act_bind (act (require (str_in (get operation ''sandbox'') SANDBOX_PROFILES) (Tool ''tool_sandbox_unavailable''))) (\<lambda>_.
      act_bind (act (assertApprovalContextAllowed (get request ''approvalContext'') operation)) (\<lambda>_.
      act_bind (act (boundedJsonBytes rt inp (orelse (get (get operation ''limits'') ''inputBytes'') DEFAULT_INPUT_BYTES) ''tool_request_invalid'')) (\<lambda>_.
      act_bind (act (case assertJsonSchema (eg_stack eg) rt (eg_matcher eg) (get operation ''inputSchema'') inp of
          Inl _ \<Rightarrow> Inl (Tool ''tool_input_schema_failed'') | Inr _ \<Rightarrow> Inr ())) (\<lambda>_.
      act_bind (emit_event rt (rg_eventSink rg) env ''tool.requested'' request (Obj (tool_fields tool name @
          [(''inputFingerprint'', Str (inputFingerprint rt (get request ''input''))), (''sideEffectClass'', get operation ''sideEffectClass''), (''sandbox'', get operation ''sandbox'')]))) (\<lambda>_.
        act (Inr \<lparr>pr_trusted = trusted, pr_tool = tool, pr_name = name, pr_operation = operation\<rparr>)))))))))))))))))"

definition capability_of :: "js \<Rightarrow> prepared \<Rightarrow> js" where
  "capability_of request pr = operationCapability (pr_tool pr) (pr_name pr) (get request ''requestedCapability'') (get request ''timeoutMs'') (get request ''outputLimitBytes'')"

definition policy_request :: "runtime \<Rightarrow> js \<Rightarrow> prepared \<Rightarrow> js" where
  "policy_request rt request pr =
     (let tool = pr_tool pr; trusted = pr_trusted pr; toolId = get (t_manifest tool) ''id'' in
      Obj [(''schemaVersion'', Str ''1.0.0''), (''requestId'', Str (''polreq_'' @ text_of (get request ''requestId''))), (''correlationId'', get request ''correlationId''),
        (''operationId'', Str (''tool:'' @ js_to_string rt toolId @ '':'' @ pr_name pr)),
        (''principal'', Obj (spread (own_entries (tr_principal trusted)) [(''agentRole'', orelse (get (tr_principal trusted) ''agentRole'') (get request ''trustedAgentRole''))])),
        (''workspaceId'', get request ''workspaceId''), (''membership'', tr_membership trusted), (''action'', Str ''tool.invoke''),
        (''resource'', Obj [(''type'', Str ''tool''), (''id'', toolId), (''workspaceId'', get request ''workspaceId''), (''dataClass'', orelse (get request ''dataClass'') (Str ''workspace-private''))]),
        (''environment'', tr_environment trusted), (''capabilityRequest'', capability_of request pr), (''trustedToolManifest'', operationToPolicyManifest tool (pr_name pr)),
        (''approvalContext'', orelse (get request ''approvalContext'') Null), (''idempotencyKey'', orelse (get request ''idempotencyKey'') Null),
        (''trustedTimestamp'', get request ''trustedTimestamp''), (''payloadFingerprint'', Str (inputFingerprint rt (get request ''input'')))])"

definition decide :: "engine \<Rightarrow> registry \<Rightarrow> call_env \<Rightarrow> js \<Rightarrow> prepared \<Rightarrow> (js_error, decision) result" where
  "decide eg rg env request pr =
     evaluate (eg_runtime eg) (rg_auditSink rg) Null (c_uuid env) (c_policyNow env) (rg_policyRegistry rg) (policy_request (eg_runtime eg) request pr)"

text \<open>\<open>Math.min\<close>; \<open>None\<close> is \<open>NaN\<close>.\<close>

definition js_min :: "runtime \<Rightarrow> js \<Rightarrow> js \<Rightarrow> rat option" where
  "js_min rt a b = (case (to_number rt a, to_number rt b) of (Some x, Some y) \<Rightarrow> Some (min x y) | _ \<Rightarrow> None)"

definition at_least_one :: "rat option \<Rightarrow> rat option" where
  "at_least_one = map_option (max 1)"

definition limit_js :: "rat option \<Rightarrow> js" where
  "limit_js r = (case r of None \<Rightarrow> Undef | Some n \<Rightarrow> Num n)"

definition effective_limit :: "runtime \<Rightarrow> js \<Rightarrow> js \<Rightarrow> js \<Rightarrow> rat option" where
  "effective_limit rt declared requested fallback =
     at_least_one (js_min rt (orelse declared fallback) (orelse requested (orelse declared fallback)))"

definition operation_fingerprint :: "runtime \<Rightarrow> js \<Rightarrow> prepared \<Rightarrow> string" where
  "operation_fingerprint rt request pr = canonicalOperationFingerprint rt (policy_request rt request pr)"

definition binding_of :: "runtime \<Rightarrow> js \<Rightarrow> prepared \<Rightarrow> decision \<Rightarrow> js" where
  "binding_of rt request pr d = exactBinding rt request (pr_tool pr) (pr_name pr) d (operation_fingerprint rt request pr)"

definition issue_act :: "runtime \<Rightarrow> call_env \<Rightarrow> js \<Rightarrow> rat option \<Rightarrow> string action" where
  "issue_act rt env binding ttl x = (case issue_grant rt (c_issuedAt env) (c_grantId env) (c_secret env) binding ttl 1 (x_grants x) of
     (gs, Inl e) \<Rightarrow> (x\<lparr>x_grants := gs\<rparr>, Inl e)
   | (gs, Inr (token, g)) \<Rightarrow> (x\<lparr>x_grants := gs, x_grantId := Str (g_id g)\<rparr>, Inr token))"

definition consume_act :: "runtime \<Rightarrow> call_env \<Rightarrow> string \<Rightarrow> js \<Rightarrow> grant action" where
  "consume_act rt env token binding x = (case consume rt (c_consumedAt env) token binding (x_grants x) of
     (gs, Inl code) \<Rightarrow> (x\<lparr>x_grants := gs\<rparr>, Inl (Tool code))
   | (gs, Inr g) \<Rightarrow> (x\<lparr>x_grants := gs\<rparr>, Inr g))"

text \<open>The requirements of the operation, the grant and the event that the call was authorized.\<close>

definition authorize :: "engine \<Rightarrow> registry \<Rightarrow> call_env \<Rightarrow> js \<Rightarrow> prepared \<Rightarrow> decision \<Rightarrow> grant action" where
  "authorize eg rg env request pr d =
     (let rt = eg_runtime eg; operation = pr_operation pr; capability = capability_of request pr; binding = binding_of rt request pr d;
          runtimeMs = get (get capability ''limits'') ''runtimeMs'' in
      act_bind (act (require (truthy (get (get operation ''approval'') ''required'') \<longrightarrow> truthy (get request ''approvalContext'')) (Tool ''tool_approval_required''))) (\<lambda>_.
      act_bind (act (require (truthy (get (get operation ''idempotency'') ''required'') \<longrightarrow> truthy (get request ''idempotencyKey'')) (Tool ''tool_idempotency_required''))) (\<lambda>_.
      act_bind (act (require (get operation ''sideEffectClass'' \<noteq> Str ''read-only'' \<longrightarrow> truthy (get (get request ''effectBoundary'') ''effect''))
          (Tool ''tool_effect_boundary_required''))) (\<lambda>_.
      act_bind (issue_act rt env binding (js_min rt (Num 30000) (orelse runtimeMs DEFAULT_RUNTIME_MS))) (\<lambda>token.
      act_bind (emit_event rt (rg_eventSink rg) env ''tool.authorized'' request (Obj (tool_fields (pr_tool pr) (pr_name pr) @ [(''grantId'', Str (c_grantId env))] @ policy_fields d @
          [(''inputFingerprint'', Str (inputFingerprint rt (get request ''input''))), (''operationFingerprint'', Str (operation_fingerprint rt request pr)),
           (''sideEffectClass'', get operation ''sideEffectClass''), (''sandbox'', get operation ''sandbox''), (''timeoutMs'', runtimeMs),
           (''outputBytes'', get (get capability ''limits'') ''outputBytes''), (''idempotencyKeyFingerprint'', idempotencyFingerprint rt (get request ''idempotencyKey''))]))) (\<lambda>_.
        consume_act rt env token binding))))))"

definition run_outcome :: "runtime \<Rightarrow> outcome \<Rightarrow> (tool_error, js) result" where
  "run_outcome rt result = (case result of
     Returned output values \<Rightarrow> bind_res (noSecretLeak rt output values) (\<lambda>_. Inr output)
   | Threw e \<Rightarrow> Inl e
   | TimedOut \<Rightarrow> Inl (Tool ''tool_timeout'')
   | Cancelled \<Rightarrow> Inl (Tool ''tool_cancelled''))"

definition call_of :: "engine \<Rightarrow> registry \<Rightarrow> js \<Rightarrow> prepared \<Rightarrow> decision \<Rightarrow> grant \<Rightarrow> handler_call" where
  "call_of eg rg request pr d g =
     (let rt = eg_runtime eg; effective = effectiveOperationForRuntime (pr_operation pr) (pd_effectiveCapability d) in
      \<lparr>hc_input = safeClone (orelse (get request ''input'') (Obj [])), hc_grant = g,
       hc_files = \<lparr>fb_root = path_resolve (rg_workspaceRoot rg) [], fb_readScopes = items (get (get effective ''filesystem'') ''read''),
         fb_writeScopes = items (get (get effective ''filesystem'') ''write''), fb_readBytes = readBytes TOOL_LIMITS, fb_writeBytes = writeBytes TOOL_LIMITS\<rparr>,
       hc_operation = effective, hc_effectBoundary = get request ''effectBoundary'', hc_operationFingerprint = operation_fingerprint rt request pr,
       hc_idempotencyKey = orelse (get request ''idempotencyKey'') Null,
       hc_timeoutMs = effective_limit rt (get (get (pr_operation pr) ''limits'') ''runtimeMs'') (get request ''timeoutMs'') DEFAULT_RUNTIME_MS\<rparr>)"

definition binding_id :: "prepared \<Rightarrow> js" where
  "binding_id pr = orelse (get (pr_operation pr) ''handlerBindingId'') (get (t_manifest (pr_tool pr)) ''handlerBindingId'')"

text \<open>The handler is called once unless the signal was aborted before.\<close>

definition call_handler :: "runtime \<Rightarrow> registry \<Rightarrow> js \<Rightarrow> js \<Rightarrow> handler_call \<Rightarrow> js action" where
  "call_handler rt rg request bid hc x = (case rg_handlers rg bid of
     None \<Rightarrow> (x, Inl (Tool ''tool_sandbox_unavailable''))
   | Some handle \<Rightarrow>
       if truthy (get (get request ''signal'') ''aborted'') then (x, Inl (Tool ''tool_cancelled''))
       else (x\<lparr>x_trace := x_trace x @ [Called bid hc]\<rparr>, run_outcome rt (handle hc)))"

definition output_limit :: "runtime \<Rightarrow> js \<Rightarrow> prepared \<Rightarrow> rat option" where
  "output_limit rt request pr = effective_limit rt (get (get (pr_operation pr) ''limits'') ''outputBytes'') (get request ''outputLimitBytes'') (Num 65536)"

definition check_output :: "engine \<Rightarrow> js \<Rightarrow> prepared \<Rightarrow> js \<Rightarrow> (tool_error, unit) result" where
  "check_output eg request pr output =
     bind_res (boundedJsonBytes (eg_runtime eg) output (limit_js (output_limit (eg_runtime eg) request pr)) ''tool_output_too_large'') (\<lambda>_.
     case assertJsonSchema (eg_stack eg) (eg_runtime eg) (eg_matcher eg) (get (pr_operation pr) ''outputSchema'') output of
       Inl _ \<Rightarrow> Inl (Tool ''tool_output_schema_failed'') | Inr _ \<Rightarrow> Inr ())"

text \<open>A duration that is not a number is kept as \<open>null\<close>, as which JSON prints it.\<close>

definition duration_ms :: "runtime \<Rightarrow> string \<Rightarrow> string \<Rightarrow> js" where
  "duration_ms rt startedAt completedAt = (case (date_parse rt startedAt, date_parse rt completedAt) of
     (Some s, Some c) \<Rightarrow> Num (of_int (max 0 (c - s))) | _ \<Rightarrow> Null)"

definition request_fields :: "js \<Rightarrow> (string \<times> js) list" where
  "request_fields request = map (\<lambda>k. (k, get request k)) [''requestId'', ''correlationId'', ''workspaceId'', ''runId'', ''stepId'']"

definition completed_result :: "runtime \<Rightarrow> call_env \<Rightarrow> js \<Rightarrow> prepared \<Rightarrow> decision \<Rightarrow> js \<Rightarrow> js" where
  "completed_result rt env request pr d output =
     Obj ([(''schemaVersion'', Str ''1.0.0''),
       (''invocationId'', Str (''toolinv_'' @ take 16 (sha256_hex rt (text_of (get request ''requestId'') @ '':'' @ c_grantId env))))] @
      request_fields request @ tool_fields (pr_tool pr) (pr_name pr) @ [(''grantId'', Str (c_grantId env))] @ policy_fields d @
      [(''inputFingerprint'', Str (inputFingerprint rt (get request ''input''))), (''outputFingerprint'', Str (stableToolFingerprint rt output)),
       (''status'', Str ''completed''), (''startedAt'', Str (c_startedAt env)), (''completedAt'', Str (c_completedAt env)),
       (''durationMs'', duration_ms rt (c_startedAt env) (c_completedAt env)),
       (''reconciliation'', Str (if truthy (get (get (pr_operation pr) ''idempotency'') ''required'') then ''effect-boundary'' else ''not-required'')),
       (''output'', output)])"

definition completed_event :: "runtime \<Rightarrow> call_env \<Rightarrow> js \<Rightarrow> prepared \<Rightarrow> decision \<Rightarrow> js \<Rightarrow> js" where
  "completed_event rt env request pr d output =
     (let result = completed_result rt env request pr d output in
      Obj (tool_fields (pr_tool pr) (pr_name pr) @ [(''grantId'', Str (c_grantId env))] @ policy_fields d @
       map (\<lambda>k. (k, get result k)) [''inputFingerprint'', ''outputFingerprint''] @
       [(''sideEffectClass'', get (pr_operation pr) ''sideEffectClass''), (''sandbox'', get (pr_operation pr) ''sandbox'')] @
       map (\<lambda>k. (k, get result k)) [''reconciliation'', ''durationMs'']))"

text \<open>The result object, with the decision beside it when the policy refused.\<close>

datatype tool_result = Completed js | Refused js decision | Failed js

definition safeDenied :: "js \<Rightarrow> string \<Rightarrow> js" where
  "safeDenied request code =
     Obj ([(''schemaVersion'', Str ''1.0.0'')] @ request_fields request @
       [(''toolId'', get request ''toolId''), (''operation'', get request ''operation''), (''grantId'', Null), (''status'', Str ''denied''),
        (''error'', Obj [(''code'', Str code), (''message'', Str code)]), (''output'', Null)])"

definition refuse :: "engine \<Rightarrow> registry \<Rightarrow> call_env \<Rightarrow> js \<Rightarrow> prepared \<Rightarrow> decision \<Rightarrow> tool_result action" where
  "refuse eg rg env request pr d =
     act_bind (emit_event (eg_runtime eg) (rg_eventSink rg) env ''tool.denied'' request (Obj (tool_fields (pr_tool pr) (pr_name pr) @
         [(''inputFingerprint'', Str (inputFingerprint (eg_runtime eg) (get request ''input'')))] @ policy_fields d @ [(''reasonCodes'', Arr (map Str (pd_reasonCodes d)))]))) (\<lambda>_.
       act (Inr (Refused (safeDenied request ''tool_policy_denied'') d)))"

definition conclude :: "engine \<Rightarrow> registry \<Rightarrow> call_env \<Rightarrow> js \<Rightarrow> prepared \<Rightarrow> decision \<Rightarrow> js \<Rightarrow> tool_result action" where
  "conclude eg rg env request pr d output =
     act_bind (act (check_output eg request pr output)) (\<lambda>_.
     act_bind (emit_event (eg_runtime eg) (rg_eventSink rg) env ''tool.completed'' request (completed_event (eg_runtime eg) env request pr d output)) (\<lambda>_.
       act (Inr (Completed (completed_result (eg_runtime eg) env request pr d output)))))"

definition execute_body :: "engine \<Rightarrow> registry \<Rightarrow> call_env \<Rightarrow> js \<Rightarrow> tool_result action" where
  "execute_body eg rg env request =
     act_bind (prepare eg rg env request) (\<lambda>pr.
     act_bind (act (lift_js (decide eg rg env request pr))) (\<lambda>d.
     if pd_outcome d \<noteq> ''allow'' then refuse eg rg env request pr d
     else
       act_bind (authorize eg rg env request pr d) (\<lambda>g.
       act_bind (call_handler (eg_runtime eg) rg request (binding_id pr) (call_of eg rg request pr d g)) (conclude eg rg env request pr d))))"

definition failure_status :: "string \<Rightarrow> string" where
  "failure_status code = (if code \<in> {''tool_policy_denied'', ''tool_trusted_context_required'', ''tool_request_invalid''} then ''denied'' else ''failed'')"

text \<open>The error handler: an event that cannot be recorded is ignored.\<close>

definition recover :: "engine \<Rightarrow> registry \<Rightarrow> call_env \<Rightarrow> js \<Rightarrow> tool_error \<Rightarrow> exec_state \<Rightarrow> exec_state \<times> tool_result" where
  "recover eg rg env request err x =
     (let rt = eg_runtime eg; code = sanitizeError err; status = failure_status code in
      (case x_tool x of
         None \<Rightarrow> x
       | Some tool \<Rightarrow>
           if truthy (get request ''workspaceId'') \<and> truthy (get request ''runId'') \<and> truthy (x_operationName x)
           then fst (emit_event rt (rg_eventSink rg) env (if status = ''denied'' then ''tool.denied'' else ''tool.failed'') request
             (Obj (tool_fields tool (text_of (x_operationName x)) @ [(''grantId'', x_grantId x), (''errorCode'', Str code),
               (''inputFingerprint'', Str (inputFingerprint rt (get request ''input'')))])) x)
           else x,
       Failed (Obj ([(''schemaVersion'', Str ''1.0.0'')] @ map (\<lambda>k. (k, orelse (get request k) Null))
           [''requestId'', ''correlationId'', ''workspaceId'', ''runId'', ''stepId'', ''toolId'', ''operation''] @
         [(''grantId'', x_grantId x), (''status'', Str status), (''error'', Obj [(''code'', Str code), (''message'', Str code)]), (''output'', Null)]))))"

definition start_state :: "grants \<Rightarrow> exec_state" where
  "start_state gs = \<lparr>x_grants = gs, x_trace = [], x_tool = None, x_operationName = Null, x_grantId = Null\<rparr>"

definition execute :: "engine \<Rightarrow> registry \<Rightarrow> call_env \<Rightarrow> grants \<Rightarrow> js \<Rightarrow> exec_state \<times> tool_result" where
  "execute eg rg env gs request =
     (case execute_body eg rg env request (start_state gs) of
        (x, Inr r) \<Rightarrow> (x, r)
      | (x, Inl e) \<Rightarrow> recover eg rg env request e x)"

section \<open>Steps of a call\<close>

named_theorems act_ok \<open>what a successful step says\<close>

lemma act_bind_Inr [act_ok]: "act_bind m f x = (y, Inr b) \<longleftrightarrow> (\<exists>x' a. m x = (x', Inr a) \<and> f a x' = (y, Inr b))"
  by (auto simp: act_bind_def split: prod.splits sum.splits)

lemma act_Inr [act_ok]: "act r x = (y, Inr a) \<longleftrightarrow> y = x \<and> r = Inr a"
  by (auto simp: act_def)

lemma assign_Inr [act_ok]: "assign f x = (y, Inr a) \<longleftrightarrow> y = f x"
  by (auto simp: assign_def)

lemma Ex_unit [act_ok]: "(\<exists>u :: unit. P u) \<longleftrightarrow> P ()"
  by auto

lemma emit_event_ok:
  assumes "emit_event rt snk env ty request payload x = (y, Inr u)"
  shows "(snk = None \<and> y = x) \<or> (\<exists>e. y = x\<lparr>x_trace := x_trace x @ [Emitted e None]\<rparr> \<and> ev_type e = ty \<and> ev_payload e = safeEventPayload rt payload)"
  using assms by (cases snk) (auto simp: emit_event_def Let_def createEvent_def split: prod.splits sum.splits option.splits if_splits)

text \<open>Steps that call no handler only add events to the trace.\<close>

fun is_called :: "step \<Rightarrow> bool" where
  "is_called (Called _ _) = True"
| "is_called (Emitted _ _) = False"

definition quiet :: "'a action \<Rightarrow> bool" where
  "quiet m \<longleftrightarrow> (\<forall>x. \<exists>es. x_trace (fst (m x)) = x_trace x @ es \<and> filter is_called es = [])"

named_theorems quiet_intros \<open>steps that call no handler\<close>

lemma quiet_act [quiet_intros]: "quiet (act r)"
  by (simp add: quiet_def act_def)

lemma quiet_assign [quiet_intros]: "(\<And>x. x_trace (f x) = x_trace x) \<Longrightarrow> quiet (assign f)"
  by (simp add: quiet_def assign_def)

lemma quiet_emit_event [quiet_intros]: "quiet (emit_event rt snk env ty request payload)"
  unfolding quiet_def
proof
  fix x
  show "\<exists>es. x_trace (fst (emit_event rt snk env ty request payload x)) = x_trace x @ es \<and> filter is_called es = []"
  proof (cases snk)
    case None
    then show ?thesis by (simp add: emit_event_def)
  next
    case (Some accept)
    let ?c = "createEvent (fst (c_event env (length (x_trace x)))) (snd (c_event env (length (x_trace x)))) ty (text_of (get request ''workspaceId''))
      (text_of (get request ''runId'')) (text_of (get request ''actorId'')) (safeEventPayload rt payload) 0 (Some (text_of (get request ''correlationId'')))
      None ''workspace-private'' ''0.2.0-dev''"
    show ?thesis by (cases ?c) (simp_all add: emit_event_def Some case_prod_beta)
  qed
qed

lemma quiet_issue [quiet_intros]: "quiet (issue_act rt env b ttl)"
  by (auto simp: quiet_def issue_act_def split: prod.splits sum.splits)

lemma quiet_consume [quiet_intros]: "quiet (consume_act rt env token b)"
  by (auto simp: quiet_def consume_act_def split: prod.splits sum.splits)

lemma quiet_bind [quiet_intros]:
  assumes "quiet m" and "\<And>a. quiet (f a)"
  shows "quiet (act_bind m f)"
  unfolding quiet_def
proof
  fix x
  obtain y r where m: "m x = (y, r)" by (cases "m x")
  obtain es where es: "x_trace y = x_trace x @ es" "filter is_called es = []" using assms(1) m unfolding quiet_def by (metis fst_conv)
  show "\<exists>es. x_trace (fst (act_bind m f x)) = x_trace x @ es \<and> filter is_called es = []"
  proof (cases r)
    case (Inl e)
    then show ?thesis using m es by (auto simp: act_bind_def)
  next
    case (Inr a)
    obtain es' where "x_trace (fst (f a y)) = x_trace y @ es'" "filter is_called es' = []" using assms(2) unfolding quiet_def by blast
    then show ?thesis using m es Inr by (intro exI [of _ "es @ es'"]) (simp add: act_bind_def)
  qed
qed

lemma quiet_prepare: "quiet (prepare eg rg env request)"
  unfolding prepare_def Let_def by (intro quiet_intros) simp_all

lemma quiet_authorize: "quiet (authorize eg rg env request pr d)"
  unfolding authorize_def Let_def by (intro quiet_intros)

text \<open>What the checks of a prepared call established.\<close>

definition checked :: "engine \<Rightarrow> registry \<Rightarrow> js \<Rightarrow> prepared \<Rightarrow> bool" where
  "checked eg rg request pr \<longleftrightarrow>
     validateInvocation request = Inr () \<and> assertTrustedContext request = Inr (pr_trusted pr) \<and>
     find_tool rg (get request ''toolId'') = Some (pr_tool pr) \<and> t_enabled (pr_tool pr) \<and>
     get request ''toolVersion'' = get (t_manifest (pr_tool pr)) ''version'' \<and>
     (truthy (get request ''manifestFingerprint'') \<longrightarrow> get request ''manifestFingerprint'' = Str (t_manifestFingerprint (pr_tool pr))) \<and>
     get request ''operation'' = Str (pr_name pr) \<and> truthy (pr_operation pr) \<and>
     pr_operation pr = lookup_operation (get (t_manifest (pr_tool pr)) ''operations'') (pr_name pr) \<and>
     str_in (get (pr_operation pr) ''sandbox'') SANDBOX_PROFILES \<and>
     (\<exists>v. assertJsonSchema (eg_stack eg) (eg_runtime eg) (eg_matcher eg) (get (pr_operation pr) ''inputSchema'') (orelse (get request ''input'') (Obj [])) = Inr v)"

lemma validated_operation: "validateInvocation request = Inr () \<Longrightarrow> get request ''operation'' = Str (text_of (get request ''operation''))"
  by (cases "get request ''operation''") (auto simp: validateInvocation_def Let_def bind_res_eq_Inr all_ok_Inr text_of_def)

lemma prepare_ok:
  assumes "prepare eg rg env request x = (y, Inr pr)"
  shows "checked eg rg request pr \<and> (rg_eventSink rg = None \<or> (\<exists>e. x_trace y = x_trace x @ [Emitted e None] \<and> ev_type e = ''tool.requested''))"
proof -
  let ?tool = "find_tool rg (get request ''toolId'')" and ?rt = "eg_runtime eg"
  from assms [unfolded prepare_def Let_def act_ok require_eq_Inr simp_thms conj_assoc] obtain trusted tool x' payload where
      v: "validateInvocation request = Inr ()" "assertTrustedContext request = Inr trusted" "(case ?tool of None \<Rightarrow> Inl (Tool ''tool_not_registered'') | Some tool \<Rightarrow> Inr tool) = Inr tool"
        "t_enabled tool" "strict_eq (get request ''toolVersion'') (get (t_manifest tool) ''version'')"
      and fp: "truthy (get request ''manifestFingerprint'') \<longrightarrow> get request ''manifestFingerprint'' = Str (t_manifestFingerprint tool)"
        "truthy (lookup_operation (get (t_manifest tool) ''operations'') (text_of (get request ''operation'')))"
      and op: "str_in (get (lookup_operation (get (t_manifest tool) ''operations'') (text_of (get request ''operation''))) ''sandbox'') SANDBOX_PROFILES"
      and s: "(case assertJsonSchema (eg_stack eg) ?rt (eg_matcher eg) (get (lookup_operation (get (t_manifest tool) ''operations'') (text_of (get request ''operation''))) ''inputSchema'')
          (orelse (get request ''input'') (Obj [])) of Inl _ \<Rightarrow> Inl (Tool ''tool_input_schema_failed'') | Inr _ \<Rightarrow> Inr ()) = Inr ()"
      and x: "emit_event ?rt (rg_eventSink rg) env ''tool.requested'' request payload x' = (y, Inr ())" "x_trace x' = x_trace x"
      and pr: "pr = \<lparr>pr_trusted = trusted, pr_tool = tool, pr_name = text_of (get request ''operation''),
          pr_operation = lookup_operation (get (t_manifest tool) ''operations'') (text_of (get request ''operation''))\<rparr>"
    by (elim exE conjE, hypsubst) (rule that, (assumption | simp)+)
  have "?tool = Some tool" using v(3) by (cases ?tool) auto
  moreover have "\<exists>u. assertJsonSchema (eg_stack eg) ?rt (eg_matcher eg) (get (pr_operation pr) ''inputSchema'') (orelse (get request ''input'') (Obj [])) = Inr u"
    using s unfolding pr by (auto split: sum.splits)
  ultimately have "checked eg rg request pr"
    using v(1,2,4) op fp strict_eqD [OF v(5)] validated_operation [OF v(1)] by (simp add: checked_def pr)
  then show ?thesis using emit_event_ok [OF x(1)] x(2) by auto
qed

definition authorized :: "engine \<Rightarrow> js \<Rightarrow> prepared \<Rightarrow> decision \<Rightarrow> grant \<Rightarrow> bool" where
  "authorized eg request pr d g \<longleftrightarrow>
     (truthy (get (get (pr_operation pr) ''approval'') ''required'') \<longrightarrow> truthy (get request ''approvalContext'')) \<and>
     (truthy (get (get (pr_operation pr) ''idempotency'') ''required'') \<longrightarrow> truthy (get request ''idempotencyKey'')) \<and>
     (get (pr_operation pr) ''sideEffectClass'' \<noteq> Str ''read-only'' \<longrightarrow> truthy (get (get request ''effectBoundary'') ''effect'')) \<and>
     g_status g = ''consumed'' \<and>
     canonicalStringify (eg_runtime eg) (g_binding g) = canonicalStringify (eg_runtime eg) (binding_of (eg_runtime eg) request pr d)"

lemma issue_act_Inr:
  assumes "issue_act rt env b ttl x = (y, Inr token)"
  shows "token = token_of (c_grantId env) (c_secret env) \<and> (\<exists>e. x_grants y = (x_grants x)(c_grantId env \<mapsto>
      \<lparr>g_id = c_grantId env, g_status = ''issued'', g_binding = safeClone b, g_issuedAt = c_issuedAt env, g_expiresAt = e, g_maxUses = 1, g_uses = 0,
       g_tokenHash = ''sha256:'' @ sha256_hex rt (c_secret env)\<rparr>)) \<and> x_trace y = x_trace x"
  using assms by (auto simp: issue_act_def issue_grant_def bind_res_eq_Inr bind_res_def split: sum.splits option.splits)

lemma consume_act_Inr:
  assumes "consume_act rt env token b x = (y, Inr g)"
  shows "consume rt (c_consumedAt env) token b (x_grants x) = (x_grants y, Inr g) \<and> x_trace y = x_trace x"
  using assms by (auto simp: consume_act_def split: prod.splits sum.splits)

lemma authorize_ok:
  assumes "authorize eg rg env request pr d x = (y, Inr g)"
  shows "authorized eg request pr d g \<and> (rg_eventSink rg = None \<or> (\<exists>e. x_trace y = x_trace x @ [Emitted e None] \<and> ev_type e = ''tool.authorized''))"
proof -
  let ?rt = "eg_runtime eg" and ?b = "binding_of (eg_runtime eg) request pr d"
  from assms [unfolded authorize_def Let_def act_ok require_eq_Inr simp_thms conj_assoc] obtain token x1 x2 ttl payload where
      req: "truthy (get (get (pr_operation pr) ''approval'') ''required'') \<longrightarrow> truthy (get request ''approvalContext'')"
        "truthy (get (get (pr_operation pr) ''idempotency'') ''required'') \<longrightarrow> truthy (get request ''idempotencyKey'')"
        "get (pr_operation pr) ''sideEffectClass'' \<noteq> Str ''read-only'' \<longrightarrow> truthy (get (get request ''effectBoundary'') ''effect'')"
      and st: "issue_act ?rt env ?b ttl x = (x1, Inr token)" "emit_event ?rt (rg_eventSink rg) env ''tool.authorized'' request payload x1 = (x2, Inr ())"
        "consume_act ?rt env token ?b x2 = (y, Inr g)"
    by (elim exE conjE) (rule that)
  note i = issue_act_Inr [OF st(1)] and c = consume_act_Inr [OF st(3)]
  have g: "x_grants x2 = x_grants x1" "rg_eventSink rg = None \<and> x_trace x2 = x_trace x1 \<or> (\<exists>e. x_trace x2 = x_trace x1 @ [Emitted e None] \<and> ev_type e = ''tool.authorized'')"
    using emit_event_ok [OF st(2)] by auto
  have "g_status g = ''consumed'' \<and> canonicalStringify ?rt (g_binding g) = canonicalStringify ?rt ?b"
    using c by (elim conjE consume_Inr) auto
  then show ?thesis using req g(2) i c by (auto simp: authorized_def)
qed

lemma quiet_no_call:
  assumes "quiet m" and "m x = (y, r)"
  shows "filter is_called (x_trace y) = filter is_called (x_trace x)"
proof -
  obtain es where "x_trace (fst (m x)) = x_trace x @ es" "filter is_called es = []" using assms(1) unfolding quiet_def by blast
  then show ?thesis using assms(2) by simp
qed

lemma quiet_keeps:
  assumes "quiet m" and "m x = (y, r)"
  shows "\<exists>es. x_trace y = x_trace x @ es"
  using assms unfolding quiet_def by (metis fst_conv)

text \<open>What a call did up to the handler.\<close>

definition reaches_handler ::
  "engine \<Rightarrow> registry \<Rightarrow> call_env \<Rightarrow> grants \<Rightarrow> js \<Rightarrow> prepared \<Rightarrow> decision \<Rightarrow> grant \<Rightarrow> handler \<Rightarrow> exec_state \<Rightarrow> bool" where
  "reaches_handler eg rg env gs request pr d g handle x \<longleftrightarrow>
     (\<exists>x1. prepare eg rg env request (start_state gs) = (x1, Inr pr) \<and> decide eg rg env request pr = Inr d \<and> pd_outcome d = ''allow'' \<and>
       authorize eg rg env request pr d x1 = (x, Inr g) \<and> rg_handlers rg (binding_id pr) = Some handle \<and> \<not> truthy (get (get request ''signal'') ''aborted''))"

lemma reaches_handler_quiet: "reaches_handler eg rg env gs request pr d g handle x \<Longrightarrow> filter is_called (x_trace x) = []"
  unfolding reaches_handler_def
  using quiet_no_call [OF quiet_prepare] quiet_no_call [OF quiet_authorize] by (fastforce simp: start_state_def)

lemma quiet_refuse: "quiet (refuse eg rg env request pr d)"
  unfolding refuse_def by (intro quiet_intros)

lemma quiet_conclude: "quiet (conclude eg rg env request pr d output)"
  unfolding conclude_def by (intro quiet_intros)

lemma recover_quiet: "\<exists>es. x_trace (fst (recover eg rg env request e x)) = x_trace x @ es \<and> filter is_called es = []"
proof (cases "x_tool x")
  case None
  then show ?thesis by (simp add: recover_def Let_def)
next
  case (Some tool)
  then show ?thesis using quiet_emit_event unfolding quiet_def recover_def Let_def by (auto simp del: filter.simps)
qed

text \<open>A trace in which the handler was called, and only it.\<close>

definition calls_handler :: "engine \<Rightarrow> registry \<Rightarrow> call_env \<Rightarrow> grants \<Rightarrow> js \<Rightarrow> exec_state \<Rightarrow> bool" where
  "calls_handler eg rg env gs request y \<longleftrightarrow>
     (\<exists>pr d g handle x es. reaches_handler eg rg env gs request pr d g handle x \<and> filter is_called es = [] \<and>
        x_trace y = x_trace x @ Called (binding_id pr) (call_of eg rg request pr d g) # es)"

lemma calls_handler_more:
  assumes "calls_handler eg rg env gs request x" and "x_trace y = x_trace x @ es" and "filter is_called es = []"
  shows "calls_handler eg rg env gs request y"
proof -
  obtain pr d g handle z es' where "reaches_handler eg rg env gs request pr d g handle z" "filter is_called es' = []"
      "x_trace x = x_trace z @ Called (binding_id pr) (call_of eg rg request pr d g) # es'"
    using assms(1) unfolding calls_handler_def by blast
  then show ?thesis using assms(2,3) unfolding calls_handler_def
    by (intro exI [of _ pr] exI [of _ d] exI [of _ g] exI [of _ handle] exI [of _ z] exI [of _ "es' @ es"]) simp
qed

lemma body_calls:
  assumes "execute_body eg rg env request (start_state gs) = (y, r)"
  shows "filter is_called (x_trace y) = [] \<or> calls_handler eg rg env gs request y"
proof -
  obtain x1 r1 where p: "prepare eg rg env request (start_state gs) = (x1, r1)" by fastforce
  have q1: "filter is_called (x_trace x1) = []" using quiet_no_call [OF quiet_prepare p] by (simp add: start_state_def)
  show ?thesis
  proof (cases "\<exists>pr d. r1 = Inr pr \<and> decide eg rg env request pr = Inr d \<and> pd_outcome d = ''allow''")
    case False
    then show ?thesis using assms p q1 quiet_no_call [OF quiet_refuse]
      by (fastforce simp: execute_body_def act_bind_def act_def lift_js_def split: sum.splits if_splits)
  next
    case True
    then obtain pr d where d: "r1 = Inr pr" "decide eg rg env request pr = Inr d" "pd_outcome d = ''allow''" by blast
    obtain x2 r2 where a: "authorize eg rg env request pr d x1 = (x2, r2)" by fastforce
    have q2: "filter is_called (x_trace x2) = []" using quiet_no_call [OF quiet_authorize a] q1 by simp
    let ?h = "\<lambda>g. call_handler (eg_runtime eg) rg request (binding_id pr) (call_of eg rg request pr d g)"
    have body: "(y, r) = (case r2 of Inl e \<Rightarrow> (x2, Inl e) | Inr g \<Rightarrow> act_bind (?h g) (conclude eg rg env request pr d) x2)"
      using assms p d a by (simp add: execute_body_def act_bind_def act_def lift_js_def split: sum.splits)
    show ?thesis
    proof (cases "\<exists>g handle. r2 = Inr g \<and> rg_handlers rg (binding_id pr) = Some handle \<and> \<not> truthy (get (get request ''signal'') ''aborted'')")
      case False
      then show ?thesis using body q2 by (auto simp: act_bind_def call_handler_def split: sum.splits option.splits if_splits)
    next
      case True
      then obtain g handle where g: "r2 = Inr g" "rg_handlers rg (binding_id pr) = Some handle" "\<not> truthy (get (get request ''signal'') ''aborted'')" by blast
      define x3 where "x3 = x2\<lparr>x_trace := x_trace x2 @ [Called (binding_id pr) (call_of eg rg request pr d g)]\<rparr>"
      have "reaches_handler eg rg env gs request pr d g handle x2"
        unfolding reaches_handler_def using p d a g by blast
      then have c: "calls_handler eg rg env gs request x3"
        unfolding calls_handler_def x3_def by (intro exI [of _ pr] exI [of _ d] exI [of _ g] exI [of _ handle] exI [of _ x2] exI [of _ "[]"]) simp
      have h: "?h g x2 = (x3, run_outcome (eg_runtime eg) (handle (call_of eg rg request pr d g)))"
        using g by (simp add: call_handler_def x3_def)
      obtain es where "x_trace y = x_trace x3 @ es" "filter is_called es = []"
        using body g(1) h quiet_conclude unfolding quiet_def by (auto simp: act_bind_def split: sum.splits) (metis fst_conv)
      then show ?thesis using calls_handler_more [OF c] by blast
    qed
  qed
qed

lemma execute_calls:
  "filter is_called (x_trace (fst (execute eg rg env gs request))) = [] \<or> calls_handler eg rg env gs request (fst (execute eg rg env gs request))"
proof -
  obtain y r where b: "execute_body eg rg env request (start_state gs) = (y, r)" by fastforce
  obtain es where "x_trace (fst (execute eg rg env gs request)) = x_trace y @ es" "filter is_called es = []"
    using recover_quiet [of eg rg env request _ y] by (cases r) (auto simp: execute_def b)
  then show ?thesis using body_calls [OF b] calls_handler_more by fastforce
qed

section \<open>What an allowing decision gives the handler\<close>

lemma evaluate_allows:
  assumes "evaluate rt snk did uuid now registry request = Inr d" and "pd_outcome d = ''allow''"
  obtains d0 where "evaluateContextualPolicy rt did uuid now registry request = Inr d0" "pd_outcome d0 = ''allow''"
    "pd_effectiveCapability d0 = pd_effectiveCapability d"
proof -
  obtain d0 where d0: "evaluateContextualPolicy rt did uuid now registry request = Inr d0"
    using assms(1) unfolding evaluate_def bind_res_eq_Inr by blast
  then have "d = d0 \<or> d = d0\<lparr>pd_auditPersisted := Some False\<rparr>"
    using assms by (auto simp: evaluate_def bind_res_def split: option.splits if_splits)
  then show thesis using that [OF d0] assms(2) by auto
qed

lemma policy_request_gets:
  "get (policy_request rt request pr) ''action'' = Str ''tool.invoke''"
  "get (policy_request rt request pr) ''capabilityRequest'' = capability_of request pr"
  "get (policy_request rt request pr) ''environment'' = tr_environment (pr_trusted pr)"
  "get (policy_request rt request pr) ''trustedToolManifest'' = operationToPolicyManifest (pr_tool pr) (pr_name pr)"
  by (simp_all add: policy_request_def Let_def)

lemma decide_sound:
  assumes "decide eg rg env request pr = Inr d" and "pd_outcome d = ''allow''"
  shows "identified (policy_request (eg_runtime eg) request pr)" and "member (policy_request (eg_runtime eg) request pr)"
    and "role_permits (eg_runtime eg) (rg_policyRegistry rg) (policy_request (eg_runtime eg) request pr)"
    and "\<exists>who. evaluateCapability (eg_runtime eg) (or_null (capability_of request pr)) (or_null (operationToPolicyManifest (pr_tool pr) (pr_name pr))) who
      (orelse (tr_environment (pr_trusted pr)) (Obj [])) (rg_policyRegistry rg) = Inr ([], pd_effectiveCapability d)"
proof -
  let ?q = "policy_request (eg_runtime eg) request pr"
  obtain d0 where d0: "evaluateContextualPolicy (eg_runtime eg) Null (c_uuid env) (c_policyNow env) (rg_policyRegistry rg) ?q = Inr d0" "pd_outcome d0 = ''allow''"
      "pd_effectiveCapability d0 = pd_effectiveCapability d"
    using assms unfolding decide_def by (elim evaluate_allows)
  obtain eff where c: "collect_reasons (eg_runtime eg) (rg_policyRegistry rg) [] ?q (pd_evaluatedAt d0) = Inr ([], eff)" "pd_effectiveCapability d0 = eff"
    using allowed_collect [OF d0(1,2)] by metis
  show "identified ?q" "member ?q" "role_permits (eg_runtime eg) (rg_policyRegistry rg) ?q"
    using identity_sound [OF collect_Nil(1) [OF c(1)]] by simp_all
  show "\<exists>who. evaluateCapability (eg_runtime eg) (or_null (capability_of request pr)) (or_null (operationToPolicyManifest (pr_tool pr) (pr_name pr))) who
      (orelse (tr_environment (pr_trusted pr)) (Obj [])) (rg_policyRegistry rg) = Inr ([], pd_effectiveCapability d)"
    using collect_Nil(3) [OF c(1)] c(2) d0(3) unfolding policy_request_gets by auto
qed

lemma safeString_scope:
  assumes "scope_below b s"
  shows "safeString s 256 = s"
proof -
  obtain path where p: "s = Str path" "plain_scope path" using assms unfolding scope_below_def by blast
  have "\<not> is_control c" if "c \<in> set path" for c
    using p(2) that unfolding plain_scope_def is_control_def Let_def by fastforce
  then have "strip_control path = path" unfolding strip_control_def by (simp add: filter_id_conv)
  moreover have "length path \<le> 256" using p(2) unfolding plain_scope_def by blast
  ultimately show ?thesis by (simp add: p(1))
qed

lemma sanitized_filesystem:
  assumes "check_operation rt c m p w e r = Inr ([], eff)"
  shows "is_plain eff \<and> get (get eff ''filesystem'') ''read'' = Arr (map (\<lambda>x. safeString x 256) (items (get (get c ''filesystem'') ''read''))) \<and>
    get (get eff ''filesystem'') ''write'' = Arr (map (\<lambda>x. safeString x 256) (items (get (get c ''filesystem'') ''write''))) \<and>
    get eff ''network'' = Arr (map sanitize_network (items (get c ''network''))) \<and> is_plain (get eff ''filesystem'')"
proof -
  let ?none = "Obj [(''read'', Arr []), (''write'', Arr [])]"
  have fs: "items (orelse (get (orelse v ?none) k) (Arr [])) = items (get v k)" if "k \<in> {''read'', ''write''}" for v k
    unfolding items_orelse using that by (cases v) (auto simp: orelse_def)
  have s: "sanitizeCapability c (orelse (get c ''filesystem'') ?none) (orelse (get c ''operation'') (Str ''invoke'')) = Inr eff"
    using assms by (auto simp: check_operation_def Let_def bind_res_eq_Inr)
  then obtain rd wr net where "orelse (get (orelse (get c ''filesystem'') ?none) ''read'') (Arr []) = Arr rd"
      "orelse (get (orelse (get c ''filesystem'') ?none) ''write'') (Arr []) = Arr wr" "orelse (get c ''network'') (Arr []) = Arr net"
      and eff: "get eff ''filesystem'' = Obj [(''read'', Arr (map (\<lambda>x. safeString x 256) rd)), (''write'', Arr (map (\<lambda>x. safeString x 256) wr))]"
        "get eff ''network'' = Arr (map sanitize_network net)" "is_plain eff"
    by (auto simp: sanitizeCapability_def bind_res_eq_Inr)
  then show ?thesis using fs [of "''read''" "get c ''filesystem''"] fs [of "''write''" "get c ''filesystem''"] items_orelse [of "get c ''network''"] by simp
qed

lemma get_or_null [simp]: "get (or_null v) k = get v k"
  by (cases v) (simp_all add: or_null_def orelse_def)

text \<open>An operation that the manifest of a tool declares.\<close>

definition declares :: "tool \<Rightarrow> js \<Rightarrow> bool" where
  "declares tool operation \<longleftrightarrow> operation \<in> snd ` set (own_entries (get (t_manifest tool) ''operations''))"

lemma capability_declared:
  assumes "evaluateCapability rt (or_null c) (or_null (operationToPolicyManifest tool name)) who environment registry = Inr ([], eff)"
  shows "\<exists>m operation. declares tool operation \<and> check_operation rt (or_null c) m (policy_operation operation) who environment registry = Inr ([], eff)"
proof -
  let ?ops = "Obj (map (\<lambda>(k, v). (k, policy_operation v)) (own_entries (get (t_manifest tool) ''operations'')))"
  let ?k = "js_to_string rt (orelse (get c ''operation'') (Str ''invoke''))"
  have n: "normalizeOperations (operationToPolicyManifest tool name) = Inr ?ops"
    by (simp add: normalizeOperations_def operationToPolicyManifest_def Let_def)
  from assms have t: "truthy (get ?ops ?k)" and c: "check_operation rt (or_null c) (or_null (operationToPolicyManifest tool name)) (get ?ops ?k) who environment registry = Inr ([], eff)"
    unfolding evaluateCapability_def Let_def normalizeOperations_or_null n get_or_null
    by (auto simp: bind_res_eq_Inr split: if_splits)
  from t obtain p where "map_of (map (\<lambda>(k, v). (k, policy_operation v)) (own_entries (get (t_manifest tool) ''operations''))) ?k = Some p"
    by (auto split: option.splits)
  moreover from this obtain operation where "(?k, operation) \<in> set (own_entries (get (t_manifest tool) ''operations''))" "p = policy_operation operation"
    using map_of_SomeD by fastforce
  ultimately show ?thesis using c by (force simp: declares_def)
qed

lemma policy_operation_gets:
  "k \<in> {''sideEffectClass'', ''filesystem'', ''network'', ''secretReferences'', ''dataClasses'', ''sandbox'', ''limits'', ''approval''} \<Longrightarrow>
   get (policy_operation operation) k = get operation k"
  by (auto simp: policy_operation_def)

lemma map_of_spread: "map_of (spread a b) = foldl (\<lambda>m kv. m(fst kv \<mapsto> snd kv)) (map_of a) b"
  unfolding spread_def by (induction b arbitrary: a) (simp_all add: get_put_key)

lemma effective_gets:
  "is_plain (get eff ''filesystem'') \<Longrightarrow> get (effectiveOperationForRuntime operation eff) ''filesystem'' = get eff ''filesystem''"
  "is_arr (get eff ''network'') \<Longrightarrow> get (effectiveOperationForRuntime operation eff) ''network'' = get eff ''network''"
  by (auto simp: effectiveOperationForRuntime_def map_of_spread orelse_def elim: is_plainE) (cases "get eff ''network''"; simp)

lemma trusted_environment: "assertTrustedContext request = Inr t \<Longrightarrow> get (orelse (tr_environment t) (Obj [])) ''externalWritesEnabled'' = Bool False"
  by (auto simp: assertTrustedContext_def Let_def bind_res_eq_Inr orelse_def map_of_spread)

text \<open>The scopes and destinations a handler's brokers work with, relative to one declared operation.\<close>

definition confined :: "handler_call \<Rightarrow> js \<Rightarrow> bool" where
  "confined hc operation \<longleftrightarrow>
     (\<forall>s \<in> set (fb_readScopes (hc_files hc)). \<exists>b \<in> set (items (get (get operation ''filesystem'') ''read'')). scope_below b s) \<and>
     (\<forall>s \<in> set (fb_writeScopes (hc_files hc)). \<exists>b \<in> set (items (get (get operation ''filesystem'') ''write'')). scope_below b s) \<and>
     (\<forall>n \<in> set (items (get (hc_operation hc) ''network'')). \<not> (get n ''consequence'' = Str ''write'' \<and> get n ''locality'' = Str ''external''))"

lemma scopes_sanitized:
  assumes "scopes_within c operation k"
  shows "\<forall>s \<in> set (map (\<lambda>x. safeString x 256) (items (get (get c ''filesystem'') k))). \<exists>b \<in> set (items (get (get operation ''filesystem'') k)). scope_below b s"
proof -
  have "safeString s 256 = s" if "scope_below b s" for b s using that safeString_scope by blast
  then show ?thesis using assms unfolding scopes_within_def by fastforce
qed

lemma decided_call_confined:
  assumes "decide eg rg env request pr = Inr d" and "pd_outcome d = ''allow''" and "assertTrustedContext request = Inr (pr_trusted pr)"
  shows "\<exists>operation. declares (pr_tool pr) operation \<and> confined (call_of eg rg request pr d g) operation"
proof -
  let ?rt = "eg_runtime eg" and ?c = "or_null (capability_of request pr)" and ?e = "orelse (tr_environment (pr_trusted pr)) (Obj [])"
  let ?eff = "pd_effectiveCapability d"
  obtain who where "evaluateCapability ?rt ?c (or_null (operationToPolicyManifest (pr_tool pr) (pr_name pr))) who ?e (rg_policyRegistry rg) = Inr ([], ?eff)"
    using decide_sound(4) [OF assms(1,2)] by blast
  then obtain m operation where o: "declares (pr_tool pr) operation"
      and c: "check_operation ?rt ?c m (policy_operation operation) who ?e (rg_policyRegistry rg) = Inr ([], ?eff)"
    using capability_declared by blast
  have gets: "get (policy_operation operation) ''filesystem'' = get operation ''filesystem''" by (simp add: policy_operation_gets)
  have w: "scopes_within ?c (policy_operation operation) ''read''" "scopes_within ?c (policy_operation operation) ''write''"
      "network_within ?rt ?e ?c (policy_operation operation)"
    using check_operation_contained [OF c] by (simp_all add: contained_def)
  note s = sanitized_filesystem [OF c]
  have net: "\<not> (get n ''consequence'' = Str ''write'' \<and> get n ''locality'' = Str ''external'')" if "n \<in> set (map sanitize_network (items (get ?c ''network'')))" for n
    using that w(3) trusted_environment [OF assms(3)] by (auto simp: network_within_def sanitize_network_def)
  let ?hc = "call_of eg rg request pr d g"
  have "fb_readScopes (hc_files ?hc) = map (\<lambda>x. safeString x 256) (items (get (get ?c ''filesystem'') ''read''))"
       "fb_writeScopes (hc_files ?hc) = map (\<lambda>x. safeString x 256) (items (get (get ?c ''filesystem'') ''write''))"
       "items (get (hc_operation ?hc) ''network'') = map sanitize_network (items (get ?c ''network''))"
    using s by (simp_all add: call_of_def Let_def effective_gets)
  then have "confined ?hc operation"
    unfolding confined_def using scopes_sanitized [OF w(1)] scopes_sanitized [OF w(2)] net unfolding gets by metis
  then show ?thesis using o by blast
qed

section \<open>Properties of execution\<close>

lemma calls_handler_member:
  assumes "Called bid hc \<in> set (x_trace (fst (execute eg rg env gs request)))"
  obtains pr d g handle x es where "reaches_handler eg rg env gs request pr d g handle x" "bid = binding_id pr" "hc = call_of eg rg request pr d g"
    "x_trace (fst (execute eg rg env gs request)) = x_trace x @ Called bid hc # es" "filter is_called es = []"
proof -
  let ?y = "fst (execute eg rg env gs request)"
  have "Called bid hc \<in> set (filter is_called (x_trace ?y))" using assms by simp
  then have "calls_handler eg rg env gs request ?y" using execute_calls [of eg rg env gs request] by (metis empty_iff empty_set)
  then obtain pr d g handle x es where r: "reaches_handler eg rg env gs request pr d g handle x" "filter is_called es = []"
      "x_trace ?y = x_trace x @ Called (binding_id pr) (call_of eg rg request pr d g) # es"
    unfolding calls_handler_def by blast
  have "filter is_called (x_trace ?y) = [Called (binding_id pr) (call_of eg rg request pr d g)]"
    using r reaches_handler_quiet [OF r(1)] by simp
  moreover have "Called bid hc \<in> set (filter is_called (x_trace ?y))" using assms by simp
  ultimately have "Called bid hc = Called (binding_id pr) (call_of eg rg request pr d g)" by simp
  then show thesis using that [OF r(1)] r by simp
qed

text \<open>C2: a handler runs only after every check, and at most once per call. When a call reaches a handler then the request
  is valid, its tool is registered, enabled and of the requested version, the operation is declared and its input passes
  the input schema; the policy allowed the operation; an approval, an idempotency key and an effect boundary are there
  when the operation requires them; the grant that the handler receives was consumed for exactly this binding; and with
  an event sink the events that the call was requested and authorized were recorded before. Nothing else is called.\<close>

theorem handler_runs_only_when_authorized:
  assumes "Called bid hc \<in> set (x_trace (fst (execute eg rg env gs request)))"
  shows "\<exists>pr d g. checked eg rg request pr \<and> decide eg rg env request pr = Inr d \<and> pd_outcome d = ''allow'' \<and> authorized eg request pr d g \<and>
    bid = binding_id pr \<and> hc = call_of eg rg request pr d g \<and> hc_grant hc = g \<and>
    (\<exists>before after. x_trace (fst (execute eg rg env gs request)) = before @ Called bid hc # after \<and> filter is_called (before @ after) = [] \<and>
      (rg_eventSink rg = None \<or> (\<exists>e e'. before = [Emitted e None, Emitted e' None] \<and> ev_type e = ''tool.requested'' \<and> ev_type e' = ''tool.authorized'')))"
proof -
  obtain pr d g handle x es where r: "reaches_handler eg rg env gs request pr d g handle x" "bid = binding_id pr" "hc = call_of eg rg request pr d g"
      "x_trace (fst (execute eg rg env gs request)) = x_trace x @ Called bid hc # es" "filter is_called es = []"
    using calls_handler_member [OF assms] .
  then obtain x1 where p: "prepare eg rg env request (start_state gs) = (x1, Inr pr)" "decide eg rg env request pr = Inr d" "pd_outcome d = ''allow''"
      "authorize eg rg env request pr d x1 = (x, Inr g)"
    unfolding reaches_handler_def by blast
  have "rg_eventSink rg = None \<or> (\<exists>e e'. x_trace x = [Emitted e None, Emitted e' None] \<and> ev_type e = ''tool.requested'' \<and> ev_type e' = ''tool.authorized'')"
    using prepare_ok [OF p(1)] authorize_ok [OF p(4)] by (auto simp: start_state_def)
  moreover have "hc_grant hc = g" by (simp add: r(3) call_of_def Let_def)
  moreover have "filter is_called (x_trace x @ es) = []" using r(5) reaches_handler_quiet [OF r(1)] by simp
  ultimately show ?thesis using prepare_ok [OF p(1)] authorize_ok [OF p(4)] p(2,3) r(2-4) by blast
qed

text \<open>C6: a handler works inside the manifest. When a call reaches a handler then its principal is identified and active and
  an active member of the workspace, invoking tools is a known action, and the member's role includes it when the
  membership carries a role (a membership without one is not stopped by the role check); and the brokers the handler
  receives are confined: every file scope lies below a scope that an operation of the tool's manifest declares, and no
  network destination is an external write.\<close>

theorem handler_is_confined:
  assumes "Called bid hc \<in> set (x_trace (fst (execute eg rg env gs request)))"
  shows "\<exists>pr operation. checked eg rg request pr \<and> identified (policy_request (eg_runtime eg) request pr) \<and> member (policy_request (eg_runtime eg) request pr) \<and>
    role_permits (eg_runtime eg) (rg_policyRegistry rg) (policy_request (eg_runtime eg) request pr) \<and> declares (pr_tool pr) operation \<and> confined hc operation"
proof -
  obtain pr d g handle x es where r: "reaches_handler eg rg env gs request pr d g handle x" "hc = call_of eg rg request pr d g"
    using calls_handler_member [OF assms] by metis
  then obtain x1 where p: "prepare eg rg env request (start_state gs) = (x1, Inr pr)" "decide eg rg env request pr = Inr d" "pd_outcome d = ''allow''"
    unfolding reaches_handler_def by blast
  have c: "checked eg rg request pr" using prepare_ok [OF p(1)] by blast
  then have "assertTrustedContext request = Inr (pr_trusted pr)" by (simp add: checked_def)
  from decided_call_confined [OF p(2,3) this] decide_sound [OF p(2,3)] c show ?thesis unfolding r(2) by blast
qed

text \<open>A completed call returns only a checked output. The output of a completed call is what the handler returned for the
  recorded call; it passes the output schema, its JSON text is not above the limit of the operation and the request,
  and no secret that the handler resolved occurs in it.\<close>

theorem completed_output_is_checked:
  assumes "execute eg rg env gs request = (y, Completed result)"
  shows "\<exists>pr d g handle output values. checked eg rg request pr \<and> rg_handlers rg (binding_id pr) = Some handle \<and>
    Called (binding_id pr) (call_of eg rg request pr d g) \<in> set (x_trace y) \<and> handle (call_of eg rg request pr d g) = Returned output values \<and>
    get result ''output'' = output \<and> get result ''status'' = Str ''completed'' \<and> check_output eg request pr output = Inr () \<and>
    \<not> list_ex (\<lambda>v. v \<noteq> [] \<and> contains_text v (jsonStringify (eg_runtime eg) output)) values"
proof -
  let ?rt = "eg_runtime eg"
  have "execute_body eg rg env request (start_state gs) = (y, Inr (Completed result))"
    using assms by (auto simp: execute_def recover_def Let_def split: prod.splits sum.splits)
  then obtain x1 pr d x2 g x3 out where s: "prepare eg rg env request (start_state gs) = (x1, Inr pr)" "pd_outcome d = ''allow''"
      "authorize eg rg env request pr d x1 = (x2, Inr g)" "call_handler ?rt rg request (binding_id pr) (call_of eg rg request pr d g) x2 = (x3, Inr out)"
      "conclude eg rg env request pr d out x3 = (y, Inr (Completed result))"
    unfolding execute_body_def by (auto simp: act_ok refuse_def lift_js_def split: if_splits sum.splits)
  obtain handle where h: "rg_handlers rg (binding_id pr) = Some handle" "x_trace x3 = x_trace x2 @ [Called (binding_id pr) (call_of eg rg request pr d g)]"
      "run_outcome ?rt (handle (call_of eg rg request pr d g)) = Inr out"
    using s(4) by (auto simp: call_handler_def split: option.splits if_splits)
  obtain vs where v: "handle (call_of eg rg request pr d g) = Returned out vs" "noSecretLeak ?rt out vs = Inr ()"
    using h(3) by (auto simp: run_outcome_def bind_res_eq_Inr split: outcome.splits)
  have leak: "\<not> list_ex (\<lambda>v. v \<noteq> [] \<and> contains_text v (jsonStringify ?rt out)) vs"
    using v(2) by (simp add: noSecretLeak_def split: if_splits)
  have c: "check_output eg request pr out = Inr ()" "result = completed_result ?rt env request pr d out"
    using s(5) by (auto simp: conclude_def act_ok)
  have "Called (binding_id pr) (call_of eg rg request pr d g) \<in> set (x_trace y)" using quiet_keeps [OF quiet_conclude s(5)] h(2) by auto
  moreover have "get result ''output'' = out" "get result ''status'' = Str ''completed''"
    by (simp_all add: c(2) completed_result_def request_fields_def tool_fields_def policy_fields_def)
  ultimately show ?thesis using prepare_ok [OF s(1)] h(1) v(1) leak c(1) by blast
qed

section \<open>A sample call\<close>

definition echo_handler :: handler where
  "echo_handler hc = Returned (Obj [(''echoed'', get (hc_input hc) ''value'')]) []"

definition sample_tool :: "js \<Rightarrow> tool" where
  "sample_tool manifest = \<lparr>t_entry = safeClone echo_entry, t_manifest = manifest, t_manifestFingerprint = ''sha256:'' @ replicate 64 CHR ''a'', t_enabled = True\<rparr>"

definition sample_tools :: "js \<Rightarrow> registry" where
  "sample_tools manifest = \<lparr>rg_tools = [(Str ''tool:echo'', sample_tool manifest)], rg_handlers = (\<lambda>i. if i = Str ''handler:echo'' then Some echo_handler else None),
     rg_policyRegistry = POLICY_REGISTRY, rg_auditSink = None, rg_eventSink = None, rg_workspaceRoot = ''/w''\<rparr>"

definition sample_env :: call_env where
  "sample_env = \<lparr>c_startedAt = ''1'', c_issuedAt = ''2'', c_consumedAt = ''3'', c_completedAt = ''4'', c_policyNow = Str ''1'', c_uuid = ''u'',
     c_grantId = ''grant_a'', c_secret = ''s'', c_event = (\<lambda>_. (''e'', 1))\<rparr>"

definition sample_fields :: "(string \<times> js) list" where
  "sample_fields = [(''schemaVersion'', Str ''1.0.0''), (''requestId'', Str ''q''), (''correlationId'', Str ''c''), (''workspaceId'', Str ''w''), (''runId'', Str ''r''),
     (''stepId'', Str ''s''), (''actorId'', Str ''u''),
     (''trustedContext'', Obj [(''principal'', Obj [(''userId'', Str ''u''), (''principalType'', Str ''user''), (''status'', Str ''active'')]),
        (''membership'', Obj [(''workspaceId'', Str ''w''), (''role'', Str ''owner''), (''status'', Str ''active'')]), (''environment'', Obj [])]),
     (''toolId'', Str ''tool:echo''), (''toolVersion'', Str ''1.0.0''), (''operation'', Str ''echo''), (''input'', Obj [(''value'', Str ''hi'')]),
     (''trustedTimestamp'', Str ''1'')]"

definition echo_request :: js where
  "echo_request = Obj sample_fields"

definition deploy_manifest :: js where
  "deploy_manifest = Obj (spread (own_entries echo_manifest) [(''operations'', Obj [(''echo'', Obj (spread (own_entries echo_operation) [(''sideEffectClass'', Str ''consequential-write'')]))])])"

definition deploy_request :: "(string \<times> js) list \<Rightarrow> js" where
  "deploy_request extras = Obj (sample_fields @ [(''effectBoundary'', Obj [(''effect'', Bool True)])] @ extras)"

definition understated :: js where
  "understated = Obj [(''toolId'', Str ''tool:echo''), (''operation'', Str ''echo''), (''sideEffectClass'', Str ''read-only''), (''sandbox'', Str ''pure-local'')]"

definition sample_prepared :: "js \<Rightarrow> prepared" where
  "sample_prepared manifest = \<lparr>pr_trusted = \<lparr>tr_principal = Obj [(''userId'', Str ''u''), (''principalType'', Str ''user''), (''status'', Str ''active'')],
       tr_membership = Obj [(''workspaceId'', Str ''w''), (''role'', Str ''owner''), (''status'', Str ''active'')], tr_environment = Obj [(''externalWritesEnabled'', Bool False)]\<rparr>,
     pr_tool = sample_tool manifest, pr_name = ''echo'', pr_operation = lookup_operation (get manifest ''operations'') ''echo''\<rparr>"

text \<open>What of a sample call is evaluated; the fingerprints are left alone.\<close>

definition call_allowed :: "js \<Rightarrow> js \<Rightarrow> bool" where
  "call_allowed manifest request \<longleftrightarrow>
     (let q = policy_request tool_runtime request (sample_prepared manifest) in
      validatePolicyEvaluationRequest q = Inr q \<and> get q ''trustedTimestamp'' = Str ''1'' \<and> is_str (get (get q ''resource'') ''id'') \<and>
      (case collect_reasons tool_runtime POLICY_REGISTRY [] q (Str ''1'') of Inr (rs, _) \<Rightarrow> rs = [] | _ \<Rightarrow> False))"

definition call_prepared :: "js \<Rightarrow> js \<Rightarrow> bool" where
  "call_prepared manifest request \<longleftrightarrow>
     (case prepare tool_engine (sample_tools manifest) sample_env request (start_state Map.empty) of (_, Inr pr) \<Rightarrow> pr = sample_prepared manifest | _ \<Rightarrow> False)"

definition call_runs :: "js \<Rightarrow> js \<Rightarrow> bool" where
  "call_runs manifest request \<longleftrightarrow>
     (let pr = sample_prepared manifest; operation = pr_operation pr in
      list_all (\<lambda>k. is_str (get request k)) [''actorId'', ''workspaceId'', ''runId'', ''stepId''] \<and> is_str (get manifest ''id'') \<and> is_str (get manifest ''version'') \<and>
      \<not> truthy (get request ''approvalContext'') \<and> \<not> truthy (get request ''idempotencyKey'') \<and> \<not> truthy (get (get request ''signal'') ''aborted'') \<and>
      \<not> truthy (get (get operation ''approval'') ''required'') \<and> \<not> truthy (get (get operation ''idempotency'') ''required'') \<and>
      (get operation ''sideEffectClass'' = Str ''read-only'' \<or> truthy (get (get request ''effectBoundary'') ''effect'')) \<and>
      expiry tool_runtime ''2'' (js_min tool_runtime (Num 30000) (orelse (get (get (capability_of request pr) ''limits'') ''runtimeMs'') DEFAULT_RUNTIME_MS)) = Some ''1002'' \<and>
      binding_id pr = Str ''handler:echo'' \<and> get (safeClone (orelse (get request ''input'') (Obj []))) ''value'' = Str ''hi'' \<and>
      check_output tool_engine request pr (Obj [(''echoed'', Str ''hi'')]) = Inr ())"

lemma prepare_grants: "prepare eg rg env request x = (y, r) \<Longrightarrow> rg_eventSink rg = None \<Longrightarrow> x_grants y = x_grants x"
  unfolding prepare_def Let_def by (auto simp: act_bind_def act_def assign_def emit_event_def split: prod.splits sum.splits)

lemma decided_version:
  assumes "decide eg rg env request pr = Inr d" and "rg_auditSink rg = None"
  shows "pd_policyVersion d = get (rg_policyRegistry rg) ''version''"
  using assms by (auto simp: decide_def evaluate_def evaluateContextualPolicy_def bind_res_eq_Inr Let_def case_prod_beta)

lemma deepClone_str: "is_str v \<Longrightarrow> deepClone v = v \<and> v \<noteq> Undef"
  by (cases v) auto

lemma sample_call_decided:
  assumes "call_allowed manifest request"
  obtains d where "decide tool_engine (sample_tools manifest) sample_env request (sample_prepared manifest) = Inr d" "pd_outcome d = ''allow''"
    "pd_policyVersion d = Str ''1.0.0''"
proof -
  let ?q = "policy_request tool_runtime request (sample_prepared manifest)"
  have t: "validTimestamp tool_runtime (Str ''1'')" by code_simp
  obtain eff where c: "collect_reasons tool_runtime POLICY_REGISTRY [] ?q (Str ''1'') = Inr ([], eff)"
    using assms by (auto simp: call_allowed_def Let_def split: sum.splits prod.splits)
  obtain s where s: "get (get ?q ''resource'') ''id'' = Str s"
    using assms by (cases "get (get ?q ''resource'') ''id''") (auto simp: call_allowed_def Let_def)
  have "\<exists>d. evaluateContextualPolicy tool_runtime Null (c_uuid sample_env) (c_policyNow sample_env) POLICY_REGISTRY ?q = Inr d \<and> pd_outcome d = ''allow''"
    using assms t c s by (intro evaluation_allows [where eff = eff]) (auto simp: call_allowed_def Let_def default_registry_valid)
  then obtain d where d: "decide tool_engine (sample_tools manifest) sample_env request (sample_prepared manifest) = Inr d" "pd_outcome d = ''allow''"
    by (auto simp: decide_def evaluate_def tool_engine_def sample_tools_def)
  have "get POLICY_REGISTRY ''version'' = Str ''1.0.0''" by code_simp
  then show thesis using that [OF d] decided_version [OF d(1)] by (simp add: sample_tools_def)
qed

lemma sample_call_authorized:
  assumes "call_runs manifest request" and "pd_policyVersion d = Str ''1.0.0''" and "x_grants x = Map.empty"
  shows "\<exists>g y. authorize tool_engine (sample_tools manifest) sample_env request (sample_prepared manifest) d x = (y, Inr g)"
proof -
  let ?pr = "sample_prepared manifest"
  let ?b = "binding_of tool_runtime request ?pr d"
  note r = assms(1) [unfolded call_runs_def Let_def]
  have "deepClone ?b = ?b" "is_plain ?b" "?b \<noteq> Undef"
    using r assms(2) deepClone_str by (simp_all add: binding_of_def exactBinding_def approvalFingerprint_def idempotencyFingerprint_def sample_prepared_def sample_tool_def)
  then have b: "safeClone ?b = ?b" "is_plain ?b" by (simp_all add: safeClone_def)
  have n: "name_test tool_runtime ''grant_'' name_char 1 120 (Str ''grant_a'')" "split_token (token_of ''grant_a'' ''s'') = Some (''grant_a'', ''s'')"
      "\<not> date_le tool_runtime ''1002'' ''3''" by code_simp+
  have s: "c_grantId sample_env = ''grant_a''" "c_secret sample_env = ''s''" "c_issuedAt sample_env = ''2''" "c_consumedAt sample_env = ''3''"
      "rg_eventSink (sample_tools manifest) = None" "eg_runtime tool_engine = tool_runtime"
    by (simp_all add: sample_env_def sample_tools_def tool_engine_def)
  show ?thesis
    using r b n assms(3)
    by (auto simp: authorize_def Let_def s act_bind_def act_def require_def issue_act_def issue_grant_def assertObject_def emit_event_def consume_act_def consume_def)
qed

lemma sample_call_completes:
  assumes "call_prepared manifest request" and "call_allowed manifest request" and "call_runs manifest request"
  shows "\<exists>y result hc. execute tool_engine (sample_tools manifest) sample_env Map.empty request = (y, Completed result) \<and> Called (Str ''handler:echo'') hc \<in> set (x_trace y)"
proof -
  let ?rg = "sample_tools manifest" and ?pr = "sample_prepared manifest"
  obtain x1 where p: "prepare tool_engine ?rg sample_env request (start_state Map.empty) = (x1, Inr ?pr)"
    using assms(1) by (auto simp: call_prepared_def split: prod.splits sum.splits)
  have e: "x_grants x1 = Map.empty" using prepare_grants [OF p] by (simp add: sample_tools_def start_state_def)
  obtain d where d: "decide tool_engine ?rg sample_env request ?pr = Inr d" "pd_outcome d = ''allow''" "pd_policyVersion d = Str ''1.0.0''"
    using sample_call_decided [OF assms(2)] .
  obtain g x2 where a: "authorize tool_engine ?rg sample_env request ?pr d x1 = (x2, Inr g)" using sample_call_authorized [OF assms(3) d(3) e] by blast
  note r = assms(3) [unfolded call_runs_def Let_def]
  let ?hc = "call_of tool_engine ?rg request ?pr d g" and ?out = "Obj [(''echoed'', Str ''hi'')]"
  have h: "call_handler (eg_runtime tool_engine) ?rg request (binding_id ?pr) ?hc x2 = (x2\<lparr>x_trace := x_trace x2 @ [Called (Str ''handler:echo'') ?hc]\<rparr>, Inr ?out)"
    using r by (simp add: call_handler_def sample_tools_def echo_handler_def run_outcome_def noSecretLeak_def require_def call_of_def Let_def)
  have "conclude tool_engine ?rg sample_env request ?pr d ?out x = (x, Inr (Completed (completed_result (eg_runtime tool_engine) sample_env request ?pr d ?out)))" for x
    using r by (simp add: conclude_def act_bind_def act_def emit_event_def sample_tools_def)
  then show ?thesis using p d a h by (auto simp: execute_def execute_body_def act_bind_def act_def lift_js_def)
qed

lemma echo_call_completes:
  "\<exists>y result hc. execute tool_engine (sample_tools echo_manifest) sample_env Map.empty echo_request = (y, Completed result) \<and> Called (Str ''handler:echo'') hc \<in> set (x_trace y)"
proof (rule sample_call_completes)
  show "call_prepared echo_manifest echo_request" by code_simp
  show "call_allowed echo_manifest echo_request" by code_simp
  show "call_runs echo_manifest echo_request" by code_simp
qed

theorem handler_runs_only_when_authorized_witness:
  "\<exists>y result hc pr d g. execute tool_engine (sample_tools echo_manifest) sample_env Map.empty echo_request = (y, Completed result) \<and>
     Called (Str ''handler:echo'') hc \<in> set (x_trace y) \<and> checked tool_engine (sample_tools echo_manifest) echo_request pr \<and> pd_outcome d = ''allow'' \<and>
     authorized tool_engine echo_request pr d g \<and> hc_grant hc = g"
proof -
  obtain y result hc where e: "execute tool_engine (sample_tools echo_manifest) sample_env Map.empty echo_request = (y, Completed result)"
      "Called (Str ''handler:echo'') hc \<in> set (x_trace y)" using echo_call_completes by blast
  then have c: "Called (Str ''handler:echo'') hc \<in> set (x_trace (fst (execute tool_engine (sample_tools echo_manifest) sample_env Map.empty echo_request)))" by simp
  from handler_runs_only_when_authorized [OF c] e show ?thesis by blast
qed

theorem handler_is_confined_witness:
  "\<exists>y result hc operation. execute tool_engine (sample_tools echo_manifest) sample_env Map.empty echo_request = (y, Completed result) \<and>
     Called (Str ''handler:echo'') hc \<in> set (x_trace y) \<and> confined hc operation"
proof -
  obtain y result hc where e: "execute tool_engine (sample_tools echo_manifest) sample_env Map.empty echo_request = (y, Completed result)"
      "Called (Str ''handler:echo'') hc \<in> set (x_trace y)" using echo_call_completes by blast
  then have c: "Called (Str ''handler:echo'') hc \<in> set (x_trace (fst (execute tool_engine (sample_tools echo_manifest) sample_env Map.empty echo_request)))" by simp
  from handler_is_confined [OF c] e show ?thesis by blast
qed

theorem completed_output_is_checked_witness:
  "\<exists>y result pr. execute tool_engine (sample_tools echo_manifest) sample_env Map.empty echo_request = (y, Completed result) \<and>
     check_output tool_engine echo_request pr (get result ''output'') = Inr ()"
proof -
  obtain y result where e: "execute tool_engine (sample_tools echo_manifest) sample_env Map.empty echo_request = (y, Completed result)"
    using echo_call_completes by blast
  from completed_output_is_checked [OF e] e show ?thesis by blast
qed

lemma deploy_manifest_valid: "validateReviewedToolManifest tool_engine deploy_manifest = Inr deploy_manifest"
  by code_simp

lemma deploy_needs_approval:
  "\<exists>y r d. execute tool_engine (sample_tools deploy_manifest) sample_env Map.empty (deploy_request []) = (y, Refused r d) \<and> ''approval_required'' \<in> set (pd_reasonCodes d)"
proof -
  let ?rg = "sample_tools deploy_manifest" and ?pr = "sample_prepared deploy_manifest" and ?r = "deploy_request []"
  let ?q = "policy_request tool_runtime ?r ?pr"
  have "call_prepared deploy_manifest ?r" by code_simp
  then obtain x1 where p: "prepare tool_engine ?rg sample_env ?r (start_state Map.empty) = (x1, Inr ?pr)"
    by (auto simp: call_prepared_def split: prod.splits sum.splits)
  have t: "validTimestamp tool_runtime (Str ''1'')" by code_simp
  have "case collect_reasons tool_runtime POLICY_REGISTRY [] ?q (Str ''1'') of Inr (rs, _) \<Rightarrow> rs = [''approval_required'', ''idempotency_required''] | _ \<Rightarrow> False" by code_simp
  then obtain eff where c: "collect_reasons tool_runtime POLICY_REGISTRY [] ?q (Str ''1'') = Inr ([''approval_required'', ''idempotency_required''], eff)"
    by (auto split: sum.splits prod.splits)
  have v: "validatePolicyEvaluationRequest ?q = Inr ?q" by code_simp
  have i: "get (get ?q ''resource'') ''id'' = Str ''tool:echo''" "get ?q ''trustedTimestamp'' = Str ''1''" by code_simp+
  have o: "''approval_required'' \<in> set (filter (\<lambda>r. r \<in> set POLICY_REASON_CODES) (orderedReasons [''approval_required'', ''idempotency_required'']))" by code_simp
  then have o': "orderedReasons [''approval_required'', ''idempotency_required''] \<noteq> []" by auto
  have "\<exists>d. evaluateContextualPolicy tool_runtime Null (c_uuid sample_env) (c_policyNow sample_env) POLICY_REGISTRY ?q = Inr d \<and> pd_outcome d = ''deny'' \<and>
      ''approval_required'' \<in> set (pd_reasonCodes d)"
    using t c v i o o' by (simp add: evaluateContextualPolicy_def policyFingerprint_def default_registry_valid Let_def del: validTimestamp.simps)
  then obtain d where d: "decide tool_engine ?rg sample_env ?r ?pr = Inr d" "pd_outcome d = ''deny''" "''approval_required'' \<in> set (pd_reasonCodes d)"
    by (auto simp: decide_def evaluate_def tool_engine_def sample_tools_def)
  then show ?thesis using p by (auto simp: execute_def execute_body_def act_bind_def act_def lift_js_def refuse_def emit_event_def sample_tools_def)
qed

text \<open>Where the reasons of a denial come from.\<close>

definition approval_codes :: "string set" where
  "approval_codes = {''approval_required'', ''approval_invalid'', ''approval_expired'', ''approval_scope_mismatch''}"

definition unrelated :: "string list \<Rightarrow> bool" where
  "unrelated rs \<longleftrightarrow> set rs \<inter> approval_codes = {}"

lemma unrelated_simps [simp]:
  "unrelated []"
  "unrelated (r # rs) \<longleftrightarrow> r \<notin> approval_codes \<and> unrelated rs"
  "unrelated (rs @ rs') \<longleftrightarrow> unrelated rs \<and> unrelated rs'"
  by (auto simp: unrelated_def)

lemma unrelated_reason_if [simp]: "unrelated (reason_if c r) \<longleftrightarrow> (c \<longrightarrow> r \<notin> approval_codes)"
  by (simp add: reason_if_def)

lemma other_codes:
  "''missing_identity'' \<notin> approval_codes" "''missing_workspace'' \<notin> approval_codes" "''unknown_action'' \<notin> approval_codes" "''unsupported_role'' \<notin> approval_codes"
  "''membership_required'' \<notin> approval_codes" "''workspace_mismatch'' \<notin> approval_codes" "''resource_denied'' \<notin> approval_codes" "''tool_not_registered'' \<notin> approval_codes"
  "''operation_not_declared'' \<notin> approval_codes" "''capability_exceeds_manifest'' \<notin> approval_codes" "''filesystem_read_denied'' \<notin> approval_codes"
  "''filesystem_write_denied'' \<notin> approval_codes" "''network_denied'' \<notin> approval_codes" "''secret_scope_denied'' \<notin> approval_codes" "''data_class_denied'' \<notin> approval_codes"
  "''sandbox_denied'' \<notin> approval_codes" "''budget_exceeded'' \<notin> approval_codes" "''idempotency_required'' \<notin> approval_codes"
  "''external_writes_disabled'' \<notin> approval_codes" "''policy_configuration_invalid'' \<notin> approval_codes"
  unfolding approval_codes_def by simp_all

lemma unrelated_networks: "networks_loop rt xs allowed environment rs = Inr (b, rs') \<Longrightarrow> unrelated rs \<Longrightarrow> unrelated rs'"
  by (induction rt xs allowed environment rs arbitrary: b rs' rule: networks_loop.induct)
    (auto simp: bind_res_eq_Inr Let_def other_codes split: if_splits)

lemma unrelated_operation: "check_operation rt c m opn w e r = Inr (rs, eff) \<Longrightarrow> unrelated rs"
  by (auto simp: check_operation_def Let_def bind_res_eq_Inr networksAllowed_def other_codes dest: unrelated_networks)

lemma unrelated_capability: "evaluateCapability rt c m w e r = Inr (rs, eff) \<Longrightarrow> unrelated rs"
  by (auto simp: evaluateCapability_def Let_def bind_res_eq_Inr other_codes dest: unrelated_operation split: if_splits)

lemma unrelated_identity: "unrelated (identity_reasons rt r w m a ws)"
  by (simp add: identity_reasons_def Let_def other_codes)

lemma unrelated_resource: "unrelated (resource_reasons r x c a ws)"
  by (simp add: resource_reasons_def Let_def other_codes)

lemma no_approval_no_reason:
  assumes "collect_reasons rt registry shape q t = Inr (reasons, eff)" and "unrelated shape"
    and "approval_reasons rt q (or_null (get q ''capabilityRequest'')) (or_null (get q ''trustedToolManifest'')) t = Inr []"
  shows "unrelated reasons"
  using assms
  by (auto simp: collect_reasons_def Let_def bind_res_eq_Inr other_codes unrelated_identity unrelated_resource dest: unrelated_capability split: if_splits)

text \<open>The decision's codes are those that the collected reasons give, and the audited service adds at most one.\<close>

lemma evaluated_reasons:
  assumes "evaluateContextualPolicy rt did uuid now registry request = Inr d" and "Policy.is_object request"
  shows "\<exists>shape t reasons eff. unrelated shape \<and> collect_reasons rt registry shape request t = Inr (reasons, eff) \<and>
    pd_reasonCodes d = filter (\<lambda>r. r \<in> set POLICY_REASON_CODES) (orderedReasons reasons)"
proof -
  define sv where "sv = (case validatePolicyEvaluationRequest request of
      Inr v \<Rightarrow> ([], v) | Inl _ \<Rightarrow> ([''policy_configuration_invalid''], if Policy.is_object request then request else Obj []))"
  have v: "v = request" if "validatePolicyEvaluationRequest request = Inr v" for v
    using that by (simp add: validatePolicyEvaluationRequest_def bind_res_eq_Inr)
  obtain shape where sv': "sv = (shape, request)" "unrelated shape"
    using v assms(2) other_codes by (cases "validatePolicyEvaluationRequest request") (auto simp: sv_def)
  define t where "t = (if validTimestamp rt (get request ''trustedTimestamp'') then get request ''trustedTimestamp'' else now)"
  obtain reasons eff where "collect_reasons rt registry shape request t = Inr (reasons, eff)"
      "pd_reasonCodes d = filter (\<lambda>r. r \<in> set POLICY_REASON_CODES) (orderedReasons reasons)"
    using assms(1) unfolding evaluateContextualPolicy_def sv_def [symmetric] sv' by (auto simp: Let_def bind_res_eq_Inr t_def)
  then show ?thesis using sv'(2) by blast
qed

lemma evaluate_reasons:
  assumes "evaluate rt sink did uuid now registry request = Inr d"
  shows "\<exists>d0. evaluateContextualPolicy rt did uuid now registry request = Inr d0 \<and>
    (pd_reasonCodes d = pd_reasonCodes d0 \<or> pd_reasonCodes d = orderedReasons (pd_reasonCodes d0 @ [''policy_configuration_invalid'']))"
proof -
  obtain d0 where d0: "evaluateContextualPolicy rt did uuid now registry request = Inr d0" "d = d0 \<or> pd_reasonCodes d = pd_reasonCodes d0 \<or>
      pd_reasonCodes d = orderedReasons (pd_reasonCodes d0 @ [''policy_configuration_invalid''])"
    using assms unfolding evaluate_def bind_res_eq_Inr
    by (elim exE conjE) (simp split: option.splits if_split_asm, auto)
  then show ?thesis by auto
qed

lemma understated_reasons:
  assumes "get (get request ''requestedCapability'') ''sideEffectClass'' = Str c" and "c \<noteq> ''consequential-write''"
    and "\<forall>operation. declares (pr_tool pr) operation \<longrightarrow> get (get operation ''approval'') ''required'' \<noteq> Bool True"
  shows "approval_reasons rt q (or_null (get (policy_request rt' request pr) ''capabilityRequest'')) (or_null (get (policy_request rt' request pr) ''trustedToolManifest'')) t = Inr []"
proof -
  let ?rc = "get request ''requestedCapability''" and ?cap = "capability_of request pr"
  let ?ops = "Obj (map (\<lambda>(k, v). (k, policy_operation v)) (own_entries (get (t_manifest (pr_tool pr)) ''operations'')))"
  have q: "get (policy_request rt' request pr) ''capabilityRequest'' = ?cap"
    "get (policy_request rt' request pr) ''trustedToolManifest'' = operationToPolicyManifest (pr_tool pr) (pr_name pr)"
    by (simp_all add: policy_request_def Let_def)
  obtain kvs where rc: "?rc = Obj kvs" using assms(1) by (cases ?rc) auto
  then have "map_of kvs ''sideEffectClass'' = Some (Str c)" using assms(1) by (auto split: option.splits)
  then have cls: "get (or_null ?cap) ''sideEffectClass'' = Str c"
    by (simp add: capability_of_def operationCapability_def Let_def rc orelse_def or_null_def map_of_spread)
  have n: "normalizeOperations (operationToPolicyManifest (pr_tool pr) (pr_name pr)) = Inr ?ops"
    by (simp add: normalizeOperations_def operationToPolicyManifest_def Let_def)
  have "get (get (get ?ops k) ''approval'') ''required'' \<noteq> Bool True" for k
  proof (cases "map_of (own_entries (get (t_manifest (pr_tool pr)) ''operations'')) k")
    case (Some operation)
    then have "declares (pr_tool pr) operation" using map_of_SomeD by (force simp: declares_def)
    moreover have "get ?ops k = policy_operation operation" using Some by (simp add: map_of_map)
    ultimately show ?thesis using assms(3) by (simp add: policy_operation_gets)
  qed (simp add: map_of_map)
  then have "operationRequiresApproval rt (or_null (operationToPolicyManifest (pr_tool pr) (pr_name pr))) v = Inr False" for v
    by (simp add: operationRequiresApproval_def n)
  then show ?thesis using assms(2) unfolding q approval_reasons_def cls by (simp add: orelse_def)
qed

text \<open>C35: a caller can leave out the approval by asking for less. The policy looks at the side effects of the requested
  capability, not at those of the operation. When no operation of the tool declares that approval is required, a call whose
  requested capability names any class but a consequential write gets no reason about approvals, whatever the called
  operation declares it does. (An operation that declares approval to be required stays refused without one.) The witness
  is a consequential write without approval that is refused as it is and completes with an understated capability.\<close>

theorem understated_capability_skips_approval:
  assumes "decide eg rg env request pr = Inr d"
    and "get (get request ''requestedCapability'') ''sideEffectClass'' = Str c" and "c \<noteq> ''consequential-write''"
    and "\<forall>operation. declares (pr_tool pr) operation \<longrightarrow> get (get operation ''approval'') ''required'' \<noteq> Bool True"
  shows "set (pd_reasonCodes d) \<inter> {''approval_required'', ''approval_invalid'', ''approval_expired'', ''approval_scope_mismatch''} = {}"
proof -
  let ?q = "policy_request (eg_runtime eg) request pr"
  have ordered: "unrelated (orderedReasons rs)" if "unrelated rs" for rs
    using that by (auto simp: unrelated_def orderedReasons_def dest!: in_set_takeD)
  obtain d0 where d0: "evaluateContextualPolicy (eg_runtime eg) Null (c_uuid env) (c_policyNow env) (rg_policyRegistry rg) ?q = Inr d0"
      and d: "pd_reasonCodes d = pd_reasonCodes d0 \<or> pd_reasonCodes d = orderedReasons (pd_reasonCodes d0 @ [''policy_configuration_invalid''])"
    using evaluate_reasons [OF assms(1) [unfolded decide_def]] by blast
  have obj: "Policy.is_object ?q" by (simp add: policy_request_def Let_def)
  have free: "unrelated reasons" if "collect_reasons (eg_runtime eg) (rg_policyRegistry rg) shape ?q t = Inr (reasons, eff)" "unrelated shape" for shape t reasons eff
    by (rule no_approval_no_reason [OF that]) (rule understated_reasons [OF assms(2-4)])
  obtain shape t reasons eff where c: "unrelated shape" "collect_reasons (eg_runtime eg) (rg_policyRegistry rg) shape ?q t = Inr (reasons, eff)"
      "pd_reasonCodes d0 = filter (\<lambda>r. r \<in> set POLICY_REASON_CODES) (orderedReasons reasons)"
    using evaluated_reasons [OF d0 obj] by blast
  have "unrelated (orderedReasons reasons)" using ordered free c(1,2) by blast
  then have "unrelated (pd_reasonCodes d0)" unfolding c(3) by (auto simp: unrelated_def)
  then have "unrelated (pd_reasonCodes d)" using d ordered [of "pd_reasonCodes d0 @ [''policy_configuration_invalid'']"] other_codes by auto
  then show ?thesis by (simp add: unrelated_def approval_codes_def)
qed

theorem understated_capability_skips_approval_witness:
  "validateReviewedToolManifest tool_engine deploy_manifest = Inr deploy_manifest \<and>
   get (lookup_operation (get deploy_manifest ''operations'') ''echo'') ''sideEffectClass'' = Str ''consequential-write'' \<and>
   (\<exists>y r d. execute tool_engine (sample_tools deploy_manifest) sample_env Map.empty (deploy_request []) = (y, Refused r d) \<and> ''approval_required'' \<in> set (pd_reasonCodes d)) \<and>
   (\<exists>d. decide tool_engine (sample_tools deploy_manifest) sample_env (deploy_request [(''requestedCapability'', understated)]) (sample_prepared deploy_manifest) = Inr d \<and>
      ''approval_required'' \<notin> set (pd_reasonCodes d)) \<and>
   (\<exists>y result hc. execute tool_engine (sample_tools deploy_manifest) sample_env Map.empty (deploy_request [(''requestedCapability'', understated)]) = (y, Completed result) \<and>
      Called (Str ''handler:echo'') hc \<in> set (x_trace y))"
proof (intro conjI)
  let ?r = "deploy_request [(''requestedCapability'', understated)]"
  show "validateReviewedToolManifest tool_engine deploy_manifest = Inr deploy_manifest" by (rule deploy_manifest_valid)
  show "get (lookup_operation (get deploy_manifest ''operations'') ''echo'') ''sideEffectClass'' = Str ''consequential-write''" by code_simp
  show "\<exists>y r d. execute tool_engine (sample_tools deploy_manifest) sample_env Map.empty (deploy_request []) = (y, Refused r d) \<and> ''approval_required'' \<in> set (pd_reasonCodes d)"
    by (rule deploy_needs_approval)
  have allowed: "call_allowed deploy_manifest ?r" by code_simp
  obtain d where d: "decide tool_engine (sample_tools deploy_manifest) sample_env ?r (sample_prepared deploy_manifest) = Inr d"
    using sample_call_decided [OF allowed] by blast
  have cls: "get (get ?r ''requestedCapability'') ''sideEffectClass'' = Str ''read-only''" by code_simp
  have "list_all (\<lambda>operation. get (get operation ''approval'') ''required'' = Bool False) (map snd (own_entries (get deploy_manifest ''operations'')))" by code_simp
  then have none: "\<forall>operation. declares (pr_tool (sample_prepared deploy_manifest)) operation \<longrightarrow> get (get operation ''approval'') ''required'' \<noteq> Bool True"
    by (auto simp: declares_def sample_prepared_def sample_tool_def list_all_iff)
  have "''read-only'' \<noteq> ''consequential-write''" by simp
  from understated_capability_skips_approval [OF d cls this none] d
  show "\<exists>d. decide tool_engine (sample_tools deploy_manifest) sample_env ?r (sample_prepared deploy_manifest) = Inr d \<and> ''approval_required'' \<notin> set (pd_reasonCodes d)"
    by blast
  show "\<exists>y result hc. execute tool_engine (sample_tools deploy_manifest) sample_env Map.empty ?r = (y, Completed result) \<and> Called (Str ''handler:echo'') hc \<in> set (x_trace y)"
  proof (rule sample_call_completes [OF _ allowed])
    show "call_prepared deploy_manifest ?r" by code_simp
    show "call_runs deploy_manifest ?r" by code_simp
  qed
qed

end
