(* ===== verification/ToolService.thy ===== *)
theory ToolService
  imports ToolRegistry
begin

text \<open>
  packages/tool-registry/src/index.mjs: how a registry comes to its tools and handlers (the
  catalog, the built-in tools, registration with the conversion of legacy manifests), the
  shorthand \<open>invoke\<close>, the listing, and the boundary that handlers get for their effects.
\<close>

section \<open>Built-in tools\<close>

definition builtinManifest :: "engine \<Rightarrow> string \<Rightarrow> string \<Rightarrow> string \<Rightarrow> js \<Rightarrow> (tool_error, js) result" where
  "builtinManifest eg tool_id name handlerBindingId operations =
     validateReviewedToolManifest eg (Obj [(''schemaVersion'', Str ''1.1.0''), (''contractVersion'', Str ''1.0.0''), (''id'', Str tool_id), (''name'', Str name),
       (''version'', Str ''1.0.0''), (''handlerBindingId'', Str handlerBindingId), (''operations'', operations)])"

text \<open>\<open>schema\<close> and \<open>outputSchema\<close>: a closed object whose required properties are given, or else all of them.\<close>

definition object_schema :: "(string \<times> js) list \<Rightarrow> string list option \<Rightarrow> js" where
  "object_schema properties required =
     Obj [(''type'', Str ''object''), (''additionalProperties'', Bool False),
       (''required'', Arr (map Str (case required of None \<Rightarrow> map fst properties | Some ks \<Rightarrow> ks))), (''properties'', Obj properties)]"

definition bounded_text :: "rat \<Rightarrow> rat \<Rightarrow> js" where
  "bounded_text lo hi = Obj [(''type'', Str ''string''), (''minLength'', Num lo), (''maxLength'', Num hi)]"

definition sha256_field :: js where
  "sha256_field = Obj [(''type'', Str ''string''), (''pattern'', Str ''^sha256:[a-f0-9]{64}$'')]"

definition count_field :: js where
  "count_field = Obj [(''type'', Str ''integer''), (''minimum'', Num 0)]"

definition baseOutputFields :: "(string \<times> js) list" where
  "baseOutputFields = [(''path'', bounded_text 1 240), (''sha256'', sha256_field), (''byteSize'', count_field), (''idempotent'', Obj [(''type'', Str ''boolean'')])]"

definition builtin_operation :: "string \<Rightarrow> js \<Rightarrow> js \<Rightarrow> js list \<Rightarrow> js list \<Rightarrow> js list \<Rightarrow> js list \<Rightarrow> string \<Rightarrow> rat \<Rightarrow> rat \<Rightarrow> bool \<Rightarrow> js" where
  "builtin_operation sideEffects inputs outputs reads writes network secrets sandbox inputBytes outputBytes idempotent =
     Obj [(''sideEffectClass'', Str sideEffects), (''inputSchema'', inputs), (''outputSchema'', outputs),
       (''filesystem'', Obj [(''read'', Arr reads), (''write'', Arr writes)]), (''network'', Arr network), (''secretReferences'', Arr secrets),
       (''dataClasses'', Arr [Str ''workspace-private'']), (''sandbox'', Str sandbox),
       (''limits'', Obj [(''runtimeMs'', Num 1000), (''inputBytes'', Num inputBytes), (''outputBytes'', Num outputBytes), (''costUnits'', Num 0)]),
       (''approval'', Obj [(''required'', Bool False)]), (''idempotency'', Obj [(''required'', Bool idempotent)])]"

definition pure_tool :: "engine \<Rightarrow> (tool_error, js) result" where
  "pure_tool eg = builtinManifest eg ''tool:fixture-pure'' ''Pure deterministic fixture'' ''handler:pure:echo@1.0.0'' (Obj [(''echo'',
     builtin_operation ''read-only'' (object_schema [(''value'', bounded_text 1 120)] None)
       (object_schema [(''echoed'', bounded_text 1 120), (''grantId'', bounded_text 1 128)] (Some [''echoed'']))
       [] [] [] [] ''pure-local'' 1024 2048 False)])"

definition read_tool :: "engine \<Rightarrow> (tool_error, js) result" where
  "read_tool eg = builtinManifest eg ''tool:filesystem-read'' ''Read bounded workspace files'' ''handler:brokered:workspace-file-read@1.0.0'' (Obj [(''readFile'',
     builtin_operation ''read-only'' (object_schema [(''path'', bounded_text 1 240)] None)
       (object_schema [(''path'', bounded_text 1 240), (''sha256'', sha256_field), (''byteSize'', count_field)] None)
       [Str ''workspace:root''] [] [] [] ''brokered-filesystem-read'' 1024 4096 False)])"

definition write_tool :: "engine \<Rightarrow> (tool_error, js) result" where
  "write_tool eg = builtinManifest eg ''tool:workspace-write'' ''Write bounded workspace files'' ''handler:brokered:workspace-file-write@1.0.0'' (Obj [(''writeFile'',
     builtin_operation ''reversible-write''
       (object_schema [(''path'', bounded_text 1 240), (''content'', Obj [(''type'', Str ''string''), (''maxLength'', Num 4096)])] None)
       (object_schema baseOutputFields (Some [''path'', ''sha256'', ''byteSize'']))
       [] [Str ''workspace:root''] [] [] ''brokered-filesystem-write'' 8192 4096 True)])"

definition loopback_tool :: "engine \<Rightarrow> js \<Rightarrow> (tool_error, js) result" where
  "loopback_tool eg loopbackPort = builtinManifest eg ''tool:loopback-read'' ''Read exact loopback URL'' ''handler:brokered:loopback-http-read@1.0.0'' (Obj [(''fetchText'',
     builtin_operation ''read-only''
       (object_schema [(''url'', bounded_text 1 300), (''method'', Obj [(''enum'', Arr (map Str [''GET'', ''HEAD'', ''POST'']))])] None)
       (object_schema [(''status'', Obj [(''type'', Str ''integer''), (''minimum'', Num 100), (''maximum'', Num 599)]), (''bodySha256'', sha256_field),
          (''byteSize'', count_field), (''headers'', Obj [(''type'', Str ''object''), (''additionalProperties'', Obj [(''type'', Str ''string''), (''maxLength'', Num 256)])])] None)
       [] [] [Obj [(''protocol'', Str ''http''), (''host'', Str ''127.0.0.1''), (''port'', loopbackPort), (''methods'', Arr [Str ''GET'', Str ''HEAD'']),
          (''consequence'', Str ''read''), (''locality'', Str ''loopback'')]] [] ''brokered-loopback-http'' 1024 4096 False)])"

definition secret_tool :: "engine \<Rightarrow> (tool_error, js) result" where
  "secret_tool eg = builtinManifest eg ''tool:secret-fixture'' ''Hash declared secret references'' ''handler:brokered:secret-hash@1.0.0'' (Obj [(''hashSecret'',
     builtin_operation ''read-only''
       (object_schema [(''secretReferences'', Obj [(''type'', Str ''array''), (''minItems'', Num 1), (''maxItems'', Num 4), (''uniqueItems'', Bool True),
          (''items'', Obj [(''type'', Str ''string''), (''pattern'', Str ''^secret:[A-Za-z0-9_.:-]{1,120}$'')])])] None)
       (object_schema [(''secretCount'', count_field), (''combinedSha256'', sha256_field)] None)
       [] [] [] [Str ''secret:fixture.read''] ''brokered-secret-reference'' 1024 2048 False)])"

definition registered_tool :: "engine \<Rightarrow> string \<Rightarrow> js \<Rightarrow> js \<times> tool" where
  "registered_tool eg reviewVersion manifest =
     (get manifest ''id'', \<lparr>t_entry = Obj [(''toolId'', get manifest ''id''), (''enabled'', Bool True), (''handlerBindingId'', get manifest ''handlerBindingId''),
        (''reviewStatus'', Str ''reviewed''), (''reviewVersion'', Str reviewVersion)], t_manifest = manifest,
        t_manifestFingerprint = stableToolFingerprint (eg_runtime eg) manifest, t_enabled = True\<rparr>)"

definition builtinTools :: "engine \<Rightarrow> js \<Rightarrow> (tool_error, (js \<times> tool) list) result" where
  "builtinTools eg loopbackPort =
     bind_res (map_res id [pure_tool eg, read_tool eg, write_tool eg, loopback_tool eg loopbackPort, secret_tool eg]) (\<lambda>ms.
       Inr (map (registered_tool eg ''OAF-015'') ms))"

section \<open>Built-in handlers\<close>

text \<open>What the brokers of one call meet: the disk before and after directories are made, the parsed URL and the response, the
  secret resolver, and whether the call is still active.\<close>

record surroundings =
  sr_disk :: disk
  sr_disk' :: disk
  sr_url :: "url option"
  sr_response :: "response option"
  sr_resolver :: "(js \<Rightarrow> js) option"
  sr_active :: bool
  sr_active' :: bool

fun outcome_of :: "(tool_error, js) result \<Rightarrow> outcome" where
  "outcome_of (Inl e) = Threw e"
| "outcome_of (Inr v) = Returned v []"

definition echo_tool_handler :: handler where
  "echo_tool_handler hc = Returned (Obj [(''echoed'', get (hc_input hc) ''value''), (''grantId'', Str (g_id (hc_grant hc)))]) []"

definition file_summary :: "file_result \<Rightarrow> js" where
  "file_summary r = Obj [(''path'', Str (fr_path r)), (''sha256'', Str (fr_sha256 r)), (''byteSize'', Num (of_nat (fr_byteSize r)))]"

definition read_handler :: "runtime \<Rightarrow> surroundings \<Rightarrow> handler" where
  "read_handler rt sr hc =
     outcome_of (bind_res (readText rt (hc_files hc) (sr_disk sr) (sr_active sr) (sr_active' sr) (get (hc_input hc) ''path'')) (\<lambda>r. Inr (file_summary r)))"

definition fetch_handler :: "runtime \<Rightarrow> surroundings \<Rightarrow> handler" where
  "fetch_handler rt sr hc =
     outcome_of (fetchText rt (hc_operation hc) (sr_active sr) (sr_active' sr) (sr_url sr)
       (if get (hc_input hc) ''method'' = Undef then Str ''GET'' else get (hc_input hc) ''method'') (sr_response sr))"

definition secret_handler :: "runtime \<Rightarrow> surroundings \<Rightarrow> handler" where
  "secret_handler rt sr hc =
     (case resolveMany rt (hc_operation hc) (sr_resolver sr) (sr_active sr) (get (hc_input hc) ''secretReferences'') [] of
        (resolved, Inl e) \<Rightarrow> Threw e
      | (resolved, Inr values) \<Rightarrow>
          Returned (Obj [(''secretCount'', Num (of_nat (length values))), (''combinedSha256'', Str (''sha256:'' @ sha256_hex rt (join ''|'' values)))]) resolved)"

section \<open>Effects of a handler\<close>

text \<open>The call's signal may carry the reason it was aborted for.\<close>

definition assertActiveEffectBoundary :: "tool_error option \<Rightarrow> bool \<Rightarrow> (tool_error, unit) result" where
  "assertActiveEffectBoundary aborted active = (case aborted of Some reason \<Rightarrow> Inl reason | None \<Rightarrow> require active (Tool ''tool_cancelled''))"

text \<open>The guard around the boundary of the caller. The call is checked on entry, before the execution and after it; the last
  component says whether the effect was executed.\<close>

definition guarded_effect ::
  "tool_error option \<times> bool \<Rightarrow> tool_error option \<times> bool \<Rightarrow> tool_error option \<times> bool \<Rightarrow> string \<Rightarrow> string \<Rightarrow> (tool_error, js) result \<Rightarrow>
   effect_records \<Rightarrow> effect_records \<times> (tool_error, js) result \<times> bool" where
  "guarded_effect entry before after key fp effect recs =
     (case assertActiveEffectBoundary (fst entry) (snd entry) of
        Inl e \<Rightarrow> (recs, Inl e, False)
      | Inr _ \<Rightarrow>
          (let guard = assertActiveEffectBoundary (fst before) (snd before);
               guarded = bind_res guard (\<lambda>_. bind_res effect (\<lambda>output. bind_res (assertActiveEffectBoundary (fst after) (snd after)) (\<lambda>_. Inr output)))
           in case effect_call key fp guarded recs of (recs', r, run) \<Rightarrow> (recs', r, run \<and> guard = Inr ())))"

definition write_handler :: "runtime \<Rightarrow> surroundings \<Rightarrow> effect_records \<Rightarrow> handler_call \<Rightarrow> effect_records \<times> outcome" where
  "write_handler rt sr recs hc =
     (let written = bind_res (writeText rt (hc_files hc) (sr_disk sr) (sr_disk' sr) (sr_active sr) (sr_active' sr) (get (hc_input hc) ''path'') (get (hc_input hc) ''content''))
            (\<lambda>(_, r). Inr (file_summary r))
      in case guarded_effect (None, sr_active sr) (None, sr_active sr) (None, sr_active' sr) (text_of (hc_idempotencyKey hc)) (hc_operationFingerprint hc) written recs of
           (recs', r, _) \<Rightarrow> (recs', outcome_of r))"

section \<open>Registration\<close>

definition legacyManifestToReviewed :: "engine \<Rightarrow> js \<Rightarrow> (tool_error, js) result" where
  "legacyManifestToReviewed eg manifest =
     (let rt = eg_runtime eg; version = orelse (get manifest ''version'') (Str ''0.1.0''); open = Obj [(''type'', Str ''object''), (''additionalProperties'', Bool True)];
          readOnly = get manifest ''riskClass'' = Str ''read-only'' in
      bind_res (require (truthy (get manifest ''id'')) Uncoded) (\<lambda>_.
      validateReviewedToolManifest eg (Obj [(''schemaVersion'', Str ''1.1.0''), (''contractVersion'', Str ''1.0.0''), (''id'', get manifest ''id''),
        (''name'', orelse (get manifest ''name'') (get manifest ''id'')), (''version'', version),
        (''handlerBindingId'', Str (''handler:compat:'' @ js_to_string rt (get manifest ''id'') @ ''@'' @ js_to_string rt version)),
        (''operations'', Obj [(''invoke'', Obj [(''sideEffectClass'', orelse (get manifest ''riskClass'') (Str ''read-only'')),
          (''inputSchema'', orelse (get manifest ''inputSchema'') open), (''outputSchema'', orelse (get manifest ''outputSchema'') open),
          (''filesystem'', orelse (get (get manifest ''permissions'') ''filesystem'') (Obj [(''read'', Arr []), (''write'', Arr [])])), (''network'', Arr []),
          (''secretReferences'', orelse (get (get manifest ''permissions'') ''secrets'') (Arr [])), (''dataClasses'', Arr [Str ''workspace-private'']),
          (''sandbox'', Str (if readOnly then ''pure-local'' else ''brokered-filesystem-write'')),
          (''limits'', Obj [(''runtimeMs'', orelse (get manifest ''timeoutMs'') DEFAULT_RUNTIME_MS), (''inputBytes'', DEFAULT_INPUT_BYTES),
             (''outputBytes'', orelse (get manifest ''outputLimitBytes'') (Num 65536)), (''costUnits'', Num 0)]),
          (''approval'', Obj [(''required'', Bool (get (get manifest ''approval'') ''required'' = Bool True))]), (''idempotency'', Obj [(''required'', Bool (\<not> readOnly))])])])])))"

text \<open>\<open>register\<close>: the handler, when it is a function, is called with the input only.\<close>

definition register :: "engine \<Rightarrow> js \<Rightarrow> (js \<Rightarrow> outcome) option \<Rightarrow> registry \<Rightarrow> (tool_error, registry) result" where
  "register eg manifest handler rg =
     bind_res (require (\<not> nullish manifest) Uncoded) (\<lambda>_.
     bind_res (if get manifest ''schemaVersion'' = Str ''1.1.0'' then validateReviewedToolManifest eg manifest else legacyManifestToReviewed eg manifest) (\<lambda>reviewed.
     case handler of
       None \<Rightarrow> Inl Uncoded
     | Some f \<Rightarrow>
         bind_res (require (\<not> list_ex (\<lambda>(k, _). strict_eq k (get reviewed ''id'')) (rg_tools rg)) Uncoded) (\<lambda>_.
           Inr (rg\<lparr>rg_handlers := (rg_handlers rg)(get reviewed ''handlerBindingId'' \<mapsto> (\<lambda>hc. f (hc_input hc))),
             rg_tools := rg_tools rg @ [registered_tool eg ''compat'' reviewed]\<rparr>))))"

text \<open>The constructor, with the tools of a catalog: a tool of the same identifier takes the place of an earlier one.\<close>

fun put_tool :: "(js \<times> tool) list \<Rightarrow> js \<times> tool \<Rightarrow> (js \<times> tool) list" where
  "put_tool [] t = [t]"
| "put_tool (t' # ts) t = (if strict_eq (fst t') (fst t) then t # ts else t' # put_tool ts t)"

definition create_registry :: "js \<Rightarrow> (js \<Rightarrow> bool) option \<Rightarrow> sink option \<Rightarrow> string \<Rightarrow> (js \<Rightarrow> handler option) \<Rightarrow> (js \<times> handler) list \<Rightarrow> tool list \<Rightarrow> registry" where
  "create_registry policyRegistry auditSink eventSink workspaceRoot defaults handlers tools =
     \<lparr>rg_tools = foldl put_tool [] (map (\<lambda>t. (get (t_manifest t) ''id'', t)) tools), rg_handlers = defaults ++ map_of (rev handlers), rg_policyRegistry = policyRegistry,
       rg_auditSink = auditSink, rg_eventSink = eventSink, rg_workspaceRoot = workspaceRoot\<rparr>"

definition list_tools :: "registry \<Rightarrow> js list" where
  "list_tools rg = map (\<lambda>(_, t). Obj [(''id'', get (t_manifest t) ''id''), (''name'', get (t_manifest t) ''name''), (''version'', get (t_manifest t) ''version''),
     (''enabled'', Bool (t_enabled t)), (''manifestFingerprint'', Str (t_manifestFingerprint t)),
     (''operations'', Arr (map Str (keys (get (t_manifest t) ''operations''))))]) (rg_tools rg)"

section \<open>The shorthand\<close>

definition invoke_request :: "string \<Rightarrow> js \<Rightarrow> js" where
  "invoke_request now request =
     (let trusted = (if get request ''trustedContext'' = Undef then Null else get request ''trustedContext''); d = (\<lambda>k v. orelse (get request k) v) in
      Obj [(''schemaVersion'', Str ''1.0.0''), (''requestId'', d ''requestId'' (Str ''toolreq_compat'')), (''correlationId'', d ''correlationId'' (Str ''req_tool-registry-compat'')),
        (''workspaceId'', d ''workspaceId'' (orelse (get (get trusted ''membership'') ''workspaceId'') (Str ''ws_local''))), (''runId'', d ''runId'' (Str ''run_tool_registry_compat'')),
        (''stepId'', d ''stepId'' (Str ''step_tool_registry_compat'')), (''actorId'', get request ''actorId''), (''trustedContext'', trusted), (''toolId'', get request ''toolId''),
        (''toolVersion'', d ''toolVersion'' (Str ''0.1.0'')), (''operation'', d ''operation'' (Str ''invoke'')), (''input'', d ''input'' (Obj [])),
        (''requestedCapability'', d ''capabilityRequest'' Null), (''dataClass'', d ''dataClass'' (Str ''workspace-private'')), (''approvalContext'', d ''approvalContext'' Null),
        (''idempotencyKey'', d ''idempotencyKey'' Null), (''trustedTimestamp'', d ''trustedTimestamp'' (Str now)), (''signal'', d ''signal'' Null)])"

definition invoke_tool :: "engine \<Rightarrow> registry \<Rightarrow> call_env \<Rightarrow> grants \<Rightarrow> string \<Rightarrow> js \<Rightarrow> exec_state \<times> tool_result" where
  "invoke_tool eg rg env gs now request = execute eg rg env gs (invoke_request now request)"

section \<open>Registries hold reviewed tools\<close>

fun register_all :: "engine \<Rightarrow> (js \<times> (js \<Rightarrow> outcome) option) list \<Rightarrow> registry \<Rightarrow> (tool_error, registry) result" where
  "register_all eg [] rg = Inr rg"
| "register_all eg ((m, h) # ms) rg = bind_res (register eg m h rg) (register_all eg ms)"

definition reviewed :: "engine \<Rightarrow> tool \<Rightarrow> bool" where
  "reviewed eg t \<longleftrightarrow> validateReviewedToolManifest eg (t_manifest t) = Inr (t_manifest t) \<and>
     t_manifestFingerprint t = stableToolFingerprint (eg_runtime eg) (t_manifest t)"

definition reviewed_registry :: "engine \<Rightarrow> registry \<Rightarrow> bool" where
  "reviewed_registry eg rg \<longleftrightarrow> (\<forall>(k, t) \<in> set (rg_tools rg). k = get (t_manifest t) ''id'' \<and> reviewed eg t) \<and> distinct (filter is_str (map fst (rg_tools rg)))"

lemma is_str_strict: "is_str v \<Longrightarrow> strict_eq k v \<longleftrightarrow> k = v"
  by (cases v) auto

lemma reviewed_result: "validateReviewedToolManifest eg m = Inr v \<Longrightarrow> validateReviewedToolManifest eg v = Inr v"
  using validated_manifest [of eg m v] by simp

lemma legacy_result: "legacyManifestToReviewed eg m = Inr v \<Longrightarrow> validateReviewedToolManifest eg v = Inr v"
  unfolding legacyManifestToReviewed_def Let_def bind_res_eq_Inr using reviewed_result by blast

lemma register_reviewed: "register eg m h rg = Inr rg' \<Longrightarrow> reviewed_registry eg rg \<Longrightarrow> reviewed_registry eg rg'"
proof -
  assume r: "register eg m h rg = Inr rg'" and rg: "reviewed_registry eg rg"
  obtain v f where m: "(if get m ''schemaVersion'' = Str ''1.1.0'' then validateReviewedToolManifest eg m else legacyManifestToReviewed eg m) = Inr v"
      and new: "\<not> list_ex (\<lambda>(k, _). strict_eq k (get v ''id'')) (rg_tools rg)"
      and tools: "rg_tools rg' = rg_tools rg @ [registered_tool eg ''compat'' v]"
    using r unfolding register_def bind_res_eq_Inr by (auto simp: bind_res_eq_Inr split: option.splits)
  have v: "validateReviewedToolManifest eg v = Inr v" using m reviewed_result legacy_result by (auto split: if_splits)
  have "get v ''id'' \<notin> set (filter is_str (map fst (rg_tools rg)))"
    using new by (auto simp: list_ex_iff is_str_strict split: prod.splits)
  then show "reviewed_registry eg rg'"
    using rg v unfolding reviewed_registry_def tools by (auto simp: registered_tool_def reviewed_def)
qed

lemma register_all_reviewed: "register_all eg ms rg = Inr rg' \<Longrightarrow> reviewed_registry eg rg \<Longrightarrow> reviewed_registry eg rg'"
  by (induction eg ms rg rule: register_all.induct) (auto simp: bind_res_eq_Inr dest: register_reviewed)

lemma put_tool_fst: "filter is_str (map fst (put_tool ts t)) =
    (if is_str (fst t) \<and> fst t \<notin> set (map fst ts) then filter is_str (map fst ts) @ [fst t] else filter is_str (map fst ts))"
  by (induction ts t rule: put_tool.induct) (auto simp: is_str_strict dest: strict_eqD)

lemma set_put_tool: "set (put_tool ts t) \<subseteq> insert t (set ts)"
  by (induction ts t rule: put_tool.induct) auto

lemma fold_put_tool:
  "distinct (filter is_str (map fst ts)) \<Longrightarrow> distinct (filter is_str (map fst (foldl put_tool ts us))) \<and> set (foldl put_tool ts us) \<subseteq> set ts \<union> set us"
proof (induction us arbitrary: ts)
  case (Cons u us)
  have "distinct (filter is_str (map fst (put_tool ts u)))" using Cons.prems by (auto simp: put_tool_fst)
  from Cons.IH [OF this] show ?case using set_put_tool [of ts u] by auto
qed simp

lemma load_entries_reviewed: "load_entries eg fs limits r sn es = Inr ts \<Longrightarrow> t \<in> set ts \<Longrightarrow> reviewed eg t"
proof -
  assume l: "load_entries eg fs limits r sn es = Inr ts" and t: "t \<in> set ts"
  obtain e where "load_entry eg fs limits r e = Inr t"
    using list_all2_in2 [OF conjunct1 [OF load_entries_ok [OF l]] t] by blast
  then show "reviewed eg t" unfolding reviewed_def using load_entry_ok by blast
qed

lemma catalog_registry:
  assumes "loadReviewedToolCatalog eg fs limits cwd catalogPath manifestRoot = Inr ts"
  shows "reviewed_registry eg (create_registry reg aud snk wr defaults handlers ts)"
proof -
  let ?us = "map (\<lambda>t. (get (t_manifest t) ''id'', t)) ts"
  have "\<forall>t \<in> set ts. reviewed eg t"
    using assms by (auto simp: loadReviewedToolCatalog_def Let_def bind_res_eq_Inr dest: load_entries_reviewed)
  then show ?thesis using fold_put_tool [of "[]" ?us] by (fastforce simp: reviewed_registry_def create_registry_def)
qed

lemma found_tool: "find_tool rg i = Some t \<Longrightarrow> reviewed_registry eg rg \<Longrightarrow> reviewed eg t \<and> get (t_manifest t) ''id'' = i"
  by (auto simp: find_tool_def reviewed_registry_def dest!: find_SomeD)

section \<open>Properties\<close>

text \<open>C3: only reviewed tools run. In a registry made from a loaded catalog and any registrations after it, a call reaches a
  handler only of an enabled tool whose manifest passes the review checks, has the requested identifier and version, and
  whose fingerprint is the one the request names when it names one; the manifest declares the requested operation, and the
  handler that is called is the one registered for the binding of that operation, or of the manifest when the operation
  names none.\<close>

theorem only_reviewed_tools_run:
  assumes "loadReviewedToolCatalog eg fs limits cwd catalogPath manifestRoot = Inr ts"
    and "register_all eg ms (create_registry reg aud snk wr defaults handlers ts) = Inr rg"
    and "Called bid hc \<in> set (x_trace (fst (execute eg rg env gs request)))"
  shows "\<exists>t name operation. t \<in> snd ` set (rg_tools rg) \<and> t_enabled t \<and> validateReviewedToolManifest eg (t_manifest t) = Inr (t_manifest t) \<and>
    get (t_manifest t) ''id'' = get request ''toolId'' \<and> get (t_manifest t) ''version'' = get request ''toolVersion'' \<and>
    t_manifestFingerprint t = stableToolFingerprint (eg_runtime eg) (t_manifest t) \<and>
    (truthy (get request ''manifestFingerprint'') \<longrightarrow> get request ''manifestFingerprint'' = Str (stableToolFingerprint (eg_runtime eg) (t_manifest t))) \<and>
    get request ''operation'' = Str name \<and> (name, operation) \<in> set (own_entries (get (t_manifest t) ''operations'')) \<and>
    bid = orelse (get operation ''handlerBindingId'') (get (t_manifest t) ''handlerBindingId'') \<and> rg_handlers rg bid \<noteq> None"
proof -
  have rg: "reviewed_registry eg rg" using register_all_reviewed [OF assms(2)] catalog_registry [OF assms(1)] by blast
  obtain pr d g handle x where r: "reaches_handler eg rg env gs request pr d g handle x" "bid = binding_id pr" using calls_handler_member [OF assms(3)] by metis
  then have c: "checked eg rg request pr" unfolding reaches_handler_def using prepare_ok by blast
  have h: "rg_handlers rg bid \<noteq> None" using r unfolding reaches_handler_def by auto
  let ?t = "pr_tool pr"
  have f: "find_tool rg (get request ''toolId'') = Some ?t" using c by (simp add: checked_def)
  then have "?t \<in> snd ` set (rg_tools rg)" by (force simp: find_tool_def dest: find_SomeD)
  moreover have "(pr_name pr, pr_operation pr) \<in> set (own_entries (get (t_manifest ?t) ''operations''))"
    using c by (auto simp: checked_def lookup_operation_def property_slot_def dest: map_of_SomeD split: option.splits if_splits)
  ultimately show ?thesis
    using found_tool [OF f rg] c h r(2) by (intro exI [of _ ?t] exI [of _ "pr_name pr"] exI [of _ "pr_operation pr"]) (auto simp: checked_def reviewed_def binding_id_def)
qed

text \<open>The shorthand never writes. It passes no effect boundary on, so a call through \<open>invoke\<close> reaches a handler only for an
  operation that is declared read-only; a registered tool with any other side effects cannot be used through it.\<close>

theorem invoke_only_reads:
  assumes "Called bid hc \<in> set (x_trace (fst (invoke_tool eg rg env gs now request)))"
  shows "\<exists>pr. checked eg rg (invoke_request now request) pr \<and> get (pr_operation pr) ''sideEffectClass'' = Str ''read-only'' \<and> bid = binding_id pr"
proof -
  obtain pr d g handle x where r: "reaches_handler eg rg env gs (invoke_request now request) pr d g handle x" "bid = binding_id pr"
    using calls_handler_member [OF assms [unfolded invoke_tool_def]] by metis
  then have c: "checked eg rg (invoke_request now request) pr" and a: "authorized eg (invoke_request now request) pr d g"
    unfolding reaches_handler_def using prepare_ok authorize_ok by blast+
  have "get (invoke_request now request) ''effectBoundary'' = Undef" by (simp add: invoke_request_def Let_def)
  then have "get (pr_operation pr) ''sideEffectClass'' = Str ''read-only''" using a by (auto simp: authorized_def)
  then show ?thesis using c r(2) by blast
qed

text \<open>An effect that ends too late is executed again. When a call stops being active while its effect is executed, the effect
  has happened but the boundary records nothing, and the next call with the same key and fingerprint executes it
  once more.\<close>

theorem late_effect_runs_again:
  assumes "key \<noteq> []" and "fp \<noteq> []" and "recs key = None"
  shows "guarded_effect (None, True) (None, True) (aborted, False) key fp (Inr output) recs =
      (recs, Inl (case aborted of None \<Rightarrow> Tool ''tool_cancelled'' | Some reason \<Rightarrow> reason), True) \<and>
    guarded_effect (None, True) (None, True) (None, True) key fp (Inr again) recs = (recs(key \<mapsto> (fp, safeClone again)), Inr (tagged again False), True)"
  using assms by (auto simp: guarded_effect_def assertActiveEffectBoundary_def require_def effect_call_def effect_begin_def effect_end_def split: option.splits)

theorem late_effect_runs_again_witness:
  "guarded_effect (None, True) (None, True) (Some (Tool ''tool_timeout''), False) ''k'' ''f'' (Inr (Obj [])) Map.empty = (Map.empty, Inl (Tool ''tool_timeout''), True)"
  using late_effect_runs_again [of "''k''" "''f''" Map.empty "Some (Tool ''tool_timeout'')" "Obj []" "Obj []"] by simp

text \<open>The five built-in tools pass the review checks.\<close>

lemma builtin_manifests_valid:
  "\<not> isl (pure_tool tool_engine)" "\<not> isl (read_tool tool_engine)" "\<not> isl (write_tool tool_engine)" "\<not> isl (loopback_tool tool_engine (Num 4310))"
  "\<not> isl (secret_tool tool_engine)"
  by code_simp+

lemma builtin_tools_reviewed: "\<exists>ts. builtinTools tool_engine (Num 4310) = Inr ts \<and> length ts = 5"
proof -
  obtain a b c d e where "pure_tool tool_engine = Inr a" "read_tool tool_engine = Inr b" "write_tool tool_engine = Inr c" "loopback_tool tool_engine (Num 4310) = Inr d"
      "secret_tool tool_engine = Inr e"
    using builtin_manifests_valid unfolding isl_def by (metis sumE)
  then show ?thesis by (simp add: builtinTools_def)
qed


lemma sample_registry: "register_all tool_engine [] (create_registry POLICY_REGISTRY None None ''/w'' Map.empty [(Str ''handler:echo'', echo_handler)] [echo_tool_of (stableToolFingerprint tool_runtime echo_manifest)]) =
    Inr (sample_tools echo_manifest)"
proof -
  have "get echo_manifest ''id'' = Str ''tool:echo''" by (simp add: echo_manifest_def)
  then show ?thesis
    by (auto simp: create_registry_def sample_tools_def sample_tool_def echo_tool_of_def stableToolFingerprint_def tool_runtime_def map_add_def)
qed

text \<open>A request that names the fingerprint of the manifest it expects.\<close>

definition pinned_request :: js where
  "pinned_request = Obj (sample_fields @ [(''manifestFingerprint'', Str (''sha256:'' @ replicate 64 CHR ''a''))])"

lemma pinned_call_completes:
  "\<exists>y result hc. execute tool_engine (sample_tools echo_manifest) sample_env Map.empty pinned_request = (y, Completed result) \<and> Called (Str ''handler:echo'') hc \<in> set (x_trace y)"
proof (rule sample_call_completes)
  show "call_prepared echo_manifest pinned_request" by code_simp
  show "call_allowed echo_manifest pinned_request" by code_simp
  show "call_runs echo_manifest pinned_request" by code_simp
qed

theorem only_reviewed_tools_run_witness:
  "\<exists>y result t operation. execute tool_engine (sample_tools echo_manifest) sample_env Map.empty pinned_request = (y, Completed result) \<and>
     t \<in> snd ` set (rg_tools (sample_tools echo_manifest)) \<and> validateReviewedToolManifest tool_engine (t_manifest t) = Inr (t_manifest t) \<and>
     get (t_manifest t) ''id'' = Str ''tool:echo'' \<and> get pinned_request ''manifestFingerprint'' = Str (stableToolFingerprint tool_runtime (t_manifest t)) \<and>
     (''echo'', operation) \<in> set (own_entries (get (t_manifest t) ''operations'')) \<and>
     Str ''handler:echo'' = orelse (get operation ''handlerBindingId'') (get (t_manifest t) ''handlerBindingId'')"
proof -
  obtain y result hc where e: "execute tool_engine (sample_tools echo_manifest) sample_env Map.empty pinned_request = (y, Completed result)"
      "Called (Str ''handler:echo'') hc \<in> set (x_trace y)" using pinned_call_completes by blast
  then have c: "Called (Str ''handler:echo'') hc \<in> set (x_trace (fst (execute tool_engine (sample_tools echo_manifest) sample_env Map.empty pinned_request)))" by simp
  have q: "get pinned_request ''toolId'' = Str ''tool:echo''" "truthy (get pinned_request ''manifestFingerprint'')" "get pinned_request ''operation'' = Str ''echo''" "eg_runtime tool_engine = tool_runtime"
    by (simp_all add: pinned_request_def sample_fields_def tool_engine_def)
  obtain t name operation where t: "t \<in> snd ` set (rg_tools (sample_tools echo_manifest))" "validateReviewedToolManifest tool_engine (t_manifest t) = Inr (t_manifest t)"
      "get (t_manifest t) ''id'' = get pinned_request ''toolId''"
      "truthy (get pinned_request ''manifestFingerprint'') \<longrightarrow> get pinned_request ''manifestFingerprint'' = Str (stableToolFingerprint (eg_runtime tool_engine) (t_manifest t))"
      "get pinned_request ''operation'' = Str name" "(name, operation) \<in> set (own_entries (get (t_manifest t) ''operations''))"
      "Str ''handler:echo'' = orelse (get operation ''handlerBindingId'') (get (t_manifest t) ''handlerBindingId'')"
    by (rule exE [OF only_reviewed_tools_run [OF sample_catalog_loads sample_registry c]]) (elim exE conjE, rule that)
  have name: "name = ''echo''" using t(5) unfolding q(3) by (rule js.inject(3) [THEN iffD1, THEN sym])
  have fp: "get pinned_request ''manifestFingerprint'' = Str (stableToolFingerprint tool_runtime (t_manifest t))" using t(4) q(2) unfolding q(4) by (rule mp)
  show ?thesis
    by (rule exI [of _ y], rule exI [of _ result], rule exI [of _ t], rule exI [of _ operation], intro conjI)
      (rule e(1), rule t(1), rule t(2), rule t(3) [unfolded q(1)], rule fp, rule t(6) [unfolded name], rule t(7))
qed

definition short_request :: js where
  "short_request = Obj [(''workspaceId'', Str ''w''), (''actorId'', Str ''u''), (''toolId'', Str ''tool:echo''), (''toolVersion'', Str ''1.0.0''), (''operation'', Str ''echo''),
     (''input'', Obj [(''value'', Str ''hi'')]), (''trustedContext'', get echo_request ''trustedContext'')]"

theorem invoke_only_reads_witness:
  "\<exists>y result hc pr. invoke_tool tool_engine (sample_tools echo_manifest) sample_env Map.empty ''1'' short_request = (y, Completed result) \<and>
     Called (Str ''handler:echo'') hc \<in> set (x_trace y) \<and> get (pr_operation pr) ''sideEffectClass'' = Str ''read-only'' \<and> Str ''handler:echo'' = binding_id pr"
proof -
  have "\<exists>y result hc. execute tool_engine (sample_tools echo_manifest) sample_env Map.empty (invoke_request ''1'' short_request) = (y, Completed result) \<and>
      Called (Str ''handler:echo'') hc \<in> set (x_trace y)"
  proof (rule sample_call_completes)
    show "call_prepared echo_manifest (invoke_request ''1'' short_request)" by code_simp
    show "call_allowed echo_manifest (invoke_request ''1'' short_request)" by code_simp
    show "call_runs echo_manifest (invoke_request ''1'' short_request)" by code_simp
  qed
  then obtain y result hc where e: "invoke_tool tool_engine (sample_tools echo_manifest) sample_env Map.empty ''1'' short_request = (y, Completed result)"
      "Called (Str ''handler:echo'') hc \<in> set (x_trace y)" unfolding invoke_tool_def by blast
  then have c: "Called (Str ''handler:echo'') hc \<in> set (x_trace (fst (invoke_tool tool_engine (sample_tools echo_manifest) sample_env Map.empty ''1'' short_request)))" by simp
  from invoke_only_reads [OF c] e show ?thesis by blast
qed

end
