(* ===== verification/Identity.thy ===== *)
theory Identity
  imports JsDyn Splitting "HOL-Library.Sublist"
begin

text \<open>
  providers/native/identity-local: the local identity store. Its file holds one state, which
  every update reads, changes and replaces as a whole, one update after the other; an update
  that throws leaves it as it was. One reading of the clock stands for the readings of a call.
  Fresh identifiers, random bytes, scrypt and base64 are arguments.
\<close>

section \<open>State\<close>

datatype identity_error = IdentityError string | Thrown string

record user =
  us_id :: string
  us_username :: string
  us_usernameKey :: string
  us_displayName :: string
  us_status :: js
  us_credential :: string
  us_createdAt :: string
  us_updatedAt :: string

record workspace =
  wk_id :: string
  wk_name :: js
  wk_createdAt :: string

record membership =
  mb_id :: string
  mb_userId :: string
  mb_workspaceId :: string
  mb_role :: string
  mb_status :: js
  mb_createdAt :: string
  mb_updatedAt :: string

record session =
  se_id :: string
  se_userId :: string
  se_tokenHash :: string
  se_csrfHash :: string
  se_remoteAddressHash :: "string option"
  se_userAgentHash :: "string option"
  se_createdAt :: string
  se_expiresAt :: string
  se_revokedAt :: "string option"

record api_token =
  tk_id :: string
  tk_userId :: string
  tk_name :: string
  tk_tokenHash :: string
  tk_tokenPrefix :: string
  tk_workspaceIds :: "string list"
  tk_scopes :: "string list"
  tk_createdAt :: string
  tk_expiresAt :: js
  tk_revokedAt :: "string option"

record audit_event =
  au_id :: string
  au_type :: js
  au_actorUserId :: js
  au_targetUserId :: js
  au_workspaceId :: js
  au_outcome :: js
  au_occurredAt :: string
  au_correlationId :: js
  au_metadata :: "(string \<times> js) list"

record identity_state =
  is_users :: "user list"
  is_workspaces :: "workspace list"
  is_memberships :: "membership list"
  is_sessions :: "session list"
  is_apiTokens :: "api_token list"
  is_auditEvents :: "audit_event list"

definition initialState :: identity_state where
  "initialState = \<lparr>is_users = [], is_workspaces = [], is_memberships = [], is_sessions = [], is_apiTokens = [], is_auditEvents = []\<rparr>"

section \<open>Validation\<close>

definition ident_char :: "char \<Rightarrow> bool" where
  "ident_char c \<longleftrightarrow> is_alnum c \<or> c \<in> {CHR ''.'', CHR ''_'', CHR '':'', CHR ''-''}"

definition lower_char :: "char \<Rightarrow> char" where
  "lower_char c = (if is_upper c then char_of ((of_char c :: nat) + 32) else c)"

definition USERNAME_PATTERN :: "string \<Rightarrow> bool" where
  "USERNAME_PATTERN s \<longleftrightarrow> 1 \<le> length s \<and> length s \<le> 80 \<and> list_all ident_char s"

definition WORKSPACE_PATTERN :: "string \<Rightarrow> bool" where
  "WORKSPACE_PATTERN s \<longleftrightarrow> starts_with ''ws_'' s \<and> 1 \<le> length (drop 3 s) \<and> length (drop 3 s) \<le> 120 \<and> list_all ident_char (drop 3 s)"

definition ROLE_VALUES :: "string list" where
  "ROLE_VALUES = [''owner'', ''builder'', ''operator'', ''auditor'']"

definition text_where :: "(string \<Rightarrow> bool) \<Rightarrow> js \<Rightarrow> identity_error \<Rightarrow> (identity_error, string) result" where
  "text_where P v e = (case v of Str s \<Rightarrow> if P s then Inr s else Inl e | _ \<Rightarrow> Inl e)"

definition normalizeUsername :: "js \<Rightarrow> (identity_error, string) result" where
  "normalizeUsername v = bind_res (text_where USERNAME_PATTERN v (IdentityError ''invalid_username'')) (\<lambda>s. Inr (map lower_char s))"

definition assertWorkspaceId :: "js \<Rightarrow> (identity_error, string) result" where
  "assertWorkspaceId v = text_where WORKSPACE_PATTERN v (IdentityError ''invalid_workspace'')"

definition assertDisplayName :: "js \<Rightarrow> (identity_error, string) result" where
  "assertDisplayName v = text_where (\<lambda>s. 1 \<le> length s \<and> length s \<le> 120) v (IdentityError ''invalid_display_name'')"

definition assertPasswordPolicy :: "js \<Rightarrow> (identity_error, string) result" where
  "assertPasswordPolicy v = (case v of
     Str s \<Rightarrow>
       if CHR 0x00 \<in> set s then Inl (Thrown ''password cannot contain null bytes'')
       else if length s < 12 then Inl (Thrown ''password must be at least 12 characters'')
       else if 256 < length s then Inl (Thrown ''password must be at most 256 UTF-8 bytes'')
       else Inr s
   | _ \<Rightarrow> Inl (Thrown ''password must be a string''))"

section \<open>Passwords\<close>

record scrypt_options =
  so_N :: int
  so_r :: int
  so_p :: int
  so_keyLength :: int

text \<open>\<open>Number(input.k ?? d)\<close> that is an integer; the power-of-two test works on 32 bits. The subtraction is exact, as it is in the code up to 2 to the 53.\<close>

definition js_integer :: "runtime \<Rightarrow> js \<Rightarrow> int option" where
  "js_integer rt v = (case to_number rt v of Some n \<Rightarrow> if n = of_int \<lfloor>n\<rfloor> then Some \<lfloor>n\<rfloor> else None | None \<Rightarrow> None)"

definition scryptOptions :: "runtime \<Rightarrow> js \<Rightarrow> (identity_error, scrypt_options) result" where
  "scryptOptions rt input =
     (let field = (\<lambda>k d. js_integer rt (orelse (get input k) (Num d))) in
      case field ''N'' 32768 of
        None \<Rightarrow> Inl (Thrown ''scrypt.N must be a power of two >= 1024'')
      | Some n \<Rightarrow>
          if n < 1024 \<or> and (n mod 2 ^ 32) ((n - 1) mod 2 ^ 32) \<noteq> 0 then Inl (Thrown ''scrypt.N must be a power of two >= 1024'')
          else (case (field ''r'' 8, field ''p'' 1, field ''keyLength'' 32) of
              (Some r, Some p, Some k) \<Rightarrow>
                if r < 1 \<or> p < 1 \<or> k < 16 then Inl (Thrown ''invalid scrypt parameters'')
                else Inr \<lparr>so_N = n, so_r = r, so_p = p, so_keyLength = k\<rparr>
            | _ \<Rightarrow> Inl (Thrown ''invalid scrypt parameters'')))"

text \<open>scrypt of a password, a salt and the three costs to a key of the given length, or an exception; base64url.\<close>

record crypto =
  cr_scrypt :: "string \<Rightarrow> string \<Rightarrow> rat option \<Rightarrow> rat option \<Rightarrow> rat option \<Rightarrow> nat \<Rightarrow> string option"
  cr_encode :: "string \<Rightarrow> string"
  cr_decode :: "string \<Rightarrow> string"

definition run_scrypt :: "crypto \<Rightarrow> string \<Rightarrow> string \<Rightarrow> rat option \<Rightarrow> rat option \<Rightarrow> rat option \<Rightarrow> nat \<Rightarrow> (identity_error, string) result" where
  "run_scrypt cr password salt n r p len = (case cr_scrypt cr password salt n r p len of None \<Rightarrow> Inl (Thrown ''scrypt'') | Some key \<Rightarrow> Inr key)"

definition hashPassword :: "runtime \<Rightarrow> crypto \<Rightarrow> scrypt_options \<Rightarrow> string \<Rightarrow> js \<Rightarrow> (identity_error, string) result" where
  "hashPassword rt cr options salt password =
     bind_res (assertPasswordPolicy password) (\<lambda>pw.
     bind_res (run_scrypt cr pw salt (Some (of_int (so_N options))) (Some (of_int (so_r options))) (Some (of_int (so_p options))) (nat (so_keyLength options))) (\<lambda>key.
       Inr (join ''$'' [''scrypt'', ''v1'', num_str rt (of_int (so_N options)), num_str rt (of_int (so_r options)), num_str rt (of_int (so_p options)),
          cr_encode cr salt, cr_encode cr key])))"

record credential =
  cd_N :: "rat option"
  cd_r :: "rat option"
  cd_p :: "rat option"
  cd_salt :: string
  cd_key :: string

definition parseCredential :: "crypto \<Rightarrow> string \<Rightarrow> (identity_error, credential) result" where
  "parseCredential cr v = (case split_at (CHR ''$'') v of
     [a, b, n, r, p, salt, key] \<Rightarrow>
       if a = ''scrypt'' \<and> b = ''v1'' then Inr \<lparr>cd_N = str_number n, cd_r = str_number r, cd_p = str_number p, cd_salt = cr_decode cr salt, cd_key = cr_decode cr key\<rparr>
       else Inl (IdentityError ''invalid_credential'')
   | _ \<Rightarrow> Inl (IdentityError ''invalid_credential''))"

definition verifyCredential :: "crypto \<Rightarrow> js \<Rightarrow> string \<Rightarrow> (identity_error, bool) result" where
  "verifyCredential cr password v =
     bind_res (assertPasswordPolicy password) (\<lambda>pw.
     bind_res (parseCredential cr v) (\<lambda>c.
     bind_res (run_scrypt cr pw (cd_salt c) (cd_N c) (cd_r c) (cd_p c) (length (cd_key c))) (\<lambda>key.
       Inr (length key = length (cd_key c) \<and> key = cd_key c))))"

section \<open>Views and the audit trail\<close>

text \<open>What callers see of a session or token: everything but the hashes.\<close>

definition safeSession :: "session \<Rightarrow> js" where
  "safeSession s = Obj [(''id'', Str (se_id s)), (''userId'', Str (se_userId s)), (''createdAt'', Str (se_createdAt s)), (''expiresAt'', Str (se_expiresAt s)),
     (''revokedAt'', case se_revokedAt s of None \<Rightarrow> Null | Some t \<Rightarrow> Str t)]"

definition safeApiToken :: "api_token \<Rightarrow> js" where
  "safeApiToken t = Obj [(''id'', Str (tk_id t)), (''userId'', Str (tk_userId t)), (''name'', Str (tk_name t)), (''tokenPrefix'', Str (tk_tokenPrefix t)),
     (''workspaceIds'', Arr (map Str (tk_workspaceIds t))), (''scopes'', Arr (map Str (tk_scopes t))), (''createdAt'', Str (tk_createdAt t)),
     (''expiresAt'', orelse (tk_expiresAt t) Null), (''revokedAt'', case tk_revokedAt t of None \<Rightarrow> Null | Some r \<Rightarrow> Str r)]"

definition safeUser :: "user \<Rightarrow> js" where
  "safeUser u = Obj [(''id'', Str (us_id u)), (''username'', Str (us_username u)), (''displayName'', Str (us_displayName u)), (''status'', us_status u),
     (''createdAt'', Str (us_createdAt u)), (''updatedAt'', Str (us_updatedAt u))]"

definition safeWorkspace :: "workspace \<Rightarrow> js" where
  "safeWorkspace w = Obj [(''id'', Str (wk_id w)), (''name'', wk_name w), (''createdAt'', Str (wk_createdAt w))]"

definition safeMembership :: "membership \<Rightarrow> js" where
  "safeMembership m = Obj [(''id'', Str (mb_id m)), (''userId'', Str (mb_userId m)), (''workspaceId'', Str (mb_workspaceId m)), (''role'', Str (mb_role m)),
     (''status'', mb_status m), (''createdAt'', Str (mb_createdAt m)), (''updatedAt'', Str (mb_updatedAt m))]"

text \<open>\<open>/password|secret|.../i.test(key)\<close>\<close>

definition blocked_key :: "string \<Rightarrow> bool" where
  "blocked_key k \<longleftrightarrow> list_ex (\<lambda>w. some_suffix (starts_with w) (map lower_char k))
     [''password'', ''secret'', ''token'', ''cookie'', ''credential'', ''hash'', ''salt'', ''csrf'']"

definition metadata_value :: "js \<Rightarrow> js option" where
  "metadata_value v = (case v of Str s \<Rightarrow> Some (Str (take 240 s)) | Num n \<Rightarrow> Some v | Bool b \<Rightarrow> Some v | Null \<Rightarrow> Some Null | _ \<Rightarrow> None)"

definition sanitizeAuditMetadata :: "js \<Rightarrow> (string \<times> js) list" where
  "sanitizeAuditMetadata metadata =
     concat (map (\<lambda>(k, v). if blocked_key k then [] else (case metadata_value v of None \<Rightarrow> [] | Some w \<Rightarrow> [(k, w)])) (own_entries metadata))"

definition or_default :: "js \<Rightarrow> js \<Rightarrow> js" where
  "or_default v d = (if v = Undef then d else v)"

definition audit :: "string \<Rightarrow> string \<Rightarrow> js \<Rightarrow> audit_event" where
  "audit aid now event = \<lparr>au_id = aid, au_type = get event ''type'', au_actorUserId = or_default (get event ''actorUserId'') Null,
     au_targetUserId = or_default (get event ''targetUserId'') Null, au_workspaceId = or_default (get event ''workspaceId'') Null,
     au_outcome = or_default (get event ''outcome'') (Str ''allow''), au_occurredAt = now, au_correlationId = or_default (get event ''correlationId'') Null,
     au_metadata = sanitizeAuditMetadata (or_default (get event ''metadata'') (Obj []))\<rparr>"

definition add_audit :: "string \<Rightarrow> string \<Rightarrow> (string \<times> js) list \<Rightarrow> identity_state \<Rightarrow> identity_state" where
  "add_audit aid now event st = st\<lparr>is_auditEvents := is_auditEvents st @ [audit aid now (Obj event)]\<rparr>"

definition safeAuditEvent :: "audit_event \<Rightarrow> js" where
  "safeAuditEvent e = Obj [(''id'', Str (au_id e)), (''type'', au_type e), (''actorUserId'', orelse (au_actorUserId e) Null), (''targetUserId'', orelse (au_targetUserId e) Null),
     (''workspaceId'', orelse (au_workspaceId e) Null), (''outcome'', au_outcome e), (''occurredAt'', Str (au_occurredAt e)),
     (''correlationId'', orelse (au_correlationId e) Null), (''metadata'', Obj (au_metadata e))]"

section \<open>Users, workspaces and memberships\<close>

definition active_owner :: "membership \<Rightarrow> bool" where
  "active_owner m \<longleftrightarrow> mb_role m = ''owner'' \<and> mb_status m = Str ''active''"

definition isBootstrapped :: "identity_state \<Rightarrow> bool" where
  "isBootstrapped st \<longleftrightarrow> list_ex active_owner (is_memberships st)"

text \<open>What one update takes from outside.\<close>

record fresh_supply =
  sy_now :: string
  sy_id :: string
  sy_id' :: string
  sy_auditId :: string
  sy_salt :: string
  sy_random :: string
  sy_random' :: string

record identity_config =
  ic_runtime :: runtime
  ic_crypto :: crypto
  ic_scrypt :: scrypt_options
  ic_dummy :: string

definition new_user :: "fresh_supply \<Rightarrow> string \<Rightarrow> string \<Rightarrow> string \<Rightarrow> js \<Rightarrow> string \<Rightarrow> user" where
  "new_user sy username usernameKey displayName status cred = \<lparr>us_id = sy_id sy, us_username = username, us_usernameKey = usernameKey,
     us_displayName = displayName, us_status = status, us_credential = cred, us_createdAt = sy_now sy, us_updatedAt = sy_now sy\<rparr>"

definition str_of_js :: "js \<Rightarrow> string" where
  "str_of_js v = (case v of Str s \<Rightarrow> s | _ \<Rightarrow> [])"

definition bootstrapOwner ::
  "identity_config \<Rightarrow> fresh_supply \<Rightarrow> js \<Rightarrow> js \<Rightarrow> js \<Rightarrow> js \<Rightarrow> js \<Rightarrow> identity_state \<Rightarrow> (identity_error, identity_state \<times> js) result" where
  "bootstrapOwner ic sy username displayName password workspaceId workspaceName st =
     (let now = sy_now sy in
      bind_res (assertPasswordPolicy password) (\<lambda>_.
      bind_res (normalizeUsername username) (\<lambda>usernameKey.
      bind_res (assertDisplayName displayName) (\<lambda>display.
      bind_res (assertWorkspaceId (or_default workspaceId (Str ''ws_local''))) (\<lambda>ws.
      bind_res (require (\<not> isBootstrapped st) (IdentityError ''already_bootstrapped'')) (\<lambda>_.
      bind_res (hashPassword (ic_runtime ic) (ic_crypto ic) (ic_scrypt ic) (sy_salt sy) password) (\<lambda>cred.
        let u = new_user sy (str_of_js username) usernameKey display (Str ''active'') cred;
            w = \<lparr>wk_id = ws, wk_name = or_default workspaceName (Str ''Local Workspace''), wk_createdAt = now\<rparr>;
            m = \<lparr>mb_id = sy_id' sy, mb_userId = us_id u, mb_workspaceId = ws, mb_role = ''owner'', mb_status = Str ''active'', mb_createdAt = now, mb_updatedAt = now\<rparr>
        in Inr (add_audit (sy_auditId sy) now [(''type'', Str ''auth.bootstrap_owner''), (''actorUserId'', Str (us_id u)), (''targetUserId'', Str (us_id u)),
              (''workspaceId'', Str ws), (''outcome'', Str ''allow'')]
              (st\<lparr>is_users := is_users st @ [u], is_workspaces := is_workspaces st @ [w], is_memberships := is_memberships st @ [m]\<rparr>),
            Obj [(''user'', safeUser u), (''workspace'', safeWorkspace w), (''membership'', safeMembership m)]))))))))"

definition createUser :: "identity_config \<Rightarrow> fresh_supply \<Rightarrow> js \<Rightarrow> js \<Rightarrow> js \<Rightarrow> js \<Rightarrow> identity_state \<Rightarrow> (identity_error, identity_state \<times> js) result" where
  "createUser ic sy username displayName password status st =
     bind_res (assertPasswordPolicy password) (\<lambda>_.
     bind_res (normalizeUsername username) (\<lambda>usernameKey.
     bind_res (assertDisplayName displayName) (\<lambda>display.
     bind_res (require (\<not> list_ex (\<lambda>u. us_usernameKey u = usernameKey) (is_users st)) (IdentityError ''username_exists'')) (\<lambda>_.
     bind_res (hashPassword (ic_runtime ic) (ic_crypto ic) (ic_scrypt ic) (sy_salt sy) password) (\<lambda>cred.
       let u = new_user sy (str_of_js username) usernameKey display (or_default status (Str ''active'')) cred
       in Inr (add_audit (sy_auditId sy) (sy_now sy) [(''type'', Str ''auth.user_created''), (''targetUserId'', Str (us_id u)), (''outcome'', Str ''allow'')]
             (st\<lparr>is_users := is_users st @ [u]\<rparr>), Obj [(''user'', safeUser u)]))))))"

text \<open>\<open>find\<close> and change the first row that matches.\<close>

fun update_first :: "('r \<Rightarrow> bool) \<Rightarrow> ('r \<Rightarrow> 'r) \<Rightarrow> 'r list \<Rightarrow> 'r list" where
  "update_first P f [] = []"
| "update_first P f (r # rs) = (if P r then f r # rs else r # update_first P f rs)"

definition putWorkspace :: "fresh_supply \<Rightarrow> js \<Rightarrow> js \<Rightarrow> identity_state \<Rightarrow> (identity_error, identity_state \<times> js) result" where
  "putWorkspace sy wid name st =
     bind_res (assertWorkspaceId wid) (\<lambda>ws.
     bind_res (text_where (\<lambda>s. 1 \<le> length s \<and> length s \<le> 160) name (IdentityError ''invalid_workspace'')) (\<lambda>n.
       let rows = is_workspaces st;
           rows' = (if list_ex (\<lambda>w. wk_id w = ws) rows then update_first (\<lambda>w. wk_id w = ws) (wk_name_update (\<lambda>_. Str n)) rows
                    else rows @ [\<lparr>wk_id = ws, wk_name = Str n, wk_createdAt = sy_now sy\<rparr>])
       in Inr (st\<lparr>is_workspaces := rows'\<rparr>, case List.find (\<lambda>w. wk_id w = ws) rows' of None \<Rightarrow> Null | Some w \<Rightarrow> safeWorkspace w)))"

definition putMembership :: "fresh_supply \<Rightarrow> string \<Rightarrow> js \<Rightarrow> js \<Rightarrow> js \<Rightarrow> identity_state \<Rightarrow> (identity_error, identity_state \<times> js) result" where
  "putMembership sy userId workspaceId role status st =
     (let now = sy_now sy; status' = or_default status (Str ''active'') in
      bind_res (assertWorkspaceId workspaceId) (\<lambda>ws.
      bind_res (text_where (\<lambda>s. s \<in> set ROLE_VALUES) role (IdentityError ''invalid_role'')) (\<lambda>rl.
      bind_res (require (list_ex (\<lambda>u. us_id u = userId) (is_users st)) (IdentityError ''user_not_found'')) (\<lambda>_.
        let here = (\<lambda>m. mb_userId m = userId \<and> mb_workspaceId m = ws);
            spaces = is_workspaces st @ (if list_ex (\<lambda>w. wk_id w = ws) (is_workspaces st) then [] else [\<lparr>wk_id = ws, wk_name = Str ws, wk_createdAt = now\<rparr>]);
            rows = (if list_ex here (is_memberships st)
              then update_first here (\<lambda>m. m\<lparr>mb_role := rl, mb_status := status', mb_updatedAt := now\<rparr>) (is_memberships st)
              else is_memberships st @ [\<lparr>mb_id = sy_id sy, mb_userId = userId, mb_workspaceId = ws, mb_role = rl, mb_status = status', mb_createdAt = now, mb_updatedAt = now\<rparr>])
        in Inr (add_audit (sy_auditId sy) now [(''type'', Str ''auth.membership_updated''), (''targetUserId'', Str userId), (''workspaceId'', Str ws), (''outcome'', Str ''allow''),
              (''metadata'', Obj [(''role'', Str rl), (''status'', status')])] (st\<lparr>is_workspaces := spaces, is_memberships := rows\<rparr>),
            case List.find here rows of None \<Rightarrow> Null | Some m \<Rightarrow> safeMembership m)))))"

section \<open>Signing in\<close>

definition active_user :: "user \<Rightarrow> bool" where
  "active_user u \<longleftrightarrow> us_status u = Str ''active''"

text \<open>A password that breaks the policy and an exception of scrypt count as a wrong password.\<close>

definition verifyPassword :: "identity_config \<Rightarrow> fresh_supply \<Rightarrow> js \<Rightarrow> js \<Rightarrow> identity_state \<Rightarrow> identity_state \<times> user option" where
  "verifyPassword ic sy username password st =
     (let key = map lower_char (str_of_js username);
          found = List.find (\<lambda>u. us_usernameKey u = key \<and> active_user u) (is_users st);
          ok = (verifyCredential (ic_crypto ic) password (case found of None \<Rightarrow> ic_dummy ic | Some u \<Rightarrow> us_credential u) = Inr True)
      in case (found, ok) of
           (Some u, True) \<Rightarrow> (add_audit (sy_auditId sy) (sy_now sy) [(''type'', Str ''auth.login''), (''actorUserId'', Str (us_id u)), (''targetUserId'', Str (us_id u)),
               (''outcome'', Str ''allow'')] st, Some u)
         | _ \<Rightarrow> (add_audit (sy_auditId sy) (sy_now sy) [(''type'', Str ''auth.login''), (''outcome'', Str ''deny''),
               (''metadata'', Obj [(''reason'', Str ''invalid_credentials'')])] st, None))"

definition addDays :: "runtime \<Rightarrow> string \<Rightarrow> int \<Rightarrow> (identity_error, string) result" where
  "addDays rt iso_text days = (case date_parse rt iso_text of None \<Rightarrow> Inl (Thrown ''Invalid time value'')
     | Some t \<Rightarrow> Inr (to_iso rt (t + days * 24 * 60 * 60 * 1000)))"

text \<open>\<open>v > now\<close> for a text on the right: texts by their characters, numbers and truth values by number.\<close>

definition later_than :: "runtime \<Rightarrow> js \<Rightarrow> string \<Rightarrow> bool" where
  "later_than rt v now = (case v of
     Str s \<Rightarrow> now < s
   | Arr _ \<Rightarrow> now < js_to_string rt v
   | Obj _ \<Rightarrow> now < js_to_string rt v
   | _ \<Rightarrow> (case (to_number rt v, str_number now) of (Some a, Some b) \<Rightarrow> b < a | _ \<Rightarrow> False))"

definition revoked :: "string option \<Rightarrow> bool" where
  "revoked r \<longleftrightarrow> (case r of None \<Rightarrow> False | Some t \<Rightarrow> t \<noteq> [])"

definition activeAt :: "runtime \<Rightarrow> string option \<Rightarrow> js \<Rightarrow> string \<Rightarrow> bool" where
  "activeAt rt revokedAt expiresAt now \<longleftrightarrow> \<not> revoked revokedAt \<and> (\<not> truthy expiresAt \<or> later_than rt expiresAt now)"

definition hash_if :: "runtime \<Rightarrow> js \<Rightarrow> string option" where
  "hash_if rt v = (if truthy v then Some (sha256_hex rt (js_to_string rt v)) else None)"

definition createSession :: "identity_config \<Rightarrow> fresh_supply \<Rightarrow> string \<Rightarrow> js \<Rightarrow> js \<Rightarrow> identity_state \<Rightarrow> (identity_error, identity_state \<times> session \<times> string \<times> string) result" where
  "createSession ic sy userId remoteAddress userAgent st =
     (let rt = ic_runtime ic; now = sy_now sy; token = ''oaf_ses_'' @ cr_encode (ic_crypto ic) (sy_random sy); csrf = ''oaf_csrf_'' @ cr_encode (ic_crypto ic) (sy_random' sy) in
      bind_res (require (list_ex (\<lambda>u. us_id u = userId \<and> active_user u) (is_users st)) (IdentityError ''user_not_found'')) (\<lambda>_.
      bind_res (addDays rt now 7) (\<lambda>expires.
        let s = \<lparr>se_id = sy_id sy, se_userId = userId, se_tokenHash = sha256_hex rt token, se_csrfHash = sha256_hex rt csrf, se_remoteAddressHash = hash_if rt remoteAddress,
              se_userAgentHash = hash_if rt userAgent, se_createdAt = now, se_expiresAt = expires, se_revokedAt = None\<rparr>;
            rows = upd_where (\<lambda>r. se_userId r = userId \<and> \<not> revoked (se_revokedAt r)) (se_revokedAt_update (\<lambda>_. Some now)) (is_sessions st) @ [s]
        in Inr (add_audit (sy_auditId sy) now [(''type'', Str ''auth.session_created''), (''actorUserId'', Str userId), (''targetUserId'', Str userId), (''outcome'', Str ''allow'')]
              (st\<lparr>is_sessions := rows\<rparr>), s, token, csrf))))"

record signed_in =
  si_session :: session
  si_user :: user
  si_memberships :: "membership list"

definition authenticateSession :: "runtime \<Rightarrow> js \<Rightarrow> string \<Rightarrow> identity_state \<Rightarrow> signed_in option" where
  "authenticateSession rt token now st = (case token of
     Str t \<Rightarrow>
       if \<not> starts_with ''oaf_ses_'' t then None
       else (case List.find (\<lambda>s. se_tokenHash s = sha256_hex rt t \<and> activeAt rt (se_revokedAt s) (Str (se_expiresAt s)) now) (is_sessions st) of
           None \<Rightarrow> None
         | Some s \<Rightarrow> (case List.find (\<lambda>u. us_id u = se_userId s \<and> active_user u) (is_users st) of
               None \<Rightarrow> None
             | Some u \<Rightarrow> Some \<lparr>si_session = s, si_user = u, si_memberships = filter (\<lambda>m. mb_userId m = us_id u \<and> mb_status m = Str ''active'') (is_memberships st)\<rparr>))
   | _ \<Rightarrow> None)"

text \<open>\<open>undefined\<close> as the target of an audit event is \<open>null\<close>.\<close>

definition revokeSession :: "fresh_supply \<Rightarrow> string \<Rightarrow> js \<Rightarrow> identity_state \<Rightarrow> identity_state \<times> bool" where
  "revokeSession sy sessionId actorUserId st =
     (let found = List.find (\<lambda>s. se_id s = sessionId) (is_sessions st);
          rows = update_first (\<lambda>s. se_id s = sessionId) (\<lambda>s. if revoked (se_revokedAt s) then s else s\<lparr>se_revokedAt := Some (sy_now sy)\<rparr>) (is_sessions st)
      in (add_audit (sy_auditId sy) (sy_now sy) [(''type'', Str ''auth.logout''), (''actorUserId'', actorUserId),
            (''targetUserId'', case found of None \<Rightarrow> Null | Some s \<Rightarrow> Str (se_userId s)), (''outcome'', Str (if found = None then ''deny'' else ''allow''))]
            (st\<lparr>is_sessions := rows\<rparr>), found \<noteq> None))"

section \<open>API tokens\<close>

definition scope_ok :: "string \<Rightarrow> bool" where
  "scope_ok s \<longleftrightarrow> length s \<le> 80 \<and> (case s of [] \<Rightarrow> False | c # r \<Rightarrow> is_lower c \<and> r \<noteq> [] \<and>
     list_all (\<lambda>d. is_lower d \<or> is_digit d \<or> d \<in> {CHR ''.'', CHR '':'', CHR ''-''}) r)"

definition owned_workspaces :: "string \<Rightarrow> identity_state \<Rightarrow> string list" where
  "owned_workspaces userId st = map mb_workspaceId (filter (\<lambda>m. mb_userId m = userId \<and> active_owner m) (is_memberships st))"

definition createApiToken :: "identity_config \<Rightarrow> fresh_supply \<Rightarrow> string \<Rightarrow> js \<Rightarrow> js \<Rightarrow> js \<Rightarrow> js \<Rightarrow> identity_state \<Rightarrow> (identity_error, identity_state \<times> api_token \<times> string) result" where
  "createApiToken ic sy actorUserId name workspaceIds scopes expiresAt st =
     (let rt = ic_runtime ic; now = sy_now sy; wids = or_default workspaceIds (Arr []); scs = or_default scopes (Arr []) in
      bind_res (text_where (\<lambda>s. 1 \<le> length s \<and> length s \<le> 120) name (IdentityError ''invalid_token_name'')) (\<lambda>n.
      bind_res (require (is_arr wids \<and> 1 \<le> length (items wids) \<and> length (items wids) \<le> 16) (IdentityError ''invalid_workspace'')) (\<lambda>_.
      bind_res (map_res assertWorkspaceId (items wids)) (\<lambda>ws.
      bind_res (require (is_arr scs) (IdentityError ''invalid_token_scope'')) (\<lambda>_.
      bind_res (map_res (\<lambda>s. text_where scope_ok s (IdentityError ''invalid_token_scope'')) (items scs)) (\<lambda>ss.
      bind_res (require (list_ex (\<lambda>u. us_id u = actorUserId \<and> active_user u) (is_users st)) (IdentityError ''user_not_found'')) (\<lambda>_.
      bind_res (require (list_all (\<lambda>w. w \<in> set (owned_workspaces actorUserId st)) (nub ws)) (IdentityError ''owner_membership_required'')) (\<lambda>_.
        let tid = sy_id sy; token = ''oaf_tok_'' @ tid @ ''_'' @ cr_encode (ic_crypto ic) (sy_random sy);
            t = \<lparr>tk_id = tid, tk_userId = actorUserId, tk_name = n, tk_tokenHash = sha256_hex rt token, tk_tokenPrefix = take 24 token, tk_workspaceIds = nub ws,
                 tk_scopes = nub ss, tk_createdAt = now, tk_expiresAt = or_default expiresAt Null, tk_revokedAt = None\<rparr>
        in Inr (add_audit (sy_auditId sy) now [(''type'', Str ''auth.token_created''), (''actorUserId'', Str actorUserId), (''targetUserId'', Str actorUserId), (''outcome'', Str ''allow''),
              (''metadata'', Obj [(''tokenId'', Str tid), (''workspaceCount'', Num (of_nat (length (nub ws)))), (''scopeCount'', Num (of_nat (length (nub ss))))])]
              (st\<lparr>is_apiTokens := is_apiTokens st @ [t]\<rparr>), t, token)))))))))"

definition listApiTokens :: "string \<Rightarrow> identity_state \<Rightarrow> js list" where
  "listApiTokens userId st = map safeApiToken (filter (\<lambda>t. tk_userId t = userId) (is_apiTokens st))"

record token_holder =
  th_token :: api_token
  th_user :: user
  th_memberships :: "membership list"

definition authenticateApiToken :: "runtime \<Rightarrow> js \<Rightarrow> string \<Rightarrow> identity_state \<Rightarrow> token_holder option" where
  "authenticateApiToken rt token now st = (case token of
     Str t \<Rightarrow>
       if \<not> starts_with ''oaf_tok_'' t then None
       else (case List.find (\<lambda>r. tk_tokenHash r = sha256_hex rt t \<and> activeAt rt (tk_revokedAt r) (tk_expiresAt r) now) (is_apiTokens st) of
           None \<Rightarrow> None
         | Some r \<Rightarrow> (case List.find (\<lambda>u. us_id u = tk_userId r \<and> active_user u) (is_users st) of
               None \<Rightarrow> None
             | Some u \<Rightarrow>
                 (let ms = filter (\<lambda>m. mb_userId m = us_id u \<and> mb_status m = Str ''active'' \<and> mb_workspaceId m \<in> set (tk_workspaceIds r)) (is_memberships st)
                  in if ms = [] then None else Some \<lparr>th_token = r, th_user = u, th_memberships = ms\<rparr>)))
   | _ \<Rightarrow> None)"

text \<open>The key of the metadata is one that the audit trail blocks, so it is not recorded.\<close>

definition revokeApiToken :: "fresh_supply \<Rightarrow> string \<Rightarrow> js \<Rightarrow> identity_state \<Rightarrow> identity_state \<times> bool" where
  "revokeApiToken sy tokenId actorUserId st =
     (let found = List.find (\<lambda>t. tk_id t = tokenId) (is_apiTokens st);
          rows = update_first (\<lambda>t. tk_id t = tokenId) (\<lambda>t. if revoked (tk_revokedAt t) then t else t\<lparr>tk_revokedAt := Some (sy_now sy)\<rparr>) (is_apiTokens st)
      in (add_audit (sy_auditId sy) (sy_now sy) [(''type'', Str ''auth.token_revoked''), (''actorUserId'', actorUserId),
            (''targetUserId'', case found of None \<Rightarrow> Null | Some t \<Rightarrow> Str (tk_userId t)), (''outcome'', Str (if found = None then ''deny'' else ''allow'')),
            (''metadata'', Obj [(''tokenId'', Str tokenId)])] (st\<lparr>is_apiTokens := rows\<rparr>), found \<noteq> None))"

definition listMemberships :: "string \<Rightarrow> identity_state \<Rightarrow> js list" where
  "listMemberships userId st = map safeMembership (filter (\<lambda>m. mb_userId m = userId \<and> mb_status m = Str ''active'') (is_memberships st))"

definition recordAuditEvent :: "fresh_supply \<Rightarrow> js \<Rightarrow> identity_state \<Rightarrow> identity_state \<times> js" where
  "recordAuditEvent sy event st =
     (let e = audit (sy_auditId sy) (sy_now sy) event in (st\<lparr>is_auditEvents := is_auditEvents st @ [e]\<rparr>, safeAuditEvent e))"

definition audit_limit :: "runtime \<Rightarrow> js \<Rightarrow> nat" where
  "audit_limit rt limit = (let n = (case to_number rt (or_default limit (Num 100)) of None \<Rightarrow> 100 | Some n \<Rightarrow> if n = 0 then 100 else n)
     in nat \<lfloor>max 1 (min 500 n)\<rfloor>)"

definition listAuditEvents :: "runtime \<Rightarrow> js \<Rightarrow> identity_state \<Rightarrow> js list" where
  "listAuditEvents rt limit st =
     (let es = is_auditEvents st in map safeAuditEvent (rev (drop (length es - audit_limit rt limit) es)))"

section \<open>The store as a machine\<close>

datatype identity_op =
    Bootstrap js js js js js
  | NewUser js js js js
  | PutWorkspace js js
  | PutMembership string js js js
  | SignIn js js
  | NewSession string js js
  | RevokeSession string js
  | NewToken string js js js js
  | RevokeToken string js
  | RecordAudit js

definition kept :: "('e, 's \<times> 'a) result \<Rightarrow> 's \<Rightarrow> 's" where
  "kept r st = (case r of Inl _ \<Rightarrow> st | Inr (st', _) \<Rightarrow> st')"

fun exec_identity :: "identity_config \<Rightarrow> fresh_supply \<Rightarrow> identity_op \<Rightarrow> identity_state \<Rightarrow> identity_state" where
  "exec_identity ic sy (Bootstrap u d p w n) st = kept (bootstrapOwner ic sy u d p w n st) st"
| "exec_identity ic sy (NewUser u d p s) st = kept (createUser ic sy u d p s st) st"
| "exec_identity ic sy (PutWorkspace w n) st = kept (putWorkspace sy w n st) st"
| "exec_identity ic sy (PutMembership u w r s) st = kept (putMembership sy u w r s st) st"
| "exec_identity ic sy (SignIn u p) st = fst (verifyPassword ic sy u p st)"
| "exec_identity ic sy (NewSession u a b) st = kept (createSession ic sy u a b st) st"
| "exec_identity ic sy (RevokeSession s a) st = fst (revokeSession sy s a st)"
| "exec_identity ic sy (NewToken u n w s e) st = kept (createApiToken ic sy u n w s e st) st"
| "exec_identity ic sy (RevokeToken t a) st = fst (revokeApiToken sy t a st)"
| "exec_identity ic sy (RecordAudit e) st = fst (recordAuditEvent sy e st)"

text \<open>Identifiers and the hashes of random tokens are fresh, and the clock's text is not empty.\<close>

definition fresh_for :: "identity_config \<Rightarrow> fresh_supply \<Rightarrow> identity_state \<Rightarrow> bool" where
  "fresh_for ic sy st \<longleftrightarrow>
     sy_now sy \<noteq> [] \<and> sy_auditId sy \<notin> au_id ` set (is_auditEvents st) \<and> sy_id sy \<notin> us_id ` set (is_users st) \<and>
     sy_id sy \<notin> se_id ` set (is_sessions st) \<and> sy_id sy \<notin> tk_id ` set (is_apiTokens st) \<and>
     sha256_hex (ic_runtime ic) (''oaf_ses_'' @ cr_encode (ic_crypto ic) (sy_random sy)) \<notin> se_tokenHash ` set (is_sessions st) \<and>
     sha256_hex (ic_runtime ic) (''oaf_tok_'' @ sy_id sy @ ''_'' @ cr_encode (ic_crypto ic) (sy_random sy)) \<notin> tk_tokenHash ` set (is_apiTokens st)"

inductive identity_step :: "identity_config \<Rightarrow> identity_state \<Rightarrow> identity_state \<Rightarrow> bool" for ic where
  identity_stepI: "fresh_for ic sy st \<Longrightarrow> identity_step ic st (exec_identity ic sy x st)"

inductive_cases identity_stepE: "identity_step ic st st'"

section \<open>What an operation changes\<close>

named_theorems op_effects \<open>the parts of the state that an operation leaves or changes\<close>

lemma add_audit_simps [simp]:
  "is_sessions (add_audit i n e st) = is_sessions st" "is_apiTokens (add_audit i n e st) = is_apiTokens st"
  "is_users (add_audit i n e st) = is_users st" "is_memberships (add_audit i n e st) = is_memberships st"
  "is_auditEvents (add_audit i n e st) = is_auditEvents st @ [audit i n (Obj e)]"
  by (simp_all add: add_audit_def)

lemma audit_id [simp]: "au_id (audit i n e) = i"
  by (simp add: audit_def)

lemma bootstrap_effect [op_effects]:
  "bootstrapOwner ic sy u d p w n st = Inr (st', r) \<Longrightarrow> is_sessions st' = is_sessions st \<and> is_apiTokens st' = is_apiTokens st \<and>
     (\<exists>ev. is_auditEvents st' = is_auditEvents st @ [audit (sy_auditId sy) (sy_now sy) ev])"
  by (auto simp: bootstrapOwner_def Let_def bind_res_eq_Inr)

lemma createUser_effect [op_effects]:
  "createUser ic sy u d p s st = Inr (st', r) \<Longrightarrow> is_sessions st' = is_sessions st \<and> is_apiTokens st' = is_apiTokens st \<and>
     (\<exists>ev. is_auditEvents st' = is_auditEvents st @ [audit (sy_auditId sy) (sy_now sy) ev])"
  by (auto simp: createUser_def Let_def bind_res_eq_Inr)

lemma putWorkspace_effect [op_effects]:
  "putWorkspace sy w n st = Inr (st', r) \<Longrightarrow> is_sessions st' = is_sessions st \<and> is_apiTokens st' = is_apiTokens st \<and> is_auditEvents st' = is_auditEvents st"
  by (auto simp: putWorkspace_def Let_def bind_res_eq_Inr)

lemma putMembership_effect [op_effects]:
  "putMembership sy u w l s st = Inr (st', r) \<Longrightarrow> is_sessions st' = is_sessions st \<and> is_apiTokens st' = is_apiTokens st \<and>
     (\<exists>ev. is_auditEvents st' = is_auditEvents st @ [audit (sy_auditId sy) (sy_now sy) ev])"
  by (auto simp: putMembership_def Let_def bind_res_eq_Inr)

lemma verifyPassword_effect:
  "is_sessions (fst (verifyPassword ic sy u p st)) = is_sessions st \<and> is_apiTokens (fst (verifyPassword ic sy u p st)) = is_apiTokens st \<and>
     (\<exists>ev. is_auditEvents (fst (verifyPassword ic sy u p st)) = is_auditEvents st @ [audit (sy_auditId sy) (sy_now sy) ev])"
  by (auto simp: verifyPassword_def Let_def split: option.splits bool.splits)

definition ended :: "string \<Rightarrow> string \<Rightarrow> session list \<Rightarrow> session list" where
  "ended userId now = upd_where (\<lambda>r. se_userId r = userId \<and> \<not> revoked (se_revokedAt r)) (se_revokedAt_update (\<lambda>_. Some now))"

lemma createSession_effect:
  assumes "createSession ic sy u a b st = Inr (st', s, token, csrf)"
  shows "is_sessions st' = ended u (sy_now sy) (is_sessions st) @ [s] \<and> se_userId s = u \<and> se_id s = sy_id sy \<and>
     se_tokenHash s = sha256_hex (ic_runtime ic) (''oaf_ses_'' @ cr_encode (ic_crypto ic) (sy_random sy)) \<and> token = ''oaf_ses_'' @ cr_encode (ic_crypto ic) (sy_random sy) \<and>
     se_revokedAt s = None \<and> is_apiTokens st' = is_apiTokens st \<and> (\<exists>ev. is_auditEvents st' = is_auditEvents st @ [audit (sy_auditId sy) (sy_now sy) ev])"
  using assms by (auto simp: createSession_def Let_def bind_res_eq_Inr ended_def)

definition revoke_row :: "string \<Rightarrow> session \<Rightarrow> session" where
  "revoke_row now s = (if revoked (se_revokedAt s) then s else s\<lparr>se_revokedAt := Some now\<rparr>)"

lemma revokeSession_effect:
  "is_sessions (fst (revokeSession sy i a st)) = update_first (\<lambda>s. se_id s = i) (revoke_row (sy_now sy)) (is_sessions st) \<and>
   is_apiTokens (fst (revokeSession sy i a st)) = is_apiTokens st \<and>
   (\<exists>ev. is_auditEvents (fst (revokeSession sy i a st)) = is_auditEvents st @ [audit (sy_auditId sy) (sy_now sy) ev])"
  by (auto simp: revokeSession_def Let_def revoke_row_def [abs_def])

definition revoke_token_row :: "string \<Rightarrow> api_token \<Rightarrow> api_token" where
  "revoke_token_row now t = (if revoked (tk_revokedAt t) then t else t\<lparr>tk_revokedAt := Some now\<rparr>)"

lemma revokeApiToken_effect:
  "is_apiTokens (fst (revokeApiToken sy i a st)) = update_first (\<lambda>t. tk_id t = i) (revoke_token_row (sy_now sy)) (is_apiTokens st) \<and>
   is_sessions (fst (revokeApiToken sy i a st)) = is_sessions st \<and>
   (\<exists>ev. is_auditEvents (fst (revokeApiToken sy i a st)) = is_auditEvents st @ [audit (sy_auditId sy) (sy_now sy) ev])"
  by (auto simp: revokeApiToken_def Let_def revoke_token_row_def [abs_def])

lemma createApiToken_effect:
  assumes "createApiToken ic sy u n w s e st = Inr (st', t, token)"
  shows "is_apiTokens st' = is_apiTokens st @ [t] \<and> tk_userId t = u \<and> tk_id t = sy_id sy \<and> is_sessions st' = is_sessions st \<and>
    tk_tokenHash t = sha256_hex (ic_runtime ic) (''oaf_tok_'' @ sy_id sy @ ''_'' @ cr_encode (ic_crypto ic) (sy_random sy)) \<and>
    set (tk_workspaceIds t) \<subseteq> set (owned_workspaces u st) \<and> (\<exists>ev. is_auditEvents st' = is_auditEvents st @ [audit (sy_auditId sy) (sy_now sy) ev])"
  using assms by (auto simp: createApiToken_def Let_def bind_res_eq_Inr list_all_iff)

lemma kept_cases: "kept r st = st \<or> (\<exists>st' a. r = Inr (st', a) \<and> kept r st = st')"
  by (auto simp: kept_def split: sum.splits)

text \<open>Every operation, on the sessions, the tokens and the audit trail.\<close>

lemma exec_sessions:
  "is_sessions (exec_identity ic sy x st) = is_sessions st \<or>
   (\<exists>u s. is_sessions (exec_identity ic sy x st) = ended u (sy_now sy) (is_sessions st) @ [s] \<and> se_userId s = u \<and> se_id s = sy_id sy \<and>
      se_tokenHash s = sha256_hex (ic_runtime ic) (''oaf_ses_'' @ cr_encode (ic_crypto ic) (sy_random sy)) \<and> se_revokedAt s = None) \<or>
   (\<exists>i. is_sessions (exec_identity ic sy x st) = update_first (\<lambda>s. se_id s = i) (revoke_row (sy_now sy)) (is_sessions st))"
proof (cases x)
  case (NewSession u a b)
  then show ?thesis using kept_cases [of "createSession ic sy u a b st" st] createSession_effect by fastforce
next
  case (RevokeSession i a)
  then show ?thesis using revokeSession_effect by auto
next
  case (NewToken u n w s e)
  then show ?thesis using kept_cases [of "createApiToken ic sy u n w s e st" st] createApiToken_effect by fastforce
next
  case (RevokeToken i a)
  then show ?thesis using revokeApiToken_effect by auto
qed (auto simp: kept_def recordAuditEvent_def Let_def verifyPassword_effect dest: op_effects split: sum.splits)

lemma exec_tokens:
  "is_apiTokens (exec_identity ic sy x st) = is_apiTokens st \<or>
   (\<exists>t. is_apiTokens (exec_identity ic sy x st) = is_apiTokens st @ [t] \<and> tk_id t = sy_id sy \<and> set (tk_workspaceIds t) \<subseteq> set (owned_workspaces (tk_userId t) st) \<and>
      tk_tokenHash t = sha256_hex (ic_runtime ic) (''oaf_tok_'' @ sy_id sy @ ''_'' @ cr_encode (ic_crypto ic) (sy_random sy))) \<or>
   (\<exists>i. is_apiTokens (exec_identity ic sy x st) = update_first (\<lambda>t. tk_id t = i) (revoke_token_row (sy_now sy)) (is_apiTokens st))"
proof (cases x)
  case (NewSession u a b)
  then show ?thesis using kept_cases [of "createSession ic sy u a b st" st] createSession_effect by fastforce
next
  case (RevokeSession i a)
  then show ?thesis using revokeSession_effect by auto
next
  case (NewToken u n w s e)
  then show ?thesis using kept_cases [of "createApiToken ic sy u n w s e st" st] createApiToken_effect by fastforce
next
  case (RevokeToken i a)
  then show ?thesis using revokeApiToken_effect by auto
qed (auto simp: kept_def recordAuditEvent_def Let_def verifyPassword_effect dest: op_effects split: sum.splits)

lemma exec_audit:
  "is_auditEvents (exec_identity ic sy x st) = is_auditEvents st \<or> (\<exists>ev. is_auditEvents (exec_identity ic sy x st) = is_auditEvents st @ [audit (sy_auditId sy) (sy_now sy) ev])"
proof (cases x)
  case (NewSession u a b)
  then show ?thesis using kept_cases [of "createSession ic sy u a b st" st] createSession_effect by fastforce
next
  case (RevokeSession i a)
  then show ?thesis using revokeSession_effect by auto
next
  case (NewToken u n w s e)
  then show ?thesis using kept_cases [of "createApiToken ic sy u n w s e st" st] createApiToken_effect by fastforce
next
  case (RevokeToken i a)
  then show ?thesis using revokeApiToken_effect by auto
qed (auto simp: kept_def recordAuditEvent_def Let_def verifyPassword_effect dest: op_effects split: sum.splits)

section \<open>The invariant of the store\<close>

lemma map_update_first: "(\<And>r. g (f r) = g r) \<Longrightarrow> map g (update_first P f rs) = map g rs"
  by (induction rs) auto

lemma update_first_keeps: "q \<in> set rs \<Longrightarrow> q \<in> set (update_first P f rs) \<or> f q \<in> set (update_first P f rs)"
  by (induction rs) auto

lemma in_update_first: "r \<in> set (update_first P f rs) \<Longrightarrow> r \<in> set rs \<or> (\<exists>q \<in> set rs. r = f q)"
  by (induction rs) (auto split: if_splits)

definition live_session :: "session \<Rightarrow> bool" where
  "live_session s \<longleftrightarrow> \<not> revoked (se_revokedAt s)"

definition identity_inv :: "identity_state \<Rightarrow> bool" where
  "identity_inv st \<longleftrightarrow>
     distinct (map se_id (is_sessions st)) \<and> distinct (map se_tokenHash (is_sessions st)) \<and> distinct (map se_userId (filter live_session (is_sessions st))) \<and>
     distinct (map tk_id (is_apiTokens st)) \<and> distinct (map tk_tokenHash (is_apiTokens st)) \<and> distinct (map au_id (is_auditEvents st))"

lemma revoke_row_simps [simp]:
  "se_id (revoke_row n s) = se_id s" "se_tokenHash (revoke_row n s) = se_tokenHash s" "se_userId (revoke_row n s) = se_userId s"
  "n \<noteq> [] \<Longrightarrow> \<not> live_session (revoke_row n s)"
  by (simp_all add: revoke_row_def live_session_def revoked_def)

lemma revoke_token_row_simps [simp]:
  "tk_id (revoke_token_row n t) = tk_id t" "tk_tokenHash (revoke_token_row n t) = tk_tokenHash t" "tk_userId (revoke_token_row n t) = tk_userId t"
  "tk_workspaceIds (revoke_token_row n t) = tk_workspaceIds t" "tk_scopes (revoke_token_row n t) = tk_scopes t" "tk_expiresAt (revoke_token_row n t) = tk_expiresAt t"
  by (simp_all add: revoke_token_row_def)

lemma ended_maps [simp]:
  "map se_id (ended u n ss) = map se_id ss" "map se_tokenHash (ended u n ss) = map se_tokenHash ss"
  unfolding ended_def by (auto intro!: map_upd_where_same)

lemma live_ended: "n \<noteq> [] \<Longrightarrow> filter live_session (ended u n ss) = filter (\<lambda>s. live_session s \<and> se_userId s \<noteq> u) ss"
  unfolding ended_def by (induction ss) (auto simp: live_session_def revoked_def)

lemma distinct_live_revoked:
  assumes "n \<noteq> []" and "distinct (map se_userId (filter live_session ss))"
  shows "distinct (map se_userId (filter live_session (update_first P (revoke_row n) ss))) \<and>
     set (map se_userId (filter live_session (update_first P (revoke_row n) ss))) \<subseteq> set (map se_userId (filter live_session ss))"
  using assms(2)
proof (induction ss)
  case (Cons s ss)
  then show ?case using assms(1) by (cases "P s"; cases "live_session s") auto
qed simp

lemma distinct_map_filter_impl: "distinct (map f (filter P xs)) \<Longrightarrow> (\<And>x. Q x \<Longrightarrow> P x) \<Longrightarrow> distinct (map f (filter Q xs))"
  by (induction xs) (auto split: if_splits)

lemma identity_inv_step:
  assumes "identity_inv st" and "identity_step ic st st'"
  shows "identity_inv st'"
proof -
  obtain sy x where x: "st' = exec_identity ic sy x st" "fresh_for ic sy st" using assms(2) by (elim identity_stepE)
  let ?t = "exec_identity ic sy x st"
  note fresh = x(2) [unfolded fresh_for_def] and inv = assms(1) [unfolded identity_inv_def]
  have s: "distinct (map se_id (is_sessions ?t)) \<and> distinct (map se_tokenHash (is_sessions ?t)) \<and> distinct (map se_userId (filter live_session (is_sessions ?t)))"
    using exec_sessions [of ic sy x st]
  proof (elim disjE exE conjE)
    fix u s assume s: "is_sessions ?t = ended u (sy_now sy) (is_sessions st) @ [s]" "se_userId s = u" "se_id s = sy_id sy" "se_revokedAt s = None"
      "se_tokenHash s = sha256_hex (ic_runtime ic) (''oaf_ses_'' @ cr_encode (ic_crypto ic) (sy_random sy))"
    have "distinct (map se_userId (filter (\<lambda>s. live_session s \<and> se_userId s \<noteq> u) (is_sessions st)))"
      by (rule distinct_map_filter_impl [where P = live_session]) (use inv in blast)+
    then have "distinct (map se_userId (filter live_session (ended u (sy_now sy) (is_sessions st) @ [s])))"
      using live_ended [OF fresh [THEN conjunct1]] s(2) by auto
    moreover have "distinct (map se_tokenHash (ended u (sy_now sy) (is_sessions st) @ [s]))"
      using inv fresh s(5) unfolding map_append ended_maps by auto
    moreover have "distinct (map se_id (ended u (sy_now sy) (is_sessions st) @ [s]))"
      using inv fresh s(3) unfolding map_append ended_maps by auto
    ultimately show ?thesis unfolding s(1) by blast
  next
    fix i assume "is_sessions ?t = update_first (\<lambda>s. se_id s = i) (revoke_row (sy_now sy)) (is_sessions st)"
    then show ?thesis using inv fresh distinct_live_revoked by (simp add: map_update_first)
  qed (use inv in simp)
  have t: "distinct (map tk_id (is_apiTokens ?t)) \<and> distinct (map tk_tokenHash (is_apiTokens ?t))"
    using exec_tokens [of ic sy x st] inv fresh by (auto simp: map_update_first)
  have "distinct (map au_id (is_auditEvents ?t))"
    using exec_audit [of ic sy x st] inv fresh by auto
  then show ?thesis using s t x(1) by (simp add: identity_inv_def)
qed

interpretation identity_store: invariant_system "\<lambda>st. st = initialState" "identity_step ic" identity_inv for ic
proof unfold_locales
  show "identity_inv st" if "st = initialState" for st using that by (simp add: identity_inv_def initialState_def)
qed (rule identity_inv_step)

text \<open>What no step takes back: sessions and tokens stay with their hashes, revocations are final, the trail only grows.\<close>

definition store_grows :: "identity_state \<Rightarrow> identity_state \<Rightarrow> bool" where
  "store_grows st st' \<longleftrightarrow>
     (\<forall>s \<in> set (is_sessions st). \<exists>s' \<in> set (is_sessions st'). se_id s' = se_id s \<and> se_tokenHash s' = se_tokenHash s \<and> se_userId s' = se_userId s \<and>
        (\<not> live_session s \<longrightarrow> \<not> live_session s')) \<and>
     (\<forall>t \<in> set (is_apiTokens st). \<exists>t' \<in> set (is_apiTokens st'). tk_id t' = tk_id t \<and> tk_tokenHash t' = tk_tokenHash t \<and> tk_userId t' = tk_userId t \<and>
        tk_workspaceIds t' = tk_workspaceIds t \<and> (revoked (tk_revokedAt t) \<longrightarrow> revoked (tk_revokedAt t'))) \<and>
     prefix (is_auditEvents st) (is_auditEvents st')"

lemma ended_keeps: "s \<in> set ss \<Longrightarrow> \<exists>s' \<in> set (ended u n ss). se_id s' = se_id s \<and> se_tokenHash s' = se_tokenHash s \<and> se_userId s' = se_userId s \<and>
    (\<not> live_session s \<longrightarrow> \<not> live_session s') \<and> (n \<noteq> [] \<longrightarrow> se_userId s = u \<longrightarrow> \<not> live_session s')"
  unfolding ended_def by (induction ss) (auto simp: live_session_def revoked_def)

lemma revoke_row_live: "\<not> live_session s \<Longrightarrow> \<not> live_session (revoke_row n s)"
  by (simp add: revoke_row_def live_session_def)

lemma revoked_token_row: "revoked (tk_revokedAt t) \<Longrightarrow> revoked (tk_revokedAt (revoke_token_row n t))"
  by (simp add: revoke_token_row_def)

lemma store_grows_step:
  assumes "identity_step ic st st'"
  shows "store_grows st st'"
proof -
  obtain sy x where x: "st' = exec_identity ic sy x st" "fresh_for ic sy st" using assms by (elim identity_stepE)
  let ?t = "exec_identity ic sy x st"
  have s: "\<exists>s' \<in> set (is_sessions ?t). se_id s' = se_id s \<and> se_tokenHash s' = se_tokenHash s \<and> se_userId s' = se_userId s \<and> (\<not> live_session s \<longrightarrow> \<not> live_session s')"
    if "s \<in> set (is_sessions st)" for s
    using exec_sessions [of ic sy x st] that
  proof (elim disjE exE conjE)
    fix u r assume "is_sessions ?t = ended u (sy_now sy) (is_sessions st) @ [r]"
    then show ?thesis using ended_keeps [OF that, of u "sy_now sy"] by auto
  next
    fix i assume "is_sessions ?t = update_first (\<lambda>s. se_id s = i) (revoke_row (sy_now sy)) (is_sessions st)"
    then have "s \<in> set (is_sessions ?t) \<or> revoke_row (sy_now sy) s \<in> set (is_sessions ?t)"
      using update_first_keeps [OF that, of "\<lambda>s. se_id s = i" "revoke_row (sy_now sy)"] by simp
    then show ?thesis using revoke_row_live [of s] by (elim disjE) (metis revoke_row_simps(1-3))+
  qed auto
  have t: "\<exists>t' \<in> set (is_apiTokens ?t). tk_id t' = tk_id t \<and> tk_tokenHash t' = tk_tokenHash t \<and> tk_userId t' = tk_userId t \<and> tk_workspaceIds t' = tk_workspaceIds t \<and>
      (revoked (tk_revokedAt t) \<longrightarrow> revoked (tk_revokedAt t'))"
    if "t \<in> set (is_apiTokens st)" for t
    using exec_tokens [of ic sy x st] that
  proof (elim disjE exE conjE)
    fix i assume "is_apiTokens ?t = update_first (\<lambda>t. tk_id t = i) (revoke_token_row (sy_now sy)) (is_apiTokens st)"
    then have "t \<in> set (is_apiTokens ?t) \<or> revoke_token_row (sy_now sy) t \<in> set (is_apiTokens ?t)"
      using update_first_keeps [OF that, of "\<lambda>t. tk_id t = i" "revoke_token_row (sy_now sy)"] by simp
    then show ?thesis using revoked_token_row [of t] by (elim disjE) (metis revoke_token_row_simps(1-4))+
  qed auto
  have "prefix (is_auditEvents st) (is_auditEvents ?t)" using exec_audit [of ic sy x st] by auto
  then show ?thesis using s t x(1) by (auto simp: store_grows_def)
qed

lemma store_grows_refl: "store_grows st st"
  by (auto simp: store_grows_def)

lemma store_grows_trans:
  assumes "store_grows a b" and "store_grows b c"
  shows "store_grows a c"
  unfolding store_grows_def
proof (intro conjI ballI)
  fix s assume "s \<in> set (is_sessions a)"
  then obtain s' where "s' \<in> set (is_sessions b)" "se_id s' = se_id s" "se_tokenHash s' = se_tokenHash s" "se_userId s' = se_userId s" "\<not> live_session s \<longrightarrow> \<not> live_session s'"
    using assms(1) unfolding store_grows_def by blast
  moreover from this obtain s'' where "s'' \<in> set (is_sessions c)" "se_id s'' = se_id s'" "se_tokenHash s'' = se_tokenHash s'" "se_userId s'' = se_userId s'" "\<not> live_session s' \<longrightarrow> \<not> live_session s''"
    using assms(2) unfolding store_grows_def by blast
  ultimately show "\<exists>s' \<in> set (is_sessions c). se_id s' = se_id s \<and> se_tokenHash s' = se_tokenHash s \<and> se_userId s' = se_userId s \<and> (\<not> live_session s \<longrightarrow> \<not> live_session s')"
    by (intro bexI [of _ s'']) auto
next
  fix t assume "t \<in> set (is_apiTokens a)"
  then obtain t' where "t' \<in> set (is_apiTokens b)" "tk_id t' = tk_id t" "tk_tokenHash t' = tk_tokenHash t" "tk_userId t' = tk_userId t" "tk_workspaceIds t' = tk_workspaceIds t"
      "revoked (tk_revokedAt t) \<longrightarrow> revoked (tk_revokedAt t')"
    using assms(1) unfolding store_grows_def by blast
  moreover from this obtain t'' where "t'' \<in> set (is_apiTokens c)" "tk_id t'' = tk_id t'" "tk_tokenHash t'' = tk_tokenHash t'" "tk_userId t'' = tk_userId t'" "tk_workspaceIds t'' = tk_workspaceIds t'"
      "revoked (tk_revokedAt t') \<longrightarrow> revoked (tk_revokedAt t'')"
    using assms(2) unfolding store_grows_def by blast
  ultimately show "\<exists>t' \<in> set (is_apiTokens c). tk_id t' = tk_id t \<and> tk_tokenHash t' = tk_tokenHash t \<and> tk_userId t' = tk_userId t \<and> tk_workspaceIds t' = tk_workspaceIds t \<and>
      (revoked (tk_revokedAt t) \<longrightarrow> revoked (tk_revokedAt t'))"
    by (intro bexI [of _ t'']) auto
next
  show "prefix (is_auditEvents a) (is_auditEvents c)" using assms unfolding store_grows_def by (meson prefix_order.trans)
qed

lemma store_grows_steps:
  assumes "(identity_step ic)\<^sup>*\<^sup>* st st'" and "identity_inv st"
  shows "store_grows st st' \<and> identity_inv st'"
  using identity_store.steps_mono [of ic store_grows st st'] assms store_grows_step store_grows_refl store_grows_trans by blast

lemma reachable_inv: "reach (\<lambda>st. st = initialState) (identity_step ic) st \<Longrightarrow> identity_inv st"
  by (rule identity_store.reach_inv)

section \<open>Properties\<close>

text \<open>A user never has two sessions that are not revoked, and no two sessions or tokens of the store share their identifier or the hash by which they are found.\<close>

theorem one_live_session_per_user:
  assumes "reach (\<lambda>st. st = initialState) (identity_step ic) st"
  shows "(\<forall>s \<in> set (is_sessions st). \<forall>r \<in> set (is_sessions st). live_session s \<and> live_session r \<and> se_userId s = se_userId r \<longrightarrow> s = r) \<and>
    distinct (map se_tokenHash (is_sessions st)) \<and> distinct (map tk_tokenHash (is_apiTokens st)) \<and>
    distinct (map se_id (is_sessions st)) \<and> distinct (map tk_id (is_apiTokens st))"
  using reachable_inv [OF assms] by (auto simp: identity_inv_def distinct_map inj_on_def)

lemma dead_session_is_refused:
  assumes "identity_inv st" and "s \<in> set (is_sessions st)" and "\<not> live_session s" and "se_tokenHash s = sha256_hex rt t"
  shows "authenticateSession rt (Str t) now st = None"
proof -
  have "r = s" if "r \<in> set (is_sessions st)" "se_tokenHash r = sha256_hex rt t" for r
    using that assms by (auto simp: identity_inv_def distinct_map inj_on_def)
  then have "List.find (\<lambda>s. se_tokenHash s = sha256_hex rt t \<and> activeAt rt (se_revokedAt s) (Str (se_expiresAt s)) now) (is_sessions st) = None"
    using assms(3) by (auto simp: find_None_iff activeAt_def live_session_def)
  then show ?thesis by (simp add: authenticateSession_def)
qed

lemma dead_token_is_refused:
  assumes "identity_inv st" and "r \<in> set (is_apiTokens st)" and "revoked (tk_revokedAt r)" and "tk_tokenHash r = sha256_hex rt t"
  shows "authenticateApiToken rt (Str t) now st = None"
proof -
  have "q = r" if "q \<in> set (is_apiTokens st)" "tk_tokenHash q = sha256_hex rt t" for q
    using that assms by (auto simp: identity_inv_def distinct_map inj_on_def)
  then have "List.find (\<lambda>r. tk_tokenHash r = sha256_hex rt t \<and> activeAt rt (tk_revokedAt r) (tk_expiresAt r) now) (is_apiTokens st) = None"
    using assms(3) by (auto simp: find_None_iff activeAt_def)
  then show ?thesis by (simp add: authenticateApiToken_def)
qed

lemma dead_session_stays_dead:
  assumes "identity_inv st" and "s \<in> set (is_sessions st)" and "\<not> live_session s" and "se_tokenHash s = sha256_hex rt t"
    and "(identity_step ic)\<^sup>*\<^sup>* st st'"
  shows "authenticateSession rt (Str t) now st' = None"
proof -
  have g: "store_grows st st'" "identity_inv st'" using store_grows_steps assms by blast+
  then obtain s' where "s' \<in> set (is_sessions st')" "se_tokenHash s' = se_tokenHash s" "\<not> live_session s'"
    using assms(2,3) unfolding store_grows_def by blast
  then show ?thesis using dead_session_is_refused [OF g(2)] assms(4) by simp
qed

text \<open>C9: A new session ends all earlier ones: whatever happens later, the token of an earlier session of that user never authenticates again.\<close>

theorem new_login_ends_old_sessions:
  assumes "reach (\<lambda>st. st = initialState) (identity_step ic) st" and "fresh_for ic sy st"
    and "createSession ic sy u a b st = Inr (st', s, token, csrf)"
    and "old \<in> set (is_sessions st)" and "se_userId old = u" and "se_tokenHash old = sha256_hex rt t"
    and "(identity_step ic)\<^sup>*\<^sup>* st' later"
  shows "authenticateSession rt (Str t) now later = None"
proof -
  have "st' = exec_identity ic sy (NewSession u a b) st" using assms(3) by (simp add: kept_def)
  then have "identity_step ic st st'" using identity_stepI [OF assms(2), of "NewSession u a b"] by metis
  then have inv: "identity_inv st'" using identity_inv_step reachable_inv [OF assms(1)] by blast
  have "is_sessions st' = ended u (sy_now sy) (is_sessions st) @ [s]" using createSession_effect [OF assms(3)] by blast
  moreover obtain old' where "old' \<in> set (ended u (sy_now sy) (is_sessions st))" "se_tokenHash old' = se_tokenHash old" "\<not> live_session old'"
    using ended_keeps [OF assms(4), of u "sy_now sy"] assms(2,5) by (auto simp: fresh_for_def)
  ultimately show ?thesis using dead_session_stays_dead [OF inv _ _ _ assms(7), of old' rt t now] assms(6) by simp
qed

lemma dead_token_stays_dead:
  assumes "identity_inv st" and "r \<in> set (is_apiTokens st)" and "revoked (tk_revokedAt r)" and "tk_tokenHash r = sha256_hex rt t"
    and "(identity_step ic)\<^sup>*\<^sup>* st st'"
  shows "authenticateApiToken rt (Str t) now st' = None"
proof -
  have g: "store_grows st st'" "identity_inv st'" using store_grows_steps assms by blast+
  then obtain r' where "r' \<in> set (is_apiTokens st')" "tk_tokenHash r' = tk_tokenHash r" "revoked (tk_revokedAt r')"
    using assms(2,3) unfolding store_grows_def by blast
  then show ?thesis using dead_token_is_refused [OF g(2)] assms(4) by simp
qed

lemma update_first_hits: "r \<in> set rs \<Longrightarrow> distinct (map g rs) \<Longrightarrow> f r \<in> set (update_first (\<lambda>q. g q = g r) f rs)"
  by (induction rs) auto

text \<open>C25: A session or API token that was revoked by its identifier is refused for ever, whatever happens later.\<close>

theorem revocation_is_final:
  assumes "reach (\<lambda>st. st = initialState) (identity_step ic) st" and "fresh_for ic sy st"
  shows "(\<forall>s \<in> set (is_sessions st). \<forall>rt t now a later. se_tokenHash s = sha256_hex rt t \<longrightarrow>
      (identity_step ic)\<^sup>*\<^sup>* (fst (revokeSession sy (se_id s) a st)) later \<longrightarrow> authenticateSession rt (Str t) now later = None) \<and>
    (\<forall>r \<in> set (is_apiTokens st). \<forall>rt t now a later. tk_tokenHash r = sha256_hex rt t \<longrightarrow>
      (identity_step ic)\<^sup>*\<^sup>* (fst (revokeApiToken sy (tk_id r) a st)) later \<longrightarrow> authenticateApiToken rt (Str t) now later = None)"
proof (intro conjI ballI allI impI)
  note inv = reachable_inv [OF assms(1)] and now = assms(2) [unfolded fresh_for_def, THEN conjunct1]
  have step: "identity_inv (exec_identity ic sy x st)" for x using identity_inv_step [OF inv identity_stepI [OF assms(2)]] .
  {
    fix s t clock a later and rt :: runtime
    assume s: "s \<in> set (is_sessions st)" "se_tokenHash s = sha256_hex rt t" "(identity_step ic)\<^sup>*\<^sup>* (fst (revokeSession sy (se_id s) a st)) later"
    have "revoke_row (sy_now sy) s \<in> set (is_sessions (fst (revokeSession sy (se_id s) a st)))"
      using update_first_hits [OF s(1), of se_id "revoke_row (sy_now sy)"] inv revokeSession_effect by (simp add: identity_inv_def)
    then show "authenticateSession rt (Str t) clock later = None"
      using dead_session_stays_dead [OF _ _ _ _ s(3), of "revoke_row (sy_now sy) s" rt t clock] step [of "RevokeSession (se_id s) a"] now s(2) by simp
  next
    fix r t clock a later and rt :: runtime
    assume r: "r \<in> set (is_apiTokens st)" "tk_tokenHash r = sha256_hex rt t" "(identity_step ic)\<^sup>*\<^sup>* (fst (revokeApiToken sy (tk_id r) a st)) later"
    have "revoke_token_row (sy_now sy) r \<in> set (is_apiTokens (fst (revokeApiToken sy (tk_id r) a st)))"
      using update_first_hits [OF r(1), of tk_id "revoke_token_row (sy_now sy)"] inv revokeApiToken_effect by (simp add: identity_inv_def)
    moreover have "revoked (tk_revokedAt (revoke_token_row (sy_now sy) r))" using now by (simp add: revoke_token_row_def revoked_def)
    ultimately show "authenticateApiToken rt (Str t) clock later = None"
      using dead_token_stays_dead [OF _ _ _ _ r(3), of "revoke_token_row (sy_now sy) r" rt t clock] step [of "RevokeToken (tk_id r) a"] r(2) by simp
  }
qed

text \<open>The tokens of a reachable store were granted by an owner: at some earlier point every workspace of the token was owned by its user.\<close>

definition granted :: "identity_config \<Rightarrow> identity_state \<Rightarrow> api_token \<Rightarrow> bool" where
  "granted ic st t \<longleftrightarrow> (\<exists>then_st. reach (\<lambda>st. st = initialState) (identity_step ic) then_st \<and> (identity_step ic)\<^sup>*\<^sup>* then_st st \<and>
     set (tk_workspaceIds t) \<subseteq> set (owned_workspaces (tk_userId t) then_st))"

lemma granted_step: "granted ic st t \<Longrightarrow> identity_step ic st st' \<Longrightarrow> granted ic st' t"
  unfolding granted_def by (meson rtranclp.rtrancl_into_rtrancl)

lemma granted_revoke [simp]: "granted ic st (revoke_token_row n t) = granted ic st t"
  by (simp add: granted_def)

lemma tokens_were_granted:
  assumes "reach (\<lambda>st. st = initialState) (identity_step ic) st"
  shows "\<forall>t \<in> set (is_apiTokens st). granted ic st t"
  using assms
proof (induction rule: reach.induct)
  case (reach_init st)
  then show ?case by (simp add: initialState_def)
next
  case (reach_step st st')
  obtain sy x where x: "st' = exec_identity ic sy x st" using reach_step.hyps(2) by (elim identity_stepE)
  have old: "granted ic st' t" if "t \<in> set (is_apiTokens st)" for t
    using granted_step [OF _ reach_step.hyps(2)] reach_step.IH that by blast
  show ?case
    using exec_tokens [of ic sy x st] unfolding x [symmetric]
  proof (elim disjE exE conjE)
    fix t assume t: "is_apiTokens st' = is_apiTokens st @ [t]" "set (tk_workspaceIds t) \<subseteq> set (owned_workspaces (tk_userId t) st)"
    have "granted ic st' t" unfolding granted_def using reach_step.hyps t(2) by (meson r_into_rtranclp)
    then show ?thesis using old t(1) by auto
  next
    fix i assume "is_apiTokens st' = update_first (\<lambda>t. tk_id t = i) (revoke_token_row (sy_now sy)) (is_apiTokens st)"
    then show ?thesis using old in_update_first [of _ "\<lambda>t. tk_id t = i" "revoke_token_row (sy_now sy)" "is_apiTokens st"] by fastforce
  qed (use old in auto)
qed

text \<open>C27: An API token gives no more than active memberships of its active user in the token's workspaces, each of which that user owned at an earlier point of the store's history.\<close>

theorem token_authority_is_bounded:
  assumes "reach (\<lambda>st. st = initialState) (identity_step ic) st" and "authenticateApiToken rt token now st = Some h"
  shows "th_user h \<in> set (is_users st) \<and> active_user (th_user h) \<and> th_memberships h \<noteq> [] \<and> \<not> revoked (tk_revokedAt (th_token h)) \<and>
    (\<forall>m \<in> set (th_memberships h). m \<in> set (is_memberships st) \<and> mb_userId m = us_id (th_user h) \<and> mb_status m = Str ''active'' \<and>
      (\<exists>then_st. reach (\<lambda>st. st = initialState) (identity_step ic) then_st \<and> (identity_step ic)\<^sup>*\<^sup>* then_st st \<and>
         mb_workspaceId m \<in> set (owned_workspaces (us_id (th_user h)) then_st)))"
proof -
  obtain t r u where t: "token = Str t"
      "List.find (\<lambda>r. tk_tokenHash r = sha256_hex rt t \<and> activeAt rt (tk_revokedAt r) (tk_expiresAt r) now) (is_apiTokens st) = Some r"
      "List.find (\<lambda>u. us_id u = tk_userId r \<and> active_user u) (is_users st) = Some u"
      "h = \<lparr>th_token = r, th_user = u, th_memberships =
         filter (\<lambda>m. mb_userId m = us_id u \<and> mb_status m = Str ''active'' \<and> mb_workspaceId m \<in> set (tk_workspaceIds r)) (is_memberships st)\<rparr>" "th_memberships h \<noteq> []"
    using assms(2) by (auto simp: authenticateApiToken_def Let_def split: js.splits if_splits option.splits)
  note r = find_SomeD [OF t(2)] and u = find_SomeD [OF t(3)]
  have "granted ic st r" using tokens_were_granted [OF assms(1)] r by blast
  then show ?thesis using r u t(4,5) by (auto simp: granted_def activeAt_def)
qed

section \<open>The audit trail\<close>

definition clean_entry :: "string \<times> js \<Rightarrow> bool" where
  "clean_entry e \<longleftrightarrow> \<not> blocked_key (fst e) \<and> (case snd e of Str s \<Rightarrow> length s \<le> 240 | Num _ \<Rightarrow> True | Bool _ \<Rightarrow> True | Null \<Rightarrow> True | _ \<Rightarrow> False)"

lemma metadata_value_clean: "metadata_value v = Some w \<Longrightarrow> \<not> blocked_key k \<Longrightarrow> clean_entry (k, w)"
  by (cases v) (auto simp: metadata_value_def clean_entry_def)

lemma sanitized_clean: "list_all clean_entry (sanitizeAuditMetadata m)"
proof -
  have "clean_entry e" if "(k, v) \<in> set (own_entries m)" "e \<in> set (if blocked_key k then [] else case metadata_value v of None \<Rightarrow> [] | Some w \<Rightarrow> [(k, w)])" for k v e
    using that metadata_value_clean [of v, OF sym] by (auto split: if_splits option.splits)
  then show ?thesis unfolding sanitizeAuditMetadata_def list_all_iff set_concat by auto
qed

lemma audit_clean [simp]: "list_all clean_entry (au_metadata (audit i n e))"
  by (simp add: audit_def sanitized_clean)

definition clean_trail :: "identity_state \<Rightarrow> bool" where
  "clean_trail st \<longleftrightarrow> (\<forall>e \<in> set (is_auditEvents st). list_all clean_entry (au_metadata e))"

lemma clean_trail_step: "clean_trail st \<Longrightarrow> identity_step ic st st' \<Longrightarrow> clean_trail st'"
proof (elim identity_stepE)
  fix sy x assume "clean_trail st" "st' = exec_identity ic sy x st"
  then show "clean_trail st'" using exec_audit [of ic sy x st] by (auto simp: clean_trail_def)
qed

interpretation audit_trail: invariant_system "\<lambda>st. st = initialState" "identity_step ic" clean_trail for ic
proof unfold_locales
  show "clean_trail st" if "st = initialState" for st using that by (simp add: clean_trail_def initialState_def)
qed (rule clean_trail_step)

text \<open>The audit trail of a store is only ever extended, and its events hold scalars of bounded length under no key that looks like a credential.\<close>

theorem audit_trail_is_append_only:
  assumes "reach (\<lambda>st. st = initialState) (identity_step ic) st" and "(identity_step ic)\<^sup>*\<^sup>* st later"
  shows "prefix (is_auditEvents st) (is_auditEvents later) \<and> (\<forall>e \<in> set (is_auditEvents later). list_all clean_entry (au_metadata e))"
proof -
  have "clean_trail later"
    using audit_trail.steps_mono [of ic "\<lambda>_ _. True" st later] audit_trail.reach_inv assms by blast
  then show ?thesis using store_grows_steps [OF assms(2)] reachable_inv [OF assms(1)] by (auto simp: store_grows_def clean_trail_def)
qed

text \<open>The event of a revoked token does not say which token it was: its only detail is kept under \<open>tokenId\<close>, a key that the trail leaves out.\<close>

lemma token_revocation_is_anonymous:
  "\<exists>e. is_auditEvents (fst (revokeApiToken sy i a st)) = is_auditEvents st @ [e] \<and> au_metadata e = []"
  by (simp add: revokeApiToken_def Let_def audit_def or_default_def sanitizeAuditMetadata_def blocked_key_def lower_char_def is_upper_def)

section \<open>Costs of scrypt\<close>

lemma power_of_two_if_and_pred: "0 < n \<Longrightarrow> and n (n - 1) = (0::int) \<Longrightarrow> \<exists>k. n = 2 ^ k"
proof (induction "nat n" arbitrary: n rule: less_induct)
  case less
  show ?case
  proof (cases "even n")
    case True
    then obtain m where m: "n = 2 * m" by blast
    have "(2 * m - 1) div 2 = m - 1" by simp
    then have "and n (n - 1) = 2 * and m (m - 1)" using m by (subst and_int_rec) auto
    then obtain k where "m = 2 ^ k" using less m by force
    then show ?thesis using m by (intro exI [of _ "Suc k"]) simp
  next
    case False
    then obtain m where m: "n = 2 * m + 1" by (elim oddE)
    have "and n (n - 1) = 2 * m" using m by (subst and_int_rec) simp
    then show ?thesis using m less.prems(2) by (intro exI [of _ 0]) simp
  qed
qed

text \<open>Below 2 to the 32 every cost that the options accept is a power of two of at least 1024, with positive block and parallel costs and a key of 16 bytes or more; above, the test sees only the low 32 bits and accepts 4294968320, which is no power of two.\<close>

theorem scrypt_costs_are_powers_of_two:
  "(scryptOptions rt input = Inr so \<longrightarrow>
      1024 \<le> so_N so \<and> 1 \<le> so_r so \<and> 1 \<le> so_p so \<and> 16 \<le> so_keyLength so \<and> (so_N so < 2 ^ 32 \<longrightarrow> (\<exists>k. so_N so = 2 ^ k))) \<and>
   scryptOptions rt (Obj [(''N'', Num 4294968320)]) = Inr \<lparr>so_N = 4294968320, so_r = 8, so_p = 1, so_keyLength = 32\<rparr>"
proof (intro conjI impI)
  assume a: "scryptOptions rt input = Inr so"
  then have s: "1024 \<le> so_N so" "1 \<le> so_r so" "1 \<le> so_p so" "16 \<le> so_keyLength so" "and (so_N so mod 2 ^ 32) ((so_N so - 1) mod 2 ^ 32) = 0"
    by (auto simp: scryptOptions_def Let_def split: option.splits if_splits)
  show "1024 \<le> so_N so" "1 \<le> so_r so" "1 \<le> so_p so" "16 \<le> so_keyLength so" using s by simp_all
  assume "so_N so < 2 ^ 32"
  then have "and (so_N so) (so_N so - 1) = 0" using s by (simp add: mod_pos_pos_trivial)
  then show "\<exists>k. so_N so = 2 ^ k" using power_of_two_if_and_pred s(1) by simp
next
  show "scryptOptions rt (Obj [(''N'', Num 4294968320)]) = Inr \<lparr>so_N = 4294968320, so_r = 8, so_p = 1, so_keyLength = 32\<rparr>"
    by (simp add: scryptOptions_def Let_def js_integer_def orelse_def)
qed

section \<open>Passwords\<close>

text \<open>C33: What hashPassword stores verifies the same password: the credential reads back into the costs, salt and key it was made of, for any encoding of bytes and printing of numbers that avoid the separator and can be read back on the parts at hand.\<close>

theorem stored_password_verifies:
  assumes "hashPassword rt cr so salt (Str password) = Inr stored"
    and "\<And>s. cr_decode cr (cr_encode cr s) = s" and "\<And>s. CHR ''$'' \<notin> set (cr_encode cr s)"
    and "\<And>n. n \<in> {so_N so, so_r so, so_p so} \<Longrightarrow> str_number (num_str rt (of_int n)) = Some (of_int n) \<and> CHR ''$'' \<notin> set (num_str rt (of_int n))"
    and "\<And>key. cr_scrypt cr password salt (Some (of_int (so_N so))) (Some (of_int (so_r so))) (Some (of_int (so_p so))) (nat (so_keyLength so)) = Some key \<Longrightarrow>
      length key = nat (so_keyLength so)"
  shows "verifyCredential cr (Str password) stored = Inr True"
proof -
  obtain pw key where pw: "assertPasswordPolicy (Str password) = Inr pw"
      "run_scrypt cr pw salt (Some (of_int (so_N so))) (Some (of_int (so_r so))) (Some (of_int (so_p so))) (nat (so_keyLength so)) = Inr key"
      "stored = join ''$'' [''scrypt'', ''v1'', num_str rt (of_int (so_N so)), num_str rt (of_int (so_r so)), num_str rt (of_int (so_p so)), cr_encode cr salt, cr_encode cr key]"
    using assms(1) by (auto simp only: hashPassword_def bind_res_eq_Inr sum.inject)
  have p: "pw = password" using pw(1) by (auto simp: assertPasswordPolicy_def split: if_splits)
  have k: "length key = nat (so_keyLength so)" using pw(2) assms(5) unfolding p by (auto simp: run_scrypt_def split: option.splits)
  have "split_at (CHR ''$'') stored =
      [''scrypt'', ''v1'', num_str rt (of_int (so_N so)), num_str rt (of_int (so_r so)), num_str rt (of_int (so_p so)), cr_encode cr salt, cr_encode cr key]"
    unfolding pw(3) by (rule split_join) (use assms(3,4) in auto)
  then have "parseCredential cr stored = Inr \<lparr>cd_N = Some (of_int (so_N so)), cd_r = Some (of_int (so_r so)), cd_p = Some (of_int (so_p so)), cd_salt = salt, cd_key = key\<rparr>"
    using assms(2,4) by (simp add: parseCredential_def)
  then show ?thesis using pw(1,2) k by (simp add: verifyCredential_def)
qed

section \<open>The first owner\<close>

text \<open>Users are only added: no operation removes, renames or deactivates one.\<close>

lemma bootstrap_users: "bootstrapOwner ic sy u d p w n st = Inr (st', r) \<Longrightarrow> \<exists>us. is_users st' = is_users st @ us"
  by (auto simp: bootstrapOwner_def Let_def bind_res_eq_Inr)

lemma createUser_users: "createUser ic sy u d p s st = Inr (st', r) \<Longrightarrow> \<exists>us. is_users st' = is_users st @ us"
  by (auto simp: createUser_def Let_def bind_res_eq_Inr)

lemma putWorkspace_users: "putWorkspace sy w n st = Inr (st', r) \<Longrightarrow> is_users st' = is_users st"
  by (auto simp: putWorkspace_def Let_def bind_res_eq_Inr)

lemma putMembership_users: "putMembership sy u w l s st = Inr (st', r) \<Longrightarrow> is_users st' = is_users st"
  by (auto simp: putMembership_def Let_def bind_res_eq_Inr)

lemma createSession_users: "createSession ic sy u a b st = Inr (st', r) \<Longrightarrow> is_users st' = is_users st"
  by (auto simp: createSession_def Let_def bind_res_eq_Inr)

lemma createApiToken_users: "createApiToken ic sy u n w s e st = Inr (st', r) \<Longrightarrow> is_users st' = is_users st"
  by (auto simp: createApiToken_def Let_def bind_res_eq_Inr)

lemma other_users:
  "is_users (fst (verifyPassword ic sy u p st)) = is_users st" "is_users (fst (revokeSession sy i a st)) = is_users st"
  "is_users (fst (revokeApiToken sy i a st)) = is_users st" "is_users (fst (recordAuditEvent sy e st)) = is_users st"
  by (auto simp: verifyPassword_def revokeSession_def revokeApiToken_def recordAuditEvent_def Let_def split: option.splits bool.splits)

lemma kept_users:
  assumes "\<And>st' a. r = Inr (st', a) \<Longrightarrow> \<exists>us. is_users st' = is_users st @ us"
  shows "\<exists>us. is_users (kept r st) = is_users st @ us"
  using kept_cases [of r st] assms by auto

lemma same_users: "is_users st' = is_users st \<Longrightarrow> \<exists>us. is_users st' = is_users st @ us"
  by simp

lemmas users_only_grow = bootstrap_users createUser_users same_users [OF putWorkspace_users] same_users [OF putMembership_users]
  same_users [OF createSession_users] same_users [OF createApiToken_users]

lemma exec_users: "\<exists>us. is_users (exec_identity ic sy x st) = is_users st @ us"
  by (cases x) (simp_all only: exec_identity.simps other_users, (rule kept_users, erule users_only_grow | rule exI [of _ "[]"], simp)+)

text \<open>The states that operations with any supply of identifiers lead to.\<close>

definition later_state :: "identity_config \<Rightarrow> identity_state \<Rightarrow> identity_state \<Rightarrow> bool" where
  "later_state ic st st' \<longleftrightarrow> (\<exists>calls. st' = foldl (\<lambda>s (sy, x). exec_identity ic sy x s) st calls)"

lemma later_users: "later_state ic st st' \<Longrightarrow> \<exists>us. is_users st' = is_users st @ us"
proof -
  have "\<exists>us. is_users (foldl (\<lambda>s (sy, x). exec_identity ic sy x s) st calls) = is_users st @ us" for calls
  proof (induction calls arbitrary: st)
    case (Cons c calls)
    obtain sy x where c: "c = (sy, x)" by (cases c)
    obtain us where "is_users (exec_identity ic sy x st) = is_users st @ us" using exec_users by blast
    then show ?case using Cons.IH [of "exec_identity ic sy x st"] by (auto simp: c)
  qed simp
  then show "later_state ic st st' \<Longrightarrow> \<exists>us. is_users st' = is_users st @ us" unfolding later_state_def by blast
qed

text \<open>C40: bootstrapOwner does not look whether its username is taken. When an active user already has it, and the new
  owner's identifier is fresh, then in the state after it and in every later state, after any sequence of operations, no
  username and no password sign the new owner in: the name, however it is capitalised, leads to the other user or to nobody.\<close>

theorem bootstrap_can_lock_the_owner_out:
  assumes "bootstrapOwner ic sy (Str name) display password ws wsname st = Inr (st', r)" and "sy_id sy \<notin> us_id ` set (is_users st)"
    and "List.find (\<lambda>u. us_usernameKey u = map lower_char name \<and> active_user u) (is_users st) = Some other"
    and "later_state ic st' later"
  shows "\<exists>owner. is_users st' = is_users st @ [owner] \<and> us_id owner = sy_id sy \<and> us_usernameKey owner = map lower_char name \<and> active_user owner \<and>
    owner \<in> set (is_users later) \<and>
    (\<forall>sy' typed pw. snd (verifyPassword ic sy' typed pw later) \<noteq> Some owner \<and>
       (map lower_char (str_of_js typed) = map lower_char name \<longrightarrow> snd (verifyPassword ic sy' typed pw later) \<in> {None, Some other}))"
proof -
  obtain key where k: "normalizeUsername (Str name) = Inr key" and
    u: "\<exists>owner. is_users st' = is_users st @ [owner] \<and> us_id owner = sy_id sy \<and> us_usernameKey owner = key \<and> active_user owner"
    using assms(1) by (auto simp: bootstrapOwner_def Let_def bind_res_eq_Inr new_user_def active_user_def)
  have key: "key = map lower_char name" using k by (auto simp: normalizeUsername_def text_where_def bind_res_eq_Inr split: if_splits)
  obtain owner where o: "is_users st' = is_users st @ [owner]" "us_id owner = sy_id sy" "us_usernameKey owner = map lower_char name" "active_user owner"
    using u unfolding key by blast
  have "other \<in> set (is_users st)" using find_SomeD [OF assms(3)] by blast
  then have other: "other \<noteq> owner" using assms(2) o(2) by (metis imageI)
  obtain us where l: "is_users later = is_users st' @ us" using later_users [OF assms(4)] by blast
  have first: "List.find (\<lambda>u. us_usernameKey u = map lower_char name \<and> active_user u) (is_users later) = Some other"
    unfolding l o(1) by (simp add: find_append assms(3))
  have named: "snd (verifyPassword ic sy' typed pw later) \<in> {None, Some other}" if "map lower_char (str_of_js typed) = map lower_char name" for sy' typed pw
    using that first by (auto simp: verifyPassword_def Let_def split: bool.split)
  have "snd (verifyPassword ic sy' typed pw later) \<noteq> Some owner" for sy' typed pw
  proof (cases "map lower_char (str_of_js typed) = map lower_char name")
    case True
    then show ?thesis using named [OF True, of sy' pw] other by auto
  next
    case False
    then show ?thesis using o(3) by (auto simp: verifyPassword_def Let_def split: option.splits bool.splits dest!: find_SomeD)
  qed
  then show ?thesis using o l named by (intro exI [of _ owner]) auto
qed

section \<open>Examples\<close>

text \<open>Bytes written as binary digits; a key is the password cut or filled to its length.\<close>

definition bit_char :: "bool \<Rightarrow> char" where
  "bit_char b = (if b then CHR ''1'' else CHR ''0'')"

fun binary_text :: "string \<Rightarrow> string" where
  "binary_text [] = []"
| "binary_text (Char a b c d e f g h # s) = map bit_char [a, b, c, d, e, f, g, h] @ binary_text s"

fun text_of_binary :: "string \<Rightarrow> string" where
  "text_of_binary (a # b # c # d # e # f # g # h # s) =
     Char (a = CHR ''1'') (b = CHR ''1'') (c = CHR ''1'') (d = CHR ''1'') (e = CHR ''1'') (f = CHR ''1'') (g = CHR ''1'') (h = CHR ''1'') # text_of_binary s"
| "text_of_binary _ = []"

lemma text_of_binary_text: "text_of_binary (binary_text s) = s"
  by (induction s rule: binary_text.induct) (auto simp: bit_char_def)

lemma binary_text_chars: "CHR ''$'' \<notin> set (binary_text s)"
  by (induction s rule: binary_text.induct) (auto simp: bit_char_def)

definition ex_config :: identity_config where
  "ex_config = \<lparr>ic_runtime = \<lparr>date_parse = (\<lambda>_. Some 0), to_iso = (\<lambda>_. ''2026-01-08''), num_str = (\<lambda>n. if n = 32768 then ''32768'' else if n = 8 then ''8'' else ''1''),
       sha256_hex = (\<lambda>s. s), to_lower = (\<lambda>s. s), locale_compare = (\<lambda>_ _. 0)\<rparr>,
     ic_crypto = \<lparr>cr_scrypt = (\<lambda>p s n r q k. Some (take k (p @ replicate k CHR ''x''))), cr_encode = binary_text, cr_decode = text_of_binary\<rparr>,
     ic_scrypt = \<lparr>so_N = 32768, so_r = 8, so_p = 1, so_keyLength = 16\<rparr>, ic_dummy = []\<rparr>"

definition ex_supply :: "char \<Rightarrow> fresh_supply" where
  "ex_supply c = \<lparr>sy_now = ''2026-01-01'', sy_id = [c], sy_id' = [c, c], sy_auditId = [c], sy_salt = ''s'', sy_random = [c], sy_random' = [c, c]\<rparr>"

definition ex_ops :: "(char \<times> identity_op) list" where
  "ex_ops = [(CHR ''a'', NewUser (Str ''ann'') (Str ''Ann'') (Str ''long password'') Undef),
     (CHR ''b'', PutMembership ''a'' (Str ''ws_one'') (Str ''owner'') Undef),
     (CHR ''c'', NewToken ''a'' (Str ''ci'') (Arr [Str ''ws_one'']) (Arr [Str ''memory:read'']) Undef),
     (CHR ''d'', NewSession ''a'' Null Null), (CHR ''e'', NewSession ''a'' Null Null)]"

fun ex_run :: "(char \<times> identity_op) list \<Rightarrow> identity_state \<Rightarrow> identity_state" where
  "ex_run [] st = st"
| "ex_run ((c, x) # xs) st = ex_run xs (exec_identity ex_config (ex_supply c) x st)"

fun ex_fresh :: "(char \<times> identity_op) list \<Rightarrow> identity_state \<Rightarrow> bool" where
  "ex_fresh [] st = True"
| "ex_fresh ((c, x) # xs) st = (fresh_for ex_config (ex_supply c) st \<and> ex_fresh xs (exec_identity ex_config (ex_supply c) x st))"

lemma ex_run_reach:
  "ex_fresh xs st \<Longrightarrow> reach (\<lambda>st. st = initialState) (identity_step ex_config) st \<Longrightarrow> reach (\<lambda>st. st = initialState) (identity_step ex_config) (ex_run xs st)"
  by (induction xs st rule: ex_run.induct) (auto intro: reach.reach_step identity_stepI)

lemma ex_ops_fresh: "ex_fresh ex_ops initialState" "ex_fresh (take 4 ex_ops) initialState" "ex_fresh (take 1 ex_ops) initialState"
  by code_simp+

lemma ex_reach:
  "reach (\<lambda>st. st = initialState) (identity_step ex_config) (ex_run ex_ops initialState)"
  "reach (\<lambda>st. st = initialState) (identity_step ex_config) (ex_run (take 4 ex_ops) initialState)"
  "reach (\<lambda>st. st = initialState) (identity_step ex_config) (ex_run (take 1 ex_ops) initialState)"
  by (rule ex_run_reach; (rule ex_ops_fresh | simp add: reach.reach_init))+

lemma one_live_session_per_user_witness:
  "map live_session (is_sessions (ex_run ex_ops initialState)) = [False, True] \<and> distinct (map se_tokenHash (is_sessions (ex_run ex_ops initialState)))"
proof
  show "map live_session (is_sessions (ex_run ex_ops initialState)) = [False, True]" by code_simp
qed (use one_live_session_per_user [OF ex_reach(1)] in blast)

definition ex_login :: "(identity_error, identity_state \<times> session \<times> string \<times> string) result" where
  "ex_login = createSession ex_config (ex_supply CHR ''e'') ''a'' Null Null (ex_run (take 4 ex_ops) initialState)"

lemma new_login_ends_old_sessions_witness:
  "authenticateSession (ic_runtime ex_config) (Str (''oaf_ses_'' @ binary_text ''d'')) ''2026-01-01'' (ex_run (take 4 ex_ops) initialState) \<noteq> None \<and>
   authenticateSession (ic_runtime ex_config) (Str (''oaf_ses_'' @ binary_text ''d'')) ''2026-01-01'' (fst (projr ex_login)) = None"
proof
  show "authenticateSession (ic_runtime ex_config) (Str (''oaf_ses_'' @ binary_text ''d'')) ''2026-01-01'' (ex_run (take 4 ex_ops) initialState) \<noteq> None" by code_simp
  have f: "fresh_for ex_config (ex_supply CHR ''e'') (ex_run (take 4 ex_ops) initialState)" by code_simp
  have l: "isl ex_login = False" by code_simp
  then have c: "createSession ex_config (ex_supply CHR ''e'') ''a'' Null Null (ex_run (take 4 ex_ops) initialState) =
      Inr (fst (projr ex_login), fst (snd (projr ex_login)), fst (snd (snd (projr ex_login))), snd (snd (snd (projr ex_login))))"
    unfolding ex_login_def [symmetric] by (cases ex_login) auto
  have o: "hd (is_sessions (ex_run (take 4 ex_ops) initialState)) \<in> set (is_sessions (ex_run (take 4 ex_ops) initialState))" by code_simp
  have u: "se_userId (hd (is_sessions (ex_run (take 4 ex_ops) initialState))) = ''a''" by code_simp
  have h: "se_tokenHash (hd (is_sessions (ex_run (take 4 ex_ops) initialState))) = sha256_hex (ic_runtime ex_config) (''oaf_ses_'' @ binary_text ''d'')" by code_simp
  show "authenticateSession (ic_runtime ex_config) (Str (''oaf_ses_'' @ binary_text ''d'')) ''2026-01-01'' (fst (projr ex_login)) = None"
    by (rule new_login_ends_old_sessions [OF ex_reach(2) f c o u h rtranclp.rtrancl_refl])
qed

lemma revocation_is_final_witness:
  "authenticateSession (ic_runtime ex_config) (Str (''oaf_ses_'' @ binary_text ''d'')) ''2026-01-01''
     (fst (revokeSession (ex_supply CHR ''e'') ''d'' Null (ex_run (take 4 ex_ops) initialState))) = None"
proof -
  have f: "fresh_for ex_config (ex_supply CHR ''e'') (ex_run (take 4 ex_ops) initialState)" by code_simp
  have o: "hd (is_sessions (ex_run (take 4 ex_ops) initialState)) \<in> set (is_sessions (ex_run (take 4 ex_ops) initialState))" by code_simp
  have i: "se_id (hd (is_sessions (ex_run (take 4 ex_ops) initialState))) = ''d''" by code_simp
  have h: "se_tokenHash (hd (is_sessions (ex_run (take 4 ex_ops) initialState))) = sha256_hex (ic_runtime ex_config) (''oaf_ses_'' @ binary_text ''d'')" by code_simp
  show ?thesis
    using revocation_is_final [OF ex_reach(2) f, THEN conjunct1, rule_format, OF o h, unfolded i, OF rtranclp.rtrancl_refl] .
qed

lemma token_authority_is_bounded_witness:
  "\<exists>h. authenticateApiToken (ic_runtime ex_config) (Str (''oaf_tok_c_'' @ binary_text ''c'')) ''2026-01-01'' (ex_run ex_ops initialState) = Some h \<and> th_memberships h \<noteq> []"
proof -
  have "authenticateApiToken (ic_runtime ex_config) (Str (''oaf_tok_c_'' @ binary_text ''c'')) ''2026-01-01'' (ex_run ex_ops initialState) \<noteq> None" by code_simp
  then show ?thesis using token_authority_is_bounded [OF ex_reach(1)] by blast
qed

lemma audit_trail_is_append_only_witness:
  "length (is_auditEvents (ex_run ex_ops initialState)) = 5 \<and> (\<forall>e \<in> set (is_auditEvents (ex_run ex_ops initialState)). list_all clean_entry (au_metadata e))"
proof
  show "length (is_auditEvents (ex_run ex_ops initialState)) = 5" by code_simp
qed (use audit_trail_is_append_only [OF ex_reach(1) rtranclp.rtrancl_refl] in blast)

definition ex_password :: "(identity_error, string) result" where
  "ex_password = hashPassword (ic_runtime ex_config) (ic_crypto ex_config) (ic_scrypt ex_config) ''salt'' (Str ''long password'')"

lemma stored_password_verifies_witness: "verifyCredential (ic_crypto ex_config) (Str ''long password'') (projr ex_password) = Inr True"
proof (rule stored_password_verifies [where rt = "ic_runtime ex_config" and so = "ic_scrypt ex_config" and salt = "''salt''"])
  have "isl ex_password = False" by code_simp
  then show "hashPassword (ic_runtime ex_config) (ic_crypto ex_config) (ic_scrypt ex_config) ''salt'' (Str ''long password'') = Inr (projr ex_password)"
    unfolding ex_password_def [symmetric] by (cases ex_password) auto
  show "cr_decode (ic_crypto ex_config) (cr_encode (ic_crypto ex_config) s) = s" for s by (simp add: ex_config_def text_of_binary_text)
  show "CHR ''$'' \<notin> set (cr_encode (ic_crypto ex_config) s)" for s by (simp add: ex_config_def binary_text_chars)
  have "str_number ''32768'' = Some 32768" "str_number ''8'' = Some 8" "str_number ''1'' = Some 1"
    by (simp_all add: str_number_def Let_def trim_def js_space_def read_decimal_def read_exponent_def digits_val_def digit_val_def is_digit_def)
  then show "str_number (num_str (ic_runtime ex_config) (of_int n)) = Some (of_int n) \<and> CHR ''$'' \<notin> set (num_str (ic_runtime ex_config) (of_int n))"
    if "n \<in> {so_N (ic_scrypt ex_config), so_r (ic_scrypt ex_config), so_p (ic_scrypt ex_config)}" for n
    using that by (auto simp: ex_config_def)
qed (auto simp: ex_config_def)

definition ex_bootstrap :: "(identity_error, identity_state \<times> js) result" where
  "ex_bootstrap = bootstrapOwner ex_config (ex_supply CHR ''f'') (Str ''Ann'') (Str ''Owner'') (Str ''other password'') Undef Undef (ex_run (take 1 ex_ops) initialState)"

theorem bootstrap_can_lock_the_owner_out_witness:
  "\<exists>owner. is_users (fst (projr ex_bootstrap)) = is_users (ex_run (take 1 ex_ops) initialState) @ [owner] \<and> active_user owner \<and>
     (\<forall>typed pw. snd (verifyPassword ex_config (ex_supply CHR ''h'') typed pw
        (exec_identity ex_config (ex_supply CHR ''g'') (SignIn (Str ''ann'') (Str ''other password'')) (fst (projr ex_bootstrap)))) \<noteq> Some owner)"
proof -
  let ?later = "exec_identity ex_config (ex_supply CHR ''g'') (SignIn (Str ''ann'') (Str ''other password'')) (fst (projr ex_bootstrap))"
  have "isl ex_bootstrap = False" by code_simp
  then have b: "bootstrapOwner ex_config (ex_supply CHR ''f'') (Str ''Ann'') (Str ''Owner'') (Str ''other password'') Undef Undef (ex_run (take 1 ex_ops) initialState) =
      Inr (fst (projr ex_bootstrap), snd (projr ex_bootstrap))"
    unfolding ex_bootstrap_def [symmetric] by (cases ex_bootstrap) auto
  have o: "List.find (\<lambda>u. us_usernameKey u = map lower_char ''Ann'' \<and> active_user u) (is_users (ex_run (take 1 ex_ops) initialState)) =
      Some (hd (is_users (ex_run (take 1 ex_ops) initialState)))" by code_simp
  have "list_all (\<lambda>u. us_id u \<noteq> sy_id (ex_supply CHR ''f'')) (is_users (ex_run (take 1 ex_ops) initialState))" by code_simp
  then have f: "sy_id (ex_supply CHR ''f'') \<notin> us_id ` set (is_users (ex_run (take 1 ex_ops) initialState))" by (auto simp: list_all_iff)
  have later: "later_state ex_config (fst (projr ex_bootstrap)) ?later"
    unfolding later_state_def by (rule exI [of _ "[(ex_supply CHR ''g'', SignIn (Str ''ann'') (Str ''other password''))]"]) simp
  show ?thesis using bootstrap_can_lock_the_owner_out [OF b f o later] by blast
qed

end
