(* ===== verification/ContextText.thy ===== *)
theory ContextText
  imports JsDyn Splitting
begin

text \<open>
  packages/context-compiler: the text functions. Token estimates, search terms, the compacted
  view of a record's text (redaction, classification, shape of JSON, choice of lines, bound)
  and its application to a record, the fingerprint of a record, and the word shingles that
  similarity compares. Unicode normalisation, square roots and \<open>JSON.parse\<close> are arguments;
  numbers are exact, where the code has doubles.
\<close>

section \<open>Services and numbers\<close>

record text_env =
  te_rt :: runtime
  te_nfkc :: "string \<Rightarrow> string"
  te_sqrt :: "nat \<Rightarrow> rat"
  te_parse :: "string \<Rightarrow> js option"

text \<open>\<open>Number(x.toFixed(6))\<close>\<close>

definition round6 :: "rat \<Rightarrow> rat" where
  "round6 x = (if x < 0 then - (of_int \<lfloor>- x * 1000000 + 1 / 2\<rfloor> / 1000000) else of_int \<lfloor>x * 1000000 + 1 / 2\<rfloor> / 1000000)"

definition estimateTokens :: "string \<Rightarrow> int" where
  "estimateTokens text = max 1 ((int (length text) + 3) div 4)"

lemma estimateTokens_pos [simp]: "1 \<le> estimateTokens s"
  by (simp add: estimateTokens_def)

definition hashRef :: "runtime \<Rightarrow> string \<Rightarrow> string" where
  "hashRef rt s = ''sha256:'' @ sha256_hex rt s"

section \<open>Terms\<close>

definition STOP_WORDS :: "string list" where
  "STOP_WORDS = [''a'',''an'',''and'',''are'',''as'',''at'',''be'',''by'',''for'',''from'',''in'',''is'',''it'',''of'',''on'',''or'',''that'',''the'',''this'',''to'',''with'']"

text \<open>\<open>text.split(r)\<close> for an expression without groups\<close>

fun split_pieces :: "(char + string) list \<Rightarrow> string list" where
  "split_pieces [] = [[]]"
| "split_pieces (Inl c # ps) = (case split_pieces ps of w # ws \<Rightarrow> (c # w) # ws | [] \<Rightarrow> [[c]])"
| "split_pieces (Inr m # ps) = [] # split_pieces ps"

definition re_split :: "re \<Rightarrow> string \<Rightarrow> string list" where
  "re_split r s = split_pieces (pieces r None s)"

text \<open>A blank between the words of an identifier in camel case\<close>

definition expand_camel :: "string \<Rightarrow> string" where
  "expand_camel s =
     re_replace (Seq (Cls (\<lambda>c. is_lower c \<or> is_digit c)) (Cls is_upper)) (\<lambda>m. take 1 m @ '' '' @ drop 1 m)
       (re_replace (seqs [at_least 1 (Cls is_upper), Cls is_upper, Cls is_lower]) (\<lambda>m. take (length m - 2) m @ '' '' @ drop (length m - 2) m) s)"

definition term_char :: "char \<Rightarrow> bool" where
  "term_char c \<longleftrightarrow> is_lower c \<or> is_digit c \<or> c \<in> set ''_./:-''"

definition raw_terms :: "runtime \<Rightarrow> string \<Rightarrow> string list" where
  "raw_terms rt s = concat (map (\<lambda>raw. raw # filter (\<lambda>p. p \<noteq> []) (re_split (at_least 1 (Cls (\<lambda>c. c \<in> set ''_.:/-''))) raw))
     (re_split (at_least 1 (Cls js_space)) (re_replace (at_least 1 (Cls (\<lambda>c. \<not> term_char c))) (\<lambda>_. '' '') (to_lower rt s))))"

definition terms :: "runtime \<Rightarrow> string \<Rightarrow> string list" where
  "terms rt s = nub (filter (\<lambda>t. 1 < length t \<and> t \<notin> set STOP_WORDS) (raw_terms rt (expand_camel s)))"

section \<open>Records\<close>

text \<open>
  A context record. Fields that the code reads with a default are options; \<open>tags\<close> and
  \<open>relations\<close> are arrays of strings or missing, which is empty; the metadata are any value.
\<close>

record ctx_record =
  rc_id :: string
  rc_kind :: string
  rc_text :: string
  rc_tokens :: "int option"
  rc_version :: js
  rc_scope :: "string option"
  rc_status :: "string option"
  rc_category :: "string option"
  rc_workspaceId :: "string option"
  rc_dataClass :: "string option"
  rc_trustClass :: "string option"
  rc_confidence :: "rat option"
  rc_authority :: "rat option"
  rc_outcomeEvidence :: "rat option"
  rc_tags :: "string list"
  rc_relations :: "string list"
  rc_source :: js
  rc_supersedes :: "string option"
  rc_validFrom :: "string option"
  rc_validTo :: "string option"
  rc_updatedAt :: "string option"
  rc_contentHash :: "string option"
  rc_fingerprint :: "string option"
  rc_metadata :: js

definition words_of :: "ctx_record \<Rightarrow> string list" where
  "words_of r = rc_tags r @ rc_relations r"

definition overlapScore :: "text_env \<Rightarrow> string \<Rightarrow> ctx_record \<Rightarrow> rat" where
  "overlapScore te query r =
     (let q = terms (te_rt te) query; t = terms (te_rt te) (join '' '' (rc_text r # words_of r)) in
      if q = [] \<or> t = [] then 0 else of_nat (length (filter (\<lambda>w. w \<in> set t) q)) / te_sqrt te (length q * length t))"

text \<open>\<open>from <= now && now <= to\<close>; a date that cannot be read makes both comparisons false.\<close>

definition text_given :: "string option \<Rightarrow> string option" where
  "text_given t = (case t of Some [] \<Rightarrow> None | _ \<Rightarrow> t)"

definition isTemporallyValid :: "runtime \<Rightarrow> ctx_record \<Rightarrow> int \<Rightarrow> bool" where
  "isTemporallyValid rt r now \<longleftrightarrow>
     (case text_given (rc_validFrom r) of None \<Rightarrow> True | Some d \<Rightarrow> (case date_parse rt d of None \<Rightarrow> False | Some t \<Rightarrow> t \<le> now)) \<and>
     (case text_given (rc_validTo r) of None \<Rightarrow> True | Some d \<Rightarrow> (case date_parse rt d of None \<Rightarrow> False | Some t \<Rightarrow> now \<le> t))"

text \<open>The fingerprint covers identity, kind, text, words, update time and the metadata, save three keys.\<close>

definition recordFingerprint :: "runtime \<Rightarrow> ctx_record \<Rightarrow> string" where
  "recordFingerprint rt r =
     (let metadata = (case rc_metadata r of Obj kvs \<Rightarrow> filter (\<lambda>(k, v). k \<notin> {''contentHash'', ''fingerprint'', ''retrieval''}) kvs | _ \<Rightarrow> []) in
      hashRef rt (canonicalStringify rt (Obj [(''id'', Str (rc_id r)), (''version'', orelse (rc_version r) Null), (''kind'', Str (rc_kind r)), (''text'', Str (rc_text r)),
        (''tags'', Arr (map Str (rc_tags r))), (''relations'', Arr (map Str (rc_relations r))),
        (''updatedAt'', case rc_updatedAt r of None \<Rightarrow> Null | Some d \<Rightarrow> Str d), (''metadata'', Obj metadata)])))"

section \<open>Compacted views\<close>

definition CONTEXT_VIEW_KINDS :: "string list" where
  "CONTEXT_VIEW_KINDS = [''auto'', ''json'', ''log'', ''code'', ''markdown'', ''text'']"

definition CONTEXT_VIEW_SECRET :: re where
  "CONTEXT_VIEW_SECRET = seqs [Boundary,
     alts [lit_i ''token'', lit_i ''secret'', lit_i ''password'', lit_i ''authorization'', seqs [lit_i ''api'', maybe (Cls (\<lambda>c. c \<in> set ''_-'')), lit_i ''key''],
       lit_i ''database_url'', lit_i ''db_url'', lit_i ''connection_string''],
     Star (Cls js_space), Cls (\<lambda>c. c \<in> set '':=''), Star (Cls js_space), at_least 1 (Cls (\<lambda>c. \<not> js_space c \<and> c \<notin> set '',;''))]"

definition path_rest :: re where
  "path_rest = at_least 1 (Cls (\<lambda>c. \<not> js_space c \<and> c \<notin> {CHR 0x27, CHR 0x22, CHR '')''}))"

definition CONTEXT_VIEW_LOCAL_PATH :: re where
  "CONTEXT_VIEW_LOCAL_PATH = alts [Seq (lit ''/Users/'') path_rest,
     seqs [lit ''/home/'', at_least 1 (Cls (\<lambda>c. is_alnum c \<or> c \<in> set ''._-'')), lit ''/'', path_rest],
     Seq (lit ''/private/'') path_rest, Seq (lit ''/var/folders/'') path_rest,
     seqs [Cls (\<lambda>c. is_upper c \<or> is_lower c), lit '':'', Cls (\<lambda>c. c = CHR 0x5C), path_rest]]"

definition redactContextViewText :: "string \<Rightarrow> string" where
  "redactContextViewText s =
     re_replace CONTEXT_VIEW_LOCAL_PATH (\<lambda>_. ''[redacted-local-path]'') (re_replace CONTEXT_VIEW_SECRET (\<lambda>_. ''[redacted-secret]'') s)"

definition trim_end :: "string \<Rightarrow> string" where
  "trim_end s = rev (dropWhile js_space (rev s))"

definition boundedText :: "string \<Rightarrow> int \<Rightarrow> string" where
  "boundedText value maxTokens =
     (let text = trim value; maxChars = nat (max 16 (maxTokens * 4)) in
      if maxChars < length text then trim_end (take (maxChars - 3) text) @ ''...'' else text)"

definition newline :: char where
  "newline = CHR 0x0A"

definition line_break :: re where
  "line_break = Seq (maybe (Cls (\<lambda>c. c = CHR 0x0D))) (Cls (\<lambda>c. c = newline))"

definition spaces :: re where
  "spaces = Star (Cls js_space)"

definition one_of_words :: "(string \<Rightarrow> re) \<Rightarrow> string list \<Rightarrow> re" where
  "one_of_words literal ws = alts (map literal ws)"

definition word_test :: "(string \<Rightarrow> re) \<Rightarrow> string list \<Rightarrow> string \<Rightarrow> bool" where
  "word_test literal ws = re_test (seqs [Boundary, one_of_words literal ws, Boundary])"

definition TROUBLE_WORDS :: "string list" where
  "TROUBLE_WORDS = [''error'', ''warn'', ''exception'', ''traceback'', ''failed'', ''fatal'']"

definition CODE_WORDS :: "string list" where
  "CODE_WORDS = [''import'', ''export'', ''function'', ''class'', ''const'', ''let'', ''fn'', ''struct'', ''impl'']"

definition hashes :: re where
  "hashes = (let h = Cls (\<lambda>c. c = CHR ''#'') in seqs [h, maybe h, maybe h, maybe h, maybe h, maybe h])"

definition detected_kind :: "string \<Rightarrow> string" where
  "detected_kind text =
     (if re_test (Seq Start (Cls (\<lambda>c. c \<in> set ''[{''))) (trim text) then ''json''
      else if re_test (Alt (seqs [Start, spaces, hashes, Cls js_space]) (seqs [Cls (\<lambda>c. c = newline), spaces, Cls (\<lambda>c. c \<in> set ''-*''), Cls js_space])) text then ''markdown''
      else if word_test lit_i TROUBLE_WORDS text \<and> 4 < length (re_split line_break text) then ''log''
      else if word_test lit CODE_WORDS text then ''code''
      else ''text'')"

definition classifyContextViewKind :: "string \<Rightarrow> js \<Rightarrow> string" where
  "classifyContextViewKind text explicit =
     (if str_in explicit CONTEXT_VIEW_KINDS \<and> explicit \<noteq> Str ''auto'' then (case explicit of Str k \<Rightarrow> k | _ \<Rightarrow> []) else detected_kind text)"

fun js_typeof :: "js \<Rightarrow> string" where
  "js_typeof Undef = ''undefined''"
| "js_typeof (Bool _) = ''boolean''"
| "js_typeof (Num _) = ''number''"
| "js_typeof (Str _) = ''string''"
| "js_typeof _ = ''object''"

text \<open>The first argument is the number of levels left: the code starts at depth 0 and stops below depth 2.\<close>

primrec jsonShape :: "nat \<Rightarrow> js \<Rightarrow> string" where
  "jsonShape 0 v = (case v of Arr xs \<Rightarrow> ''array('' @ show_nat (length xs) @ '')'' | _ \<Rightarrow> js_typeof v)"
| "jsonShape (Suc d) v = (case v of
     Arr xs \<Rightarrow> (let sample = join '', '' (map (jsonShape d) (take 3 xs)) in
       ''array('' @ show_nat (length xs) @ '')'' @ (if sample = [] then [] else '' of '' @ sample))
   | Obj kvs \<Rightarrow> (let keys = sort (map fst kvs); shown = map (\<lambda>k. k @ '': '' @ jsonShape d (get v k)) (take 12 keys) in
       ''object keys('' @ show_nat (length keys) @ ''): '' @ join ''; '' shown @ (if length shown < length keys then ''; ...'' else []))
   | _ \<Rightarrow> js_typeof v)"

definition compactLines :: "nat \<Rightarrow> nat \<Rightarrow> re \<Rightarrow> string \<Rightarrow> string" where
  "compactLines first final important text =
     (let maxLines = 32; lines = filter (\<lambda>l. l \<noteq> []) (map trim (re_split line_break text)) in
      if length lines \<le> maxLines then join [newline] lines
      else (let chosen = filter (\<lambda>i. i < first \<or> re_test important (lines ! i) \<or> max first (length lines - final) \<le> i) [0..<length lines];
                entries = take maxLines chosen; omitted = length lines - length entries
            in join [newline] (map (\<lambda>i. lines ! i) entries @ (if 0 < omitted then [''... '' @ show_nat omitted @ '' lines omitted ...''] else []))))"

definition compactContextViewText :: "text_env \<Rightarrow> string \<Rightarrow> string \<Rightarrow> int \<Rightarrow> string" where
  "compactContextViewText te text kind maxTokens =
     (let bound = (\<lambda>t. boundedText t maxTokens); word = (\<lambda>literal ws. seqs [Boundary, one_of_words literal ws, Boundary]);
          leading = (\<lambda>r. seqs [Start, spaces, r]) in
      if kind = ''json'' then (case te_parse te text of
          Some v \<Rightarrow> bound (''json '' @ jsonShape 3 v)
        | None \<Rightarrow> bound (compactLines 6 6 (Cls (\<lambda>c. c = CHR 0x22 \<or> c \<in> set ''{}[],:'')) text))
      else if kind = ''log'' then bound (compactLines 4 6 (word lit_i TROUBLE_WORDS) text)
      else if kind = ''code'' then bound (compactLines 8 4
        (leading (Seq (one_of_words lit [''import'', ''export'', ''class'', ''function'', ''const'', ''let'', ''fn'', ''struct'', ''impl'']) Boundary)) text)
      else if kind = ''markdown'' then bound (compactLines 6 4 (leading (Alt (Seq hashes (Cls js_space)) (Seq (Cls (\<lambda>c. c \<in> set ''-*'')) (Cls js_space)))) text)
      else bound (compactLines 6 4 (word lit_i [''must'', ''should'', ''error'', ''decision'', ''policy'', ''todo'', ''fix'', ''fail'']) text))"

record context_view =
  cv_contentKind :: string
  cv_text :: string
  cv_originalTokens :: int
  cv_viewTokens :: int
  cv_originalContentHash :: string
  cv_viewContentHash :: string
  cv_reductionRatio :: rat
  cv_reasonCodes :: "string list"

definition view_bound :: "js \<Rightarrow> int" where
  "view_bound v = max 16 (min 4096 (case v of Num n \<Rightarrow> if n = of_int \<lfloor>n\<rfloor> then \<lfloor>n\<rfloor> else 160 | _ \<Rightarrow> 160))"

definition createContextView :: "text_env \<Rightarrow> string \<Rightarrow> js \<Rightarrow> js \<Rightarrow> context_view" where
  "createContextView te original contentKind maxTokens =
     (let redacted = redactContextViewText original;
          kind = classifyContextViewKind redacted contentKind;
          text = compactContextViewText te redacted kind (view_bound maxTokens);
          ot = estimateTokens original; vt = estimateTokens text
      in \<lparr>cv_contentKind = kind, cv_text = text, cv_originalTokens = ot, cv_viewTokens = vt,
          cv_originalContentHash = hashRef (te_rt te) original, cv_viewContentHash = hashRef (te_rt te) text,
          cv_reductionRatio = round6 (1 - of_int vt / of_int ot),
          cv_reasonCodes = sorted_unique ([''context_view_compacted'', kind @ ''_context_view''] @ (if redacted \<noteq> original then [''unsafe_material_redacted''] else []))\<rparr>)"

section \<open>Normalised records\<close>

datatype ctx_error = CtxError string | CtxTypeError string | CtxCoded string

definition view_entries :: "int \<Rightarrow> context_view \<Rightarrow> (string \<times> js) list" where
  "view_entries tokens v = [(''schemaVersion'', Str ''1.0.0''), (''algorithm'', Str ''oaf_context_view_v1''), (''contentKind'', Str (cv_contentKind v)),
     (''originalContentHash'', Str (cv_originalContentHash v)), (''viewContentHash'', Str (cv_viewContentHash v)), (''originalTokens'', Num (of_int tokens)),
     (''viewTokens'', Num (of_int (cv_viewTokens v))), (''reductionRatio'', Num (cv_reductionRatio v)), (''recoverableBy'', Str ''originalContentHash''),
     (''reasonCodes'', Arr (map Str (cv_reasonCodes v)))]"

text \<open>Only for a record whose tokens are set.\<close>

definition applyContextView :: "text_env \<Rightarrow> int \<Rightarrow> ctx_record \<Rightarrow> ctx_record" where
  "applyContextView te tokens r =
     (let config = get (rc_metadata r) ''contextView'' in
      if get config ''enabled'' \<noteq> Bool True then r
      else (let v = createContextView te (rc_text r) (orelse (get config ''contentKind'') (orelse (get config ''kind'') (Str ''auto''))) (get config ''maxTokens'') in
        if tokens \<le> cv_viewTokens v then r
        else (let given = get (rc_metadata r) ''contextAssembly'';
                  asm = (case given of Obj kvs \<Rightarrow> kvs | Arr xs \<Rightarrow> own_entries given | _ \<Rightarrow> []);
                  codes = order_by (\<lambda>a b. js_to_string (te_rt te) a \<le> js_to_string (te_rt te) b)
                    (nub (items (get (Obj asm) ''reasonCodes'') @ map Str (cv_reasonCodes v) @ [Str ''original_recoverable_by_hash'']));
                  metadata = spread (entries (rc_metadata r))
                    [(''contextAssembly'', Obj (spread asm [(''tier'', orelse (get (Obj asm) ''tier'') (Str ''full'')), (''reasonCodes'', Arr codes)])),
                     (''contextView'', Obj (spread (entries config) [(''enabled'', Bool True)])),
                     (''contextCompression'', Obj (view_entries tokens v))]
              in r\<lparr>rc_text := cv_text v, rc_tokens := Some (cv_viewTokens v), rc_metadata := Obj metadata\<rparr>)))"

definition with_default :: "'a option \<Rightarrow> 'a \<Rightarrow> 'a option" where
  "with_default v d = Some (case v of None \<Rightarrow> d | Some x \<Rightarrow> x)"

definition normalizeRecord :: "text_env \<Rightarrow> ctx_record \<Rightarrow> (ctx_error, ctx_record) result" where
  "normalizeRecord te r =
     (if rc_id r = [] \<or> rc_kind r = [] \<or> rc_text r = [] then Inl (CtxError ''record requires id, kind, and text'')
      else (let tokens = (case rc_tokens r of Some n \<Rightarrow> n | None \<Rightarrow> estimateTokens (rc_text r)) in
        Inr (applyContextView te tokens (r\<lparr>rc_scope := with_default (rc_scope r) ''workspace-private'', rc_status := with_default (rc_status r) ''active'',
          rc_confidence := with_default (rc_confidence r) (1 / 2), rc_authority := with_default (rc_authority r) (1 / 2),
          rc_source := (if rc_source r = Undef then Str ''unknown'' else rc_source r), rc_tokens := Some tokens\<rparr>))))"

section \<open>Shingles\<close>

record similarity_policy =
  sm_shingleSize :: nat
  sm_maxTextBytes :: int
  sm_minTokenLength :: nat
  sm_maxTokens :: int
  sm_maxPairwiseComparisons :: int

text \<open>\<open>subarray(0, n)\<close> and \<open>slice(0, n)\<close>\<close>

definition subarray :: "int \<Rightarrow> 'a list \<Rightarrow> 'a list" where
  "subarray n xs = (if int (length xs) \<le> n then xs else take (nat n) xs)"

definition normalizeTextTokens :: "text_env \<Rightarrow> similarity_policy \<Rightarrow> string \<Rightarrow> string list" where
  "normalizeTextTokens te sp text =
     subarray (sm_maxTokens sp) (filter (\<lambda>t. sm_minTokenLength sp \<le> length t)
       (raw_terms (te_rt te) (expand_camel (te_nfkc te (subarray (sm_maxTextBytes sp) text)))))"

definition shinglesFor :: "text_env \<Rightarrow> similarity_policy \<Rightarrow> string \<Rightarrow> string list" where
  "shinglesFor te sp text =
     (let ts = normalizeTextTokens te sp text; n = sm_shingleSize sp in
      if length ts \<le> n then nub ts else nub (map (\<lambda>i. join '' '' (take n (drop i ts))) [0..<length ts - n + 1]))"

definition jaccard :: "string list \<Rightarrow> string list \<Rightarrow> rat" where
  "jaccard a b = (if a = [] \<and> b = [] then 0 else
     (let both = length (filter (\<lambda>x. x \<in> set b) a) in of_nat both / (of_nat (length a) + of_nat (length b) - of_nat both)))"

section \<open>What the text functions keep\<close>

lemma round6_nonneg: "0 \<le> x \<Longrightarrow> 0 \<le> round6 x"
  by (simp add: round6_def)

lemma length_trim_end: "length (trim_end s) \<le> length s"
  using length_dropWhile_le [of js_space "rev s"] by (simp add: trim_end_def)

lemma boundedText_length: "int (length (boundedText s n)) \<le> max 16 (n * 4)"
proof -
  define m where "m = nat (max 16 (n * 4))"
  have m: "int m = max 16 (n * 4)" "16 \<le> m" by (auto simp: m_def)
  have "length (trim_end (take (m - 3) (trim s))) \<le> m - 3"
    using length_trim_end [of "take (m - 3) (trim s)"] by simp
  then have "length (boundedText s n) \<le> m" using m(2) unfolding boundedText_def Let_def m_def [symmetric] by (simp; linarith)
  then show ?thesis using m(1) by linarith
qed

lemma compactContextViewText_bounded: "\<exists>t. compactContextViewText te s kind n = boundedText t n"
  unfolding compactContextViewText_def Let_def
  by (cases "kind = ''json''"; cases "kind = ''log''"; cases "kind = ''code''"; cases "kind = ''markdown''"; cases "te_parse te s") auto

lemma view_bound_range: "16 \<le> view_bound v \<and> view_bound v \<le> 4096"
  by (auto simp: view_bound_def)

text \<open>C37: A compacted view has at most the tokens it was asked to fit. For a whole number of tokens that is the number
  itself, moved into 16 to 4096; for any other request it is 160. Its text never has more characters than four times that.\<close>

theorem context_view_fits:
  assumes "limit = Num (of_int n) \<and> fit = (if n < 16 then 16 else if 4096 < n then 4096 else n) \<or> limit \<notin> range (\<lambda>i. Num (of_int i)) \<and> fit = 160"
  shows "cv_viewTokens (createContextView te s kind limit) \<le> fit \<and> int (length (cv_text (createContextView te s kind limit))) \<le> 4 * fit"
proof -
  let ?v = "createContextView te s kind limit"
  have fit: "view_bound limit = fit" using assms by (auto simp: view_bound_def split: js.splits)
  obtain t where "cv_text ?v = boundedText t (view_bound limit)"
    using compactContextViewText_bounded unfolding createContextView_def Let_def by fastforce
  then have l: "int (length (cv_text ?v)) \<le> 4 * fit"
    using boundedText_length [of t "view_bound limit"] view_bound_range [of limit] fit by simp
  moreover have "cv_viewTokens ?v = estimateTokens (cv_text ?v)" by (simp add: createContextView_def Let_def)
  ultimately show ?thesis using view_bound_range [of limit] fit by (auto simp: estimateTokens_def)
qed

theorem context_view_fits_witness:
  "\<forall>te. cv_viewTokens (createContextView te (replicate 500 CHR ''a'') (Str ''text'') (Num 40)) \<le> 40 \<and>
     cv_viewTokens (createContextView te (replicate 500 CHR ''a'') (Str ''text'') (Num 3)) \<le> 16 \<and>
     cv_viewTokens (createContextView te (replicate 500 CHR ''a'') (Str ''text'') (Str ''40'')) \<le> 160"
proof (intro allI conjI)
  fix te
  show "cv_viewTokens (createContextView te (replicate 500 CHR ''a'') (Str ''text'') (Num 40)) \<le> 40"
    by (rule conjunct1 [OF context_view_fits [of "Num 40" 40 40]]) simp
  show "cv_viewTokens (createContextView te (replicate 500 CHR ''a'') (Str ''text'') (Num 3)) \<le> 16"
    by (rule conjunct1 [OF context_view_fits [of "Num 3" 3 16]]) simp
  show "cv_viewTokens (createContextView te (replicate 500 CHR ''a'') (Str ''text'') (Str ''40'')) \<le> 160"
    by (rule conjunct1 [OF context_view_fits [of "Str ''40''" 0 160]]) (rule disjI2, auto)
qed

lemma applyContextView_tokens:
  "rc_tokens r = Some n \<Longrightarrow> \<exists>m. rc_tokens (applyContextView te n r) = Some m \<and> m \<le> n"
  by (auto simp: applyContextView_def Let_def)

lemma applyContextView_same [simp]:
  "rc_id (applyContextView te n r) = rc_id r" "rc_kind (applyContextView te n r) = rc_kind r" "rc_workspaceId (applyContextView te n r) = rc_workspaceId r"
  "rc_scope (applyContextView te n r) = rc_scope r" "rc_status (applyContextView te n r) = rc_status r" "rc_supersedes (applyContextView te n r) = rc_supersedes r"
  "rc_dataClass (applyContextView te n r) = rc_dataClass r" "rc_trustClass (applyContextView te n r) = rc_trustClass r" "rc_category (applyContextView te n r) = rc_category r"
  by (auto simp: applyContextView_def Let_def)

end
