(* ===== verification/ContextPolicy.thy ===== *)
theory ContextPolicy
  imports ContextText
begin

text \<open>
  packages/context-compiler: the selection policy. The two built-in policies, the validation
  of a policy, which every selection starts with, and the typed policy it yields. Missing
  categories and weights pass the validation; the code that uses them decides what they mean.
\<close>

section \<open>Names\<close>

definition CANDIDATE_SOURCE_KINDS :: "string list" where
  "CANDIDATE_SOURCE_KINDS = [''exact'', ''lexical'', ''ast-code'', ''vector'', ''graph'', ''temporal'', ''preference'', ''episode'']"

definition CATEGORY_NAMES :: "string list" where
  "CATEGORY_NAMES = [''governance'', ''workingState'', ''decisions'', ''preferences'', ''evidence'', ''procedures'', ''episodes'', ''artifacts'', ''negative'', ''examples'', ''other'']"

definition SELECTION_POLICY_KEYS :: "string list" where
  "SELECTION_POLICY_KEYS = [''schemaVersion'', ''policyVersion'', ''fusion'', ''sourceWeights'', ''featureWeights'', ''diversity'', ''similarity'', ''categoryBudgets'',
     ''thresholds'', ''limits'', ''tokenEstimation'', ''tieBreak'']"

definition DIVERSITY_KEYS :: "string list" where
  "DIVERSITY_KEYS = [''diversityWeight'', ''coverageBonus'', ''kindCoverageBonus'', ''duplicateSimilarityThreshold'', ''nearDuplicateSimilarityThreshold'']"

definition SELECTION_LIMIT_KEYS :: "string list" where
  "SELECTION_LIMIT_KEYS = [''maxSelectedCandidates'', ''maxCandidates'', ''maxSourceHitsPerCandidate'', ''maxScoreFactorsPerCandidate'', ''maxCandidateTokens'', ''maxTotalCandidateTokens'']"

definition FEATURE_WEIGHT_KEYS :: "string list" where
  "FEATURE_WEIGHT_KEYS = [''sourceFusion'', ''objectiveRelevance'', ''stepRelevance'', ''entityCoverage'', ''relationCoverage'', ''authority'', ''confidence'',
     ''preferenceApplicable'', ''outcomeEvidence'', ''temporalApplicability'', ''kindPriority'', ''tokenEfficiency'']"

section \<open>Built-in policies\<close>

definition CONTEXT_SELECTION_POLICY :: js where
  "CONTEXT_SELECTION_POLICY = Obj [
     (''schemaVersion'', Str ''1.0.0''),
     (''policyVersion'', Str ''1.0.0''),
     (''fusion'', Obj [(''method'', Str ''weighted_rrf''), (''rrfK'', Num 60)]),
     (''sourceWeights'', Obj [(''direct'', Num 2), (''exact'', Num 8), (''lexical'', Num 4), (''ast-code'', Num 4), (''vector'', Num 3), (''graph'', Num 3), (''temporal'', Num 2), (''preference'', Num 2), (''episode'', Num 2)]),
     (''featureWeights'', Obj [(''sourceFusion'', Num 12), (''objectiveRelevance'', Num 4), (''stepRelevance'', Num 2), (''entityCoverage'', Num 4), (''relationCoverage'', Num 2), (''authority'', Num 1), (''confidence'', Num 1), (''preferenceApplicable'', Num (3 / 2)), (''outcomeEvidence'', Num (3 / 2)), (''temporalApplicability'', Num (1 / 2)), (''kindPriority'', Num (3 / 2)), (''tokenEfficiency'', Num 1)]),
     (''diversity'', Obj [(''method'', Str ''bounded_mmr''), (''diversityWeight'', Num (5 / 4)), (''coverageBonus'', Num (3 / 4)), (''kindCoverageBonus'', Num (3 / 20)), (''duplicateSimilarityThreshold'', Num (23 / 25)), (''nearDuplicateSimilarityThreshold'', Num (18 / 25))]),
     (''similarity'', Obj [(''normalization'', Str ''unicode_nfkc_lower_ascii_terms''), (''shingleSize'', Num 3), (''maxTextBytes'', Num 4096), (''minTokenLength'', Num 2), (''maxTokens'', Num 256), (''maxPairwiseComparisons'', Num 2000)]),
     (''categoryBudgets'', Obj [(''governance'', Obj [(''cap'', Num 6), (''softReserveRatio'', Num (3 / 20))]), (''workingState'', Obj [(''cap'', Num 4), (''softReserveRatio'', Num (3 / 20))]), (''decisions'', Obj [(''cap'', Num 4), (''softReserveRatio'', Num (1 / 10))]), (''preferences'', Obj [(''cap'', Num 3), (''softReserveRatio'', Num (1 / 20))]), (''evidence'', Obj [(''cap'', Num 4), (''softReserveRatio'', Num (7 / 20))]), (''procedures'', Obj [(''cap'', Num 3), (''softReserveRatio'', Num (1 / 20))]), (''episodes'', Obj [(''cap'', Num 3), (''softReserveRatio'', Num (1 / 20))]), (''artifacts'', Obj [(''cap'', Num 3), (''softReserveRatio'', Num (1 / 20))]), (''negative'', Obj [(''cap'', Num 2), (''softReserveRatio'', Num 0)]), (''examples'', Obj [(''cap'', Num 2), (''softReserveRatio'', Num (1 / 20))]), (''other'', Obj [(''cap'', Num 2), (''softReserveRatio'', Num (1 / 20))])]),
     (''thresholds'', Obj [(''minimumUtility'', Num (7 / 20)), (''marginalUtility'', Num (1 / 5)), (''minimumEvidenceCount'', Num 2), (''minimumBudgetUtilization'', Num 0)]),
     (''limits'', Obj [(''maxSelectedCandidates'', Num 12), (''maxCandidates'', Num 200), (''maxSourceHitsPerCandidate'', Num 16), (''maxScoreFactorsPerCandidate'', Num 16), (''maxCandidateTokens'', Num 8192), (''maxTotalCandidateTokens'', Num 50000), (''requiredBudgetRatio'', Num 1)]),
     (''tokenEstimation'', Obj [(''method'', Str ''ceil_chars_div_4''), (''zeroTokensAllowed'', Bool False)]),
     (''tieBreak'', Arr [Str ''required_first'', Str ''utility_desc'', Str ''tokens_asc'', Str ''record_id_asc''])]"

definition put :: "string \<Rightarrow> (string \<times> js) list \<Rightarrow> js \<Rightarrow> js" where
  "put k changes v = Obj (spread (entries v) [(k, Obj (spread (entries (get v k)) changes))])"

definition CODE_SEARCH_CONTEXT_SELECTION_POLICY :: js where
  "CODE_SEARCH_CONTEXT_SELECTION_POLICY =
     (let p = Obj (spread (entries CONTEXT_SELECTION_POLICY) [(''policyVersion'', Str ''1.0.4'')]);
          p = put ''sourceWeights'' [(''lexical'', Num 8), (''ast-code'', Num 8)] p;
          p = put ''featureWeights'' [(''sourceFusion'', Num 24), (''tokenEfficiency'', Num 2)] p;
          budgets = map (\<lambda>(category, value). (category, if category = ''evidence'' then Obj (spread (entries value) [(''cap'', Num 50), (''softReserveRatio'', Num (4 / 5))]) else value))
            (entries (get CONTEXT_SELECTION_POLICY ''categoryBudgets''));
          p = Obj (spread (entries p) [(''categoryBudgets'', Obj budgets)]);
          p = put ''thresholds'' [(''minimumEvidenceCount'', Num 20), (''minimumBudgetUtilization'', Num (13 / 20)), (''minimumUtility'', Num (1 / 5)), (''marginalUtility'', Num (1 / 20))] p;
          p = put ''limits'' [(''maxSelectedCandidates'', Num 50), (''maxCandidates'', Num 100), (''maxTotalCandidateTokens'', Num 100000)] p
      in put ''similarity'' [(''maxPairwiseComparisons'', Num 100000)] p)"

section \<open>Validation\<close>

text \<open>A check is a condition and the message of the error it raises; the first that fails decides.\<close>

type_synonym policy_check = "bool \<times> string"

fun first_failed :: "policy_check list \<Rightarrow> string option" where
  "first_failed [] = None"
| "first_failed ((ok, message) # cs) = (if ok then first_failed cs else Some message)"

fun int_between :: "int \<Rightarrow> int \<Rightarrow> js \<Rightarrow> bool" where
  "int_between lo hi (Num n) = (n = of_int \<lfloor>n\<rfloor> \<and> lo \<le> \<lfloor>n\<rfloor> \<and> \<lfloor>n\<rfloor> \<le> hi)"
| "int_between lo hi _ = False"

fun num_between :: "rat \<Rightarrow> rat \<Rightarrow> js \<Rightarrow> bool" where
  "num_between lo hi (Num n) = (lo \<le> n \<and> n \<le> hi)"
| "num_between lo hi _ = False"

text \<open>\<open>assertPlainObject\<close> followed by \<open>assertNoUnknown\<close>\<close>

definition object_checks :: "js \<Rightarrow> string list \<Rightarrow> string \<Rightarrow> policy_check list" where
  "object_checks v allowed name = (is_plain v, name @ '' must be an object'') # map (\<lambda>k. (k \<in> set allowed, name @ '':unknown_field:'' @ k)) (keys v)"

definition numeric_map_checks :: "js \<Rightarrow> string list \<Rightarrow> string \<Rightarrow> policy_check list" where
  "numeric_map_checks v allowed name =
     object_checks v allowed (''context selection policy '' @ name) @ map (\<lambda>(k, x). (num_between 0 100 x, name @ ''.'' @ k)) (entries v)"

definition version_text :: "runtime \<Rightarrow> js \<Rightarrow> bool" where
  "version_text rt v = (let ds = at_least 1 (Cls is_digit); dot = lit ''.'' in re_test (seqs [Start, ds, dot, ds, dot, ds, End]) (js_to_string rt v))"

definition policy_checks :: "runtime \<Rightarrow> js \<Rightarrow> policy_check list" where
  "policy_checks rt p =
     (let sub = (\<lambda>k. get p k); name = (\<lambda>k. ''context selection policy '' @ k);
          ints = (\<lambda>k lo hi f. (int_between lo hi (get (sub k) f), k @ ''.'' @ f)); nums = (\<lambda>k lo hi f. (num_between lo hi (get (sub k) f), k @ ''.'' @ f)) in
      object_checks p SELECTION_POLICY_KEYS ''context selection policy'' @
      [(get p ''schemaVersion'' = Str ''1.0.0'', ''schemaVersion''), (version_text rt (get p ''policyVersion''), ''policyVersion'')] @
      object_checks (sub ''fusion'') [''method'', ''rrfK''] (name ''fusion'') @
      [(get (sub ''fusion'') ''method'' = Str ''weighted_rrf'', ''fusion.method''), ints ''fusion'' 1 1000 ''rrfK''] @
      numeric_map_checks (sub ''sourceWeights'') (''direct'' # CANDIDATE_SOURCE_KINDS) ''sourceWeights'' @
      numeric_map_checks (sub ''featureWeights'') FEATURE_WEIGHT_KEYS ''featureWeights'' @
      object_checks (sub ''diversity'') (''method'' # DIVERSITY_KEYS) (name ''diversity'') @
      (get (sub ''diversity'') ''method'' = Str ''bounded_mmr'', ''diversity.method'') # map (nums ''diversity'' 0 10) DIVERSITY_KEYS @
      object_checks (sub ''similarity'') [''normalization'', ''shingleSize'', ''maxTextBytes'', ''minTokenLength'', ''maxTokens'', ''maxPairwiseComparisons''] (name ''similarity'') @
      [(get (sub ''similarity'') ''normalization'' = Str ''unicode_nfkc_lower_ascii_terms'', ''similarity.normalization''),
       ints ''similarity'' 1 8 ''shingleSize'', ints ''similarity'' 128 65536 ''maxTextBytes'', ints ''similarity'' 1 16 ''minTokenLength'',
       ints ''similarity'' 16 4096 ''maxTokens'', ints ''similarity'' 1 100000 ''maxPairwiseComparisons''] @
      object_checks (sub ''categoryBudgets'') CATEGORY_NAMES (name ''categoryBudgets'') @
      concat (map (\<lambda>(c, v). object_checks v [''cap'', ''softReserveRatio''] (name (''categoryBudgets.'' @ c)) @
        [(int_between 0 100 (get v ''cap''), ''categoryBudgets.'' @ c @ ''.cap''), (num_between 0 1 (get v ''softReserveRatio''), ''categoryBudgets.'' @ c @ ''.softReserveRatio'')])
        (entries (sub ''categoryBudgets''))) @
      object_checks (sub ''thresholds'') [''minimumUtility'', ''marginalUtility'', ''minimumEvidenceCount'', ''minimumBudgetUtilization''] (name ''thresholds'') @
      [nums ''thresholds'' 0 100 ''minimumUtility'', nums ''thresholds'' 0 100 ''marginalUtility'', ints ''thresholds'' 0 20 ''minimumEvidenceCount'', nums ''thresholds'' 0 1 ''minimumBudgetUtilization''] @
      object_checks (sub ''limits'') (SELECTION_LIMIT_KEYS @ [''requiredBudgetRatio'']) (name ''limits'') @
      map (ints ''limits'' 1 100000) SELECTION_LIMIT_KEYS @ [nums ''limits'' (1 / 100) 1 ''requiredBudgetRatio''] @
      object_checks (sub ''tokenEstimation'') [''method'', ''zeroTokensAllowed''] (name ''tokenEstimation'') @
      [(get (sub ''tokenEstimation'') ''method'' = Str ''ceil_chars_div_4'', ''tokenEstimation.method''), (is_bool (get (sub ''tokenEstimation'') ''zeroTokensAllowed''), ''tokenEstimation.zeroTokensAllowed''),
       (is_arr (sub ''tieBreak'') \<and> items (sub ''tieBreak'') \<noteq> [] \<and> list_all (\<lambda>x. is_str x \<and> truthy x) (items (sub ''tieBreak'')), ''tieBreak'')])"

section \<open>The typed policy\<close>

record sel_policy =
  sp_policyVersion :: string
  sp_rrfK :: int
  sp_sourceWeights :: "(string \<times> rat) list"
  sp_featureWeights :: "(string \<times> rat) list"
  sp_diversityWeight :: rat
  sp_coverageBonus :: rat
  sp_kindCoverageBonus :: rat
  sp_duplicateThreshold :: rat
  sp_nearDuplicateThreshold :: rat
  sp_similarity :: similarity_policy
  sp_categoryBudgets :: "(string \<times> int \<times> rat) list"
  sp_minimumUtility :: rat
  sp_marginalUtility :: rat
  sp_minimumEvidenceCount :: int
  sp_minimumBudgetUtilization :: rat
  sp_maxSelectedCandidates :: int
  sp_maxCandidates :: int
  sp_maxSourceHitsPerCandidate :: int
  sp_maxCandidateTokens :: int
  sp_maxTotalCandidateTokens :: int
  sp_requiredBudgetRatio :: rat
  sp_zeroTokensAllowed :: bool
  sp_json :: js

fun rat_of :: "js \<Rightarrow> rat" where
  "rat_of (Num n) = n"
| "rat_of _ = 0"

definition int_of :: "js \<Rightarrow> int" where
  "int_of v = \<lfloor>rat_of v\<rfloor>"

definition typed_policy :: "runtime \<Rightarrow> js \<Rightarrow> sel_policy" where
  "typed_policy rt p =
     (let n = (\<lambda>k f. rat_of (get (get p k) f)); i = (\<lambda>k f. int_of (get (get p k) f)) in
      \<lparr>sp_policyVersion = js_to_string rt (get p ''policyVersion''), sp_rrfK = i ''fusion'' ''rrfK'',
       sp_sourceWeights = map (\<lambda>(k, v). (k, rat_of v)) (entries (get p ''sourceWeights'')), sp_featureWeights = map (\<lambda>(k, v). (k, rat_of v)) (entries (get p ''featureWeights'')),
       sp_diversityWeight = n ''diversity'' ''diversityWeight'', sp_coverageBonus = n ''diversity'' ''coverageBonus'', sp_kindCoverageBonus = n ''diversity'' ''kindCoverageBonus'',
       sp_duplicateThreshold = n ''diversity'' ''duplicateSimilarityThreshold'', sp_nearDuplicateThreshold = n ''diversity'' ''nearDuplicateSimilarityThreshold'',
       sp_similarity = \<lparr>sm_shingleSize = nat (i ''similarity'' ''shingleSize''), sm_maxTextBytes = i ''similarity'' ''maxTextBytes'', sm_minTokenLength = nat (i ''similarity'' ''minTokenLength''),
         sm_maxTokens = i ''similarity'' ''maxTokens'', sm_maxPairwiseComparisons = i ''similarity'' ''maxPairwiseComparisons''\<rparr>,
       sp_categoryBudgets = map (\<lambda>(c, v). (c, int_of (get v ''cap''), rat_of (get v ''softReserveRatio''))) (entries (get p ''categoryBudgets'')),
       sp_minimumUtility = n ''thresholds'' ''minimumUtility'', sp_marginalUtility = n ''thresholds'' ''marginalUtility'',
       sp_minimumEvidenceCount = i ''thresholds'' ''minimumEvidenceCount'', sp_minimumBudgetUtilization = n ''thresholds'' ''minimumBudgetUtilization'',
       sp_maxSelectedCandidates = i ''limits'' ''maxSelectedCandidates'', sp_maxCandidates = i ''limits'' ''maxCandidates'',
       sp_maxSourceHitsPerCandidate = i ''limits'' ''maxSourceHitsPerCandidate'', sp_maxCandidateTokens = i ''limits'' ''maxCandidateTokens'',
       sp_maxTotalCandidateTokens = i ''limits'' ''maxTotalCandidateTokens'', sp_requiredBudgetRatio = n ''limits'' ''requiredBudgetRatio'',
       sp_zeroTokensAllowed = (get (get p ''tokenEstimation'') ''zeroTokensAllowed'' = Bool True), sp_json = deepClone p\<rparr>)"

definition validateContextSelectionPolicy :: "runtime \<Rightarrow> js \<Rightarrow> (ctx_error, sel_policy) result" where
  "validateContextSelectionPolicy rt p = (case first_failed (policy_checks rt p) of
     None \<Rightarrow> Inr (typed_policy rt p)
   | Some message \<Rightarrow> Inl (CtxTypeError (if some_suffix (starts_with ''unknown_field'') message then message else ''selection_policy_invalid:'' @ message)))"

definition contextSelectionPolicyFingerprint :: "runtime \<Rightarrow> sel_policy \<Rightarrow> string" where
  "contextSelectionPolicyFingerprint rt p = hashRef rt (canonicalStringify rt (sp_json p))"

section \<open>What a valid policy guarantees\<close>

lemma first_failed_None: "first_failed cs = None \<longleftrightarrow> list_all fst cs"
  by (induction cs rule: first_failed.induct) auto

definition policy_ok :: "sel_policy \<Rightarrow> bool" where
  "policy_ok p \<longleftrightarrow> 1 \<le> sp_rrfK p \<and> 1 \<le> sp_maxSelectedCandidates p \<and> 0 < sp_requiredBudgetRatio p \<and> sp_requiredBudgetRatio p \<le> 1 \<and> 1 \<le> sp_maxCandidateTokens p \<and>
     1 \<le> sm_shingleSize (sp_similarity p) \<and> (\<forall>(k, w) \<in> set (sp_featureWeights p). 0 \<le> w) \<and> (\<forall>(k, w) \<in> set (sp_sourceWeights p). 0 \<le> w)"

lemma int_between_int_of: "int_between lo hi v \<Longrightarrow> lo \<le> int_of v \<and> int_of v \<le> hi"
  by (cases v) (auto simp: int_of_def)

lemma num_between_rat_of: "num_between lo hi v \<Longrightarrow> lo \<le> rat_of v \<and> rat_of v \<le> hi"
  by (cases v) auto

lemma valid_policy_ok:
  assumes "validateContextSelectionPolicy rt j = Inr p"
  shows "policy_ok p"
proof -
  have c: "list_all fst (policy_checks rt j)" and p: "p = typed_policy rt j"
    using assms by (auto simp: validateContextSelectionPolicy_def first_failed_None [symmetric] split: option.splits)
  have i: "int_between 1 1000 (get (get j ''fusion'') ''rrfK'')" "int_between 1 100000 (get (get j ''limits'') ''maxSelectedCandidates'')"
      "int_between 1 100000 (get (get j ''limits'') ''maxCandidateTokens'')" "num_between (1 / 100) 1 (get (get j ''limits'') ''requiredBudgetRatio'')"
      "int_between 1 8 (get (get j ''similarity'') ''shingleSize'')"
    using c by (simp_all add: policy_checks_def Let_def SELECTION_LIMIT_KEYS_def)
  have w: "list_all fst (numeric_map_checks (get j k) ks n) \<Longrightarrow> \<forall>(k, w) \<in> set (map (\<lambda>(k, v). (k, rat_of v)) (entries (get j k))). 0 \<le> w" for k ks n
    by (auto simp: numeric_map_checks_def list_all_iff dest!: num_between_rat_of bspec)
  have "list_all fst (numeric_map_checks (get j ''sourceWeights'') (''direct'' # CANDIDATE_SOURCE_KINDS) ''sourceWeights'')"
      "list_all fst (numeric_map_checks (get j ''featureWeights'') FEATURE_WEIGHT_KEYS ''featureWeights'')"
    using c by (simp_all add: policy_checks_def Let_def)
  note this [THEN w]
  then show ?thesis using i(1-3,5) [THEN int_between_int_of] num_between_rat_of [OF i(4)] by (auto simp: p policy_ok_def typed_policy_def Let_def)
qed

text \<open>Both built-in policies pass the validation.\<close>

lemma built_in_policies_are_valid:
  "first_failed (policy_checks rt CONTEXT_SELECTION_POLICY) = None \<and> first_failed (policy_checks rt CODE_SEARCH_CONTEXT_SELECTION_POLICY) = None"
  by code_simp

end
