(* ===== verification/ContextCandidates.thy ===== *)
theory ContextCandidates
  imports ContextPolicy
begin

text \<open>
  packages/context-compiler: from input candidates to scored ones. Requests and candidates are
  normalised, candidates with the same identifier merged, each candidate judged eligible or
  not, and the eligible ones scored. A field of the request or of a candidate that the code
  gives a default is an option here; the clock's reading is an argument.
\<close>

section \<open>Requests\<close>

record sel_request =
  rq_id :: "string option"
  rq_requestId :: "string option"
  rq_workspaceId :: "string option"
  rq_taskId :: "string option"
  rq_objective :: string
  rq_step :: string
  rq_tokenBudget :: rat
  rq_requiredIds :: "string list"
  rq_requiredEntities :: "string list"
  rq_allowedScopes :: "string list option"
  rq_allowedDataClasses :: "string list option"
  rq_allowedTrustClasses :: "string list option"
  rq_now :: "string option"
  rq_trustedTimestamp :: "string option"

record checked_request =
  cq_id :: "string option"
  cq_requestId :: "string option"
  cq_workspaceId :: string
  cq_objective :: string
  cq_step :: string
  cq_tokenBudget :: int
  cq_requiredIds :: "string list"
  cq_requiredEntities :: "string list"
  cq_allowedScopes :: "string list"
  cq_allowedDataClasses :: "string list"
  cq_allowedTrustClasses :: "string list"
  cq_now :: int

definition or_else :: "'a option \<Rightarrow> 'a option \<Rightarrow> 'a option" where
  "or_else a b = (case a of None \<Rightarrow> b | Some x \<Rightarrow> Some x)"

definition given :: "'a option \<Rightarrow> 'a \<Rightarrow> 'a" where
  "given a d = (case a of None \<Rightarrow> d | Some x \<Rightarrow> x)"

definition validateSelectionRequest :: "runtime \<Rightarrow> int \<Rightarrow> sel_request \<Rightarrow> (ctx_error, checked_request) result" where
  "validateSelectionRequest rt clock rq =
     bind_res (require (rq_objective rq \<noteq> [] \<and> rq_step rq \<noteq> []) (CtxError ''objective and step are required'')) (\<lambda>_.
     bind_res (require (rq_tokenBudget rq = of_int \<lfloor>rq_tokenBudget rq\<rfloor> \<and> 1 \<le> rq_tokenBudget rq) (CtxError ''tokenBudget must be positive'')) (\<lambda>_.
     bind_res (case or_else (rq_now rq) (rq_trustedTimestamp rq) of None \<Rightarrow> Inr clock
         | Some d \<Rightarrow> (case date_parse rt d of None \<Rightarrow> Inl (CtxError ''now must be valid'') | Some t \<Rightarrow> Inr t)) (\<lambda>now.
       Inr \<lparr>cq_id = or_else (rq_id rq) (rq_requestId rq), cq_requestId = or_else (rq_requestId rq) (rq_id rq), cq_workspaceId = given (rq_workspaceId rq) ''ws_local'',
         cq_objective = rq_objective rq, cq_step = rq_step rq, cq_tokenBudget = \<lfloor>rq_tokenBudget rq\<rfloor>, cq_requiredIds = rq_requiredIds rq, cq_requiredEntities = rq_requiredEntities rq,
         cq_allowedScopes = given (rq_allowedScopes rq) [''public'', ''workspace-private''], cq_allowedDataClasses = given (rq_allowedDataClasses rq) [''public'', ''workspace-private''],
         cq_allowedTrustClasses = given (rq_allowedTrustClasses rq) [''verified'', ''trusted'', ''observed'', ''untrusted''], cq_now = now\<rparr>)))"

section \<open>Candidates\<close>

record hit_input =
  hi_sourceId :: "string option"
  hi_sourceKind :: "string option"
  hi_sourceVersion :: "string option"
  hi_retrievalMethod :: "string option"
  hi_localRank :: "rat option"
  hi_localScore :: "rat option"
  hi_reasonCodes :: "string list"
  hi_queryFingerprint :: "string option"
  hi_accessDecisionRef :: "string option"
  hi_retrievedAt :: "string option"

record hit =
  ht_sourceId :: string
  ht_sourceKind :: string
  ht_sourceVersion :: string
  ht_retrievalMethod :: string
  ht_localRank :: int
  ht_localScore :: rat
  ht_reasonCodes :: "string list"
  ht_queryFingerprint :: string
  ht_accessDecisionRef :: string
  ht_retrievedAt :: string

text \<open>A bare record, or one with the hits of its sources; no hits is the empty list.\<close>

datatype cand_input = Direct ctx_record | Sourced ctx_record "hit_input list"

record sel_candidate =
  sc_record :: ctx_record
  sc_hits :: "hit list"
  sc_inputIndex :: nat

definition sha_ref :: "string \<Rightarrow> bool" where
  "sha_ref s = re_test (seqs [Start, lit ''sha256:'', rep 64 (Cls (\<lambda>c. is_digit c \<or> c \<in> set ''abcdef'')), End]) s"

definition opt_text :: "runtime \<Rightarrow> js \<Rightarrow> string option" where
  "opt_text rt v = (if nullish v then None else Some (js_to_string rt v))"

definition class_of_data :: "runtime \<Rightarrow> ctx_record \<Rightarrow> string" where
  "class_of_data rt r = given (or_else (rc_dataClass r) (opt_text rt (get (rc_metadata r) ''dataClass''))) (if rc_scope r = Some ''public'' then ''public'' else ''workspace-private'')"

definition class_of_trust :: "runtime \<Rightarrow> ctx_record \<Rightarrow> string" where
  "class_of_trust rt r = given (or_else (rc_trustClass r) (opt_text rt (get (rc_metadata r) ''trustClass''))) ''observed''"

definition direct_hit :: "runtime \<Rightarrow> string \<Rightarrow> ctx_record \<Rightarrow> hit" where
  "direct_hit rt nowIso r = \<lparr>ht_sourceId = ''provider:native:context-selection:direct'', ht_sourceKind = ''direct'', ht_sourceVersion = ''0.2.0'', ht_retrievalMethod = ''direct_records'',
     ht_localRank = 1, ht_localScore = 1, ht_reasonCodes = [''direct_record''], ht_queryFingerprint = hashRef rt (canonicalStringify rt (Obj [(''id'', Str (rc_id r)), (''kind'', Str (rc_kind r))])),
     ht_accessDecisionRef = ''poldet_direct_record'', ht_retrievedAt = nowIso\<rparr>"

definition as_input :: "hit \<Rightarrow> hit_input" where
  "as_input h = \<lparr>hi_sourceId = Some (ht_sourceId h), hi_sourceKind = Some (ht_sourceKind h), hi_sourceVersion = Some (ht_sourceVersion h), hi_retrievalMethod = Some (ht_retrievalMethod h),
     hi_localRank = Some (of_int (ht_localRank h)), hi_localScore = Some (ht_localScore h), hi_reasonCodes = ht_reasonCodes h, hi_queryFingerprint = Some (ht_queryFingerprint h),
     hi_accessDecisionRef = Some (ht_accessDecisionRef h), hi_retrievedAt = Some (ht_retrievedAt h)\<rparr>"

definition directCandidateFromRecord :: "text_env \<Rightarrow> string \<Rightarrow> ctx_record \<Rightarrow> (ctx_error, ctx_record \<times> hit list) result" where
  "directCandidateFromRecord te nowIso r =
     bind_res (normalizeRecord te r) (\<lambda>n.
       Inr (n\<lparr>rc_dataClass := Some (class_of_data (te_rt te) n), rc_trustClass := Some (class_of_trust (te_rt te) n), rc_contentHash := Some (recordFingerprint (te_rt te) n)\<rparr>,
         [direct_hit (te_rt te) nowIso n]))"

definition normalizeSelectionHit :: "runtime \<Rightarrow> string \<Rightarrow> hit_input \<Rightarrow> nat \<Rightarrow> hit" where
  "normalizeSelectionHit rt nowIso h index =
     (let kind = given (hi_sourceKind h) ''direct'';
          rank = (case hi_localRank h of Some n \<Rightarrow> if n = of_int \<lfloor>n\<rfloor> \<and> 0 < n then \<lfloor>n\<rfloor> else int index + 1 | None \<Rightarrow> int index + 1)
      in \<lparr>ht_sourceId = given (hi_sourceId h) (''provider:native:context-selection:'' @ kind), ht_sourceKind = kind, ht_sourceVersion = given (hi_sourceVersion h) ''0.2.0'',
          ht_retrievalMethod = given (hi_retrievalMethod h) ''unknown'', ht_localRank = rank, ht_localScore = given (hi_localScore h) 0, ht_reasonCodes = sort (hi_reasonCodes h),
          ht_queryFingerprint = (case hi_queryFingerprint h of Some q \<Rightarrow> if sha_ref q then q else hashRef rt (kind @ '':'' @ num_str rt (of_int rank))
            | None \<Rightarrow> hashRef rt (kind @ '':'' @ num_str rt (of_int rank))),
          ht_accessDecisionRef = given (hi_accessDecisionRef h) ''poldet_unavailable'', ht_retrievedAt = given (hi_retrievedAt h) nowIso\<rparr>)"

text \<open>\<open>a || b || c\<close> of comparisons\<close>

fun first_nonzero :: "int list \<Rightarrow> int" where
  "first_nonzero [] = 0"
| "first_nonzero (c # cs) = (if c \<noteq> 0 then c else first_nonzero cs)"

definition compareSelectionHits :: "runtime \<Rightarrow> hit \<Rightarrow> hit \<Rightarrow> int" where
  "compareSelectionHits rt a b = first_nonzero [locale_compare rt (ht_sourceKind a) (ht_sourceKind b), locale_compare rt (ht_sourceId a) (ht_sourceId b),
     ht_localRank a - ht_localRank b, locale_compare rt (ht_retrievalMethod a) (ht_retrievalMethod b)]"

definition sort_hits :: "runtime \<Rightarrow> hit list \<Rightarrow> hit list" where
  "sort_hits rt = order_by (\<lambda>a b. compareSelectionHits rt a b \<le> 0)"

definition tokens_of :: "ctx_record \<Rightarrow> int" where
  "tokens_of r = given (rc_tokens r) 0"

definition MAX_CANDIDATE_TEXT_BYTES :: int where
  "MAX_CANDIDATE_TEXT_BYTES = 65536"

definition ineligible_metadata :: "string list \<Rightarrow> int \<Rightarrow> js \<Rightarrow> js" where
  "ineligible_metadata reasons original m = (if reasons = [] then m else
     Obj (spread (own_entries m) [(''retrieval'', Obj (spread (own_entries (get m ''retrieval''))
       [(''candidateEligible'', Bool False), (''ineligibleReason'', Str (hd reasons)), (''ineligibleReasons'', Arr (map Str (sorted_unique reasons))),
        (''originalTokenEstimate'', Num (of_int original))]))]))"

definition normalizeSelectionCandidate ::
  "text_env \<Rightarrow> string \<Rightarrow> sel_policy \<Rightarrow> checked_request \<Rightarrow> nat \<Rightarrow> cand_input \<Rightarrow> (ctx_error, sel_candidate) result" where
  "normalizeSelectionCandidate te nowIso p rq index cand =
     (let rt = te_rt te; max_tokens = sp_maxCandidateTokens p in
      bind_res (case cand of Sourced r hs \<Rightarrow> Inr (r, hs) | Direct r \<Rightarrow> map_sum id (\<lambda>(n, hs). (n, map as_input hs)) (directCandidateFromRecord te nowIso r)) (\<lambda>(given_record, given_hits).
      bind_res (normalizeRecord te given_record) (\<lambda>r.
      let original = tokens_of r in
      bind_res (require (\<not> (\<not> sp_zeroTokensAllowed p \<and> original < 1) \<and> 0 \<le> original) (CtxTypeError ''invalid_token_estimate'')) (\<lambda>_.
      let long = MAX_CANDIDATE_TEXT_BYTES < int (length (rc_text r));
          text = (if long then take (nat MAX_CANDIDATE_TEXT_BYTES) (rc_text r) else rc_text r);
          cut = (if long then (case rc_tokens given_record of Some n \<Rightarrow> min n max_tokens | None \<Rightarrow> estimateTokens text) else original);
          over = (max_tokens < cut \<or> max_tokens < original);
          tokens = (if over then max_tokens else cut);
          reasons = (if long then [''candidate_text_limit_exceeded''] else []) @ (if over then [''candidate_token_limit_exceeded''] else []);
          hash = given (opt_text rt (get (get (rc_metadata r) ''contextCompression'') ''originalContentHash'')) (recordFingerprint rt r)
      in bind_res (require (text_given (rc_contentHash r) = None \<and> text_given (rc_fingerprint r) = None \<or> sha_ref (given (or_else (rc_contentHash r) (rc_fingerprint r)) []))
           (CtxTypeError ''malformed_candidate:content_hash'')) (\<lambda>_.
         let hits = (if given_hits \<noteq> [] then map (\<lambda>(i, h). normalizeSelectionHit rt nowIso h i) (enumerate 0 (subarray (sp_maxSourceHitsPerCandidate p) given_hits))
               else [direct_hit rt nowIso r])
         in Inr \<lparr>sc_record = r\<lparr>rc_text := text, rc_tokens := Some tokens, rc_metadata := ineligible_metadata reasons original (rc_metadata r),
               rc_workspaceId := Some (given (rc_workspaceId r) (cq_workspaceId rq)), rc_dataClass := Some (class_of_data rt r), rc_trustClass := Some (class_of_trust rt r),
               rc_contentHash := Some hash\<rparr>, sc_hits = sort_hits rt hits, sc_inputIndex = index\<rparr>)))))"

section \<open>Merging\<close>

definition hit_key :: "runtime \<Rightarrow> hit \<Rightarrow> string" where
  "hit_key rt h = ht_sourceId h @ '':'' @ ht_retrievalMethod h @ '':'' @ num_str rt (of_int (ht_localRank h)) @ '':'' @ ht_queryFingerprint h"

abbreviation cand_id :: "('a sel_candidate_scheme) \<Rightarrow> string" where
  "cand_id c \<equiv> rc_id (sc_record c)"

definition merge_candidate :: "runtime \<Rightarrow> sel_candidate list \<Rightarrow> sel_candidate \<Rightarrow> (ctx_error, sel_candidate list) result" where
  "merge_candidate rt merged c = (case List.find (\<lambda>e. cand_id e = cand_id c) merged of
     None \<Rightarrow> Inr (merged @ [c])
   | Some e \<Rightarrow>
       if rc_contentHash (sc_record e) \<noteq> rc_contentHash (sc_record c) \<or> \<not> strict_eq (orelse (rc_version (sc_record e)) Null) (orelse (rc_version (sc_record c)) Null)
       then Inl (CtxCoded ''candidate_identity_conflict'')
       else Inr (upd_where (\<lambda>e. cand_id e = cand_id c)
         (\<lambda>e. e\<lparr>sc_hits := sort_hits rt (sc_hits e @ filter (\<lambda>h. hit_key rt h \<notin> set (map (hit_key rt) (sc_hits e))) (sc_hits c))\<rparr>) merged))"

fun fold_res :: "('s \<Rightarrow> 'a \<Rightarrow> ('e, 's) result) \<Rightarrow> 's \<Rightarrow> 'a list \<Rightarrow> ('e, 's) result" where
  "fold_res f s [] = Inr s"
| "fold_res f s (x # xs) = bind_res (f s x) (\<lambda>t. fold_res f t xs)"

definition by_id :: "runtime \<Rightarrow> ('a \<Rightarrow> string) \<Rightarrow> 'a list \<Rightarrow> 'a list" where
  "by_id rt key = order_by (\<lambda>a b. locale_compare rt (key a) (key b) \<le> 0)"

definition mergeSelectionCandidates :: "runtime \<Rightarrow> sel_candidate list \<Rightarrow> (ctx_error, sel_candidate list) result" where
  "mergeSelectionCandidates rt cs = map_sum id (by_id rt cand_id) (fold_res (merge_candidate rt) [] cs)"

section \<open>Category and eligibility\<close>

definition selectionCategory :: "ctx_record \<Rightarrow> string" where
  "selectionCategory r =
     (let kind = rc_kind r; chosen = given (rc_category r) [] in
      if chosen \<in> set CATEGORY_NAMES then chosen
      else if kind \<in> {''policy'', ''constraint''} then ''governance''
      else if kind \<in> {''state'', ''plan'', ''task''} then ''workingState''
      else if kind = ''decision'' then ''decisions''
      else if kind = ''preference'' then ''preferences''
      else if kind \<in> {''observation'', ''evidence'', ''fact'', ''claim''} then ''evidence''
      else if kind \<in> {''procedure'', ''runbook''} then ''procedures''
      else if kind \<in> {''episode'', ''memory''} then ''episodes''
      else if kind = ''artifact'' then ''artifacts''
      else if kind \<in> {''negative'', ''negative-context'', ''retraction''} \<or> rc_status r \<in> {Some ''retracted'', Some ''quarantined''} then ''negative''
      else if kind = ''example'' then ''examples''
      else ''other'')"

definition declared_ineligible :: "runtime \<Rightarrow> js \<Rightarrow> (ctx_error, string list) result" where
  "declared_ineligible rt m =
     (let retrieval = get m ''retrieval''; given_reasons = get retrieval ''ineligibleReasons'' in
      if get retrieval ''candidateEligible'' \<noteq> Bool False then Inr []
      else map_sum (\<lambda>_. CtxTypeError ''not iterable'') (\<lambda>vs. ''candidate_ineligible'' # concat (map (\<lambda>v. case v of Str s \<Rightarrow> [s] | _ \<Rightarrow> []) vs))
        (js_iter (if nullish given_reasons then Arr [get retrieval ''ineligibleReason''] else given_reasons)))"

definition date_reasons :: "runtime \<Rightarrow> int \<Rightarrow> ctx_record \<Rightarrow> string list" where
  "date_reasons rt now r =
     (case text_given (rc_validFrom r) of None \<Rightarrow> [] | Some d \<Rightarrow> (case date_parse rt d of Some t \<Rightarrow> if now < t then [''not_yet_valid'', ''outside_valid_time''] else [] | None \<Rightarrow> [])) @
     (case text_given (rc_validTo r) of None \<Rightarrow> [] | Some d \<Rightarrow> (case date_parse rt d of Some t \<Rightarrow> if t < now then [''expired'', ''outside_valid_time''] else [] | None \<Rightarrow> []))"

definition status_reasons :: "string option \<Rightarrow> string list" where
  "status_reasons s =
     (if s = Some ''expired'' then [''status_expired'', ''expired''] else []) @ (if s = Some ''retracted'' then [''status_retracted'', ''retracted''] else []) @
     (if s = Some ''quarantined'' then [''status_quarantined'', ''quarantined''] else []) @ (if s = Some ''superseded'' then [''status_superseded'', ''superseded''] else [])"

definition access_reasons :: "checked_request \<Rightarrow> ctx_record \<Rightarrow> string list" where
  "access_reasons rq r =
     (if text_given (rc_workspaceId r) \<noteq> None \<and> rc_workspaceId r \<noteq> Some (cq_workspaceId rq) then [''workspace_mismatch''] else []) @
     (if given (rc_scope r) ''workspace-private'' \<notin> set (cq_allowedScopes rq) then [''scope_denied''] else []) @
     (if rc_dataClass r = Some ''secret'' then [''secret_context_denied'', ''data_class_denied'']
      else if given (rc_dataClass r) ''workspace-private'' \<notin> set (cq_allowedDataClasses rq) then [''data_class_denied''] else []) @
     (if given (rc_trustClass r) ''observed'' \<notin> set (cq_allowedTrustClasses rq) then [''trust_class_denied''] else [])"

definition eligibilityReasons :: "runtime \<Rightarrow> checked_request \<Rightarrow> string list \<Rightarrow> sel_candidate \<Rightarrow> (ctx_error, string list) result" where
  "eligibilityReasons rt rq supersededIds c =
     (let r = sc_record c in
      bind_res (declared_ineligible rt (rc_metadata r)) (\<lambda>declared.
        Inr (nub (access_reasons rq r @ declared @ status_reasons (rc_status r) @
          (if rc_id r \<in> set supersededIds then [''superseded_by_newer_record'', ''superseded''] else []) @ date_reasons rt (cq_now rq) r))))"

section \<open>Conflicts\<close>

record ctx_conflict =
  cf_key :: js
  cf_records :: "(string \<times> js \<times> rat option) list"

definition conflict_key :: "ctx_record \<Rightarrow> js" where
  "conflict_key r = get (rc_metadata r) ''conflictKey''"

definition detectConflicts :: "runtime \<Rightarrow> ctx_record list \<Rightarrow> ctx_conflict list" where
  "detectConflicts rt rs =
     (let keyed = filter (\<lambda>r. truthy (conflict_key r)) rs;
          groups = map (\<lambda>k. \<lparr>cf_key = k, cf_records = map (\<lambda>r. (rc_id r, get (rc_metadata r) ''value'', rc_confidence r)) (filter (\<lambda>r. conflict_key r = k) keyed)\<rparr>) (nub (map conflict_key keyed))
      in filter (\<lambda>c. 1 < length (nub (map (\<lambda>(i, v, q). jsonStringify rt v) (cf_records c)))) groups)"

section \<open>Scores\<close>

definition clamp01 :: "rat option \<Rightarrow> rat" where
  "clamp01 v = max 0 (min 1 (given v 0))"

record fusion =
  fu_score :: rat
  fu_contributions :: "(string \<times> string \<times> int \<times> rat) list"

definition compare_contributions :: "runtime \<Rightarrow> string \<times> string \<times> int \<times> rat \<Rightarrow> string \<times> string \<times> int \<times> rat \<Rightarrow> bool" where
  "compare_contributions rt = (\<lambda>(i, k, n, x) (j, l, m, y). first_nonzero [locale_compare rt k l, locale_compare rt i j, n - m] \<le> 0)"

definition sourceFusion :: "runtime \<Rightarrow> sel_policy \<Rightarrow> hit list \<Rightarrow> fusion" where
  "sourceFusion rt p hits =
     (let contribution = (\<lambda>h. given (map_of (sp_sourceWeights p) (ht_sourceKind h)) 0 / (of_int (sp_rrfK p) + of_int (ht_localRank h))) in
      \<lparr>fu_score = round6 (sum_list (map contribution hits)),
       fu_contributions = order_by (compare_contributions rt) (map (\<lambda>h. (ht_sourceId h, ht_sourceKind h, ht_localRank h, round6 (contribution h))) hits)\<rparr>)"

definition kindPriorityValue :: "string \<Rightarrow> rat" where
  "kindPriorityValue kind =
     (if kind \<in> {''policy'', ''constraint''} then 1
      else if kind = ''decision'' then 17 / 20
      else if kind = ''preference'' then 7 / 10
      else if kind \<in> {''observation'', ''evidence'', ''fact''} then 13 / 20
      else if kind \<in> {''procedure'', ''episode'', ''artifact''} then 1 / 2
      else 7 / 20)"

definition featureValues :: "text_env \<Rightarrow> checked_request \<Rightarrow> ctx_record \<Rightarrow> rat \<Rightarrow> (string \<times> rat) list" where
  "featureValues te rq r fusion =
     (let objective = overlapScore te (cq_objective rq) r; step = overlapScore te (cq_step rq) r;
          wanted = nub (cq_requiredEntities rq);
          share = (\<lambda>ws. if wanted = [] then 0 else of_nat (length (filter (\<lambda>w. w \<in> set wanted) ws)) / of_nat (length wanted));
          entity = share (nub (rc_relations r @ rc_tags r)); relation = share (rc_relations r);
          retrieval = get (rc_metadata r) ''retrieval'';
          outcome = (case rc_outcomeEvidence r of Some x \<Rightarrow> Some x | None \<Rightarrow> to_number (te_rt te) (orelse (get retrieval ''outcomeEvidence'') (Num 0)))
      in [(''sourceFusion'', fusion), (''objectiveRelevance'', round6 objective), (''stepRelevance'', round6 step), (''entityCoverage'', round6 entity), (''relationCoverage'', round6 relation),
          (''authority'', round6 (clamp01 (Some (given (rc_authority r) (1 / 2))))), (''confidence'', round6 (clamp01 (Some (given (rc_confidence r) (1 / 2))))),
          (''preferenceApplicable'', if rc_kind r = ''preference'' \<and> (0 < objective \<or> 0 < step \<or> 0 < entity) then 1 else 0),
          (''outcomeEvidence'', round6 (clamp01 outcome)), (''temporalApplicability'', if isTemporallyValid (te_rt te) r (cq_now rq) then 1 else 0),
          (''kindPriority'', kindPriorityValue (rc_kind r)), (''tokenEfficiency'', round6 (clamp01 (Some (1 / max 1 (of_int (tokens_of r) / 32)))))])"

definition feature :: "(string \<times> rat) list \<Rightarrow> string \<Rightarrow> rat" where
  "feature vs k = given (map_of vs k) 0"

definition weightedUtility :: "sel_policy \<Rightarrow> (string \<times> rat) list \<Rightarrow> rat \<times> (string \<times> rat) list" where
  "weightedUtility p vs = (round6 (sum_list (map (\<lambda>(k, w). w * feature vs k) (sp_featureWeights p))), map (\<lambda>(k, w). (k, round6 (w * feature vs k))) (sp_featureWeights p))"

definition SELECTION_REASON_CODES :: "string list" where
  "SELECTION_REASON_CODES = [''required'', ''explicit_requirement'', ''mandatory_constraint'', ''forced_governance'', ''entity_coverage'', ''complementary_evidence'', ''high_task_relevance'',
     ''task_relevance'', ''preference_applicable'', ''active_working_state'', ''source_fusion'', ''entity_relation'', ''high_authority'', ''high_confidence'', ''high_importance'', ''outcome_evidence'',
     ''token_efficient'', ''diversity_gain'', ''selected_despite_kind_overlap'']"

definition reasonCodesForScored :: "ctx_record \<Rightarrow> (string \<times> rat) list \<Rightarrow> bool \<Rightarrow> bool \<Rightarrow> rat \<Rightarrow> string list" where
  "reasonCodesForScored r vs required governance utility =
     (let f = feature vs;
          reasons = (if required then [''required'', ''explicit_requirement''] else []) @ (if governance then [''mandatory_constraint'', ''forced_governance''] else []) @
            (if 1 / 5 < f ''objectiveRelevance'' \<or> 1 / 5 < f ''stepRelevance'' then [''task_relevance'', ''high_task_relevance''] else []) @
            (if 0 < f ''entityCoverage'' then [''entity_relation'', ''entity_coverage''] else []) @ (if 0 < f ''sourceFusion'' then [''source_fusion''] else []) @
            (if 4 / 5 \<le> f ''authority'' then [''high_authority''] else []) @ (if 4 / 5 \<le> f ''confidence'' then [''high_confidence''] else []) @
            (if f ''preferenceApplicable'' \<noteq> 0 then [''preference_applicable''] else []) @ (if 3 / 5 \<le> f ''outcomeEvidence'' then [''outcome_evidence''] else []) @
            (if 4 / 5 \<le> f ''tokenEfficiency'' then [''token_efficient''] else []) @ (if selectionCategory r = ''workingState'' then [''active_working_state''] else []);
          all_reasons = (if reasons = [] \<and> 7 / 20 \<le> utility then [''complementary_evidence''] else reasons)
      in sort (filter (\<lambda>c. c \<in> set SELECTION_REASON_CODES) (nub all_reasons)))"

record eligible = sel_candidate +
  el_category :: string
  el_shingles :: "string list"

record scored = eligible +
  sd_fusion :: fusion
  sd_values :: "(string \<times> rat) list"
  sd_contributions :: "(string \<times> rat) list"
  sd_baseUtility :: rat
  sd_rawUtility :: rat
  sd_required :: bool
  sd_governance :: bool
  sd_reasonCodes :: "string list"

definition to_eligible :: "text_env \<Rightarrow> sel_policy \<Rightarrow> sel_candidate \<Rightarrow> eligible" where
  "to_eligible te p c = sel_candidate.extend c (eligible.fields (selectionCategory (sc_record c)) (shinglesFor te (sp_similarity p) (rc_text (sc_record c))))"

definition score_candidate :: "text_env \<Rightarrow> sel_policy \<Rightarrow> checked_request \<Rightarrow> eligible \<Rightarrow> scored" where
  "score_candidate te p rq e =
     (let r = sc_record e; fusion = sourceFusion (te_rt te) p (sc_hits e); vs = featureValues te rq r (fu_score fusion); (total, contributions) = weightedUtility p vs;
          required = (rc_id r \<in> set (cq_requiredIds rq)); governance = (rc_kind r \<in> {''policy'', ''constraint''});
          signal = (0 < feature vs ''objectiveRelevance'' \<or> 0 < feature vs ''stepRelevance'' \<or> 0 < feature vs ''entityCoverage'' \<or> 0 < feature vs ''relationCoverage'' \<or> 0 < feature vs ''preferenceApplicable'');
          raw = (if \<not> required \<and> \<not> governance \<and> \<not> signal then min total (sp_minimumUtility p / 2) else total)
      in eligible.extend e (scored.fields fusion vs contributions (if required \<or> governance then 1000 else total) raw required governance (reasonCodesForScored r vs required governance raw)))"

definition compareScored :: "runtime \<Rightarrow> scored \<Rightarrow> scored \<Rightarrow> bool" where
  "compareScored rt a b \<longleftrightarrow>
     (if sd_baseUtility a \<noteq> sd_baseUtility b then sd_baseUtility b < sd_baseUtility a
      else if tokens_of (sc_record a) \<noteq> tokens_of (sc_record b) then tokens_of (sc_record a) < tokens_of (sc_record b)
      else locale_compare rt (cand_id a) (cand_id b) \<le> 0)"

section \<open>Decisions\<close>

definition UNSAFE_MANIFEST_MATERIAL :: re where
  "UNSAFE_MANIFEST_MATERIAL = Alt
     (Seq (Alt Start (Cls (\<lambda>c. js_space c \<or> c \<in> {CHR 0x22, CHR 0x27, CHR ''='', CHR '':'', CHR ''(''})))
       (alts [lit ''/Users/'', lit ''/private/'', lit ''/tmp/'', lit ''/var/folders/'', lit ''/var/tmp/'', lit ''/Volumes/'',
         seqs [Cls (\<lambda>c. is_upper c \<or> is_lower c), lit '':'', Cls (\<lambda>c. c = CHR 0x5C)]]))
     (seqs [lit ''workspace:///'', alts [lit ''Users'', lit ''private'', lit ''tmp'', lit ''var'', lit ''Volumes''], lit ''/''])"

definition SECRET_MANIFEST_MATERIAL :: re where
  "SECRET_MANIFEST_MATERIAL = alts [Seq (lit_i ''sk-'') (at_least 20 (Cls (\<lambda>c. is_alnum c \<or> c = CHR ''_'' \<or> c = CHR ''-''))),
     Seq (alts [lit_i ''token'', lit_i ''secret'', lit_i ''password'', lit_i ''authorization'']) (lit ''=''),
     seqs [lit_i ''select'', at_least 1 (Cls js_space), lit ''*'']]"

definition hasUnsafeManifestMaterial :: "string \<Rightarrow> bool" where
  "hasUnsafeManifestMaterial text \<longleftrightarrow>
     re_test UNSAFE_MANIFEST_MATERIAL text \<or> re_test (Seq Start (lit_i ''file://'')) text \<or> re_test SECRET_MANIFEST_MATERIAL text"

definition safeManifestSource :: "runtime \<Rightarrow> js \<Rightarrow> string" where
  "safeManifestSource rt v =
     (let t = trim (js_to_string rt (orelse v (Str ''unknown''))); source = (if t = [] then ''unknown'' else t) in
      if hasUnsafeManifestMaterial source then ''redacted-source'' else source)"

definition CONTEXT_REPRESENTATION_TIERS :: "string list" where
  "CONTEXT_REPRESENTATION_TIERS = [''full'', ''snippet'', ''outline'', ''locator-only'', ''excluded'']"

text \<open>The strings among the reason codes that match \<open>/^[a-z][a-z0-9_:-]*$/\<close>, sorted, at most so many.\<close>

definition code_text :: "string \<Rightarrow> bool" where
  "code_text s \<longleftrightarrow> (case s of [] \<Rightarrow> False | c # r \<Rightarrow> is_lower c \<and> list_all (\<lambda>d. is_lower d \<or> is_digit d \<or> d \<in> set ''_:-'') r)"

definition safe_codes :: "nat \<Rightarrow> js list \<Rightarrow> string list" where
  "safe_codes n vs = take n (sorted_unique (concat (map (\<lambda>v. case v of Str s \<Rightarrow> if code_text s then [s] else [] | _ \<Rightarrow> []) vs)))"

type_synonym hint = "string \<times> string list"

definition normalizeRepresentationHint :: "js \<Rightarrow> hint option" where
  "normalizeRepresentationHint v = (case get v ''tier'' of
     Str tier \<Rightarrow>
       if tier \<notin> set CONTEXT_REPRESENTATION_TIERS then None
       else (let given_codes = get v ''reasonCodes''; codes = (if is_arr given_codes then safe_codes 8 (items given_codes) else [''explicit_representation_hint''])
             in Some (tier, if codes = [] then [''explicit_representation_hint''] else codes))
   | _ \<Rightarrow> None)"

record manifest_view =
  mv_contentKind :: string
  mv_originalContentHash :: string
  mv_viewContentHash :: string
  mv_originalTokens :: "rat option"
  mv_viewTokens :: "rat option"
  mv_reductionRatio :: rat
  mv_recoverableBy :: string
  mv_reasonCodes :: "string list"

text \<open>\<open>Math.max(1, Number(v ?? 1))\<close>; \<open>None\<close> is \<open>NaN\<close>.\<close>

definition at_least_1 :: "runtime \<Rightarrow> js \<Rightarrow> rat option" where
  "at_least_1 rt v = map_option (max 1) (to_number rt (orelse v (Num 1)))"

definition normalizeContextViewForManifest :: "runtime \<Rightarrow> js \<Rightarrow> manifest_view option" where
  "normalizeContextViewForManifest rt v =
     (let hash_ok = (\<lambda>k. sha_ref (js_to_string rt (orelse (get v k) (Str [])))); codes = get v ''reasonCodes''; kind = get v ''contentKind'' in
      if get v ''algorithm'' \<noteq> Str ''oaf_context_view_v1'' \<or> \<not> hash_ok ''originalContentHash'' \<or> \<not> hash_ok ''viewContentHash'' then None
      else Some \<lparr>mv_contentKind = (if str_in kind CONTEXT_VIEW_KINDS \<and> kind \<noteq> Str ''auto'' then js_to_string rt kind else ''text''),
        mv_originalContentHash = js_to_string rt (get v ''originalContentHash''), mv_viewContentHash = js_to_string rt (get v ''viewContentHash''),
        mv_originalTokens = at_least_1 rt (get v ''originalTokens''), mv_viewTokens = at_least_1 rt (get v ''viewTokens''),
        mv_reductionRatio = round6 (given (to_number rt (orelse (get v ''reductionRatio'') (Num 0))) 0),
        mv_recoverableBy = (if get v ''recoverableBy'' = Str ''originalContentHash'' then ''originalContentHash'' else ''manual_review''),
        mv_reasonCodes = (if is_arr codes then safe_codes 12 (items codes) else [''context_view_compacted''])\<rparr>)"

record ctx_decision =
  dc_id :: string
  dc_kind :: string
  dc_tokens :: int
  dc_score :: rat
  dc_reasonCodes :: "string list"
  dc_source :: string
  dc_text :: string
  dc_contentHash :: "string option"
  dc_order :: "nat option"
  dc_category :: string
  dc_hint :: "hint option"
  dc_contextView :: "manifest_view option"

definition decisionFromScored :: "runtime \<Rightarrow> 'a eligible_scheme \<Rightarrow> rat \<Rightarrow> string list \<Rightarrow> nat option \<Rightarrow> ctx_decision" where
  "decisionFromScored rt item score codes order =
     (let r = sc_record item in
      \<lparr>dc_id = rc_id r, dc_kind = rc_kind r, dc_tokens = tokens_of r, dc_score = round6 score, dc_reasonCodes = sorted_unique codes, dc_source = safeManifestSource rt (rc_source r),
       dc_text = rc_text r, dc_contentHash = text_given (rc_contentHash r), dc_order = order, dc_category = el_category item,
       dc_hint = normalizeRepresentationHint (get (rc_metadata r) ''contextAssembly''), dc_contextView = normalizeContextViewForManifest rt (get (rc_metadata r) ''contextCompression'')\<rparr>)"

definition EXCLUSION_REASON_CODES :: "string list" where
  "EXCLUSION_REASON_CODES = [''policy_denied'', ''workspace_mismatch'', ''scope_denied'', ''data_class_denied'', ''secret_context_denied'', ''trust_class_denied'', ''expired'', ''not_yet_valid'',
     ''outside_valid_time'', ''superseded'', ''superseded_by_newer_record'', ''retracted'', ''quarantined'', ''status_expired'', ''status_retracted'', ''status_quarantined'', ''status_superseded'',
     ''candidate_identity_conflict'', ''below_minimum_utility'', ''insufficient_relevance'', ''insufficient_marginal_utility'', ''redundant'', ''category_cap'', ''token_budget'',
     ''required_but_over_budget'', ''maximum_candidate_count'', ''unresolved_required_record'', ''malformed_candidate'', ''candidate_ineligible'', ''candidate_token_limit_exceeded'',
     ''candidate_text_limit_exceeded'']"

definition exclusion :: "runtime \<Rightarrow> 'a eligible_scheme \<Rightarrow> rat \<Rightarrow> string list \<Rightarrow> ctx_decision" where
  "exclusion rt item score codes =
     decisionFromScored rt item score (filter (\<lambda>c. c \<in> set EXCLUSION_REASON_CODES \<or> starts_with ''status_'' c) codes) None"

section \<open>What normalisation and merging guarantee\<close>

lemma set_by_id [simp]: "set (by_id rt key xs) = set xs"
  by (simp add: by_id_def)

lemma mset_by_id [simp]: "mset (by_id rt key xs) = mset xs"
  by (simp add: by_id_def)

lemma distinct_by_id [simp]: "distinct (map f (by_id rt key xs)) = distinct (map f xs)"
  by (metis mset_by_id mset_map mset_eq_imp_distinct_iff)

lemma normalized_candidate_form:
  assumes "normalizeSelectionCandidate te nowIso p rq i c = Inr d"
  shows "\<exists>r tokens text m w dc tc h hits. d = \<lparr>sc_record = r\<lparr>rc_text := text, rc_tokens := Some tokens, rc_metadata := m, rc_workspaceId := Some w,
    rc_dataClass := Some dc, rc_trustClass := Some tc, rc_contentHash := Some h\<rparr>, sc_hits = hits, sc_inputIndex = i\<rparr>"
  using assms unfolding normalizeSelectionCandidate_def Let_def bind_res_eq_Inr case_prod_beta by blast

lemma normalized_candidate:
  assumes "normalizeSelectionCandidate te nowIso p rq i c = Inr d"
  shows "rc_workspaceId (sc_record d) \<noteq> None" and "rc_dataClass (sc_record d) \<noteq> None" and "rc_contentHash (sc_record d) \<noteq> None" and "rc_tokens (sc_record d) \<noteq> None"
  using normalized_candidate_form [OF assms] by auto

lemma merge_candidate_ids:
  assumes "merge_candidate rt ms c = Inr ms'" and "distinct (map cand_id ms)"
  shows "distinct (map cand_id ms') \<and> set (map cand_id ms') = insert (cand_id c) (set (map cand_id ms)) \<and> sc_record ` set ms' \<subseteq> insert (sc_record c) (sc_record ` set ms)"
proof (cases "List.find (\<lambda>e. cand_id e = cand_id c) ms")
  case None
  then have "ms' = ms @ [c]" using assms(1) by (simp add: merge_candidate_def)
  moreover have "cand_id c \<notin> set (map cand_id ms)"
  proof
    assume "cand_id c \<in> set (map cand_id ms)"
    then obtain e where e: "cand_id c = cand_id e" "e \<in> set ms" unfolding set_map by (rule imageE)
    show False using find_NoneD [OF None e(2)] e(1) by simp
  qed
  ultimately show ?thesis using assms(2) by auto
next
  case (Some e)
  have e: "e \<in> set ms" "cand_id e = cand_id c" using find_SomeD [OF Some] by auto
  have ms': "ms' = upd_where (\<lambda>e. cand_id e = cand_id c) (\<lambda>e. e\<lparr>sc_hits := sort_hits rt (sc_hits e @ filter (\<lambda>h. hit_key rt h \<notin> set (map (hit_key rt) (sc_hits e))) (sc_hits c))\<rparr>) ms"
    using assms(1) Some by (auto simp: merge_candidate_def split: if_splits)
  have h: "map sc_record ms' = map sc_record ms" unfolding ms' by (rule map_upd_where_same) simp
  have "map cand_id ms' = map cand_id ms" using arg_cong [OF h, of "map rc_id"] by (simp add: comp_def)
  moreover have "sc_record ` set ms' = sc_record ` set ms" using arg_cong [OF h, of set] by simp
  moreover have "cand_id c \<in> set (map cand_id ms)" using imageI [OF e(1), of cand_id] e(2) by simp
  ultimately show ?thesis using assms(2) insert_absorb [of "cand_id c" "set (map cand_id ms)"] by (simp only: subset_insertI)
qed

lemma merge_all_ids:
  assumes "fold_res (merge_candidate rt) ms cs = Inr ms'" and "distinct (map cand_id ms)"
  shows "distinct (map cand_id ms') \<and> set (map cand_id ms') = set (map cand_id ms) \<union> set (map cand_id cs) \<and> sc_record ` set ms' \<subseteq> sc_record ` (set ms \<union> set cs)"
  using assms
proof (induction cs arbitrary: ms)
  case (Cons c cs)
  then obtain m where m: "merge_candidate rt ms c = Inr m" "fold_res (merge_candidate rt) m cs = Inr ms'" by (auto simp: bind_res_eq_Inr)
  note one = merge_candidate_ids [OF m(1) Cons.prems(2)]
  note all = Cons.IH [OF m(2) one [THEN conjunct1]]
  have "sc_record ` set ms' \<subseteq> sc_record ` set m \<union> sc_record ` set cs" using all by (simp add: image_Un)
  moreover have "sc_record ` set m \<subseteq> insert (sc_record c) (sc_record ` set ms)" using one by blast
  ultimately have "sc_record ` set ms' \<subseteq> sc_record ` (set ms \<union> set (c # cs))" unfolding image_Un list.set image_insert by blast
  then show ?case using one all by simp
qed simp

lemma mergeSelectionCandidates_ids:
  assumes "mergeSelectionCandidates rt cs = Inr ms"
  shows "distinct (map cand_id ms) \<and> set (map cand_id ms) = set (map cand_id cs) \<and> sc_record ` set ms \<subseteq> sc_record ` set cs"
proof -
  obtain m where m: "fold_res (merge_candidate rt) [] cs = Inr m" "ms = by_id rt cand_id m"
    using assms by (auto simp: mergeSelectionCandidates_def map_sum_def split: sum.splits)
  show ?thesis using merge_all_ids [OF m(1)] unfolding m(2) by simp
qed

end
