(* ===== verification/ContextSelect.thy ===== *)
theory ContextSelect
  imports ContextCandidates
begin

text \<open>
  packages/context-compiler: selectContextCandidates. Required and governance records come
  first; then the optional record of the largest marginal utility is taken or rejected until
  none is left, the number of records is reached or the selection suffices. The similarity of
  an optional record to the selected ones is computed incrementally and kept between rounds.
\<close>

section \<open>Similarity to the selection\<close>

record sel_state =
  ss_optional :: "scored list"
  ss_selected :: "ctx_decision list"
  ss_scored :: "scored list"
  ss_counts :: "string \<rightharpoonup> nat"
  ss_used :: int
  ss_entities :: "string list"
  ss_cache :: "string \<rightharpoonup> nat \<times> rat"
  ss_compared :: nat
  ss_iterations :: nat
  ss_excluded :: "ctx_decision list"

definition record_path :: "ctx_record \<Rightarrow> js" where
  "record_path r = get (rc_metadata r) ''path''"

definition similarity :: "sel_policy \<Rightarrow> 'a eligible_scheme \<Rightarrow> 'b eligible_scheme \<Rightarrow> rat" where
  "similarity p a b =
     (let overlap = jaccard (el_shingles a) (el_shingles b); path = record_path (sc_record a) in
      if cand_id a = cand_id b then 1
      else if text_given (rc_contentHash (sc_record a)) \<noteq> None \<and> rc_contentHash (sc_record a) = rc_contentHash (sc_record b) then 1
      else if is_str path \<and> truthy path \<and> path = record_path (sc_record b) then max overlap (sp_nearDuplicateThreshold p)
      else overlap)"

fun compare_rest :: "sel_policy \<Rightarrow> scored \<Rightarrow> scored list \<Rightarrow> nat \<Rightarrow> rat \<Rightarrow> (ctx_error, nat \<times> rat) result" where
  "compare_rest p item [] n s = Inr (n, s)"
| "compare_rest p item (x # xs) n s =
     (if rc_workspaceId (sc_record item) \<noteq> rc_workspaceId (sc_record x) then compare_rest p item xs n s
      else if sm_maxPairwiseComparisons (sp_similarity p) < int n + 1 then Inl (CtxError ''similarity_comparison_limit_exceeded'')
      else compare_rest p item xs (n + 1) (max s (similarity p item x)))"

definition redundancyFor :: "sel_policy \<Rightarrow> scored \<Rightarrow> sel_state \<Rightarrow> (ctx_error, rat \<times> sel_state) result" where
  "redundancyFor p item st =
     (let (known, s) = given (ss_cache st (cand_id item)) (0, 0) in
      bind_res (compare_rest p item (drop known (ss_scored st)) (ss_compared st) s) (\<lambda>(n, s').
        Inr (round6 s', st\<lparr>ss_cache := (ss_cache st)(cand_id item \<mapsto> (length (ss_scored st), s')), ss_compared := n\<rparr>)))"

section \<open>The best optional record\<close>

record marked = scored +
  mk_redundancy :: rat
  mk_marginal :: rat
  mk_newEntity :: bool
  mk_newKind :: bool

definition mark :: "sel_policy \<Rightarrow> checked_request \<Rightarrow> sel_state \<Rightarrow> scored \<Rightarrow> rat \<Rightarrow> marked" where
  "mark p rq st item redundancy =
     (let new_entity = list_ex (\<lambda>e. e \<in> set (cq_requiredEntities rq) \<and> e \<notin> set (ss_entities st)) (words_of (sc_record item));
          new_kind = (\<not> list_ex (\<lambda>x. el_category x = el_category item) (ss_scored st));
          bonus = (if new_entity then sp_coverageBonus p else 0) + (if new_kind then sp_kindCoverageBonus p else 0)
      in scored.extend item (marked.fields redundancy (round6 (sd_rawUtility item - sp_diversityWeight p * redundancy + bonus)) new_entity new_kind))"

text \<open>\<open>compareMarginal(a, b) < 0\<close>\<close>

definition compareMarginal :: "runtime \<Rightarrow> marked \<Rightarrow> marked \<Rightarrow> bool" where
  "compareMarginal rt a b \<longleftrightarrow>
     (if mk_marginal a \<noteq> mk_marginal b then mk_marginal b < mk_marginal a
      else if tokens_of (sc_record a) \<noteq> tokens_of (sc_record b) then tokens_of (sc_record a) < tokens_of (sc_record b)
      else locale_compare rt (cand_id a) (cand_id b) < 0)"

fun find_best :: "runtime \<Rightarrow> sel_policy \<Rightarrow> checked_request \<Rightarrow> scored list \<Rightarrow> marked option \<Rightarrow> sel_state \<Rightarrow> (ctx_error, marked option \<times> sel_state) result" where
  "find_best rt p rq [] best st = Inr (best, st)"
| "find_best rt p rq (item # xs) best st =
     bind_res (redundancyFor p item st) (\<lambda>(r, st').
       let m = mark p rq st' item r in
       find_best rt p rq xs (case best of None \<Rightarrow> Some m | Some b \<Rightarrow> if compareMarginal rt m b then Some m else best) st')"

section \<open>When a selection suffices\<close>

definition evidenceCount :: "scored list \<Rightarrow> int" where
  "evidenceCount xs = int (length (filter (\<lambda>x. el_category x = ''evidence'') xs))"

definition isSufficient :: "checked_request \<Rightarrow> scored list \<Rightarrow> ctx_conflict list \<Rightarrow> sel_policy \<Rightarrow> int \<Rightarrow> bool" where
  "isSufficient rq xs conflicts p used \<longleftrightarrow>
     list_all (\<lambda>i. i \<in> cand_id ` set xs) (cq_requiredIds rq) \<and>
     list_all (\<lambda>e. \<exists>x \<in> set xs. e \<in> set (words_of (sc_record x))) (cq_requiredEntities rq) \<and>
     sp_minimumEvidenceCount p \<le> evidenceCount xs \<and>
     sp_minimumBudgetUtilization p \<le> of_int used / of_int (max 1 (cq_tokenBudget rq)) \<and>
     list_all (\<lambda>c. list_all (\<lambda>(i, v, q). i \<in> cand_id ` set xs) (cf_records c)) conflicts"

section \<open>The loop\<close>

definition reject_reasons :: "sel_policy \<Rightarrow> checked_request \<Rightarrow> sel_state \<Rightarrow> marked \<Rightarrow> int \<Rightarrow> string list" where
  "reject_reasons p rq st best cap =
     (if sd_rawUtility best < sp_minimumUtility p then [''below_minimum_utility'', ''insufficient_relevance''] else []) @
     (if sp_duplicateThreshold p \<le> mk_redundancy best then [''redundant''] else []) @
     (if cap \<le> int (given (ss_counts st (el_category best)) 0) then [''category_cap''] else []) @
     (if cq_tokenBudget rq < ss_used st + tokens_of (sc_record best) then [''token_budget''] else []) @
     (if mk_marginal best < sp_marginalUtility p then [''insufficient_marginal_utility''] else [])"

definition covered :: "checked_request \<Rightarrow> 'a sel_candidate_scheme \<Rightarrow> string list" where
  "covered rq x = filter (\<lambda>e. e \<in> set (cq_requiredEntities rq)) (words_of (sc_record x))"

definition accept :: "runtime \<Rightarrow> checked_request \<Rightarrow> marked \<Rightarrow> sel_state \<Rightarrow> sel_state" where
  "accept rt rq best st =
     (let c = el_category best;
          codes = sd_reasonCodes best @ [if mk_newEntity best then ''entity_coverage'' else ''complementary_evidence'', if ss_counts st c \<noteq> None then ''selected_despite_kind_overlap'' else ''diversity_gain'']
      in st\<lparr>ss_selected := ss_selected st @ [decisionFromScored rt best (mk_marginal best) codes (Some (length (ss_selected st) + 1))],
            ss_scored := ss_scored st @ [scored.truncate best], ss_counts := (ss_counts st)(c \<mapsto> given (ss_counts st c) 0 + 1),
            ss_used := ss_used st + tokens_of (sc_record best), ss_entities := ss_entities st @ covered rq best\<rparr>)"

text \<open>Once the selection suffices, the optional records that are left are excluded in the order of their identifiers.\<close>

definition exclude_rest :: "runtime \<Rightarrow> sel_policy \<Rightarrow> sel_state \<Rightarrow> scored \<Rightarrow> (ctx_error, sel_state) result" where
  "exclude_rest rt p st item =
     bind_res (redundancyFor p item st) (\<lambda>(r, st').
       Inr (st'\<lparr>ss_excluded := ss_excluded st' @ [exclusion rt item (sd_rawUtility item) [if sp_duplicateThreshold p \<le> r then ''redundant'' else ''insufficient_marginal_utility'']]\<rparr>))"

text \<open>One round; the truth value says whether the loop goes on.\<close>

definition select_round :: "runtime \<Rightarrow> sel_policy \<Rightarrow> checked_request \<Rightarrow> ctx_conflict list \<Rightarrow> sel_state \<Rightarrow> (ctx_error, bool \<times> sel_state) result" where
  "select_round rt p rq conflicts st0 =
     bind_res (find_best rt p rq (ss_optional st0) None (st0\<lparr>ss_iterations := ss_iterations st0 + 1\<rparr>)) (\<lambda>(b, st).
     case b of None \<Rightarrow> Inr (False, st) | Some best \<Rightarrow>
       (let st = st\<lparr>ss_optional := filter (\<lambda>x. cand_id x \<noteq> cand_id best) (ss_optional st)\<rparr> in
        case map_of (sp_categoryBudgets p) (el_category best) of
          None \<Rightarrow> Inl (CtxTypeError ''cap'')
        | Some (cap, ratio) \<Rightarrow>
            (let reasons = reject_reasons p rq st best cap in
             if reasons \<noteq> [] then Inr (True, st\<lparr>ss_excluded := ss_excluded st @ [exclusion rt best (mk_marginal best) reasons]\<rparr>)
             else (let st = accept rt rq best st in
               if isSufficient rq (ss_scored st) conflicts p (ss_used st) \<and> sp_minimumEvidenceCount p \<le> evidenceCount (ss_scored st)
               then bind_res (fold_res (exclude_rest rt p) st (by_id rt cand_id (ss_optional st))) (\<lambda>st'. Inr (False, st'\<lparr>ss_optional := []\<rparr>))
               else Inr (True, st)))))"

text \<open>
  The loop. Every round takes one optional record out, so the number of optional records at
  the start is enough fuel (see \<open>select_loop_ends\<close>).
\<close>

fun select_loop :: "nat \<Rightarrow> runtime \<Rightarrow> sel_policy \<Rightarrow> checked_request \<Rightarrow> ctx_conflict list \<Rightarrow> sel_state \<Rightarrow> (ctx_error, sel_state) result" where
  "select_loop 0 rt p rq conflicts st = Inr st"
| "select_loop (Suc n) rt p rq conflicts st =
     (if ss_optional st = [] \<or> sp_maxSelectedCandidates p \<le> int (length (ss_selected st)) then Inr st
      else bind_res (select_round rt p rq conflicts st) (\<lambda>(go, st'). if go then select_loop n rt p rq conflicts st' else Inr st'))"

section \<open>The whole selection\<close>

definition required_first :: "runtime \<Rightarrow> scored list \<Rightarrow> scored list" where
  "required_first rt xs = order_by (\<lambda>a b. if sd_required a \<noteq> sd_required b then sd_required a else locale_compare rt (cand_id a) (cand_id b) \<le> 0)
     (filter (\<lambda>x. sd_required x \<or> sd_governance x) xs)"

definition take_required :: "runtime \<Rightarrow> checked_request \<Rightarrow> sel_state \<Rightarrow> scored \<Rightarrow> sel_state" where
  "take_required rt rq st x = st\<lparr>ss_selected := ss_selected st @ [decisionFromScored rt x (sd_baseUtility x) (sd_reasonCodes x) (Some (length (ss_selected st) + 1))],
     ss_scored := ss_scored st @ [x], ss_counts := (ss_counts st)(el_category x \<mapsto> given (ss_counts st (el_category x)) 0 + 1),
     ss_used := ss_used st + tokens_of (sc_record x), ss_entities := ss_entities st @ covered rq x\<rparr>"

definition selection_start :: "runtime \<Rightarrow> checked_request \<Rightarrow> scored list \<Rightarrow> ctx_decision list \<Rightarrow> sel_state" where
  "selection_start rt rq xs excluded = foldl (take_required rt rq)
     \<lparr>ss_optional = filter (\<lambda>x. \<not> sd_required x \<and> \<not> sd_governance x \<and> cand_id x \<notin> cand_id ` set (required_first rt xs)) xs,
      ss_selected = [], ss_scored = [], ss_counts = Map.empty, ss_used = 0, ss_entities = [], ss_cache = Map.empty, ss_compared = 0, ss_iterations = 0, ss_excluded = excluded\<rparr>
     (required_first rt xs)"

definition total_tokens :: "'a sel_candidate_scheme list \<Rightarrow> int" where
  "total_tokens xs = sum_list (map (\<lambda>x. tokens_of (sc_record x)) xs)"

record judged =
  jd_eligible :: "eligible list"
  jd_excluded :: "ctx_decision list"

definition judge :: "text_env \<Rightarrow> sel_policy \<Rightarrow> checked_request \<Rightarrow> string list \<Rightarrow> judged \<Rightarrow> sel_candidate \<Rightarrow> (ctx_error, judged) result" where
  "judge te p rq supersededIds j c =
     bind_res (eligibilityReasons (te_rt te) rq supersededIds c) (\<lambda>reasons.
       let e = to_eligible te p c in
       if reasons \<noteq> [] then Inr (j\<lparr>jd_excluded := jd_excluded j @ [exclusion (te_rt te) e 0 reasons]\<rparr>)
       else Inr (j\<lparr>jd_eligible := jd_eligible j @ [e]\<rparr>))"

record coverage =
  cv_requested :: "string list"
  cv_represented :: "string list"
  cv_unresolved :: "string list"

definition coverageFor :: "ctx_record list \<Rightarrow> string list \<Rightarrow> coverage" where
  "coverageFor rs wanted =
     (let requested = sorted_unique wanted; represented = sorted_unique (filter (\<lambda>w. w \<in> set wanted) (concat (map words_of rs))) in
      \<lparr>cv_requested = requested, cv_represented = represented, cv_unresolved = filter (\<lambda>e. e \<notin> set represented) requested\<rparr>)"

record category_summary =
  cy_cap :: int
  cy_softReserveRatio :: rat
  cy_softReserveTokens :: int
  cy_selectedCount :: nat
  cy_selectedTokens :: int

definition categoryBudgetSummary :: "sel_policy \<Rightarrow> checked_request \<Rightarrow> scored list \<Rightarrow> (ctx_error, (string \<times> category_summary) list) result" where
  "categoryBudgetSummary p rq xs = map_res (\<lambda>c. case map_of (sp_categoryBudgets p) c of
       None \<Rightarrow> Inl (CtxTypeError ''cap'')
     | Some (cap, ratio) \<Rightarrow> (let mine = filter (\<lambda>x. el_category x = c) xs in
         Inr (c, \<lparr>cy_cap = cap, cy_softReserveRatio = ratio, cy_softReserveTokens = \<lfloor>of_int (cq_tokenBudget rq) * ratio\<rfloor>, cy_selectedCount = length mine, cy_selectedTokens = total_tokens mine\<rparr>))) CATEGORY_NAMES"

definition candidateGenerationSafeFingerprint :: "runtime \<Rightarrow> js \<Rightarrow> sel_candidate list \<Rightarrow> js" where
  "candidateGenerationSafeFingerprint rt gen cs =
     Obj [(''status'', orelse (get gen ''status'') Null),
       (''reports'', Arr (map (\<lambda>r. Obj [(''sourceId'', get r ''sourceId''), (''sourceKind'', get r ''sourceKind''), (''status'', get r ''status''), (''failureCode'', orelse (get r ''failureCode'') Null)])
         (order_by (\<lambda>a b. locale_compare rt (js_to_string rt (get a ''sourceId'')) (js_to_string rt (get b ''sourceId'')) \<le> 0) (items (get gen ''reports''))))),
       (''candidates'', Arr (map (\<lambda>c. Obj [(''id'', Str (cand_id c)), (''version'', orelse (rc_version (sc_record c)) Null), (''contentHash'', Str (given (rc_contentHash (sc_record c)) [])),
         (''hits'', Arr (map (\<lambda>h. Obj [(''sourceId'', Str (ht_sourceId h)), (''sourceKind'', Str (ht_sourceKind h)), (''localRank'', Num (of_int (ht_localRank h)))]) (sc_hits c)))]) cs))]"

definition safeDecision :: "ctx_decision \<Rightarrow> js" where
  "safeDecision d = Obj [(''id'', Str (dc_id d)), (''order'', case dc_order d of None \<Rightarrow> Null | Some n \<Rightarrow> Num (of_nat n)), (''tokens'', Num (of_int (dc_tokens d))),
     (''category'', Str (dc_category d)), (''utility'', Num (dc_score d)), (''reasonCodes'', Arr (map Str (dc_reasonCodes d)))]"

definition strings_js :: "string list \<Rightarrow> js" where
  "strings_js ss = Arr (map Str ss)"

definition conflict_js :: "ctx_conflict \<Rightarrow> js" where
  "conflict_js c = Obj [(''key'', cf_key c), (''records'', Arr (map (\<lambda>(i, v, q). Obj [(''id'', Str i), (''value'', v), (''confidence'', case q of None \<Rightarrow> Null | Some n \<Rightarrow> Num n)]) (cf_records c))),
     (''status'', Str ''unresolved'')]"

record sufficiency =
  sf_sufficient :: bool
  sf_requestedIds :: "string list"
  sf_resolvedIds :: "string list"
  sf_entities :: coverage
  sf_eligibleEntities :: "string list"
  sf_evidenceCount :: int
  sf_conflictCount :: nat

text \<open>\<open>safeScoreBreakdown\<close>: how an eligible record was scored and what became of it.\<close>

record breakdown =
  bd_id :: string
  bd_category :: string
  bd_fusion :: fusion
  bd_values :: "(string \<times> rat) list"
  bd_contributions :: "(string \<times> rat) list"
  bd_preDiversityUtility :: rat
  bd_outcome :: string
  bd_reasonCodes :: "string list"

definition safeScoreBreakdown :: "ctx_decision list \<Rightarrow> ctx_decision list \<Rightarrow> scored \<Rightarrow> breakdown" where
  "safeScoreBreakdown selected excluded x =
     \<lparr>bd_id = cand_id x, bd_category = el_category x, bd_fusion = sd_fusion x, bd_values = sd_values x, bd_contributions = sd_contributions x,
      bd_preDiversityUtility = round6 (sd_rawUtility x), bd_outcome = (if cand_id x \<in> dc_id ` set excluded then ''excluded'' else if cand_id x \<in> dc_id ` set selected then ''selected'' else ''excluded''),
      bd_reasonCodes = take 16 (sd_reasonCodes x)\<rparr>"

record selection =
  sl_requestId :: "string option"
  sl_workspaceId :: string
  sl_policyVersion :: string
  sl_policyFingerprint :: string
  sl_generationFingerprint :: string
  sl_totalCandidateCount :: nat
  sl_totalCandidateTokens :: int
  sl_eligibleCount :: nat
  sl_selectedTokens :: int
  sl_availableBudget :: int
  sl_categoryBudgets :: "(string \<times> category_summary) list"
  sl_sufficiency :: sufficiency
  sl_warnings :: "string list"
  sl_scoreBreakdowns :: "breakdown list"
  sl_comparisons :: nat
  sl_iterations :: nat
  sl_resultFingerprint :: string

record manifest =
  mf_workspaceId :: string
  mf_requestId :: "string option"
  mf_available :: int
  mf_used :: int
  mf_selected :: "ctx_decision list"
  mf_excluded :: "ctx_decision list"
  mf_conflicts :: "ctx_conflict list"
  mf_warnings :: "string list"
  mf_selection :: selection

definition resultFingerprint :: "runtime \<Rightarrow> ctx_decision list \<Rightarrow> ctx_decision list \<Rightarrow> sufficiency \<Rightarrow> ctx_conflict list \<Rightarrow> string" where
  "resultFingerprint rt selected excluded sf conflicts =
     hashRef rt (canonicalStringify rt (Obj [(''selected'', Arr (map safeDecision selected)), (''excluded'', Arr (map safeDecision excluded)),
       (''coverage'', Obj [(''requested'', strings_js (cv_requested (sf_entities sf))), (''eligible'', strings_js (sf_eligibleEntities sf)),
         (''selected'', strings_js (cv_represented (sf_entities sf))), (''unresolved'', strings_js (cv_unresolved (sf_entities sf)))]),
       (''conflicts'', Arr (map conflict_js conflicts))]))"

definition leftover :: "runtime \<Rightarrow> sel_policy \<Rightarrow> sel_state \<Rightarrow> ctx_decision list" where
  "leftover rt p st = map (\<lambda>x. exclusion rt x (sd_rawUtility x)
     [if sp_maxSelectedCandidates p \<le> int (length (ss_selected st)) then ''maximum_candidate_count'' else ''insufficient_marginal_utility'']) (ss_optional st)"

definition finish_selection ::
  "text_env \<Rightarrow> sel_policy \<Rightarrow> checked_request \<Rightarrow> js \<Rightarrow> string list \<Rightarrow> sel_candidate list \<Rightarrow> eligible list \<Rightarrow> scored list \<Rightarrow> ctx_conflict list \<Rightarrow> sel_state \<Rightarrow> (ctx_error, manifest) result" where
  "finish_selection te p rq gen warnings normalized eligible scored conflicts st =
     (let rt = te_rt te; excluded = by_id rt dc_id (ss_excluded st @ leftover rt p st);
          chosen = coverageFor (map sc_record (ss_scored st)) (cq_requiredEntities rq);
          sf = \<lparr>sf_sufficient = isSufficient rq (ss_scored st) conflicts p (ss_used st), sf_requestedIds = sorted_unique (cq_requiredIds rq),
            sf_resolvedIds = sort (map cand_id (filter (\<lambda>e. cand_id e \<in> set (cq_requiredIds rq)) eligible)),
            sf_entities = chosen, sf_eligibleEntities = cv_represented (coverageFor (map sc_record eligible) (cq_requiredEntities rq)),
            sf_evidenceCount = evidenceCount (ss_scored st), sf_conflictCount = length conflicts\<rparr>
      in bind_res (categoryBudgetSummary p rq (ss_scored st)) (\<lambda>budgets.
        let sl = \<lparr>sl_requestId = cq_requestId rq, sl_workspaceId = cq_workspaceId rq, sl_policyVersion = sp_policyVersion p, sl_policyFingerprint = contextSelectionPolicyFingerprint rt p,
          sl_generationFingerprint = hashRef rt (canonicalStringify rt (candidateGenerationSafeFingerprint rt gen normalized)), sl_totalCandidateCount = length normalized,
          sl_totalCandidateTokens = total_tokens normalized, sl_eligibleCount = length eligible, sl_selectedTokens = ss_used st, sl_availableBudget = cq_tokenBudget rq,
          sl_categoryBudgets = budgets, sl_sufficiency = sf, sl_warnings = sorted_unique warnings,
          sl_scoreBreakdowns = by_id rt bd_id (map (safeScoreBreakdown (ss_selected st) excluded) scored), sl_comparisons = ss_compared st, sl_iterations = ss_iterations st,
          sl_resultFingerprint = resultFingerprint rt (ss_selected st) excluded sf conflicts\<rparr>
        in Inr \<lparr>mf_workspaceId = cq_workspaceId rq, mf_requestId = cq_id rq, mf_available = cq_tokenBudget rq, mf_used = ss_used st, mf_selected = ss_selected st, mf_excluded = excluded,
          mf_conflicts = conflicts, mf_warnings = sorted_unique ((if list_ex (\<lambda>d. ''required_but_over_budget'' \<in> set (dc_reasonCodes d)) excluded then [''required_governance_exceeded_budget''] else []) @ warnings),
          mf_selection = sl\<rparr>))"

definition superseded_ids :: "sel_candidate list \<Rightarrow> string list" where
  "superseded_ids cs = concat (map (\<lambda>c. case text_given (rc_supersedes (sc_record c)) of None \<Rightarrow> [] | Some i \<Rightarrow> [i]) cs)"

definition selectContextCandidates ::
  "text_env \<Rightarrow> int \<Rightarrow> string \<Rightarrow> js \<Rightarrow> js \<Rightarrow> string list \<Rightarrow> sel_request \<Rightarrow> cand_input list \<Rightarrow> (ctx_error, manifest) result" where
  "selectContextCandidates te clock nowIso policy gen warnings request inputs =
     (let rt = te_rt te in
      bind_res (validateContextSelectionPolicy rt policy) (\<lambda>p.
      bind_res (validateSelectionRequest rt clock request) (\<lambda>rq.
      bind_res (require (int (length inputs) \<le> sp_maxCandidates p) (CtxError ''maximum_candidate_count'')) (\<lambda>_.
      bind_res (map_res (\<lambda>(i, c). normalizeSelectionCandidate te nowIso p rq i c) (enumerate 0 inputs)) (\<lambda>cs.
      bind_res (mergeSelectionCandidates rt cs) (\<lambda>normalized.
      bind_res (require (total_tokens normalized \<le> sp_maxTotalCandidateTokens p) (CtxError ''candidate_token_ceiling_exceeded'')) (\<lambda>_.
      bind_res (fold_res (judge te p rq (superseded_ids normalized)) \<lparr>jd_eligible = [], jd_excluded = []\<rparr> normalized) (\<lambda>j.
      let conflicts = detectConflicts rt (map sc_record (jd_eligible j)) in
      bind_res (require (list_all (\<lambda>i. i \<in> cand_id ` set (jd_eligible j)) (cq_requiredIds rq)) (CtxCoded ''required_context_unresolved'')) (\<lambda>_.
      bind_res (require (\<not> list_ex (\<lambda>c. list_ex (\<lambda>(i, v, q). i \<in> set (cq_requiredIds rq)) (cf_records c)) conflicts) (CtxCoded ''required_context_conflict'')) (\<lambda>_.
      let scored = order_by (compareScored rt) (map (score_candidate te p rq) (jd_eligible j)) in
      bind_res (require (total_tokens (required_first rt scored) \<le> \<lfloor>of_int (cq_tokenBudget rq) * sp_requiredBudgetRatio p\<rfloor>) (CtxCoded ''required_context_over_budget'')) (\<lambda>_.
      let st = selection_start rt rq scored (jd_excluded j) in
      bind_res (select_loop (length (ss_optional st)) rt p rq conflicts st) (\<lambda>st'.
        finish_selection te p rq gen warnings normalized (jd_eligible j) scored conflicts st'))))))))))))"

section \<open>Lemmas\<close>

named_theorems ctx_sel \<open>what the steps of a selection leave of the records they carry\<close>

lemma decision_fields [ctx_sel, simp]:
  "dc_id (decisionFromScored rt x s codes n) = cand_id x" "dc_tokens (decisionFromScored rt x s codes n) = tokens_of (sc_record x)"
  "dc_text (decisionFromScored rt x s codes n) = rc_text (sc_record x)" "dc_category (decisionFromScored rt x s codes n) = el_category x"
  "dc_order (decisionFromScored rt x s codes n) = n" "dc_kind (decisionFromScored rt x s codes n) = rc_kind (sc_record x)"
  by (simp_all add: decisionFromScored_def Let_def)

lemma exclusion_id [ctx_sel, simp]: "dc_id (exclusion rt x s codes) = cand_id x"
  by (simp add: exclusion_def)

lemma mark_fields [ctx_sel, simp]:
  "sc_record (mark p rq st x r) = sc_record x" "el_category (mark p rq st x r) = el_category x" "scored.truncate (mark p rq st x r) = x"
  "mk_redundancy (mark p rq st x r) = r"
  by (simp_all add: mark_def Let_def scored.defs marked.defs)

lemma truncate_fields [simp]: "sc_record (scored.truncate x) = sc_record x" "el_category (scored.truncate x) = el_category x"
  by (simp_all add: scored.defs)

lemma score_fields [ctx_sel, simp]: "sc_record (score_candidate te p rq e) = sc_record e" "el_category (score_candidate te p rq e) = el_category e"
  by (simp_all add: score_candidate_def Let_def case_prod_beta eligible.defs scored.defs)

lemma to_eligible_fields [ctx_sel, simp]: "sc_record (to_eligible te p c) = sc_record c"
  by (simp add: to_eligible_def sel_candidate.defs eligible.defs)

text \<open>Only the cache and the count of comparisons change while candidates are compared.\<close>

definition same_choice :: "sel_state \<Rightarrow> sel_state \<Rightarrow> bool" where
  "same_choice st st' \<longleftrightarrow> st' = st\<lparr>ss_cache := ss_cache st', ss_compared := ss_compared st'\<rparr>"

lemma same_choice_refl: "same_choice st st"
  by (simp add: same_choice_def)

lemma same_choice_fields:
  "same_choice st st' \<Longrightarrow> ss_optional st' = ss_optional st \<and> ss_selected st' = ss_selected st \<and> ss_scored st' = ss_scored st \<and> ss_counts st' = ss_counts st \<and>
     ss_used st' = ss_used st \<and> ss_entities st' = ss_entities st \<and> ss_iterations st' = ss_iterations st \<and> ss_excluded st' = ss_excluded st"
  unfolding same_choice_def by (cases st; cases st') simp

lemma same_choice_trans: "same_choice a b \<Longrightarrow> same_choice b c \<Longrightarrow> same_choice a c"
  unfolding same_choice_def by (cases a; cases b; cases c) simp

text \<open>The similarity of a record to the selected ones, without the cache.\<close>

definition redundancy :: "sel_policy \<Rightarrow> scored \<Rightarrow> scored list \<Rightarrow> rat" where
  "redundancy p x xs = foldl (\<lambda>s y. if rc_workspaceId (sc_record x) \<noteq> rc_workspaceId (sc_record y) then s else max s (similarity p x y)) 0 xs"

definition cache_ok :: "sel_policy \<Rightarrow> scored list \<Rightarrow> sel_state \<Rightarrow> bool" where
  "cache_ok p xs st \<longleftrightarrow> (\<forall>x \<in> set xs. \<forall>n s. ss_cache st (cand_id x) = Some (n, s) \<longrightarrow> n \<le> length (ss_scored st) \<and> s = redundancy p x (take n (ss_scored st)))"

lemma compare_rest_value:
  "compare_rest p x xs n s = Inr (n', s') \<Longrightarrow> s' = foldl (\<lambda>s y. if rc_workspaceId (sc_record x) \<noteq> rc_workspaceId (sc_record y) then s else max s (similarity p x y)) s xs"
  by (induction xs arbitrary: n s) (auto split: if_splits)

lemma redundancyFor_exact:
  assumes "redundancyFor p x st = Inr (r, st')" and "cache_ok p xs st" and "x \<in> set xs" and "distinct (map cand_id xs)"
  shows "r = round6 (redundancy p x (ss_scored st)) \<and> cache_ok p xs st' \<and> same_choice st st'"
proof -
  obtain n s where k: "given (ss_cache st (cand_id x)) (0, 0) = (n, s)" by (cases "given (ss_cache st (cand_id x)) (0, 0)")
  have ns: "n \<le> length (ss_scored st)" "s = redundancy p x (take n (ss_scored st))"
    using k assms(2,3) by (auto simp: cache_ok_def given_def redundancy_def split: option.splits)
  obtain m s' where m: "compare_rest p x (drop n (ss_scored st)) (ss_compared st) s = Inr (m, s')"
      "r = round6 s'" "st' = st\<lparr>ss_cache := (ss_cache st)(cand_id x \<mapsto> (length (ss_scored st), s')), ss_compared := m\<rparr>"
    using assms(1) k by (auto simp: redundancyFor_def bind_res_eq_Inr)
  have s': "s' = redundancy p x (ss_scored st)"
    using compare_rest_value [OF m(1)] unfolding ns(2) redundancy_def foldl_append [symmetric] append_take_drop_id .
  have "y = x" if "y \<in> set xs" "cand_id y = cand_id x" for y
    using that assms(3,4) by (auto simp: distinct_map inj_on_def)
  then have "cache_ok p xs st'" using assms(2) s' unfolding cache_ok_def m(3) by auto
  then show ?thesis using m s' by (simp add: same_choice_def)
qed

section \<open>The choice of a round\<close>

definition marked_for :: "sel_policy \<Rightarrow> checked_request \<Rightarrow> sel_state \<Rightarrow> scored \<Rightarrow> marked" where
  "marked_for p rq st x = mark p rq st x (round6 (redundancy p x (ss_scored st)))"

definition better :: "runtime \<Rightarrow> marked option \<Rightarrow> marked \<Rightarrow> marked option" where
  "better rt best m = (case best of None \<Rightarrow> Some m | Some b \<Rightarrow> if compareMarginal rt m b then Some m else best)"

text \<open>The choice without a cache: every optional record is compared with every selected one.\<close>

definition best_choice :: "runtime \<Rightarrow> sel_policy \<Rightarrow> checked_request \<Rightarrow> sel_state \<Rightarrow> scored list \<Rightarrow> marked option \<Rightarrow> marked option" where
  "best_choice rt p rq st xs best = foldl (better rt) best (map (marked_for p rq st) xs)"

lemma mark_same_choice: "same_choice st st' \<Longrightarrow> mark p rq st' x r = mark p rq st x r"
  by (auto simp: mark_def dest!: same_choice_fields)

lemma find_best_exact:
  assumes "find_best rt p rq xs b st = Inr (b', st')" and "cache_ok p ys st" and "set xs \<subseteq> set ys" and "distinct (map cand_id ys)"
  shows "b' = best_choice rt p rq st xs b \<and> cache_ok p ys st' \<and> same_choice st st'"
  using assms
proof (induction xs arbitrary: b st)
  case (Cons x xs)
  obtain r s where r: "redundancyFor p x st = Inr (r, s)" "find_best rt p rq xs (better rt b (mark p rq s x r)) s = Inr (b', st')"
    using Cons.prems(1) by (auto simp: bind_res_eq_Inr Let_def better_def)
  have e: "r = round6 (redundancy p x (ss_scored st))" "cache_ok p ys s" "same_choice st s"
    using redundancyFor_exact [OF r(1) Cons.prems(2) _ Cons.prems(4)] Cons.prems(3) by auto
  note ih = Cons.IH [OF r(2) e(2) _ Cons.prems(4)]
  have m: "mark p rq s x r = marked_for p rq st x" using mark_same_choice [OF e(3)] e(1) by (simp add: marked_for_def)
  have "marked_for p rq s = marked_for p rq st"
    using mark_same_choice [OF e(3)] same_choice_fields [OF e(3)] by (auto simp: marked_for_def fun_eq_iff)
  then show ?case using ih Cons.prems(3) e(3) same_choice_trans m by (auto simp: best_choice_def)
qed (simp add: best_choice_def same_choice_refl)

lemma better_cases: "better rt b m = Some m \<or> better rt b m = b \<and> b \<noteq> None"
  by (auto simp: better_def split: option.splits)

lemma best_choice_in: "best_choice rt p rq st xs b = Some m \<Longrightarrow> b = Some m \<or> (\<exists>x \<in> set xs. m = marked_for p rq st x)"
proof (induction xs arbitrary: b)
  case (Cons x xs)
  have "best_choice rt p rq st xs (better rt b (marked_for p rq st x)) = Some m" using Cons.prems by (simp add: best_choice_def)
  then show ?case using Cons.IH better_cases [of rt b "marked_for p rq st x"] by fastforce
qed (simp add: best_choice_def)

lemma best_choice_some: "xs \<noteq> [] \<or> b \<noteq> None \<Longrightarrow> best_choice rt p rq st xs b \<noteq> None"
proof (induction xs arbitrary: b)
  case (Cons x xs)
  have "better rt b (marked_for p rq st x) \<noteq> None" using better_cases [of rt b "marked_for p rq st x"] by auto
  then show ?case using Cons.IH by (simp add: best_choice_def)
qed (simp add: best_choice_def)

lemma better_marginal: "better rt b m = Some w \<Longrightarrow> mk_marginal m \<le> mk_marginal w \<and> (\<forall>v. b = Some v \<longrightarrow> mk_marginal v \<le> mk_marginal w)"
  by (auto simp: better_def compareMarginal_def split: option.splits if_splits)

text \<open>The choice has the largest marginal utility.\<close>

lemma best_choice_max:
  "best_choice rt p rq st xs b = Some m \<Longrightarrow>
     (\<forall>x \<in> set xs. mk_marginal (marked_for p rq st x) \<le> mk_marginal m) \<and> (\<forall>v. b = Some v \<longrightarrow> mk_marginal v \<le> mk_marginal m)"
proof (induction xs arbitrary: b)
  case (Cons x xs)
  obtain w where w: "better rt b (marked_for p rq st x) = Some w" using better_cases [of rt b "marked_for p rq st x"] by auto
  then have "best_choice rt p rq st xs (Some w) = Some m" using Cons.prems by (simp add: best_choice_def)
  note ih = Cons.IH [OF this]
  then show ?case using better_marginal [OF w] by (auto intro: order_trans)
qed (simp add: best_choice_def)

section \<open>What a round does\<close>

definition without :: "'a sel_candidate_scheme \<Rightarrow> scored list \<Rightarrow> scored list" where
  "without b xs = filter (\<lambda>x. cand_id x \<noteq> cand_id b) xs"

lemma exclude_rest_effect:
  assumes "fold_res (exclude_rest rt p) st xs = Inr st'"
  shows "ss_selected st' = ss_selected st \<and> ss_scored st' = ss_scored st \<and> ss_counts st' = ss_counts st \<and> ss_used st' = ss_used st \<and>
    map dc_id (ss_excluded st') = map dc_id (ss_excluded st) @ map cand_id xs"
  using assms
proof (induction xs arbitrary: st)
  case (Cons x xs)
  obtain s where s: "exclude_rest rt p st x = Inr s" "fold_res (exclude_rest rt p) s xs = Inr st'" using Cons.prems by (auto simp: bind_res_eq_Inr)
  have "ss_selected s = ss_selected st \<and> ss_scored s = ss_scored st \<and> ss_counts s = ss_counts st \<and> ss_used s = ss_used st \<and> map dc_id (ss_excluded s) = map dc_id (ss_excluded st) @ [cand_id x]"
    using s(1) by (auto simp: exclude_rest_def redundancyFor_def bind_res_eq_Inr split: prod.splits)
  then show ?case using Cons.IH [OF s(2)] by simp
qed simp

lemma select_round_cases:
  assumes "select_round rt p rq cf st = Inr (go, st')" and "cache_ok p (ss_optional st) st" and "distinct (map cand_id (ss_optional st))" and "ss_optional st \<noteq> []"
  obtains (reject) x c n where "x \<in> set (ss_optional st)" "go" "cache_ok p (ss_optional st) (st\<lparr>ss_cache := c, ss_compared := n\<rparr>)"
      "st' = st\<lparr>ss_iterations := ss_iterations st + 1, ss_cache := c, ss_compared := n, ss_optional := without x (ss_optional st),
         ss_excluded := ss_excluded st @ [exclusion rt (marked_for p rq st x) (mk_marginal (marked_for p rq st x)) (reject_reasons p rq st (marked_for p rq st x) (fst (the (map_of (sp_categoryBudgets p) (el_category x)))))]\<rparr>"
    | (accept) x c n cap ratio s where "x \<in> set (ss_optional st)" "cache_ok p (ss_optional st) (st\<lparr>ss_cache := c, ss_compared := n\<rparr>)"
      "map_of (sp_categoryBudgets p) (el_category x) = Some (cap, ratio)" "reject_reasons p rq st (marked_for p rq st x) cap = []"
      "s = accept rt rq (marked_for p rq st x) (st\<lparr>ss_iterations := ss_iterations st + 1, ss_cache := c, ss_compared := n, ss_optional := without x (ss_optional st)\<rparr>)"
      "go \<and> st' = s \<or> \<not> go \<and> (\<exists>s'. fold_res (exclude_rest rt p) s (by_id rt cand_id (ss_optional s)) = Inr s' \<and> st' = s'\<lparr>ss_optional := []\<rparr>)"
proof -
  let ?i = "st\<lparr>ss_iterations := ss_iterations st + 1\<rparr>"
  obtain b s where b: "find_best rt p rq (ss_optional st) None ?i = Inr (b, s)" using assms(1) by (auto simp: select_round_def bind_res_eq_Inr)
  have "cache_ok p (ss_optional st) ?i" using assms(2) by (simp add: cache_ok_def)
  from find_best_exact [OF b this _ assms(3)] have e: "b = best_choice rt p rq ?i (ss_optional st) None" "cache_ok p (ss_optional st) s" "same_choice ?i s" by auto
  have mk: "marked_for p rq ?i = marked_for p rq st" by (simp add: marked_for_def mark_def fun_eq_iff)
  obtain x where x: "x \<in> set (ss_optional st)" "b = Some (marked_for p rq st x)"
    using best_choice_some [of "ss_optional st" None rt p rq ?i] best_choice_in [of rt p rq ?i "ss_optional st" None] assms(4) e(1) unfolding mk by auto
  obtain c n where s: "s = st\<lparr>ss_iterations := ss_iterations st + 1, ss_cache := c, ss_compared := n\<rparr>" using e(3) by (auto simp: same_choice_def)
  have ok: "cache_ok p (ss_optional st) (st\<lparr>ss_cache := c, ss_compared := n\<rparr>)" using e(2) by (simp add: s cache_ok_def)
  have w: "filter (\<lambda>y. cand_id y \<noteq> cand_id (marked_for p rq st x)) (ss_optional s) = without x (ss_optional st)" by (simp add: s without_def marked_for_def)
  have rr: "reject_reasons p rq (s\<lparr>ss_optional := o'\<rparr>) y cap = reject_reasons p rq st y cap" for o' y cap by (simp add: s reject_reasons_def)
  have cat: "el_category (marked_for p rq st x) = el_category x" by (simp add: marked_for_def)
  obtain cap ratio where cap: "map_of (sp_categoryBudgets p) (el_category x) = Some (cap, ratio)"
    using assms(1) [unfolded select_round_def b bind_res_simps prod.case x(2) option.case Let_def w cat] by (cases "map_of (sp_categoryBudgets p) (el_category x)") auto
  let ?s = "s\<lparr>ss_optional := without x (ss_optional st)\<rparr>" and ?m = "marked_for p rq st x"
  have r: "(if reject_reasons p rq st ?m cap \<noteq> [] then Inr (True, ?s\<lparr>ss_excluded := ss_excluded ?s @ [exclusion rt ?m (mk_marginal ?m) (reject_reasons p rq st ?m cap)]\<rparr>)
      else (let t = accept rt rq ?m ?s in
        if isSufficient rq (ss_scored t) cf p (ss_used t) \<and> sp_minimumEvidenceCount p \<le> evidenceCount (ss_scored t)
        then bind_res (fold_res (exclude_rest rt p) t (by_id rt cand_id (ss_optional t))) (\<lambda>st'. Inr (False, st'\<lparr>ss_optional := []\<rparr>)) else Inr (True, t))) = Inr (go, st')"
    using assms(1) unfolding select_round_def b bind_res_simps prod.case x(2) option.case Let_def w cat cap rr .
  show thesis
  proof (cases "reject_reasons p rq st ?m cap = []")
    case False
    then show thesis using r by (intro reject [OF x(1) _ ok]) (auto simp: s cap)
  next
    case True
    show thesis
      by (rule accept [OF x(1) ok cap True refl]) (use r True in \<open>auto simp: s Let_def bind_res_eq_Inr split: if_splits\<close>)
  qed
qed

section \<open>The invariant of the loop\<close>

definition count_cat :: "string \<Rightarrow> scored list \<Rightarrow> nat" where
  "count_cat c xs = length (filter (\<lambda>x. el_category x = c) xs)"

lemma count_cat_append [simp]: "count_cat c (xs @ ys) = count_cat c xs + count_cat c ys"
  by (simp add: count_cat_def)

lemma count_cat_single [simp]: "count_cat c [x] = (if el_category x = c then 1 else 0)"
  by (simp add: count_cat_def)

lemma total_tokens_append [simp]: "total_tokens (xs @ ys) = total_tokens xs + total_tokens ys"
  by (simp add: total_tokens_def)

lemma total_tokens_Cons [simp]: "total_tokens (x # xs) = tokens_of (sc_record x) + total_tokens xs" "total_tokens [] = 0"
  by (simp_all add: total_tokens_def)

definition decision_ids :: "sel_state \<Rightarrow> string multiset" where
  "decision_ids st = mset (map dc_id (ss_selected st)) + mset (map dc_id (ss_excluded st)) + mset (map cand_id (ss_optional st))"

definition sel_inv :: "sel_policy \<Rightarrow> checked_request \<Rightarrow> string multiset \<Rightarrow> sel_state \<Rightarrow> sel_state \<Rightarrow> bool" where
  "sel_inv p rq A s0 st \<longleftrightarrow>
     ss_used st = total_tokens (ss_scored st) \<and> ss_used st \<le> cq_tokenBudget rq \<and>
     map dc_id (ss_selected st) = map cand_id (ss_scored st) \<and> map dc_tokens (ss_selected st) = map (\<lambda>x. tokens_of (sc_record x)) (ss_scored st) \<and>
     decision_ids st = A \<and> (\<forall>c. given (ss_counts st c) 0 = count_cat c (ss_scored st)) \<and>
     (\<forall>c cap ratio. map_of (sp_categoryBudgets p) c = Some (cap, ratio) \<longrightarrow> int (count_cat c (ss_scored st)) \<le> max cap (int (count_cat c (ss_scored s0)))) \<and>
     int (length (ss_selected st)) \<le> max (sp_maxSelectedCandidates p) (int (length (ss_selected s0))) \<and>
     cache_ok p (ss_optional st) st \<and> distinct (map cand_id (ss_optional st)) \<and> set (ss_optional st) \<subseteq> set (ss_optional s0) \<and>
     (\<exists>ys. ss_scored st = ss_scored s0 @ ys \<and> set ys \<subseteq> set (ss_optional s0) \<and> list_all (\<lambda>y. sp_minimumUtility p \<le> sd_rawUtility y) ys)"

definition sel_step :: "runtime \<Rightarrow> sel_policy \<Rightarrow> checked_request \<Rightarrow> ctx_conflict list \<Rightarrow> sel_state \<Rightarrow> sel_state \<Rightarrow> bool" where
  "sel_step rt p rq cf st st' \<longleftrightarrow>
     ss_optional st \<noteq> [] \<and> int (length (ss_selected st)) < sp_maxSelectedCandidates p \<and> (\<exists>go. select_round rt p rq cf st = Inr (go, st'))"

lemma without_ids:
  assumes "x \<in> set xs" and "distinct (map cand_id xs)"
  shows "mset (map cand_id xs) = mset (map cand_id (without x xs)) + {#cand_id x#}" and "length xs = Suc (length (without x xs))"
proof -
  have "mset (map cand_id xs) = mset (map cand_id (without x xs)) + {#cand_id x#} \<and> length xs = Suc (length (without x xs))"
    using assms
  proof (induction xs)
    case (Cons y xs)
    show ?case
    proof (cases "cand_id y = cand_id x")
      case True
      then have "cand_id x \<notin> cand_id ` set xs" using Cons.prems(2) by simp
      then have "without x xs = xs" unfolding without_def by (intro filter_True ballI) (metis imageI)
      then show ?thesis using True by (simp add: without_def)
    next
      case False
      then show ?thesis using Cons by (auto simp: without_def)
    qed
  qed simp
  then show "mset (map cand_id xs) = mset (map cand_id (without x xs)) + {#cand_id x#}" "length xs = Suc (length (without x xs))" by auto
qed

lemma without_subset: "set (without x xs) \<subseteq> set xs" and distinct_without: "distinct (map f xs) \<Longrightarrow> distinct (map f (without x xs))"
  by (auto simp: without_def intro: distinct_map_filter)

lemma accept_fields:
  "ss_optional (accept rt rq b st) = ss_optional st" "ss_excluded (accept rt rq b st) = ss_excluded st" "ss_cache (accept rt rq b st) = ss_cache st"
  "ss_scored (accept rt rq b st) = ss_scored st @ [scored.truncate b]" "ss_used (accept rt rq b st) = ss_used st + tokens_of (sc_record b)"
  "map dc_id (ss_selected (accept rt rq b st)) = map dc_id (ss_selected st) @ [cand_id b]" "length (ss_selected (accept rt rq b st)) = Suc (length (ss_selected st))"
  "map dc_tokens (ss_selected (accept rt rq b st)) = map dc_tokens (ss_selected st) @ [tokens_of (sc_record b)]"
  "given (ss_counts (accept rt rq b st) c) 0 = given (ss_counts st c) 0 + (if c = el_category b then 1 else 0)"
  by (simp_all add: accept_def Let_def given_def)

lemma cache_ok_mono: "cache_ok p xs st \<Longrightarrow> set ys \<subseteq> set xs \<Longrightarrow> cache_ok p ys st"
  by (auto simp: cache_ok_def)

lemma cache_ok_more: "cache_ok p xs st \<Longrightarrow> ss_cache st' = ss_cache st \<Longrightarrow> ss_scored st' = ss_scored st @ zs \<Longrightarrow> cache_ok p xs st'"
  by (fastforce simp: cache_ok_def)

lemma marked_for_fields [simp]: "sc_record (marked_for p rq st x) = sc_record x" "el_category (marked_for p rq st x) = el_category x" "scored.truncate (marked_for p rq st x) = x"
  "sd_rawUtility (marked_for p rq st x) = sd_rawUtility x"
  by (simp_all add: marked_for_def) (simp add: mark_def Let_def scored.defs marked.defs)

lemma accepted_inv:
  assumes "sel_inv p rq A s0 st" and "x \<in> set (ss_optional st)" and "cache_ok p (ss_optional st) (st\<lparr>ss_cache := c, ss_compared := n\<rparr>)"
    and "map_of (sp_categoryBudgets p) (el_category x) = Some (cap, ratio)" and "reject_reasons p rq st (marked_for p rq st x) cap = []"
    and "int (length (ss_selected st)) < sp_maxSelectedCandidates p"
    and "s = accept rt rq (marked_for p rq st x) (st\<lparr>ss_iterations := ss_iterations st + 1, ss_cache := c, ss_compared := n, ss_optional := without x (ss_optional st)\<rparr>)"
  shows "sel_inv p rq A s0 s"
proof -
  note inv = assms(1) [unfolded sel_inv_def]
  obtain ys where ys: "ss_scored st = ss_scored s0 @ ys" "set ys \<subseteq> set (ss_optional s0)" "list_all (\<lambda>y. sp_minimumUtility p \<le> sd_rawUtility y) ys" using inv by blast
  have rr: "ss_used st + tokens_of (sc_record x) \<le> cq_tokenBudget rq" "int (given (ss_counts st (el_category x)) 0) < cap" "sp_minimumUtility p \<le> sd_rawUtility x"
    using assms(5) by (auto simp: reject_reasons_def split: if_splits)
  have f: "ss_scored s = ss_scored st @ [x]" "ss_used s = ss_used st + tokens_of (sc_record x)" "ss_optional s = without x (ss_optional st)" "ss_excluded s = ss_excluded st"
      "map dc_id (ss_selected s) = map dc_id (ss_selected st) @ [cand_id x]" "map dc_tokens (ss_selected s) = map dc_tokens (ss_selected st) @ [tokens_of (sc_record x)]"
      "length (ss_selected s) = Suc (length (ss_selected st))" "\<And>k. given (ss_counts s k) 0 = given (ss_counts st k) 0 + (if k = el_category x then 1 else 0)"
    unfolding assms(7) accept_fields by simp_all
  have "decision_ids st = A" and d: "distinct (map cand_id (ss_optional st))" using inv by simp_all
  then have ids: "decision_ids s = A" using without_ids(1) [OF assms(2) d] unfolding decision_ids_def f by simp
  have cache: "cache_ok p (without x (ss_optional st)) s"
    by (rule cache_ok_more [OF cache_ok_mono [OF assms(3) without_subset], of _ "[x]"]) (simp_all add: f(1), simp add: assms(7) accept_fields)
  have caps: "\<forall>k cp r. map_of (sp_categoryBudgets p) k = Some (cp, r) \<longrightarrow> int (count_cat k (ss_scored s)) \<le> max cp (int (count_cat k (ss_scored s0)))"
    using inv rr(2) assms(4) by (auto simp: f(1))
  have "\<exists>zs. ss_scored s = ss_scored s0 @ zs \<and> set zs \<subseteq> set (ss_optional s0) \<and> list_all (\<lambda>y. sp_minimumUtility p \<le> sd_rawUtility y) zs"
    using ys assms(2) inv rr(3) by (intro exI [of _ "ys @ [x]"]) (auto simp: f(1))
  then show ?thesis
    unfolding sel_inv_def using inv ids cache caps rr(1) assms(6) without_subset [of x "ss_optional st"] by (auto simp: f distinct_without)
qed

lemma sel_inv_step:
  assumes "sel_inv p rq A s0 st" and "sel_step rt p rq cf st st'"
  shows "sel_inv p rq A s0 st'"
proof -
  note inv = assms(1) [unfolded sel_inv_def]
  obtain go where go: "select_round rt p rq cf st = Inr (go, st')" and open_loop: "ss_optional st \<noteq> []" "int (length (ss_selected st)) < sp_maxSelectedCandidates p"
    using assms(2) by (auto simp: sel_step_def)
  have c: "cache_ok p (ss_optional st) st" and d: "distinct (map cand_id (ss_optional st))" and dA: "decision_ids st = A" using inv by simp_all
  from go c d open_loop(1) show ?thesis
  proof (cases rule: select_round_cases)
    case (reject x k n)
    let ?o = "without x (ss_optional st)"
    have f: "ss_used st' = ss_used st" "ss_scored st' = ss_scored st" "ss_selected st' = ss_selected st" "ss_counts st' = ss_counts st" "ss_optional st' = ?o"
        "map dc_id (ss_excluded st') = map dc_id (ss_excluded st) @ [cand_id x]" "ss_cache st' = k"
      unfolding reject(4) by simp_all
    have "decision_ids st' = A" using dA without_ids(1) [OF reject(1) d] unfolding decision_ids_def f by simp
    moreover have "cache_ok p ?o st'"
      by (rule cache_ok_more [OF cache_ok_mono [OF reject(3) without_subset], of _ "[]"]) (simp_all add: f)
    ultimately show ?thesis unfolding sel_inv_def f using inv without_subset [of x "ss_optional st"] by (auto simp: distinct_without)
  next
    case (accept x k n cap ratio s)
    have s: "sel_inv p rq A s0 s" by (rule accepted_inv [OF assms(1) accept(1,2,3,4) open_loop(2) accept(5)])
    show ?thesis
    proof (cases go)
      case True
      then show ?thesis using s accept(6) by simp
    next
      case False
      then obtain s' where s': "fold_res (exclude_rest rt p) s (by_id rt cand_id (ss_optional s)) = Inr s'" "st' = s'\<lparr>ss_optional := []\<rparr>" using accept(6) by blast
      note e = exclude_rest_effect [OF s'(1)]
      have f: "ss_used st' = ss_used s" "ss_scored st' = ss_scored s" "ss_selected st' = ss_selected s" "ss_counts st' = ss_counts s" "ss_optional st' = []"
          "map dc_id (ss_excluded st') = map dc_id (ss_excluded s) @ map cand_id (by_id rt cand_id (ss_optional s))"
        using e by (simp_all add: s'(2))
      have "decision_ids s = A" using s by (simp add: sel_inv_def)
      then have "decision_ids st' = A" unfolding decision_ids_def f by (simp add: ac_simps)
      moreover have "cache_ok p [] st'" by (simp add: cache_ok_def)
      ultimately show ?thesis using s unfolding sel_inv_def f by simp
    qed
  qed
qed

interpretation selection_loop: invariant_system "\<lambda>st. st = s0 \<and> sel_inv p rq A s0 s0" "sel_step rt p rq cf" "sel_inv p rq A s0" for rt p rq cf A s0
  by unfold_locales (auto intro: sel_inv_step)

lemma select_loop_steps: "select_loop n rt p rq cf st = Inr st' \<Longrightarrow> (sel_step rt p rq cf)\<^sup>*\<^sup>* st st'"
proof (induction n arbitrary: st)
  case (Suc n)
  show ?case
  proof (cases "ss_optional st = [] \<or> sp_maxSelectedCandidates p \<le> int (length (ss_selected st))")
    case False
    then obtain go s where s: "select_round rt p rq cf st = Inr (go, s)" "if go then select_loop n rt p rq cf s = Inr st' else s = st'"
      using Suc.prems by (auto simp: bind_res_eq_Inr split: if_splits)
    then have "sel_step rt p rq cf st s" using False by (auto simp: sel_step_def)
    moreover have "(sel_step rt p rq cf)\<^sup>*\<^sup>* s st'" using s(2) Suc.IH by (cases go) auto
    ultimately show ?thesis by (rule converse_rtranclp_into_rtranclp)
  qed (use Suc.prems in simp)
qed simp

lemma select_loop_inv:
  assumes "select_loop n rt p rq cf st = Inr st'" and "sel_inv p rq A s0 st"
  shows "sel_inv p rq A s0 st'"
  using selection_loop.steps_mono [of p rq A s0 rt cf "\<lambda>_ _. True" st st'] select_loop_steps [OF assms(1)] assms(2) by blast

lemma select_round_shrinks:
  assumes "select_round rt p rq cf st = Inr (go, st')" and "sel_inv p rq A s0 st" and "ss_optional st \<noteq> []"
  shows "if go then length (ss_optional st) = Suc (length (ss_optional st')) else ss_optional st' = []"
proof -
  have c: "cache_ok p (ss_optional st) st" and d: "distinct (map cand_id (ss_optional st))" using assms(2) by (simp_all add: sel_inv_def)
  from assms(1) c d assms(3) show ?thesis
  proof (cases rule: select_round_cases)
    case (reject x k n)
    then show ?thesis using without_ids(2) [OF reject(1) d] by simp
  next
    case (accept x k n cap ratio s)
    have "ss_optional s = without x (ss_optional st)" unfolding accept(5) accept_fields by simp
    then show ?thesis using accept(6) without_ids(2) [OF accept(1) d] by auto
  qed
qed

text \<open>The fuel never decides: the loop ends because nothing is left or the number of records is reached.\<close>

lemma select_loop_ends:
  assumes "sel_inv p rq A s0 st" and "length (ss_optional st) \<le> n" and "select_loop n rt p rq cf st = Inr st'"
  shows "ss_optional st' = [] \<or> sp_maxSelectedCandidates p \<le> int (length (ss_selected st'))"
  using assms
proof (induction n arbitrary: st)
  case (Suc n)
  show ?case
  proof (cases "ss_optional st = [] \<or> sp_maxSelectedCandidates p \<le> int (length (ss_selected st))")
    case False
    then obtain go s where s: "select_round rt p rq cf st = Inr (go, s)" "if go then select_loop n rt p rq cf s = Inr st' else s = st'"
      using Suc.prems(3) by (auto simp: bind_res_eq_Inr split: if_splits)
    have step: "sel_step rt p rq cf st s" using False s(1) by (auto simp: sel_step_def)
    note less = select_round_shrinks [OF s(1) Suc.prems(1)]
    show ?thesis
    proof (cases go)
      case True
      then show ?thesis using Suc.IH [OF sel_inv_step [OF Suc.prems(1) step]] s(2) less False Suc.prems(2) by simp
    qed (use s(2) less False in simp)
  qed (use Suc.prems(3) in auto)
qed simp

section \<open>The state before the loop\<close>

lemma take_required_fold:
  assumes "t = foldl (take_required rt rq) st xs"
  shows "ss_optional t = ss_optional st \<and> ss_excluded t = ss_excluded st \<and> ss_cache t = ss_cache st \<and> ss_scored t = ss_scored st @ xs \<and>
    ss_used t = ss_used st + total_tokens xs \<and> map dc_id (ss_selected t) = map dc_id (ss_selected st) @ map cand_id xs \<and>
    map dc_tokens (ss_selected t) = map dc_tokens (ss_selected st) @ map (\<lambda>x. tokens_of (sc_record x)) xs \<and>
    (\<forall>c. given (ss_counts t c) 0 = given (ss_counts st c) 0 + count_cat c xs)"
  using assms
proof (induction xs arbitrary: st)
  case (Cons x xs)
  have "count_cat c (x # xs) = (if el_category x = c then 1 else 0) + count_cat c xs" for c by (simp add: count_cat_def)
  moreover have "t = foldl (take_required rt rq) (take_required rt rq st x) xs" using Cons.prems by simp
  note Cons.IH [OF this]
  moreover have "ss_optional (take_required rt rq st x) = ss_optional st" "ss_excluded (take_required rt rq st x) = ss_excluded st" "ss_cache (take_required rt rq st x) = ss_cache st"
      "ss_scored (take_required rt rq st x) = ss_scored st @ [x]" "ss_used (take_required rt rq st x) = ss_used st + tokens_of (sc_record x)"
      "map dc_id (ss_selected (take_required rt rq st x)) = map dc_id (ss_selected st) @ [cand_id x]"
      "map dc_tokens (ss_selected (take_required rt rq st x)) = map dc_tokens (ss_selected st) @ [tokens_of (sc_record x)]"
      "\<And>c. given (ss_counts (take_required rt rq st x) c) 0 = given (ss_counts st c) 0 + (if el_category x = c then 1 else 0)"
    by (simp_all add: take_required_def given_def)
  ultimately show ?case by simp
qed (simp add: count_cat_def)

lemma selection_start_fields:
  "ss_optional (selection_start rt rq xs ex) = filter (\<lambda>x. \<not> sd_required x \<and> \<not> sd_governance x \<and> cand_id x \<notin> cand_id ` set (required_first rt xs)) xs"
  "ss_excluded (selection_start rt rq xs ex) = ex" "ss_cache (selection_start rt rq xs ex) = Map.empty" "ss_scored (selection_start rt rq xs ex) = required_first rt xs"
  "ss_used (selection_start rt rq xs ex) = total_tokens (required_first rt xs)" "map dc_id (ss_selected (selection_start rt rq xs ex)) = map cand_id (required_first rt xs)"
  "map dc_tokens (ss_selected (selection_start rt rq xs ex)) = map (\<lambda>x. tokens_of (sc_record x)) (required_first rt xs)"
  "given (ss_counts (selection_start rt rq xs ex) c) 0 = count_cat c (required_first rt xs)"
  using take_required_fold [OF selection_start_def [of rt rq xs ex]] by (simp_all add: given_def)

lemma set_required_first [simp]: "set (required_first rt xs) = {x \<in> set xs. sd_required x \<or> sd_governance x}"
  by (auto simp: required_first_def)

lemma mset_required_first: "mset (required_first rt xs) = mset (filter (\<lambda>x. sd_required x \<or> sd_governance x) xs)"
  by (simp add: required_first_def)

text \<open>With distinct identifiers the optional records are exactly those that are neither required nor governance.\<close>

lemma start_optional:
  assumes "distinct (map cand_id xs)"
  shows "ss_optional (selection_start rt rq xs ex) = filter (\<lambda>x. \<not> (sd_required x \<or> sd_governance x)) xs"
proof -
  have "x = y" if "x \<in> set xs" "y \<in> set xs" "cand_id x = cand_id y" for x y
    using that assms by (auto simp: distinct_map inj_on_def)
  then show ?thesis unfolding selection_start_fields(1) by (intro filter_cong refl) (auto simp: image_iff)
qed

lemma decision_ids_start:
  assumes "distinct (map cand_id xs)"
  shows "decision_ids (selection_start rt rq xs ex) = mset (map cand_id xs) + mset (map dc_id ex)"
proof -
  have m: "mset xs = mset (required_first rt xs) + mset (filter (\<lambda>x. \<not> (sd_required x \<or> sd_governance x)) xs)"
    unfolding mset_required_first by (induction xs) auto
  have "mset (map cand_id xs) = mset (map cand_id (required_first rt xs)) + mset (map cand_id (filter (\<lambda>x. \<not> (sd_required x \<or> sd_governance x)) xs))"
    using arg_cong [OF m, of "image_mset cand_id"] unfolding image_mset_union mset_map .
  then show ?thesis unfolding decision_ids_def start_optional [OF assms] selection_start_fields(2,6) by (simp add: ac_simps)
qed

lemma sel_inv_start:
  assumes "distinct (map cand_id xs)" and "total_tokens (required_first rt xs) \<le> cq_tokenBudget rq"
  shows "sel_inv p rq (mset (map cand_id xs) + mset (map dc_id ex)) (selection_start rt rq xs ex) (selection_start rt rq xs ex)"
  unfolding sel_inv_def decision_ids_start [OF assms(1)] selection_start_fields
  using assms by (auto simp: cache_ok_def selection_start_fields intro: distinct_map_filter)

section \<open>The selection as a whole\<close>

lemma judged_ids:
  assumes "fold_res (judge te p rq supd) j cs = Inr j'"
  shows "mset (map cand_id (jd_eligible j')) + mset (map dc_id (jd_excluded j')) = mset (map cand_id (jd_eligible j)) + mset (map dc_id (jd_excluded j)) + mset (map cand_id cs) \<and>
    (\<forall>e \<in> set (jd_eligible j'). e \<in> set (jd_eligible j) \<or> (\<exists>c \<in> set cs. sc_record e = sc_record c \<and> eligibilityReasons (te_rt te) rq supd c = Inr []))"
  using assms
proof (induction cs arbitrary: j)
  case (Cons c cs)
  obtain i where i: "judge te p rq supd j c = Inr i" "fold_res (judge te p rq supd) i cs = Inr j'" using Cons.prems by (auto simp: bind_res_eq_Inr)
  obtain rs where rs: "eligibilityReasons (te_rt te) rq supd c = Inr rs" using i(1) by (auto simp: judge_def bind_res_eq_Inr)
  show ?case
  proof (cases "rs = []")
    case True
    then have "i = j\<lparr>jd_eligible := jd_eligible j @ [to_eligible te p c]\<rparr>" using i(1) rs by (simp add: judge_def)
    then show ?thesis using Cons.IH [OF i(2)] rs True by (auto simp: ac_simps)
  next
    case False
    then have "i = j\<lparr>jd_excluded := jd_excluded j @ [exclusion (te_rt te) (to_eligible te p c) 0 rs]\<rparr>" using i(1) rs by (simp add: judge_def)
    then show ?thesis using Cons.IH [OF i(2)] by (auto simp: ac_simps)
  qed
qed simp

record run_of_selection =
  rs_policy :: sel_policy
  rs_request :: checked_request
  rs_candidates :: "sel_candidate list"
  rs_eligible :: "eligible list"
  rs_scored :: "scored list"
  rs_start :: sel_state
  rs_end :: sel_state

text \<open>The stages of a selection that succeeds.\<close>

definition stages :: "text_env \<Rightarrow> int \<Rightarrow> string \<Rightarrow> js \<Rightarrow> js \<Rightarrow> string list \<Rightarrow> sel_request \<Rightarrow> cand_input list \<Rightarrow> manifest \<Rightarrow> run_of_selection \<Rightarrow> bool" where
  "stages te clock nowIso policy gen warnings request inputs m r \<longleftrightarrow>
     (let rt = te_rt te; p = rs_policy r; rq = rs_request r; cf = detectConflicts rt (map sc_record (rs_eligible r)) in
      policy_ok p \<and> validateSelectionRequest rt clock request = Inr rq \<and>
      (\<exists>cs ex. map_res (\<lambda>(i, c). normalizeSelectionCandidate te nowIso p rq i c) (enumerate 0 inputs) = Inr cs \<and> mergeSelectionCandidates rt cs = Inr (rs_candidates r) \<and>
        fold_res (judge te p rq (superseded_ids (rs_candidates r))) \<lparr>jd_eligible = [], jd_excluded = []\<rparr> (rs_candidates r) = Inr \<lparr>jd_eligible = rs_eligible r, jd_excluded = ex\<rparr> \<and>
        rs_start r = selection_start rt rq (rs_scored r) ex) \<and>
      list_all (\<lambda>i. i \<in> cand_id ` set (rs_eligible r)) (cq_requiredIds rq) \<and>
      rs_scored r = order_by (compareScored rt) (map (score_candidate te p rq) (rs_eligible r)) \<and>
      total_tokens (required_first rt (rs_scored r)) \<le> cq_tokenBudget rq \<and>
      select_loop (length (ss_optional (rs_start r))) rt p rq cf (rs_start r) = Inr (rs_end r) \<and>
      finish_selection te p rq gen warnings (rs_candidates r) (rs_eligible r) (rs_scored r) cf (rs_end r) = Inr m)"

lemma budget_floor: "0 < b \<Longrightarrow> 0 < q \<Longrightarrow> q \<le> 1 \<Longrightarrow> \<lfloor>of_int b * q :: rat\<rfloor> \<le> b"
proof -
  assume a: "0 < b" "0 < q" "q \<le> 1"
  have "of_int b * q \<le> of_int b * 1" using a by (intro mult_left_mono) auto
  then show ?thesis by (simp add: floor_le_iff)
qed

lemma request_budget: "validateSelectionRequest rt clock request = Inr rq \<Longrightarrow> 1 \<le> cq_tokenBudget rq"
  by (auto simp: validateSelectionRequest_def bind_res_eq_Inr)

lemma request_kept:
  "validateSelectionRequest rt clock request = Inr rq \<Longrightarrow> of_int (cq_tokenBudget rq) = rq_tokenBudget request \<and> cq_requiredIds rq = rq_requiredIds request \<and>
     cq_workspaceId rq = given (rq_workspaceId request) ''ws_local''"
  by (auto simp: validateSelectionRequest_def bind_res_eq_Inr)

lemma selection_stages_policy:
  assumes "selectContextCandidates te clock nowIso policy gen warnings request inputs = Inr m"
  shows "\<exists>r. stages te clock nowIso policy gen warnings request inputs m r \<and> validateContextSelectionPolicy (te_rt te) policy = Inr (rs_policy r)"
proof -
  let ?rt = "te_rt te"
  obtain p rq cs ns j where s: "validateContextSelectionPolicy ?rt policy = Inr p" "validateSelectionRequest ?rt clock request = Inr rq"
      "map_res (\<lambda>(i, c). normalizeSelectionCandidate te nowIso p rq i c) (enumerate 0 inputs) = Inr cs" "mergeSelectionCandidates ?rt cs = Inr ns"
      "fold_res (judge te p rq (superseded_ids ns)) \<lparr>jd_eligible = [], jd_excluded = []\<rparr> ns = Inr j"
      "list_all (\<lambda>i. i \<in> cand_id ` set (jd_eligible j)) (cq_requiredIds rq)"
    and rest: "total_tokens (required_first ?rt (order_by (compareScored ?rt) (map (score_candidate te p rq) (jd_eligible j)))) \<le> \<lfloor>of_int (cq_tokenBudget rq) * sp_requiredBudgetRatio p\<rfloor>"
      "bind_res (select_loop (length (ss_optional (selection_start ?rt rq (order_by (compareScored ?rt) (map (score_candidate te p rq) (jd_eligible j))) (jd_excluded j)))) ?rt p rq
         (detectConflicts ?rt (map sc_record (jd_eligible j))) (selection_start ?rt rq (order_by (compareScored ?rt) (map (score_candidate te p rq) (jd_eligible j))) (jd_excluded j)))
         (\<lambda>st'. finish_selection te p rq gen warnings ns (jd_eligible j) (order_by (compareScored ?rt) (map (score_candidate te p rq) (jd_eligible j))) (detectConflicts ?rt (map sc_record (jd_eligible j))) st') = Inr m"
    using assms unfolding selectContextCandidates_def Let_def bind_res_eq_Inr require_eq_Inr by (elim exE conjE) (rule that, (assumption | simp add: bind_res_eq_Inr)+)
  let ?xs = "order_by (compareScored ?rt) (map (score_candidate te p rq) (jd_eligible j))"
  let ?s = "selection_start ?rt rq ?xs (jd_excluded j)" and ?cf = "detectConflicts ?rt (map sc_record (jd_eligible j))"
  obtain st' where l: "select_loop (length (ss_optional ?s)) ?rt p rq ?cf ?s = Inr st'" "finish_selection te p rq gen warnings ns (jd_eligible j) ?xs ?cf st' = Inr m"
    using rest(2) unfolding bind_res_eq_Inr by blast
  have ok: "policy_ok p" using valid_policy_ok [OF s(1)] .
  then have "total_tokens (required_first ?rt ?xs) \<le> cq_tokenBudget rq"
    using rest(1) budget_floor [of "cq_tokenBudget rq" "sp_requiredBudgetRatio p"] request_budget [OF s(2)] by (simp add: policy_ok_def)
  then have "stages te clock nowIso policy gen warnings request inputs m
      \<lparr>rs_policy = p, rs_request = rq, rs_candidates = ns, rs_eligible = jd_eligible j, rs_scored = ?xs, rs_start = ?s, rs_end = st'\<rparr>"
    unfolding stages_def Let_def using s l ok by (auto intro!: exI [of _ cs] exI [of _ "jd_excluded j"])
  then show ?thesis using s(1) by (metis run_of_selection.select_convs(1))
qed

lemma selection_stages:
  "selectContextCandidates te clock nowIso policy gen warnings request inputs = Inr m \<Longrightarrow> \<exists>r. stages te clock nowIso policy gen warnings request inputs m r"
  using selection_stages_policy by blast

lemma selection_stages_of:
  "selectContextCandidates te clock nowIso policy gen warnings request inputs = Inr m \<Longrightarrow> validateContextSelectionPolicy (te_rt te) policy = Inr p \<Longrightarrow>
     \<exists>r. stages te clock nowIso policy gen warnings request inputs m r \<and> rs_policy r = p"
  using selection_stages_policy by fastforce

fun input_record :: "cand_input \<Rightarrow> ctx_record" where
  "input_record (Direct r) = r"
| "input_record (Sourced r hs) = r"

lemma normalizeRecord_kept:
  "normalizeRecord te r = Inr n \<Longrightarrow> rc_id n = rc_id r \<and> rc_supersedes n = rc_supersedes r \<and> rc_kind n = rc_kind r \<and> rc_workspaceId n = rc_workspaceId r"
  by (auto simp: normalizeRecord_def Let_def split: if_splits)

lemma normalized_kept:
  assumes "normalizeSelectionCandidate te nowIso p rq i c = Inr d"
  shows "cand_id d = rc_id (input_record c) \<and> rc_supersedes (sc_record d) = rc_supersedes (input_record c)"
proof -
  obtain g hs r where g: "(case c of Sourced r hs \<Rightarrow> Inr (r, hs) | Direct r \<Rightarrow> map_sum id (\<lambda>(n, hs). (n, map as_input hs)) (directCandidateFromRecord te nowIso r)) = Inr (g, hs)"
      "normalizeRecord te g = Inr r" "cand_id d = rc_id r \<and> rc_supersedes (sc_record d) = rc_supersedes r"
    using assms unfolding normalizeSelectionCandidate_def Let_def bind_res_eq_Inr case_prod_beta by fastforce
  have "rc_id g = rc_id (input_record c) \<and> rc_supersedes g = rc_supersedes (input_record c)"
    using g(1) by (cases c) (auto simp: directCandidateFromRecord_def bind_res_eq_Inr map_sum_def split: sum.splits dest!: normalizeRecord_kept)
  then show ?thesis using normalizeRecord_kept [OF g(2)] g(3) by simp
qed

lemma normalized_list:
  assumes "map_res (\<lambda>(i, c). normalizeSelectionCandidate te nowIso p rq i c) (enumerate k inputs) = Inr cs"
    and "\<And>i c d. normalizeSelectionCandidate te nowIso p rq i c = Inr d \<Longrightarrow> P c d"
  shows "list_all2 P inputs cs"
  using assms(1)
proof (induction inputs arbitrary: k cs)
  case (Cons c inputs)
  then obtain d ds where "normalizeSelectionCandidate te nowIso p rq k c = Inr d" "map_res (\<lambda>(i, c). normalizeSelectionCandidate te nowIso p rq i c) (enumerate (Suc k) inputs) = Inr ds" "cs = d # ds"
    by (auto simp: bind_res_eq_Inr)
  then show ?case using Cons.IH assms(2) by auto
qed simp

lemma normalized_list_kept:
  assumes "map_res (\<lambda>(i, c). normalizeSelectionCandidate te nowIso p rq i c) (enumerate k inputs) = Inr cs"
  shows "list_all2 (\<lambda>c d. cand_id d = rc_id (input_record c) \<and> rc_supersedes (sc_record d) = rc_supersedes (input_record c)) inputs cs"
  by (rule normalized_list [OF assms]) (rule normalized_kept)

lemma list_all2_map_eq: "list_all2 (\<lambda>c d. f d = g c \<and> P c d) xs ys \<Longrightarrow> map f ys = map g xs"
  by (induction rule: list_all2_induct) auto

lemma set_via_mset: "mset xs = mset ys + mset zs \<Longrightarrow> set xs = set ys \<union> set zs"
  by (metis set_mset_mset set_mset_union)

text \<open>What the stages say of the manifest.\<close>

lemma stages_inv:
  assumes "stages te clock nowIso policy gen warnings request inputs m r"
  shows "sel_inv (rs_policy r) (rs_request r) (mset (map cand_id (rs_candidates r))) (rs_start r) (rs_end r)"
    and "sel_inv (rs_policy r) (rs_request r) (mset (map cand_id (rs_candidates r))) (rs_start r) (rs_start r)"
    and "distinct (map cand_id (rs_candidates r))" and "set (map cand_id (rs_candidates r)) = (\<lambda>c. rc_id (input_record c)) ` set inputs"
    and "ss_scored (rs_start r) = required_first (te_rt te) (rs_scored r)" and "distinct (map cand_id (rs_scored r))"
proof -
  let ?rt = "te_rt te" and ?p = "rs_policy r" and ?rq = "rs_request r"
  note s = assms [unfolded stages_def Let_def]
  obtain cs ex where c: "map_res (\<lambda>(i, c). normalizeSelectionCandidate te nowIso ?p ?rq i c) (enumerate 0 inputs) = Inr cs" "mergeSelectionCandidates ?rt cs = Inr (rs_candidates r)"
      "fold_res (judge te ?p ?rq (superseded_ids (rs_candidates r))) \<lparr>jd_eligible = [], jd_excluded = []\<rparr> (rs_candidates r) = Inr \<lparr>jd_eligible = rs_eligible r, jd_excluded = ex\<rparr>"
      "rs_start r = selection_start ?rt ?rq (rs_scored r) ex"
    using s by blast
  note merged = mergeSelectionCandidates_ids [OF c(2)]
  then show d: "distinct (map cand_id (rs_candidates r))" by blast
  have "map cand_id cs = map (\<lambda>c. rc_id (input_record c)) inputs" using list_all2_map_eq [OF normalized_list_kept [OF c(1)]] .
  then have "set (map cand_id cs) = (\<lambda>c. rc_id (input_record c)) ` set inputs" by (metis list.set_map)
  then show "set (map cand_id (rs_candidates r)) = (\<lambda>c. rc_id (input_record c)) ` set inputs" using merged by simp
  have ids: "mset (map cand_id (rs_eligible r)) + mset (map dc_id ex) = mset (map cand_id (rs_candidates r))"
    using judged_ids [OF c(3)] by simp
  have "rs_scored r = order_by (compareScored ?rt) (map (score_candidate te ?p ?rq) (rs_eligible r))" using s by blast
  then have sc: "mset (map cand_id (rs_scored r)) = mset (map cand_id (rs_eligible r))"
    by (simp add: image_mset.compositionality comp_def)
  then have A: "mset (map cand_id (rs_scored r)) + mset (map dc_id ex) = mset (map cand_id (rs_candidates r))" using ids by simp
  then have "distinct (map cand_id (rs_scored r) @ map dc_id ex)" using d by (metis mset_append mset_eq_imp_distinct_iff)
  then show ds: "distinct (map cand_id (rs_scored r))" by simp
  have "total_tokens (required_first ?rt (rs_scored r)) \<le> cq_tokenBudget ?rq" using s by blast
  from sel_inv_start [OF ds this, of ?p ex]
  show start: "sel_inv ?p ?rq (mset (map cand_id (rs_candidates r))) (rs_start r) (rs_start r)" unfolding A c(4) .
  have "select_loop (length (ss_optional (rs_start r))) ?rt ?p ?rq (detectConflicts ?rt (map sc_record (rs_eligible r))) (rs_start r) = Inr (rs_end r)" using s by blast
  then show "sel_inv ?p ?rq (mset (map cand_id (rs_candidates r))) (rs_start r) (rs_end r)" using select_loop_inv start by blast
  show "ss_scored (rs_start r) = required_first ?rt (rs_scored r)" unfolding c(4) selection_start_fields ..
qed

lemma stages_manifest:
  assumes "stages te clock nowIso policy gen warnings request inputs m r"
  shows "mf_selected m = ss_selected (rs_end r) \<and> mf_used m = ss_used (rs_end r) \<and> mf_available m = cq_tokenBudget (rs_request r) \<and>
    mf_excluded m = by_id (te_rt te) dc_id (ss_excluded (rs_end r) @ leftover (te_rt te) (rs_policy r) (rs_end r)) \<and> mf_workspaceId m = cq_workspaceId (rs_request r)"
  using assms unfolding stages_def Let_def finish_selection_def by (auto simp: bind_res_eq_Inr)

section \<open>Properties\<close>

text \<open>C18: A selection that succeeds stays within its token budget: the tokens it reports are those of the selected records and no more than the request allows.\<close>

theorem selection_fits_budget:
  assumes "selectContextCandidates te clock nowIso policy gen warnings request inputs = Inr m"
  shows "mf_used m = sum_list (map dc_tokens (mf_selected m)) \<and> mf_used m \<le> mf_available m \<and> of_int (mf_available m) = rq_tokenBudget request"
proof -
  obtain r where r: "stages te clock nowIso policy gen warnings request inputs m r" using selection_stages [OF assms] by blast
  note inv = stages_inv(1) [OF r, unfolded sel_inv_def] and m = stages_manifest [OF r]
  have "validateSelectionRequest (te_rt te) clock request = Inr (rs_request r)" using r by (simp add: stages_def Let_def)
  note request_kept [OF this]
  moreover have "total_tokens (ss_scored (rs_end r)) = sum_list (map dc_tokens (ss_selected (rs_end r)))"
    using inv unfolding total_tokens_def by metis
  ultimately show ?thesis using inv m by simp
qed

text \<open>C26: Every input record is decided exactly once: its identifier is among the selected or the excluded ones, never among both and never twice.\<close>

theorem every_candidate_is_decided_once:
  assumes "selectContextCandidates te clock nowIso policy gen warnings request inputs = Inr m"
  shows "distinct (map dc_id (mf_selected m @ mf_excluded m)) \<and> set (map dc_id (mf_selected m @ mf_excluded m)) = (\<lambda>c. rc_id (input_record c)) ` set inputs"
proof -
  obtain r where r: "stages te clock nowIso policy gen warnings request inputs m r" using selection_stages [OF assms] by blast
  note m = stages_manifest [OF r]
  have "decision_ids (rs_end r) = mset (map cand_id (rs_candidates r))" using stages_inv(1) [OF r] by (simp add: sel_inv_def)
  moreover have "map dc_id (leftover (te_rt te) (rs_policy r) (rs_end r)) = map cand_id (ss_optional (rs_end r))" by (simp add: leftover_def)
  then have "mset (map dc_id (leftover (te_rt te) (rs_policy r) (rs_end r))) = mset (map cand_id (ss_optional (rs_end r)))" by simp
  ultimately have "mset (map dc_id (mf_selected m @ mf_excluded m)) = mset (map cand_id (rs_candidates r))"
    using m unfolding decision_ids_def by (simp add: ac_simps)
  then show ?thesis using stages_inv(3,4) [OF r] by (metis mset_eq_imp_distinct_iff mset_eq_setD)
qed

end
