(* ===== verification/ContextSafe.thy ===== *)
theory ContextSafe
  imports ContextSelect
begin

text \<open>
  packages/context-compiler: what a selection promises about the records it selects. Who may
  be selected, what has to be, in which order, how many per category; that the cached choice
  of a round is the one an exhaustive comparison makes; and what supersession and merging do
  across workspaces and data classes.
\<close>

section \<open>From a selected record back to its input\<close>

definition same_class :: "ctx_record \<Rightarrow> ctx_record \<Rightarrow> bool" where
  "same_class r d \<longleftrightarrow> rc_id d = rc_id r \<and> rc_kind d = rc_kind r \<and> given (rc_scope d) ''workspace-private'' = given (rc_scope r) ''workspace-private'' \<and> given (rc_status d) ''active'' = given (rc_status r) ''active'' \<and>
     rc_validFrom d = rc_validFrom r \<and> rc_validTo d = rc_validTo r \<and> (\<forall>x. rc_dataClass r = Some x \<longrightarrow> rc_dataClass d = Some x) \<and>
     (\<forall>x. rc_trustClass r = Some x \<longrightarrow> rc_trustClass d = Some x) \<and> (\<forall>x. rc_workspaceId r = Some x \<longrightarrow> rc_workspaceId d = Some x)"

lemma same_class_trans: "same_class a b \<Longrightarrow> same_class b c \<Longrightarrow> same_class a c"
  by (auto simp: same_class_def given_def split: option.splits)

lemma applyContextView_form: "\<exists>t k m. applyContextView te n r = r\<lparr>rc_text := t, rc_tokens := k, rc_metadata := m\<rparr>"
proof -
  have "\<exists>t k m. r = r\<lparr>rc_text := t, rc_tokens := k, rc_metadata := m\<rparr>" by (rule exI [of _ "rc_text r"], rule exI [of _ "rc_tokens r"], rule exI [of _ "rc_metadata r"]) simp
  then show ?thesis unfolding applyContextView_def Let_def by (auto split: if_splits)
qed

lemma normalizeRecord_class:
  assumes "normalizeRecord te r = Inr n"
  shows "same_class r n"
proof -
  obtain k c a s t where n: "n = applyContextView te k (r\<lparr>rc_scope := with_default (rc_scope r) ''workspace-private'', rc_status := with_default (rc_status r) ''active'',
      rc_confidence := c, rc_authority := a, rc_source := s, rc_tokens := t\<rparr>)"
    using assms unfolding normalizeRecord_def Let_def
    by (cases "rc_id r = [] \<or> rc_kind r = [] \<or> rc_text r = []") (simp, simp only: if_False sum.inject, blast)
  obtain x y z where v: "n = r\<lparr>rc_scope := with_default (rc_scope r) ''workspace-private'', rc_status := with_default (rc_status r) ''active'',
      rc_confidence := c, rc_authority := a, rc_source := s, rc_text := x, rc_tokens := y, rc_metadata := z\<rparr>"
    using n applyContextView_form [of te k "r\<lparr>rc_scope := with_default (rc_scope r) ''workspace-private'', rc_status := with_default (rc_status r) ''active'',
      rc_confidence := c, rc_authority := a, rc_source := s, rc_tokens := t\<rparr>"] by auto
  show ?thesis unfolding v by (simp add: same_class_def with_default_def given_def)
qed

lemma normalized_class:
  assumes "normalizeSelectionCandidate te nowIso p rq i c = Inr d"
  shows "same_class (input_record c) (sc_record d)"
proof -
  obtain gh r t k m h hits where g: "(case c of Sourced r hs \<Rightarrow> Inr (r, hs) | Direct r \<Rightarrow> map_sum id (\<lambda>p. (fst p, map as_input (snd p))) (directCandidateFromRecord te nowIso r)) = Inr gh"
      "normalizeRecord te (fst gh) = Inr r"
    and d: "d = \<lparr>sc_record = r\<lparr>rc_text := t, rc_tokens := k, rc_metadata := m, rc_workspaceId := Some (given (rc_workspaceId r) (cq_workspaceId rq)),
      rc_dataClass := Some (class_of_data (te_rt te) r), rc_trustClass := Some (class_of_trust (te_rt te) r), rc_contentHash := Some h\<rparr>, sc_hits = hits, sc_inputIndex = i\<rparr>"
    using assms unfolding normalizeSelectionCandidate_def Let_def bind_res_eq_Inr case_prod_beta by blast
  obtain g hs where gh: "gh = (g, hs)" by (cases gh)
  have "same_class (input_record c) g"
  proof (cases c)
    case (Direct x)
    then obtain n where n: "normalizeRecord te x = Inr n"
        "g = n\<lparr>rc_dataClass := Some (class_of_data (te_rt te) n), rc_trustClass := Some (class_of_trust (te_rt te) n), rc_contentHash := Some (recordFingerprint (te_rt te) n)\<rparr>"
      using g(1) gh by (auto simp: directCandidateFromRecord_def bind_res_eq_Inr map_sum_def split: sum.splits)
    then show ?thesis using normalizeRecord_class [OF n(1)] Direct by (auto simp: same_class_def class_of_data_def class_of_trust_def or_else_def given_def)
  qed (use g(1) gh in \<open>simp add: same_class_def\<close>)
  note same_class_trans [OF this normalizeRecord_class [OF g(2) [unfolded gh fst_conv]]]
  moreover have "same_class r (sc_record d)"
    using d by (auto simp: same_class_def class_of_data_def class_of_trust_def or_else_def given_def)
  ultimately show ?thesis by (rule same_class_trans)
qed

text \<open>
  The classification an input declares: its own field; else the entry of its metadata; else
  what its scope says of the data, and \<open>observed\<close> for the trust.
\<close>

definition declared_data_class :: "runtime \<Rightarrow> ctx_record \<Rightarrow> string" where
  "declared_data_class rt r = (case (rc_dataClass r, get (rc_metadata r) ''dataClass'') of
       (Some x, _) \<Rightarrow> x
     | (None, Undef) \<Rightarrow> if rc_scope r = Some ''public'' then ''public'' else ''workspace-private''
     | (None, Null) \<Rightarrow> if rc_scope r = Some ''public'' then ''public'' else ''workspace-private''
     | (None, v) \<Rightarrow> js_to_string rt v)"

definition declared_trust_class :: "runtime \<Rightarrow> ctx_record \<Rightarrow> string" where
  "declared_trust_class rt r = (case (rc_trustClass r, get (rc_metadata r) ''trustClass'') of
       (Some x, _) \<Rightarrow> x
     | (None, Undef) \<Rightarrow> ''observed''
     | (None, Null) \<Rightarrow> ''observed''
     | (None, v) \<Rightarrow> js_to_string rt v)"

lemma class_is_declared: "class_of_data rt r = declared_data_class rt r" "class_of_trust rt r = declared_trust_class rt r"
  by (auto simp: class_of_data_def class_of_trust_def declared_data_class_def declared_trust_class_def or_else_def given_def opt_text_def split: option.splits js.splits)

lemma spread_other: "k \<notin> fst ` set b \<Longrightarrow> map_of (spread a b) k = map_of a k"
  unfolding spread_def by (induction b arbitrary: a) (auto simp: get_put_key)

lemma get_entries: "get (Obj (entries m)) k = get m k"
  by (cases m) simp_all

lemma view_keeps_metadata:
  assumes "k \<notin> {''contextAssembly'', ''contextView'', ''contextCompression''}"
  shows "get (rc_metadata (applyContextView te n r)) k = get (rc_metadata r) k"
proof -
  have "get (Obj (spread (entries (rc_metadata r)) [(''contextAssembly'', a), (''contextView'', b), (''contextCompression'', c)])) k = get (rc_metadata r) k" for a b c
    using spread_other [of k "[(''contextAssembly'', a), (''contextView'', b), (''contextCompression'', c)]" "entries (rc_metadata r)"] assms get_entries [of "rc_metadata r" k] by simp
  then show ?thesis unfolding applyContextView_def Let_def by simp
qed

lemma normalizeRecord_declared:
  assumes "normalizeRecord te r = Inr n"
  shows "declared_data_class rt n = declared_data_class rt r \<and> declared_trust_class rt n = declared_trust_class rt r"
proof -
  have "rc_dataClass n = rc_dataClass r" "rc_trustClass n = rc_trustClass r" "rc_scope n = with_default (rc_scope r) ''workspace-private''"
      "get (rc_metadata n) ''dataClass'' = get (rc_metadata r) ''dataClass''" "get (rc_metadata n) ''trustClass'' = get (rc_metadata r) ''trustClass''"
    using assms by (auto simp: normalizeRecord_def Let_def view_keeps_metadata split: if_splits)
  then show ?thesis by (simp add: declared_data_class_def declared_trust_class_def with_default_def split: option.splits js.splits)
qed

definition classified :: "runtime \<Rightarrow> cand_input \<Rightarrow> ctx_record \<Rightarrow> bool" where
  "classified rt c d \<longleftrightarrow> rc_dataClass d = Some (declared_data_class rt (input_record c)) \<and> rc_trustClass d = Some (declared_trust_class rt (input_record c))"

lemma normalized_classified:
  assumes "normalizeSelectionCandidate te nowIso p rq i c = Inr d"
  shows "classified (te_rt te) c (sc_record d)"
proof -
  obtain gh r where g: "(case c of Sourced r hs \<Rightarrow> Inr (r, hs) | Direct r \<Rightarrow> map_sum id (\<lambda>p. (fst p, map as_input (snd p))) (directCandidateFromRecord te nowIso r)) = Inr gh"
      "normalizeRecord te (fst gh) = Inr r"
    and d: "rc_dataClass (sc_record d) = Some (class_of_data (te_rt te) r) \<and> rc_trustClass (sc_record d) = Some (class_of_trust (te_rt te) r)"
    using assms unfolding normalizeSelectionCandidate_def Let_def bind_res_eq_Inr case_prod_beta by fastforce
  have "declared_data_class (te_rt te) (fst gh) = declared_data_class (te_rt te) (input_record c) \<and> declared_trust_class (te_rt te) (fst gh) = declared_trust_class (te_rt te) (input_record c)"
  proof (cases c)
    case (Direct x)
    then obtain n where n: "normalizeRecord te x = Inr n"
        "fst gh = n\<lparr>rc_dataClass := Some (class_of_data (te_rt te) n), rc_trustClass := Some (class_of_trust (te_rt te) n), rc_contentHash := Some (recordFingerprint (te_rt te) n)\<rparr>"
      using g(1) by (auto simp: directCandidateFromRecord_def bind_res_eq_Inr map_sum_def split: sum.splits)
    have "declared_data_class (te_rt te) (fst gh) = class_of_data (te_rt te) n" "declared_trust_class (te_rt te) (fst gh) = class_of_trust (te_rt te) n"
      unfolding n(2) by (simp_all add: declared_data_class_def declared_trust_class_def)
    then show ?thesis using normalizeRecord_declared [OF n(1)] Direct by (simp add: class_is_declared)
  next
    case (Sourced x hs)
    then show ?thesis using g(1) by auto
  qed
  then show ?thesis using d normalizeRecord_declared [OF g(2)] by (simp add: classified_def class_is_declared)
qed

section \<open>What the decisions show\<close>

definition mandatory :: "string list \<Rightarrow> ctx_decision \<Rightarrow> bool" where
  "mandatory ids d \<longleftrightarrow> dc_id d \<in> set ids \<or> dc_kind d \<in> {''policy'', ''constraint''}"

definition shows_record :: "ctx_decision \<Rightarrow> scored \<Rightarrow> bool" where
  "shows_record d x \<longleftrightarrow> dc_id d = cand_id x \<and> dc_kind d = rc_kind (sc_record x) \<and> dc_category d = el_category x"

text \<open>Every selected decision shows its record, and the decisions are numbered from one.\<close>

definition shown :: "sel_state \<Rightarrow> bool" where
  "shown st \<longleftrightarrow> list_all2 shows_record (ss_selected st) (ss_scored st) \<and> map dc_order (ss_selected st) = map (\<lambda>i. Some (Suc i)) [0..<length (ss_selected st)]"

lemma shown_more:
  assumes "shown st" and "ss_selected st' = ss_selected st @ [d]" and "ss_scored st' = ss_scored st @ [x]" and "shows_record d x" and "dc_order d = Some (length (ss_selected st) + 1)"
  shows "shown st'"
  using assms by (simp add: shown_def list_all2_appendI)

lemma shown_step:
  assumes "sel_inv p rq A s0 st \<and> shown st" and "sel_step rt p rq cf st st'"
  shows "sel_inv p rq A s0 st' \<and> shown st'"
proof -
  obtain go where go: "select_round rt p rq cf st = Inr (go, st')" "ss_optional st \<noteq> []" using assms(2) by (auto simp: sel_step_def)
  have c: "cache_ok p (ss_optional st) st" and d: "distinct (map cand_id (ss_optional st))" using assms(1) by (simp_all add: sel_inv_def)
  from go(1) c d go(2) have "shown st'"
  proof (cases rule: select_round_cases)
    case (reject x k n)
    then show ?thesis using assms(1) by (simp add: shown_def)
  next
    case (accept x k n cap ratio s)
    have "shown s"
      by (rule shown_more [of st _ "decisionFromScored rt (marked_for p rq st x) u v (Some (length (ss_selected st) + 1))" for u v, where x = x])
        (use assms(1) in \<open>simp_all add: accept(5) accept_def Let_def shows_record_def\<close>)
    then show ?thesis using accept(6) exclude_rest_effect by (auto simp: shown_def)
  qed
  then show ?thesis using sel_inv_step assms by blast
qed

interpretation shown_loop: invariant_system "\<lambda>st. st = s0 \<and> sel_inv p rq A s0 s0 \<and> shown s0" "sel_step rt p rq cf" "\<lambda>st. sel_inv p rq A s0 st \<and> shown st" for rt p rq cf A s0
  using shown_step by unfold_locales blast+

lemma take_required_shown: "shown st \<Longrightarrow> shown (foldl (take_required rt rq) st xs)"
proof (induction xs arbitrary: st)
  case (Cons x xs)
  have "shown (take_required rt rq st x)"
    by (rule shown_more [OF Cons.prems, where d = "decisionFromScored rt x (sd_baseUtility x) (sd_reasonCodes x) (Some (length (ss_selected st) + 1))" and x = x])
      (simp_all add: take_required_def shows_record_def)
  then show ?case using Cons.IH by simp
qed simp

lemma stages_shown:
  assumes "stages te clock nowIso policy gen warnings request inputs m r"
  shows "shown (rs_end r)"
proof -
  obtain ex where "rs_start r = selection_start (te_rt te) (rs_request r) (rs_scored r) ex" using assms unfolding stages_def Let_def by blast
  moreover have "shown (selection_start (te_rt te) (rs_request r) (rs_scored r) ex)" unfolding selection_start_def by (rule take_required_shown) (simp add: shown_def)
  ultimately have "shown (rs_start r)" by simp
  moreover have "select_loop (length (ss_optional (rs_start r))) (te_rt te) (rs_policy r) (rs_request r)
      (detectConflicts (te_rt te) (map sc_record (rs_eligible r))) (rs_start r) = Inr (rs_end r)"
    using assms unfolding stages_def Let_def by blast
  note select_loop_steps [OF this]
  ultimately show ?thesis
    using shown_loop.steps_mono [where R = "\<lambda>_ _. True" and s = "rs_start r" and t = "rs_end r"] stages_inv(2) [OF assms] by blast
qed

text \<open>The selected records: the mandatory ones first, then optional ones.\<close>

lemma scored_mandatory:
  assumes "stages te clock nowIso policy gen warnings request inputs m r" and "x \<in> set (rs_scored r)" and "shows_record d x"
  shows "mandatory (rq_requiredIds request) d \<longleftrightarrow> sd_required x \<or> sd_governance x"
proof -
  have "validateSelectionRequest (te_rt te) clock request = Inr (rs_request r)" and sc: "rs_scored r = order_by (compareScored (te_rt te)) (map (score_candidate te (rs_policy r) (rs_request r)) (rs_eligible r))"
    using assms(1) by (auto simp: stages_def Let_def)
  note rq = request_kept [OF this(1)]
  obtain e where e: "x = score_candidate te (rs_policy r) (rs_request r) e" using assms(2) unfolding sc by auto
  have "sd_required x \<longleftrightarrow> rc_id (sc_record x) \<in> set (rq_requiredIds request)" "sd_governance x \<longleftrightarrow> rc_kind (sc_record x) \<in> {''policy'', ''constraint''}"
    unfolding e using rq by (simp_all add: score_candidate_def Let_def case_prod_beta eligible.defs scored.defs)
  then show ?thesis using assms(3) by (simp add: mandatory_def shows_record_def)
qed

lemma selected_split:
  assumes "stages te clock nowIso policy gen warnings request inputs m r"
  obtains xs ys ss where "mf_selected m = xs @ ys" "ss_scored (rs_end r) = required_first (te_rt te) (rs_scored r) @ ss" "set ss \<subseteq> set (rs_scored r)"
    "list_all2 shows_record xs (required_first (te_rt te) (rs_scored r))" "list_all2 shows_record ys ss"
    "\<forall>d \<in> set xs. mandatory (rq_requiredIds request) d" "\<forall>d \<in> set ys. \<not> mandatory (rq_requiredIds request) d" "\<forall>x \<in> set ss. sp_minimumUtility (rs_policy r) \<le> sd_rawUtility x"
proof -
  let ?q = "required_first (te_rt te) (rs_scored r)"
  obtain ss where ss: "ss_scored (rs_end r) = ?q @ ss" "set ss \<subseteq> set (ss_optional (rs_start r))" "list_all (\<lambda>y. sp_minimumUtility (rs_policy r) \<le> sd_rawUtility y) ss"
    using stages_inv(1) [OF assms] unfolding sel_inv_def stages_inv(5) [OF assms] by blast
  have "\<exists>ex rt rq. rs_start r = selection_start rt rq (rs_scored r) ex" using assms unfolding stages_def Let_def by blast
  then have o: "x \<in> set (rs_scored r) \<and> \<not> (sd_required x \<or> sd_governance x)" if "x \<in> set ss" for x
    using ss(2) start_optional [OF stages_inv(6) [OF assms]] that by fastforce
  have "list_all2 shows_record (mf_selected m) (?q @ ss)" using stages_shown [OF assms] stages_manifest [OF assms] ss(1) by (simp add: shown_def)
  then obtain xs ys where xy: "mf_selected m = xs @ ys" "list_all2 shows_record xs ?q" "list_all2 shows_record ys ss" unfolding list_all2_append2 by blast
  have "mandatory (rq_requiredIds request) d" if "d \<in> set xs" for d
    using list_all2_in1 [OF xy(2) that] scored_mandatory [OF assms] by auto
  moreover have "\<not> mandatory (rq_requiredIds request) d" if "d \<in> set ys" for d
    using list_all2_in1 [OF xy(3) that] scored_mandatory [OF assms] o by blast
  moreover have "set ss \<subseteq> set (rs_scored r)" "\<forall>x \<in> set ss. sp_minimumUtility (rs_policy r) \<le> sd_rawUtility x" using o ss(3) by (auto simp: list_all_iff)
  ultimately show thesis using that [OF xy(1) ss(1) _ xy(2,3)] by blast
qed

section \<open>Who is selected\<close>

lemma request_lists:
  "validateSelectionRequest rt clock request = Inr rq \<Longrightarrow> cq_workspaceId rq = given (rq_workspaceId request) ''ws_local'' \<and> cq_allowedScopes rq = given (rq_allowedScopes request) [''public'', ''workspace-private''] \<and>
     cq_allowedDataClasses rq = given (rq_allowedDataClasses request) [''public'', ''workspace-private''] \<and>
     cq_allowedTrustClasses rq = given (rq_allowedTrustClasses request) [''verified'', ''trusted'', ''observed'', ''untrusted'']"
  by (auto simp: validateSelectionRequest_def bind_res_eq_Inr)

lemma scored_origin:
  assumes "stages te clock nowIso policy gen warnings request inputs m r" and "x \<in> set (rs_scored r)"
  shows "\<exists>c \<in> set inputs. \<exists>n \<in> set (rs_candidates r). sc_record n = sc_record x \<and> same_class (input_record c) (sc_record n) \<and> classified (te_rt te) c (sc_record n) \<and>
    eligibilityReasons (te_rt te) (rs_request r) (superseded_ids (rs_candidates r)) n = Inr []"
proof -
  obtain cs ex where c: "map_res (\<lambda>(i, c). normalizeSelectionCandidate te nowIso (rs_policy r) (rs_request r) i c) (enumerate 0 inputs) = Inr cs"
      "mergeSelectionCandidates (te_rt te) cs = Inr (rs_candidates r)"
      "fold_res (judge te (rs_policy r) (rs_request r) (superseded_ids (rs_candidates r))) \<lparr>jd_eligible = [], jd_excluded = []\<rparr> (rs_candidates r) = Inr \<lparr>jd_eligible = rs_eligible r, jd_excluded = ex\<rparr>"
      "rs_scored r = order_by (compareScored (te_rt te)) (map (score_candidate te (rs_policy r) (rs_request r)) (rs_eligible r))"
    using assms(1) unfolding stages_def Let_def by blast
  obtain e where e: "e \<in> set (rs_eligible r)" "sc_record x = sc_record e" using assms(2) unfolding c(4) by auto
  obtain n where n: "n \<in> set (rs_candidates r)" "sc_record n = sc_record e" "eligibilityReasons (te_rt te) (rs_request r) (superseded_ids (rs_candidates r)) n = Inr []"
    using conjunct2 [OF judged_ids [OF c(3)]] e(1) by fastforce
  obtain d where d: "d \<in> set cs" "sc_record n = sc_record d" using mergeSelectionCandidates_ids [OF c(2)] n(1) by auto
  have l: "list_all2 (\<lambda>c d. same_class (input_record c) (sc_record d) \<and> classified (te_rt te) c (sc_record d)) inputs cs"
    by (rule normalized_list [OF c(1)]) (blast intro: normalized_class normalized_classified)
  obtain c where "c \<in> set inputs" "same_class (input_record c) (sc_record d)" "classified (te_rt te) c (sc_record d)" using list_all2_in2 [OF l d(1)] by blast
  then show ?thesis using n d e(2) by metis
qed

lemma selected_kind:
  assumes "stages te clock nowIso policy gen warnings request inputs m r" and "x \<in> set (rs_scored r)"
  shows "\<exists>c \<in> set inputs. rc_kind (sc_record x) = rc_kind (input_record c)"
  using scored_origin [OF assms] by (auto simp: same_class_def)

lemma selected_scored:
  assumes "stages te clock nowIso policy gen warnings request inputs m r" and "d \<in> set (mf_selected m)"
  shows "\<exists>x \<in> set (rs_scored r). shows_record d x"
proof -
  obtain xs ys ss where s: "mf_selected m = xs @ ys" "set ss \<subseteq> set (rs_scored r)" "list_all2 shows_record xs (required_first (te_rt te) (rs_scored r))" "list_all2 shows_record ys ss"
    by (rule selected_split [OF assms(1)])
  have "\<exists>x \<in> set (required_first (te_rt te) (rs_scored r)). shows_record d x" if "d \<in> set xs" using list_all2_in1 [OF s(3) that] .
  moreover have "\<exists>x \<in> set ss. shows_record d x" if "d \<in> set ys" using list_all2_in1 [OF s(4) that] .
  ultimately show ?thesis using assms(2) s(2) unfolding s(1) by auto
qed

text \<open>C11: Only admissible records are selected: each is an input of the request's workspace (or of none), of an allowed scope, of an allowed trust class and of an allowed
  data class other than secret, and neither expired, retracted, quarantined nor superseded by its status. The classes are those the input declares, in its field, in its metadata or by default.\<close>

theorem only_admissible_records_are_selected:
  assumes "selectContextCandidates te clock nowIso policy gen warnings request inputs = Inr m" and "d \<in> set (mf_selected m)"
  shows "\<exists>r \<in> input_record ` set inputs. dc_id d = rc_id r \<and> (text_given (rc_workspaceId r) = None \<or> rc_workspaceId r = Some (given (rq_workspaceId request) ''ws_local'')) \<and>
    mf_workspaceId m = given (rq_workspaceId request) ''ws_local'' \<and>
    given (rc_scope r) ''workspace-private'' \<in> set (given (rq_allowedScopes request) [''public'', ''workspace-private'']) \<and> declared_data_class (te_rt te) r \<noteq> ''secret'' \<and>
    declared_data_class (te_rt te) r \<in> set (given (rq_allowedDataClasses request) [''public'', ''workspace-private'']) \<and>
    declared_trust_class (te_rt te) r \<in> set (given (rq_allowedTrustClasses request) [''verified'', ''trusted'', ''observed'', ''untrusted'']) \<and>
    rc_status r \<notin> Some ` {''expired'', ''retracted'', ''quarantined'', ''superseded''}"
proof -
  obtain st where st: "stages te clock nowIso policy gen warnings request inputs m st" using selection_stages [OF assms(1)] by blast
  obtain x where x: "x \<in> set (rs_scored st)" "shows_record d x" using selected_scored [OF st assms(2)] by blast
  obtain c n where c: "c \<in> set inputs" "sc_record n = sc_record x" "same_class (input_record c) (sc_record n)" "classified (te_rt te) c (sc_record n)"
      "eligibilityReasons (te_rt te) (rs_request st) (superseded_ids (rs_candidates st)) n = Inr []"
    using scored_origin [OF st x(1)] by blast
  have rq: "validateSelectionRequest (te_rt te) clock request = Inr (rs_request st)" using st unfolding stages_def Let_def by blast
  have a: "cq_allowedScopes (rs_request st) = given (rq_allowedScopes request) [''public'', ''workspace-private'']"
      "cq_allowedDataClasses (rs_request st) = given (rq_allowedDataClasses request) [''public'', ''workspace-private'']"
      "cq_allowedTrustClasses (rs_request st) = given (rq_allowedTrustClasses request) [''verified'', ''trusted'', ''observed'', ''untrusted'']"
      "cq_workspaceId (rs_request st) = given (rq_workspaceId request) ''ws_local''"
    using request_lists [OF rq] by simp_all
  have ok: "access_reasons (rs_request st) (sc_record n) = []" "status_reasons (rc_status (sc_record n)) = []"
    using c(5) by (auto simp: eligibilityReasons_def Let_def bind_res_eq_Inr nub_def)
  have w: "mf_workspaceId m = given (rq_workspaceId request) ''ws_local''" using stages_manifest [OF st] a(4) by simp
  let ?r = "input_record c"
  note k = c(3) [unfolded same_class_def]
  have "text_given (rc_workspaceId ?r) = None \<or> rc_workspaceId ?r = Some (given (rq_workspaceId request) ''ws_local'')"
    using k ok(1) a(4) by (cases "rc_workspaceId ?r") (auto simp: access_reasons_def text_given_def split: if_splits)
  moreover have "given (rc_scope ?r) ''workspace-private'' \<in> set (cq_allowedScopes (rs_request st))"
    using k ok(1) by (auto simp: access_reasons_def split: if_splits)
  moreover have "declared_data_class (te_rt te) ?r \<noteq> ''secret''" "declared_data_class (te_rt te) ?r \<in> set (cq_allowedDataClasses (rs_request st))"
      "declared_trust_class (te_rt te) ?r \<in> set (cq_allowedTrustClasses (rs_request st))"
    using c(4) [unfolded classified_def] ok(1) by (auto simp: access_reasons_def given_def split: if_splits)
  moreover have "rc_status ?r \<notin> Some ` {''expired'', ''retracted'', ''quarantined'', ''superseded''}"
    using k ok(2) by (cases "rc_status ?r"; cases "rc_status (sc_record n)") (auto simp: status_reasons_def given_def split: if_splits)
  moreover have "dc_id d = rc_id ?r" using x(2) c(2) k by (simp add: shows_record_def)
  ultimately show ?thesis using c(1) a w by auto
qed

text \<open>C28: What the request requires is always selected, and comes first: every required identifier is among the selected ones, all required and governance records precede the optional ones, and the decisions are numbered in that order.\<close>

theorem mandatory_records_come_first:
  assumes "selectContextCandidates te clock nowIso policy gen warnings request inputs = Inr m"
  shows "set (rq_requiredIds request) \<subseteq> set (map dc_id (mf_selected m)) \<and>
    (\<exists>xs ys. mf_selected m = xs @ ys \<and> list_all (mandatory (rq_requiredIds request)) xs \<and> list_all (\<lambda>d. \<not> mandatory (rq_requiredIds request) d) ys) \<and>
    map dc_order (mf_selected m) = map (\<lambda>i. Some (Suc i)) [0..<length (mf_selected m)]"
proof -
  obtain r where r: "stages te clock nowIso policy gen warnings request inputs m r" using selection_stages [OF assms] by blast
  obtain xs ys where s: "mf_selected m = xs @ ys" "list_all2 shows_record xs (required_first (te_rt te) (rs_scored r))"
      "\<forall>d \<in> set xs. mandatory (rq_requiredIds request) d" "\<forall>d \<in> set ys. \<not> mandatory (rq_requiredIds request) d"
    by (rule selected_split [OF r])
  have rq: "validateSelectionRequest (te_rt te) clock request = Inr (rs_request r)" and el: "list_all (\<lambda>i. i \<in> cand_id ` set (rs_eligible r)) (cq_requiredIds (rs_request r))"
      and sc: "rs_scored r = order_by (compareScored (te_rt te)) (map (score_candidate te (rs_policy r) (rs_request r)) (rs_eligible r))"
    using r unfolding stages_def Let_def by blast+
  have "i \<in> set (map dc_id (mf_selected m))" if i: "i \<in> set (rq_requiredIds request)" for i
  proof -
    have q: "i \<in> set (cq_requiredIds (rs_request r))" using request_kept [OF rq] i by simp
    then obtain e where e: "e \<in> set (rs_eligible r)" "cand_id e = i" using el by (auto simp: list_all_iff)
    let ?x = "score_candidate te (rs_policy r) (rs_request r) e"
    have "sd_required ?x" using q e(2) by (simp add: score_candidate_def Let_def case_prod_beta eligible.defs scored.defs)
    then have "?x \<in> set (required_first (te_rt te) (rs_scored r))" using e(1) by (simp add: sc)
    then obtain d where "d \<in> set xs" "shows_record d ?x" using list_all2_in2 [OF s(2)] by blast
    then show ?thesis using e(2) by (force simp: s(1) shows_record_def)
  qed
  moreover have "map dc_order (mf_selected m) = map (\<lambda>i. Some (Suc i)) [0..<length (mf_selected m)]"
    using stages_shown [OF r] stages_manifest [OF r] by (simp add: shown_def)
  ultimately show ?thesis using s unfolding list_all_iff by blast
qed

lemma filter_list_all2: "list_all2 shows_record ds xs \<Longrightarrow> length (filter (\<lambda>d. dc_category d = c) ds) = count_cat c xs"
  by (induction rule: list_all2_induct) (auto simp: count_cat_def shows_record_def)

text \<open>C32: Optional records respect the limits of the policy: with an optional record of a category selected, the category's cap holds for the whole selection, and with any optional record selected so does the limit on the number of records.\<close>

theorem optional_records_respect_caps:
  assumes "selectContextCandidates te clock nowIso policy gen warnings request inputs = Inr m" and "validateContextSelectionPolicy (te_rt te) policy = Inr p"
    and "d \<in> set (mf_selected m)" and "\<not> mandatory (rq_requiredIds request) d"
  shows "(\<forall>cap ratio. map_of (sp_categoryBudgets p) (dc_category d) = Some (cap, ratio) \<longrightarrow> int (length (filter (\<lambda>e. dc_category e = dc_category d) (mf_selected m))) \<le> cap) \<and>
    int (length (mf_selected m)) \<le> sp_maxSelectedCandidates p"
proof -
  obtain r where r: "stages te clock nowIso policy gen warnings request inputs m r" "rs_policy r = p" using selection_stages_of [OF assms(1,2)] by blast
  obtain xs ys ss where s: "mf_selected m = xs @ ys" "ss_scored (rs_end r) = required_first (te_rt te) (rs_scored r) @ ss"
      "list_all2 shows_record xs (required_first (te_rt te) (rs_scored r))" "list_all2 shows_record ys ss" "\<forall>d \<in> set xs. mandatory (rq_requiredIds request) d"
    by (rule selected_split [OF r(1)])
  have "d \<in> set ys" using assms(3,4) s(1,5) by auto
  then obtain y where y: "y \<in> set ss" "shows_record d y" using list_all2_in1 [OF s(4)] by blast
  note inv = stages_inv(1) [OF r(1), unfolded sel_inv_def r(2)] and len = list_all2_lengthD [OF s(3)] list_all2_lengthD [OF s(4)]
  have n: "length (filter (\<lambda>e. dc_category e = c) (mf_selected m)) = count_cat c (ss_scored (rs_end r))" for c
    using filter_list_all2 [OF s(3)] filter_list_all2 [OF s(4)] by (simp add: s(1,2))
  have "0 < count_cat (dc_category d) ss" using y by (auto simp: count_cat_def shows_record_def filter_empty_conv)
  then have more: "count_cat (dc_category d) (ss_scored (rs_start r)) < count_cat (dc_category d) (ss_scored (rs_end r))" unfolding s(2) stages_inv(5) [OF r(1)] by simp
  have "int (count_cat (dc_category d) (ss_scored (rs_end r))) \<le> cap" if "map_of (sp_categoryBudgets p) (dc_category d) = Some (cap, ratio)" for cap ratio
    using inv that more by fastforce
  moreover have "length (mf_selected m) = length xs + length ys" "ys \<noteq> []" using \<open>d \<in> set ys\<close> by (auto simp: s(1))
  moreover have "length (ss_selected (rs_start r)) = length xs"
    using arg_cong [OF conjunct1 [OF conjunct2 [OF conjunct2 [OF stages_inv(2) [OF r(1), unfolded sel_inv_def]]]], of length] len(1) by (simp add: stages_inv(5) [OF r(1)])
  moreover have "int (length (mf_selected m)) \<le> max (sp_maxSelectedCandidates p) (int (length (ss_selected (rs_start r))))"
    using inv stages_manifest [OF r(1)] by simp
  ultimately show ?thesis unfolding n by (auto simp: max_def split: if_splits)
qed

text \<open>
  How a candidate \<open>d\<close> of a list enters a merged one \<open>e\<close>: \<open>e\<close> has the record of the
  first candidate with the identifier, with which \<open>d\<close> agrees, and it has the hits of \<open>d\<close>.
\<close>

definition absorbed :: "runtime \<Rightarrow> sel_candidate list \<Rightarrow> sel_candidate \<Rightarrow> sel_candidate \<Rightarrow> bool" where
  "absorbed rt cs d e \<longleftrightarrow> (\<exists>c. List.find (\<lambda>x. cand_id x = cand_id d) cs = Some c \<and> sc_record e = sc_record c \<and>
     (d = c \<or> rc_contentHash (sc_record d) = rc_contentHash (sc_record c) \<and> strict_eq (orelse (rc_version (sc_record c)) Null) (orelse (rc_version (sc_record d)) Null)) \<and>
     hit_key rt ` set (sc_hits d) \<subseteq> hit_key rt ` set (sc_hits e))"

lemma absorbed_more: "absorbed rt cs d e \<Longrightarrow> absorbed rt (cs @ xs) d e"
  by (auto simp: absorbed_def find_append)

lemma absorbed_hits: "absorbed rt cs d e \<Longrightarrow> sc_record f = sc_record e \<Longrightarrow> set (sc_hits e) \<subseteq> set (sc_hits f) \<Longrightarrow> absorbed rt cs d f"
  unfolding absorbed_def using image_mono [of "set (sc_hits e)" "set (sc_hits f)" "hit_key rt"] by fastforce

definition first_record :: "sel_candidate list \<Rightarrow> sel_candidate \<Rightarrow> bool" where
  "first_record cs e \<longleftrightarrow> (\<exists>c. List.find (\<lambda>x. cand_id x = cand_id e) cs = Some c \<and> sc_record e = sc_record c)"

definition merged_so_far :: "runtime \<Rightarrow> sel_candidate list \<Rightarrow> sel_candidate list \<Rightarrow> bool" where
  "merged_so_far rt cs ms \<longleftrightarrow> (\<forall>e \<in> set ms. first_record cs e) \<and> (\<forall>d \<in> set cs. \<exists>e \<in> set ms. absorbed rt cs d e)"

lemma merge_candidate_absorbs:
  assumes "merged_so_far rt cs ms" and "merge_candidate rt ms c = Inr ns"
  shows "merged_so_far rt (cs @ [c]) ns"
proof (cases "List.find (\<lambda>e. cand_id e = cand_id c) ms")
  case None
  then have ns: "ns = ms @ [c]" using assms(2) by (simp add: merge_candidate_def)
  have "cand_id x \<noteq> cand_id c" if "x \<in> set cs" for x
  proof -
    obtain e where e: "e \<in> set ms" "absorbed rt cs x e" using assms(1) \<open>x \<in> set cs\<close> by (auto simp: merged_so_far_def)
    have "cand_id e = cand_id x" using e(2) by (auto simp: absorbed_def dest: find_SomeD)
    then show ?thesis using find_NoneD [OF None e(1)] by simp
  qed
  then have "List.find (\<lambda>x. cand_id x = cand_id c) cs = None" by (auto simp: find_None_iff)
  then have "absorbed rt (cs @ [c]) c c" "first_record (cs @ [c]) c" by (simp_all add: absorbed_def first_record_def find_append)
  then show ?thesis using assms(1) by (auto simp: merged_so_far_def first_record_def find_append ns intro: absorbed_more)
next
  case (Some e)
  note e = find_SomeD [OF Some]
  let ?f = "\<lambda>e. if cand_id e = cand_id c then e\<lparr>sc_hits := sort_hits rt (sc_hits e @ filter (\<lambda>h. hit_key rt h \<notin> set (map (hit_key rt) (sc_hits e))) (sc_hits c))\<rparr> else e"
  have agree: "rc_contentHash (sc_record e) = rc_contentHash (sc_record c)" "strict_eq (orelse (rc_version (sc_record e)) Null) (orelse (rc_version (sc_record c)) Null)"
      and ns: "ns = map ?f ms"
    using assms(2) Some by (auto simp: merge_candidate_def upd_where_def split: if_splits)
  have f: "sc_record (?f x) = sc_record x" "set (sc_hits x) \<subseteq> set (sc_hits (?f x))" for x by (auto simp: sort_hits_def)
  have old: "\<exists>y \<in> set ns. absorbed rt (cs @ [c]) d y" if "d \<in> set cs" for d
    using assms(1) that absorbed_hits [OF absorbed_more f] unfolding merged_so_far_def ns set_map by blast
  obtain fc where fc: "List.find (\<lambda>x. cand_id x = cand_id c) cs = Some fc" "sc_record e = sc_record fc"
    using assms(1) e by (auto simp: merged_so_far_def first_record_def)
  have "hit_key rt ` set (sc_hits c) \<subseteq> hit_key rt ` set (sc_hits (?f e))" using e by (auto simp: sort_hits_def)
  then have "absorbed rt (cs @ [c]) c (?f e)" using fc agree f(1) [of e] by (simp add: absorbed_def find_append del: sel_candidate.select_convs)
  then have now: "\<exists>y \<in> set ns. absorbed rt (cs @ [c]) c y" using e unfolding ns set_map by blast
  have "first_record (cs @ [c]) y" if "y \<in> set ns" for y
    using assms(1) that by (auto simp: merged_so_far_def first_record_def find_append ns)
  then show ?thesis using old now by (auto simp: merged_so_far_def)
qed

lemma merge_all_absorb:
  "fold_res (merge_candidate rt) ms cs = Inr ns \<Longrightarrow> merged_so_far rt bs ms \<Longrightarrow> merged_so_far rt (bs @ cs) ns"
proof (induction cs arbitrary: bs ms)
  case (Cons c cs)
  obtain ls where l: "merge_candidate rt ms c = Inr ls" "fold_res (merge_candidate rt) ls cs = Inr ns" using Cons.prems(1) by (auto simp: bind_res_eq_Inr)
  show ?case using Cons.IH [OF l(2) merge_candidate_absorbs [OF Cons.prems(2) l(1)]] by simp
qed simp

lemma merged_all:
  assumes "mergeSelectionCandidates rt cs = Inr ms"
  shows "merged_so_far rt cs ms"
proof -
  obtain m where m: "fold_res (merge_candidate rt) [] cs = Inr m" "ms = by_id rt cand_id m"
    using assms by (auto simp: mergeSelectionCandidates_def map_sum_def split: sum.splits)
  have "merged_so_far rt cs m" using merge_all_absorb [OF m(1), of "[]"] by (simp add: merged_so_far_def)
  then show ?thesis by (simp add: merged_so_far_def m(2))
qed

text \<open>C38: A record that an input supersedes is never selected, whatever the workspace, the data class, the status or the validity of that input, when it is the first
  input of its identifier. (A later copy is merged into the first, and what it supersedes is dropped with it.)\<close>

theorem superseded_records_are_never_selected:
  assumes "selectContextCandidates te clock nowIso policy gen warnings request (before @ c # after) = Inr m" and "rc_id (input_record c) \<notin> rc_id ` input_record ` set before"
    and "rc_supersedes (input_record c) = Some i" and "i \<noteq> []"
  shows "i \<notin> set (map dc_id (mf_selected m))"
proof
  assume "i \<in> set (map dc_id (mf_selected m))"
  then obtain d where d: "d \<in> set (mf_selected m)" "dc_id d = i" by auto
  obtain st where st: "stages te clock nowIso policy gen warnings request (before @ c # after) m st" using selection_stages [OF assms(1)] by blast
  obtain x where x: "x \<in> set (rs_scored st)" "shows_record d x" using selected_scored [OF st d(1)] by blast
  obtain n where n: "sc_record n = sc_record x" "eligibilityReasons (te_rt te) (rs_request st) (superseded_ids (rs_candidates st)) n = Inr []"
    using scored_origin [OF st x(1)] by blast
  have "cand_id n \<notin> set (superseded_ids (rs_candidates st))" using n(2) by (auto simp: eligibilityReasons_def Let_def bind_res_eq_Inr nub_def split: if_splits)
  then have out: "i \<notin> set (superseded_ids (rs_candidates st))" using n(1) x(2) d(2) by (simp add: shows_record_def)
  obtain cs where c: "map_res (\<lambda>(i, c). normalizeSelectionCandidate te nowIso (rs_policy st) (rs_request st) i c) (enumerate 0 (before @ c # after)) = Inr cs"
      "mergeSelectionCandidates (te_rt te) cs = Inr (rs_candidates st)"
    using st unfolding stages_def Let_def by blast
  obtain us q vs where u: "cs = us @ q # vs" "list_all2 (\<lambda>c d. cand_id d = rc_id (input_record c) \<and> rc_supersedes (sc_record d) = rc_supersedes (input_record c)) before us"
      "cand_id q = rc_id (input_record c)" "rc_supersedes (sc_record q) = Some i"
    using normalized_list_kept [OF c(1)] assms(3) by (auto simp: list_all2_append1 list_all2_Cons1)
  have "map cand_id us = map (\<lambda>c. rc_id (input_record c)) before" using list_all2_map_eq [OF u(2)] .
  then have "cand_id ` set us = rc_id ` input_record ` set before" by (simp add: image_image flip: set_map) (simp add: image_image)
  then have "cand_id q \<notin> cand_id ` set us" using assms(2) u(3) by simp
  then have "List.find (\<lambda>x. cand_id x = cand_id q) us = None" unfolding find_None_iff by (metis imageI)
  then have q: "List.find (\<lambda>x. cand_id x = cand_id q) cs = Some q" by (simp add: u(1) find_append)
  obtain e where "e \<in> set (rs_candidates st)" "absorbed (te_rt te) cs q e" using merged_all [OF c(2)] by (auto simp: merged_so_far_def u(1))
  moreover from this(2) have "rc_supersedes (sc_record e) = Some i" using q u(4) by (auto simp: absorbed_def)
  ultimately have "i \<in> set (superseded_ids (rs_candidates st))" using assms(4) unfolding superseded_ids_def by (auto simp: text_given_def intro!: bexI [of _ e] split: list.splits)
  then show False using out by simp
qed

section \<open>The greedy choice\<close>

lemma reached_inv:
  assumes "distinct (map cand_id xs)" and "total_tokens (required_first rt xs) \<le> cq_tokenBudget rq" and "(sel_step rt p rq cf)\<^sup>*\<^sup>* (selection_start rt rq xs ex) st"
  shows "sel_inv p rq (mset (map cand_id xs) + mset (map dc_id ex)) (selection_start rt rq xs ex) st"
  using selection_loop.steps_mono [where R = "\<lambda>_ _. True" and s = "selection_start rt rq xs ex" and t = st] sel_inv_start [OF assms(1,2)] assms(3) by blast

text \<open>C31: The cached choice is exact and greedy: in every state the loop reaches, the record that the incremental search picks is the one that comparing every optional record with every selected one gives, and no optional record has a larger marginal utility.\<close>

theorem greedy_choice_is_exact:
  assumes "distinct (map cand_id xs)" and "total_tokens (required_first rt xs) \<le> cq_tokenBudget rq" and "(sel_step rt p rq cf)\<^sup>*\<^sup>* (selection_start rt rq xs ex) st"
    and "find_best rt p rq (ss_optional st) None st = Inr (b, st')"
  shows "b = best_choice rt p rq st (ss_optional st) None \<and> (\<forall>m. b = Some m \<longrightarrow> (\<forall>x \<in> set (ss_optional st). mk_marginal (marked_for p rq st x) \<le> mk_marginal m))"
proof -
  note inv = reached_inv [OF assms(1-3), unfolded sel_inv_def]
  have "b = best_choice rt p rq st (ss_optional st) None" using find_best_exact [OF assms(4), of "ss_optional st"] inv by blast
  then show ?thesis using best_choice_max by metis
qed

lemma fuel_irrelevant:
  assumes "sel_inv p rq A s0 st" and "length (ss_optional st) \<le> n" and "length (ss_optional st) \<le> k"
  shows "select_loop n rt p rq cf st = select_loop k rt p rq cf st"
  using assms
proof (induction n arbitrary: st k)
  case 0
  then show ?case by (cases k) auto
next
  case (Suc n)
  show ?case
  proof (cases "ss_optional st = [] \<or> sp_maxSelectedCandidates p \<le> int (length (ss_selected st))")
    case True
    then show ?thesis by (cases k) simp_all
  next
    case False
    then obtain k' where k': "k = Suc k'" using Suc.prems(3) by (cases k) auto
    show ?thesis
    proof (cases "select_round rt p rq cf st")
      case (Inr a)
      obtain go st' where a: "a = (go, st')" by (cases a)
      have step: "sel_step rt p rq cf st st'" using False Inr a by (auto simp: sel_step_def)
      note less = select_round_shrinks [OF Inr [unfolded a] Suc.prems(1)]
      have "select_loop n rt p rq cf st' = select_loop k' rt p rq cf st'" if go
      proof -
        have "length (ss_optional st) = Suc (length (ss_optional st'))" using less False that by simp
        then have "length (ss_optional st') \<le> n" "length (ss_optional st') \<le> k'" using Suc.prems(2,3) k' by linarith+
        then show ?thesis by (rule Suc.IH [OF sel_inv_step [OF Suc.prems(1) step]])
      qed
      then show ?thesis using False Inr a by (simp add: k')
    qed (use False in \<open>simp add: k'\<close>)
  qed
qed

text \<open>C29: The loop ends by itself: with at least as many rounds as there are optional records the result does not depend on the number of rounds allowed, and it leaves no optional record unless the number of records is reached.\<close>

theorem selection_loop_ends:
  assumes "distinct (map cand_id xs)" and "total_tokens (required_first rt xs) \<le> cq_tokenBudget rq" and "length (ss_optional (selection_start rt rq xs ex)) \<le> n"
  shows "select_loop n rt p rq cf (selection_start rt rq xs ex) = select_loop (length (ss_optional (selection_start rt rq xs ex))) rt p rq cf (selection_start rt rq xs ex) \<and>
    (\<forall>st. select_loop n rt p rq cf (selection_start rt rq xs ex) = Inr st \<longrightarrow> ss_optional st = [] \<or> sp_maxSelectedCandidates p \<le> int (length (ss_selected st)))"
proof (intro conjI allI impI)
  let ?s = "selection_start rt rq xs ex"
  note i = sel_inv_start [OF assms(1,2), where p = p and ex = ex]
  show "select_loop n rt p rq cf ?s = select_loop (length (ss_optional ?s)) rt p rq cf ?s" by (rule fuel_irrelevant [OF i assms(3) order_refl])
  fix st assume "select_loop n rt p rq cf ?s = Inr st"
  then show "ss_optional st = [] \<or> sp_maxSelectedCandidates p \<le> int (length (ss_selected st))" by (rule select_loop_ends [OF i assms(3)])
qed

section \<open>Merging\<close>

text \<open>C39: Merging keeps the first record of an identifier whole: the merged list has one entry for each identifier, with exactly the record of the first candidate of
  that identifier. Of a later candidate only content hash and version are compared with the first and its hits are added: its own workspace, scope, data class, trust class and status are dropped.\<close>

theorem merging_keeps_the_first_classification:
  assumes "mergeSelectionCandidates rt cs = Inr ms"
  shows "distinct (map cand_id ms) \<and> cand_id ` set ms = cand_id ` set cs \<and> (\<forall>d \<in> set cs. \<exists>e \<in> set ms. cand_id e = cand_id d \<and> absorbed rt cs d e)"
proof -
  have "cand_id e = cand_id d" if "absorbed rt cs d e" for d e using that by (auto simp: absorbed_def dest: find_SomeD)
  then have "\<forall>d \<in> set cs. \<exists>e \<in> set ms. cand_id e = cand_id d \<and> absorbed rt cs d e" using merged_all [OF assms] unfolding merged_so_far_def by blast
  then show ?thesis using mergeSelectionCandidates_ids [OF assms] by simp
qed

section \<open>Selections on concrete inputs\<close>

text \<open>The selection up to its report, in stages that can be evaluated one after the other.\<close>

definition judge_all :: "text_env \<Rightarrow> sel_policy \<Rightarrow> checked_request \<Rightarrow> sel_candidate list \<Rightarrow> (ctx_error, judged) result" where
  "judge_all te p rq ns =
     (if sp_maxTotalCandidateTokens p < total_tokens ns then Inl (CtxError ''candidate_token_ceiling_exceeded'')
      else fold_res (judge te p rq (superseded_ids ns)) \<lparr>jd_eligible = [], jd_excluded = []\<rparr> ns)"

definition run_loop :: "text_env \<Rightarrow> sel_policy \<Rightarrow> checked_request \<Rightarrow> sel_state \<Rightarrow> (ctx_error, sel_state) result" where
  "run_loop te p rq st = select_loop (length (ss_optional st)) (te_rt te) p rq [] st"

definition choose_among :: "text_env \<Rightarrow> sel_policy \<Rightarrow> checked_request \<Rightarrow> ctx_decision list \<Rightarrow> scored list \<Rightarrow> (ctx_error, sel_state) result" where
  "choose_among te p rq ex xs =
     (if \<lfloor>of_int (cq_tokenBudget rq) * sp_requiredBudgetRatio p\<rfloor> < total_tokens (required_first (te_rt te) xs) then Inl (CtxCoded ''required_context_over_budget'')
      else run_loop te p rq (selection_start (te_rt te) rq xs ex))"

text \<open>With conflicts among the eligible records this stops: it is only for inputs without.\<close>

definition choose_eligible :: "text_env \<Rightarrow> sel_policy \<Rightarrow> checked_request \<Rightarrow> judged \<Rightarrow> (ctx_error, sel_state) result" where
  "choose_eligible te p rq j =
     (if \<not> list_all (\<lambda>i. i \<in> cand_id ` set (jd_eligible j)) (cq_requiredIds rq) then Inl (CtxCoded ''required_context_unresolved'')
      else if detectConflicts (te_rt te) (map sc_record (jd_eligible j)) \<noteq> [] then Inl (CtxCoded ''required_context_conflict'')
      else choose_among te p rq (jd_excluded j) (order_by (compareScored (te_rt te)) (map (score_candidate te p rq) (jd_eligible j))))"

definition chosen_by :: "text_env \<Rightarrow> string \<Rightarrow> sel_policy \<Rightarrow> checked_request \<Rightarrow> cand_input list \<Rightarrow> (ctx_error, sel_state) result" where
  "chosen_by te nowIso p rq inputs =
     bind_res (bind_res (bind_res (map_res (\<lambda>(i, c). normalizeSelectionCandidate te nowIso p rq i c) (enumerate 0 inputs)) (mergeSelectionCandidates (te_rt te))) (judge_all te p rq)) (choose_eligible te p rq)"

lemma map_res_total: "(\<And>x. x \<in> set xs \<Longrightarrow> \<exists>y. f x = Inr y) \<Longrightarrow> \<exists>ys. map_res f xs = Inr ys"
proof (induction xs)
  case (Cons x xs)
  then obtain y ys where "f x = Inr y" "map_res f xs = Inr ys" by (metis list.set_intros)
  then show ?case by simp
qed simp

lemma select_chosen:
  assumes "validateContextSelectionPolicy (te_rt te) policy = Inr p" and "validateSelectionRequest (te_rt te) clock request = Inr rq" and "int (length inputs) \<le> sp_maxCandidates p"
    and "chosen_by te nowIso p rq inputs = Inr st" and "list_all (\<lambda>c. map_of (sp_categoryBudgets p) c \<noteq> None) CATEGORY_NAMES"
  shows "\<exists>m. selectContextCandidates te clock nowIso policy gen warnings request inputs = Inr m \<and> mf_selected m = ss_selected st"
proof -
  obtain cs ns j where s: "map_res (\<lambda>(i, c). normalizeSelectionCandidate te nowIso p rq i c) (enumerate 0 inputs) = Inr cs" "mergeSelectionCandidates (te_rt te) cs = Inr ns"
      "judge_all te p rq ns = Inr j" "choose_eligible te p rq j = Inr st"
    using assms(4) unfolding chosen_by_def bind_res_eq_Inr by blast
  have j: "\<not> sp_maxTotalCandidateTokens p < total_tokens ns" "fold_res (judge te p rq (superseded_ids ns)) \<lparr>jd_eligible = [], jd_excluded = []\<rparr> ns = Inr j"
    using s(3) unfolding judge_all_def by (cases "sp_maxTotalCandidateTokens p < total_tokens ns"; simp)+
  let ?cf = "detectConflicts (te_rt te) (map sc_record (jd_eligible j))" and ?xs = "order_by (compareScored (te_rt te)) (map (score_candidate te p rq) (jd_eligible j))"
  have c: "list_all (\<lambda>i. i \<in> cand_id ` set (jd_eligible j)) (cq_requiredIds rq)" "?cf = []" "choose_among te p rq (jd_excluded j) ?xs = Inr st"
    using s(4) unfolding choose_eligible_def by (auto split: if_splits)
  have d: "\<not> \<lfloor>of_int (cq_tokenBudget rq) * sp_requiredBudgetRatio p\<rfloor> < total_tokens (required_first (te_rt te) ?xs)"
      "run_loop te p rq (selection_start (te_rt te) rq ?xs (jd_excluded j)) = Inr st"
    using c(3) unfolding choose_among_def by (auto split: if_splits)
  have "\<exists>bs. categoryBudgetSummary p rq (ss_scored st) = Inr bs" unfolding categoryBudgetSummary_def
  proof (rule map_res_total, goal_cases)
    case (1 c)
    then obtain e where "map_of (sp_categoryBudgets p) c = Some e" using assms(5) by (auto simp: list_all_iff)
    then show ?case by (cases e) (simp add: Let_def)
  qed
  then obtain bs where b: "categoryBudgetSummary p rq (ss_scored st) = Inr bs" by blast
  show ?thesis
    unfolding selectContextCandidates_def Let_def assms(1,2) bind_res_simps s(1,2) j(2) c(2) d(2) [unfolded run_loop_def] finish_selection_def b
    using assms(3) j(1) c(1) d(1) by (simp add: require_def)
qed

text \<open>A runtime and three small runs under the built-in policy.\<close>

definition ex_te :: text_env where
  "ex_te = \<lparr>te_rt = \<lparr>date_parse = (\<lambda>_. None), to_iso = (\<lambda>_. ''t''), num_str = (\<lambda>_. ''1''), sha256_hex = (\<lambda>s. replicate 63 CHR ''0'' @ [hex_digit (length s)]), to_lower = id,
     locale_compare = (\<lambda>a b. if a = b then 0 else if length a < length b then -1 else 1)\<rparr>, te_nfkc = id, te_sqrt = of_nat, te_parse = (\<lambda>_. None)\<rparr>"

definition ex_policy :: sel_policy where
  "ex_policy = typed_policy (te_rt ex_te) CONTEXT_SELECTION_POLICY"

definition ex_record :: "string \<Rightarrow> string option \<Rightarrow> string option \<Rightarrow> ctx_record" where
  "ex_record i w s = \<lparr>rc_id = i, rc_kind = ''fact'', rc_text = ''x'', rc_tokens = Some 1, rc_version = Undef, rc_scope = None, rc_status = None, rc_category = None, rc_workspaceId = w,
     rc_dataClass = None, rc_trustClass = None, rc_confidence = Some 1, rc_authority = Some 1, rc_outcomeEvidence = None, rc_tags = [''t''], rc_relations = [], rc_source = Str ''s'',
     rc_supersedes = s, rc_validFrom = None, rc_validTo = None, rc_updatedAt = None, rc_contentHash = None, rc_fingerprint = None, rc_metadata = Obj []\<rparr>"

definition ex_request :: "string list \<Rightarrow> sel_request" where
  "ex_request ids = \<lparr>rq_id = None, rq_requestId = None, rq_workspaceId = None, rq_taskId = None, rq_objective = ''x'', rq_step = ''x'', rq_tokenBudget = 9, rq_requiredIds = ids,
     rq_requiredEntities = [''t''], rq_allowedScopes = None, rq_allowedDataClasses = None, rq_allowedTrustClasses = None, rq_now = None, rq_trustedTimestamp = None\<rparr>"

definition ex_checked :: "string list \<Rightarrow> checked_request" where
  "ex_checked ids = \<lparr>cq_id = None, cq_requestId = None, cq_workspaceId = ''ws_local'', cq_objective = ''x'', cq_step = ''x'', cq_tokenBudget = 9, cq_requiredIds = ids,
     cq_requiredEntities = [''t''], cq_allowedScopes = [''public'', ''workspace-private''], cq_allowedDataClasses = [''public'', ''workspace-private''],
     cq_allowedTrustClasses = [''verified'', ''trusted'', ''observed'', ''untrusted''], cq_now = 0\<rparr>"

text \<open>One record of the request's workspace; one that a record of another workspace supersedes; and one beside a record whose metadata says it is secret.\<close>

definition ex_one :: "cand_input list" where
  "ex_one = [Sourced (ex_record ''a'' None None) []]"

definition ex_two :: "cand_input list" where
  "ex_two = [Sourced (ex_record ''d'' None None) [], Sourced (ex_record ''c'' (Some ''o'') (Some ''d'')) []]"

definition ex_marked :: "cand_input list" where
  "ex_marked = [Sourced (ex_record ''a'' None None) [], Sourced (ex_record ''b'' None None\<lparr>rc_metadata := Obj [(''dataClass'', Str ''secret'')]\<rparr>) []]"

lemma ex_policy_valid: "validateContextSelectionPolicy (te_rt ex_te) CONTEXT_SELECTION_POLICY = Inr ex_policy"
  by (simp add: validateContextSelectionPolicy_def built_in_policies_are_valid ex_policy_def)

lemma ex_request_valid: "validateSelectionRequest (te_rt ex_te) 0 (ex_request ids) = Inr (ex_checked ids)"
  by (simp add: validateSelectionRequest_def ex_request_def ex_checked_def or_else_def given_def require_def)

lemma ex_policy_budgets: "list_all (\<lambda>c. map_of (sp_categoryBudgets ex_policy) c \<noteq> None) CATEGORY_NAMES \<and> 2 \<le> sp_maxCandidates ex_policy"
  by code_simp

lemma ex_required_run: "map_sum id (map dc_id \<circ> ss_selected) (chosen_by ex_te ''t'' ex_policy (ex_checked [''a'']) ex_one) = Inr [''a'']"
  by code_simp

lemma ex_optional_run: "map_sum id (map dc_id \<circ> ss_selected) (chosen_by ex_te ''t'' ex_policy (ex_checked []) ex_one) = Inr [''a'']"
  by code_simp

lemma ex_superseded_run: "map_sum id (map dc_id \<circ> ss_selected) (chosen_by ex_te ''t'' ex_policy (ex_checked []) ex_two) = Inr []"
  by code_simp

lemma ex_marked_run: "map_sum id (map dc_id \<circ> ss_selected) (chosen_by ex_te ''t'' ex_policy (ex_checked []) ex_marked) = Inr [''a'']"
  by code_simp

lemma ex_selection:
  assumes "map_sum id (map dc_id \<circ> ss_selected) (chosen_by ex_te ''t'' ex_policy (ex_checked ids) inputs) = Inr xs" and "length inputs \<le> 2"
  shows "\<exists>m. selectContextCandidates ex_te 0 ''t'' CONTEXT_SELECTION_POLICY Null [] (ex_request ids) inputs = Inr m \<and> map dc_id (mf_selected m) = xs"
proof -
  obtain st where "chosen_by ex_te ''t'' ex_policy (ex_checked ids) inputs = Inr st" "map dc_id (ss_selected st) = xs"
    using assms(1) by (cases "chosen_by ex_te ''t'' ex_policy (ex_checked ids) inputs") auto
  moreover have "int (length inputs) \<le> sp_maxCandidates ex_policy" using ex_policy_budgets assms(2) by linarith
  note select_chosen [OF ex_policy_valid ex_request_valid this _ conjunct1 [OF ex_policy_budgets]]
  ultimately show ?thesis by metis
qed

lemma ex_small: "length ex_one \<le> 2" "length ex_two \<le> 2" "length ex_marked \<le> 2"
  by (simp_all add: ex_one_def ex_two_def ex_marked_def)

lemmas ex_required = ex_selection [OF ex_required_run ex_small(1)]
lemmas ex_optional = ex_selection [OF ex_optional_run ex_small(1)]
lemmas ex_superseded = ex_selection [OF ex_superseded_run ex_small(2)]
lemmas ex_mixed = ex_selection [OF ex_marked_run ex_small(3)]

section \<open>Witnesses\<close>

theorem selection_fits_budget_witness:
  "\<exists>m. selectContextCandidates ex_te 0 ''t'' CONTEXT_SELECTION_POLICY Null [] (ex_request [''a'']) ex_one = Inr m \<and> map dc_id (mf_selected m) = [''a''] \<and> mf_used m \<le> mf_available m"
proof -
  obtain m where m: "selectContextCandidates ex_te 0 ''t'' CONTEXT_SELECTION_POLICY Null [] (ex_request [''a'']) ex_one = Inr m" "map dc_id (mf_selected m) = [''a'']"
    by (rule exE [OF ex_required]) (elim conjE, rule that)
  show ?thesis by (rule exI [of _ m], intro conjI m, rule conjunct1 [OF conjunct2 [OF selection_fits_budget [OF m(1)]]])
qed

theorem every_candidate_is_decided_once_witness:
  "\<exists>m. selectContextCandidates ex_te 0 ''t'' CONTEXT_SELECTION_POLICY Null [] (ex_request []) ex_two = Inr m \<and> set (map dc_id (mf_selected m @ mf_excluded m)) = {''c'', ''d''}"
proof -
  obtain m where m: "selectContextCandidates ex_te 0 ''t'' CONTEXT_SELECTION_POLICY Null [] (ex_request []) ex_two = Inr m"
    by (rule exE [OF ex_superseded]) (elim conjE, rule that)
  have "(\<lambda>c. rc_id (input_record c)) ` set ex_two = {''c'', ''d''}" by (auto simp: ex_two_def ex_record_def)
  then show ?thesis using m every_candidate_is_decided_once [OF m] by metis
qed

theorem only_admissible_records_are_selected_witness:
  "\<exists>m. selectContextCandidates ex_te 0 ''t'' CONTEXT_SELECTION_POLICY Null [] (ex_request []) ex_marked = Inr m \<and> map dc_id (mf_selected m) = [''a''] \<and>
     (\<forall>d \<in> set (mf_selected m). \<exists>r \<in> input_record ` set ex_marked. dc_id d = rc_id r \<and> declared_data_class (te_rt ex_te) r \<noteq> ''secret'') \<and>
     declared_data_class (te_rt ex_te) (input_record (ex_marked ! 1)) = ''secret''"
proof -
  obtain m where m: "selectContextCandidates ex_te 0 ''t'' CONTEXT_SELECTION_POLICY Null [] (ex_request []) ex_marked = Inr m" "map dc_id (mf_selected m) = [''a'']"
    by (rule exE [OF ex_mixed]) (elim conjE, rule that)
  have "\<exists>r \<in> input_record ` set ex_marked. dc_id d = rc_id r \<and> declared_data_class (te_rt ex_te) r \<noteq> ''secret''" if "d \<in> set (mf_selected m)" for d
    using only_admissible_records_are_selected [OF m(1) that] by (elim bexE conjE) (intro bexI conjI)
  moreover have "declared_data_class (te_rt ex_te) (input_record (ex_marked ! 1)) = ''secret''"
    by (simp add: ex_marked_def ex_record_def declared_data_class_def)
  ultimately show ?thesis by (intro exI [of _ m] conjI m ballI)
qed

theorem mandatory_records_come_first_witness:
  "\<exists>m. selectContextCandidates ex_te 0 ''t'' CONTEXT_SELECTION_POLICY Null [] (ex_request [''a'']) ex_one = Inr m \<and> ''a'' \<in> set (map dc_id (mf_selected m)) \<and>
     map dc_order (mf_selected m) = map (\<lambda>i. Some (Suc i)) [0..<length (mf_selected m)]"
proof -
  obtain m where m: "selectContextCandidates ex_te 0 ''t'' CONTEXT_SELECTION_POLICY Null [] (ex_request [''a'']) ex_one = Inr m"
    by (rule exE [OF ex_required]) (elim conjE, rule that)
  show ?thesis using m mandatory_records_come_first [OF m] by (auto simp: ex_request_def)
qed

theorem optional_records_respect_caps_witness:
  "\<exists>m. selectContextCandidates ex_te 0 ''t'' CONTEXT_SELECTION_POLICY Null [] (ex_request []) ex_one = Inr m \<and> length (mf_selected m) = 1 \<and> int (length (mf_selected m)) \<le> sp_maxSelectedCandidates ex_policy"
proof -
  obtain m where m: "selectContextCandidates ex_te 0 ''t'' CONTEXT_SELECTION_POLICY Null [] (ex_request []) ex_one = Inr m" "map dc_id (mf_selected m) = [''a'']"
    by (rule exE [OF ex_optional]) (elim conjE, rule that)
  obtain d where d: "mf_selected m = [d]" "dc_id d = ''a''" using m(2) by auto
  obtain st where st: "stages ex_te 0 ''t'' CONTEXT_SELECTION_POLICY Null [] (ex_request []) ex_one m st" using selection_stages [OF m(1)] by blast
  obtain x where x: "x \<in> set (rs_scored st)" "shows_record d x" using selected_scored [OF st, of d] d(1) by auto
  have "rc_kind (sc_record x) = ''fact''" using selected_kind [OF st x(1)] by (auto simp: ex_one_def ex_record_def)
  then have "\<not> mandatory (rq_requiredIds (ex_request [])) d" using x(2) by (simp add: mandatory_def shows_record_def ex_request_def)
  from optional_records_respect_caps [OF m(1) ex_policy_valid _ this] show ?thesis using m(1) d(1) by simp
qed

theorem superseded_records_are_never_selected_witness:
  "\<exists>m. selectContextCandidates ex_te 0 ''t'' CONTEXT_SELECTION_POLICY Null [] (ex_request []) ex_two = Inr m \<and> ''d'' \<in> rc_id ` input_record ` set ex_two \<and> ''d'' \<notin> set (map dc_id (mf_selected m))"
proof -
  obtain m where m: "selectContextCandidates ex_te 0 ''t'' CONTEXT_SELECTION_POLICY Null [] (ex_request []) ex_two = Inr m"
    by (rule exE [OF ex_superseded]) (elim conjE, rule that)
  let ?b = "Sourced (ex_record ''d'' None None) []" and ?c = "Sourced (ex_record ''c'' (Some ''o'') (Some ''d'')) []"
  have two: "ex_two = [?b] @ ?c # []" by (simp add: ex_two_def)
  have "rc_id (input_record ?c) \<notin> rc_id ` input_record ` set [?b]" "rc_supersedes (input_record ?c) = Some ''d''" "''d'' \<noteq> []" "''d'' \<in> rc_id ` input_record ` set ex_two"
    by (simp_all add: ex_two_def ex_record_def)
  then show ?thesis using m superseded_records_are_never_selected [OF m [unfolded two]] by blast
qed

definition ex_scored :: scored where
  "ex_scored = \<lparr>sc_record = ex_record ''a'' None None, sc_hits = [], sc_inputIndex = 0, el_category = ''evidence'', el_shingles = [], sd_fusion = \<lparr>fu_score = 0, fu_contributions = []\<rparr>, sd_values = [],
     sd_contributions = [], sd_baseUtility = 1, sd_rawUtility = 1, sd_required = False, sd_governance = False, sd_reasonCodes = []\<rparr>"

abbreviation ex_start :: sel_state where
  "ex_start \<equiv> selection_start (te_rt ex_te) (ex_checked []) [ex_scored] []"

lemma ex_start_fields:
  "required_first rt [ex_scored] = []" "ss_optional ex_start = [ex_scored]" "ss_scored ex_start = []" "ss_cache ex_start = Map.empty" "ss_compared ex_start = 0"
  by (simp_all add: required_first_def selection_start_def ex_scored_def)

theorem greedy_choice_is_exact_witness:
  "\<exists>b st'. find_best (te_rt ex_te) ex_policy (ex_checked []) (ss_optional ex_start) None ex_start = Inr (Some b, st') \<and> cand_id b = ''a'' \<and>
     Some b = best_choice (te_rt ex_te) ex_policy (ex_checked []) ex_start (ss_optional ex_start) None"
proof -
  obtain b st' where b: "find_best (te_rt ex_te) ex_policy (ex_checked []) (ss_optional ex_start) None ex_start = Inr (Some b, st')" "cand_id b = ''a''"
    by (simp add: ex_start_fields redundancyFor_def given_def Let_def) (simp add: ex_scored_def ex_record_def)
  have "distinct (map cand_id [ex_scored])" "total_tokens (required_first (te_rt ex_te) [ex_scored]) \<le> cq_tokenBudget (ex_checked [])"
    by (simp_all add: ex_start_fields ex_checked_def)
  from greedy_choice_is_exact [OF this rtranclp.rtrancl_refl b(1)] show ?thesis using b by blast
qed

theorem selection_loop_ends_witness:
  "select_loop 5 (te_rt ex_te) ex_policy (ex_checked []) [] ex_start = select_loop 1 (te_rt ex_te) ex_policy (ex_checked []) [] ex_start"
proof -
  have d: "distinct (map cand_id [ex_scored])" and t: "total_tokens (required_first (te_rt ex_te) [ex_scored]) \<le> cq_tokenBudget (ex_checked [])"
      and l: "length (ss_optional ex_start) \<le> 5" "length (ss_optional ex_start) = 1"
    unfolding ex_start_fields by (simp_all add: ex_checked_def)
  from conjunct1 [OF selection_loop_ends [OF d t l(1), where p = ex_policy and cf = "[]"]] show ?thesis unfolding l(2) .
qed

text \<open>A public and a secret copy of a record merge into a public one.\<close>

definition ex_copy :: "string \<Rightarrow> sel_candidate" where
  "ex_copy data = \<lparr>sc_record = ex_record ''a'' None None\<lparr>rc_dataClass := Some data\<rparr>, sc_hits = [], sc_inputIndex = 0\<rparr>"

theorem merging_keeps_the_first_classification_witness:
  "\<exists>e. mergeSelectionCandidates (te_rt ex_te) [ex_copy ''public'', ex_copy ''secret''] = Inr [e] \<and> rc_dataClass (sc_record e) = Some ''public''"
proof -
  have "\<exists>e. mergeSelectionCandidates (te_rt ex_te) [ex_copy ''public'', ex_copy ''secret''] = Inr [e]"
    by (simp add: mergeSelectionCandidates_def merge_candidate_def ex_copy_def ex_record_def upd_where_def orelse_def by_id_def)
  then obtain e where e: "mergeSelectionCandidates (te_rt ex_te) [ex_copy ''public'', ex_copy ''secret''] = Inr [e]" by blast
  have "absorbed (te_rt ex_te) [ex_copy ''public'', ex_copy ''secret''] (ex_copy ''secret'') e"
    using merging_keeps_the_first_classification [OF e] by simp
  then show ?thesis using e by (simp add: absorbed_def ex_copy_def ex_record_def)
qed

end
