(* ===== verification/Spec2Isabelle.thy ===== *)
theory Spec2Isabelle
  imports Prelude Js Splitting Regex Protocol MemoryCore MemoryQueue MemoryFacts MemoryGraph JsDyn Policy Durable DurableFinal DurableRuns Schema ToolManifest ToolGrants ToolBroker ToolRegistry ToolService Identity ContextText ContextPolicy ContextCandidates ContextSelect ContextSafe
begin

text \<open>
  Verification of the Memory-Recall runtime.

  The repository is a local-first runtime for agents: a memory with a reviewed lifecycle, a
  durable workflow engine, a registry of tools behind a policy, local identities, and a
  compiler that chooses the context an agent gets. This development models the packages that
  hold the runtime's own decisions and proves what makes them correct. Around them the
  repository has I/O (command line, HTTP server, user interface), which is not modelled.

  How the parts interact. Tools, policies and events meet in the registry: a call of
  tool-registry validates its input against the tool's schema (protocol), asks the policy
  service for a decision (policy), consumes a one-use grant when the decision demands it, and
  runs the handler behind brokers that confine it to the capability the policy admitted.
  Memory candidates enter the proposal queue of memory-sqlite, are leased to workers, reviewed
  under memory-core and become temporal facts only through the gate of an applied proposal;
  the graph views read those facts. The workflow engine runs definitions as steps with
  approvals, timers and effects in SQLite tables. The context compiler selects from records
  of that memory under a token budget. Operations are bound to approvals, grants, proposals
  and manifests by fingerprints, the canonical text of protocol/src/fingerprint.mjs.

  Theories and sources (paths under src/).

  \<^item> Prelude: results of fallible code, rows of tables, and two interfaces that the components
    share: a system of steps with an invariant, and a total preorder to sort by. Every state
    machine below interprets the first on its own steps; Durable adds the interfaces of the
    relations and bodies of a workflow transaction.
  \<^item> Js, JsDyn, Regex, Splitting: values of the language, the operators and exceptions the
    code relies on, a backtracking matcher for its regular expressions, and splitting of text.
  \<^item> Protocol: packages/protocol/src/fingerprint.mjs and index.mjs. Schema:
    packages/protocol/src/schema-validator.mjs.
  \<^item> MemoryCore: packages/memory-core/src/index.mjs. MemoryQueue, MemoryFacts, MemoryGraph:
    providers/native/memory-sqlite/src/index.mjs (proposal queue; proposal gate and temporal
    facts; graph views).
  \<^item> Policy: packages/policy/src/index.mjs.
  \<^item> Durable, DurableFinal, DurableRuns: providers/native/workflow-durable-sqlite/src/index.mjs
    (operations and history; which runs are final; effects, progress, termination).
  \<^item> ToolManifest, ToolGrants, ToolBroker, ToolRegistry, ToolService:
    packages/tool-registry/src/index.mjs (reviewed manifests and the pinned catalog; grants
    and effect boundary; brokers; execution; registration and built-in tools).
  \<^item> Identity: providers/native/identity-local/src/index.mjs.
  \<^item> ContextText, ContextPolicy, ContextCandidates, ContextSelect, ContextSafe:
    packages/context-compiler/src/index.mjs (terms, views and normalised records; selection
    policies; candidates, eligibility and scores; the selection loop and its report; what a
    selection promises). The function selectContextCandidates is the definition of the same
    name, its while loop is select_loop over the record sel_state, and one iteration is
    select_round.

  How the code is represented. A class with mutable state or a database is a record or a list
  of rows that operations take and return; a transaction that throws returns an error and no
  state. An exception is a value on the left of a sum, with the code's own error codes. Code
  between two awaits is one atomic operation, and interleavings of workers, handlers,
  operators and concurrent calls are sequences of such operations, given as step relations
  whose invariants are proved by induction over reachable states. Values of unknown shape are
  a datatype of the language's values. Clock readings, fresh identifiers, random bytes,
  SHA-256, Date.parse, localeCompare, number formatting, the file system, URL parsing, the
  network, SQLite's full-text match and the tool handlers are arguments; theorems that depend
  on such an argument state what they need of it, and their witnesses instantiate it.

  What is shown, by component.

  \<^item> Protocol: the canonical text does not depend on the order of keys and determines the
    value, so equal fingerprints mean equal operations up to collisions; the validator finds
    an issue exactly when the value does not conform to its schema.
  \<^item> Memory: an active memory was reviewed and secrets never become usable; a proposal's
    lease is exclusive and attempts are bounded; a fact is written only under an applied
    proposal whose payload it matches; a superseding fact closes the earlier ones; the path
    search is exact; the graph view refines the valid facts.
  \<^item> Policy and tools: an allowing decision implies every condition of the policy and the
    capability lies in the tool's declaration; handlers run only after an allowing decision,
    with brokers that keep writes and requests inside the declared scope; a grant is used at
    most once; only reviewed tools are registered.
  \<^item> Workflows: the event history of a run has no gaps; committed effects and completed runs
    are final; work that can be claimed is claimed; a tick ends.
  \<^item> Identity: a new login ends the earlier sessions and revocation is final, in every later
    state; a token gives only active memberships of its active user, in workspaces that user
    has owned; a stored password verifies.
  \<^item> Context: a selection stays within its budget, decides every input exactly once, selects
    only records of the workspace and of the allowed classes, puts mandatory records first
    and keeps the caps for the others; the cached choice of a round is the exhaustive one and
    greedy; a compacted view fits the bound it was asked for.

  Where the code does something other than it means to, the theorem states what the code does:
  a fact can be written into another workspace, an understated capability skips the approval,
  a bootstrap can lock the owner out, a record of another workspace can supersede a record out
  of a selection, and merging keeps the first classification of a record.

  Bounds and fuel. Where a loop of the code has no structural measure, the model counts:
  claiming of work takes one more than the number of step rows, since every round completes a
  timer step (tick_terminates); the selection loop takes the number of optional records, and more does not
  change the result (selection_loop_ends); the schema validator takes the depth of the call
  stack that is left, and running out of it is the RangeError of the engine, so no theorem
  assumes that it returns. Regular expressions take the length of the text. Breadth-first
  search and label propagation are bounded by the code itself.

  Choices that bound what the theorems say. Strings are lists of 8-bit characters, so the
  length of a string is its number of bytes and code points outside Latin-1 do not occur.
  Numbers are exact rationals in place of floating-point numbers, with None for NaN where the
  code can produce it; 32-bit operations are written out on words where the code uses them
  (the scrypt parameters in Identity). The square root that scores use is an argument. Objects have no own toString or valueOf and no getters.

  Not modelled. The command line, the HTTP server and its route table, the web interface, the
  PostgreSQL repositories and scripts are I/O around the modelled packages. The harness
  context is text templates and hook files. The candidate providers extract symbols from
  source texts by heuristics. The record table with its FTS5 index lives in SQLite. Of the
  context compiler, the asynchronous candidate sources, profile reports, the assembled text
  with its durable manifests and the feedback reports are left out, and so are protocol
  bridges, model gateways, evaluation, release and observability reports, the artifact store
  and the in-memory workflow engine that the durable one replaces. Telemetry, deep freezing
  and health reports have no behaviour to state.
\<close>

end
